(* ===== verification/ACS_Prelude.thy ===== *)
theory ACS_Prelude
  imports Main
begin

text \<open>
  The shared library of the development.

  \<^item> Python exceptions are values: an operation that may raise returns \<open>exn + 'a\<close>, with
    \<open>Inl\<close> for the exception. \<open>rbind\<close> sequences two such steps, the way two Python
    statements follow each other.
  \<^item> A relational table is a list of rows. \<open>find\<close> is \<open>SELECT ... LIMIT 1\<close>,
    \<open>update_where\<close> is \<open>UPDATE ... WHERE\<close>; the lemmas on both are kept in
    \<open>table_simps\<close>.
  \<^item> Four interfaces are stated as locales: \<open>row_store\<close> (a table with a primary key),
    \<open>step_invariant\<close> (an invariant kept by a step relation), \<open>ranked_steps\<close> (a step
    relation along which a rank never decreases) and \<open>idempotent_journal\<close> (a journal that
    admits a command once and replays its result). Each component interprets them on its own
    definitions.
\<close>

section \<open>Collections of lemmas\<close>

named_theorems table_simps \<open>facts on SELECT, INSERT and UPDATE over lists of rows\<close>
named_theorems res_elims \<open>inversion of successful results\<close>

section \<open>Results\<close>

definition rbind :: "'e + 'a \<Rightarrow> ('a \<Rightarrow> 'e + 'b) \<Rightarrow> 'e + 'b" where
  "rbind r f = (case r of Inl e \<Rightarrow> Inl e | Inr x \<Rightarrow> f x)"

definition guard :: "bool \<Rightarrow> 'e \<Rightarrow> 'e + unit" where
  "guard b e = (if b then Inr () else Inl e)"

lemma rbind_Inl [simp]: "rbind (Inl e) f = Inl e"
  by (simp add: rbind_def)

lemma rbind_Inr [simp]: "rbind (Inr x) f = f x"
  by (simp add: rbind_def)

lemma rbind_eq_Inr [simp]: "rbind r f = Inr y \<longleftrightarrow> (\<exists>x. r = Inr x \<and> f x = Inr y)"
  by (cases r) (auto simp: rbind_def)

lemma rbind_eq_Inl: "rbind r f = Inl e \<longleftrightarrow> r = Inl e \<or> (\<exists>x. r = Inr x \<and> f x = Inl e)"
  by (cases r) (auto simp: rbind_def)

lemma guard_eq_Inr [simp]: "guard b e = Inr x \<longleftrightarrow> b"
  by (cases x) (auto simp: guard_def)

lemma guard_eq_Inl [simp]: "guard b e = Inl e' \<longleftrightarrow> \<not> b \<and> e' = e"
  by (auto simp: guard_def)

lemma guard_simps [simp]: "guard True e = Inr ()" "guard False e = Inl e"
  by (auto simp: guard_def)

section \<open>Tables\<close>

definition update_where :: "('r \<Rightarrow> bool) \<Rightarrow> ('r \<Rightarrow> 'r) \<Rightarrow> 'r list \<Rightarrow> 'r list" where
  "update_where p f rows = map (\<lambda>r. if p r then f r else r) rows"

lemma length_update_where [simp]: "length (update_where p f rows) = length rows"
  by (simp add: update_where_def)

lemma update_where_Nil [simp]: "update_where p f [] = []"
  by (simp add: update_where_def)

lemma update_where_Cons [simp]:
  "update_where p f (r # rows) = (if p r then f r else r) # update_where p f rows"
  by (simp add: update_where_def)

lemma update_where_append [simp]:
  "update_where p f (xs @ ys) = update_where p f xs @ update_where p f ys"
  by (simp add: update_where_def)

lemma set_update_where:
  "set (update_where p f rows) = (\<lambda>r. if p r then f r else r) ` set rows"
  by (simp add: update_where_def)

lemma update_where_none [table_simps]:
  "(\<And>r. r \<in> set rows \<Longrightarrow> \<not> p r) \<Longrightarrow> update_where p f rows = rows"
  by (induction rows) (auto simp: update_where_def)

lemma map_update_where [table_simps]:
  "(\<And>r. key (f r) = key r) \<Longrightarrow> map key (update_where p f rows) = map key rows"
  by (induction rows) (auto simp: update_where_def)

lemma find_append [table_simps]:
  "find p (xs @ ys) = (case find p xs of None \<Rightarrow> find p ys | Some r \<Rightarrow> Some r)"
  by (induction xs) auto

lemma find_None_iff_all [table_simps]: "find p xs = None \<longleftrightarrow> (\<forall>x \<in> set xs. \<not> p x)"
  by (induction xs) auto

lemma find_SomeD: "find p xs = Some r \<Longrightarrow> r \<in> set xs \<and> p r"
  by (induction xs) (auto split: if_splits)

lemma find_Some_iff_key:
  "distinct (map key xs) \<Longrightarrow> find (\<lambda>r. key r = k) xs = Some r \<longleftrightarrow> r \<in> set xs \<and> key r = k"
  by (induction xs) (auto simp: image_iff)

lemma find_update_where [table_simps]:
  "(\<And>r. q (f r) = q r) \<Longrightarrow>
   find q (update_where p f xs) = map_option (\<lambda>r. if p r then f r else r) (find q xs)"
  by (induction xs) auto

lemma key_unique:
  "distinct (map key xs) \<Longrightarrow> r \<in> set xs \<Longrightarrow> s \<in> set xs \<Longrightarrow> key r = key s \<Longrightarrow> r = s"
  by (induction xs) (auto simp: image_iff)

lemma filter_key_at_most_one:
  "distinct (map key xs) \<Longrightarrow> length (filter (\<lambda>r. key r = k) xs) \<le> 1"
proof (induction xs)
  case (Cons x xs)
  then show ?case
    by (auto simp: filter_empty_conv image_iff)
qed simp

lemma filter_key_one:
  "distinct (map key xs) \<Longrightarrow> k \<in> key ` set xs \<Longrightarrow> length (filter (\<lambda>r. key r = k) xs) = 1"
proof (induction xs)
  case (Cons x xs)
  then show ?case by (cases "key x = k") (auto simp: filter_empty_conv image_iff)
qed simp

section \<open>Interfaces\<close>

text \<open>
  A table with a primary key: what a client may rely on after an \<open>INSERT\<close> whose key is
  absent.
\<close>

locale row_store =
  fixes lookup :: "'k \<Rightarrow> 'db \<Rightarrow> 'r option"
    and insert_row :: "'r \<Rightarrow> 'db \<Rightarrow> 'db"
    and key :: "'r \<Rightarrow> 'k"
    and wf :: "'db \<Rightarrow> bool"
  assumes lookup_key: "lookup k d = Some r \<Longrightarrow> key r = k"
    and lookup_insert: "wf d \<Longrightarrow> lookup (key r) d = None \<Longrightarrow>
      lookup k (insert_row r d) = (if k = key r then Some r else lookup k d)"
    and wf_insert: "wf d \<Longrightarrow> lookup (key r) d = None \<Longrightarrow> wf (insert_row r d)"
begin

definition insert_absent :: "'r \<Rightarrow> 'db \<Rightarrow> 'db" where
  "insert_absent r d = (case lookup (key r) d of None \<Rightarrow> insert_row r d | Some _ \<Rightarrow> d)"

lemma insert_absent_wf: "wf d \<Longrightarrow> wf (insert_absent r d)"
  by (auto simp: insert_absent_def wf_insert split: option.splits)

lemma insert_absent_keeps: "wf d \<Longrightarrow> lookup k d = Some s \<Longrightarrow> lookup k (insert_absent r d) = Some s"
  by (auto simp: insert_absent_def lookup_insert split: option.splits)

lemma insert_absent_present: "wf d \<Longrightarrow> \<exists>s. lookup (key r) (insert_absent r d) = Some s"
  by (auto simp: insert_absent_def lookup_insert split: option.splits)

lemma insert_absent_idem: "wf d \<Longrightarrow> insert_absent r (insert_absent r d) = insert_absent r d"
  using insert_absent_present [of d r] by (auto simp: insert_absent_def [of r "insert_absent r d"])

lemma insert_row_keeps:
  "wf d \<Longrightarrow> lookup (key r) d = None \<Longrightarrow> lookup k d = Some s \<Longrightarrow> lookup k (insert_row r d) = Some s"
  by (auto simp: lookup_insert)

end

text \<open>An invariant that every step keeps holds along every run.\<close>

locale step_invariant =
  fixes step :: "'s \<Rightarrow> 's \<Rightarrow> bool"
    and inv :: "'s \<Rightarrow> bool"
  assumes inv_step: "inv s \<Longrightarrow> step s t \<Longrightarrow> inv t"
begin

lemma inv_run: "step\<^sup>*\<^sup>* s t \<Longrightarrow> inv s \<Longrightarrow> inv t"
  by (induction rule: rtranclp_induct) (auto intro: inv_step)

end

text \<open>A rank that no step lowers: what was reached is never taken back.\<close>

locale ranked_steps = step_invariant step inv
  for step :: "'s \<Rightarrow> 's \<Rightarrow> bool" and inv :: "'s \<Rightarrow> bool" +
  fixes rank :: "'s \<Rightarrow> 'o :: preorder"
  assumes rank_step: "inv s \<Longrightarrow> step s t \<Longrightarrow> rank s \<le> rank t"
begin

lemma rank_run: "step\<^sup>*\<^sup>* s t \<Longrightarrow> inv s \<Longrightarrow> rank s \<le> rank t"
proof (induction rule: rtranclp_induct)
  case (step u v)
  from step.hyps(1) step.prems have "inv u" by (rule inv_run)
  with step.hyps(2) have "rank u \<le> rank v" by (auto intro: rank_step)
  with step.IH step.prems show ?case by (auto intro: order_trans)
qed simp

end

text \<open>
  A command journal: \<open>admit\<close> answers \<open>None\<close> when the command is new and is now recorded
  with its result, \<open>Some\<close> result when it is a replay. \<open>stored c r s\<close> says that the journal
  holds the command \<open>c\<close> with the result \<open>r\<close>; \<open>shares\<close> is the collision of two
  commands in an identity that must be unique.
\<close>

locale idempotent_journal =
  fixes admit :: "'c \<Rightarrow> 'r \<Rightarrow> 's \<Rightarrow> 'e + ('r option \<times> 's)"
    and stored :: "'c \<Rightarrow> 'r \<Rightarrow> 's \<Rightarrow> bool"
    and fits :: "'c \<Rightarrow> 'r \<Rightarrow> bool"
    and mark :: "'r \<Rightarrow> 'r"
    and shares :: "'c \<Rightarrow> 'c \<Rightarrow> bool"
  assumes admit_new: "admit c r s = Inr (None, t) \<Longrightarrow> stored c r t"
    and admit_replay: "admit c r s = Inr (Some x, t) \<Longrightarrow> t = s"
    and stored_keeps: "stored c r s \<Longrightarrow> admit d q s = Inr (y, t) \<Longrightarrow> stored c r t"
    and stored_replays: "stored c r s \<Longrightarrow> fits c r \<Longrightarrow> admit c q s = Inr (Some (mark r), s)"
    and stored_excludes: "stored c r s \<Longrightarrow> shares c d \<Longrightarrow> admit d q s \<noteq> Inr (None, t)"
begin

definition admit_step :: "'c \<times> 'r \<Rightarrow> 's \<Rightarrow> 's" where
  "admit_step x s = (case admit (fst x) (snd x) s of Inl _ \<Rightarrow> s | Inr (_, t) \<Rightarrow> t)"

lemma stored_step: "stored c r s \<Longrightarrow> stored c r (admit_step x s)"
  by (auto simp: admit_step_def intro: stored_keeps split: sum.split)

lemma stored_run: "stored c r s \<Longrightarrow> stored c r (fold admit_step xs s)"
  by (induction xs arbitrary: s) (auto intro: stored_step)

lemma retry_replays:
  "admit c r s = Inr (None, t) \<Longrightarrow> fits c r \<Longrightarrow>
   admit c q (fold admit_step xs t) = Inr (Some (mark r), fold admit_step xs t)"
  by (rule stored_replays [OF stored_run [OF admit_new]])

lemma executed_once:
  "admit c r s = Inr (None, t) \<Longrightarrow> shares c d \<Longrightarrow> admit d q (fold admit_step xs t) \<noteq> Inr (None, u)"
  by (rule stored_excludes [OF stored_run [OF admit_new]])

end

end
