(* ===== verification/Runtime_Errors.thy ===== *)
theory Runtime_Errors
  imports ACS_Prelude
begin

text \<open>
  The exceptions of \<open>src/runtime/errors.py\<close>, one constructor per class with the fields of
  its dataclass, together with the built-in exceptions the modelled modules raise and the
  exception classes that \<open>delivery.py\<close>, \<open>delivery_node.py\<close> and \<open>node.py\<close> define for themselves. A Python
  \<open>except C\<close> clause catches a class with its subclasses: \<open>is_authorization_denied\<close>,
  \<open>is_value_error\<close> and \<open>is_node_journal_error\<close> decide that.
\<close>

datatype exn =
    InvalidToolArgument string string
  | AuthorizationDenied string string "string option" "string option"
  | IdentityRejected string string string
  | BusinessDeadlineExpired string
  | RevisionConflict string int int "string option" "string option"
  | IdempotencyConflict string
  | InvalidTransition string string
  | AcceptanceGuardFailed string
  | LeaseRejected string string
  | FencingRejected string
  | NotFound string string
  | SchemaAdoptionError string string string
  | EffectUnavailable string string
  | ValueError string
  | TypeError string
  | PyKeyError string
  | IntegrityError string
  | DeliveryRejected string string
  | FilesystemError string
  | OperationIdentityConflict string
  | JournalCorruptionError string
  | UncertainSpawnError string
  | ReceiptOrderError string
  | NotFoundError string
  | AttributeError string
  | RuntimeError string
  | DeliveryTransportError string
  | DeliveryBoundaryRejected string
  | InvocationPreCallRejected string
  | InvocationDeferred string
  | OSError string

type_synonym 'a result = "exn + 'a"

abbreviation denied :: "string \<Rightarrow> string \<Rightarrow> exn" where
  "denied p g \<equiv> AuthorizationDenied p g None None"

abbreviation revision_conflict :: "string \<Rightarrow> int \<Rightarrow> int \<Rightarrow> exn" where
  "revision_conflict t e a \<equiv> RevisionConflict t e a None None"

fun is_authorization_denied :: "exn \<Rightarrow> bool" where
  "is_authorization_denied (AuthorizationDenied _ _ _ _) = True"
| "is_authorization_denied (IdentityRejected _ _ _) = True"
| "is_authorization_denied _ = False"

fun is_value_error :: "exn \<Rightarrow> bool" where
  "is_value_error (ValueError _) = True"
| "is_value_error (InvalidToolArgument _ _) = True"
| "is_value_error (OperationIdentityConflict _) = True"
| "is_value_error (ReceiptOrderError _) = True"
| "is_value_error _ = False"

fun is_node_journal_error :: "exn \<Rightarrow> bool" where
  "is_node_journal_error (OperationIdentityConflict _) = True"
| "is_node_journal_error (JournalCorruptionError _) = True"
| "is_node_journal_error (UncertainSpawnError _) = True"
| "is_node_journal_error (ReceiptOrderError _) = True"
| "is_node_journal_error (NotFoundError _) = True"
| "is_node_journal_error _ = False"

text \<open>
  The classes of \<open>delivery_node.py\<close>: a deferred invocation is a pre-call rejection, and that is
  a boundary rejection. \<open>exn_text\<close> is \<open>str(error)\<close> where a handler looks at it.
\<close>

fun is_pre_call_rejected :: "exn \<Rightarrow> bool" where
  "is_pre_call_rejected (InvocationPreCallRejected _) = True"
| "is_pre_call_rejected (InvocationDeferred _) = True"
| "is_pre_call_rejected _ = False"

fun is_invocation_deferred :: "exn \<Rightarrow> bool" where
  "is_invocation_deferred (InvocationDeferred _) = True"
| "is_invocation_deferred _ = False"

fun is_boundary_rejected :: "exn \<Rightarrow> bool" where
  "is_boundary_rejected (DeliveryBoundaryRejected _) = True"
| "is_boundary_rejected e = is_pre_call_rejected e"

fun exn_text :: "exn \<Rightarrow> string" where
  "exn_text (InvocationPreCallRejected s) = s"
| "exn_text (InvocationDeferred s) = ''target_'' @ s"
| "exn_text (DeliveryBoundaryRejected s) = s"
| "exn_text (DeliveryTransportError s) = s"
| "exn_text (DeliveryRejected s _) = s"
| "exn_text _ = []"

end
