(* ===== verification/Json_Payload.thy ===== *)
theory Json_Payload
  imports Runtime_Errors "HOL-Library.List_Lexorder" "HOL-Library.Char_ord"
begin

text \<open>
  \<open>src/runtime/json_payload.py\<close>: the structural limits on command payloads.

  \<open>pyval\<close> is a Python value as \<open>bounded_payload\<close> sees it. A character is a code point
  below 256; a float is given by its \<open>repr\<close> and by whether it is finite; \<open>PyOther\<close> is a
  value of any other type, named by its type. An integer has any size, but Python refuses to print one of
  more than 4300 digits (\<open>ints_print\<close>).

  \<open>bounded_payload\<close> walks the value with an explicit stack (\<open>payload_loop\<close>). The main
  lemma of this theory, \<open>payload_loop_iff\<close>, shows that the loop accepts exactly the values
  whose recursive structure is within the limits (\<open>payload_ok\<close>, with \<open>nodes\<close> and
  \<open>depth_ok\<close>).
\<close>

datatype pyval =
    PyNone
  | PyBool bool
  | PyInt int
  | PyFloat string bool
  | PyStr string
  | PyDict "(pyval \<times> pyval) list"
  | PyList "pyval list"
  | PyTuple "pyval list"
  | PyOther string

text \<open>\<open>dict.get\<close> on the entries of a dictionary.\<close>

definition dict_get :: "(pyval \<times> pyval) list \<Rightarrow> string \<Rightarrow> pyval option" where
  "dict_get kvs k = map_of kvs (PyStr k)"

definition MAX_COMMAND_BYTES :: nat where "MAX_COMMAND_BYTES = 1024 * 1024"
definition MAX_JSON_DEPTH :: nat where "MAX_JSON_DEPTH = 32"
definition MAX_JSON_NODES :: nat where "MAX_JSON_NODES = 20000"

fun is_PyStr :: "pyval \<Rightarrow> bool" where
  "is_PyStr (PyStr _) = True"
| "is_PyStr _ = False"

fun children :: "pyval \<Rightarrow> pyval list" where
  "children (PyDict kvs) = map snd kvs"
| "children (PyList xs) = xs"
| "children (PyTuple xs) = xs"
| "children _ = []"

text \<open>The checks on one popped item, in the order of the loop body.\<close>

fun item_check :: "pyval \<Rightarrow> unit result" where
  "item_check (PyDict kvs) =
     (if length kvs > MAX_JSON_NODES \<or> (\<exists>kv \<in> set kvs. \<not> is_PyStr (fst kv))
      then Inl (ValueError ''payload object keys are invalid'') else Inr ())"
| "item_check (PyList xs) =
     (if length xs > MAX_JSON_NODES then Inl (ValueError ''payload array exceeds limits'') else Inr ())"
| "item_check (PyTuple xs) =
     (if length xs > MAX_JSON_NODES then Inl (ValueError ''payload array exceeds limits'') else Inr ())"
| "item_check (PyOther _) = Inl (ValueError ''payload contains a non-JSON value'')"
| "item_check (PyFloat _ is_finite) =
     (if is_finite then Inr () else Inl (ValueError ''payload contains a non-finite number''))"
| "item_check _ = Inr ()"

lemma children_size: "x \<in> set (children v) \<Longrightarrow> size x < size v"
proof (cases v)
  case (PyDict kvs)
  assume "x \<in> set (children v)"
  with PyDict obtain k where kx: "(k, x) \<in> set kvs" by auto
  then have "size_prod size size (k, x) \<le> size_list (size_prod size size) kvs"
    by (rule size_list_estimation') simp
  with PyDict show ?thesis by simp
qed (auto dest: size_list_estimation' [of _ _ _ size, OF _ order_refl])

function nodes :: "pyval \<Rightarrow> nat" where
  "nodes v = Suc (sum_list (map nodes (children v)))"
  by pat_completeness auto
termination
  by (relation "measure size") (auto intro: children_size)

declare nodes.simps [simp del]

lemma nodes_pos: "0 < nodes v"
  by (simp add: nodes.simps)

text \<open>
  The \<open>while pending\<close> loop. The head of the list is the top of the Python stack:
  \<open>pending.pop()\<close> takes it, \<open>pending.extend\<close> pushes the children in order, so the last
  child is popped first.
\<close>

definition weight :: "(pyval \<times> nat) list \<Rightarrow> nat" where
  "weight pending = sum_list (map (nodes \<circ> fst) pending)"

lemma weight_simps [simp]:
  "weight [] = 0" "weight (p # ps) = nodes (fst p) + weight ps"
  "weight (ps @ qs) = weight ps + weight qs"
  by (simp_all add: weight_def)

lemma weight_children:
  "weight (rev (map (\<lambda>c. (c, d)) (children v))) + 1 = nodes v"
  by (simp add: weight_def nodes.simps [of v] comp_def rev_map [symmetric])

function (sequential) payload_loop :: "(pyval \<times> nat) list \<Rightarrow> nat \<Rightarrow> unit result" where
  "payload_loop [] visited = Inr ()"
| "payload_loop ((v, depth) # pending) visited =
     (if depth > MAX_JSON_DEPTH \<or> visited + 1 > MAX_JSON_NODES
      then Inl (ValueError ''payload exceeds structural limits'')
      else case item_check v of
        Inl e \<Rightarrow> Inl e
      | Inr _ \<Rightarrow> payload_loop (rev (map (\<lambda>c. (c, depth + 1)) (children v)) @ pending) (visited + 1))"
  by pat_completeness auto
termination
proof (relation "measure (\<lambda>(pending, visited). weight pending)", goal_cases)
  case (2 v depth pending visited x2)
  show ?case using weight_children [of "depth + 1" v] by simp
qed simp

declare payload_loop.simps(2) [simp del]

text \<open>What the loop decides, without the stack.\<close>

function depth_ok :: "nat \<Rightarrow> pyval \<Rightarrow> bool" where
  "depth_ok d v \<longleftrightarrow> d \<le> MAX_JSON_DEPTH \<and> (\<forall>c \<in> set (children v). depth_ok (d + 1) c)"
  by pat_completeness auto
termination
  by (relation "measure (size \<circ> snd)") (auto intro: children_size)

declare depth_ok.simps [simp del]

definition item_ok :: "pyval \<Rightarrow> bool" where
  "item_ok v \<longleftrightarrow> length (children v) \<le> MAX_JSON_NODES \<and>
     (case v of PyDict kvs \<Rightarrow> list_all (is_PyStr \<circ> fst) kvs | PyFloat _ is_finite \<Rightarrow> is_finite | PyOther _ \<Rightarrow> False | _ \<Rightarrow> True)"

lemma item_check_iff: "item_check v = Inr () \<longleftrightarrow> item_ok v"
  by (cases v) (auto simp: item_ok_def list_all_iff)

function items_ok :: "pyval \<Rightarrow> bool" where
  "items_ok v \<longleftrightarrow> item_ok v \<and> (\<forall>c \<in> set (children v). items_ok c)"
  by pat_completeness auto
termination
  by (relation "measure size") (auto intro: children_size)

declare items_ok.simps [simp del]

lemma payload_loop_iff:
  "payload_loop pending visited = Inr () \<longleftrightarrow>
     pending = [] \<or>
     (\<forall>(v, d) \<in> set pending. depth_ok d v \<and> items_ok v) \<and> visited + weight pending \<le> MAX_JSON_NODES"
proof (induction pending visited rule: payload_loop.induct)
  case (1 visited)
  show ?case by simp
next
  case (2 v depth pending visited)
  let ?push = "rev (map (\<lambda>c. (c, depth + 1)) (children v)) @ pending"
  show ?case
  proof (cases "depth > MAX_JSON_DEPTH \<or> visited + 1 > MAX_JSON_NODES")
    case True
    have "depth_ok depth v \<Longrightarrow> depth \<le> MAX_JSON_DEPTH" by (simp add: depth_ok.simps [of depth v])
    with True nodes_pos [of v] show ?thesis by (auto simp: payload_loop.simps(2))
  next
    case False
    show ?thesis
    proof (cases "item_check v")
      case (Inl e)
      have "\<not> items_ok v" using Inl by (simp add: items_ok.simps [of v] item_check_iff [symmetric])
      with False Inl show ?thesis by (auto simp: payload_loop.simps(2))
    next
      case (Inr u)
      have w: "weight ((v, depth) # pending) = weight ?push + 1"
        using weight_children [of "depth + 1" v] by simp
      have step: "payload_loop ((v, depth) # pending) visited = payload_loop ?push (visited + 1)"
        using False Inr by (simp add: payload_loop.simps(2))
      have ok: "depth_ok depth v \<and> items_ok v \<longleftrightarrow>
          (\<forall>c \<in> set (children v). depth_ok (depth + 1) c \<and> items_ok c)"
        using False Inr by (auto simp: depth_ok.simps [of depth v] items_ok.simps [of v] item_check_iff [symmetric])
      show ?thesis
      proof (cases "?push = []")
        case True
        then show ?thesis using step ok w False by simp
      next
        case ne: False
        have "payload_loop ?push (visited + 1) = Inr () \<longleftrightarrow>
            (\<forall>(v, d) \<in> set ?push. depth_ok d v \<and> items_ok v) \<and>
            visited + 1 + weight ?push \<le> MAX_JSON_NODES"
          using "2.IH" [OF False Inr] ne by auto
        then show ?thesis using step ok w by (auto simp: add.assoc)
      qed
    qed
  qed
qed

section \<open>Encoding\<close>

text \<open>
  \<open>json.dumps(value, ensure_ascii=..., separators=(",", ":"))\<close> of the Python standard
  library, on the values the loop lets through, and the number of bytes of its UTF-8
  encoding.
\<close>

definition digit :: "nat \<Rightarrow> char" where
  "digit n = char_of (48 + n)"

fun nat_dec :: "nat \<Rightarrow> string" where
  "nat_dec n = (if n < 10 then [digit n] else nat_dec (n div 10) @ [digit (n mod 10)])"

declare nat_dec.simps [simp del]

definition int_dec :: "int \<Rightarrow> string" where
  "int_dec i = (if i < 0 then CHR ''-'' # nat_dec (nat (- i)) else nat_dec (nat i))"

definition hex_digit :: "nat \<Rightarrow> char" where
  "hex_digit n = (if n < 10 then char_of (48 + n) else char_of (87 + n))"

definition json_char :: "bool \<Rightarrow> char \<Rightarrow> string" where
  "json_char ascii c =
     (let n = of_char c :: nat in
      if c = CHR 0x22 then [CHR 0x5C, CHR 0x22]
      else if c = CHR 0x5C then [CHR 0x5C, CHR 0x5C]
      else if n = 8 then [CHR 0x5C, CHR ''b'']
      else if n = 9 then [CHR 0x5C, CHR ''t'']
      else if n = 10 then [CHR 0x5C, CHR ''n'']
      else if n = 12 then [CHR 0x5C, CHR ''f'']
      else if n = 13 then [CHR 0x5C, CHR ''r'']
      else if n < 32 \<or> ascii \<and> 127 < n
        then [CHR 0x5C, CHR ''u'', CHR ''0'', CHR ''0'', hex_digit (n div 16), hex_digit (n mod 16)]
      else [c])"

definition json_string :: "bool \<Rightarrow> string \<Rightarrow> string" where
  "json_string ascii s = [CHR 0x22] @ concat (map (json_char ascii) s) @ [CHR 0x22]"

fun join :: "string \<Rightarrow> string list \<Rightarrow> string" where
  "join sep [] = []"
| "join sep [x] = x"
| "join sep (x # y # ys) = x @ sep @ join sep (y # ys)"

primrec dumps :: "bool \<Rightarrow> pyval \<Rightarrow> string" where
  "dumps ascii PyNone = ''null''"
| "dumps ascii (PyBool b) = (if b then ''true'' else ''false'')"
| "dumps ascii (PyInt i) = int_dec i"
| "dumps ascii (PyFloat r fin) = r"
| "dumps ascii (PyStr s) = json_string ascii s"
| "dumps ascii (PyDict kvs) =
     ''{'' @ join '','' (map (\<lambda>(k, v). k @ '':'' @ v) (map (map_prod (dumps ascii) (dumps ascii)) kvs)) @ ''}''"
| "dumps ascii (PyList xs) = ''['' @ join '','' (map (dumps ascii) xs) @ '']''"
| "dumps ascii (PyTuple xs) = ''['' @ join '','' (map (dumps ascii) xs) @ '']''"
| "dumps ascii (PyOther t) = []"

text \<open>\<open>sort_keys=True\<close>: every object with its entries in the order of their keys.\<close>

fun key_text :: "pyval \<Rightarrow> string" where
  "key_text (PyStr s) = s"
| "key_text _ = []"

primrec sort_keys :: "pyval \<Rightarrow> pyval" where
  "sort_keys PyNone = PyNone"
| "sort_keys (PyBool b) = PyBool b"
| "sort_keys (PyInt i) = PyInt i"
| "sort_keys (PyFloat r fin) = PyFloat r fin"
| "sort_keys (PyStr s) = PyStr s"
| "sort_keys (PyDict kvs) =
     PyDict (sort_key (key_text \<circ> fst) (map (map_prod sort_keys sort_keys) kvs))"
| "sort_keys (PyList xs) = PyList (map sort_keys xs)"
| "sort_keys (PyTuple xs) = PyTuple (map sort_keys xs)"
| "sort_keys (PyOther t) = PyOther t"

definition canonical_json :: "bool \<Rightarrow> pyval \<Rightarrow> string" where
  "canonical_json ascii v = dumps ascii (sort_keys v)"

definition utf8_length :: "string \<Rightarrow> nat" where
  "utf8_length s = sum_list (map (\<lambda>c. if (of_char c :: nat) < 128 then 1 else 2) s)"

text \<open>\<open>json.loads(encoded)\<close>: the same value, with every tuple read back as an array.\<close>

primrec jsonify :: "pyval \<Rightarrow> pyval" where
  "jsonify PyNone = PyNone"
| "jsonify (PyBool b) = PyBool b"
| "jsonify (PyInt i) = PyInt i"
| "jsonify (PyFloat r fin) = PyFloat r fin"
| "jsonify (PyStr s) = PyStr s"
| "jsonify (PyDict kvs) = PyDict (map (map_prod jsonify jsonify) kvs)"
| "jsonify (PyList xs) = PyList (map jsonify xs)"
| "jsonify (PyTuple xs) = PyList (map jsonify xs)"
| "jsonify (PyOther t) = PyOther t"

text \<open>
  \<open>json.dumps\<close> raises \<open>TypeError\<close> on a value of any other type, at any depth; the keys
  of the objects the code encodes are strings. It raises \<open>ValueError\<close> on an integer of more than 4300
  digits, the default of \<open>sys.set_int_max_str_digits\<close>, which the code never changes. Of a value with both
  faults the \<open>TypeError\<close> is taken. \<open>dumps\<close> itself is the text of a value without them; where it is used
  with no such check, the integers come from columns, counters or checked payloads.
\<close>

definition MAX_STR_DIGITS :: nat where "MAX_STR_DIGITS = 4300"

definition int_prints :: "int \<Rightarrow> bool" where
  "int_prints i \<longleftrightarrow> length (nat_dec (nat \<bar>i\<bar>)) \<le> MAX_STR_DIGITS"

function ints_print :: "pyval \<Rightarrow> bool" where
  "ints_print v \<longleftrightarrow> (case v of PyInt i \<Rightarrow> int_prints i | _ \<Rightarrow> True) \<and> (\<forall>c \<in> set (children v). ints_print c)"
  by pat_completeness auto
termination
  by (relation "measure size") (auto intro: children_size)

function json_typed :: "pyval \<Rightarrow> bool" where
  "json_typed v \<longleftrightarrow>
     (case v of PyOther _ \<Rightarrow> False
      | PyDict kvs \<Rightarrow> list_all (is_PyStr \<circ> fst) kvs
      | _ \<Rightarrow> True) \<and> (\<forall>c \<in> set (children v). json_typed c)"
  by pat_completeness auto
termination
  by (relation "measure size") (auto intro: children_size)

declare ints_print.simps [simp del] json_typed.simps [simp del]

lemma ints_print_simps [simp]:
  "ints_print (PyInt i) = int_prints i" "ints_print PyNone" "ints_print (PyBool b)" "ints_print (PyStr s)" "ints_print (PyFloat r fin)"
  "ints_print (PyOther t)" "ints_print (PyDict kvs) = (\<forall>c \<in> set (map snd kvs). ints_print c)"
  "ints_print (PyList xs) = (\<forall>c \<in> set xs. ints_print c)" "ints_print (PyTuple xs) = (\<forall>c \<in> set xs. ints_print c)"
  by (subst ints_print.simps, simp)+

definition json_encodable :: "pyval \<Rightarrow> bool" where
  "json_encodable v \<longleftrightarrow> json_typed v \<and> ints_print v"

definition json_error :: "pyval \<Rightarrow> exn" where
  "json_error v = (if json_typed v then ValueError ''Exceeds the limit (4300 digits) for integer string conversion''
     else TypeError ''Object is not JSON serializable'')"

text \<open>
  Python's \<open>==\<close> between two values: the order of the entries of a dictionary is ignored, and
  \<open>True\<close> and \<open>False\<close> equal 1 and 0. A tuple never equals a list. (A float is compared by
  its \<open>repr\<close>; that \<open>1.0 == 1\<close> is left out.)
\<close>

primrec py_norm :: "pyval \<Rightarrow> pyval" where
  "py_norm PyNone = PyNone"
| "py_norm (PyBool b) = PyInt (if b then 1 else 0)"
| "py_norm (PyInt i) = PyInt i"
| "py_norm (PyFloat r fin) = PyFloat r fin"
| "py_norm (PyStr s) = PyStr s"
| "py_norm (PyDict kvs) = PyDict (map (map_prod py_norm py_norm) kvs)"
| "py_norm (PyList xs) = PyList (map py_norm xs)"
| "py_norm (PyTuple xs) = PyTuple (map py_norm xs)"
| "py_norm (PyOther t) = PyOther t"

definition py_eq :: "pyval \<Rightarrow> pyval \<Rightarrow> bool" where
  "py_eq v w \<longleftrightarrow> py_norm (sort_keys v) = py_norm (sort_keys w)"

lemma py_eq_refl [simp]: "py_eq v v"
  by (simp add: py_eq_def)

fun bounded_payload :: "pyval \<Rightarrow> pyval result" where
  "bounded_payload (PyDict kvs) =
     (case payload_loop [(PyDict kvs, 0)] 0 of
        Inl e \<Rightarrow> Inl e
      | Inr _ \<Rightarrow>
          (if \<not> ints_print (PyDict kvs)
           then Inl (ValueError ''Exceeds the limit (4300 digits) for integer string conversion'')
           else if utf8_length (dumps False (PyDict kvs)) > MAX_COMMAND_BYTES
           then Inl (ValueError ''payload exceeds byte limit'')
           else Inr (jsonify (PyDict kvs))))"
| "bounded_payload _ = Inl (TypeError ''payload must be an object'')"

section \<open>Properties\<close>

lemma children_jsonify: "children (jsonify v) = map jsonify (children v)"
  by (cases v) (auto simp: comp_def)

lemma dumps_jsonify [simp]: "dumps ascii (jsonify v) = dumps ascii v"
proof (induction v)
  case (PyDict kvs)
  then show ?case
    by (auto intro!: arg_cong [where f = "join '',''"] simp: comp_def prod_set_defs split: prod.splits)
next
  case (PyList xs)
  then show ?case by (simp add: comp_def cong: map_cong)
next
  case (PyTuple xs)
  then show ?case by (simp add: comp_def cong: map_cong)
qed auto

lemma nodes_jsonify [simp]: "nodes (jsonify v) = nodes v"
proof (induction v rule: nodes.induct)
  case (1 v)
  then have "map (nodes \<circ> jsonify) (children v) = map nodes (children v)" by simp
  then show ?case by (simp only: nodes.simps [of v] nodes.simps [of "jsonify v"] children_jsonify map_map)
qed

lemma depth_ok_jsonify [simp]: "depth_ok d (jsonify v) = depth_ok d v"
proof (induction d v rule: depth_ok.induct)
  case (1 d v)
  then show ?case
    by (simp add: depth_ok.simps [of d v] depth_ok.simps [of d "jsonify v"] children_jsonify)
qed

lemma is_PyStr_jsonify [simp]: "is_PyStr (jsonify v) = is_PyStr v"
  by (cases v) auto

lemma item_check_jsonify: "item_check (jsonify v) = Inr () \<longleftrightarrow> item_check v = Inr ()"
  by (cases v) (auto simp: split_def)

lemma items_ok_jsonify [simp]: "items_ok (jsonify v) = items_ok v"
proof (induction v rule: items_ok.induct)
  case (1 v)
  then show ?case
    by (simp add: items_ok.simps [of v] items_ok.simps [of "jsonify v"] children_jsonify
        item_check_jsonify [unfolded item_check_iff])
qed

lemma ints_print_jsonify [simp]: "ints_print (jsonify v) = ints_print v"
proof (induction v rule: ints_print.induct)
  case (1 v)
  then show ?case
    by (cases v) auto
qed

lemma jsonify_idem [simp]: "jsonify (jsonify v) = jsonify v"
proof (induction v)
  case (PyDict kvs)
  then show ?case by (auto simp: comp_def prod_set_defs split: prod.splits)
qed auto

text \<open>
  C1. The stack-driven check of a command payload decides exactly the structural limits:
  \<open>bounded_payload\<close> returns the value \<open>w\<close> if and only if the argument is an object, no
  part of it is nested deeper than 32, it has at most 20000 nodes, every part is a JSON value
  with string keys and finite numbers, no integer has more than the 4300 digits Python prints, its
  encoding has at most 1 MiB, and \<open>w\<close> is the argument with tuples read back as arrays.
\<close>

theorem bounded_payload_iff:
  "bounded_payload v = Inr w \<longleftrightarrow>
     (\<exists>kvs. v = PyDict kvs) \<and> depth_ok 0 v \<and> items_ok v \<and> nodes v \<le> MAX_JSON_NODES \<and> ints_print v \<and>
     utf8_length (dumps False v) \<le> MAX_COMMAND_BYTES \<and> w = jsonify v"
proof (cases v)
  case (PyDict kvs)
  have "payload_loop [(v, 0)] 0 = Inr () \<longleftrightarrow> depth_ok 0 v \<and> items_ok v \<and> nodes v \<le> MAX_JSON_NODES"
    by (simp add: payload_loop_iff)
  with PyDict show ?thesis by (auto split: sum.splits)
qed auto

lemma bounded_payload_sound:
  "bounded_payload v = Inr w \<Longrightarrow>
     depth_ok 0 v \<and> items_ok v \<and> nodes v \<le> MAX_JSON_NODES \<and> ints_print v \<and>
     utf8_length (dumps False v) \<le> MAX_COMMAND_BYTES \<and> w = jsonify v \<and> (\<exists>kvs. v = PyDict kvs)"
proof -
  assume ok: "bounded_payload v = Inr w"
  then obtain kvs where v: "v = PyDict kvs" by (cases v) auto
  with ok have "payload_loop [(v, 0)] 0 = Inr ()" by (auto split: sum.splits)
  then show ?thesis using ok v by (auto simp: payload_loop_iff split: sum.splits if_splits)
qed

lemma bounded_payload_complete:
  assumes "depth_ok 0 (PyDict kvs)" "items_ok (PyDict kvs)" "nodes (PyDict kvs) \<le> MAX_JSON_NODES"
    and "ints_print (PyDict kvs)" "utf8_length (dumps False (PyDict kvs)) \<le> MAX_COMMAND_BYTES"
  shows "bounded_payload (PyDict kvs) = Inr (jsonify (PyDict kvs))"
proof -
  have "payload_loop [(PyDict kvs, 0)] 0 = Inr ()" using assms by (simp add: payload_loop_iff)
  with assms show ?thesis by simp
qed

text \<open>
  C2. Normalisation is stable: a payload that was accepted is accepted again, unchanged, so a
  stored payload validates to itself when a command is read back.
\<close>

theorem bounded_payload_stable:
  assumes "bounded_payload v = Inr w"
  shows "bounded_payload w = Inr w"
proof -
  from bounded_payload_sound [OF assms] obtain kvs where
    ok: "depth_ok 0 v" "items_ok v" "nodes v \<le> MAX_JSON_NODES" "ints_print v" "utf8_length (dumps False v) \<le> MAX_COMMAND_BYTES"
    and w: "w = jsonify v" and v: "v = PyDict kvs" by blast
  have w': "w = PyDict (map (map_prod jsonify jsonify) kvs)" using w v by simp
  have "depth_ok 0 w" "items_ok w" "nodes w \<le> MAX_JSON_NODES" "ints_print w" "utf8_length (dumps False w) \<le> MAX_COMMAND_BYTES"
    using ok by (simp_all add: w)
  then have "bounded_payload w = Inr (jsonify w)"
    unfolding w' by (rule bounded_payload_complete)
  then show ?thesis by (simp add: w)
qed

theorem bounded_payload_stable_witness:
  "bounded_payload (PyDict [(PyStr ''k'', PyTuple [PyInt 1, PyStr ''a''])]) =
     Inr (PyDict [(PyStr ''k'', PyList [PyInt 1, PyStr ''a''])]) \<and>
   bounded_payload (PyDict [(PyStr ''k'', PyList [PyInt 1, PyStr ''a''])]) =
     Inr (PyDict [(PyStr ''k'', PyList [PyInt 1, PyStr ''a''])])"
proof -
  have h: "bounded_payload (PyDict [(PyStr ''k'', PyTuple [PyInt 1, PyStr ''a''])]) =
     Inr (PyDict [(PyStr ''k'', PyList [PyInt 1, PyStr ''a''])])"
    by (simp add: payload_loop.simps int_prints_def MAX_STR_DIGITS_def MAX_JSON_DEPTH_def MAX_JSON_NODES_def MAX_COMMAND_BYTES_def
        int_dec_def nat_dec.simps json_string_def json_char_def utf8_length_def digit_def)
  then show ?thesis using bounded_payload_stable [OF h] by simp
qed

end
