(* ===== verification/Project_Common.thy ===== *)
theory Project_Common
  imports Json_Payload
begin

text \<open>
  \<open>src/runtime/project_common.py\<close>: project handles and bounded metadata pagination.

  A handle is \<open>kind:project:identifier\<close>. The two regular expressions are bool-valued
  functions; \<open>split_on\<close> is \<open>str.split\<close> with a one-character separator. \<open>page_result\<close> is
  one page of a listing; \<open>walk_pages\<close> is what a client does with it, following
  \<open>next_cursor\<close> until there is none.
\<close>

section \<open>Handles\<close>

definition is_alnum :: "char \<Rightarrow> bool" where
  "is_alnum c = (let n = of_char c :: nat in
     (48 \<le> n \<and> n \<le> 57) \<or> (65 \<le> n \<and> n \<le> 90) \<or> (97 \<le> n \<and> n \<le> 122))"

definition is_ident_char :: "char \<Rightarrow> bool" where
  "is_ident_char c = (is_alnum c \<or> c = CHR ''.'' \<or> c = CHR ''_'' \<or> c = CHR ''-'')"

fun ident_match :: "nat \<Rightarrow> nat \<Rightarrow> string \<Rightarrow> bool" where
  "ident_match lo hi [] = False"
| "ident_match lo hi (c # cs) =
     (is_alnum c \<and> (\<forall>x \<in> set cs. is_ident_char x) \<and> lo \<le> length cs \<and> length cs \<le> hi)"

definition IDENTIFIER :: "string \<Rightarrow> bool" where
  "IDENTIFIER = ident_match 0 127"

definition ARTIFACT_IDENTIFIER :: "string \<Rightarrow> bool" where
  "ARTIFACT_IDENTIFIER = ident_match 65 383"

definition identity_for :: "string \<Rightarrow> string \<Rightarrow> bool" where
  "identity_for kind = (if kind = ''artifact'' then ARTIFACT_IDENTIFIER else IDENTIFIER)"

definition handle :: "string \<Rightarrow> string \<Rightarrow> string \<Rightarrow> string result" where
  "handle kind project_id identifier =
     (if \<not> IDENTIFIER project_id \<or> \<not> identity_for kind identifier
      then Inl (ValueError ''invalid project handle identity'')
      else Inr (kind @ '':'' @ project_id @ '':'' @ identifier))"

fun split_on :: "char \<Rightarrow> string \<Rightarrow> string list" where
  "split_on sep [] = [[]]"
| "split_on sep (c # cs) =
     (if c = sep then [] # split_on sep cs
      else case split_on sep cs of [] \<Rightarrow> [[c]] | f # fs \<Rightarrow> (c # f) # fs)"

definition parse_handle :: "string \<Rightarrow> string \<Rightarrow> string \<Rightarrow> string result" where
  "parse_handle value kind project_id =
     (case split_on CHR '':'' value of
        [k, p, i] \<Rightarrow>
          (if [k, p] \<noteq> [kind, project_id] \<or> \<not> identity_for kind i
           then Inl (ValueError ''project handle mismatch'') else Inr i)
      | _ \<Rightarrow> Inl (ValueError ''project handle mismatch''))"

lemma split_on_no_sep: "sep \<notin> set xs \<Longrightarrow> split_on sep xs = [xs]"
  by (induction xs) auto

lemma split_on_append: "sep \<notin> set xs \<Longrightarrow> split_on sep (xs @ sep # ys) = xs # split_on sep ys"
  by (induction xs) auto

lemma split_on_join: "split_on sep xs = fs \<Longrightarrow> join [sep] fs = xs"
proof (induction sep xs arbitrary: fs rule: split_on.induct)
  case (2 sep c cs)
  show ?case
  proof (cases "split_on sep cs")
    case Nil
    then show ?thesis using 2 by (cases "c = sep") (auto split: list.splits)
  next
    case (Cons f rest)
    then have "join [sep] (f # rest) = cs"
      using "2.IH" by (cases "c = sep") auto
    then show ?thesis using Cons "2.prems" by (cases "c = sep"; cases rest) auto
  qed
qed simp

lemma ident_match_no_colon: "ident_match lo hi s \<Longrightarrow> CHR '':'' \<notin> set s"
  by (cases s) (auto simp: is_alnum_def is_ident_char_def)

lemma IDENTIFIER_no_colon: "IDENTIFIER s \<Longrightarrow> CHR '':'' \<notin> set s"
  by (simp add: IDENTIFIER_def ident_match_no_colon)

lemma identity_for_no_colon: "identity_for kind s \<Longrightarrow> CHR '':'' \<notin> set s"
  by (auto simp: identity_for_def IDENTIFIER_def ARTIFACT_IDENTIFIER_def
      dest: ident_match_no_colon split: if_splits)

lemma parse_handle_Inr:
  "parse_handle h kind p = Inr i \<longleftrightarrow> split_on CHR '':'' h = [kind, p, i] \<and> identity_for kind i"
  by (auto simp: parse_handle_def split: list.splits)

text \<open>
  C3. Handles round-trip: for a kind without a colon, \<open>h\<close> is the handle of the identifier
  \<open>i\<close> in project \<open>p\<close> exactly when \<open>p\<close> is an identifier and parsing \<open>h\<close> for that
  kind and project returns \<open>i\<close>. In particular a handle minted for one project or kind is never
  accepted for another.
\<close>

theorem handle_roundtrip:
  assumes "CHR '':'' \<notin> set kind"
  shows "handle kind p i = Inr h \<longleftrightarrow> IDENTIFIER p \<and> parse_handle h kind p = Inr i"
proof
  assume h: "handle kind p i = Inr h"
  then have p: "IDENTIFIER p" and i: "identity_for kind i"
    and eq: "h = kind @ CHR '':'' # p @ CHR '':'' # i"
    by (auto simp: handle_def split: if_splits)
  have "split_on CHR '':'' h = [kind, p, i]"
    using assms IDENTIFIER_no_colon [OF p] identity_for_no_colon [OF i]
    by (simp add: eq split_on_append split_on_no_sep)
  with p i show "IDENTIFIER p \<and> parse_handle h kind p = Inr i" by (simp add: parse_handle_Inr)
next
  assume "IDENTIFIER p \<and> parse_handle h kind p = Inr i"
  then have p: "IDENTIFIER p" and i: "identity_for kind i" and s: "split_on CHR '':'' h = [kind, p, i]"
    by (auto simp: parse_handle_Inr)
  from split_on_join [OF s] have "h = kind @ CHR '':'' # p @ CHR '':'' # i" by simp
  with p i show "handle kind p i = Inr h" by (simp add: handle_def)
qed

theorem handle_roundtrip_witness:
  "handle ''message'' ''demo'' ''m-1'' = Inr ''message:demo:m-1'' \<and>
   parse_handle ''message:demo:m-1'' ''message'' ''demo'' = Inr ''m-1''"
proof -
  have k: "CHR '':'' \<notin> set ''message''" by simp
  have h: "handle ''message'' ''demo'' ''m-1'' = Inr ''message:demo:m-1''"
    by (simp add: handle_def IDENTIFIER_def identity_for_def is_alnum_def is_ident_char_def)
  from h handle_roundtrip [OF k, of "''demo''" "''m-1''" "''message:demo:m-1''"] show ?thesis by simp
qed

section \<open>Pagination\<close>

text \<open>
  \<open>limit\<close> and \<open>cursor\<close> are the entries of the argument dictionary, \<open>None\<close> when absent.
  \<open>type(limit) is not int\<close> refuses a bool, and an empty cursor counts as none.
\<close>

definition page_limit :: "pyval option \<Rightarrow> nat result" where
  "page_limit limit =
     (case limit of
        None \<Rightarrow> Inr 50
      | Some (PyInt n) \<Rightarrow> (if 1 \<le> n \<and> n \<le> 100 then Inr (nat n) else Inl (ValueError ''invalid page size''))
      | Some _ \<Rightarrow> Inl (ValueError ''invalid page size''))"

definition after_cursor :: "('r \<Rightarrow> string) \<Rightarrow> string option \<Rightarrow> 'r list \<Rightarrow> 'r list" where
  "after_cursor identity cursor rows =
     filter (\<lambda>row. case cursor of None \<Rightarrow> True | Some c \<Rightarrow> c = [] \<or> c < identity row) rows"

definition page_result ::
  "'r list \<Rightarrow> pyval option \<Rightarrow> string option \<Rightarrow> ('r \<Rightarrow> string) \<Rightarrow> ('r list \<times> string option) result" where
  "page_result rows limit cursor identity =
     rbind (page_limit limit) (\<lambda>n.
       let rows = after_cursor identity cursor (sort_key identity rows)
       in Inr (take n rows, if length rows > n then Some (identity (rows ! (n - 1))) else None))"

fun walk_pages ::
  "nat \<Rightarrow> 'r list \<Rightarrow> pyval option \<Rightarrow> string option \<Rightarrow> ('r \<Rightarrow> string) \<Rightarrow> 'r list option" where
  "walk_pages 0 rows limit cursor identity = None"
| "walk_pages (Suc fuel) rows limit cursor identity =
     (case page_result rows limit cursor identity of
        Inl _ \<Rightarrow> None
      | Inr (items, None) \<Rightarrow> Some items
      | Inr (items, Some c) \<Rightarrow>
          (case walk_pages fuel rows limit (Some c) identity of
             None \<Rightarrow> None | Some rest \<Rightarrow> Some (items @ rest)))"

lemma page_limit_bounds: "page_limit limit = Inr n \<Longrightarrow> 1 \<le> n \<and> n \<le> 100"
  by (auto simp: page_limit_def split: option.splits pyval.splits if_splits)

lemma strict_sorted_after:
  assumes "sorted_wrt (\<lambda>a b. identity a < identity b) xs" and "0 < n" "n \<le> length xs"
    and "identity (xs ! (n - 1)) \<noteq> []"
  shows "after_cursor identity (Some (identity (xs ! (n - 1)))) xs = drop n xs"
proof -
  let ?c = "identity (xs ! (n - 1))"
  have split: "xs = take n xs @ drop n xs" by simp
  have low: "\<not> ?c < identity r" if r: "r \<in> set (take n xs)" for r
  proof -
    from r obtain i where i: "i < n" "i < length xs" "r = xs ! i" by (auto simp: in_set_conv_nth)
    show ?thesis
    proof (cases "i = n - 1")
      case False
      with i assms(2,3) have "i < n - 1" "n - 1 < length xs" by auto
      from sorted_wrt_nth_less [OF assms(1) this] i(3) show ?thesis by auto
    qed (use i in auto)
  qed
  have high: "?c < identity r" if r: "r \<in> set (drop n xs)" for r
  proof -
    from r obtain i where i: "i < length xs - n" "r = xs ! (n + i)" by (auto simp: in_set_conv_nth)
    then show ?thesis
      using assms(2) sorted_wrt_nth_less [OF assms(1), of "n - 1" "n + i"] by auto
  qed
  have "filter (\<lambda>r. ?c < identity r) (take n xs) = []" using low by (simp add: filter_empty_conv)
  moreover have "filter (\<lambda>r. ?c < identity r) (drop n xs) = drop n xs" using high by simp
  ultimately have "filter (\<lambda>r. ?c < identity r) (take n xs @ drop n xs) = drop n xs"
    by (simp only: filter_append append_Nil)
  then show ?thesis using assms(4) by (simp add: after_cursor_def)
qed

lemma strict_sort_key:
  "distinct (map identity rows) \<Longrightarrow> sorted_wrt (\<lambda>a b. identity a < identity b) (sort_key identity rows)"
proof -
  assume "distinct (map identity rows)"
  then have "distinct (map identity (sort_key identity rows))"
    by (simp add: distinct_map)
  then have "sorted_wrt (<) (map identity (sort_key identity rows))"
    by (simp add: strict_sorted_iff)
  then show ?thesis by (simp add: sorted_wrt_map)
qed

lemma walk_pages_suffix:
  assumes "page_limit limit = Inr n"
    and "sorted_wrt (\<lambda>a b. identity a < identity b) (sort_key identity rows)"
    and "\<forall>r \<in> set rows. identity r \<noteq> []"
    and "after_cursor identity cursor (sort_key identity rows) = drop m (sort_key identity rows)"
    and "length rows < m + fuel" and "0 < fuel"
  shows "walk_pages fuel rows limit cursor identity = Some (drop m (sort_key identity rows))"
  using assms(4-6)
proof (induction fuel arbitrary: cursor m)
  case (Suc fuel)
  let ?xs = "sort_key identity rows"
  have n: "1 \<le> n" using page_limit_bounds [OF assms(1)] by simp
  show ?case
  proof (cases "length (drop m ?xs) > n")
    case False
    with Suc.prems(1) assms(1) show ?thesis by (simp add: page_result_def Let_def)
  next
    case True
    then have len: "m + n < length rows" by simp
    let ?c = "identity (?xs ! (m + n - 1))"
    have at: "drop m ?xs ! (n - 1) = ?xs ! (m + n - 1)" using n len by (simp add: add.commute)
    have "?xs ! (m + n - 1) \<in> set ?xs" using len by (intro nth_mem) simp
    then have ne: "?c \<noteq> []" using assms(3) by simp
    have next': "after_cursor identity (Some ?c) ?xs = drop (m + n) ?xs"
      by (rule strict_sorted_after [OF assms(2)]) (use n len ne in auto)
    have rest: "walk_pages fuel rows limit (Some ?c) identity = Some (drop (m + n) ?xs)"
      by (rule Suc.IH [OF next']) (use Suc.prems(2) n len in auto)
    have "page_result rows limit cursor identity = Inr (take n (drop m ?xs), Some ?c)"
      using True Suc.prems(1) assms(1) at by (simp add: page_result_def Let_def)
    moreover have "take n (drop m ?xs) @ drop (m + n) ?xs = drop m ?xs"
      using append_take_drop_id [of n "drop m ?xs"] by (simp add: add.commute)
    ultimately show ?thesis using rest by simp
  qed
qed simp

text \<open>
  Following \<open>next_cursor\<close> from the first page reaches the end of the listing and yields
  every row exactly once, in the order of the identity column, for every admissible page size:
  as many pages as there are rows, plus one, are enough.
\<close>

theorem walk_pages_complete:
  assumes "page_limit limit = Inr n" and "distinct (map identity rows)"
    and "\<forall>r \<in> set rows. identity r \<noteq> []"
    and "length rows < fuel"
  shows "walk_pages fuel rows limit None identity = Some (sort_key identity rows)"
  using walk_pages_suffix [OF assms(1) strict_sort_key [OF assms(2)] assms(3), of None 0 fuel] assms(4)
  by (simp add: after_cursor_def)

theorem walk_pages_complete_witness:
  "walk_pages 4 [''b'', ''c'', ''a''] (Some (PyInt 1)) None id = Some [''a'', ''b'', ''c'']"
proof -
  have l: "page_limit (Some (PyInt 1)) = Inr 1" by (simp add: page_limit_def)
  have d: "distinct (map id [''b'', ''c'', ''a''])" by simp
  have ne: "\<forall>r \<in> set [''b'', ''c'', ''a'']. id r \<noteq> []" by simp
  have f: "length [''b'', ''c'', ''a''] < 4" by simp
  have s: "sort_key id [''b'', ''c'', ''a''] = [''a'', ''b'', ''c'']"
    by (simp add: less_eq_char_def less_char_def)
  show ?thesis using walk_pages_complete [OF l d ne f] unfolding s .
qed

end
