(* ===== verification/Command_Models.thy ===== *)
theory Command_Models
  imports Project_Common
begin

text \<open>
  \<open>src/runtime/models.py\<close> and \<open>src/runtime/lifetimes.py\<close>: the value objects every
  service exchanges.

  A pydantic model is a record with a validator: \<open>validate_command\<close> and its siblings
  return the value or raise \<open>ValueError\<close>. An instant is a number of microseconds; a
  \<open>datetime\<close> is an instant with the UTC offset it was written with, or without one (naive).
  Hashing and reading back rest on primitives that are not code of the repository: SHA-256 in
  hexadecimal, \<open>datetime.isoformat\<close>, the JSON form pydantic gives a datetime, and
  \<open>json.loads\<close> (\<open>None\<close> where it raises). They are the fields of \<open>hash_env\<close>, an
  argument of every definition that uses them.
\<close>

section \<open>Instants and lifetimes\<close>

datatype datetime = DT (instant: int) (offset: "int option")

definition aware :: "datetime \<Rightarrow> bool" where
  "aware t = (offset t \<noteq> None)"

text \<open>\<open>src/runtime/lifetimes.py\<close>; both functions are used on aware values only.\<close>

definition earliest :: "int option list \<Rightarrow> int option" where
  "earliest values =
     (let finite_values = List.map_filter id values
      in if finite_values = [] then None else Some (Min (set finite_values)))"

definition expired :: "int option \<Rightarrow> int \<Rightarrow> bool" where
  "expired value now = (case value of None \<Rightarrow> False | Some v \<Rightarrow> v \<le> now)"

record hash_env =
  sha256_hex :: "string \<Rightarrow> string"
  isoformat :: "datetime \<Rightarrow> string"
  model_time :: "datetime \<Rightarrow> string"
  json_loads :: "string \<Rightarrow> pyval option"

section \<open>Enumerations and identities\<close>

datatype work_item_state = CANDIDATE | ACCEPTANCE_READY | ACCEPTED

datatype execution_status = READY | RUNNING | BLOCKED | FAILED | CANCELLED

record authenticated_context =
  ctx_tenant_id :: string
  ctx_authority_id :: string
  ctx_authority_incarnation :: string
  ctx_principal_ref :: string
  ctx_grant_ref :: string
  ctx_credential_hash :: string
  ctx_agent_slot_id :: "string option"
  ctx_trusted_client :: bool

section \<open>Commands\<close>

record command =
  schema_version :: string
  hash_version :: string
  command_id :: string
  command_type :: string
  idempotency_key :: string
  correlation_id :: string
  causation_id :: "string option"
  tenant_id :: string
  authority_id :: string
  authority_incarnation :: string
  principal_ref :: string
  grant_ref :: string
  target_kind :: string
  target_id :: string
  expected_revision :: int
  issued_at :: datetime
  deadline :: "datetime option"
  payload :: pyval

definition text_field :: "nat \<Rightarrow> string \<Rightarrow> bool" where
  "text_field maximum s = (1 \<le> length s \<and> length s \<le> maximum)"

definition opt_text :: "nat \<Rightarrow> string option \<Rightarrow> bool" where
  "opt_text maximum v = (case v of None \<Rightarrow> True | Some s \<Rightarrow> length s \<le> maximum)"

definition TARGET_KINDS :: "string list" where
  "TARGET_KINDS = [''work_item'', ''message'', ''lease'', ''effect'', ''node'', ''runtime'', ''attempt'',
     ''authority_transport_key'', ''connection'', ''endpoint'', ''recovery'', ''projection'',
     ''project'', ''route'', ''team'']"

definition command_fields_ok :: "command \<Rightarrow> bool" where
  "command_fields_ok c =
     (schema_version c = ''1.0'' \<and> hash_version c \<in> {''v1'', ''v2''} \<and>
      text_field 256 (command_id c) \<and> text_field 128 (command_type c) \<and>
      text_field 256 (idempotency_key c) \<and> text_field 256 (correlation_id c) \<and>
      opt_text 256 (causation_id c) \<and> text_field 256 (tenant_id c) \<and>
      text_field 256 (authority_id c) \<and> text_field 256 (authority_incarnation c) \<and>
      text_field 256 (principal_ref c) \<and> text_field 256 (grant_ref c) \<and>
      target_kind c \<in> set TARGET_KINDS \<and> text_field 256 (target_id c) \<and>
      0 \<le> expected_revision c)"

definition aware_command_time :: "datetime option \<Rightarrow> bool" where
  "aware_command_time v = (case v of None \<Rightarrow> True | Some t \<Rightarrow> aware t)"

definition deadline_after_issue :: "command \<Rightarrow> bool" where
  "deadline_after_issue c =
     (case deadline c of None \<Rightarrow> True | Some d \<Rightarrow> instant (issued_at c) \<le> instant d)"

definition validate_command :: "command \<Rightarrow> command result" where
  "validate_command c =
     (if \<not> command_fields_ok c \<or> \<not> aware_command_time (Some (issued_at c))
         \<or> \<not> aware_command_time (deadline c) \<or> \<not> deadline_after_issue c
      then Inl (ValueError ''CommandEnvelope'')
      else rbind (bounded_payload (payload c)) (\<lambda>p. Inr (c\<lparr>payload := p\<rparr>)))"

definition opt_str :: "string option \<Rightarrow> pyval" where
  "opt_str v = (case v of None \<Rightarrow> PyNone | Some s \<Rightarrow> PyStr s)"

definition canonical_input :: "hash_env \<Rightarrow> command \<Rightarrow> pyval option \<Rightarrow> pyval" where
  "canonical_input env c extra = PyDict
     ([(PyStr ''schema_version'', PyStr (schema_version c)),
       (PyStr ''hash_version'', PyStr (hash_version c)),
       (PyStr ''command_id'', PyStr (command_id c)),
       (PyStr ''command_type'', PyStr (command_type c)),
       (PyStr ''idempotency_key'', PyStr (idempotency_key c)),
       (PyStr ''correlation_id'', PyStr (correlation_id c)),
       (PyStr ''causation_id'', opt_str (causation_id c)),
       (PyStr ''tenant_id'', PyStr (tenant_id c)),
       (PyStr ''authority_id'', PyStr (authority_id c)),
       (PyStr ''authority_incarnation'', PyStr (authority_incarnation c)),
       (PyStr ''principal_ref'', PyStr (principal_ref c)),
       (PyStr ''grant_ref'', PyStr (grant_ref c)),
       (PyStr ''target_kind'', PyStr (target_kind c)),
       (PyStr ''target_id'', PyStr (target_id c)),
       (PyStr ''expected_revision'', PyInt (expected_revision c)),
       (PyStr ''issued_at'', PyStr (model_time env (issued_at c))),
       (PyStr ''deadline'', case deadline c of None \<Rightarrow> PyNone | Some d \<Rightarrow> PyStr (model_time env d)),
       (PyStr ''payload'', payload c)]
      @ (case extra of None \<Rightarrow> [] | Some (PyDict []) \<Rightarrow> [] | Some x \<Rightarrow> [(PyStr ''extra'', x)]))"

definition canonical_hash :: "hash_env \<Rightarrow> command \<Rightarrow> pyval option \<Rightarrow> string" where
  "canonical_hash env c extra = sha256_hex env (canonical_json True (canonical_input env c extra))"

definition extra_dict :: "pyval option \<Rightarrow> pyval" where
  "extra_dict extra = (case extra of None \<Rightarrow> PyDict [] | Some x \<Rightarrow> x)"

definition legacy_hash :: "hash_env \<Rightarrow> command \<Rightarrow> pyval option \<Rightarrow> string" where
  "legacy_hash env c extra = sha256_hex env (canonical_json True (PyDict
     [(PyStr ''command_id'', PyStr (command_id c)),
      (PyStr ''command_type'', PyStr (command_type c)),
      (PyStr ''idempotency_key'', PyStr (idempotency_key c)),
      (PyStr ''correlation_id'', PyStr (correlation_id c)),
      (PyStr ''tenant_id'', PyStr (tenant_id c)),
      (PyStr ''authority_id'', PyStr (authority_id c)),
      (PyStr ''authority_incarnation'', PyStr (authority_incarnation c)),
      (PyStr ''principal_ref'', PyStr (principal_ref c)),
      (PyStr ''grant_ref'', PyStr (grant_ref c)),
      (PyStr ''target_kind'', PyStr (target_kind c)),
      (PyStr ''target_id'', PyStr (target_id c)),
      (PyStr ''expected_revision'', PyInt (expected_revision c)),
      (PyStr ''issued_at'', PyStr (isoformat env (issued_at c))),
      (PyStr ''deadline'', case deadline c of None \<Rightarrow> PyNone | Some d \<Rightarrow> PyStr (isoformat env d)),
      (PyStr ''payload'', payload c),
      (PyStr ''extra'', extra_dict extra)]))"

record command_result =
  res_command_id :: string
  res_operation_id :: string
  res_target_id :: string
  res_revision :: int
  res_state :: string
  res_receipt_layer :: string
  res_duplicate :: bool

record transition_request =
  to_state :: work_item_state
  evidence_refs :: "string list"
  review_ref :: "string option"
  effect_refs :: "string list"
  tr_readback_refs :: "string list"

record lease_request =
  lr_resource_id :: string
  owner_attempt_id :: string
  owner_runtime_id :: string
  lr_grant_ref :: string
  lr_authority_incarnation :: string
  lr_scope_id :: string
  mode :: string
  lr_work_item_id :: "string option"
  ttl_seconds :: int

definition validate_lease_request :: "lease_request \<Rightarrow> lease_request result" where
  "validate_lease_request r =
     (if text_field 256 (lr_resource_id r) \<and> text_field 256 (owner_attempt_id r) \<and>
         text_field 256 (owner_runtime_id r) \<and> text_field 256 (lr_grant_ref r) \<and>
         text_field 256 (lr_authority_incarnation r) \<and> text_field 256 (lr_scope_id r) \<and>
         mode r \<in> {''exclusive'', ''shared''} \<and> opt_text 256 (lr_work_item_id r) \<and>
         0 < ttl_seconds r \<and> ttl_seconds r \<le> 3600
      then Inr r else Inl (ValueError ''LeaseRequest''))"

section \<open>Artifact references\<close>

definition starts_with :: "string \<Rightarrow> string \<Rightarrow> bool" where
  "starts_with pre s = (take (length pre) s = pre)"

definition slashed :: "string \<Rightarrow> string" where
  "slashed v = map (\<lambda>c. if c = CHR 0x5C then CHR ''/'' else c) v"

definition relative_path :: "string \<Rightarrow> string result" where
  "relative_path value =
     (if value = [] \<or> (\<exists>ch \<in> set value. (of_char ch :: nat) < 32)
      then Inl (ValueError ''artifact path must be relative and NUL/control-free'')
      else if starts_with ''/'' value \<or> starts_with [CHR 0x5C] value
           \<or> starts_with ''//'' value \<or> starts_with [CHR 0x5C, CHR 0x5C] value
      then Inl (ValueError ''artifact path must be relative'')
      else if 2 \<le> length value \<and> value ! 1 = CHR '':''
      then Inl (ValueError ''drive/device paths are not allowed'')
      else if starts_with [CHR 0x5C, CHR 0x5C, CHR ''?'', CHR 0x5C] value
           \<or> starts_with [CHR 0x5C, CHR 0x5C, CHR ''.'', CHR 0x5C] value
           \<or> starts_with [CHR 0x5C, CHR ''?'', CHR ''?'', CHR 0x5C] value
      then Inl (ValueError ''device paths are not allowed'')
      else if CHR '':'' \<in> set value then Inl (ValueError ''ADS/colon paths are not allowed'')
      else
        let parts = split_on CHR ''/'' (slashed value)
        in if \<exists>part \<in> set parts. part \<in> {[], ''.'', ''..''}
           then Inl (ValueError ''artifact path contains traversal or empty segments'')
           else Inr (join ''/'' parts))"

definition is_sha256 :: "string \<Rightarrow> bool" where
  "is_sha256 s = (length s = 64 \<and> (\<forall>c \<in> set s. c \<in> set ''0123456789abcdef''))"

record artifact_ref =
  ar_path :: string
  ar_sha256 :: string
  ar_size_bytes :: int
  ar_media_type :: string
  ar_kind :: string
  ar_scope_id :: string
  ar_immutable :: bool

definition validate_artifact_ref :: "artifact_ref \<Rightarrow> artifact_ref result" where
  "validate_artifact_ref a =
     (if text_field 1024 (ar_path a) \<and> is_sha256 (ar_sha256 a) \<and> 0 \<le> ar_size_bytes a \<and>
         text_field 256 (ar_media_type a) \<and>
         ar_kind a \<in> {''source'', ''output'', ''test'', ''readback'', ''manifest'', ''other''} \<and>
         text_field 256 (ar_scope_id a)
      then rbind (relative_path (ar_path a)) (\<lambda>p. Inr (a\<lparr>ar_path := p\<rparr>))
      else Inl (ValueError ''ArtifactRef''))"

section \<open>Evidence\<close>

record execution_receipt =
  er_receipt_id :: string
  er_work_item_id :: string
  er_attempt_id :: string
  er_runtime_id :: string
  er_provider :: string
  er_command_id :: string
  er_operation_id :: string
  er_event_id :: string
  er_source_baseline :: string
  er_candidate_ref :: string
  er_source_commit :: string
  er_source_tree :: string
  er_source_diff :: "artifact_ref option"
  er_untracked_manifest :: "artifact_ref option"
  test_commands :: "string list"
  test_exit_codes :: "int list"
  test_exit_code :: "int option"
  er_os :: string
  er_toolchain :: string
  er_lockfile_digest :: "string option"
  er_artifact_refs :: "artifact_ref list"
  er_readback_refs :: "artifact_ref list"
  source_sync :: string
  er_usage :: "pyval option"
  er_unresolved_items :: "string list"
  er_status :: string
  er_observed_at :: datetime

definition receipt_is_complete :: "execution_receipt \<Rightarrow> bool" where
  "receipt_is_complete r =
     (er_status r = ''succeeded''
      \<and> er_source_baseline r \<noteq> [] \<and> er_candidate_ref r \<noteq> [] \<and> er_source_commit r \<noteq> [] \<and> er_source_tree r \<noteq> []
      \<and> test_commands r \<noteq> []
      \<and> (test_exit_codes r \<noteq> [] \<or> test_exit_code r \<noteq> None)
      \<and> (test_exit_codes r = [] \<or> length (test_exit_codes r) = length (test_commands r))
      \<and> (\<forall>code \<in> set (test_exit_codes r). code = 0)
      \<and> (test_exit_code r = None \<or> test_exit_code r = Some 0)
      \<and> er_artifact_refs r \<noteq> []
      \<and> (\<forall>ref \<in> set (er_artifact_refs r). ar_immutable ref)
      \<and> source_sync r \<noteq> []
      \<and> er_unresolved_items r = [])"

record evidence_bundle =
  eb_evidence_id :: string
  eb_work_item_id :: string
  eb_source_baseline :: string
  eb_candidate_ref :: string
  eb_producer_ref :: string
  eb_observer_ref :: string
  eb_source_class :: string
  eb_evidence_state :: string
  eb_execution_receipt :: execution_receipt
  eb_artifact_refs :: "artifact_ref list"
  eb_readback_refs :: "artifact_ref list"
  eb_command_id :: string
  eb_operation_id :: string
  eb_event_id :: string
  eb_observed_at :: datetime
  eb_expires_at :: "datetime option"
  eb_unresolved_items :: "string list"

definition bundle_is_complete :: "evidence_bundle \<Rightarrow> bool" where
  "bundle_is_complete b =
     (eb_source_class b = ''directly_verified''
      \<and> eb_evidence_state b = ''complete''
      \<and> eb_unresolved_items b = []
      \<and> er_source_baseline (eb_execution_receipt b) = eb_source_baseline b
      \<and> er_candidate_ref (eb_execution_receipt b) = eb_candidate_ref b
      \<and> receipt_is_complete (eb_execution_receipt b)
      \<and> (eb_artifact_refs b \<noteq> [] \<or> er_artifact_refs (eb_execution_receipt b) \<noteq> []))"

section \<open>Properties\<close>

lemma starts_with_single: "starts_with [c] s \<longleftrightarrow> s \<noteq> [] \<and> hd s = c"
  by (cases s) (auto simp: starts_with_def)

lemma starts_with_hd: "starts_with (c # cs) s \<Longrightarrow> s \<noteq> [] \<and> hd s = c"
  by (cases s) (auto simp: starts_with_def)

lemma relative_path_Inr:
  "relative_path v = Inr p \<longleftrightarrow>
     p = slashed v \<and> v \<noteq> [] \<and> (\<forall>ch \<in> set v. 32 \<le> (of_char ch :: nat)) \<and>
     hd v \<noteq> CHR ''/'' \<and> hd v \<noteq> CHR 0x5C \<and> CHR '':'' \<notin> set v \<and>
     (\<forall>part \<in> set (split_on CHR ''/'' (slashed v)). part \<notin> {[], ''.'', ''..''})"
    (is "?l = ?r")
proof -
  have join: "join ''/'' (split_on CHR ''/'' (slashed v)) = slashed v"
    by (rule split_on_join) simp
  have drive: "CHR '':'' \<notin> set v \<Longrightarrow> 2 \<le> length v \<Longrightarrow> v ! 1 \<noteq> CHR '':''"
    by (cases v; cases "tl v") auto
  show ?thesis
  proof
    assume ?l
    then show ?r
      unfolding relative_path_def Let_def join
      by (auto simp: starts_with_single not_less split: if_splits)
  next
    assume r: ?r
    then have "\<not> starts_with (CHR ''/'' # cs) v \<and> \<not> starts_with (CHR 0x5C # cs) v" for cs
      using starts_with_hd by blast
    moreover have "\<not> (\<exists>ch \<in> set v. (of_char ch :: nat) < 32)" using r by (auto simp: not_less)
    ultimately show ?l
      using r drive unfolding relative_path_def Let_def join by simp
  qed
qed

lemma slashed_idem: "slashed (slashed v) = slashed v"
  by (simp add: slashed_def)

text \<open>
  An accepted artifact path cannot leave its store: it is relative, free of control
  characters, colons and backslashes, every segment between slashes is a proper name (not empty,
  \<open>.\<close> or \<open>..\<close>), and accepting it again changes nothing.
\<close>

theorem relative_path_safe:
  assumes "relative_path v = Inr p"
  shows "(\<forall>part \<in> set (split_on CHR ''/'' p). part \<notin> {[], ''.'', ''..''}) \<and>
    CHR 0x5C \<notin> set p \<and> CHR '':'' \<notin> set p \<and> (\<forall>ch \<in> set p. 32 \<le> (of_char ch :: nat)) \<and>
    p \<noteq> [] \<and> hd p \<noteq> CHR ''/'' \<and> relative_path p = Inr p"
proof -
  note r = assms [unfolded relative_path_Inr]
  from r have p: "p = slashed v" by blast
  from r have v: "v \<noteq> []" "\<forall>ch \<in> set v. 32 \<le> (of_char ch :: nat)"
    "hd v \<noteq> CHR ''/''" "hd v \<noteq> CHR 0x5C" "CHR '':'' \<notin> set v" by blast+
  from r have parts: "\<forall>part \<in> set (split_on CHR ''/'' (slashed v)). part \<notin> {[], ''.'', ''..''}" by blast
  have facts: "p \<noteq> []" "\<forall>ch \<in> set p. 32 \<le> (of_char ch :: nat)" "hd p \<noteq> CHR ''/''" "hd p \<noteq> CHR 0x5C"
    "CHR '':'' \<notin> set p" "CHR 0x5C \<notin> set p"
    using v by (auto simp: p slashed_def hd_map)
  have same: "slashed p = p" by (simp only: p slashed_idem)
  have "relative_path p = Inr p"
    using facts parts unfolding relative_path_Inr same p [symmetric] by blast
  with facts parts show ?thesis unfolding p [symmetric] by blast
qed

theorem relative_path_safe_witness:
  "relative_path [CHR ''a'', CHR 0x5C, CHR ''b''] = Inr ''a/b'' \<and> relative_path ''a/b'' = Inr ''a/b''"
proof -
  have h: "relative_path [CHR ''a'', CHR 0x5C, CHR ''b''] = Inr ''a/b''"
    by (simp add: relative_path_Inr slashed_def)
  from h relative_path_safe [OF h] show ?thesis by simp
qed

lemma validate_command_Inr:
  "validate_command c = Inr d \<Longrightarrow>
     command_fields_ok c \<and> aware (issued_at c) \<and> aware_command_time (deadline c) \<and> deadline_after_issue c \<and>
     (\<exists>p. bounded_payload (payload c) = Inr p \<and> d = c\<lparr>payload := p\<rparr>)"
  by (auto simp: validate_command_def aware_command_time_def split: if_splits)

lemma command_fields_ok_payload [simp]: "command_fields_ok (c\<lparr>payload := p\<rparr>) = command_fields_ok c"
  by (simp add: command_fields_ok_def)

lemma deadline_after_issue_payload [simp]: "deadline_after_issue (c\<lparr>payload := p\<rparr>) = deadline_after_issue c"
  by (cases "deadline c") (simp_all add: deadline_after_issue_def)

lemma earliest_le: "earliest vs = Some t \<Longrightarrow> Some v \<in> set vs \<Longrightarrow> t \<le> v"
proof -
  assume e: "earliest vs = Some t" and v: "Some v \<in> set vs"
  have "v \<in> set (List.map_filter id vs)" using v by (force simp: List.map_filter_def)
  then show "t \<le> v" using e by (auto simp: earliest_def Let_def split: if_splits)
qed

lemma expired_earliest: "Some v \<in> set vs \<Longrightarrow> expired (Some v) now \<Longrightarrow> expired (earliest vs) now"
proof -
  assume v: "Some v \<in> set vs" and e: "expired (Some v) now"
  have "v \<in> set (List.map_filter id vs)" using v by (force simp: List.map_filter_def)
  then have "List.map_filter id vs \<noteq> []" by auto
  then obtain t where t: "earliest vs = Some t" by (simp add: earliest_def Let_def)
  from earliest_le [OF this v] e show ?thesis by (simp add: expired_def t)
qed

end
