(* ===== verification/Permissions.thy ===== *)
theory Permissions
  imports Command_Models
begin

text \<open>
  \<open>expanded_permissions\<close> of \<open>src/runtime/communication_permissions.py\<close> and the
  organization vocabulary of \<open>src/runtime/agent_organization.py\<close>.

  A Grant carries a list of permission strings. A manager profile inherits the profiles below
  it; operational permissions are never inherited. \<open>management_tool_allowed\<close> is the
  eligibility rule used for tool discovery and for tool calls.
\<close>

section \<open>Profile inheritance\<close>

definition expanded_permissions :: "string list \<Rightarrow> string set" where
  "expanded_permissions permissions =
     (let r0 = set permissions;
          r1 = (if ''profile.root_manager'' \<in> r0
                then r0 \<union> {''profile.route_manager'', ''profile.engineer'', ''profile.reviewer''} else r0);
          r2 = (if ''profile.route_manager'' \<in> r1
                then r1 \<union> {''profile.engineer'', ''profile.reviewer''} else r1)
      in r2)"

definition is_profile :: "string \<Rightarrow> bool" where
  "is_profile p = starts_with ''profile.'' p"

lemma expanded_superset: "set ps \<subseteq> expanded_permissions ps"
  by (auto simp: expanded_permissions_def Let_def)

lemma expanded_mono: "set ps \<subseteq> expanded_permissions qs \<Longrightarrow> expanded_permissions ps \<subseteq> expanded_permissions qs"
  by (auto simp: expanded_permissions_def Let_def split: if_splits)

lemma expanded_operational: "\<not> is_profile p \<Longrightarrow> p \<in> expanded_permissions ps \<longleftrightarrow> p \<in> set ps"
  by (auto simp: expanded_permissions_def is_profile_def starts_with_def Let_def)

text \<open>
  Inheritance is a closure over role profiles that never widens an operational Grant:
  expanding keeps every permission of the Grant, expanding a Grant that is contained in the
  expansion of another stays inside it, and a permission that is not a role profile is in the
  expansion only if the Grant itself lists it.
\<close>

theorem expanded_permissions_closure:
  "set ps \<subseteq> expanded_permissions ps \<and>
   (expanded_permissions ps \<subseteq> expanded_permissions qs \<longleftrightarrow> set ps \<subseteq> expanded_permissions qs) \<and>
   (is_profile p \<or> (p \<in> expanded_permissions ps \<longleftrightarrow> p \<in> set ps))"
  using expanded_superset expanded_mono expanded_operational by blast

section \<open>Organization\<close>

definition management_tool_allowed :: "string \<Rightarrow> string \<Rightarrow> bool \<Rightarrow> bool" where
  "management_tool_allowed name profile trusted_client =
     (if name \<in> {''configure_root'', ''configure_project''}
      then trusted_client \<or> profile \<in> {''root_manager'', ''operator''}
      else if name = ''create_route'' then trusted_client \<or> profile = ''root_manager''
      else if name \<in> {''configure_team'', ''update_route''}
      then trusted_client \<or> profile \<in> {''root_manager'', ''route_manager''}
      else True)"

definition MANAGEMENT_TOOLS :: "string list" where
  "MANAGEMENT_TOOLS = [''configure_root'', ''configure_project'', ''create_route'', ''configure_team'', ''update_route'']"

record organization =
  org_level :: string
  org_level_source :: string
  org_label :: string
  org_primary_role :: "string option"
  org_responsibilities :: "string list"

definition inferred_level :: "string option \<Rightarrow> string" where
  "inferred_level primary_role =
     (if primary_role = Some ''client'' then ''client''
      else if primary_role = Some ''root'' then ''root''
      else if primary_role = Some ''route'' then ''route''
      else if primary_role \<in> {Some ''engineer'', Some ''reviewer'', Some ''specialist'', Some ''finalizer''}
      then ''agent'' else ''unknown'')"

definition default_roles :: "string option \<Rightarrow> string list" where
  "default_roles primary_role =
     (if primary_role = Some ''root'' then [''project_coordination'']
      else if primary_role = Some ''route'' then [''route_coordination'']
      else if inferred_level primary_role = ''agent''
      then (case primary_role of Some r \<Rightarrow> [r] | None \<Rightarrow> []) else [])"

definition level_label :: "string \<Rightarrow> string result" where
  "level_label level =
     (if level = ''client'' then Inr ''Trusted Client''
      else if level = ''root'' then Inr ''Root Agent''
      else if level = ''route'' then Inr ''Route Manager''
      else if level = ''agent'' then Inr ''Collaborator''
      else if level = ''unknown'' then Inr ''Unclassified Agent''
      else Inl (PyKeyError level))"

definition truthy :: "string option \<Rightarrow> bool" where
  "truthy v = (case v of None \<Rightarrow> False | Some s \<Rightarrow> s \<noteq> [])"

definition organization_projection ::
  "string option \<Rightarrow> string option \<Rightarrow> string list option \<Rightarrow> organization result" where
  "organization_projection primary_role level responsibilities =
     (let selected0 = (if level = Some ''task'' then Some ''agent'' else level);
          selected_level = (if truthy selected0 then the selected0 else inferred_level primary_role);
          duties = (case responsibilities of
             None \<Rightarrow> default_roles primary_role
           | Some [] \<Rightarrow> default_roles primary_role
           | Some rs \<Rightarrow> rs)
      in rbind (level_label selected_level) (\<lambda>label.
           Inr \<lparr>org_level = selected_level,
                org_level_source = (if truthy level then ''explicit_declaration'' else ''binding_projection''),
                org_label = label, org_primary_role = primary_role, org_responsibilities = duties\<rparr>))"

lemma inferred_level_label: "\<exists>l. level_label (inferred_level r) = Inr l"
  by (auto simp: level_label_def inferred_level_def)

text \<open>
  Management tools are reserved for managers: an ordinary collaborator profile (engineer,
  reviewer, specialist or finalizer) without a trusted Client connection is refused exactly the
  five management tools, a trusted Client is refused none, and a profile that may create routes
  may use every management tool.
\<close>

theorem management_tools_reserved:
  "(\<forall>profile \<in> {''engineer'', ''reviewer'', ''specialist'', ''finalizer''}.
      \<forall>name. management_tool_allowed name profile False \<longleftrightarrow> name \<notin> set MANAGEMENT_TOOLS) \<and>
   (\<forall>name profile. management_tool_allowed name profile True) \<and>
   (\<forall>name profile. management_tool_allowed ''create_route'' profile False \<longrightarrow>
      management_tool_allowed name profile False)"
  by (simp add: management_tool_allowed_def MANAGEMENT_TOOLS_def)

theorem management_tools_reserved_witness:
  "management_tool_allowed ''create_route'' ''root_manager'' False \<and>
   management_tool_allowed ''update_route'' ''root_manager'' False \<and>
   \<not> management_tool_allowed ''configure_team'' ''engineer'' False"
proof -
  have c: "management_tool_allowed ''create_route'' ''root_manager'' False"
    by (simp add: management_tool_allowed_def)
  from management_tools_reserved
  have u: "management_tool_allowed ''update_route'' ''root_manager'' False" using c by blast
  from management_tools_reserved
  have "management_tool_allowed ''configure_team'' ''engineer'' False \<longleftrightarrow>
      ''configure_team'' \<notin> set MANAGEMENT_TOOLS" by blast
  then have "\<not> management_tool_allowed ''configure_team'' ''engineer'' False"
    by (simp add: MANAGEMENT_TOOLS_def)
  with c u show ?thesis by blast
qed

text \<open>A binding projection always has a label; only an explicit unknown level raises.\<close>

lemma organization_projection_total:
  "\<not> truthy level \<Longrightarrow> \<exists>org. organization_projection role level duties = Inr org \<and> org_level org = inferred_level role"
proof -
  assume l: "\<not> truthy level"
  obtain lbl where "level_label (inferred_level role) = Inr lbl" using inferred_level_label by blast
  moreover have "\<not> truthy (if level = Some ''task'' then Some ''agent'' else level)"
    using l by (auto simp: truthy_def)
  ultimately show ?thesis by (simp add: organization_projection_def Let_def)
qed

end
