(* ===== verification/Migrations.thy ===== *)
theory Migrations
  imports Permissions
begin

text \<open>
  \<open>src/runtime/migrations.py\<close>: classification of historical command journal entries.

  \<open>recover_original_command_id\<close> finds the one identity a record can prove,
  \<open>migrate_legacy_record\<close> decides whether its hash may be verified at all, and
  \<open>classify_replay\<close> compares a retried command with the record under the pinned historical
  hash algorithms. The properties say that a replay is granted only to the same command.
\<close>

definition FOUNDATION_HASH_VERSION :: string where "FOUNDATION_HASH_VERSION = ''e55-v0''"
definition HARDENED_HASH_VERSION :: string where "HARDENED_HASH_VERSION = ''912-v1''"
definition LEGACY_HASH_VERSION :: string where "LEGACY_HASH_VERSION = ''legacy-unclassified''"
definition CURRENT_HASH_VERSION :: string where "CURRENT_HASH_VERSION = ''v2''"

lemmas hash_version_defs =
  FOUNDATION_HASH_VERSION_def HARDENED_HASH_VERSION_def LEGACY_HASH_VERSION_def CURRENT_HASH_VERSION_def

datatype migration_action = Verify | Replay | Conflict | Quarantine

record legacy_command_record =
  lc_tenant_id :: string
  lc_idempotency_key :: "string option"
  lc_command_id :: "string option"
  lc_payload_hash :: "string option"
  lc_result_json :: pyval
  lc_hash_version :: "string option"
  lc_principal_ref :: "string option"

record migration_decision =
  action :: migration_action
  md_command_id :: "string option"
  md_hash_version :: "string option"
  reason :: string

text \<open>\<open>str.isspace\<close> on the code points below 256, for \<open>str.strip\<close>.\<close>

definition is_space :: "char \<Rightarrow> bool" where
  "is_space c = (let n = of_char c :: nat in
     (9 \<le> n \<and> n \<le> 13) \<or> (28 \<le> n \<and> n \<le> 32) \<or> n = 133 \<or> n = 160)"

fun valid_identity :: "pyval \<Rightarrow> bool" where
  "valid_identity (PyStr s) =
     (0 < length s \<and> length s \<le> 256 \<and> (\<exists>c \<in> set s. \<not> is_space c) \<and>
      \<not> (\<exists>c \<in> set s. (of_char c :: nat) < 32 \<or> (127 \<le> (of_char c :: nat) \<and> (of_char c :: nat) \<le> 159)))"
| "valid_identity _ = False"

fun result_mapping :: "hash_env \<Rightarrow> pyval \<Rightarrow> (pyval \<times> pyval) list option" where
  "result_mapping env (PyDict kvs) = Some kvs"
| "result_mapping env (PyStr s) =
     (case json_loads env s of Some (PyDict kvs) \<Rightarrow> Some kvs | _ \<Rightarrow> None)"
| "result_mapping env _ = None"

definition recover_original_command_id :: "hash_env \<Rightarrow> legacy_command_record \<Rightarrow> string option" where
  "recover_original_command_id env record =
     (case result_mapping env (lc_result_json record) of
        None \<Rightarrow> None
      | Some result \<Rightarrow>
          (let column = lc_command_id record; result_id = dict_get result ''command_id'' in
           if (case column of None \<Rightarrow> False | Some c \<Rightarrow> \<not> valid_identity (PyStr c)) then None
           else if (case result_id of None \<Rightarrow> False | Some v \<Rightarrow> \<not> valid_identity v) then None
           else if (case (column, result_id) of (Some c, Some v) \<Rightarrow> PyStr c \<noteq> v | _ \<Rightarrow> False) then None
           else case (column, result_id) of
               (Some c, _) \<Rightarrow>
                 (if Some c = lc_idempotency_key record \<and> result_id = None then None else Some c)
             | (None, Some (PyStr v)) \<Rightarrow> Some v
             | _ \<Rightarrow> None))"

definition version :: "string option \<Rightarrow> string option" where
  "version v =
     (if v \<in> {None, Some ''1'', Some ''v1'', Some LEGACY_HASH_VERSION} then Some LEGACY_HASH_VERSION
      else if v \<in> {Some FOUNDATION_HASH_VERSION, Some HARDENED_HASH_VERSION, Some CURRENT_HASH_VERSION} then v
      else None)"

definition decision :: "migration_action \<Rightarrow> string option \<Rightarrow> string option \<Rightarrow> string \<Rightarrow> migration_decision" where
  "decision a c h r = \<lparr>action = a, md_command_id = c, md_hash_version = h, reason = r\<rparr>"

definition migrate_legacy_record :: "hash_env \<Rightarrow> legacy_command_record \<Rightarrow> migration_decision" where
  "migrate_legacy_record env record =
     (let identity = recover_original_command_id env record; ver = version (lc_hash_version record) in
      if identity = None then decision Quarantine None ver ''missing_or_conflicting_original_command_id''
      else if ver = None then decision Quarantine identity (lc_hash_version record) ''unknown_hash_version''
      else if ver = Some CURRENT_HASH_VERSION
      then decision Conflict identity ver ''current_hash_requires_current_dedup''
      else if (case lc_payload_hash record of None \<Rightarrow> True | Some h \<Rightarrow> \<not> is_sha256 h)
      then decision Quarantine identity ver ''missing_or_malformed_legacy_hash''
      else decision Verify identity ver ''legacy_identity_requires_hash_verification'')"

definition foundation_input :: "command \<Rightarrow> pyval option \<Rightarrow> pyval" where
  "foundation_input c extra = PyDict
     [(PyStr ''command_type'', PyStr (command_type c)),
      (PyStr ''target_kind'', PyStr (target_kind c)),
      (PyStr ''target_id'', PyStr (target_id c)),
      (PyStr ''expected_revision'', PyInt (expected_revision c)),
      (PyStr ''payload'', payload c),
      (PyStr ''extra'', extra_dict extra)]"

text \<open>
  \<open>legacy_command_hash\<close> of the module: \<open>None\<close> where it raises (no deadline under the
  hardened algorithm, or an algorithm that is not pinned).
\<close>

definition legacy_command_hash :: "hash_env \<Rightarrow> command \<Rightarrow> pyval option \<Rightarrow> string \<Rightarrow> string option" where
  "legacy_command_hash env c extra hver =
     (if hver = FOUNDATION_HASH_VERSION
      then Some (sha256_hex env (canonical_json True (foundation_input c extra)))
      else if hver = HARDENED_HASH_VERSION
      then (case deadline c of None \<Rightarrow> None | Some d \<Rightarrow> Some (legacy_hash env c extra))
      else None)"

definition candidate_versions :: "string option \<Rightarrow> string list" where
  "candidate_versions hver =
     (if hver = Some LEGACY_HASH_VERSION then [FOUNDATION_HASH_VERSION, HARDENED_HASH_VERSION]
      else case hver of None \<Rightarrow> [] | Some v \<Rightarrow> [v])"

definition classify_replay ::
  "hash_env \<Rightarrow> legacy_command_record \<Rightarrow> command \<Rightarrow> pyval option \<Rightarrow> migration_decision" where
  "classify_replay env record c extra =
     (let d = migrate_legacy_record env record;
          quarantine = decision Quarantine (md_command_id d) (md_hash_version d);
          versions = candidate_versions (md_hash_version d);
          hashes = map (legacy_command_hash env c extra) versions;
          matches = filter (\<lambda>v. legacy_command_hash env c extra v = lc_payload_hash record) versions
      in
      if action d \<noteq> Verify then d
      else if Some (command_id c) \<noteq> md_command_id d \<or> tenant_id c \<noteq> lc_tenant_id record
           \<or> Some (idempotency_key c) \<noteq> lc_idempotency_key record
      then quarantine ''command_identity_mismatch''
      else if causation_id c \<noteq> None then quarantine ''unverifiable_legacy_causation''
      else if lc_principal_ref record \<noteq> None \<and> Some (principal_ref c) \<noteq> lc_principal_ref record
      then quarantine ''legacy_principal_mismatch''
      else if None \<in> set hashes then quarantine ''invalid_legacy_command_input''
      else if length matches \<noteq> 1 then quarantine ''legacy_hash_mismatch_or_ambiguity''
      else if hd matches = FOUNDATION_HASH_VERSION \<and>
              \<not> (case lc_principal_ref record of None \<Rightarrow> False | Some p \<Rightarrow> valid_identity (PyStr p))
      then quarantine ''missing_legacy_principal_provenance''
      else decision Replay (md_command_id d) (Some (hd matches)) ''historical_hash_and_identity_verified'')"

section \<open>Properties\<close>

lemma decision_simps [simp]:
  "action (decision a c h r) = a" "md_command_id (decision a c h r) = c"
  "md_hash_version (decision a c h r) = h" "reason (decision a c h r) = r"
  by (simp_all add: decision_def)

lemma migrate_Verify:
  "action (migrate_legacy_record env record) = Verify \<Longrightarrow>
     md_command_id (migrate_legacy_record env record) = recover_original_command_id env record \<and>
     recover_original_command_id env record \<noteq> None \<and>
     md_hash_version (migrate_legacy_record env record) \<in>
       {Some LEGACY_HASH_VERSION, Some FOUNDATION_HASH_VERSION, Some HARDENED_HASH_VERSION} \<and>
     (\<exists>h. lc_payload_hash record = Some h \<and> is_sha256 h)"
  by (auto simp: migrate_legacy_record_def version_def Let_def split: if_splits option.splits)

lemma migrate_not_Replay: "action (migrate_legacy_record env record) \<noteq> Replay"
  by (simp add: migrate_legacy_record_def Let_def)

lemma recover_sound:
  "recover_original_command_id env record = Some i \<Longrightarrow>
     valid_identity (PyStr i) \<and> (lc_command_id record = None \<or> lc_command_id record = Some i) \<and>
     (\<exists>kvs. result_mapping env (lc_result_json record) = Some kvs \<and>
        (dict_get kvs ''command_id'' = Some (PyStr i) \<or>
         dict_get kvs ''command_id'' = None \<and> lc_command_id record = Some i \<and>
         lc_idempotency_key record \<noteq> Some i))"
  by (auto simp: recover_original_command_id_def Let_def
      split: option.splits if_splits pyval.splits)

text \<open>
  The recovered identity of a historical record is never invented: it is a well-formed
  identity, it agrees with the command column wherever the column is set, and it is either named
  by the stored result or is the column of a record whose idempotency key differs from it.
\<close>

theorem recovered_identity_proven:
  assumes "recover_original_command_id env record = Some i"
  shows "valid_identity (PyStr i) \<and> (lc_command_id record = None \<or> lc_command_id record = Some i) \<and>
    (\<exists>kvs. result_mapping env (lc_result_json record) = Some kvs \<and>
       (dict_get kvs ''command_id'' = Some (PyStr i) \<or>
        dict_get kvs ''command_id'' = None \<and> lc_command_id record = Some i \<and>
        lc_idempotency_key record \<noteq> Some i))"
  using recover_sound [OF assms] .

definition sample_env :: hash_env where
  "sample_env = \<lparr>sha256_hex = (\<lambda>s. replicate 64 CHR ''b''),
     isoformat = (\<lambda>t. []), model_time = (\<lambda>t. []), json_loads = (\<lambda>s. None)\<rparr>"

definition sample_legacy :: legacy_command_record where
  "sample_legacy = \<lparr>lc_tenant_id = ''t'', lc_idempotency_key = Some ''k'', lc_command_id = Some ''c'',
     lc_payload_hash = Some (replicate 64 CHR ''b''), lc_result_json = PyDict [], lc_hash_version = Some FOUNDATION_HASH_VERSION,
     lc_principal_ref = Some ''p''\<rparr>"

theorem recovered_identity_proven_witness:
  "recover_original_command_id sample_env sample_legacy = Some ''c'' \<and> valid_identity (PyStr ''c'')"
proof -
  have h: "recover_original_command_id sample_env sample_legacy = Some ''c''"
    by (simp add: recover_original_command_id_def sample_legacy_def dict_get_def Let_def is_space_def)
  from h recovered_identity_proven [OF h] show ?thesis by simp
qed

text \<open>
  A replay is granted only to the command that was recorded: the retry carries the recovered
  command identity, the tenant and the idempotency key of the record, has no causation the old
  hash could not seal, and its payload matches the stored digest under exactly one pinned
  algorithm. Under the foundation algorithm, which does not seal the principal, the principal is
  proven by the historical event and equals the caller's.
\<close>

theorem replay_only_same_command:
  assumes "action (classify_replay env record c extra) = Replay"
  shows "recover_original_command_id env record = Some (command_id c) \<and>
    tenant_id c = lc_tenant_id record \<and> lc_idempotency_key record = Some (idempotency_key c) \<and>
    causation_id c = None \<and>
    (\<exists>v. md_hash_version (classify_replay env record c extra) = Some v \<and>
       v \<in> {FOUNDATION_HASH_VERSION, HARDENED_HASH_VERSION} \<and>
       legacy_command_hash env c extra v = lc_payload_hash record \<and> lc_payload_hash record \<noteq> None \<and>
       (v \<noteq> FOUNDATION_HASH_VERSION \<or> lc_principal_ref record = Some (principal_ref c)))"
proof -
  let ?d = "migrate_legacy_record env record"
  let ?vs = "candidate_versions (md_hash_version ?d)"
  let ?m = "filter (\<lambda>v. legacy_command_hash env c extra v = lc_payload_hash record) ?vs"
  note cl = assms [unfolded classify_replay_def Let_def]
  from cl have v: "action ?d = Verify" using migrate_not_Replay [of env "record"] by (auto split: if_splits)
  note mv = migrate_Verify [OF v]
  from cl v have ids: "Some (command_id c) = md_command_id ?d" "tenant_id c = lc_tenant_id record"
      "Some (idempotency_key c) = lc_idempotency_key record" "causation_id c = None"
      "lc_principal_ref record = None \<or> Some (principal_ref c) = lc_principal_ref record"
      "length ?m = 1"
      "hd ?m \<noteq> FOUNDATION_HASH_VERSION \<or> lc_principal_ref record \<noteq> None"
    by (auto split: if_splits option.splits)
  have res: "md_hash_version (classify_replay env record c extra) = Some (hd ?m)"
    using cl v unfolding classify_replay_def Let_def by (auto split: if_splits)
  have mem: "hd ?m \<in> set ?m" using ids(6) by (cases ?m) auto
  then have "legacy_command_hash env c extra (hd ?m) = lc_payload_hash record" "hd ?m \<in> set ?vs" by auto
  moreover have "set ?vs \<subseteq> {FOUNDATION_HASH_VERSION, HARDENED_HASH_VERSION}"
    using mv by (auto simp: candidate_versions_def hash_version_defs split: if_splits)
  ultimately show ?thesis using res ids mv by auto
qed

definition sample_command :: command where
  "sample_command = \<lparr>schema_version = ''1.0'', hash_version = ''v2'', command_id = ''c'', command_type = ''x'',
     idempotency_key = ''k'', correlation_id = ''r'', causation_id = None, tenant_id = ''t'',
     authority_id = ''a'', authority_incarnation = ''i'', principal_ref = ''p'', grant_ref = ''g'',
     target_kind = ''message'', target_id = ''m'', expected_revision = 0, issued_at = DT 0 (Some 0),
     deadline = Some (DT 9 (Some 0)), payload = PyDict []\<rparr>"

theorem replay_only_same_command_witness:
  "action (classify_replay sample_env sample_legacy sample_command None) = Replay \<and>
   recover_original_command_id sample_env sample_legacy = Some (command_id sample_command) \<and>
   lc_principal_ref sample_legacy = Some (principal_ref sample_command)"
proof -
  have r: "recover_original_command_id sample_env sample_legacy = Some ''c''"
    by (simp add: recover_original_command_id_def sample_legacy_def dict_get_def Let_def is_space_def)
  have m: "migrate_legacy_record sample_env sample_legacy =
      decision Verify (Some ''c'') (Some FOUNDATION_HASH_VERSION) ''legacy_identity_requires_hash_verification''"
    unfolding migrate_legacy_record_def r Let_def
    by (simp add: sample_legacy_def version_def hash_version_defs is_sha256_def)
  have h: "legacy_command_hash sample_env sample_command None FOUNDATION_HASH_VERSION =
      lc_payload_hash sample_legacy"
    by (simp add: legacy_command_hash_def sample_env_def sample_legacy_def)
  have n: "legacy_command_hash sample_env sample_command None FOUNDATION_HASH_VERSION \<noteq> None"
    by (simp add: legacy_command_hash_def)
  have vs: "candidate_versions (Some FOUNDATION_HASH_VERSION) = [FOUNDATION_HASH_VERSION]"
    by (simp add: candidate_versions_def hash_version_defs)
  have act: "action (classify_replay sample_env sample_legacy sample_command None) = Replay"
    unfolding classify_replay_def m Let_def decision_simps vs
    using h n by (auto simp: sample_legacy_def sample_command_def is_space_def)
  from act replay_only_same_command [OF act] r show ?thesis
    by (simp add: sample_legacy_def sample_command_def)
qed

end
