(* ===== verification/Node_Journal.thy ===== *)
theory Node_Journal
  imports Migrations
begin

text \<open>
  \<open>src/runtime/node.py\<close>, first half: the durable SQLite journal of one Node, its mailbox and
  its lifecycle receipts.

  The SQLite tables are lists of rows in the record \<open>node_db\<close>. Every mutating method runs in
  one \<open>BEGIN IMMEDIATE\<close> transaction, so a method that raises leaves the tables as they were:
  it returns \<open>Inl\<close>. A \<open>NodeJournal\<close> object is its \<open>node_identity\<close>; every transaction
  first checks that the boot of the object is still the current one (\<open>fenced\<close>). The current
  time and fresh identifiers are arguments.
\<close>

section \<open>Data\<close>

definition RECEIPT_LAYERS :: "string list" where
  "RECEIPT_LAYERS = [''accepted_by_authority'', ''target_inbox_committed'', ''runtime_dispatched'',
     ''runtime_acknowledged'', ''response_received'']"

fun index_of :: "'a \<Rightarrow> 'a list \<Rightarrow> nat option" where
  "index_of x [] = None"
| "index_of x (y # ys) = (if x = y then Some 0 else map_option Suc (index_of x ys))"

definition receipt_index :: "string \<Rightarrow> nat option" where
  "receipt_index layer = index_of layer RECEIPT_LAYERS"

record journal_operation =
  jo_operation_id :: string
  jo_command_id :: string
  jo_message_id :: string
  jo_operation_kind :: string
  jo_payload_sha256 :: string

record node_identity =
  machine_id :: string
  node_id :: string
  boot_incarnation :: string

record lifecycle_receipt =
  lr_operation_id :: string
  lr_layer :: string
  lr_status :: string
  lr_receipt_id :: string
  lr_observed_at :: string
  lr_evidence :: pyval

record mailbox_message =
  mb_message_id :: string
  mb_command_id :: string
  mb_operation_id :: string
  mb_payload_sha256 :: string
  mb_payload_json :: string
  mb_state :: string
  mb_created_at :: string

record process_observation =
  po_operation_id :: string
  po_process_label :: string
  po_pid :: int
  po_start_identity :: string
  po_observed_at :: string
  po_containment_claimed :: bool

record journal_row =
  jr_operation :: journal_operation
  jr_state :: string
  jr_created_at :: string
  jr_identity :: node_identity

text \<open>The JSON object of \<open>spawn_states.detail_json\<close>, one field per key the code writes.\<close>

record spawn_detail =
  sd_operation_id :: string
  sd_process_label :: string
  sd_intent_boot :: string
  sd_dispatch_boot :: "string option"
  sd_process_identity :: "(int \<times> string) option"
  sd_completion_evidence :: "pyval option"
  sd_uncertainty_reason :: "string option"
  sd_reconciliation :: "pyval option"
  sd_reconciled_at :: "string option"
  sd_reconciled_by_boot :: "string option"

record spawn_row =
  sp_operation_id :: string
  sp_state :: string
  sp_updated_at :: string
  sp_detail :: spawn_detail

record node_db =
  meta_schema_version :: "string option"
  meta_machine_id :: "string option"
  meta_node_id :: "string option"
  meta_boot :: "string option"
  node_boots :: "(string \<times> string \<times> string \<times> string) list"
  journal :: "journal_row list"
  lifecycle_receipts :: "lifecycle_receipt list"
  mailbox :: "mailbox_message list"
  process_observations :: "process_observation list"
  spawn_states :: "spawn_row list"

section \<open>Validation\<close>

definition text_ok :: "string \<Rightarrow> bool" where
  "text_ok s = (s \<noteq> [] \<and> \<not> (\<exists>c \<in> set s. (of_char c :: nat) < 32 \<or> (of_char c :: nat) = 127))"

definition validate_text :: "string \<Rightarrow> string \<Rightarrow> string result" where
  "validate_text value field =
     (if value = [] then Inl (ValueError (field @ '' must be a non-empty string''))
      else if \<exists>c \<in> set value. (of_char c :: nat) < 32 \<or> (of_char c :: nat) = 127
      then Inl (ValueError (field @ '' must not contain control characters''))
      else Inr value)"

definition validate_sha256 :: "string \<Rightarrow> string result" where
  "validate_sha256 value =
     (if is_sha256 value then Inr value
      else Inl (ValueError ''payload_sha256 must be a lowercase SHA-256 digest''))"

datatype node_payload = Bytes "nat list" | Json pyval

definition hex_text :: "nat list \<Rightarrow> string" where
  "hex_text bs = concat (map (\<lambda>b. [hex_digit (b div 16), hex_digit (b mod 16)]) bs)"

definition canonical_payload :: "hash_env \<Rightarrow> node_payload \<Rightarrow> (string \<times> string) result" where
  "canonical_payload env p =
     (let envelope = (case p of
            Bytes bs \<Rightarrow> PyDict [(PyStr ''kind'', PyStr ''bytes''), (PyStr ''value'', PyStr (hex_text bs))]
          | Json v \<Rightarrow> PyDict [(PyStr ''kind'', PyStr ''json''), (PyStr ''value'', v)]);
          encoded = canonical_json True envelope
      in if json_encodable envelope then Inr (encoded, sha256_hex env encoded)
         else Inl (json_error envelope))"

section \<open>Opening the journal\<close>

text \<open>
  \<open>_initialize\<close> on a database that has the tables: identity adoption, the boot fence, and the
  retirement of the previous boot, which turns every spawn whose outcome is open into
  \<open>uncertain\<close>. The arguments \<open>fresh_*\<close> are what \<open>uuid4\<close> and \<open>token_hex\<close> would
  supply.
\<close>

definition SCHEMA_VERSION :: string where "SCHEMA_VERSION = ''acs-node-journal/2''"

definition truthy_or :: "string option \<Rightarrow> string \<Rightarrow> string" where
  "truthy_or v fresh = (if truthy v then the v else fresh)"

definition open_spawn_states :: "string list" where
  "open_spawn_states = [''intent'', ''dispatched'', ''still_running'']"

definition retire_spawns :: "string \<Rightarrow> spawn_row list \<Rightarrow> spawn_row list" where
  "retire_spawns now rows =
     update_where (\<lambda>r. sp_state r \<in> set open_spawn_states)
       (\<lambda>r. r\<lparr>sp_state := ''uncertain'', sp_updated_at := now\<rparr>) rows"

definition adopt_meta :: "string \<Rightarrow> string option \<Rightarrow> string option \<Rightarrow> string \<Rightarrow> string result" where
  "adopt_meta field stored requested fresh =
     (case stored of
        None \<Rightarrow> Inr (truthy_or requested fresh)
      | Some v \<Rightarrow> (if requested \<in> {None, Some v} then Inr v else Inl (OperationIdentityConflict field)))"

definition initialize ::
  "string option \<Rightarrow> string option \<Rightarrow> string option \<Rightarrow> string \<Rightarrow> string \<Rightarrow> string \<Rightarrow> string \<Rightarrow> node_db
     \<Rightarrow> (node_identity \<times> node_db) result" where
  "initialize req_machine req_node req_boot fresh_machine fresh_node fresh_boot now db =
     (if \<not> (meta_schema_version db \<in> {None, Some SCHEMA_VERSION})
      then Inl (JournalCorruptionError ''unsupported node journal schema'')
      else
       rbind (adopt_meta ''machine_id'' (meta_machine_id db) req_machine fresh_machine) (\<lambda>machine_value.
       rbind (adopt_meta ''node_id'' (meta_node_id db) req_node fresh_node) (\<lambda>node_value.
       rbind (validate_text machine_value ''machine_id'') (\<lambda>_.
       rbind (validate_text node_value ''node_id'') (\<lambda>_.
       let boot_value = truthy_or req_boot fresh_boot in
       rbind (validate_text boot_value ''boot_incarnation'') (\<lambda>_.
       let existing_boot = find (\<lambda>b. fst b = boot_value) (node_boots db);
           previous_boot = meta_boot db in
       if (case existing_boot of
             None \<Rightarrow> False
           | Some (b, m, n, t) \<Rightarrow> m \<noteq> machine_value \<or> n \<noteq> node_value)
       then Inl (OperationIdentityConflict ''boot_incarnation'')
       else if existing_boot \<noteq> None \<and> previous_boot \<noteq> None \<and> previous_boot \<noteq> Some boot_value
       then Inl (OperationIdentityConflict ''retired boot incarnation cannot be reactivated'')
       else
         Inr (\<lparr>machine_id = machine_value, node_id = node_value, boot_incarnation = boot_value\<rparr>,
              db\<lparr>meta_schema_version := Some SCHEMA_VERSION,
                 meta_machine_id := Some machine_value,
                 meta_node_id := Some node_value,
                 meta_boot := Some boot_value,
                 node_boots := (if existing_boot = None
                   then node_boots db @ [(boot_value, machine_value, node_value, now)] else node_boots db),
                 spawn_states := (if previous_boot \<noteq> None \<and> previous_boot \<noteq> Some boot_value
                   then retire_spawns now (spawn_states db) else spawn_states db)\<rparr>)))))))"

text \<open>\<open>_transaction\<close>: the boot fence every mutation passes.\<close>

definition fenced :: "node_identity \<Rightarrow> node_db \<Rightarrow> unit result" where
  "fenced self db =
     (if meta_boot db = Some (boot_incarnation self) then Inr ()
      else Inl (OperationIdentityConflict ''retired Node boot cannot mutate journal''))"

section \<open>Operations\<close>

definition lookup_operation :: "string \<Rightarrow> node_db \<Rightarrow> journal_row option" where
  "lookup_operation i db = find (\<lambda>r. jo_operation_id (jr_operation r) = i) (journal db)"

definition lookup_by_command :: "string \<Rightarrow> node_db \<Rightarrow> journal_row option" where
  "lookup_by_command i db = find (\<lambda>r. jo_command_id (jr_operation r) = i) (journal db)"

definition lookup_by_message :: "string \<Rightarrow> node_db \<Rightarrow> journal_row option" where
  "lookup_by_message i db = find (\<lambda>r. jo_message_id (jr_operation r) = i) (journal db)"

definition replay_operation ::
  "journal_operation \<Rightarrow> string \<Rightarrow> journal_row \<Rightarrow> node_db \<Rightarrow> (journal_operation \<times> node_db) result" where
  "replay_operation operation value row db =
     (if jr_operation row = operation then Inr (operation, db)
      else Inl (OperationIdentityConflict value))"

definition insert_operation :: "journal_row \<Rightarrow> node_db \<Rightarrow> node_db" where
  "insert_operation row db = db\<lparr>journal := journal db @ [row]\<rparr>"

definition validate_operation :: "journal_operation \<Rightarrow> unit result" where
  "validate_operation op =
     rbind (validate_text (jo_operation_id op) ''operation_id'') (\<lambda>_.
     rbind (validate_text (jo_command_id op) ''command_id'') (\<lambda>_.
     rbind (validate_text (jo_message_id op) ''message_id'') (\<lambda>_.
     rbind (validate_text (jo_operation_kind op) ''operation_kind'') (\<lambda>_.
     rbind (validate_sha256 (jo_payload_sha256 op)) (\<lambda>_. Inr ())))))"

definition append_operation ::
  "node_identity \<Rightarrow> string \<Rightarrow> journal_operation \<Rightarrow> node_db \<Rightarrow> (journal_operation \<times> node_db) result" where
  "append_operation self now operation db =
     rbind (validate_operation operation) (\<lambda>_.
     rbind (fenced self db) (\<lambda>_.
       case lookup_operation (jo_operation_id operation) db of
         Some row \<Rightarrow> replay_operation operation (jo_operation_id operation) row db
       | None \<Rightarrow>
      (case lookup_by_command (jo_command_id operation) db of
         Some row \<Rightarrow> replay_operation operation (jo_command_id operation) row db
       | None \<Rightarrow>
      (case lookup_by_message (jo_message_id operation) db of
         Some row \<Rightarrow> replay_operation operation (jo_message_id operation) row db
       | None \<Rightarrow>
          Inr (operation, insert_operation
            \<lparr>jr_operation = operation, jr_state = ''recorded'', jr_created_at = now, jr_identity = self\<rparr> db)))))"

definition read_operation :: "string \<Rightarrow> node_db \<Rightarrow> journal_operation option" where
  "read_operation i db = map_option jr_operation (lookup_operation i db)"

section \<open>Mailbox\<close>

definition lookup_message :: "string \<Rightarrow> node_db \<Rightarrow> mailbox_message option" where
  "lookup_message i db = find (\<lambda>m. mb_message_id m = i) (mailbox db)"

definition lookup_mail_command :: "string \<Rightarrow> node_db \<Rightarrow> mailbox_message option" where
  "lookup_mail_command i db = find (\<lambda>m. mb_command_id m = i) (mailbox db)"

definition insert_message :: "mailbox_message \<Rightarrow> node_db \<Rightarrow> node_db" where
  "insert_message m db = db\<lparr>mailbox := mailbox db @ [m]\<rparr>"

definition op_receipts :: "string \<Rightarrow> node_db \<Rightarrow> lifecycle_receipt list" where
  "op_receipts i db = filter (\<lambda>r. lr_operation_id r = i) (lifecycle_receipts db)"

definition stored_layers :: "string \<Rightarrow> node_db \<Rightarrow> nat list result" where
  "stored_layers i db =
     (if None \<in> set (map (receipt_index \<circ> lr_layer) (op_receipts i db))
      then Inl (JournalCorruptionError i)
      else Inr (map (the \<circ> receipt_index \<circ> lr_layer) (op_receipts i db)))"

definition top_layer :: "nat list \<Rightarrow> string" where
  "top_layer layers = (if layers = [] then ''committed'' else RECEIPT_LAYERS ! Max (set layers))"

definition enqueue ::
  "hash_env \<Rightarrow> node_identity \<Rightarrow> string \<Rightarrow> string \<Rightarrow> string \<Rightarrow> string \<Rightarrow> node_payload \<Rightarrow> string option \<Rightarrow> node_db
     \<Rightarrow> (mailbox_message \<times> node_db) result" where
  "enqueue env self now mid cid oid pay given db =
     rbind (validate_text mid ''message_id'') (\<lambda>_.
     rbind (validate_text cid ''command_id'') (\<lambda>_.
     rbind (validate_text oid ''operation_id'') (\<lambda>_.
     rbind (canonical_payload env pay) (\<lambda>(pjson, computed).
     rbind (validate_sha256 (case given of None \<Rightarrow> computed | Some d \<Rightarrow> d)) (\<lambda>dig.
     if dig \<noteq> computed then Inl (OperationIdentityConflict mid)
     else rbind (fenced self db) (\<lambda>_.
     case lookup_operation oid db of
       None \<Rightarrow> Inl (NotFoundError oid)
     | Some row \<Rightarrow>
         if jo_command_id (jr_operation row) \<noteq> cid \<or> jo_message_id (jr_operation row) \<noteq> mid
            \<or> jo_payload_sha256 (jr_operation row) \<noteq> computed
         then Inl (OperationIdentityConflict oid)
         else case lookup_message mid db of
           Some ex \<Rightarrow>
             if mb_command_id ex \<noteq> cid \<or> mb_operation_id ex \<noteq> oid
                \<or> mb_payload_sha256 ex \<noteq> dig \<or> mb_payload_json ex \<noteq> pjson
             then Inl (OperationIdentityConflict mid) else Inr (ex, db)
         | None \<Rightarrow>
         (case lookup_mail_command cid db of
           Some ex \<Rightarrow>
             if mb_message_id ex \<noteq> mid \<or> mb_operation_id ex \<noteq> oid
                \<or> mb_payload_sha256 ex \<noteq> dig \<or> mb_payload_json ex \<noteq> pjson
             then Inl (OperationIdentityConflict cid) else Inr (ex, db)
         | None \<Rightarrow>
             rbind (stored_layers oid db) (\<lambda>layers.
               let m = \<lparr>mb_message_id = mid, mb_command_id = cid, mb_operation_id = oid,
                        mb_payload_sha256 = dig, mb_payload_json = pjson,
                        mb_state = top_layer layers, mb_created_at = now\<rparr>
               in Inr (m, insert_message m db)))))))))"

definition list_mailbox :: "string option \<Rightarrow> node_db \<Rightarrow> mailbox_message list" where
  "list_mailbox state db =
     sort_key (\<lambda>m. mb_created_at m) (sort_key (\<lambda>m. mb_message_id m)
       (filter (\<lambda>m. case state of None \<Rightarrow> True | Some s \<Rightarrow> mb_state m = s) (mailbox db)))"

section \<open>Receipts\<close>

definition lookup_receipt :: "string \<times> string \<Rightarrow> node_db \<Rightarrow> lifecycle_receipt option" where
  "lookup_receipt k db = find (\<lambda>r. (lr_operation_id r, lr_layer r) = k) (lifecycle_receipts db)"

definition insert_receipt :: "lifecycle_receipt \<Rightarrow> node_db \<Rightarrow> node_db" where
  "insert_receipt r db = db\<lparr>
     lifecycle_receipts := lifecycle_receipts db @ [r],
     journal := update_where (\<lambda>j. jo_operation_id (jr_operation j) = lr_operation_id r)
       (\<lambda>j. j\<lparr>jr_state := lr_layer r\<rparr>) (journal db),
     mailbox := update_where (\<lambda>m. mb_operation_id m = lr_operation_id r)
       (\<lambda>m. m\<lparr>mb_state := lr_layer r\<rparr>) (mailbox db)\<rparr>"

text \<open>
  The stored evidence is what \<open>json.loads\<close> reads back from the column.
\<close>

definition stored_evidence :: "pyval \<Rightarrow> pyval" where
  "stored_evidence ev = sort_keys (jsonify ev)"

definition record_receipt ::
  "node_identity \<Rightarrow> string \<Rightarrow> string \<Rightarrow> string \<Rightarrow> string \<Rightarrow> pyval option \<Rightarrow> string option \<Rightarrow> string option \<Rightarrow> node_db
     \<Rightarrow> (lifecycle_receipt \<times> node_db) result" where
  "record_receipt self now oid layer status evidence receipt_id observed_at db =
     rbind (validate_text oid ''operation_id'') (\<lambda>_.
     rbind (validate_text layer ''layer'') (\<lambda>_.
     rbind (validate_text status ''status'') (\<lambda>_.
     case receipt_index layer of
       None \<Rightarrow> Inl (ValueError (''unsupported lifecycle receipt layer: '' @ layer))
     | Some current_index \<Rightarrow>
       let evidence_value = extra_dict evidence;
           observed = truthy_or observed_at now;
           receipt = truthy_or receipt_id (oid @ '':'' @ layer) in
       if \<not> json_encodable evidence_value then Inl (json_error evidence_value)
       else rbind (fenced self db) (\<lambda>_.
       case lookup_operation oid db of
         None \<Rightarrow> Inl (NotFoundError oid)
       | Some _ \<Rightarrow>
         rbind (stored_layers oid db) (\<lambda>existing_layers.
         case lookup_receipt (oid, layer) db of
           Some ex \<Rightarrow>
             if lr_receipt_id ex \<noteq> receipt \<or> lr_status ex \<noteq> status
                \<or> \<not> py_eq (lr_evidence ex) evidence_value
             then Inl (OperationIdentityConflict oid) else Inr (ex, db)
         | None \<Rightarrow>
             if \<exists>i \<in> set existing_layers. current_index < i then Inl (ReceiptOrderError oid)
             else if \<exists>r \<in> set (lifecycle_receipts db). lr_receipt_id r = receipt
             then Inl (IntegrityError ''lifecycle_receipts.receipt_id'')
             else
               let r = \<lparr>lr_operation_id = oid, lr_layer = layer, lr_status = status,
                        lr_receipt_id = receipt, lr_observed_at = observed,
                        lr_evidence = stored_evidence evidence_value\<rparr>
               in Inr (r\<lparr>lr_evidence := evidence_value\<rparr>, insert_receipt r db))))))"

definition receipts :: "string \<Rightarrow> node_db \<Rightarrow> lifecycle_receipt list" where
  "receipts operation_id db =
     sort_key (\<lambda>r. the (receipt_index (lr_layer r))) (op_receipts operation_id db)"

section \<open>Inversion of the operations\<close>

lemma fenced_Inr [simp]: "fenced self db = Inr u \<longleftrightarrow> meta_boot db = Some (boot_incarnation self)"
  by (simp add: fenced_def)

lemma replay_operation_Inr [simp]:
  "replay_operation op v row db = Inr (r, db') \<longleftrightarrow> jr_operation row = op \<and> r = op \<and> db' = db"
  by (auto simp: replay_operation_def)

lemma lookup_operation_SomeD:
  "lookup_operation i db = Some row \<Longrightarrow> row \<in> set (journal db) \<and> jo_operation_id (jr_operation row) = i"
  unfolding lookup_operation_def by (drule find_SomeD) simp

lemma lookup_by_command_SomeD:
  "lookup_by_command i db = Some row \<Longrightarrow> row \<in> set (journal db) \<and> jo_command_id (jr_operation row) = i"
  unfolding lookup_by_command_def by (drule find_SomeD) simp

lemma lookup_by_message_SomeD:
  "lookup_by_message i db = Some row \<Longrightarrow> row \<in> set (journal db) \<and> jo_message_id (jr_operation row) = i"
  unfolding lookup_by_message_def by (drule find_SomeD) simp

lemma lookup_operation_None:
  "lookup_operation i db = None \<longleftrightarrow> (\<forall>row \<in> set (journal db). jo_operation_id (jr_operation row) \<noteq> i)"
  by (simp add: lookup_operation_def table_simps)

lemma lookup_by_command_None:
  "lookup_by_command i db = None \<longleftrightarrow> (\<forall>row \<in> set (journal db). jo_command_id (jr_operation row) \<noteq> i)"
  by (simp add: lookup_by_command_def table_simps)

lemma lookup_by_message_None:
  "lookup_by_message i db = None \<longleftrightarrow> (\<forall>row \<in> set (journal db). jo_message_id (jr_operation row) \<noteq> i)"
  by (simp add: lookup_by_message_def table_simps)

lemmas lookup_None_iffs = lookup_operation_None lookup_by_command_None lookup_by_message_None

abbreviation fresh_row :: "node_identity \<Rightarrow> string \<Rightarrow> journal_operation \<Rightarrow> journal_row" where
  "fresh_row self now op \<equiv>
     \<lparr>jr_operation = op, jr_state = ''recorded'', jr_created_at = now, jr_identity = self\<rparr>"

lemma append_operation_Inr:
  assumes "append_operation self now op db = Inr (r, db')"
  shows "r = op \<and> validate_operation op = Inr () \<and> meta_boot db = Some (boot_incarnation self) \<and>
    ((\<exists>row. lookup_operation (jo_operation_id op) db = Some row \<and> jr_operation row = op \<and> db' = db) \<or>
     (lookup_operation (jo_operation_id op) db = None \<and> lookup_by_command (jo_command_id op) db = None \<and>
      lookup_by_message (jo_message_id op) db = None \<and> db' = insert_operation (fresh_row self now op) db))"
proof -
  have noc: "lookup_operation (jo_operation_id (jr_operation row)) db = None \<Longrightarrow>
      lookup_by_command c db = Some row \<Longrightarrow> False" for row c
    using lookup_by_command_SomeD lookup_operation_None by blast
  have nom: "lookup_operation (jo_operation_id (jr_operation row)) db = None \<Longrightarrow>
      lookup_by_message c db = Some row \<Longrightarrow> False" for row c
    using lookup_by_message_SomeD lookup_operation_None by blast
  from assms show ?thesis
    unfolding append_operation_def by (auto split: option.splits dest: noc nom)
qed

lemma enqueue_Inr:
  assumes "enqueue env self now mid cid oid pay given db = Inr (m, db')"
  shows "meta_boot db = Some (boot_incarnation self) \<and>
    (db' = db \<or>
     (\<exists>row layers pj dg. lookup_operation oid db = Some row \<and> jo_command_id (jr_operation row) = cid \<and>
        jo_message_id (jr_operation row) = mid \<and>
        canonical_payload env pay = Inr (pj, dg) \<and> jo_payload_sha256 (jr_operation row) = dg \<and>
        lookup_message mid db = None \<and> lookup_mail_command cid db = None \<and>
        stored_layers oid db = Inr layers \<and> db' = insert_message m db \<and>
        m = \<lparr>mb_message_id = mid, mb_command_id = cid, mb_operation_id = oid,
             mb_payload_sha256 = dg, mb_payload_json = pj,
             mb_state = top_layer layers, mb_created_at = now\<rparr>))"
proof (cases "canonical_payload env pay")
  case (Inl e)
  with assms show ?thesis unfolding enqueue_def by simp
next
  case (Inr v)
  obtain pj dg where v: "v = (pj, dg)" by (cases v)
  have sha: "validate_sha256 x = Inr d \<Longrightarrow> d = x" for x d
    by (simp add: validate_sha256_def split: if_splits)
  from assms Inr v show ?thesis unfolding enqueue_def
    by (auto simp: Let_def dest!: sha split: option.splits if_splits)
qed

lemma record_receipt_Inr:
  assumes "record_receipt self now oid layer status evidence receipt_id observed_at db = Inr (r, db')"
  shows "meta_boot db = Some (boot_incarnation self) \<and>
    (\<exists>ix row layers. receipt_index layer = Some ix \<and> lookup_operation oid db = Some row \<and>
      stored_layers oid db = Inr layers \<and>
      (db' = db \<and> lookup_receipt (oid, layer) db = Some r \<or>
       lookup_receipt (oid, layer) db = None \<and> (\<forall>i \<in> set layers. i \<le> ix) \<and>
       (\<forall>x \<in> set (lifecycle_receipts db). lr_receipt_id x \<noteq> lr_receipt_id r) \<and>
       lr_operation_id r = oid \<and> lr_layer r = layer \<and> lr_status r = status \<and>
       lr_evidence r = extra_dict evidence \<and>
       db' = insert_receipt (r\<lparr>lr_evidence := stored_evidence (extra_dict evidence)\<rparr>) db))"
proof (cases "lookup_receipt (oid, layer) db")
  case None
  with assms show ?thesis unfolding record_receipt_def
    by (auto simp: Let_def not_less split: option.splits if_splits)
next
  case (Some ex)
  with assms show ?thesis unfolding record_receipt_def
    by (auto simp: Let_def split: option.splits if_splits)
qed

section \<open>Well-formed journals\<close>

definition op_layers :: "string \<Rightarrow> node_db \<Rightarrow> nat list" where
  "op_layers i db = map (the \<circ> receipt_index \<circ> lr_layer) (op_receipts i db)"

definition journal_wf :: "node_db \<Rightarrow> bool" where
  "journal_wf db \<longleftrightarrow>
     distinct (map (jo_operation_id \<circ> jr_operation) (journal db)) \<and>
     distinct (map (jo_command_id \<circ> jr_operation) (journal db)) \<and>
     distinct (map (jo_message_id \<circ> jr_operation) (journal db))"

definition receipts_wf :: "node_db \<Rightarrow> bool" where
  "receipts_wf db \<longleftrightarrow>
     distinct (map (\<lambda>r. (lr_operation_id r, lr_layer r)) (lifecycle_receipts db)) \<and>
     distinct (map lr_receipt_id (lifecycle_receipts db)) \<and>
     (\<forall>r \<in> set (lifecycle_receipts db).
        receipt_index (lr_layer r) \<noteq> None \<and> lookup_operation (lr_operation_id r) db \<noteq> None)"

definition mailbox_wf :: "node_db \<Rightarrow> bool" where
  "mailbox_wf db \<longleftrightarrow>
     distinct (map mb_message_id (mailbox db)) \<and> distinct (map mb_command_id (mailbox db)) \<and>
     (\<forall>m \<in> set (mailbox db). \<exists>row. lookup_operation (mb_operation_id m) db = Some row \<and>
        jo_command_id (jr_operation row) = mb_command_id m \<and>
        jo_message_id (jr_operation row) = mb_message_id m \<and>
        jo_payload_sha256 (jr_operation row) = mb_payload_sha256 m)"

definition states_wf :: "node_db \<Rightarrow> bool" where
  "states_wf db \<longleftrightarrow>
     (\<forall>j \<in> set (journal db). jr_state j =
        (let ls = op_layers (jo_operation_id (jr_operation j)) db
         in if ls = [] then ''recorded'' else top_layer ls)) \<and>
     (\<forall>m \<in> set (mailbox db). mb_state m = top_layer (op_layers (mb_operation_id m) db))"

definition node_wf :: "node_db \<Rightarrow> bool" where
  "node_wf db \<longleftrightarrow> journal_wf db \<and> receipts_wf db \<and> mailbox_wf db \<and> states_wf db"

lemma stored_layers_Inr: "stored_layers i db = Inr ls \<Longrightarrow> ls = op_layers i db"
  by (auto simp: stored_layers_def op_layers_def split: if_splits)

lemma receipts_wf_stored_layers: "receipts_wf db \<Longrightarrow> stored_layers i db = Inr (op_layers i db)"
  by (auto simp: stored_layers_def op_layers_def receipts_wf_def op_receipts_def)

text \<open>The three tables satisfy the interface of a store with a primary key.\<close>

interpretation jrn: row_store lookup_operation insert_operation "jo_operation_id \<circ> jr_operation"
  "\<lambda>db. distinct (map (jo_operation_id \<circ> jr_operation) (journal db))"
proof unfold_locales
  fix k d r
  assume "lookup_operation k d = Some r"
  then show "(jo_operation_id \<circ> jr_operation) r = k" using lookup_operation_SomeD by simp
next
  fix d :: node_db and r :: journal_row and k
  assume "lookup_operation ((jo_operation_id \<circ> jr_operation) r) d = None"
  then show "lookup_operation k (insert_operation r d) =
      (if k = (jo_operation_id \<circ> jr_operation) r then Some r else lookup_operation k d)"
    by (auto simp: lookup_operation_def insert_operation_def find_append split: option.splits)
next
  fix d :: node_db and r :: journal_row
  assume "distinct (map (jo_operation_id \<circ> jr_operation) (journal d))"
    and "lookup_operation ((jo_operation_id \<circ> jr_operation) r) d = None"
  then show "distinct (map (jo_operation_id \<circ> jr_operation) (journal (insert_operation r d)))"
    by (auto simp: lookup_operation_None insert_operation_def)
qed

lemma lookup_message_SomeD:
  "lookup_message i db = Some m \<Longrightarrow> m \<in> set (mailbox db) \<and> mb_message_id m = i"
  unfolding lookup_message_def by (drule find_SomeD) simp

interpretation mbx: row_store lookup_message insert_message mb_message_id
  "\<lambda>db. distinct (map mb_message_id (mailbox db))"
proof unfold_locales
  fix k d r
  assume "lookup_message k d = Some r"
  then show "mb_message_id r = k" using lookup_message_SomeD by simp
next
  fix d :: node_db and r :: mailbox_message and k
  assume "lookup_message (mb_message_id r) d = None"
  then show "lookup_message k (insert_message r d) = (if k = mb_message_id r then Some r else lookup_message k d)"
    by (auto simp: lookup_message_def insert_message_def find_append split: option.splits)
next
  fix d :: node_db and r :: mailbox_message
  assume "distinct (map mb_message_id (mailbox d))" and "lookup_message (mb_message_id r) d = None"
  then show "distinct (map mb_message_id (mailbox (insert_message r d)))"
    by (auto simp: lookup_message_def table_simps insert_message_def)
qed

interpretation rcp: row_store lookup_receipt insert_receipt "\<lambda>r. (lr_operation_id r, lr_layer r)"
  "\<lambda>db. distinct (map (\<lambda>r. (lr_operation_id r, lr_layer r)) (lifecycle_receipts db))"
proof unfold_locales
  fix k d r
  assume "lookup_receipt k d = Some r"
  then show "(lr_operation_id r, lr_layer r) = k"
    unfolding lookup_receipt_def by (drule_tac find_SomeD) simp
next
  fix d :: node_db and r :: lifecycle_receipt and k
  assume "lookup_receipt (lr_operation_id r, lr_layer r) d = None"
  then show "lookup_receipt k (insert_receipt r d) =
      (if k = (lr_operation_id r, lr_layer r) then Some r else lookup_receipt k d)"
    by (auto simp: lookup_receipt_def insert_receipt_def find_append split: option.splits)
next
  fix d :: node_db and r :: lifecycle_receipt
  assume "distinct (map (\<lambda>r. (lr_operation_id r, lr_layer r)) (lifecycle_receipts d))"
    and "lookup_receipt (lr_operation_id r, lr_layer r) d = None"
  then show "distinct (map (\<lambda>r. (lr_operation_id r, lr_layer r)) (lifecycle_receipts (insert_receipt r d)))"
    by (auto simp: lookup_receipt_def table_simps insert_receipt_def)
qed

section \<open>Every operation keeps the journal well formed\<close>

lemma op_layers_insert_operation [simp]: "op_layers i (insert_operation row db) = op_layers i db"
  by (simp add: op_layers_def op_receipts_def insert_operation_def)

lemma op_layers_insert_message [simp]: "op_layers i (insert_message m db) = op_layers i db"
  by (simp add: op_layers_def op_receipts_def insert_message_def)

lemma lookup_operation_insert_message [simp]:
  "lookup_operation i (insert_message m db) = lookup_operation i db"
  by (simp add: lookup_operation_def insert_message_def)

lemma op_layers_unknown:
  "receipts_wf db \<Longrightarrow> lookup_operation i db = None \<Longrightarrow> op_layers i db = []"
  by (auto simp: op_layers_def op_receipts_def receipts_wf_def filter_empty_conv)

lemma lookup_operation_insert_receipt [simp]:
  "lookup_operation i (insert_receipt r db) =
     map_option (\<lambda>j. if i = lr_operation_id r then j\<lparr>jr_state := lr_layer r\<rparr> else j) (lookup_operation i db)"
proof -
  have "lookup_operation i (insert_receipt r db) =
      map_option (\<lambda>j. if jo_operation_id (jr_operation j) = lr_operation_id r then j\<lparr>jr_state := lr_layer r\<rparr> else j)
        (lookup_operation i db)"
    by (simp add: lookup_operation_def insert_receipt_def find_update_where)
  then show ?thesis
    by (auto dest: lookup_operation_SomeD intro!: option.map_cong0 simp: option.set_sel elim!: option.set_cases)
qed

lemma op_layers_insert_receipt:
  "receipt_index (lr_layer r) = Some ix \<Longrightarrow>
   op_layers i (insert_receipt r db) = op_layers i db @ (if i = lr_operation_id r then [ix] else [])"
  by (simp add: op_layers_def op_receipts_def insert_receipt_def)

lemma index_of_nth: "index_of x xs = Some n \<Longrightarrow> n < length xs \<and> xs ! n = x"
  by (induction xs arbitrary: n) (auto split: if_splits)

lemma receipt_index_nth: "receipt_index layer = Some ix \<Longrightarrow> RECEIPT_LAYERS ! ix = layer"
  by (auto simp: receipt_index_def dest: index_of_nth)

lemma top_layer_snoc:
  "receipt_index layer = Some ix \<Longrightarrow> \<forall>i \<in> set ls. i \<le> ix \<Longrightarrow> top_layer (ls @ [ix]) = layer"
proof -
  assume ix: "receipt_index layer = Some ix" and le: "\<forall>i \<in> set ls. i \<le> ix"
  have "Max (set (ls @ [ix])) = ix" by (rule Max_eqI) (use le in auto)
  then show ?thesis using ix by (simp add: top_layer_def receipt_index_nth)
qed

lemma insert_operation_wf:
  assumes wf: "node_wf db" and st: "jr_state row = ''recorded''"
    and fresh: "lookup_operation (jo_operation_id (jr_operation row)) db = None"
      "lookup_by_command (jo_command_id (jr_operation row)) db = None"
      "lookup_by_message (jo_message_id (jr_operation row)) db = None"
  shows "node_wf (insert_operation row db)"
proof -
  note look = jrn.lookup_insert [unfolded comp_def, of db row]
  have d: "distinct (map (\<lambda>x. jo_operation_id (jr_operation x)) (journal db))"
    using wf by (simp add: node_wf_def journal_wf_def comp_def)
  have l: "lookup_operation k (insert_operation row db) =
      (if k = jo_operation_id (jr_operation row) then Some row else lookup_operation k db)" for k
    using look [OF d] fresh(1) by simp
  have "journal_wf (insert_operation row db)"
    using wf fresh by (auto simp: node_wf_def journal_wf_def insert_operation_def lookup_None_iffs)
  moreover have "receipts_wf (insert_operation row db)"
    using wf by (simp add: node_wf_def receipts_wf_def l) (simp add: insert_operation_def)
  moreover have "mailbox_wf (insert_operation row db)"
    using wf fresh(1) by (simp add: node_wf_def mailbox_wf_def l) (auto simp: insert_operation_def)
  moreover have "op_layers (jo_operation_id (jr_operation row)) db = []"
    using wf fresh(1) op_layers_unknown by (simp add: node_wf_def)
  then have "states_wf (insert_operation row db)"
    using wf st by (simp add: node_wf_def states_wf_def) (simp add: insert_operation_def)
  ultimately show ?thesis by (simp add: node_wf_def)
qed

lemma insert_message_wf:
  assumes wf: "node_wf db"
    and row: "lookup_operation (mb_operation_id m) db = Some row"
      "jo_command_id (jr_operation row) = mb_command_id m" "jo_message_id (jr_operation row) = mb_message_id m"
      "jo_payload_sha256 (jr_operation row) = mb_payload_sha256 m"
    and fresh: "lookup_message (mb_message_id m) db = None" "lookup_mail_command (mb_command_id m) db = None"
    and st: "mb_state m = top_layer (op_layers (mb_operation_id m) db)"
  shows "node_wf (insert_message m db)"
proof -
  have "journal_wf (insert_message m db)"
    using wf by (simp add: node_wf_def journal_wf_def insert_message_def)
  moreover have "receipts_wf (insert_message m db)"
    using wf by (simp add: node_wf_def receipts_wf_def) (simp add: insert_message_def)
  moreover have "mailbox_wf (insert_message m db)"
    using wf row fresh by (simp add: node_wf_def mailbox_wf_def)
      (auto simp: insert_message_def lookup_message_def lookup_mail_command_def table_simps)
  moreover have "states_wf (insert_message m db)"
    using wf st by (simp add: node_wf_def states_wf_def) (simp add: insert_message_def)
  ultimately show ?thesis by (simp add: node_wf_def)
qed

lemma insert_receipt_wf:
  assumes wf: "node_wf db" and ix: "receipt_index (lr_layer r) = Some ix"
    and op: "lookup_operation (lr_operation_id r) db \<noteq> None"
    and fresh: "lookup_receipt (lr_operation_id r, lr_layer r) db = None"
      "\<forall>x \<in> set (lifecycle_receipts db). lr_receipt_id x \<noteq> lr_receipt_id r"
    and top: "\<forall>i \<in> set (op_layers (lr_operation_id r) db). i \<le> ix"
  shows "node_wf (insert_receipt r db)"
proof -
  have "journal_wf (insert_receipt r db)"
    using wf by (simp add: node_wf_def journal_wf_def insert_receipt_def map_update_where)
  moreover have "receipts_wf (insert_receipt r db)"
    using wf ix op fresh by (simp add: node_wf_def receipts_wf_def)
      (auto simp: insert_receipt_def lookup_receipt_def table_simps)
  moreover have "mailbox_wf (insert_receipt r db)"
  proof -
    have mset: "m \<in> set (mailbox (insert_receipt r db)) \<Longrightarrow> \<exists>m0 \<in> set (mailbox db).
        mb_operation_id m = mb_operation_id m0 \<and> mb_command_id m = mb_command_id m0 \<and>
        mb_message_id m = mb_message_id m0 \<and> mb_payload_sha256 m = mb_payload_sha256 m0" for m
      by (force simp: insert_receipt_def set_update_where)
    have "\<exists>row. lookup_operation (mb_operation_id m) (insert_receipt r db) = Some row \<and>
        jo_command_id (jr_operation row) = mb_command_id m \<and>
        jo_message_id (jr_operation row) = mb_message_id m \<and>
        jo_payload_sha256 (jr_operation row) = mb_payload_sha256 m"
      if "m \<in> set (mailbox (insert_receipt r db))" for m
    proof -
      obtain m0 where m0: "m0 \<in> set (mailbox db)" "mb_operation_id m = mb_operation_id m0"
        "mb_command_id m = mb_command_id m0" "mb_message_id m = mb_message_id m0"
        "mb_payload_sha256 m = mb_payload_sha256 m0" using mset [OF \<open>m \<in> _\<close>] by blast
      obtain row where "lookup_operation (mb_operation_id m0) db = Some row"
        "jo_command_id (jr_operation row) = mb_command_id m0"
        "jo_message_id (jr_operation row) = mb_message_id m0"
        "jo_payload_sha256 (jr_operation row) = mb_payload_sha256 m0"
        using wf m0(1) unfolding node_wf_def mailbox_wf_def by blast
      then show ?thesis using m0 by auto
    qed
    moreover have "distinct (map mb_message_id (mailbox (insert_receipt r db)))"
      "distinct (map mb_command_id (mailbox (insert_receipt r db)))"
      using wf by (simp_all add: node_wf_def mailbox_wf_def insert_receipt_def map_update_where)
    ultimately show ?thesis by (auto simp: mailbox_wf_def)
  qed
  moreover have "states_wf (insert_receipt r db)"
  proof -
    note top' = top_layer_snoc [OF ix top]
    have "jr_state j = (let ls = op_layers (jo_operation_id (jr_operation j)) (insert_receipt r db)
         in if ls = [] then ''recorded'' else top_layer ls)"
      if "j \<in> set (journal (insert_receipt r db))" for j
      using that wf top' by (auto simp: node_wf_def states_wf_def op_layers_insert_receipt [OF ix])
        (auto simp: insert_receipt_def set_update_where split: if_splits)
    moreover have "mb_state m = top_layer (op_layers (mb_operation_id m) (insert_receipt r db))"
      if "m \<in> set (mailbox (insert_receipt r db))" for m
      using that wf top' by (auto simp: node_wf_def states_wf_def op_layers_insert_receipt [OF ix])
        (auto simp: insert_receipt_def set_update_where split: if_splits)
    ultimately show ?thesis by (simp add: states_wf_def)
  qed
  ultimately show ?thesis by (simp add: node_wf_def)
qed

lemma append_operation_wf:
  "node_wf db \<Longrightarrow> append_operation self now op db = Inr (r, db') \<Longrightarrow> node_wf db'"
  by (drule append_operation_Inr) (auto intro!: insert_operation_wf)

lemma enqueue_wf:
  assumes wf: "node_wf db" and ok: "enqueue env self now mid cid oid pay given db = Inr (m, db')"
  shows "node_wf db'"
proof (cases "db' = db")
  case False
  with enqueue_Inr [OF ok] show ?thesis
    using wf by (auto simp: dest!: stored_layers_Inr intro!: insert_message_wf)
qed (use wf in simp)

lemma insert_receipt_evidence_wf:
  assumes "node_wf db" "receipt_index layer = Some ix" "lookup_operation oid db = Some row"
    "stored_layers oid db = Inr layers" "lookup_receipt (oid, layer) db = None" "\<forall>i \<in> set layers. i \<le> ix"
    "\<forall>x \<in> set (lifecycle_receipts db). lr_receipt_id x \<noteq> lr_receipt_id r"
    "lr_operation_id r = oid" "lr_layer r = layer"
  shows "node_wf (insert_receipt (r\<lparr>lr_evidence := ev\<rparr>) db)"
  by (rule insert_receipt_wf [where ix = ix]) (use assms in \<open>auto dest: stored_layers_Inr\<close>)

lemma record_receipt_wf:
  assumes wf: "node_wf db"
    and ok: "record_receipt self now oid layer status evidence receipt_id observed_at db = Inr (r, db')"
  shows "node_wf db'"
  using record_receipt_Inr [OF ok] wf by (auto intro: insert_receipt_evidence_wf)

lemma initialize_db:
  assumes "initialize rm rn rb fm fn fb now db = Inr (self, db')"
  shows "db' = db\<lparr>meta_schema_version := Some SCHEMA_VERSION, meta_machine_id := Some (machine_id self),
      meta_node_id := Some (node_id self), meta_boot := Some (boot_incarnation self),
      node_boots := (if find (\<lambda>b. fst b = boot_incarnation self) (node_boots db) = None
        then node_boots db @ [(boot_incarnation self, machine_id self, node_id self, now)] else node_boots db),
      spawn_states := (if meta_boot db \<noteq> None \<and> meta_boot db \<noteq> Some (boot_incarnation self)
        then retire_spawns now (spawn_states db) else spawn_states db)\<rparr> \<and>
    (find (\<lambda>b. fst b = boot_incarnation self) (node_boots db) = None \<or> meta_boot db = None \<or>
      meta_boot db = Some (boot_incarnation self))"
proof -
  have if3: "(if a then Inl e else if b then Inl e' else Inr y) = Inr z \<longleftrightarrow> \<not> a \<and> \<not> b \<and> y = z"
    for a b e e' and y z :: "node_identity \<times> node_db" by simp
  have if2: "(if a then Inl e else y) = Inr z \<longleftrightarrow> \<not> a \<and> y = Inr z" for a e and y and z :: "node_identity \<times> node_db"
    by simp
  show ?thesis
    using assms unfolding initialize_def Let_def rbind_eq_Inr if3 if2 sum.inject prod.inject
    by (elim exE conjE, hypsubst, unfold node_identity.select_convs) blast
qed

lemma initialize_Inr:
  assumes "initialize rm rn rb fm fn fb now db = Inr (self, db')"
  shows "journal db' = journal db" "lifecycle_receipts db' = lifecycle_receipts db"
    "mailbox db' = mailbox db" "process_observations db' = process_observations db"
    "meta_boot db' = Some (boot_incarnation self)"
    "spawn_states db' = (if meta_boot db \<noteq> None \<and> meta_boot db \<noteq> Some (boot_incarnation self)
      then retire_spawns now (spawn_states db) else spawn_states db)"
  using initialize_db [OF assms] by simp_all

lemma node_wf_cong:
  assumes "journal db' = journal db" "lifecycle_receipts db' = lifecycle_receipts db" "mailbox db' = mailbox db"
  shows "node_wf db' = node_wf db"
proof -
  have l: "lookup_operation i db' = lookup_operation i db" for i
    using assms by (simp add: lookup_operation_def)
  have o: "op_layers i db' = op_layers i db" for i
    using assms by (simp add: op_layers_def op_receipts_def)
  show ?thesis
    by (simp only: node_wf_def journal_wf_def receipts_wf_def mailbox_wf_def states_wf_def l o assms)
qed

lemma initialize_wf:
  "node_wf db \<Longrightarrow> initialize rm rn rb fm fn fb now db = Inr (self, db') \<Longrightarrow> node_wf db'"
  using initialize_Inr node_wf_cong by metis

section \<open>Properties\<close>

definition empty_node_db :: node_db where
  "empty_node_db = \<lparr>meta_schema_version = None, meta_machine_id = None, meta_node_id = None,
     meta_boot = None, node_boots = [], journal = [], lifecycle_receipts = [], mailbox = [],
     process_observations = [], spawn_states = []\<rparr>"

lemma empty_node_db_wf: "node_wf empty_node_db"
  by (simp add: node_wf_def journal_wf_def receipts_wf_def mailbox_wf_def states_wf_def empty_node_db_def)

lemma read_operation_insert:
  assumes "node_wf db" "lookup_operation (jo_operation_id (jr_operation row)) db = None"
  shows "read_operation i (insert_operation row db) =
    (if i = jo_operation_id (jr_operation row) then Some (jr_operation row) else read_operation i db)"
  using jrn.lookup_insert [of db row i] assms
  by (simp add: read_operation_def node_wf_def journal_wf_def)

lemma append_operation_replay:
  assumes "validate_operation op = Inr ()" "meta_boot db = Some (boot_incarnation self)"
    and "read_operation (jo_operation_id op) db = Some op"
  shows "append_operation self now op db = Inr (op, db)"
  using assms by (auto simp: append_operation_def fenced_def read_operation_def replay_operation_def)

lemma append_operation_total:
  assumes "validate_operation op = Inr ()" "meta_boot db = Some (boot_incarnation self)"
  shows "(\<exists>p. append_operation self now op db = Inr p) \<or>
    (\<exists>v. append_operation self now op db = Inl (OperationIdentityConflict v))"
  using assms by (simp add: append_operation_def fenced_def replay_operation_def split: option.split)

text \<open>
  C10. Appending an operation to the journal is idempotent and permanent: after \<open>append\<close>
  succeeded the operation is the one read under its identifier, every operation recorded before
  is still read unchanged, and appending it again (at any later time) changes nothing and
  returns it.
\<close>

theorem append_idempotent:
  assumes "node_wf db" and "append_operation self now op db = Inr (r, db')"
  shows "r = op \<and> read_operation (jo_operation_id op) db' = Some op \<and>
    (\<forall>i o'. read_operation i db = Some o' \<longrightarrow> read_operation i db' = Some o') \<and>
    append_operation self now' op db' = Inr (op, db')"
proof -
  note inv = append_operation_Inr [OF assms(2)]
  have rd: "read_operation (jo_operation_id op) db' = Some op"
    using inv assms(1) by (auto simp: read_operation_insert) (simp add: read_operation_def)
  moreover have "meta_boot db' = Some (boot_incarnation self)"
    using inv by (auto simp: insert_operation_def)
  ultimately have "append_operation self now' op db' = Inr (op, db')"
    using inv append_operation_replay by simp
  moreover have "read_operation i db' = Some o'" if "read_operation i db = Some o'" for i o'
    using inv that assms(1) by (auto simp: read_operation_insert) (simp add: read_operation_def)
  ultimately show ?thesis using inv rd by blast
qed

definition op_1 :: journal_operation where
  "op_1 = \<lparr>jo_operation_id = ''op'', jo_command_id = ''cmd'', jo_message_id = ''msg'',
     jo_operation_kind = ''spawn'', jo_payload_sha256 = replicate 64 (CHR ''a'')\<rparr>"

definition id_1 :: node_identity where
  "id_1 = \<lparr>machine_id = ''m'', node_id = ''n'', boot_incarnation = ''boot-1''\<rparr>"

definition db_1 :: node_db where
  "db_1 = empty_node_db\<lparr>meta_boot := Some ''boot-1''\<rparr>"

lemma db_1_wf: "node_wf db_1"
  using node_wf_cong [of db_1 empty_node_db] empty_node_db_wf by (simp add: db_1_def)

lemma op_1_valid: "validate_operation op_1 = Inr ()"
  by code_simp

theorem append_idempotent_witness:
  "read_operation ''op'' (insert_operation (fresh_row id_1 ''t1'' op_1) db_1) = Some op_1 \<and>
   append_operation id_1 ''t2'' op_1 (insert_operation (fresh_row id_1 ''t1'' op_1) db_1) =
     Inr (op_1, insert_operation (fresh_row id_1 ''t1'' op_1) db_1)"
proof -
  have "append_operation id_1 ''t1'' op_1 db_1 = Inr (op_1, insert_operation (fresh_row id_1 ''t1'' op_1) db_1)"
    by (simp add: append_operation_def op_1_valid fenced_def)
      (simp add: id_1_def db_1_def lookup_operation_def lookup_by_command_def lookup_by_message_def empty_node_db_def)
  from append_idempotent [OF db_1_wf this, of "''t2''"] show ?thesis by (simp add: op_1_def)
qed

text \<open>
  C11. An identity is never reused: a valid operation offered by the current boot is refused
  with \<open>OperationIdentityConflict\<close> exactly when a different recorded operation shares its
  operation id, its command id or its message id.
\<close>

theorem append_conflict_iff:
  assumes "node_wf db" "validate_operation op = Inr ()" "meta_boot db = Some (boot_incarnation self)"
  shows "(\<exists>v. append_operation self now op db = Inl (OperationIdentityConflict v)) \<longleftrightarrow>
    (\<exists>row \<in> set (journal db). jr_operation row \<noteq> op \<and>
       (jo_operation_id (jr_operation row) = jo_operation_id op \<or>
        jo_command_id (jr_operation row) = jo_command_id op \<or>
        jo_message_id (jr_operation row) = jo_message_id op))" (is "?L = ?R")
proof
  assume ?L
  then show ?R
    using assms(2,3) by (auto simp: append_operation_def fenced_def replay_operation_def
        split: option.splits if_splits
        dest!: lookup_operation_SomeD lookup_by_command_SomeD lookup_by_message_SomeD)
next
  assume ?R
  then obtain row where row: "row \<in> set (journal db)" "jr_operation row \<noteq> op"
    and share: "jo_operation_id (jr_operation row) = jo_operation_id op \<or>
      jo_command_id (jr_operation row) = jo_command_id op \<or>
      jo_message_id (jr_operation row) = jo_message_id op" by blast
  have "append_operation self now op db \<noteq> Inr (r, db')" for r db'
  proof
    assume ok: "append_operation self now op db = Inr (r, db')"
    show False
    proof (cases "lookup_operation (jo_operation_id op) db")
      case None
      with append_operation_Inr [OF ok] row share show False by (auto simp: lookup_None_iffs)
    next
      case (Some row')
      with append_operation_Inr [OF ok] have r': "jr_operation row' = op" "row' \<in> set (journal db)"
        using lookup_operation_SomeD by auto
      have "row = row'"
        using share r' row(1) assms(1) unfolding node_wf_def journal_wf_def
        by (metis comp_apply key_unique)
      with r' row show False by simp
    qed
  qed
  then show ?L using append_operation_total [OF assms(2,3), of now] by (metis surj_pair)
qed

theorem append_conflict_iff_witness:
  "\<exists>v. append_operation id_1 ''t2'' (op_1\<lparr>jo_operation_id := ''other''\<rparr>)
     (insert_operation (fresh_row id_1 ''t1'' op_1) db_1) = Inl (OperationIdentityConflict v)"
proof -
  have "append_operation id_1 ''t1'' op_1 db_1 = Inr (op_1, insert_operation (fresh_row id_1 ''t1'' op_1) db_1)"
    by (simp add: append_operation_def op_1_valid fenced_def)
      (simp add: id_1_def db_1_def lookup_operation_def lookup_by_command_def lookup_by_message_def empty_node_db_def)
  with db_1_wf have wf: "node_wf (insert_operation (fresh_row id_1 ''t1'' op_1) db_1)"
    by (rule append_operation_wf)
  have valid: "validate_operation (op_1\<lparr>jo_operation_id := ''other''\<rparr>) = Inr ()" by code_simp
  show ?thesis
    using append_conflict_iff [OF wf valid, of id_1 "''t2''"]
    by (simp add: insert_operation_def id_1_def db_1_def op_1_def)
qed

text \<open>Retrying a receipt: what is read back from the column is compared with what is offered.\<close>

lemma key_text_sort_keys [simp]: "key_text (sort_keys k) = key_text k"
  by (cases k) auto

lemma sort_key_idem [simp]: "sort_key f (sort_key f xs) = sort_key f xs"
  by (simp add: sort_key_id_if_sorted)

lemma sort_keys_map_sorted:
  assumes "\<And>k v. (k, v) \<in> set kvs \<Longrightarrow> sort_keys k = k \<and> sort_keys v = v"
  shows "map (map_prod sort_keys sort_keys) (sort_key (key_text \<circ> fst) kvs) = sort_key (key_text \<circ> fst) kvs"
  by (rule map_idI) (use assms in auto)

lemma sort_keys_idem [simp]: "sort_keys (sort_keys v) = sort_keys v"
proof (induction v)
  case (PyDict kvs)
  have "map (map_prod sort_keys sort_keys)
      (sort_key (key_text \<circ> fst) (map (map_prod sort_keys sort_keys) kvs)) =
    sort_key (key_text \<circ> fst) (map (map_prod sort_keys sort_keys) kvs)"
    by (rule sort_keys_map_sorted) (use PyDict in \<open>fastforce simp: prod_set_defs\<close>)
  then show ?case by simp
qed (auto simp: comp_def)

lemma stored_evidence_eq: "py_eq (stored_evidence ev) ev \<longleftrightarrow> py_eq (jsonify ev) ev"
  by (simp add: py_eq_def stored_evidence_def)

lemma meta_boot_insert_receipt [simp]: "meta_boot (insert_receipt r db) = meta_boot db"
  by (simp add: insert_receipt_def)

definition same_receipt :: "lifecycle_receipt \<Rightarrow> string \<Rightarrow> string \<Rightarrow> string \<Rightarrow> string option \<Rightarrow> bool" where
  "same_receipt r oid layer status rid \<longleftrightarrow> lr_operation_id r = oid \<and> lr_layer r = layer \<and>
     lr_status r = status \<and> lr_receipt_id r = truthy_or rid (oid @ '':'' @ layer)"

lemma record_receipt_stored:
  assumes "node_wf db"
    and "record_receipt self now oid layer status evidence rid observed_at db = Inr (r, db')"
  shows "\<exists>s. lookup_receipt (oid, layer) db' = Some s \<and> same_receipt s oid layer status rid \<and>
    (lookup_receipt (oid, layer) db = None \<longrightarrow> lr_evidence s = stored_evidence (extra_dict evidence)) \<and>
    (lookup_receipt (oid, layer) db \<noteq> None \<longrightarrow> py_eq (lr_evidence s) (extra_dict evidence))"
proof (cases "lookup_receipt (oid, layer) db")
  case None
  let ?s = "r\<lparr>lr_evidence := stored_evidence (extra_dict evidence)\<rparr>"
  from record_receipt_Inr [OF assms(2)] None have db': "db' = insert_receipt ?s db"
    and f: "lr_operation_id r = oid" "lr_layer r = layer" "lr_status r = status" by auto
  have "lr_receipt_id r = truthy_or rid (oid @ '':'' @ layer)"
    using assms(2) None unfolding record_receipt_def
    by (auto simp: Let_def split: option.splits if_splits)
  then show ?thesis
    using rcp.lookup_insert [of db ?s "(oid, layer)"] assms(1) None f
    by (simp add: db' node_wf_def receipts_wf_def same_receipt_def)
next
  case (Some ex)
  then show ?thesis
    using rcp.lookup_key [OF Some] assms(2) unfolding record_receipt_def
    by (auto simp: Let_def same_receipt_def split: option.splits if_splits)
qed

lemma record_receipt_pre:
  assumes "record_receipt self now oid layer status evidence rid observed_at db = Inr p"
  shows "validate_text oid ''operation_id'' = Inr oid \<and> validate_text layer ''layer'' = Inr layer \<and>
    validate_text status ''status'' = Inr status \<and> json_encodable (extra_dict evidence)"
  using assms unfolding record_receipt_def
  by (auto simp: Let_def validate_text_def split: option.splits if_splits)

lemma record_receipt_after:
  assumes wf: "node_wf db" and ok: "record_receipt self now oid layer status evidence rid observed_at db = Inr (r, db')"
    and s: "lookup_receipt (oid, layer) db' = Some s"
  shows "record_receipt self now' oid layer status evidence rid obs' db' =
    (if py_eq (lr_evidence s) (extra_dict evidence) then Inr (s, db') else Inl (OperationIdentityConflict oid))"
proof -
  obtain s' where "lookup_receipt (oid, layer) db' = Some s'" "same_receipt s' oid layer status rid"
    using record_receipt_stored [OF wf ok] by blast
  with s have same: "same_receipt s oid layer status rid" by simp
  note inv = record_receipt_Inr [OF ok]
  have boot: "meta_boot db' = Some (boot_incarnation self)" using inv by auto
  have row: "\<exists>row. lookup_operation oid db' = Some row" using inv by auto
  have "stored_layers oid db' = Inr (op_layers oid db')"
    using record_receipt_wf [OF wf ok] by (simp add: node_wf_def receipts_wf_stored_layers)
  then show ?thesis
    using s same boot row record_receipt_pre [OF ok] inv unfolding record_receipt_def
    by (auto simp: Let_def fenced_def same_receipt_def)
qed

text \<open>
  Recording a receipt is idempotent for evidence that JSON reads back unchanged (no
  tuples): a retry, at any later time, returns the stored receipt of that operation and layer
  and leaves the journal as it is.
\<close>

theorem receipt_retry:
  assumes "node_wf db"
    and "record_receipt self now oid layer status evidence rid observed_at db = Inr (r, db')"
    and "py_eq (jsonify (extra_dict evidence)) (extra_dict evidence)"
  shows "\<exists>s. lookup_receipt (oid, layer) db' = Some s \<and> same_receipt s oid layer status rid \<and>
    record_receipt self now' oid layer status evidence rid obs' db' = Inr (s, db')"
  using record_receipt_stored [OF assms(1,2)] record_receipt_after [OF assms(1,2)] assms(3)
    stored_evidence_eq by fastforce

definition db_2 :: node_db where
  "db_2 = insert_operation (fresh_row id_1 ''t1'' op_1) db_1"

lemma db_2_wf: "node_wf db_2"
  unfolding db_2_def
  by (rule insert_operation_wf [OF db_1_wf])
    (simp_all add: db_1_def empty_node_db_def lookup_operation_def lookup_by_command_def lookup_by_message_def)

definition receipt_1 :: lifecycle_receipt where
  "receipt_1 = \<lparr>lr_operation_id = ''op'', lr_layer = ''runtime_dispatched'', lr_status = ''observed'',
     lr_receipt_id = ''op:runtime_dispatched'', lr_observed_at = ''t2'', lr_evidence = PyDict []\<rparr>"

theorem receipt_retry_witness:
  "\<exists>s. lookup_receipt (''op'', ''runtime_dispatched'') (insert_receipt receipt_1 db_2) = Some s \<and>
    same_receipt s ''op'' ''runtime_dispatched'' ''observed'' None \<and>
    record_receipt id_1 ''t3'' ''op'' ''runtime_dispatched'' ''observed'' None None None
      (insert_receipt receipt_1 db_2) = Inr (s, insert_receipt receipt_1 db_2)"
proof -
  have ok: "record_receipt id_1 ''t2'' ''op'' ''runtime_dispatched'' ''observed'' None None None db_2 =
      Inr (receipt_1, insert_receipt receipt_1 db_2)"
    by code_simp
  have ev: "py_eq (jsonify (extra_dict None)) (extra_dict None)" by (simp add: extra_dict_def)
  from receipt_retry [OF db_2_wf ok ev, of "''t3''" None] show ?thesis .
qed

text \<open>
  The evidence is compared after a JSON round trip with the evidence as offered, so evidence that
  contains a tuple never equals what was stored: the retry of a receipt that was just recorded is
  refused.
\<close>

theorem receipt_retry_tuple_conflict:
  assumes "node_wf db"
    and "record_receipt self now oid layer status evidence rid observed_at db = Inr (r, db')"
    and "lookup_receipt (oid, layer) db = None"
    and "\<not> py_eq (jsonify (extra_dict evidence)) (extra_dict evidence)"
  shows "record_receipt self now' oid layer status evidence rid obs' db' = Inl (OperationIdentityConflict oid)"
proof -
  obtain s where "lookup_receipt (oid, layer) db' = Some s" "lr_evidence s = stored_evidence (extra_dict evidence)"
    using record_receipt_stored [OF assms(1,2)] assms(3) by blast
  with record_receipt_after [OF assms(1,2) this(1), of now' obs'] assms(4) show ?thesis
    by (simp add: stored_evidence_eq)
qed

definition tuple_evidence :: pyval where
  "tuple_evidence = PyDict [(PyStr ''k'', PyTuple [PyInt 1])]"

definition receipt_2 :: lifecycle_receipt where
  "receipt_2 = receipt_1\<lparr>lr_evidence := tuple_evidence\<rparr>"

theorem receipt_retry_tuple_conflict_witness:
  "\<exists>db'. record_receipt id_1 ''t2'' ''op'' ''runtime_dispatched'' ''observed'' (Some tuple_evidence) None None db_2 =
       Inr (receipt_2, db') \<and>
     record_receipt id_1 ''t3'' ''op'' ''runtime_dispatched'' ''observed'' (Some tuple_evidence) None None db' =
       Inl (OperationIdentityConflict ''op'')"
proof -
  let ?db' = "insert_receipt (receipt_1\<lparr>lr_evidence := stored_evidence tuple_evidence\<rparr>) db_2"
  have ok: "record_receipt id_1 ''t2'' ''op'' ''runtime_dispatched'' ''observed'' (Some tuple_evidence) None None db_2 =
      Inr (receipt_2, ?db')"
    by code_simp
  have none: "lookup_receipt (''op'', ''runtime_dispatched'') db_2 = None" by code_simp
  have ev: "\<not> py_eq (jsonify (extra_dict (Some tuple_evidence))) (extra_dict (Some tuple_evidence))" by code_simp
  from receipt_retry_tuple_conflict [OF db_2_wf ok none ev, of "''t3''" None] ok show ?thesis by blast
qed

end
