(* ===== verification/Node_Spawn.thy ===== *)
theory Node_Spawn
  imports Node_Journal
begin

text \<open>
  \<open>src/runtime/node.py\<close>, second half: the spawn observations of one Node.

  A spawn is prepared (\<open>intent\<close>), claimed for dispatch by the one caller that gets \<open>True\<close>
  from \<open>mark_spawn_dispatched\<close>, observed, and closed as \<open>completed\<close> or \<open>absent\<close>;
  a crash, a reboot or an explicit mark makes it \<open>uncertain\<close>. A caller's evidence is the list
  of entries of its mapping. \<open>begin_spawn\<close> runs two transactions, so it returns the tables
  together with its result.

  \<open>exec_call\<close> runs one call of any method on the tables, \<open>node_run\<close> a sequence of calls,
  by any number of \<open>NodeJournal\<close> objects, with restarts in between. The properties hold for
  every such sequence.
\<close>

section \<open>Spawn rows\<close>

definition lookup_spawn :: "string \<Rightarrow> node_db \<Rightarrow> spawn_row option" where
  "lookup_spawn i db = find (\<lambda>r. sp_operation_id r = i) (spawn_states db)"

definition insert_spawn :: "spawn_row \<Rightarrow> node_db \<Rightarrow> node_db" where
  "insert_spawn r db = db\<lparr>spawn_states := spawn_states db @ [r]\<rparr>"

definition update_spawn :: "string \<Rightarrow> (spawn_row \<Rightarrow> spawn_row) \<Rightarrow> node_db \<Rightarrow> node_db" where
  "update_spawn i f db =
     db\<lparr>spawn_states := update_where (\<lambda>r. sp_operation_id r = i) f (spawn_states db)\<rparr>"

text \<open>\<open>_spawn_detail\<close>: the stored object, if its label is a valid text.\<close>

definition spawn_detail_of :: "spawn_row \<Rightarrow> string \<Rightarrow> spawn_detail result" where
  "spawn_detail_of row oid =
     (case validate_text (sd_process_label (sp_detail row)) ''process_label'' of
        Inl _ \<Rightarrow> Inl (JournalCorruptionError oid)
      | Inr _ \<Rightarrow> Inr (sp_detail row))"

definition has_key :: "(pyval \<times> pyval) list \<Rightarrow> string \<Rightarrow> bool" where
  "has_key kvs k \<longleftrightarrow> dict_get kvs k \<noteq> None"

definition identity_matches :: "(int \<times> string) option \<Rightarrow> (pyval \<times> pyval) list \<Rightarrow> bool" where
  "identity_matches ident evidence =
     (case ident of
        None \<Rightarrow> False
      | Some (p, start) \<Rightarrow>
          dict_get evidence ''pid'' = Some (PyInt p) \<and>
          dict_get evidence ''start_identity'' = Some (PyStr start))"

definition process_evidence ::
  "string \<Rightarrow> spawn_detail \<Rightarrow> (pyval \<times> pyval) list \<Rightarrow> bool \<Rightarrow> node_db \<Rightarrow> unit result" where
  "process_evidence oid detail evidence absent db =
     (if dict_get evidence ''process_label'' \<noteq> Some (PyStr (sd_process_label detail))
      then Inl (OperationIdentityConflict ''process label differs from spawn identity'')
      else if absent \<and> sd_process_identity detail = None
      then guard (dict_get evidence ''observation'' = Some (PyStr ''absent'') \<and>
                  \<not> has_key evidence ''pid'' \<and> \<not> has_key evidence ''start_identity'')
             (OperationIdentityConflict ''absence requires an explicit label-bound Node observation'')
      else if \<not> identity_matches (sd_process_identity detail) evidence
      then Inl (OperationIdentityConflict ''process PID/start identity is not bound'')
      else if absent \<and> dict_get evidence ''observation'' \<noteq> Some (PyStr ''absent'')
      then Inl (OperationIdentityConflict ''absence requires an explicit Node observation'')
      else guard (\<exists>o' \<in> set (process_observations db).
                    po_operation_id o' = oid \<and> po_process_label o' = sd_process_label detail \<and>
                    dict_get evidence ''pid'' = Some (PyInt (po_pid o')) \<and>
                    dict_get evidence ''start_identity'' = Some (PyStr (po_start_identity o')))
             (OperationIdentityConflict ''process observation is not recorded''))"

section \<open>Preparation\<close>

definition begin_spawn ::
  "node_identity \<Rightarrow> string \<Rightarrow> journal_operation \<Rightarrow> string option \<Rightarrow> node_db
     \<Rightarrow> node_db \<times> journal_operation result" where
  "begin_spawn self now operation label db =
     (if jo_operation_kind operation \<noteq> ''spawn''
      then (db, Inl (ValueError (''begin_spawn requires operation_kind='' @ [CHR 0x27] @ ''spawn'' @ [CHR 0x27])))
      else case (case label of None \<Rightarrow> Inr [] | Some l \<Rightarrow> validate_text l ''process_label'') of
        Inl e \<Rightarrow> (db, Inl e)
      | Inr _ \<Rightarrow>
      (case append_operation self now operation db of
        Inl e \<Rightarrow> (db, Inl e)
      | Inr (_, db1) \<Rightarrow>
      (case fenced self db1 of
        Inl e \<Rightarrow> (db1, Inl e)
      | Inr _ \<Rightarrow>
      (case lookup_spawn (jo_operation_id operation) db1 of
        Some row \<Rightarrow>
          (case spawn_detail_of row (jo_operation_id operation) of
             Inl e \<Rightarrow> (db1, Inl e)
           | Inr detail \<Rightarrow>
             if label \<noteq> None \<and> label \<noteq> Some (sd_process_label detail)
             then (db1, Inl (OperationIdentityConflict ''process label differs from spawn identity''))
             else if sp_state row \<in> {''uncertain'', ''dispatched'', ''still_running''}
             then (db1, Inl (UncertainSpawnError ''spawn is dispatched, running, or requires reconciliation''))
             else if sp_state row \<in> {''intent'', ''completed'', ''absent''} then (db1, Inr operation)
             else (db1, Inl (JournalCorruptionError (jo_operation_id operation))))
      | None \<Rightarrow>
          (insert_spawn \<lparr>sp_operation_id = jo_operation_id operation, sp_state = ''intent'',
             sp_updated_at = now,
             sp_detail = \<lparr>sd_operation_id = jo_operation_id operation,
               sd_process_label = truthy_or label (''node-process:'' @ jo_operation_id operation),
               sd_intent_boot = boot_incarnation self, sd_dispatch_boot = None,
               sd_process_identity = None, sd_completion_evidence = None, sd_uncertainty_reason = None,
               sd_reconciliation = None, sd_reconciled_at = None, sd_reconciled_by_boot = None\<rparr>\<rparr> db1,
           Inr operation)))))"

section \<open>Transitions\<close>

definition label_differs :: "(pyval \<times> pyval) list \<Rightarrow> spawn_detail \<Rightarrow> bool" where
  "label_differs supplied detail \<longleftrightarrow>
     dict_get supplied ''process_label'' \<notin> {None, Some PyNone, Some (PyStr (sd_process_label detail))}"

definition supplied_reason :: "(pyval \<times> pyval) list \<Rightarrow> string result" where
  "supplied_reason supplied =
     (case dict_get supplied ''reason'' of
        Some (PyStr s) \<Rightarrow> validate_text s ''reason''
      | _ \<Rightarrow> Inl (ValueError ''reason must be a non-empty string''))"

text \<open>
  What the three branches of \<open>_set_spawn_state\<close> decide: \<open>Inr None\<close> is \<open>return False\<close>,
  \<open>Inr (Some d)\<close> falls through to the \<open>UPDATE\<close> with the detail \<open>d\<close>.
\<close>

definition dispatch_branch :: "node_identity \<Rightarrow> string \<Rightarrow> spawn_detail \<Rightarrow> spawn_detail option result" where
  "dispatch_branch self current stored =
     (if current \<in> {''dispatched'', ''still_running'', ''completed'', ''absent''} then Inr None
      else if current \<noteq> ''intent'' then Inl (UncertainSpawnError ''uncertain spawn cannot be dispatched'')
      else Inr (Some (stored\<lparr>sd_dispatch_boot := Some (boot_incarnation self)\<rparr>)))"

definition complete_branch ::
  "string \<Rightarrow> string \<Rightarrow> spawn_detail \<Rightarrow> (pyval \<times> pyval) list \<Rightarrow> node_db \<Rightarrow> spawn_detail option result" where
  "complete_branch oid current stored supplied db =
     (if current = ''completed'' \<and>
         (case sd_completion_evidence stored of None \<Rightarrow> False | Some e \<Rightarrow> py_eq e (PyDict supplied))
      then Inr None
      else if current \<notin> {''dispatched'', ''still_running''}
      then Inl (OperationIdentityConflict ''completion requires a dispatched process'')
      else rbind (process_evidence oid stored supplied False db) (\<lambda>_.
        if json_encodable (PyDict supplied)
        then Inr (Some (stored\<lparr>sd_completion_evidence := Some (stored_evidence (PyDict supplied))\<rparr>))
        else Inl (json_error (PyDict supplied))))"

definition uncertain_branch ::
  "string \<Rightarrow> spawn_detail \<Rightarrow> (pyval \<times> pyval) list \<Rightarrow> spawn_detail option result" where
  "uncertain_branch current stored supplied =
     rbind (supplied_reason supplied) (\<lambda>why.
       if current = ''uncertain'' \<and> sd_uncertainty_reason stored = Some why then Inr None
       else if current \<notin> {''intent'', ''dispatched'', ''still_running''}
       then Inl (OperationIdentityConflict ''spawn state cannot regress or overwrite uncertainty'')
       else Inr (Some (stored\<lparr>sd_uncertainty_reason := Some why\<rparr>)))"

definition set_spawn_state ::
  "node_identity \<Rightarrow> string \<Rightarrow> string \<Rightarrow> string \<Rightarrow> (pyval \<times> pyval) list \<Rightarrow> node_db
     \<Rightarrow> (bool \<times> node_db) result" where
  "set_spawn_state self now oid state supplied db =
     rbind (validate_text oid ''operation_id'') (\<lambda>_.
     if state \<notin> {''dispatched'', ''completed'', ''uncertain''}
     then Inl (ValueError ''spawn state requires explicit preparation or reconciliation'')
     else rbind (fenced self db) (\<lambda>_.
     case (lookup_spawn oid db, lookup_operation oid db) of
       (Some row, Some j) \<Rightarrow>
         if jo_operation_kind (jr_operation j) \<noteq> ''spawn''
         then Inl (UncertainSpawnError ''spawn intent is not recorded'')
         else rbind (spawn_detail_of row oid) (\<lambda>stored.
         if label_differs supplied stored
         then Inl (OperationIdentityConflict ''process label differs from spawn identity'')
         else rbind (if state = ''dispatched'' then dispatch_branch self (sp_state row) stored
                     else if state = ''completed'' then complete_branch oid (sp_state row) stored supplied db
                     else uncertain_branch (sp_state row) stored supplied) (\<lambda>next.
         case next of
           None \<Rightarrow> Inr (False, db)
         | Some d \<Rightarrow>
             Inr (True, update_spawn oid
               (\<lambda>r. r\<lparr>sp_state := state, sp_updated_at := now, sp_detail := d\<rparr>) db)))
     | _ \<Rightarrow> Inl (UncertainSpawnError ''spawn intent is not recorded'')))"

definition mark_spawn_dispatched ::
  "node_identity \<Rightarrow> string \<Rightarrow> string \<Rightarrow> string option \<Rightarrow> node_db \<Rightarrow> (bool \<times> node_db) result" where
  "mark_spawn_dispatched self now oid label db =
     set_spawn_state self now oid ''dispatched''
       [(PyStr ''process_label'', case label of None \<Rightarrow> PyNone | Some l \<Rightarrow> PyStr l)] db"

definition mark_spawn_completed ::
  "node_identity \<Rightarrow> string \<Rightarrow> string \<Rightarrow> (pyval \<times> pyval) list \<Rightarrow> node_db \<Rightarrow> (unit \<times> node_db) result" where
  "mark_spawn_completed self now oid evidence db =
     rbind (set_spawn_state self now oid ''completed'' evidence db) (\<lambda>(_, db'). Inr ((), db'))"

definition mark_spawn_uncertain ::
  "node_identity \<Rightarrow> string \<Rightarrow> string \<Rightarrow> string \<Rightarrow> node_db \<Rightarrow> (unit \<times> node_db) result" where
  "mark_spawn_uncertain self now oid why db =
     rbind (validate_text why ''reason'') (\<lambda>_.
     rbind (set_spawn_state self now oid ''uncertain'' [(PyStr ''reason'', PyStr why)] db)
       (\<lambda>(_, db'). Inr ((), db')))"

definition reconcile_evidence ::
  "string \<Rightarrow> spawn_detail \<Rightarrow> string \<Rightarrow> (pyval \<times> pyval) list \<Rightarrow> node_db \<Rightarrow> unit result" where
  "reconcile_evidence oid detail outcome observed db =
     (if outcome \<in> {''completed'', ''still_running'', ''absent''}
      then process_evidence oid detail observed (outcome = ''absent'') db
      else if dict_get observed ''process_label'' \<noteq> Some (PyStr (sd_process_label detail))
      then Inl (OperationIdentityConflict ''process label differs from spawn identity'')
      else if has_key observed ''pid'' \<or> has_key observed ''start_identity''
      then process_evidence oid detail observed False db
      else Inr ())"

definition reconcile_spawn ::
  "node_identity \<Rightarrow> string \<Rightarrow> string \<Rightarrow> string \<Rightarrow> (pyval \<times> pyval) list \<Rightarrow> node_db
     \<Rightarrow> (spawn_detail \<times> node_db) result" where
  "reconcile_spawn self now oid outcome observed db =
     rbind (validate_text oid ''operation_id'') (\<lambda>_.
     if outcome \<notin> {''completed'', ''absent'', ''still_running'', ''uncertain''}
     then Inl (ValueError ''unsupported spawn reconciliation outcome'')
     else rbind (fenced self db) (\<lambda>_.
     case lookup_spawn oid db of
       None \<Rightarrow> Inl (UncertainSpawnError ''spawn intent is not recorded'')
     | Some row \<Rightarrow>
         rbind (spawn_detail_of row oid) (\<lambda>detail.
         if sp_state row \<in> {''completed'', ''absent''}
         then if outcome = sp_state row \<and>
                 (case sd_reconciliation detail of None \<Rightarrow> False | Some e \<Rightarrow> py_eq e (PyDict observed))
              then Inr (detail, db)
              else Inl (OperationIdentityConflict ''terminal spawn observation cannot be rewritten'')
         else if sp_state row \<notin> {''uncertain'', ''still_running''}
         then Inl (OperationIdentityConflict ''spawn reconciliation requires uncertainty or a running observation'')
         else rbind (reconcile_evidence oid detail outcome observed db) (\<lambda>_.
         if \<not> json_encodable (PyDict observed) then Inl (json_error (PyDict observed))
         else
           let d = detail\<lparr>sd_reconciliation := Some (PyDict observed), sd_reconciled_at := Some now,
                     sd_reconciled_by_boot := Some (boot_incarnation self)\<rparr>
           in Inr (d, update_spawn oid
                (\<lambda>r. r\<lparr>sp_state := outcome, sp_updated_at := now,
                       sp_detail := d\<lparr>sd_reconciliation := Some (stored_evidence (PyDict observed))\<rparr>\<rparr>) db)))))"

definition spawn_state :: "string \<Rightarrow> node_db \<Rightarrow> (string \<times> spawn_detail) option" where
  "spawn_state oid db = map_option (\<lambda>r. (sp_state r, sp_detail r)) (lookup_spawn oid db)"

section \<open>Observations and recovery\<close>

definition record_process_observation ::
  "node_identity \<Rightarrow> string \<Rightarrow> string \<Rightarrow> string \<Rightarrow> pyval \<Rightarrow> string \<Rightarrow> bool \<Rightarrow> node_db
     \<Rightarrow> (process_observation \<times> node_db) result" where
  "record_process_observation self now oid label pid start containment db =
     rbind (validate_text oid ''operation_id'') (\<lambda>_.
     rbind (validate_text label ''process_label'') (\<lambda>_.
     rbind (validate_text start ''start_identity'') (\<lambda>_.
     case pid of
       PyInt p \<Rightarrow>
         if p \<le> 0 then Inl (ValueError ''pid must be a positive integer'')
         else if containment
         then Inl (ValueError ''NodeJournal records process observations only; it cannot claim containment'')
         else rbind (fenced self db) (\<lambda>_.
         case lookup_operation oid db of
           None \<Rightarrow> Inl (NotFoundError oid)
         | Some j \<Rightarrow>
        (case lookup_spawn oid db of
           None \<Rightarrow> Inl (UncertainSpawnError ''spawn intent is not recorded'')
         | Some row \<Rightarrow>
             if jo_operation_kind (jr_operation j) \<noteq> ''spawn''
             then Inl (UncertainSpawnError ''spawn intent is not recorded'')
             else if sp_state row \<notin> {''dispatched'', ''uncertain'', ''still_running''}
             then Inl (OperationIdentityConflict ''process observation requires a dispatched or uncertain spawn'')
             else rbind (spawn_detail_of row oid) (\<lambda>detail.
             if label \<noteq> sd_process_label detail
             then Inl (OperationIdentityConflict ''process label differs from spawn identity'')
             else if sd_process_identity detail \<notin> {None, Some (p, start)}
             then Inl (OperationIdentityConflict ''process PID/start identity differs from recorded spawn'')
             else
               let ob = \<lparr>po_operation_id = oid, po_process_label = label, po_pid = p,
                         po_start_identity = start, po_observed_at = now, po_containment_claimed = False\<rparr>;
                   db1 = update_spawn oid
                     (\<lambda>r. r\<lparr>sp_detail := detail\<lparr>sd_process_identity := Some (p, start)\<rparr>\<rparr>) db
               in Inr (ob, db1\<lparr>process_observations := process_observations db1 @ [ob]\<rparr>))))
     | _ \<Rightarrow> Inl (TypeError ''pid must be an integer''))))"

definition observations_of :: "string \<Rightarrow> node_db \<Rightarrow> process_observation list" where
  "observations_of oid db =
     sort_key po_observed_at (filter (\<lambda>o'. po_operation_id o' = oid) (process_observations db))"

record recovery_report =
  rr_identity :: node_identity
  rr_uncertain_spawns :: "(string \<times> spawn_detail) list"
  rr_pending_mailbox :: "(string \<times> string \<times> string) list"

definition recover :: "node_identity \<Rightarrow> node_db \<Rightarrow> recovery_report" where
  "recover self db =
     \<lparr>rr_identity = self,
      rr_uncertain_spawns = map (\<lambda>r. (sp_operation_id r, sp_detail r))
        (sort_key sp_updated_at (filter (\<lambda>r. sp_state r = ''uncertain'') (spawn_states db))),
      rr_pending_mailbox = map (\<lambda>m. (mb_message_id m, mb_operation_id m, mb_state m))
        (sort_key mb_created_at (sort_key mb_message_id
          (filter (\<lambda>m. mb_state m \<noteq> ''response_received'') (mailbox db))))\<rparr>"

section \<open>Sequences of calls\<close>

datatype node_call =
    Open "string option" "string option" "string option" string string string string
  | Append node_identity string journal_operation
  | Enqueue node_identity string string string string node_payload "string option"
  | Receipt node_identity string string string string "pyval option" "string option" "string option"
  | BeginSpawn node_identity string journal_operation "string option"
  | MarkDispatched node_identity string string "string option"
  | MarkCompleted node_identity string string "(pyval \<times> pyval) list"
  | MarkUncertain node_identity string string string
  | Reconcile node_identity string string string "(pyval \<times> pyval) list"
  | Observe node_identity string string string pyval string bool

fun call_self :: "node_call \<Rightarrow> node_identity option" where
  "call_self (Open _ _ _ _ _ _ _) = None"
| "call_self (Append self _ _) = Some self"
| "call_self (Enqueue self _ _ _ _ _ _) = Some self"
| "call_self (Receipt self _ _ _ _ _ _ _) = Some self"
| "call_self (BeginSpawn self _ _ _) = Some self"
| "call_self (MarkDispatched self _ _ _) = Some self"
| "call_self (MarkCompleted self _ _ _) = Some self"
| "call_self (MarkUncertain self _ _ _) = Some self"
| "call_self (Reconcile self _ _ _ _) = Some self"
| "call_self (Observe self _ _ _ _ _ _) = Some self"

text \<open>A transaction that raises is rolled back.\<close>

definition commit :: "('a \<times> node_db) result \<Rightarrow> node_db \<Rightarrow> node_db" where
  "commit res db = (case res of Inl _ \<Rightarrow> db | Inr (_, db') \<Rightarrow> db')"

fun exec_call :: "hash_env \<Rightarrow> node_call \<Rightarrow> node_db \<Rightarrow> node_db" where
  "exec_call env (Open rm rn rb fm fn fb now) db = commit (initialize rm rn rb fm fn fb now db) db"
| "exec_call env (Append self now op) db = commit (append_operation self now op db) db"
| "exec_call env (Enqueue self now mid cid oid pay given) db = commit (enqueue env self now mid cid oid pay given db) db"
| "exec_call env (Receipt self now oid layer st ev rid obs) db = commit (record_receipt self now oid layer st ev rid obs db) db"
| "exec_call env (BeginSpawn self now op label) db = fst (begin_spawn self now op label db)"
| "exec_call env (MarkDispatched self now oid label) db = commit (mark_spawn_dispatched self now oid label db) db"
| "exec_call env (MarkCompleted self now oid ev) db = commit (mark_spawn_completed self now oid ev db) db"
| "exec_call env (MarkUncertain self now oid why) db = commit (mark_spawn_uncertain self now oid why db) db"
| "exec_call env (Reconcile self now oid outcome ev) db = commit (reconcile_spawn self now oid outcome ev db) db"
| "exec_call env (Observe self now oid label pid start cont) db =
     commit (record_process_observation self now oid label pid start cont db) db"

text \<open>\<open>authorized i c db\<close>: the call \<open>c\<close> returns the \<open>True\<close> that permits the dispatch of \<open>i\<close>.\<close>

fun authorized :: "string \<Rightarrow> node_call \<Rightarrow> node_db \<Rightarrow> bool" where
  "authorized i (MarkDispatched self now oid label) db \<longleftrightarrow>
     oid = i \<and> (case mark_spawn_dispatched self now oid label db of Inr (b, _) \<Rightarrow> b | Inl _ \<Rightarrow> False)"
| "authorized i _ db \<longleftrightarrow> False"

fun node_run :: "hash_env \<Rightarrow> node_call list \<Rightarrow> node_db \<Rightarrow> node_db" where
  "node_run env [] db = db"
| "node_run env (c # cs) db = node_run env cs (exec_call env c db)"

fun dispatches :: "hash_env \<Rightarrow> string \<Rightarrow> node_call list \<Rightarrow> node_db \<Rightarrow> nat" where
  "dispatches env i [] db = 0"
| "dispatches env i (c # cs) db = (if authorized i c db then 1 else 0) + dispatches env i cs (exec_call env c db)"

inductive node_step :: "hash_env \<Rightarrow> node_db \<Rightarrow> node_db \<Rightarrow> bool" for env where
  call: "node_step env db (exec_call env c db)"

inductive_cases node_stepE: "node_step env db db'"

lemma node_run_steps: "(node_step env)\<^sup>*\<^sup>* db (node_run env cs db)"
  by (induction cs arbitrary: db) (auto intro: converse_rtranclp_into_rtranclp node_step.call)

section \<open>Effect of each operation on the spawn table\<close>

definition spawns_wf :: "node_db \<Rightarrow> bool" where
  "spawns_wf db \<longleftrightarrow> distinct (map sp_operation_id (spawn_states db))"

definition node_inv :: "node_db \<Rightarrow> bool" where
  "node_inv db \<longleftrightarrow> node_wf db \<and> spawns_wf db"

text \<open>
  Everything an operation does to a spawn row: it leaves it, inserts it as \<open>intent\<close>, or
  replaces a row that is not terminal by one that is not \<open>intent\<close>.
\<close>

definition spawn_change :: "spawn_row option \<Rightarrow> spawn_row option \<Rightarrow> bool" where
  "spawn_change old new \<longleftrightarrow> old = new \<or>
     (\<exists>r. old = None \<and> new = Some r \<and> sp_state r = ''intent'') \<or>
     (\<exists>r s. old = Some r \<and> new = Some s \<and> sp_state r \<notin> {''completed'', ''absent''} \<and> sp_state s \<noteq> ''intent'')"

lemma spawn_change_refl [simp]: "spawn_change x x"
  by (simp add: spawn_change_def)

lemma lookup_spawn_SomeD: "lookup_spawn i db = Some r \<Longrightarrow> sp_operation_id r = i"
  unfolding lookup_spawn_def by (drule find_SomeD) simp

lemma lookup_update_spawn:
  assumes "\<And>r. sp_operation_id (f r) = sp_operation_id r"
  shows "lookup_spawn i (update_spawn oid f db) =
    map_option (\<lambda>r. if i = oid then f r else r) (lookup_spawn i db)"
proof -
  have "lookup_spawn i (update_spawn oid f db) =
      map_option (\<lambda>r. if sp_operation_id r = oid then f r else r) (lookup_spawn i db)"
    using assms by (simp add: lookup_spawn_def update_spawn_def find_update_where)
  then show ?thesis by (cases "lookup_spawn i db") (auto dest: lookup_spawn_SomeD)
qed

interpretation spn: row_store lookup_spawn insert_spawn sp_operation_id spawns_wf
proof unfold_locales
  fix k d r
  assume "lookup_spawn k d = Some r"
  then show "sp_operation_id r = k" by (rule lookup_spawn_SomeD)
next
  fix d :: node_db and r :: spawn_row and k
  assume "lookup_spawn (sp_operation_id r) d = None"
  then show "lookup_spawn k (insert_spawn r d) = (if k = sp_operation_id r then Some r else lookup_spawn k d)"
    by (auto simp: lookup_spawn_def insert_spawn_def find_append split: option.splits)
next
  fix d :: node_db and r :: spawn_row
  assume "spawns_wf d" and "lookup_spawn (sp_operation_id r) d = None"
  then show "spawns_wf (insert_spawn r d)"
    by (auto simp: lookup_spawn_def table_simps insert_spawn_def spawns_wf_def)
qed

lemma spawns_wf_update:
  "(\<And>r. sp_operation_id (f r) = sp_operation_id r) \<Longrightarrow> spawns_wf (update_spawn i f db) = spawns_wf db"
  by (simp add: spawns_wf_def update_spawn_def map_update_where)

lemma node_wf_spawns [simp]:
  "node_wf (update_spawn i f db) = node_wf db" "node_wf (insert_spawn r db) = node_wf db"
  "node_wf (db\<lparr>process_observations := po\<rparr>) = node_wf db"
  by (rule node_wf_cong; simp add: update_spawn_def insert_spawn_def)+

lemma set_spawn_state_Inr:
  assumes "set_spawn_state self now oid state supplied db = Inr (b, db')"
  shows "meta_boot db = Some (boot_incarnation self) \<and>
    (\<not> b \<and> db' = db \<or>
     b \<and> (\<exists>row d. lookup_spawn oid db = Some row \<and> sp_state row \<notin> {''completed'', ''absent''} \<and>
       (state = ''dispatched'' \<longrightarrow> sp_state row = ''intent'') \<and> state \<in> {''dispatched'', ''completed'', ''uncertain''} \<and>
       db' = update_spawn oid (\<lambda>r. r\<lparr>sp_state := state, sp_updated_at := now, sp_detail := d\<rparr>) db))"
proof -
  have D: "dispatch_branch self cur st = Inr (Some d) \<Longrightarrow> cur = ''intent''" for cur st d
    by (auto simp: dispatch_branch_def split: if_splits)
  have C: "complete_branch oid cur st supplied db = Inr (Some d) \<Longrightarrow> cur \<in> {''dispatched'', ''still_running''}" for cur st d
    by (auto simp: complete_branch_def split: if_splits)
  have U: "uncertain_branch cur st supplied = Inr (Some d) \<Longrightarrow> cur \<in> {''intent'', ''dispatched'', ''still_running''}" for cur st d
    by (auto simp: uncertain_branch_def split: if_splits)
  show ?thesis
    using assms unfolding set_spawn_state_def
    by (auto split: option.splits if_splits dest: D C U)
qed

lemma reconcile_spawn_Inr:
  assumes "reconcile_spawn self now oid outcome observed db = Inr (x, db')"
  shows "meta_boot db = Some (boot_incarnation self) \<and>
    (db' = db \<or>
     (\<exists>row d. lookup_spawn oid db = Some row \<and> sp_state row \<in> {''uncertain'', ''still_running''} \<and>
       outcome \<in> {''completed'', ''absent'', ''still_running'', ''uncertain''} \<and>
       db' = update_spawn oid (\<lambda>r. r\<lparr>sp_state := outcome, sp_updated_at := now, sp_detail := d\<rparr>) db))"
  using assms unfolding reconcile_spawn_def
  by (auto simp: Let_def split: option.splits if_splits)

lemma record_process_observation_Inr:
  assumes "record_process_observation self now oid label pid start cont db = Inr (x, db')"
  shows "meta_boot db = Some (boot_incarnation self) \<and>
    (\<exists>row d. lookup_spawn oid db = Some row \<and> sp_state row \<in> {''dispatched'', ''uncertain'', ''still_running''} \<and>
       db' = (update_spawn oid (\<lambda>r. r\<lparr>sp_detail := d\<rparr>) db)\<lparr>process_observations := process_observations db @ [x]\<rparr>)"
proof (cases pid)
  case (PyInt p)
  have po: "process_observations (update_spawn i f db) = process_observations db" for i f
    by (simp add: update_spawn_def)
  from assms PyInt show ?thesis unfolding record_process_observation_def
    by (auto simp: Let_def po split: option.splits if_splits)
qed (use assms in \<open>simp_all add: record_process_observation_def\<close>)

lemma begin_spawn_cases:
  assumes "begin_spawn self now op label db = (db', res)"
  shows "db' = db \<or> meta_boot db = Some (boot_incarnation self) \<and>
    (\<exists>db1. append_operation self now op db = Inr (op, db1) \<and>
     (db' = db1 \<or> (\<exists>r. lookup_spawn (sp_operation_id r) db1 = None \<and> sp_state r = ''intent'' \<and> db' = insert_spawn r db1)))"
proof (cases "append_operation self now op db")
  case (Inl e)
  with assms show ?thesis by (auto simp: begin_spawn_def split: sum.splits if_splits)
next
  case (Inr v)
  obtain db1 where v: "v = (op, db1)" using append_operation_Inr Inr by (cases v) auto
  have boot: "meta_boot db = Some (boot_incarnation self)" using append_operation_Inr Inr v by blast
  let ?new = "\<lambda>r. lookup_spawn (sp_operation_id r) db1 = None \<and> sp_state r = ''intent'' \<and> db' = insert_spawn r db1"
  have "db' = db \<or> db' = db1 \<or> (\<exists>r. ?new r)"
    using assms Inr v unfolding begin_spawn_def
    by (simp split: sum.splits option.splits if_splits) (metis spawn_row.select_convs(1,2))+
  with boot Inr v show ?thesis by auto
qed

lemma append_operation_spawns:
  "append_operation self now op db = Inr (x, db') \<Longrightarrow> spawn_states db' = spawn_states db"
  by (drule append_operation_Inr) (auto simp: insert_operation_def)

lemma enqueue_spawns:
  "enqueue env self now mid cid oid pay given db = Inr (x, db') \<Longrightarrow> spawn_states db' = spawn_states db"
  by (drule enqueue_Inr) (auto simp: insert_message_def)

lemma record_receipt_spawns:
  "record_receipt self now oid layer st ev rid obs db = Inr (x, db') \<Longrightarrow> spawn_states db' = spawn_states db"
  by (drule record_receipt_Inr) (auto simp: insert_receipt_def)

lemma lookup_spawn_cong: "spawn_states db' = spawn_states db \<Longrightarrow> lookup_spawn i db' = lookup_spawn i db"
  by (simp add: lookup_spawn_def)

lemma spawns_wf_cong: "spawn_states db' = spawn_states db \<Longrightarrow> spawns_wf db' = spawns_wf db"
  by (simp add: spawns_wf_def)

lemmas spawn_frame = append_operation_spawns enqueue_spawns record_receipt_spawns

lemma retire_change:
  "spawn_change (find (\<lambda>r. sp_operation_id r = i) rows) (find (\<lambda>r. sp_operation_id r = i) (retire_spawns now rows))"
  by (induction rows) (auto simp: retire_spawns_def spawn_change_def open_spawn_states_def)

lemma initialize_change:
  assumes "initialize rm rn rb fm fn fb now db = Inr (self, db')"
  shows "spawn_change (lookup_spawn i db) (lookup_spawn i db')"
  using initialize_Inr(6) [OF assms] retire_change by (simp add: lookup_spawn_def)

lemma begin_spawn_change:
  assumes "spawns_wf db" "begin_spawn self now op label db = (db', res)"
  shows "spawn_change (lookup_spawn i db) (lookup_spawn i db')"
proof -
  have "spawn_change (lookup_spawn i db) (lookup_spawn i (insert_spawn r db1))"
    if "append_operation self now op db = Inr (op, db1)" "lookup_spawn (sp_operation_id r) db1 = None"
      "sp_state r = ''intent''" for r db1
  proof -
    have eq: "spawn_states db1 = spawn_states db" using that(1) by (rule append_operation_spawns)
    then have "spawns_wf db1" using assms(1) spawns_wf_cong by blast
    then show ?thesis
      using spn.lookup_insert [of db1 r i] that lookup_spawn_cong [OF eq] by (auto simp: spawn_change_def)
  qed
  moreover have "spawn_change (lookup_spawn i db) (lookup_spawn i db1)"
    if "append_operation self now op db = Inr (op, db1)" for db1
    using lookup_spawn_cong [OF append_operation_spawns [OF that]] by simp
  ultimately show ?thesis
    using begin_spawn_cases [OF assms(2)] by (elim disjE exE conjE) simp_all
qed

lemma update_change:
  assumes "lookup_spawn oid db = Some row" "sp_state row \<notin> {''completed'', ''absent''}" "sp_state (f row) \<noteq> ''intent''"
    and "\<And>r. sp_operation_id (f r) = sp_operation_id r"
  shows "spawn_change (lookup_spawn i db) (lookup_spawn i (update_spawn oid f db))"
proof (cases "i = oid")
  case True
  then show ?thesis using assms(1-3) by (simp add: lookup_update_spawn assms(4) spawn_change_def)
next
  case False
  then show ?thesis by (simp add: lookup_update_spawn assms(4) option.map_ident)
qed

lemma set_spawn_state_change:
  assumes "set_spawn_state self now oid state supplied db = Inr (b, db')"
  shows "spawn_change (lookup_spawn i db) (lookup_spawn i db')"
proof -
  from set_spawn_state_Inr [OF assms] consider "db' = db"
    | row d where "lookup_spawn oid db = Some row" "sp_state row \<notin> {''completed'', ''absent''}"
      "state \<in> {''dispatched'', ''completed'', ''uncertain''}"
      "db' = update_spawn oid (\<lambda>r. r\<lparr>sp_state := state, sp_updated_at := now, sp_detail := d\<rparr>) db" by blast
  then show ?thesis
  proof cases
    case (2 row d)
    show ?thesis unfolding 2(4) by (rule update_change [OF 2(1,2)]) (use 2(3) in auto)
  qed simp
qed

lemma reconcile_spawn_change:
  assumes "reconcile_spawn self now oid outcome observed db = Inr (x, db')"
  shows "spawn_change (lookup_spawn i db) (lookup_spawn i db')"
proof -
  from reconcile_spawn_Inr [OF assms] consider "db' = db"
    | row d where "lookup_spawn oid db = Some row" "sp_state row \<in> {''uncertain'', ''still_running''}"
      "outcome \<in> {''completed'', ''absent'', ''still_running'', ''uncertain''}"
      "db' = update_spawn oid (\<lambda>r. r\<lparr>sp_state := outcome, sp_updated_at := now, sp_detail := d\<rparr>) db" by blast
  then show ?thesis
  proof cases
    case (2 row d)
    have "sp_state row \<notin> {''completed'', ''absent''}" using 2(2) by auto
    then show ?thesis unfolding 2(4) by (rule update_change [OF 2(1)]) (use 2(3) in auto)
  qed simp
qed

lemma lookup_spawn_observations [simp]:
  "lookup_spawn i (db\<lparr>process_observations := po\<rparr>) = lookup_spawn i db"
  by (simp add: lookup_spawn_def)

lemma observation_change:
  assumes "record_process_observation self now oid label pid start cont db = Inr (x, db')"
  shows "spawn_change (lookup_spawn i db) (lookup_spawn i db')"
proof -
  obtain row d where r: "lookup_spawn oid db = Some row" "sp_state row \<in> {''dispatched'', ''uncertain'', ''still_running''}"
    and db': "db' = (update_spawn oid (\<lambda>r. r\<lparr>sp_detail := d\<rparr>) db)\<lparr>process_observations := process_observations db @ [x]\<rparr>"
    using record_process_observation_Inr [OF assms] by blast
  have "sp_state row \<notin> {''completed'', ''absent''}" using r(2) by auto
  then show ?thesis unfolding db' lookup_spawn_observations by (rule update_change [OF r(1)]) (use r(2) in auto)
qed

lemma commit_change:
  assumes "\<And>x db'. res = Inr (x, db') \<Longrightarrow> spawn_change (lookup_spawn i db) (lookup_spawn i db')"
  shows "spawn_change (lookup_spawn i db) (lookup_spawn i (commit res db))"
  using assms by (auto simp: commit_def split: sum.split)

lemma commit_inv:
  assumes "node_inv db" "\<And>x db'. res = Inr (x, db') \<Longrightarrow> node_inv db'"
  shows "node_inv (commit res db)"
  using assms by (auto simp: commit_def split: sum.split)

lemma exec_spawn_change:
  assumes "node_inv db"
  shows "spawn_change (lookup_spawn i db) (lookup_spawn i (exec_call env c db))"
proof (cases c)
  case (BeginSpawn self now op label)
  then show ?thesis
    using begin_spawn_change [of db self now op label _ _ i] assms
    by (cases "begin_spawn self now op label db") (simp add: node_inv_def)
next
  case (MarkDispatched self now oid label)
  then show ?thesis by (simp add: mark_spawn_dispatched_def) (rule commit_change, erule set_spawn_state_change)
next
  case (MarkCompleted self now oid ev)
  then show ?thesis by (simp add: mark_spawn_completed_def) (rule commit_change, auto dest: set_spawn_state_change)
next
  case (MarkUncertain self now oid why)
  then show ?thesis by (simp add: mark_spawn_uncertain_def) (rule commit_change, auto dest: set_spawn_state_change)
next
  case (Append self now op)
  then show ?thesis by simp (rule commit_change, simp add: lookup_spawn_cong [OF append_operation_spawns])
next
  case (Enqueue self now mid cid oid pay given)
  then show ?thesis by simp (rule commit_change, simp add: lookup_spawn_cong [OF enqueue_spawns])
next
  case (Receipt self now oid layer st ev rid obs)
  then show ?thesis by simp (rule commit_change, simp add: lookup_spawn_cong [OF record_receipt_spawns])
next
  case (Open rm rn rb fm fn fb now)
  then show ?thesis by simp (rule commit_change, erule initialize_change)
next
  case (Reconcile self now oid outcome ev)
  then show ?thesis by simp (rule commit_change, erule reconcile_spawn_change)
next
  case (Observe self now oid label pid start cont)
  then show ?thesis by simp (rule commit_change, erule observation_change)
qed

lemma exec_inv:
  assumes inv: "node_inv db"
  shows "node_inv (exec_call env c db)"
proof (cases c)
  case (Open rm rn rb fm fn fb now)
  have "spawns_wf db'" if "initialize rm rn rb fm fn fb now db = Inr (x, db')" for x db'
    using initialize_Inr(6) [OF that] inv
    by (simp add: node_inv_def spawns_wf_def retire_spawns_def map_update_where)
  with Open inv show ?thesis by simp (rule commit_inv, auto simp: node_inv_def dest: initialize_wf)
next
  case (Append self now op)
  with inv show ?thesis
    by simp (rule commit_inv, auto simp: node_inv_def dest: append_operation_wf append_operation_spawns spawns_wf_cong)
next
  case (Enqueue self now mid cid oid pay given)
  with inv show ?thesis
    by simp (rule commit_inv, auto simp: node_inv_def dest: enqueue_wf enqueue_spawns spawns_wf_cong)
next
  case (Receipt self now oid layer st ev rid obs)
  with inv show ?thesis
    by simp (rule commit_inv, auto simp: node_inv_def dest: record_receipt_wf record_receipt_spawns spawns_wf_cong)
next
  case (BeginSpawn self now op label)
  obtain db' res where b: "begin_spawn self now op label db = (db', res)" by (cases "begin_spawn self now op label db")
  have "node_inv db1" if "append_operation self now op db = Inr (op, db1)" for db1
    using that inv append_operation_wf spawns_wf_cong [OF append_operation_spawns [OF that]] by (auto simp: node_inv_def)
  moreover have "node_inv (insert_spawn r db1)" if "node_inv db1" "lookup_spawn (sp_operation_id r) db1 = None" for r db1
    using that spn.wf_insert by (simp add: node_inv_def)
  ultimately show ?thesis
    using begin_spawn_cases [OF b] b BeginSpawn inv by auto
next
  case (MarkDispatched self now oid label)
  with inv show ?thesis
    by (simp add: mark_spawn_dispatched_def)
      (rule commit_inv, auto simp: node_inv_def spawns_wf_update dest!: set_spawn_state_Inr)
next
  case (MarkCompleted self now oid ev)
  with inv show ?thesis
    by (simp add: mark_spawn_completed_def)
      (rule commit_inv, auto simp: node_inv_def spawns_wf_update dest!: set_spawn_state_Inr)
next
  case (MarkUncertain self now oid why)
  with inv show ?thesis
    by (simp add: mark_spawn_uncertain_def)
      (rule commit_inv, auto simp: node_inv_def spawns_wf_update dest!: set_spawn_state_Inr)
next
  case (Reconcile self now oid outcome ev)
  with inv show ?thesis
    by simp (rule commit_inv, auto simp: node_inv_def spawns_wf_update dest!: reconcile_spawn_Inr)
next
  case (Observe self now oid label pid start cont)
  have "spawns_wf (d\<lparr>process_observations := po\<rparr>) = spawns_wf d" for d po by (simp add: spawns_wf_def)
  with Observe inv show ?thesis
    by simp (rule commit_inv, auto simp: node_inv_def spawns_wf_update dest!: record_process_observation_Inr)
qed

text \<open>The rank of a spawn: absent, prepared, or past preparation.\<close>

definition spawn_rank :: "string \<Rightarrow> node_db \<Rightarrow> nat" where
  "spawn_rank i db = (case lookup_spawn i db of None \<Rightarrow> 0 | Some r \<Rightarrow> if sp_state r = ''intent'' then 1 else 2)"

interpretation nd: ranked_steps "node_step env" node_inv "spawn_rank i" for env i
proof unfold_locales
  fix s t
  assume "node_inv s" "node_step env s t"
  then show "node_inv t" by (auto elim!: node_stepE intro: exec_inv)
next
  fix s t
  assume inv: "node_inv s" and "node_step env s t"
  then obtain c where t: "t = exec_call env c s" by (auto elim!: node_stepE)
  show "spawn_rank i s \<le> spawn_rank i t"
    using exec_spawn_change [OF inv, of i env c] by (auto simp: t spawn_rank_def spawn_change_def)
qed

lemma node_run_inv: "node_inv db \<Longrightarrow> node_inv (node_run env cs db)"
  using nd.inv_run [OF node_run_steps] .

lemma node_run_rank: "node_inv db \<Longrightarrow> spawn_rank i db \<le> spawn_rank i (node_run env cs db)"
  using nd.rank_run [OF node_run_steps] .

lemma authorized_rank:
  assumes "authorized i c db"
  shows "spawn_rank i db = 1 \<and> spawn_rank i (exec_call env c db) = 2"
proof -
  from assms obtain self now label db' where c: "c = MarkDispatched self now i label"
    and ok: "mark_spawn_dispatched self now i label db = Inr (True, db')"
    by (cases c) (auto split: sum.splits prod.splits)
  from set_spawn_state_Inr [OF ok [unfolded mark_spawn_dispatched_def]] show ?thesis
    using ok by (auto simp: c commit_def spawn_rank_def lookup_update_spawn)
qed

lemma dispatches_rank: "node_inv db \<Longrightarrow> dispatches env i cs db \<le> (if spawn_rank i db < 2 then 1 else 0)"
proof (induction cs arbitrary: db)
  case (Cons c cs)
  have inv: "node_inv (exec_call env c db)" using Cons.prems by (rule exec_inv)
  show ?case
  proof (cases "authorized i c db")
    case True
    then show ?thesis using authorized_rank [OF True, of env] Cons.IH [OF inv] by simp
  next
    case False
    have "spawn_rank i db \<le> spawn_rank i (exec_call env c db)"
      using Cons.prems by (auto intro: nd.rank_step [where env = env] node_step.call)
    then show ?thesis using False Cons.IH [OF inv] by (auto split: if_splits)
  qed
qed simp

section \<open>The boot fence\<close>

definition boots_inv :: "string \<Rightarrow> node_db \<Rightarrow> bool" where
  "boots_inv b db \<longleftrightarrow> b \<in> fst ` set (node_boots db) \<and> meta_boot db \<noteq> None \<and> meta_boot db \<noteq> Some b"

lemma fence_blocks:
  assumes "call_self c = Some self" "meta_boot db \<noteq> Some (boot_incarnation self)"
  shows "exec_call env c db = db"
proof -
  have commit_id: "commit res db = db" if "\<And>x db'. res = Inr (x, db') \<Longrightarrow> meta_boot db = Some (boot_incarnation self)"
    for res :: "('a \<times> node_db) result"
    using that assms(2) by (auto simp: commit_def split: sum.split)
  show ?thesis
  proof (cases c)
    case (BeginSpawn s now op label)
    then show ?thesis
      using assms begin_spawn_cases [of s now op label db] by (cases "begin_spawn s now op label db") auto
  qed (use assms in \<open>auto simp: mark_spawn_dispatched_def mark_spawn_completed_def mark_spawn_uncertain_def
      intro!: commit_id dest!: append_operation_Inr enqueue_Inr record_receipt_Inr set_spawn_state_Inr
        reconcile_spawn_Inr record_process_observation_Inr\<close>)
qed

lemma exec_boot_frame:
  assumes "call_self c \<noteq> None"
  shows "meta_boot (exec_call env c db) = meta_boot db \<and> node_boots (exec_call env c db) = node_boots db"
proof -
  have com: "meta_boot (commit res db) = meta_boot db \<and> node_boots (commit res db) = node_boots db"
    if "\<And>x db'. res = Inr (x, db') \<Longrightarrow> meta_boot db' = meta_boot db \<and> node_boots db' = node_boots db"
    for res :: "('a \<times> node_db) result"
    using that by (auto simp: commit_def split: sum.split)
  have app: "meta_boot db' = meta_boot db \<and> node_boots db' = node_boots db"
    if "append_operation self now op db = Inr (x, db')" for self now op x db'
    using append_operation_Inr [OF that] by (auto simp: insert_operation_def)
  show ?thesis
  proof (cases c)
    case (BeginSpawn s now op label)
    then show ?thesis
      using begin_spawn_cases [of s now op label db] app
      by (cases "begin_spawn s now op label db") (auto simp: insert_spawn_def)
  next
    case (Append s now op)
    then show ?thesis by simp (rule com, erule app)
  next
    case (Enqueue s now mid cid oid pay given)
    then show ?thesis by simp (rule com, auto simp: insert_message_def dest!: enqueue_Inr)
  next
    case (Receipt s now oid layer st ev rid obs)
    then show ?thesis by simp (rule com, auto simp: insert_receipt_def dest!: record_receipt_Inr)
  next
    case (MarkDispatched s now oid label)
    then show ?thesis
      by (simp add: mark_spawn_dispatched_def) (rule com, auto simp: update_spawn_def dest!: set_spawn_state_Inr)
  next
    case (MarkCompleted s now oid ev)
    then show ?thesis
      by (simp add: mark_spawn_completed_def) (rule com, auto simp: update_spawn_def dest!: set_spawn_state_Inr)
  next
    case (MarkUncertain s now oid why)
    then show ?thesis
      by (simp add: mark_spawn_uncertain_def) (rule com, auto simp: update_spawn_def dest!: set_spawn_state_Inr)
  next
    case (Reconcile s now oid outcome ev)
    then show ?thesis by simp (rule com, auto simp: update_spawn_def dest!: reconcile_spawn_Inr)
  next
    case (Observe s now oid label pid start cont)
    then show ?thesis by simp (rule com, auto simp: update_spawn_def dest!: record_process_observation_Inr)
  qed (use assms in simp)
qed

interpretation fence: step_invariant "node_step env" "boots_inv b" for env b
proof unfold_locales
  fix s t
  assume inv: "boots_inv b s" and "node_step env s t"
  then obtain c where t: "t = exec_call env c s" by (auto elim!: node_stepE)
  show "boots_inv b t"
  proof (cases "call_self c")
    case None
    then obtain rm rn rb fm fn fb now where c: "c = Open rm rn rb fm fn fb now" by (cases c) auto
    show ?thesis
    proof (cases "initialize rm rn rb fm fn fb now s")
      case (Inr v)
      obtain x db' where v: "v = (x, db')" by (cases v)
      from initialize_db [OF Inr [unfolded v]] inv
      have "boot_incarnation x \<noteq> b"
        by (auto simp: boots_inv_def find_None_iff_all)
      with initialize_db [OF Inr [unfolded v]] inv show ?thesis
        by (simp add: t c commit_def Inr v boots_inv_def)
    qed (use inv in \<open>simp add: t c commit_def\<close>)
  next
    case (Some self)
    with inv exec_boot_frame [of c env s] show ?thesis by (simp add: boots_inv_def t)
  qed
qed

section \<open>The recorded history\<close>

definition history_kept :: "node_db \<Rightarrow> node_db \<Rightarrow> bool" where
  "history_kept db db' \<longleftrightarrow>
     (\<forall>i op. read_operation i db = Some op \<longrightarrow> read_operation i db' = Some op) \<and>
     (\<forall>k r. lookup_receipt k db = Some r \<longrightarrow> lookup_receipt k db' = Some r)"

lemma history_kept_refl [simp]: "history_kept db db"
  by (simp add: history_kept_def)

lemma history_kept_trans: "history_kept a b \<Longrightarrow> history_kept b c \<Longrightarrow> history_kept a c"
  by (simp add: history_kept_def)

lemma history_kept_cong:
  "journal db' = journal db \<Longrightarrow> lifecycle_receipts db' = lifecycle_receipts db \<Longrightarrow> history_kept db db'"
  by (simp add: history_kept_def read_operation_def lookup_operation_def lookup_receipt_def)

lemma history_insert_operation:
  "node_wf db \<Longrightarrow> lookup_operation (jo_operation_id (jr_operation row)) db = None \<Longrightarrow>
   history_kept db (insert_operation row db)"
  by (auto simp: history_kept_def read_operation_insert lookup_receipt_def insert_operation_def read_operation_def)
    (auto simp: lookup_operation_def find_append)

lemma history_insert_receipt:
  assumes "node_wf db" "lookup_receipt (lr_operation_id r, lr_layer r) db = None"
  shows "history_kept db (insert_receipt r db)"
proof -
  have "lookup_receipt k (insert_receipt r db) = Some s" if "lookup_receipt k db = Some s" for k s
    using rcp.insert_row_keeps [of db r k s] assms that by (simp add: node_wf_def receipts_wf_def)
  moreover have "read_operation i (insert_receipt r db) = read_operation i db" for i
    by (cases "lookup_operation i db") (simp_all add: read_operation_def)
  ultimately show ?thesis by (simp add: history_kept_def)
qed

lemma append_history:
  "node_wf db \<Longrightarrow> append_operation self now op db = Inr (x, db') \<Longrightarrow> history_kept db db'"
  by (drule append_operation_Inr) (auto intro: history_insert_operation)

lemma exec_history:
  assumes inv: "node_inv db"
  shows "history_kept db (exec_call env c db)"
proof -
  have wf: "node_wf db" using inv by (simp add: node_inv_def)
  have com: "history_kept db (commit res db)" if "\<And>x db'. res = Inr (x, db') \<Longrightarrow> history_kept db db'"
    for res :: "('a \<times> node_db) result"
    using that by (auto simp: commit_def split: sum.split)
  have upd: "history_kept db (update_spawn i f db)" "history_kept db ((update_spawn i f db)\<lparr>process_observations := po\<rparr>)"
    for i f po by (rule history_kept_cong; simp add: update_spawn_def)+
  show ?thesis
  proof (cases c)
    case (Open rm rn rb fm fn fb now)
    then show ?thesis by simp (rule com, auto dest: initialize_Inr(1,2) intro!: history_kept_cong)
  next
    case (BeginSpawn s now op label)
    have "history_kept d (insert_spawn r d)" for r d by (rule history_kept_cong) (simp_all add: insert_spawn_def)
    then show ?thesis
      using begin_spawn_cases [of s now op label db] append_history [OF wf] history_kept_trans BeginSpawn
      by (cases "begin_spawn s now op label db") fastforce
  next
    case (Append s now op)
    then show ?thesis by simp (rule com, erule append_history [OF wf])
  next
    case (Enqueue s now mid cid oid pay given)
    have "history_kept db (insert_message m db)" for m by (rule history_kept_cong) (simp_all add: insert_message_def)
    then show ?thesis using Enqueue by simp (rule com, auto dest!: enqueue_Inr)
  next
    case (Receipt s now oid layer st ev rid obs)
    then show ?thesis by simp (rule com, auto intro!: history_insert_receipt wf dest!: record_receipt_Inr)
  next
    case (MarkDispatched s now oid label)
    then show ?thesis by (simp add: mark_spawn_dispatched_def) (rule com, auto simp: upd dest!: set_spawn_state_Inr)
  next
    case (MarkCompleted s now oid ev)
    then show ?thesis by (simp add: mark_spawn_completed_def) (rule com, auto simp: upd dest!: set_spawn_state_Inr)
  next
    case (MarkUncertain s now oid why)
    then show ?thesis by (simp add: mark_spawn_uncertain_def) (rule com, auto simp: upd dest!: set_spawn_state_Inr)
  next
    case (Reconcile s now oid outcome ev)
    then show ?thesis by simp (rule com, auto simp: upd dest!: reconcile_spawn_Inr)
  next
    case (Observe s now oid label pid start cont)
    then show ?thesis by simp (rule com, auto simp: upd dest!: record_process_observation_Inr)
  qed
qed

lemma node_run_history: "node_inv db \<Longrightarrow> history_kept db (node_run env cs db)"
proof (induction cs arbitrary: db)
  case (Cons c cs)
  from exec_history [OF Cons.prems] Cons.IH [OF exec_inv [OF Cons.prems]] show ?case
    using history_kept_trans by simp blast
qed simp

section \<open>Properties\<close>

lemma empty_node_db_inv: "node_inv empty_node_db"
  using empty_node_db_wf by (simp add: node_inv_def spawns_wf_def empty_node_db_def)

definition env_0 :: hash_env where
  "env_0 = \<lparr>sha256_hex = (\<lambda>s. replicate 64 (CHR ''a'')), isoformat = (\<lambda>d. ''t''), model_time = (\<lambda>d. ''t''),
     json_loads = (\<lambda>s. None)\<rparr>"

definition calls_1 :: "node_call list" where
  "calls_1 = [Open None None (Some ''boot-1'') ''m'' ''n'' ''x'' ''t0'', BeginSpawn id_1 ''t1'' op_1 None,
     MarkDispatched id_1 ''t2'' ''op'' None, MarkDispatched id_1 ''t3'' ''op'' None]"

text \<open>
  C14. One dispatch per operation: over any sequence of calls by any number of journal objects,
  restarts included, \<open>mark_spawn_dispatched\<close> returns the \<open>True\<close> that permits an OS
  dispatch at most once for each operation.
\<close>

theorem at_most_one_dispatch:
  assumes "node_inv db"
  shows "dispatches env i cs db \<le> 1"
  using dispatches_rank [OF assms, of env i cs] by (auto split: if_splits)

theorem at_most_one_dispatch_witness:
  "dispatches env_0 ''op'' calls_1 empty_node_db = 1 \<and> dispatches env_0 ''op'' (calls_1 @ calls_1) empty_node_db \<le> 1"
proof
  show "dispatches env_0 ''op'' calls_1 empty_node_db = 1" by code_simp
  show "dispatches env_0 ''op'' (calls_1 @ calls_1) empty_node_db \<le> 1"
    by (rule at_most_one_dispatch [OF empty_node_db_inv])
qed

text \<open>
  C15. Terminal spawns are final: once a spawn is \<open>completed\<close> or \<open>absent\<close>, no sequence of
  calls, and no restart, changes its row in any field.
\<close>

theorem terminal_spawn_final:
  assumes "node_inv db" "lookup_spawn i db = Some r" "sp_state r \<in> {''completed'', ''absent''}"
  shows "lookup_spawn i (node_run env cs db) = Some r"
  using assms
proof (induction cs arbitrary: db)
  case (Cons c cs)
  have "lookup_spawn i (exec_call env c db) = Some r"
    using exec_spawn_change [OF Cons.prems(1), of i env c] Cons.prems(2,3) by (auto simp: spawn_change_def)
  then show ?case using Cons.IH [OF exec_inv [OF Cons.prems(1)]] Cons.prems(3) by simp
qed simp

definition calls_2 :: "node_call list" where
  "calls_2 = [Open None None (Some ''boot-1'') ''m'' ''n'' ''x'' ''t0'', BeginSpawn id_1 ''t1'' op_1 (Some ''p''),
     MarkDispatched id_1 ''t2'' ''op'' None, Observe id_1 ''t3'' ''op'' ''p'' (PyInt 7) ''s'' False,
     MarkCompleted id_1 ''t4'' ''op'' [(PyStr ''process_label'', PyStr ''p''), (PyStr ''pid'', PyInt 7),
       (PyStr ''start_identity'', PyStr ''s'')]]"

definition restart_2 :: node_call where
  "restart_2 = Open None None (Some ''boot-2'') ''m'' ''n'' ''x'' ''t5''"

theorem terminal_spawn_final_witness:
  "\<exists>r. lookup_spawn ''op'' (node_run env_0 calls_2 empty_node_db) = Some r \<and> sp_state r = ''completed'' \<and>
     lookup_spawn ''op'' (node_run env_0 [restart_2] (node_run env_0 calls_2 empty_node_db)) = Some r"
proof -
  have inv: "node_inv (node_run env_0 calls_2 empty_node_db)" by (rule node_run_inv [OF empty_node_db_inv])
  have "map_option sp_state (lookup_spawn ''op'' (node_run env_0 calls_2 empty_node_db)) = Some ''completed''"
    by code_simp
  then obtain r where r: "lookup_spawn ''op'' (node_run env_0 calls_2 empty_node_db) = Some r" "sp_state r = ''completed''"
    by auto
  from terminal_spawn_final [OF inv r(1), of env_0 "[restart_2]"] r show ?thesis by auto
qed

text \<open>
  C16. A retired boot stays retired: once another boot has replaced a recorded one, no sequence
  of calls makes the old boot current again, and every call of a journal object of the old boot
  leaves the tables unchanged.
\<close>

theorem retired_boot_fenced:
  assumes "b \<in> fst ` set (node_boots db)" "meta_boot db = Some cur" "cur \<noteq> b"
  shows "meta_boot (node_run env cs db) \<noteq> Some b \<and>
    (\<forall>c self. call_self c = Some self \<and> boot_incarnation self = b \<longrightarrow>
       exec_call env c (node_run env cs db) = node_run env cs db)"
proof -
  have "boots_inv b db" using assms by (simp add: boots_inv_def)
  then have "boots_inv b (node_run env cs db)" by (rule fence.inv_run [OF node_run_steps])
  then show ?thesis using fence_blocks by (auto simp: boots_inv_def)
qed

theorem retired_boot_fenced_witness:
  "exec_call env_0 (MarkDispatched id_1 ''t6'' ''op'' None) (node_run env_0 [] (node_run env_0 (calls_1 @ [restart_2]) empty_node_db)) =
     node_run env_0 [] (node_run env_0 (calls_1 @ [restart_2]) empty_node_db)"
proof -
  have b: "''boot-1'' \<in> fst ` set (node_boots (node_run env_0 (calls_1 @ [restart_2]) empty_node_db))" by code_simp
  have m: "meta_boot (node_run env_0 (calls_1 @ [restart_2]) empty_node_db) = Some ''boot-2''" by code_simp
  have ne: "''boot-2'' \<noteq> ''boot-1''" by simp
  have "call_self (MarkDispatched id_1 ''t6'' ''op'' None) = Some id_1 \<and> boot_incarnation id_1 = ''boot-1''"
    by (simp add: id_1_def)
  with retired_boot_fenced [OF b m ne, of env_0 "[]"] show ?thesis by blast
qed

text \<open>
  C17. The journal is append-only: over any sequence of calls every recorded operation is read
  back unchanged, every stored receipt stays as it was, and the state shown for an operation and
  for its mailbox message is the highest receipt layer recorded for it.
\<close>

theorem history_append_only:
  assumes "node_inv db"
  shows "(read_operation i db = Some op \<longrightarrow> read_operation i (node_run env cs db) = Some op) \<and>
    (lookup_receipt k db = Some r \<longrightarrow> lookup_receipt k (node_run env cs db) = Some r) \<and>
    (\<forall>j \<in> set (journal (node_run env cs db)).
       let ls = op_layers (jo_operation_id (jr_operation j)) (node_run env cs db)
       in jr_state j = (if ls = [] then ''recorded'' else top_layer ls)) \<and>
    (\<forall>m \<in> set (mailbox (node_run env cs db)).
       mb_state m = top_layer (op_layers (mb_operation_id m) (node_run env cs db)))"
  using node_run_history [OF assms, of env cs] node_run_inv [OF assms, of env cs]
  unfolding history_kept_def node_inv_def node_wf_def states_wf_def Let_def by blast

theorem history_append_only_witness:
  "read_operation ''op'' (node_run env_0 [restart_2] (node_run env_0 calls_1 empty_node_db)) = Some op_1"
proof -
  have "read_operation ''op'' (node_run env_0 calls_1 empty_node_db) = Some op_1" by code_simp
  with history_append_only [OF node_run_inv [OF empty_node_db_inv, of env_0 calls_1], of "''op''" op_1 env_0 "[restart_2]"]
  show ?thesis by simp
qed

section \<open>Completion rests on an observation\<close>

definition observed :: "string \<Rightarrow> spawn_detail \<Rightarrow> node_db \<Rightarrow> bool" where
  "observed oid d db \<longleftrightarrow> (\<exists>o' \<in> set (process_observations db). po_operation_id o' = oid \<and>
     po_process_label o' = sd_process_label d \<and> sd_process_identity d = Some (po_pid o', po_start_identity o'))"

definition completion_inv :: "node_db \<Rightarrow> bool" where
  "completion_inv db \<longleftrightarrow>
     (\<forall>i r. lookup_spawn i db = Some r \<longrightarrow> sp_state r = ''completed'' \<longrightarrow> observed i (sp_detail r) db) \<and>
     (\<forall>o' \<in> set (process_observations db). \<not> po_containment_claimed o')"

lemma process_evidence_observed:
  "process_evidence oid d ev False db = Inr u \<Longrightarrow> observed oid d db"
  by (auto simp: process_evidence_def identity_matches_def observed_def split: if_splits option.splits)

lemma observed_mono:
  "observed oid d db \<Longrightarrow> set (process_observations db) \<subseteq> set (process_observations db') \<Longrightarrow>
   sd_process_label d' = sd_process_label d \<Longrightarrow> sd_process_identity d' = sd_process_identity d \<Longrightarrow> observed oid d' db'"
  by (auto simp: observed_def)

lemma spawn_detail_of_Inr [simp]: "spawn_detail_of row oid = Inr d \<longleftrightarrow>
    d = sp_detail row \<and> (\<exists>x. validate_text (sd_process_label (sp_detail row)) ''process_label'' = Inr x)"
  by (auto simp: spawn_detail_of_def split: sum.splits)

lemma set_completed_observed:
  assumes "set_spawn_state self now oid ''completed'' supplied db = Inr (b, db')"
  shows "db' = db \<or> (\<exists>d. observed oid d db \<and>
    db' = update_spawn oid (\<lambda>r. r\<lparr>sp_state := ''completed'', sp_updated_at := now, sp_detail := d\<rparr>) db)"
proof -
  have C: "observed oid d db" if "complete_branch oid cur st supplied db = Inr (Some d)" for cur st d
  proof -
    from that obtain u where "process_evidence oid st supplied False db = Inr u"
      "d = st\<lparr>sd_completion_evidence := Some (stored_evidence (PyDict supplied))\<rparr>"
      by (auto simp: complete_branch_def split: if_splits)
    then show ?thesis by (auto intro: observed_mono dest: process_evidence_observed)
  qed
  show ?thesis
    using assms unfolding set_spawn_state_def
    by (auto split: option.splits if_splits dest!: C)
qed

lemma reconcile_completed_observed:
  assumes "reconcile_spawn self now oid ''completed'' ev db = Inr (x, db')"
  shows "db' = db \<or> (\<exists>d. observed oid d db \<and>
    db' = update_spawn oid (\<lambda>r. r\<lparr>sp_state := ''completed'', sp_updated_at := now, sp_detail := d\<rparr>) db)"
proof -
  have R: "observed oid d db" if "reconcile_evidence oid d ''completed'' ev db = Inr u" for d u
    using that by (auto simp: reconcile_evidence_def dest: process_evidence_observed)
  have S: "observed oid (d\<lparr>sd_reconciled_at := b, sd_reconciled_by_boot := c, sd_reconciliation := a\<rparr>) db = observed oid d db"
    for d a b c by (simp add: observed_def)
  show ?thesis
  proof (cases "db' = db")
    case False
    with reconcile_spawn_Inr [OF assms] obtain row where row: "lookup_spawn oid db = Some row" by blast
    with False assms have "reconcile_evidence oid (sp_detail row) ''completed'' ev db = Inr ()"
      and db': "db' = update_spawn oid (\<lambda>r. r\<lparr>sp_state := ''completed'', sp_updated_at := now,
        sp_detail := (sp_detail row)\<lparr>sd_reconciled_at := Some now,
          sd_reconciled_by_boot := Some (boot_incarnation self),
          sd_reconciliation := Some (stored_evidence (PyDict ev))\<rparr>\<rparr>) db"
      unfolding reconcile_spawn_def by (auto simp: Let_def split: option.splits if_splits)
    then have "observed oid ((sp_detail row)\<lparr>sd_reconciled_at := Some now,
        sd_reconciled_by_boot := Some (boot_incarnation self),
        sd_reconciliation := Some (stored_evidence (PyDict ev))\<rparr>) db" using R S by simp
    with db' show ?thesis by blast
  qed simp
qed

lemma completion_update:
  assumes inv: "completion_inv db"
    and st: "st = ''completed'' \<longrightarrow> observed oid d db"
  shows "completion_inv (update_spawn oid (\<lambda>r. r\<lparr>sp_state := st, sp_updated_at := now, sp_detail := d\<rparr>) db)"
proof -
  have po: "process_observations (update_spawn i f db) = process_observations db" for i f by (simp add: update_spawn_def)
  then have ob: "observed i e (update_spawn j f db) = observed i e db" for i e j f by (simp add: observed_def)
  show ?thesis
    using inv st by (auto simp: completion_inv_def lookup_update_spawn ob po)
qed

lemma completion_cong:
  assumes "completion_inv db" "spawn_states db' = spawn_states db" "process_observations db' = process_observations db"
  shows "completion_inv db'"
  using assms by (simp add: completion_inv_def lookup_spawn_cong [OF assms(2)] observed_def)

lemma completion_observe:
  assumes inv: "completion_inv db"
    and ok: "record_process_observation self now oid label pid start cont db = Inr (x, db')"
  shows "completion_inv db'"
proof -
  obtain row d where r: "lookup_spawn oid db = Some row" "sp_state row \<in> {''dispatched'', ''uncertain'', ''still_running''}"
    and db': "db' = (update_spawn oid (\<lambda>r. r\<lparr>sp_detail := d\<rparr>) db)\<lparr>process_observations := process_observations db @ [x]\<rparr>"
    using record_process_observation_Inr [OF ok] by blast
  have x: "\<not> po_containment_claimed x"
    using ok by (cases pid) (auto simp: record_process_observation_def Let_def split: option.splits if_splits)
  have ob: "observed i e db \<Longrightarrow> observed i e db'" for i e by (erule observed_mono) (auto simp: db')
  have "observed i (sp_detail s) db'" if "lookup_spawn i db' = Some s" "sp_state s = ''completed''" for i s
  proof -
    have "i \<noteq> oid" using that r by (auto simp: db' lookup_update_spawn)
    with that have "lookup_spawn i db = Some s" by (simp add: db' lookup_update_spawn option.map_ident)
    with inv that(2) ob show ?thesis by (simp add: completion_inv_def)
  qed
  with inv x show ?thesis by (simp add: completion_inv_def) (simp add: db')
qed

lemma completion_insert:
  assumes inv: "completion_inv db" and "spawns_wf db"
    and new: "lookup_spawn (sp_operation_id r) db = None" "sp_state r = ''intent''"
  shows "completion_inv (insert_spawn r db)"
proof -
  have po: "process_observations (insert_spawn r db) = process_observations db" by (simp add: insert_spawn_def)
  then have ob: "observed i d (insert_spawn r db) = observed i d db" for i d by (simp add: observed_def)
  have look: "lookup_spawn k (insert_spawn r db) = (if k = sp_operation_id r then Some r else lookup_spawn k db)" for k
    using spn.lookup_insert [OF assms(2) new(1)] .
  have "observed i (sp_detail s) db"
    if "lookup_spawn i (insert_spawn r db) = Some s" "sp_state s = ''completed''" for i s
    using inv that new(2) by (cases "i = sp_operation_id r") (auto simp: look completion_inv_def)
  then show ?thesis using inv unfolding completion_inv_def po ob by blast
qed

lemma completion_retire:
  assumes inv: "completion_inv db"
    and sp: "spawn_states db' = (if q then retire_spawns now (spawn_states db) else spawn_states db)"
    and po: "process_observations db' = process_observations db"
  shows "completion_inv db'"
proof -
  have ret: "find (\<lambda>r. sp_operation_id r = i) (retire_spawns now rows) = Some s \<Longrightarrow> sp_state s = ''completed'' \<Longrightarrow>
      find (\<lambda>r. sp_operation_id r = i) rows = Some s" for i rows s
    unfolding retire_spawns_def by (subst (asm) find_update_where) (auto split: if_splits)
  have "lookup_spawn i db' = Some s \<Longrightarrow> sp_state s = ''completed'' \<Longrightarrow> lookup_spawn i db = Some s" for i s
    unfolding lookup_spawn_def sp by (cases q; simp; rule ret)
  moreover have "observed i d db' = observed i d db" for i d by (simp add: observed_def po)
  ultimately show ?thesis using inv unfolding completion_inv_def po by blast
qed

lemma append_operation_observations:
  "append_operation self now op db = Inr (x, db') \<Longrightarrow> process_observations db' = process_observations db"
  by (drule append_operation_Inr) (auto simp: insert_operation_def)

lemma set_spawn_state_completion:
  assumes inv: "completion_inv db" and ok: "set_spawn_state self now oid state supplied db = Inr (b, db')"
  shows "completion_inv db'"
proof (cases "state = ''completed''")
  case True
  with set_completed_observed [of self now oid supplied db b db'] ok inv show ?thesis
    by (auto intro: completion_update)
next
  case False
  have upd: "completion_inv (update_spawn oid (\<lambda>r. r\<lparr>sp_state := state, sp_updated_at := now, sp_detail := d\<rparr>) db)" for d
    by (rule completion_update [OF inv]) (use False in simp)
  have "db' = db \<or> (\<exists>d. db' = update_spawn oid (\<lambda>r. r\<lparr>sp_state := state, sp_updated_at := now, sp_detail := d\<rparr>) db)"
    using set_spawn_state_Inr [OF ok] by blast
  with upd inv show ?thesis by blast
qed

lemma exec_completion:
  assumes inv: "completion_inv db" and ni: "node_inv db"
  shows "completion_inv (exec_call env c db)"
proof -
  have com: "completion_inv (commit res db)" if "\<And>x db'. res = Inr (x, db') \<Longrightarrow> completion_inv db'"
    for res :: "('a \<times> node_db) result"
    using that inv by (auto simp: commit_def split: sum.split)
  have app: "completion_inv db'" if "append_operation self now op db = Inr (x, db')" for self now op x db'
    using completion_cong [OF inv append_operation_spawns [OF that] append_operation_observations [OF that]] .
  show ?thesis
  proof (cases c)
    case (Open rm rn rb fm fn fb now)
    then show ?thesis by simp (rule com, rule completion_retire [OF inv initialize_Inr(6) initialize_Inr(4)])
  next
    case (BeginSpawn s now op label)
    have sw: "spawns_wf db1" if "append_operation s now op db = Inr (op, db1)" for db1
      using spawns_wf_cong [OF append_operation_spawns [OF that]] ni by (simp add: node_inv_def)
    show ?thesis
      using begin_spawn_cases [of s now op label db] app sw inv BeginSpawn completion_insert
      by (cases "begin_spawn s now op label db") auto
  next
    case (Append s now op)
    then show ?thesis by simp (rule com, erule app)
  next
    case (Enqueue s now mid cid oid pay given)
    then show ?thesis
      by simp (rule com, rule completion_cong [OF inv], auto simp: insert_message_def dest!: enqueue_Inr)
  next
    case (Receipt s now oid layer st ev rid obs)
    then show ?thesis
      by simp (rule com, rule completion_cong [OF inv], auto simp: insert_receipt_def dest!: record_receipt_Inr)
  next
    case (MarkDispatched s now oid label)
    then show ?thesis by (simp add: mark_spawn_dispatched_def) (rule com, erule set_spawn_state_completion [OF inv])
  next
    case (MarkCompleted s now oid ev)
    then show ?thesis
      by (simp add: mark_spawn_completed_def) (rule com, auto dest: set_spawn_state_completion [OF inv])
  next
    case (MarkUncertain s now oid why)
    then show ?thesis
      by (simp add: mark_spawn_uncertain_def) (rule com, auto dest: set_spawn_state_completion [OF inv])
  next
    case (Reconcile s now oid outcome ev)
    have "completion_inv db'" if "reconcile_spawn s now oid outcome ev db = Inr (x, db')" for x db'
      using that reconcile_spawn_Inr [OF that] reconcile_completed_observed [of s now oid ev db x db'] inv
      by (cases "outcome = ''completed''") (auto intro: completion_update)
    with Reconcile show ?thesis by simp (rule com, blast)
  next
    case (Observe s now oid label pid start cont)
    then show ?thesis by simp (rule com, erule completion_observe [OF inv])
  qed
qed

interpretation compl: step_invariant "node_step env" "\<lambda>db. completion_inv db \<and> node_inv db" for env
  by unfold_locales (auto elim!: node_stepE intro: exec_completion exec_inv)

text \<open>
  C18. No completion without an observation: over any sequence of calls on a fresh journal, a
  spawn that shows \<open>completed\<close> has a recorded process observation with the label, the PID and
  the start identity bound to it, and no recorded observation claims OS containment.
\<close>

theorem completed_spawn_observed:
  "(\<forall>i r. lookup_spawn i (node_run env cs empty_node_db) = Some r \<and> sp_state r = ''completed'' \<longrightarrow>
     observed i (sp_detail r) (node_run env cs empty_node_db)) \<and>
   (\<forall>o' \<in> set (process_observations (node_run env cs empty_node_db)). \<not> po_containment_claimed o')"
proof -
  have "completion_inv empty_node_db \<and> node_inv empty_node_db"
    using empty_node_db_inv by (simp add: completion_inv_def) (simp add: empty_node_db_def lookup_spawn_def)
  then have "completion_inv (node_run env cs empty_node_db)"
    using compl.inv_run [OF node_run_steps] by blast
  then show ?thesis by (auto simp: completion_inv_def)
qed

theorem completed_spawn_observed_witness:
  "\<exists>r. lookup_spawn ''op'' (node_run env_0 calls_2 empty_node_db) = Some r \<and>
     observed ''op'' (sp_detail r) (node_run env_0 calls_2 empty_node_db)"
proof -
  have "map_option sp_state (lookup_spawn ''op'' (node_run env_0 calls_2 empty_node_db)) = Some ''completed''"
    by code_simp
  then obtain r where "lookup_spawn ''op'' (node_run env_0 calls_2 empty_node_db) = Some r" "sp_state r = ''completed''"
    by auto
  then show ?thesis using completed_spawn_observed [of env_0 calls_2] by blast
qed

end
