(* ===== verification/Authority_Store.thy ===== *)
theory Authority_Store
  imports Node_Spawn
begin

text \<open>
  The PostgreSQL tables the authority works on (\<open>src/runtime/communication_core_schema.sql\<close> and
  \<open>project_schema.sql\<close>), one record per row and one list per table, in the record
  \<open>authority_db\<close>. Only the columns the modelled statements read or write are fields. An instant
  is a number of microseconds; a nullable column is an option.

  A Domain method runs inside one transaction: it takes the tables and returns \<open>Inl\<close> (rolled
  back) or the new tables. \<open>FOR SHARE\<close>, \<open>FOR UPDATE\<close> and the advisory locks order
  concurrent transactions and change no row, so they leave no trace in the model.
\<close>

record authority_instance =
  ai_authority_id :: string
  ai_incarnation :: string
  ai_status :: string

record scope_row =
  sc_scope_id :: string
  sc_tenant_id :: string
  sc_policy :: pyval
  sc_status :: string

record slot_row =
  as_agent_slot_id :: string
  as_tenant_id :: string
  as_scope_id :: string
  as_status :: string

record grant_row =
  gr_grant_ref :: string
  gr_tenant_id :: string
  gr_principal_ref :: string
  gr_authority_id :: string
  gr_authority_incarnation :: string
  gr_scope_id :: string
  gr_permissions :: "string list"
  gr_expires_at :: "int option"
  gr_revoked_at :: "int option"
  gr_identity_only :: bool

record delegation_row =
  gd_grant_ref :: string
  gd_parent_grant_ref :: string
  gd_parent_policy_digest :: string

record dedup_row =
  dd_tenant_id :: string
  dd_idempotency_key :: string
  dd_command_id :: "string option"
  dd_payload_hash :: string
  dd_hash_version :: string
  dd_canonical_hash :: "string option"
  dd_migration_state :: string
  dd_legacy_command_id :: "string option"
  dd_legacy_record :: "pyval option"
  dd_replay_policy :: string
  dd_result_json :: pyval

record domain_event =
  ev_tenant_id :: string
  ev_work_item_id :: "string option"
  ev_from_state :: "string option"
  ev_to_state :: string
  ev_initiated_by :: string
  ev_lineage_mode :: string
  ev_command_id :: string
  ev_resulting_revision :: int
  ev_canonical_hash :: "string option"
  ev_target_kind :: string
  ev_target_id :: string
  ev_related_work_item_id :: "string option"

record operation_row =
  op_operation_id :: string
  op_tenant_id :: string
  op_command_id :: string
  op_provider :: string
  op_provider_workflow_id :: string
  op_status :: string

record outbox_row =
  ob_tenant_id :: string
  ob_message_id :: string
  ob_operation_id :: string
  ob_topic :: string
  ob_payload :: pyval
  ob_delivered_at :: "int option"

record project_row =
  pj_tenant_id :: string
  pj_project_id :: string
  pj_scope_id :: string
  pj_state :: string

record route_row =
  rt_tenant_id :: string
  rt_project_id :: string
  rt_scope_id :: string

record contact_row =
  ct_tenant_id :: string
  ct_project_id :: string
  ct_principal_ref :: string
  ct_profile :: string
  ct_grant_ref :: string
  ct_agent_slot_id :: string

record client_row =
  cl_tenant_id :: string
  cl_project_id :: string
  cl_address :: string
  cl_principal_ref :: string

record authority_db =
  authority_instances :: "authority_instance list"
  scopes :: "scope_row list"
  agent_slots :: "slot_row list"
  grants :: "grant_row list"
  grant_delegations :: "delegation_row list"
  command_dedup :: "dedup_row list"
  domain_events :: "domain_event list"
  operations :: "operation_row list"
  outbox :: "outbox_row list"
  collaboration_projects :: "project_row list"
  collaboration_routes :: "route_row list"
  collaboration_memberships :: "contact_row list"
  collaboration_team_members :: "(contact_row \<times> string) list"
  communication_clients :: "client_row list"

definition empty_db :: authority_db where
  "empty_db = \<lparr>authority_instances = [], scopes = [], agent_slots = [], grants = [], grant_delegations = [],
     command_dedup = [], domain_events = [], operations = [], outbox = [], collaboration_projects = [],
     collaboration_routes = [], collaboration_memberships = [], collaboration_team_members = [],
     communication_clients = []\<rparr>"

definition lookup_grant :: "string \<Rightarrow> authority_db \<Rightarrow> grant_row option" where
  "lookup_grant ref db = find (\<lambda>g. gr_grant_ref g = ref) (grants db)"

definition lookup_scope :: "string \<Rightarrow> authority_db \<Rightarrow> scope_row option" where
  "lookup_scope i db = find (\<lambda>s. sc_scope_id s = i) (scopes db)"

definition lookup_delegation :: "string \<Rightarrow> authority_db \<Rightarrow> delegation_row option" where
  "lookup_delegation ref db = find (\<lambda>d. gd_grant_ref d = ref) (grant_delegations db)"

definition active_instances :: "string \<Rightarrow> authority_db \<Rightarrow> authority_instance list" where
  "active_instances i db =
     filter (\<lambda>a. ai_authority_id a = i \<and> ai_status a = ''active'') (authority_instances db)"

text \<open>
  The subquery \<open>CONTACTS\<close> of \<open>communication.py\<close>: a membership counts unless its slot has a
  team row, and a team row counts while it is active.
\<close>

definition contacts :: "authority_db \<Rightarrow> contact_row list" where
  "contacts db =
     filter (\<lambda>m. \<not> (\<exists>t \<in> set (map fst (collaboration_team_members db)).
               ct_tenant_id t = ct_tenant_id m \<and> ct_project_id t = ct_project_id m \<and>
               ct_agent_slot_id t = ct_agent_slot_id m)) (collaboration_memberships db)
     @ map fst (filter (\<lambda>t. snd t = ''active'') (collaboration_team_members db))"

lemma lookup_grant_SomeD: "lookup_grant i db = Some g \<Longrightarrow> g \<in> set (grants db) \<and> gr_grant_ref g = i"
  unfolding lookup_grant_def by (drule find_SomeD) simp

lemma lookup_scope_SomeD: "lookup_scope i db = Some s \<Longrightarrow> s \<in> set (scopes db) \<and> sc_scope_id s = i"
  unfolding lookup_scope_def by (drule find_SomeD) simp

end
