(* ===== verification/Domain_Authority.thy ===== *)
theory Domain_Authority
  imports Authority_Store
begin

text \<open>
  \<open>src/runtime/domain.py\<close>: the authority every service asks before it changes anything, and
  \<open>src/runtime/communication_permissions.py\<close>, the project channel rule it consults.

  A \<open>DomainAuthority\<close> object is the record \<open>domain_authority\<close>. \<open>authorize\<close> reads the
  database clock several times; \<open>clk n\<close> is its \<open>n\<close>-th reading. \<open>dedup\<close> is the
  idempotency journal of commands.
\<close>

section \<open>The authority object and its bootstrap\<close>

record domain_authority =
  access_mode :: string
  authority_binding :: "string \<times> string"
  auth_context :: authenticated_context
  owner_identity_ref :: string

definition new_authority :: "authenticated_context \<Rightarrow> string \<times> string \<Rightarrow> string \<Rightarrow> domain_authority result" where
  "new_authority ctx binding amode =
     (if amode \<in> {''owner'', ''shared''}
      then Inr \<lparr>access_mode = amode, authority_binding = binding, auth_context = ctx,
                owner_identity_ref = ctx_grant_ref ctx\<rparr>
      else Inl (ValueError ''unsupported service access mode''))"

definition bootstrap_tables :: "domain_authority \<Rightarrow> authority_db \<Rightarrow> authority_db" where
  "bootstrap_tables self db =
     (let db1 = (if authority_instances db = []
            then db\<lparr>authority_instances := [\<lparr>ai_authority_id = fst (authority_binding self),
                   ai_incarnation = snd (authority_binding self), ai_status = ''active''\<rparr>]\<rparr> else db);
          db2 = (if lookup_scope ''local-scope'' db1 = None
            then db1\<lparr>scopes := scopes db1 @ [\<lparr>sc_scope_id = ''local-scope'', sc_tenant_id = ctx_tenant_id (auth_context self),
                   sc_policy = PyDict [], sc_status = ''active''\<rparr>]\<rparr> else db1)
      in if find (\<lambda>s. as_agent_slot_id s = ''local-slot'') (agent_slots db2) = None
         then db2\<lparr>agent_slots := agent_slots db2 @ [\<lparr>as_agent_slot_id = ''local-slot'',
                as_tenant_id = ctx_tenant_id (auth_context self), as_scope_id = ''local-scope'', as_status = ''active''\<rparr>]\<rparr>
         else db2)"

definition DEFAULT_PERMISSIONS :: "string list" where
  "DEFAULT_PERMISSIONS = [''profile.engineer'', ''message.send'', ''message.read'', ''runtime.invoke'']"

definition YEAR :: int where "YEAR = 365 * 24 * 3600 * 1000000"

definition bootstrap_local_grant ::
  "domain_authority \<Rightarrow> string list \<Rightarrow> bool \<Rightarrow> int \<Rightarrow> authority_db \<Rightarrow> authority_db" where
  "bootstrap_local_grant self permissions preserve_existing now db =
     (let c = auth_context self;
          row = \<lparr>gr_grant_ref = ctx_grant_ref c, gr_tenant_id = ctx_tenant_id c,
                 gr_principal_ref = ctx_principal_ref c, gr_authority_id = ctx_authority_id c,
                 gr_authority_incarnation = ctx_authority_incarnation c, gr_scope_id = ''local-scope'',
                 gr_permissions = permissions, gr_expires_at = Some (now + YEAR), gr_revoked_at = None,
                 gr_identity_only = False\<rparr>;
          existing = lookup_grant (ctx_grant_ref c) db in
      if access_mode self = ''owner''
      then (if existing = None
            then db\<lparr>grants := grants db @
                   [row\<lparr>gr_permissions := [], gr_expires_at := None, gr_identity_only := True\<rparr>]\<rparr> else db)
      else if existing = None then db\<lparr>grants := grants db @ [row]\<rparr>
      else if preserve_existing then db
      else db\<lparr>grants := update_where (\<lambda>g. gr_grant_ref g = ctx_grant_ref c)
             (\<lambda>g. row\<lparr>gr_identity_only := gr_identity_only g\<rparr>) (grants db)\<rparr>)"

section \<open>The project channel\<close>

definition permits_project_message_scope ::
  "authenticated_context \<Rightarrow> command \<Rightarrow> string \<Rightarrow> string \<Rightarrow> authority_db \<Rightarrow> bool" where
  "permits_project_message_scope ctx c sender_scope target_scope db =
     (case (case payload c of PyDict kvs \<Rightarrow> dict_get kvs ''communication_project_id'' | _ \<Rightarrow> None) of
        Some (PyStr project_id) \<Rightarrow>
          (case find (\<lambda>p. pj_tenant_id p = ctx_tenant_id ctx \<and> pj_project_id p = project_id \<and> pj_state p = ''active'')
                 (collaboration_projects db) of
             None \<Rightarrow> False
           | Some project \<Rightarrow>
               let root_scope = pj_scope_id project in
               if sender_scope \<noteq> root_scope \<and> target_scope \<noteq> root_scope then False
               else if \<not> ((\<exists>r \<in> set (collaboration_routes db). rt_tenant_id r = ctx_tenant_id ctx \<and>
                             rt_project_id r = project_id \<and> rt_scope_id r = target_scope) \<or>
                           (\<exists>p \<in> set (collaboration_projects db). pj_tenant_id p = ctx_tenant_id ctx \<and>
                             pj_project_id p = project_id \<and> pj_scope_id p = target_scope)) then False
               else if ctx_trusted_client ctx \<and> sender_scope = root_scope then True
               else (\<exists>k \<in> set (contacts db). \<exists>s \<in> set (agent_slots db).
                       as_agent_slot_id s = ct_agent_slot_id k \<and> ct_tenant_id k = ctx_tenant_id ctx \<and>
                       ct_project_id k = project_id \<and> ct_principal_ref k = ctx_principal_ref ctx \<and>
                       ct_grant_ref k = ctx_grant_ref ctx \<and> as_scope_id s = sender_scope \<and>
                       as_status s = ''active''))
      | _ \<Rightarrow> False)"

text \<open>
  \<open>committed_delivery_context\<close>; \<open>packet_client\<close> is the sender of a packet of schema
  \<open>acs-message/1\<close> whose address starts with \<open>client:\<close>, with its project.
\<close>

definition committed_delivery_context ::
  "command \<Rightarrow> string \<Rightarrow> string \<Rightarrow> string \<Rightarrow> authority_db \<Rightarrow> authenticated_context result" where
  "committed_delivery_context c packet_schema sender project_id db =
     (let client = (packet_schema = ''acs-message/1'' \<and> starts_with ''client:'' sender) in
      if client \<and> \<not> (\<exists>k \<in> set (communication_clients db). cl_tenant_id k = tenant_id c \<and>
           cl_project_id k = project_id \<and> cl_address k = sender \<and> cl_principal_ref k = principal_ref c)
      then Inl (denied (principal_ref c) (grant_ref c))
      else Inr \<lparr>ctx_tenant_id = tenant_id c, ctx_authority_id = authority_id c,
        ctx_authority_incarnation = authority_incarnation c, ctx_principal_ref = principal_ref c,
        ctx_grant_ref = grant_ref c, ctx_credential_hash = [], ctx_agent_slot_id = None,
        ctx_trusted_client = client\<rparr>)"

section \<open>Authorization\<close>

abbreviation refused :: "command \<Rightarrow> exn" where
  "refused c \<equiv> denied (principal_ref c) (grant_ref c)"

definition payload_get :: "command \<Rightarrow> string \<Rightarrow> pyval option" where
  "payload_get c k = (case payload c of PyDict kvs \<Rightarrow> dict_get kvs k | _ \<Rightarrow> None)"

definition natural_message :: "command \<Rightarrow> bool" where
  "natural_message c \<longleftrightarrow> command_type c = ''message.send'' \<and>
     payload_get c ''schema_version'' \<in> {Some (PyStr ''acs-message/1''), Some (PyStr ''acs-notice/1'')}"

definition command_identity :: "command \<Rightarrow> string \<times> string \<times> string \<times> string \<times> string" where
  "command_identity c = (tenant_id c, authority_id c, authority_incarnation c, principal_ref c, grant_ref c)"

definition context_identity :: "authenticated_context \<Rightarrow> string \<times> string \<times> string \<times> string \<times> string" where
  "context_identity x = (ctx_tenant_id x, ctx_authority_id x, ctx_authority_incarnation x, ctx_principal_ref x, ctx_grant_ref x)"

definition past_deadline :: "command \<Rightarrow> int \<Rightarrow> bool" where
  "past_deadline c now \<longleftrightarrow> (case deadline c of None \<Rightarrow> False | Some d \<Rightarrow> instant d \<le> now)"

text \<open>
  The recursive query of \<open>_authorize_delegation\<close>. \<open>ancestry db n ref path\<close> are the rows
  below \<open>ref\<close> when \<open>n\<close> more levels may be joined; a row is a Grant reference, its depth and
  whether it closes a cycle. At most nine parents are joined.
\<close>

fun ancestry :: "authority_db \<Rightarrow> nat \<Rightarrow> nat \<Rightarrow> string \<Rightarrow> string list \<Rightarrow> bool \<Rightarrow> (string \<times> nat \<times> bool) list" where
  "ancestry db n depth ref path cyc =
     (ref, depth, cyc) #
     (case n of
        0 \<Rightarrow> []
      | Suc m \<Rightarrow>
          (if cyc then []
           else case lookup_delegation ref db of
             None \<Rightarrow> []
           | Some d \<Rightarrow>
               ancestry db m (depth + 1) (gd_parent_grant_ref d) (path @ [gd_parent_grant_ref d])
                 (gd_parent_grant_ref d \<in> set path)))"

declare ancestry.simps [simp del]

record chain_row =
  ch_ref :: string
  ch_depth :: nat
  ch_cycle :: bool
  ch_grant :: grant_row
  ch_scope :: scope_row
  ch_digest :: "string option"

definition chain_row_of :: "authority_db \<Rightarrow> string \<times> nat \<times> bool \<Rightarrow> chain_row option" where
  "chain_row_of db r =
     (case lookup_grant (fst r) db of
        None \<Rightarrow> None
      | Some g \<Rightarrow>
          (case lookup_scope (gr_scope_id g) db of
             None \<Rightarrow> None
           | Some s \<Rightarrow> Some \<lparr>ch_ref = fst r, ch_depth = fst (snd r), ch_cycle = snd (snd r), ch_grant = g, ch_scope = s,
                              ch_digest = map_option gd_parent_policy_digest (lookup_delegation (fst r) db)\<rparr>))"

definition grant_chain :: "authority_db \<Rightarrow> string \<Rightarrow> chain_row list" where
  "grant_chain db ref = rev (List.map_filter (chain_row_of db) (ancestry db 9 0 ref [ref] False))"

definition policy_digest :: "hash_env \<Rightarrow> scope_row \<Rightarrow> string" where
  "policy_digest env s = sha256_hex env (canonical_json True (sc_policy s))"

definition row_live :: "command \<Rightarrow> string \<Rightarrow> int \<Rightarrow> chain_row \<Rightarrow> unit result" where
  "row_live c permission now r =
     (let g = ch_grant r in
      if gr_tenant_id g \<noteq> tenant_id c \<or> permission \<notin> expanded_permissions (gr_permissions g) then Inl (refused c)
      else case gr_expires_at g of
        None \<Rightarrow> Inl (TypeError ''expires_at <= now'')
      | Some e \<Rightarrow> guard (now < e \<and> gr_revoked_at g = None \<and> sc_status (ch_scope r) = ''active'' \<and>
           (gr_authority_id g, gr_authority_incarnation g) = (authority_id c, authority_incarnation c)) (refused c))"

definition row_attenuates :: "hash_env \<Rightarrow> chain_row \<Rightarrow> chain_row \<Rightarrow> bool" where
  "row_attenuates env parent r \<longleftrightarrow>
     ch_digest r = Some (policy_digest env (ch_scope parent)) \<and>
     set (gr_permissions (ch_grant r)) \<subseteq> expanded_permissions (gr_permissions (ch_grant parent)) \<and>
     (case (gr_expires_at (ch_grant r), gr_expires_at (ch_grant parent)) of
        (Some e, Some p) \<Rightarrow> e \<le> p | _ \<Rightarrow> False)"

fun check_chain :: "hash_env \<Rightarrow> command \<Rightarrow> string \<Rightarrow> int \<Rightarrow> chain_row option \<Rightarrow> chain_row list \<Rightarrow> unit result" where
  "check_chain env c permission now parent [] = Inr ()"
| "check_chain env c permission now parent (r # rows) =
     rbind (row_live c permission now r) (\<lambda>_.
     if (case parent of None \<Rightarrow> False | Some p \<Rightarrow> \<not> row_attenuates env p r) then Inl (refused c)
     else check_chain env c permission now (Some r) rows)"

definition authorize_delegation ::
  "hash_env \<Rightarrow> domain_authority \<Rightarrow> int \<Rightarrow> command \<Rightarrow> string \<Rightarrow> authority_db \<Rightarrow> unit result" where
  "authorize_delegation env self now c permission db =
     (if access_mode self = ''owner''
      then (case find (\<lambda>g. gr_tenant_id g = tenant_id c \<and> gr_grant_ref g = grant_ref c \<and>
                      gr_principal_ref g = principal_ref c) (grants db) of
              None \<Rightarrow> Inl (refused c)
            | Some g \<Rightarrow> guard (gr_revoked_at g = None) (refused c))
      else
        let chain = grant_chain db (grant_ref c) in
        if chain = [] \<or> 8 < ch_depth (hd chain) \<or> (\<exists>r \<in> set chain. ch_cycle r) then Inl (refused c)
        else check_chain env c permission now None chain)"

definition authorize_owner ::
  "domain_authority \<Rightarrow> int \<Rightarrow> command \<Rightarrow> string option \<Rightarrow> authority_db \<Rightarrow> unit result" where
  "authorize_owner self now c scope_id db =
     (let current = auth_context self;
          wanted = {owner_identity_ref self, ctx_grant_ref current};
          identities = filter (\<lambda>g. gr_tenant_id g = ctx_tenant_id current \<and> gr_grant_ref g \<in> wanted) (grants db);
          reject = (\<lambda>why. Inl (IdentityRejected (principal_ref c) (grant_ref c) why)) in
      if past_deadline c now then Inl (BusinessDeadlineExpired (target_id c))
      else if command_identity c \<noteq> context_identity current then reject ''identity_mismatch''
      else if \<not> ((\<exists>a \<in> set (authority_instances db). ai_authority_id a = ctx_authority_id current \<and>
                    ai_incarnation a = ctx_authority_incarnation current \<and> ai_status a = ''active'') \<and>
                  length (active_instances (ctx_authority_id current) db) = 1)
      then reject ''service_identity_inactive''
      else if (case scope_id of None \<Rightarrow> False
               | Some i \<Rightarrow> \<not> (\<exists>s \<in> set (scopes db). sc_tenant_id s = ctx_tenant_id current \<and> sc_scope_id s = i \<and>
                                sc_status s = ''active''))
      then reject ''scope_unavailable''
      else if gr_grant_ref ` set identities \<noteq> wanted \<or> (\<exists>g \<in> set identities. gr_revoked_at g \<noteq> None)
      then reject ''identity_revoked''
      else Inr ())"

text \<open>The joined query of \<open>_authorize\<close>, with the clock reading inside its \<open>WHERE\<close>.\<close>

definition live_grant :: "authenticated_context \<Rightarrow> int \<Rightarrow> authority_db \<Rightarrow> grant_row option" where
  "live_grant current now db =
     find (\<lambda>g. gr_grant_ref g = ctx_grant_ref current \<and> gr_tenant_id g = ctx_tenant_id current \<and>
        gr_principal_ref g = ctx_principal_ref current \<and> gr_authority_id g = ctx_authority_id current \<and>
        gr_authority_incarnation g = ctx_authority_incarnation current \<and>
        (\<exists>a \<in> set (authority_instances db). ai_authority_id a = gr_authority_id g \<and>
           ai_incarnation a = gr_authority_incarnation g \<and> ai_status a = ''active'') \<and>
        length (active_instances (gr_authority_id g) db) = 1 \<and>
        (case lookup_scope (gr_scope_id g) db of None \<Rightarrow> False
         | Some s \<Rightarrow> sc_tenant_id s = ctx_tenant_id current \<and> sc_status s = ''active'') \<and>
        gr_revoked_at g = None \<and> (case gr_expires_at g of None \<Rightarrow> False | Some e \<Rightarrow> now < e)) (grants db)"

definition authorize ::
  "hash_env \<Rightarrow> domain_authority \<Rightarrow> (nat \<Rightarrow> int) \<Rightarrow> command \<Rightarrow> string \<Rightarrow> string option \<Rightarrow> int \<Rightarrow> authority_db
     \<Rightarrow> unit result" where
  "authorize env self clk c permission scope_id clock_skew_seconds db =
     (if access_mode self = ''owner'' then authorize_owner self (clk 0) c scope_id db
      else if \<not> (0 \<le> clock_skew_seconds \<and> clock_skew_seconds \<le> 30) then Inl (refused c)
      else
        let skew = clock_skew_seconds * 1000000; current = auth_context self in
        if \<not> aware (issued_at c) \<or> deadline c = None \<and> \<not> natural_message c
           \<or> (case deadline c of None \<Rightarrow> False | Some d \<Rightarrow> \<not> aware d \<or> instant d \<le> clk 0)
           \<or> clk 0 + skew < instant (issued_at c)
        then Inl (refused c)
        else if command_identity c \<noteq> context_identity current then Inl (refused c)
        else rbind (authorize_delegation env self (clk 1) c permission db) (\<lambda>_.
        case live_grant current (clk 2) db of
          None \<Rightarrow> Inl (refused c)
        | Some g \<Rightarrow>
            let scope_allowed = (case scope_id of None \<Rightarrow> True | Some i \<Rightarrow> gr_scope_id g = i) \<or>
                  natural_message c \<and> permission \<in> {''message.send'', ''message.read'', ''runtime.invoke''} \<and>
                  (case scope_id of None \<Rightarrow> False
                   | Some i \<Rightarrow> permits_project_message_scope current c (gr_scope_id g) i db)
            in guard (\<not> past_deadline c (clk 3) \<and> instant (issued_at c) \<le> clk 3 + skew \<and>
                      (case gr_expires_at g of None \<Rightarrow> False | Some e \<Rightarrow> clk 3 < e) \<and>
                      permission \<in> expanded_permissions (gr_permissions g) \<and> scope_allowed) (refused c)))"

section \<open>What a successful authorization has checked\<close>

definition parent_of :: "authority_db \<Rightarrow> string \<Rightarrow> string \<Rightarrow> bool" where
  "parent_of db r p \<longleftrightarrow> (\<exists>d. lookup_delegation r db = Some d \<and> gd_parent_grant_ref d = p)"

text \<open>The foreign keys of the schema that the joins rely on.\<close>

definition fk_wf :: "authority_db \<Rightarrow> bool" where
  "fk_wf db \<longleftrightarrow>
     (\<forall>d \<in> set (grant_delegations db). lookup_grant (gd_parent_grant_ref d) db \<noteq> None) \<and>
     (\<forall>g \<in> set (grants db). lookup_scope (gr_scope_id g) db \<noteq> None)"

lemma ancestry_hd: "\<exists>rest. ancestry db n depth ref path cyc = (ref, depth, cyc) # rest"
  by (simp add: ancestry.simps [of db n])

lemma ancestry_depths:
  "map (fst \<circ> snd) (ancestry db n depth ref path cyc) = [depth ..< depth + length (ancestry db n depth ref path cyc)]"
proof (induction n arbitrary: depth ref path cyc)
  case (Suc m)
  show ?case
  proof (cases "cyc \<or> lookup_delegation ref db = None")
    case True
    then show ?thesis by (auto simp: ancestry.simps [of db "Suc m"])
  next
    case False
    then obtain d where d: "lookup_delegation ref db = Some d" "\<not> cyc" by blast
    let ?rest = "ancestry db m (depth + 1) (gd_parent_grant_ref d) (path @ [gd_parent_grant_ref d])
      (gd_parent_grant_ref d \<in> set path)"
    have eq: "ancestry db (Suc m) depth ref path cyc = (ref, depth, cyc) # ?rest"
      using d by (simp add: ancestry.simps [of db "Suc m"])
    have "[depth ..< depth + Suc (length ?rest)] = depth # [depth + 1 ..< depth + 1 + length ?rest]"
      by (subst upt_conv_Cons) simp_all
    also have "\<dots> = map (fst \<circ> snd) ((ref, depth, cyc) # ?rest)" by (simp only: Suc.IH list.map comp_apply fst_conv snd_conv)
    finally show ?thesis unfolding eq by simp
  qed
qed (simp add: ancestry.simps [of db 0])

lemma ancestry_complete:
  assumes "\<forall>x \<in> set (ancestry db n depth ref path cyc). \<not> snd (snd x) \<and> fst (snd x) < depth + n"
    and "(parent_of db)\<^sup>*\<^sup>* ref a"
  shows "a \<in> fst ` set (ancestry db n depth ref path cyc)"
  using assms
proof (induction n arbitrary: depth ref path cyc)
  case 0
  then show ?case by (simp add: ancestry.simps [of db 0])
next
  case (Suc m)
  have cyc: "\<not> cyc" using Suc.prems(1) ancestry_hd [of db "Suc m" depth ref path cyc] by auto
  from Suc.prems(2) show ?case
  proof (cases rule: converse_rtranclpE)
    case base
    then show ?thesis using ancestry_hd [of db "Suc m" depth ref path cyc] by force
  next
    case (step p)
    then obtain d where d: "lookup_delegation ref db = Some d" "gd_parent_grant_ref d = p"
      by (auto simp: parent_of_def)
    have eq: "ancestry db (Suc m) depth ref path cyc =
        (ref, depth, cyc) # ancestry db m (depth + 1) p (path @ [p]) (p \<in> set path)"
      using d cyc by (simp add: ancestry.simps [of db "Suc m"])
    have "a \<in> fst ` set (ancestry db m (depth + 1) p (path @ [p]) (p \<in> set path))"
      using Suc.prems(1) step(2) by (intro Suc.IH) (auto simp: eq)
    then show ?thesis by (simp add: eq)
  qed
qed

lemma lookup_delegation_SomeD: "lookup_delegation i db = Some d \<Longrightarrow> d \<in> set (grant_delegations db)"
  unfolding lookup_delegation_def by (drule find_SomeD) simp

lemma ancestry_joined:
  assumes "fk_wf db" "lookup_grant ref db \<noteq> None"
  shows "\<forall>x \<in> set (ancestry db n depth ref path cyc). \<exists>g. lookup_grant (fst x) db = Some g"
  using assms(2)
proof (induction n arbitrary: depth ref path cyc)
  case (Suc m)
  show ?case
  proof (cases "cyc \<or> lookup_delegation ref db = None")
    case False
    then obtain d where d: "lookup_delegation ref db = Some d" "\<not> cyc" by blast
    then have "lookup_grant (gd_parent_grant_ref d) db \<noteq> None"
      using assms(1) lookup_delegation_SomeD by (auto simp: fk_wf_def)
    from Suc.IH [OF this] d Suc.prems show ?thesis by (auto simp: ancestry.simps [of db "Suc m"])
  qed (use Suc.prems in \<open>auto simp: ancestry.simps [of db "Suc m"]\<close>)
qed (auto simp: ancestry.simps [of db 0])

lemma map_filter_total:
  "\<forall>x \<in> set xs. f x \<noteq> None \<Longrightarrow> List.map_filter f xs = map (the \<circ> f) xs"
  by (induction xs) (auto simp: map_filter_simps)

lemma grant_chain_total:
  assumes "fk_wf db" "lookup_grant ref db \<noteq> None"
  shows "grant_chain db ref = rev (map (the \<circ> chain_row_of db) (ancestry db 9 0 ref [ref] False))"
proof -
  have "chain_row_of db x \<noteq> None" if "x \<in> set (ancestry db 9 0 ref [ref] False)" for x
    using ancestry_joined [OF assms, of 9 0 "[ref]" False] that assms(1)
    by (fastforce simp: chain_row_of_def fk_wf_def dest: lookup_grant_SomeD split: option.splits)
  then show ?thesis by (simp add: grant_chain_def map_filter_total)
qed

lemma chain_row_of_Some:
  "chain_row_of db x = Some r \<longleftrightarrow> (\<exists>g s. lookup_grant (fst x) db = Some g \<and> lookup_scope (gr_scope_id g) db = Some s \<and>
     r = \<lparr>ch_ref = fst x, ch_depth = fst (snd x), ch_cycle = snd (snd x), ch_grant = g, ch_scope = s,
          ch_digest = map_option gd_parent_policy_digest (lookup_delegation (fst x) db)\<rparr>)"
  by (auto simp: chain_row_of_def split: option.splits)

lemma row_live_Inr:
  assumes "row_live c permission now r = Inr u"
  shows "gr_tenant_id (ch_grant r) = tenant_id c \<and> permission \<in> expanded_permissions (gr_permissions (ch_grant r)) \<and>
    (\<exists>e. gr_expires_at (ch_grant r) = Some e \<and> now < e) \<and> gr_revoked_at (ch_grant r) = None \<and>
    sc_status (ch_scope r) = ''active'' \<and> gr_authority_id (ch_grant r) = authority_id c \<and>
    gr_authority_incarnation (ch_grant r) = authority_incarnation c"
  using assms unfolding row_live_def by (auto simp: Let_def split: option.splits if_splits)

definition attenuates :: "chain_row \<Rightarrow> chain_row \<Rightarrow> bool" where
  "attenuates p r \<longleftrightarrow>
     set (gr_permissions (ch_grant r)) \<subseteq> expanded_permissions (gr_permissions (ch_grant p)) \<and>
     (\<exists>e f. gr_expires_at (ch_grant r) = Some e \<and> gr_expires_at (ch_grant p) = Some f \<and> e \<le> f)"

lemma attenuates_trans: "transp attenuates"
proof (rule transpI)
  fix a b c
  assume ab: "attenuates a b" and bc: "attenuates b c"
  have "set (gr_permissions (ch_grant c)) \<subseteq> expanded_permissions (gr_permissions (ch_grant b))"
    using bc by (simp add: attenuates_def)
  also have "\<dots> \<subseteq> expanded_permissions (gr_permissions (ch_grant a))"
    using ab by (intro expanded_mono) (simp add: attenuates_def)
  finally show "attenuates a c" using ab bc by (auto simp: attenuates_def)
qed

lemma row_attenuates_weaken: "row_attenuates env p r \<Longrightarrow> attenuates p r"
  by (auto simp: row_attenuates_def attenuates_def split: option.splits)

lemma check_chain_Inr:
  assumes "check_chain env c permission now parent rows = Inr u"
  shows "(\<forall>r \<in> set rows. row_live c permission now r = Inr ()) \<and>
    successively attenuates (case parent of None \<Rightarrow> rows | Some p \<Rightarrow> p # rows)"
  using assms
proof (induction rows arbitrary: parent)
  case (Cons r rows)
  then have live: "row_live c permission now r = Inr ()"
    and att: "case parent of None \<Rightarrow> True | Some p \<Rightarrow> attenuates p r"
    and rest: "check_chain env c permission now (Some r) rows = Inr u"
    by (auto split: if_splits option.splits dest: row_attenuates_weaken)
  from Cons.IH [OF rest] live att show ?case by (auto split: option.splits)
qed (auto split: option.splits)

lemma check_chain_leaf:
  assumes "check_chain env c permission now None rows = Inr u" "rows \<noteq> []" "r \<in> set rows"
  shows "attenuates r (last rows)"
proof -
  note inv = check_chain_Inr [OF assms(1)]
  then have live: "row_live c permission now r = Inr ()" using assms(3) by blast
  from inv have sw: "sorted_wrt attenuates rows"
    by (simp add: successively_conv_sorted_wrt attenuates_trans)
  obtain ys where ys: "rows = ys @ [last rows]" using assms(2) by (metis append_butlast_last_id)
  show ?thesis
  proof (cases "r \<in> set ys")
    case True
    with sw ys show ?thesis by (metis sorted_wrt_append list.set_intros(1))
  next
    case False
    with assms(3) ys have "r = last rows" by (metis Un_iff empty_iff empty_set insert_iff list.simps(15) set_append)
    then show ?thesis
      using row_live_Inr [OF live] expanded_superset by (auto simp: attenuates_def)
  qed
qed

lemma live_grant_Some:
  assumes "live_grant x now db = Some g"
  shows "lookup_grant (ctx_grant_ref x) db \<noteq> None \<and> g \<in> set (grants db) \<and> gr_grant_ref g = ctx_grant_ref x \<and>
    gr_principal_ref g = ctx_principal_ref x \<and> gr_tenant_id g = ctx_tenant_id x \<and> gr_revoked_at g = None"
  using find_SomeD [OF assms [unfolded live_grant_def]]
  by (auto simp: lookup_grant_def find_None_iff_all)

lemma authorize_shared_Inr:
  assumes "authorize env self clk c permission scope_id skew db = Inr u" "access_mode self \<noteq> ''owner''"
  shows "command_identity c = context_identity (auth_context self) \<and>
    authorize_delegation env self (clk 1) c permission db = Inr () \<and>
    (\<exists>g. live_grant (auth_context self) (clk 2) db = Some g \<and>
       permission \<in> expanded_permissions (gr_permissions g) \<and> \<not> past_deadline c (clk 3) \<and>
       (\<exists>e. gr_expires_at g = Some e \<and> clk 3 < e) \<and>
       ((case scope_id of None \<Rightarrow> True | Some i \<Rightarrow> gr_scope_id g = i) \<or>
        natural_message c \<and> permission \<in> {''message.send'', ''message.read'', ''runtime.invoke''} \<and>
        (\<exists>i. scope_id = Some i \<and> permits_project_message_scope (auth_context self) c (gr_scope_id g) i db)))"
  using assms unfolding authorize_def
  by (auto simp: Let_def split: if_splits option.splits)

text \<open>An identity of the owner: a Grant row of the tenant, none of whose rows is revoked.\<close>

definition unrevoked :: "authority_db \<Rightarrow> string \<Rightarrow> string \<Rightarrow> bool" where
  "unrevoked db tenant ref \<longleftrightarrow> (\<exists>g \<in> set (grants db). gr_tenant_id g = tenant \<and> gr_grant_ref g = ref) \<and>
     (\<forall>g \<in> set (grants db). gr_tenant_id g = tenant \<and> gr_grant_ref g = ref \<longrightarrow> gr_revoked_at g = None)"

definition sole_active :: "authority_db \<Rightarrow> string \<Rightarrow> string \<Rightarrow> bool" where
  "sole_active db authority incarnation \<longleftrightarrow>
     (\<exists>a \<in> set (authority_instances db). ai_authority_id a = authority \<and> ai_incarnation a = incarnation \<and> ai_status a = ''active'') \<and>
     length (active_instances authority db) = 1"

definition active_scope :: "authority_db \<Rightarrow> string \<Rightarrow> string \<Rightarrow> bool" where
  "active_scope db tenant i \<longleftrightarrow> (\<exists>s \<in> set (scopes db). sc_tenant_id s = tenant \<and> sc_scope_id s = i \<and> sc_status s = ''active'')"

lemma authorize_owner_Inr:
  assumes "authorize env self clk c permission scope_id skew db = Inr u" "access_mode self = ''owner''"
  shows "command_identity c = context_identity (auth_context self) \<and> \<not> past_deadline c (clk 0) \<and>
    sole_active db (authority_id c) (authority_incarnation c) \<and> (\<forall>i. scope_id = Some i \<longrightarrow> active_scope db (tenant_id c) i) \<and>
    unrevoked db (tenant_id c) (owner_identity_ref self) \<and> unrevoked db (tenant_id c) (grant_ref c)"
proof -
  let ?x = "auth_context self"
  let ?wanted = "{owner_identity_ref self, ctx_grant_ref ?x}"
  let ?ids = "filter (\<lambda>g. gr_tenant_id g = ctx_tenant_id ?x \<and> gr_grant_ref g \<in> ?wanted) (grants db)"
  from assms have run: "authorize_owner self (clk 0) c scope_id db = Inr u" by (simp add: authorize_def)
  then have same: "command_identity c = context_identity ?x" and dl: "\<not> past_deadline c (clk 0)"
    and ids: "gr_grant_ref ` set ?ids = ?wanted" "\<forall>g \<in> set ?ids. gr_revoked_at g = None"
    and act: "sole_active db (ctx_authority_id ?x) (ctx_authority_incarnation ?x)"
    and sc: "\<forall>i. scope_id = Some i \<longrightarrow> active_scope db (ctx_tenant_id ?x) i"
    unfolding authorize_owner_def Let_def sole_active_def active_scope_def by (auto split: if_splits)
  have un: "unrevoked db (ctx_tenant_id ?x) r" if r: "r \<in> ?wanted" for r
  proof -
    from r ids(1) have "r \<in> gr_grant_ref ` set ?ids" by blast
    then have "\<exists>g \<in> set (grants db). gr_tenant_id g = ctx_tenant_id ?x \<and> gr_grant_ref g = r" by auto
    moreover have "gr_revoked_at g = None" if "g \<in> set (grants db)" "gr_tenant_id g = ctx_tenant_id ?x" "gr_grant_ref g = r" for g
      using ids(2) that r by simp
    ultimately show ?thesis unfolding unrevoked_def by blast
  qed
  from same have "tenant_id c = ctx_tenant_id ?x" "authority_id c = ctx_authority_id ?x"
    "authority_incarnation c = ctx_authority_incarnation ?x" "grant_ref c = ctx_grant_ref ?x"
    by (simp_all add: command_identity_def context_identity_def)
  then show ?thesis using same dl act sc un by simp
qed

lemma authorize_shared_sole:
  assumes "authorize env self clk c permission scope_id skew db = Inr u" "access_mode self \<noteq> ''owner''"
  shows "sole_active db (authority_id c) (authority_incarnation c)"
proof -
  note inv = authorize_shared_Inr [OF assms]
  then obtain g where "live_grant (auth_context self) (clk 2) db = Some g" by blast
  from find_SomeD [OF this [unfolded live_grant_def]] inv show ?thesis
    by (auto simp: sole_active_def command_identity_def context_identity_def)
qed

lemma grant_chain_refs:
  assumes "fk_wf db" "lookup_grant ref db \<noteq> None"
    and ok: "ch_depth (hd (grant_chain db ref)) \<le> 8" "\<forall>r \<in> set (grant_chain db ref). \<not> ch_cycle r"
    and anc: "(parent_of db)\<^sup>*\<^sup>* ref a"
  shows "\<exists>r \<in> set (grant_chain db ref). ch_ref r = a \<and> lookup_grant a db = Some (ch_grant r)"
    and "ch_ref (last (grant_chain db ref)) = ref" and "length (grant_chain db ref) \<le> 9"
proof -
  let ?a = "ancestry db 9 0 ref [ref] False"
  note total = grant_chain_total [OF assms(1,2)]
  have some: "\<exists>r. chain_row_of db x = Some r" if "x \<in> set ?a" for x
    using ancestry_joined [OF assms(1,2), of 9 0 "[ref]" False] that assms(1)
    by (fastforce simp: chain_row_of_def fk_wf_def dest: lookup_grant_SomeD split: option.splits)
  have row: "ch_ref (the (chain_row_of db x)) = fst x \<and> ch_depth (the (chain_row_of db x)) = fst (snd x) \<and>
      ch_cycle (the (chain_row_of db x)) = snd (snd x) \<and> lookup_grant (fst x) db = Some (ch_grant (the (chain_row_of db x)))"
    if "x \<in> set ?a" for x
    using some [OF that] by (auto simp: chain_row_of_def split: option.splits)
  have ne: "?a \<noteq> []" using ancestry_hd [of db 9 0 ref "[ref]" False] by auto
  have hd_last: "hd (grant_chain db ref) = the (chain_row_of db (last ?a))"
    unfolding total using ne by (simp add: hd_rev last_map)
  have lst: "(fst \<circ> snd) (last ?a) = length ?a - 1"
    using ancestry_depths [of db 9 0 ref "[ref]" False] ne
    by (metis add_0 last_map last_upt length_greater_0_conv)
  have len: "length ?a \<le> 9"
    using ok(1) row [OF last_in_set [OF ne]] lst hd_last by simp
  then show "length (grant_chain db ref) \<le> 9" by (simp add: total)
  have depth: "fst (snd x) < 0 + 9" if "x \<in> set ?a" for x
  proof -
    have "(fst \<circ> snd) x \<in> set [0 ..< 0 + length ?a]"
      using ancestry_depths [of db 9 0 ref "[ref]" False] that by (metis image_eqI list.set_map)
    then show ?thesis using len by simp
  qed
  have "\<forall>x \<in> set ?a. \<not> snd (snd x) \<and> fst (snd x) < 0 + 9"
    using ok(2) row depth by (fastforce simp: total)
  from ancestry_complete [OF this anc] obtain x where x: "x \<in> set ?a" "fst x = a" by auto
  then show "\<exists>r \<in> set (grant_chain db ref). ch_ref r = a \<and> lookup_grant a db = Some (ch_grant r)"
    using row [OF x(1)] unfolding total by auto
  obtain rest where h: "?a = (ref, 0, False) # rest" using ancestry_hd [of db 9 0 ref "[ref]" False] by auto
  then show "ch_ref (last (grant_chain db ref)) = ref"
    using row [of "(ref, 0, False)"] unfolding total by simp
qed

section \<open>Properties of authorization\<close>

lemma delegation_chain:
  assumes "authorize_delegation env self now c permission db = Inr u" "access_mode self \<noteq> ''owner''"
  shows "grant_chain db (grant_ref c) \<noteq> [] \<and> ch_depth (hd (grant_chain db (grant_ref c))) \<le> 8 \<and>
    (\<forall>r \<in> set (grant_chain db (grant_ref c)). \<not> ch_cycle r) \<and>
    check_chain env c permission now None (grant_chain db (grant_ref c)) = Inr ()"
  using assms unfolding authorize_delegation_def by (auto simp: Let_def split: if_splits)

lemma shared_ancestry_live:
  assumes "authorize env self clk c permission scope_id skew db = Inr ()"
    and shared: "access_mode self \<noteq> ''owner''" and "fk_wf db" and "(parent_of db)\<^sup>*\<^sup>* (grant_ref c) a"
  shows "\<exists>g leaf e f. lookup_grant a db = Some g \<and> lookup_grant (grant_ref c) db = Some leaf \<and>
    gr_revoked_at g = None \<and> gr_tenant_id g = tenant_id c \<and> gr_authority_id g = authority_id c \<and>
    gr_authority_incarnation g = authority_incarnation c \<and>
    permission \<in> expanded_permissions (gr_permissions g) \<and>
    set (gr_permissions leaf) \<subseteq> expanded_permissions (gr_permissions g) \<and>
    gr_expires_at leaf = Some e \<and> gr_expires_at g = Some f \<and> clk 1 < f \<and> e \<le> f"
proof -
  note inv = authorize_shared_Inr [OF assms(1) shared]
  then have same: "grant_ref c = ctx_grant_ref (auth_context self)"
    by (simp add: command_identity_def context_identity_def)
  then have leaf: "lookup_grant (grant_ref c) db \<noteq> None" using inv live_grant_Some by metis
  let ?chain = "grant_chain db (grant_ref c)"
  have del: "authorize_delegation env self (clk 1) c permission db = Inr ()" using inv by blast
  note ch = delegation_chain [OF del shared]
  note refs = grant_chain_refs [OF assms(3) leaf _ _ assms(4)]
  obtain r where r: "r \<in> set ?chain" "lookup_grant a db = Some (ch_grant r)" using refs(1) ch by blast
  have "(parent_of db)\<^sup>*\<^sup>* (grant_ref c) (grant_ref c)" by simp
  have last_ref: "ch_ref (last ?chain) = grant_ref c" using refs(2) ch by blast
  have "lookup_grant (grant_ref c) db = Some (ch_grant (last ?chain))"
  proof -
    have "last ?chain \<in> set ?chain" using ch by simp
    then obtain x where "chain_row_of db x = Some (last ?chain)"
      by (auto simp: grant_chain_def List.map_filter_def)
    then show ?thesis using last_ref by (auto simp: chain_row_of_Some)
  qed
  moreover have "attenuates r (last ?chain)" using check_chain_leaf r(1) ch by blast
  moreover have "row_live c permission (clk 1) r = Inr ()" using check_chain_Inr ch r(1) by blast
  ultimately show ?thesis
    using r(2) row_live_Inr [of c permission "clk 1" r "()"] by (auto simp: attenuates_def)
qed

text \<open>
  C19. An authorized command acts on a live identity, in both access modes. It comes from the
  context of the service, at the one active incarnation of its authority. In owner mode, where
  permissions are not consulted, the Grant of the command and the owner's own are rows of the tenant and
  not revoked. In shared mode a delegated Grant never exceeds what it descends from: every Grant
  from which the command's Grant was delegated, however far up, exists, is not revoked, had not expired
  when the chain was read, belongs to the tenant and the authority incarnation of the command and covers
  the permission; and the permissions of the command's Grant lie within it and its lifetime does not
  outlast it.
\<close>

theorem authorized_ancestry_live:
  assumes ok: "authorize env self clk c permission scope_id skew db = Inr ()" and fk: "fk_wf db"
  shows "command_identity c = context_identity (auth_context self) \<and> sole_active db (authority_id c) (authority_incarnation c) \<and>
    (if access_mode self = ''owner''
     then unrevoked db (tenant_id c) (owner_identity_ref self) \<and> unrevoked db (tenant_id c) (grant_ref c)
     else \<forall>a. (parent_of db)\<^sup>*\<^sup>* (grant_ref c) a \<longrightarrow>
       (\<exists>g leaf e f. lookup_grant a db = Some g \<and> lookup_grant (grant_ref c) db = Some leaf \<and>
          gr_revoked_at g = None \<and> gr_tenant_id g = tenant_id c \<and> gr_authority_id g = authority_id c \<and>
          gr_authority_incarnation g = authority_incarnation c \<and>
          permission \<in> expanded_permissions (gr_permissions g) \<and>
          set (gr_permissions leaf) \<subseteq> expanded_permissions (gr_permissions g) \<and>
          gr_expires_at leaf = Some e \<and> gr_expires_at g = Some f \<and> clk 1 < f \<and> e \<le> f))"
proof (cases "access_mode self = ''owner''")
  case True
  with authorize_owner_Inr [OF ok] show ?thesis by simp
next
  case False
  with authorize_shared_Inr [OF ok] authorize_shared_sole [OF ok] shared_ancestry_live [OF ok _ fk] show ?thesis by simp
qed

definition ctx_1 :: authenticated_context where
  "ctx_1 = \<lparr>ctx_tenant_id = ''t'', ctx_authority_id = ''a'', ctx_authority_incarnation = ''1'',
     ctx_principal_ref = ''agent:p'', ctx_grant_ref = ''g'', ctx_credential_hash = [],
     ctx_agent_slot_id = None, ctx_trusted_client = False\<rparr>"

definition auth_1 :: domain_authority where
  "auth_1 = \<lparr>access_mode = ''shared'', authority_binding = (''a'', ''1''), auth_context = ctx_1,
     owner_identity_ref = ''g''\<rparr>"

definition grant_1 :: grant_row where
  "grant_1 = \<lparr>gr_grant_ref = ''g'', gr_tenant_id = ''t'', gr_principal_ref = ''agent:p'', gr_authority_id = ''a'',
     gr_authority_incarnation = ''1'', gr_scope_id = ''s'', gr_permissions = [''message.read''],
     gr_expires_at = Some 50, gr_revoked_at = None, gr_identity_only = False\<rparr>"

definition auth_db_1 :: authority_db where
  "auth_db_1 = empty_db\<lparr>authority_instances := [\<lparr>ai_authority_id = ''a'', ai_incarnation = ''1'', ai_status = ''active''\<rparr>],
     scopes := [\<lparr>sc_scope_id = ''s'', sc_tenant_id = ''t'', sc_policy = PyDict [], sc_status = ''active''\<rparr>],
     grants := [grant_1, grant_1\<lparr>gr_grant_ref := ''root'', gr_principal_ref := ''agent:r'',
       gr_permissions := [''message.read'', ''message.send''], gr_expires_at := Some 90\<rparr>],
     grant_delegations := [\<lparr>gd_grant_ref = ''g'', gd_parent_grant_ref = ''root'',
       gd_parent_policy_digest = replicate 64 (CHR ''a'')\<rparr>]\<rparr>"

definition command_1 :: command where
  "command_1 = \<lparr>schema_version = ''acs-command/1'', hash_version = ''v2'', command_id = ''c1'', command_type = ''message.read'',
     idempotency_key = ''k1'', correlation_id = ''x'', causation_id = None, tenant_id = ''t'', authority_id = ''a'',
     authority_incarnation = ''1'', principal_ref = ''agent:p'', grant_ref = ''g'', target_kind = ''message'',
     target_id = ''m1'', expected_revision = 0, issued_at = DT 0 (Some 0), deadline = Some (DT 40 (Some 0)),
     payload = PyDict []\<rparr>"

definition owner_auth :: domain_authority where
  "owner_auth = auth_1\<lparr>access_mode := ''owner''\<rparr>"

theorem authorized_ancestry_live_witness:
  "unrevoked auth_db_1 ''t'' ''g'' \<and> sole_active auth_db_1 ''a'' ''1'' \<and> (\<exists>g leaf. lookup_grant ''root'' auth_db_1 = Some g \<and> lookup_grant ''g'' auth_db_1 = Some leaf \<and>
     set (gr_permissions leaf) \<subseteq> expanded_permissions (gr_permissions g))"
proof -
  have own: "authorize env_0 owner_auth (\<lambda>n. int n) command_1 ''message.read'' (Some ''s'') 0 auth_db_1 = Inr ()"
    by code_simp
  have ok: "authorize env_0 auth_1 (\<lambda>n. int n) command_1 ''message.read'' (Some ''s'') 0 auth_db_1 = Inr ()"
    by code_simp
  have mode: "access_mode auth_1 = ''shared''" "access_mode owner_auth = ''owner''" by (simp_all add: auth_1_def owner_auth_def)
  have fk: "fk_wf auth_db_1" by code_simp
  have "parent_of auth_db_1 (grant_ref command_1) ''root''"
    by (simp add: parent_of_def lookup_delegation_def auth_db_1_def command_1_def)
  then have anc: "(parent_of auth_db_1)\<^sup>*\<^sup>* (grant_ref command_1) ''root''" by blast
  show ?thesis
    using authorized_ancestry_live [OF ok fk] authorized_ancestry_live [OF own fk] mode anc by (auto simp: command_1_def)
qed

lemma permits_root_channel:
  assumes "permits_project_message_scope x c sender target db"
  shows "\<exists>p. p \<in> set (collaboration_projects db) \<and> pj_tenant_id p = ctx_tenant_id x \<and> pj_state p = ''active'' \<and>
    payload_get c ''communication_project_id'' = Some (PyStr (pj_project_id p)) \<and>
    (sender = pj_scope_id p \<or> target = pj_scope_id p)"
  using assms unfolding permits_project_message_scope_def payload_get_def
  by (auto simp: Let_def split: pyval.splits option.splits if_splits dest!: find_SomeD)

lemma shared_scope_confined:
  assumes "authorize env self clk c permission (Some i) skew db = Inr ()" and shared: "access_mode self \<noteq> ''owner''"
  shows "\<exists>g \<in> set (grants db). gr_grant_ref g = grant_ref c \<and> gr_principal_ref g = principal_ref c \<and>
    gr_tenant_id g = tenant_id c \<and> gr_revoked_at g = None \<and> permission \<in> expanded_permissions (gr_permissions g) \<and>
    (gr_scope_id g = i \<or>
     natural_message c \<and> permission \<in> {''message.send'', ''message.read'', ''runtime.invoke''} \<and>
     (\<exists>p \<in> set (collaboration_projects db). pj_tenant_id p = tenant_id c \<and> pj_state p = ''active'' \<and>
        payload_get c ''communication_project_id'' = Some (PyStr (pj_project_id p)) \<and>
        (gr_scope_id g = pj_scope_id p \<or> i = pj_scope_id p)))"
proof -
  note inv = authorize_shared_Inr [OF assms(1) shared]
  then have same: "grant_ref c = ctx_grant_ref (auth_context self)" "principal_ref c = ctx_principal_ref (auth_context self)"
    "tenant_id c = ctx_tenant_id (auth_context self)"
    by (simp_all add: command_identity_def context_identity_def)
  from inv obtain g where g: "live_grant (auth_context self) (clk 2) db = Some g"
    "permission \<in> expanded_permissions (gr_permissions g)"
    and sc: "gr_scope_id g = i \<or> natural_message c \<and> permission \<in> {''message.send'', ''message.read'', ''runtime.invoke''} \<and>
        permits_project_message_scope (auth_context self) c (gr_scope_id g) i db" by auto
  have "gr_scope_id g = i \<or> natural_message c \<and> permission \<in> {''message.send'', ''message.read'', ''runtime.invoke''} \<and>
     (\<exists>p \<in> set (collaboration_projects db). pj_tenant_id p = tenant_id c \<and> pj_state p = ''active'' \<and>
        payload_get c ''communication_project_id'' = Some (PyStr (pj_project_id p)) \<and>
        (gr_scope_id g = pj_scope_id p \<or> i = pj_scope_id p))"
    using sc permits_root_channel [of "auth_context self" c "gr_scope_id g" i db] same(3) by auto
  then show ?thesis using live_grant_Some [OF g(1)] g(2) same by auto
qed

text \<open>
  C20. Authorization is confined to a scope, in both access modes. A command authorized for a scope
  has not passed its deadline. In owner mode the scope is an active one of the tenant of the command. In
  shared mode the command either holds a Grant of exactly that scope, or is a message command with a
  message permission in an active project of the tenant whose root scope is one end of the channel.
\<close>

theorem authorize_scope_confined:
  assumes ok: "authorize env self clk c permission (Some i) skew db = Inr ()"
  shows "if access_mode self = ''owner''
     then active_scope db (tenant_id c) i \<and> tenant_id c = ctx_tenant_id (auth_context self) \<and> \<not> past_deadline c (clk 0)
     else \<not> past_deadline c (clk 3) \<and>
       (\<exists>g \<in> set (grants db). gr_grant_ref g = grant_ref c \<and> gr_principal_ref g = principal_ref c \<and>
          gr_tenant_id g = tenant_id c \<and> gr_revoked_at g = None \<and> permission \<in> expanded_permissions (gr_permissions g) \<and>
          (gr_scope_id g = i \<or>
           natural_message c \<and> permission \<in> {''message.send'', ''message.read'', ''runtime.invoke''} \<and>
           (\<exists>p \<in> set (collaboration_projects db). pj_tenant_id p = tenant_id c \<and> pj_state p = ''active'' \<and>
              payload_get c ''communication_project_id'' = Some (PyStr (pj_project_id p)) \<and>
              (gr_scope_id g = pj_scope_id p \<or> i = pj_scope_id p))))"
proof (cases "access_mode self = ''owner''")
  case True
  note inv = authorize_owner_Inr [OF ok True]
  then have "tenant_id c = ctx_tenant_id (auth_context self)" by (simp add: command_identity_def context_identity_def)
  with inv show ?thesis unfolding if_P [OF True] by blast
next
  case False
  with authorize_shared_Inr [OF ok] shared_scope_confined [OF ok] show ?thesis by auto
qed

theorem authorize_scope_confined_witness:
  "active_scope auth_db_1 ''t'' ''s'' \<and> (\<exists>g \<in> set (grants auth_db_1). gr_grant_ref g = ''g'' \<and> gr_principal_ref g = ''agent:p'' \<and>
    ''message.read'' \<in> expanded_permissions (gr_permissions g) \<and> gr_scope_id g = ''s'')"
proof -
  have own: "authorize env_0 owner_auth (\<lambda>n. int n) command_1 ''message.read'' (Some ''s'') 0 auth_db_1 = Inr ()"
    by code_simp
  have ok: "authorize env_0 auth_1 (\<lambda>n. int n) command_1 ''message.read'' (Some ''s'') 0 auth_db_1 = Inr ()"
    by code_simp
  have mode: "access_mode auth_1 = ''shared''" "access_mode owner_auth = ''owner''" by (simp_all add: auth_1_def owner_auth_def)
  from authorize_scope_confined [OF own] have "active_scope auth_db_1 (tenant_id command_1) ''s''" unfolding if_P [OF mode(2)] by blast
  then have "active_scope auth_db_1 ''t'' ''s''" by (simp add: command_1_def)
  moreover from authorize_scope_confined [OF ok] mode
  have "\<exists>g \<in> set (grants auth_db_1). gr_grant_ref g = ''g'' \<and> gr_principal_ref g = ''agent:p'' \<and>
    ''message.read'' \<in> expanded_permissions (gr_permissions g) \<and> gr_scope_id g = ''s''"
    by (auto simp: auth_db_1_def grant_1_def command_1_def natural_message_def)
  ultimately show ?thesis ..
qed

section \<open>The idempotency journal\<close>

text \<open>\<open>model_dump_json\<close> and \<open>model_validate\<close> of a \<open>CommandResult\<close>.\<close>

definition result_dump :: "command_result \<Rightarrow> pyval" where
  "result_dump r = PyDict
     [(PyStr ''command_id'', PyStr (res_command_id r)), (PyStr ''operation_id'', PyStr (res_operation_id r)),
      (PyStr ''target_id'', PyStr (res_target_id r)), (PyStr ''revision'', PyInt (res_revision r)),
      (PyStr ''state'', PyStr (res_state r)), (PyStr ''receipt_layer'', PyStr (res_receipt_layer r)),
      (PyStr ''duplicate'', PyBool (res_duplicate r))]"

definition RESULT_KEYS :: "string list" where
  "RESULT_KEYS = [''command_id'', ''operation_id'', ''target_id'', ''revision'', ''state'', ''receipt_layer'', ''duplicate'']"

definition result_validate :: "pyval \<Rightarrow> command_result option" where
  "result_validate v =
     (case v of
        PyDict kvs \<Rightarrow>
          (if \<exists>k \<in> set kvs. fst k \<notin> PyStr ` set RESULT_KEYS then None
           else case (dict_get kvs ''command_id'', dict_get kvs ''operation_id'', dict_get kvs ''target_id'',
                      dict_get kvs ''revision'', dict_get kvs ''state'') of
             (Some (PyStr a), Some (PyStr b), Some (PyStr t), Some (PyInt n), Some (PyStr s)) \<Rightarrow>
               (case (case dict_get kvs ''receipt_layer'' of
                        None \<Rightarrow> Some ''accepted_by_authority'' | Some (PyStr l) \<Rightarrow> Some l | Some _ \<Rightarrow> None,
                      case dict_get kvs ''duplicate'' of
                        None \<Rightarrow> Some False | Some (PyBool d) \<Rightarrow> Some d | Some _ \<Rightarrow> None) of
                  (Some l, Some d) \<Rightarrow>
                    Some \<lparr>res_command_id = a, res_operation_id = b, res_target_id = t, res_revision = n,
                          res_state = s, res_receipt_layer = l, res_duplicate = d\<rparr>
                | _ \<Rightarrow> None)
           | _ \<Rightarrow> None)
      | _ \<Rightarrow> None)"

lemma result_roundtrip: "result_validate (result_dump r) = Some r"
  by (simp add: result_validate_def result_dump_def RESULT_KEYS_def dict_get_def)

text \<open>\<open>->>\<close> of PostgreSQL: a string member as it is, null and a missing member as \<open>NULL\<close>.\<close>

fun json_member :: "pyval \<Rightarrow> string \<Rightarrow> pyval option" where
  "json_member (PyDict kvs) k = dict_get kvs k"
| "json_member _ k = None"

fun json_text :: "pyval option \<Rightarrow> string option" where
  "json_text None = None"
| "json_text (Some PyNone) = None"
| "json_text (Some (PyStr s)) = Some s"
| "json_text (Some v) = Some (dumps False v)"

definition dedup_matches :: "command \<Rightarrow> dedup_row \<Rightarrow> bool" where
  "dedup_matches c row \<longleftrightarrow> dd_tenant_id row = tenant_id c \<and>
     (dd_idempotency_key row = idempotency_key c \<or> dd_command_id row = Some (command_id c) \<or>
      dd_legacy_command_id row = Some (command_id c) \<or>
      (case dd_legacy_record row of None \<Rightarrow> False
       | Some v \<Rightarrow> json_text (json_member v ''command_id'') = Some (command_id c) \<or>
           (case json_member v ''result_json'' of None \<Rightarrow> False
            | Some w \<Rightarrow> json_text (json_member w ''command_id'') = Some (command_id c))))"

definition str_or_null :: "pyval option \<Rightarrow> string option option" where
  "str_or_null v = (case v of None \<Rightarrow> Some None | Some PyNone \<Rightarrow> Some None | Some (PyStr s) \<Rightarrow> Some (Some s) | _ \<Rightarrow> None)"

text \<open>
  The \<open>LegacyCommandRecord\<close> of a historical row: from \<open>legacy_record\<close> when that is an
  object, from the columns otherwise. \<open>None\<close> stands for an object with a field of another
  type, or without a tenant: no such record equals a command.
\<close>

definition legacy_of_row :: "command \<Rightarrow> dedup_row \<Rightarrow> string option \<Rightarrow> legacy_command_record option" where
  "legacy_of_row c row who =
     (case dd_legacy_record row of
        Some (PyDict kvs) \<Rightarrow>
          (case (dict_get kvs ''tenant_id'', str_or_null (dict_get kvs ''idempotency_key''),
                 str_or_null (dict_get kvs ''command_id''), str_or_null (dict_get kvs ''payload_hash''),
                 str_or_null (dict_get kvs ''hash_version'')) of
             (Some (PyStr t), Some k, Some i, Some h, Some v) \<Rightarrow>
               Some \<lparr>lc_tenant_id = t, lc_idempotency_key = k, lc_command_id = i, lc_payload_hash = h,
                     lc_result_json = (case dict_get kvs ''result_json'' of None \<Rightarrow> PyNone | Some w \<Rightarrow> w),
                     lc_hash_version = v, lc_principal_ref = who\<rparr>
           | _ \<Rightarrow> None)
      | _ \<Rightarrow> Some \<lparr>lc_tenant_id = tenant_id c, lc_idempotency_key = Some (dd_idempotency_key row),
               lc_command_id = dd_command_id row, lc_payload_hash = Some (dd_payload_hash row),
               lc_result_json = dd_result_json row, lc_hash_version = Some (dd_hash_version row),
               lc_principal_ref = who\<rparr>)"

definition event_principals :: "command \<Rightarrow> authority_db \<Rightarrow> string list" where
  "event_principals c db = remdups (map ev_initiated_by (filter (\<lambda>e. ev_tenant_id e = tenant_id c \<and>
     ev_command_id e = command_id c \<and> ev_work_item_id e = Some (target_id c) \<and>
     ev_lineage_mode e = ''external_command'') (domain_events db)))"

definition row_admits :: "hash_env \<Rightarrow> command \<Rightarrow> pyval \<Rightarrow> string \<Rightarrow> dedup_row \<Rightarrow> authority_db \<Rightarrow> bool" where
  "row_admits env c extra digest row db =
     (if dd_migration_state row = ''current''
      then dd_command_id row = Some (command_id c) \<and> dd_hash_version row = ''v2'' \<and>
           dd_replay_policy row = ''replay_safe'' \<and> dd_canonical_hash row = Some digest \<and> dd_payload_hash row = digest
      else dd_migration_state row \<in> {''legacy'', ''migrated''} \<and> dd_replay_policy row = ''verify_legacy_hash'' \<and>
        (let principals = event_principals c db in
         length principals \<le> 1 \<and>
         (case legacy_of_row c row (if principals = [] then None else Some (hd principals)) of
            None \<Rightarrow> False
          | Some rec \<Rightarrow> action (classify_replay env rec c (Some extra)) = Replay)))"

definition dedup ::
  "hash_env \<Rightarrow> command \<Rightarrow> command_result \<Rightarrow> pyval \<Rightarrow> authority_db
     \<Rightarrow> ((command_result option \<times> string) \<times> authority_db) result" where
  "dedup env c res extra db =
     (let digest = canonical_hash env c (Some extra);
          conflict = Inl (IdempotencyConflict (idempotency_key c)) in
      case filter (dedup_matches c) (command_dedup db) of
        [] \<Rightarrow>
          if hash_version c \<noteq> ''v2'' then conflict
          else Inr ((None, digest), db\<lparr>command_dedup := command_dedup db @
            [\<lparr>dd_tenant_id = tenant_id c, dd_idempotency_key = idempotency_key c, dd_command_id = Some (command_id c),
              dd_payload_hash = digest, dd_hash_version = ''v2'', dd_canonical_hash = Some digest,
              dd_migration_state = ''current'', dd_legacy_command_id = None, dd_legacy_record = None,
              dd_replay_policy = ''replay_safe'', dd_result_json = result_dump res\<rparr>]\<rparr>)
      | [row] \<Rightarrow>
          if dd_idempotency_key row \<noteq> idempotency_key c \<or> dd_migration_state row = ''quarantined'' \<or>
             dd_replay_policy row = ''quarantine'' then conflict
          else if \<not> row_admits env c extra digest row db then conflict
          else (case result_validate (dd_result_json row) of
                  None \<Rightarrow> conflict
                | Some replay \<Rightarrow>
                    if res_command_id replay \<noteq> command_id c \<or> res_target_id replay \<noteq> target_id c then conflict
                    else Inr ((Some (replay\<lparr>res_duplicate := True\<rparr>), digest), db))
      | _ \<Rightarrow> conflict)"

text \<open>\<open>_operation\<close> and \<open>_outbox\<close>: two inserts, each under its unique key.\<close>

definition record_operation :: "command \<Rightarrow> string \<Rightarrow> authority_db \<Rightarrow> authority_db result" where
  "record_operation c oid db =
     (if \<exists>o' \<in> set (operations db). op_operation_id o' = oid then Inl (IntegrityError ''operations_pkey'')
      else Inr (db\<lparr>operations := operations db @
        [\<lparr>op_operation_id = oid, op_tenant_id = tenant_id c, op_command_id = command_id c, op_provider = ''temporal'',
          op_provider_workflow_id = ''acs-p1/'' @ command_id c, op_status = ''committed''\<rparr>]\<rparr>))"

definition record_outbox :: "command \<Rightarrow> string \<Rightarrow> string \<Rightarrow> pyval \<Rightarrow> authority_db \<Rightarrow> authority_db result" where
  "record_outbox c oid topic body db =
     (if \<exists>m \<in> set (outbox db). ob_tenant_id m = tenant_id c \<and> ob_message_id m = ''msg-'' @ command_id c
      then Inl (IntegrityError ''outbox_tenant_id_message_id_key'')
      else Inr (db\<lparr>outbox := outbox db @
        [\<lparr>ob_tenant_id = tenant_id c, ob_message_id = ''msg-'' @ command_id c, ob_operation_id = oid,
          ob_topic = topic, ob_payload = body, ob_delivered_at = None\<rparr>]\<rparr>))"

section \<open>Properties of the journal\<close>

text \<open>\<open>dedup\<close> as a journal: the digest it also returns is a function of its arguments.\<close>

definition dedup_admit ::
  "hash_env \<Rightarrow> command \<times> pyval \<Rightarrow> command_result \<Rightarrow> authority_db \<Rightarrow> (command_result option \<times> authority_db) result" where
  "dedup_admit env cx res db = rbind (dedup env (fst cx) res (snd cx) db) (\<lambda>((r, _), db'). Inr (r, db'))"

definition current_row :: "hash_env \<Rightarrow> command \<Rightarrow> pyval \<Rightarrow> command_result \<Rightarrow> dedup_row" where
  "current_row env c extra res =
     \<lparr>dd_tenant_id = tenant_id c, dd_idempotency_key = idempotency_key c, dd_command_id = Some (command_id c),
      dd_payload_hash = canonical_hash env c (Some extra), dd_hash_version = ''v2'',
      dd_canonical_hash = Some (canonical_hash env c (Some extra)), dd_migration_state = ''current'',
      dd_legacy_command_id = None, dd_legacy_record = None, dd_replay_policy = ''replay_safe'',
      dd_result_json = result_dump res\<rparr>"

definition dedup_stored :: "hash_env \<Rightarrow> command \<times> pyval \<Rightarrow> command_result \<Rightarrow> authority_db \<Rightarrow> bool" where
  "dedup_stored env cx res db \<longleftrightarrow>
     filter (dedup_matches (fst cx)) (command_dedup db) = [current_row env (fst cx) (snd cx) res]"

definition result_fits :: "command \<Rightarrow> command_result \<Rightarrow> bool" where
  "result_fits c r \<longleftrightarrow> res_command_id r = command_id c \<and> res_target_id r = target_id c"

definition same_identity :: "command \<Rightarrow> command \<Rightarrow> bool" where
  "same_identity c d \<longleftrightarrow> tenant_id c = tenant_id d \<and>
     (idempotency_key c = idempotency_key d \<or> command_id c = command_id d)"

lemma dedup_new:
  assumes "dedup env c res extra db = Inr ((None, h), db')"
  shows "filter (dedup_matches c) (command_dedup db) = [] \<and>
    db' = db\<lparr>command_dedup := command_dedup db @ [current_row env c extra res]\<rparr>"
  using assms unfolding dedup_def current_row_def
  by (auto simp: Let_def split: list.splits if_splits option.splits)

lemma dedup_replay:
  assumes "dedup env c res extra db = Inr ((Some r, h), db')"
  shows "db' = db \<and> (\<exists>row replay. filter (dedup_matches c) (command_dedup db) = [row] \<and>
    dd_idempotency_key row = idempotency_key c \<and> row_admits env c extra (canonical_hash env c (Some extra)) row db \<and>
    result_validate (dd_result_json row) = Some replay \<and> result_fits c replay \<and> r = replay\<lparr>res_duplicate := True\<rparr>)"
  using assms unfolding dedup_def result_fits_def
  by (auto simp: Let_def split: list.splits if_splits option.splits)

lemma current_row_matches: "dedup_matches d (current_row env c extra res) \<longleftrightarrow> same_identity c d"
  by (auto simp: dedup_matches_def current_row_def same_identity_def)

lemma same_identity_sym: "same_identity c d \<longleftrightarrow> same_identity d c"
  by (auto simp: same_identity_def)

lemma dedup_stored_member:
  "dedup_stored env cx res db \<Longrightarrow> current_row env (fst cx) (snd cx) res \<in> set (command_dedup db)"
  unfolding dedup_stored_def by (metis list.set_intros(1) filter_is_subset subsetD)

interpretation dj: idempotent_journal "dedup_admit env" "dedup_stored env" "\<lambda>cx. result_fits (fst cx)"
  "\<lambda>r. r\<lparr>res_duplicate := True\<rparr>" "\<lambda>cx dx :: command \<times> pyval. same_identity (fst cx) (fst dx)" for env
proof unfold_locales
  fix c r s t
  assume "dedup_admit env c r s = Inr (None, t)"
  then show "dedup_stored env c r t"
    by (auto simp: dedup_admit_def dedup_stored_def current_row_matches same_identity_def dest!: dedup_new)
next
  fix c r s x t
  assume "dedup_admit env c r s = Inr (Some x, t)"
  then show "t = s" by (auto simp: dedup_admit_def dest!: dedup_replay)
next
  fix c d :: "command \<times> pyval" and r s q y t
  assume st: "dedup_stored env c r s" and ad: "dedup_admit env d q s = Inr (y, t)"
  show "dedup_stored env c r t"
  proof (cases y)
    case None
    with ad have new: "filter (dedup_matches (fst d)) (command_dedup s) = []"
      and t: "t = s\<lparr>command_dedup := command_dedup s @ [current_row env (fst d) (snd d) q]\<rparr>"
      by (auto simp: dedup_admit_def dest!: dedup_new)
    have "current_row env (fst c) (snd c) r \<in> set (command_dedup s)"
      using st dedup_stored_member by blast
    then have "\<not> same_identity (fst c) (fst d)"
      using new current_row_matches by (auto simp: filter_empty_conv)
    then have "\<not> dedup_matches (fst c) (current_row env (fst d) (snd d) q)"
      using current_row_matches same_identity_sym by blast
    with st show ?thesis by (simp add: dedup_stored_def t)
  next
    case (Some x)
    with ad have "t = s" by (auto simp: dedup_admit_def dest!: dedup_replay)
    with st show ?thesis by simp
  qed
next
  fix c r s q
  assume st: "dedup_stored env c r s" and fit: "result_fits (fst c) r"
  have "dedup env (fst c) q (snd c) s =
      Inr ((Some (r\<lparr>res_duplicate := True\<rparr>), canonical_hash env (fst c) (Some (snd c))), s)"
    using st fit by (simp add: dedup_def dedup_stored_def row_admits_def current_row_def result_roundtrip result_fits_def Let_def)
  then show "dedup_admit env c q s = Inr (Some (r\<lparr>res_duplicate := True\<rparr>), s)" by (simp add: dedup_admit_def)
next
  fix c d :: "command \<times> pyval" and r s q t
  assume st: "dedup_stored env c r s" and sh: "same_identity (fst c) (fst d)"
  have "current_row env (fst c) (snd c) r \<in> set (command_dedup s)"
    using st dedup_stored_member by blast
  moreover have "dedup_matches (fst d) (current_row env (fst c) (snd c) r)"
    using sh by (simp add: current_row_matches)
  ultimately have "filter (dedup_matches (fst d)) (command_dedup s) \<noteq> []" by (auto simp: filter_empty_conv)
  then show "dedup_admit env d q s \<noteq> Inr (None, t)"
    by (auto simp: dedup_admit_def dest!: dedup_new)
qed

text \<open>
  C21. A command takes effect once: after \<open>_dedup\<close> has admitted a command, then whatever
  other commands are admitted, replayed or refused afterwards, a retry of the same command with
  the same extra input is answered with the stored result, marked as a duplicate, and changes
  nothing; and no command of the tenant that shares its idempotency key or its command id is ever
  admitted as new.
\<close>

theorem command_takes_effect_once:
  assumes "dedup_admit env (c, extra) res db = Inr (None, db1)" and "result_fits c res"
    and "db2 = fold (dj.admit_step env) others db1"
  shows "dedup_admit env (c, extra) res' db2 = Inr (Some (res\<lparr>res_duplicate := True\<rparr>), db2) \<and>
    (\<forall>d y q t. same_identity c d \<longrightarrow> dedup_admit env (d, y) q db2 \<noteq> Inr (None, t))"
proof -
  have "dedup_admit env (c, extra) res' db2 = Inr (Some (res\<lparr>res_duplicate := True\<rparr>), db2)"
    unfolding assms(3) by (rule dj.retry_replays [OF assms(1)]) (use assms(2) in simp)
  moreover have "dedup_admit env (d, y) q db2 \<noteq> Inr (None, t)" if "same_identity c d" for d y q t
    unfolding assms(3) by (rule dj.executed_once [OF assms(1)]) (use that in simp)
  ultimately show ?thesis by blast
qed

definition result_1 :: command_result where
  "result_1 = \<lparr>res_command_id = ''c1'', res_operation_id = ''op-1'', res_target_id = ''m1'', res_revision = 1,
     res_state = ''pending'', res_receipt_layer = ''accepted_by_authority'', res_duplicate = False\<rparr>"

theorem command_takes_effect_once_witness:
  "\<exists>db2. dedup_admit env_0 (command_1, PyDict []) result_1 db2 = Inr (Some (result_1\<lparr>res_duplicate := True\<rparr>), db2)"
proof -
  let ?db1 = "auth_db_1\<lparr>command_dedup := [current_row env_0 command_1 (PyDict []) result_1]\<rparr>"
  have ok: "dedup_admit env_0 (command_1, PyDict []) result_1 auth_db_1 = Inr (None, ?db1)"
    by (simp add: dedup_admit_def dedup_def auth_db_1_def empty_db_def Let_def current_row_def command_1_def)
  have fits: "result_fits command_1 result_1" by (simp add: result_fits_def command_1_def result_1_def)
  from command_takes_effect_once [OF ok fits refl] show ?thesis by blast
qed

text \<open>
  A replay is granted only to the command that was recorded: if \<open>_dedup\<close> answers from a
  current row and SHA-256 does not collide on the two inputs, then the recorded row belongs to
  the tenant, the idempotency key and the command id of the retry, and the recorded hash is the
  hash of exactly this canonical input.
\<close>

theorem replay_same_input:
  assumes "dedup_admit env (d, extra') res' db1 = Inr (Some r, db2)"
    and "dedup_admit env (c, extra) res db = Inr (None, db1)" and "idempotency_key d = idempotency_key c"
    and "tenant_id d = tenant_id c"
    and collision_free: "\<forall>x y. sha256_hex env x = sha256_hex env y \<longrightarrow> x = y"
  shows "command_id d = command_id c \<and>
    canonical_json True (canonical_input env d (Some extra')) = canonical_json True (canonical_input env c (Some extra)) \<and>
    r = res\<lparr>res_duplicate := True\<rparr> \<and> result_fits d res"
proof -
  from assms(2) have "dedup_stored env (c, extra) res db1" by (rule dj.admit_new)
  then have mem: "current_row env c extra res \<in> set (command_dedup db1)" using dedup_stored_member by fastforce
  from assms(1) obtain row replay where f: "filter (dedup_matches d) (command_dedup db1) = [row]"
    and adm: "row_admits env d extra' (canonical_hash env d (Some extra')) row db1"
    and val: "result_validate (dd_result_json row) = Some replay" "result_fits d replay"
      "r = replay\<lparr>res_duplicate := True\<rparr>"
    by (auto simp: dedup_admit_def dest!: dedup_replay)
  have "dedup_matches d (current_row env c extra res)"
    using assms(3,4) by (simp add: current_row_matches same_identity_def)
  with mem have "current_row env c extra res \<in> set (filter (dedup_matches d) (command_dedup db1))" by simp
  with f have row: "row = current_row env c extra res" by simp
  with adm have "command_id d = command_id c" "canonical_hash env d (Some extra') = canonical_hash env c (Some extra)"
    by (simp_all add: row_admits_def current_row_def)
  with collision_free val row show ?thesis
    by (auto simp: canonical_hash_def current_row_def result_roundtrip)
qed

definition env_id :: hash_env where
  "env_id = env_0\<lparr>sha256_hex := (\<lambda>s. s)\<rparr>"

theorem replay_same_input_witness:
  "dedup_admit env_id (command_1, PyDict []) result_1
     (auth_db_1\<lparr>command_dedup := [current_row env_id command_1 (PyDict []) result_1]\<rparr>) =
     Inr (Some (result_1\<lparr>res_duplicate := True\<rparr>), auth_db_1\<lparr>command_dedup := [current_row env_id command_1 (PyDict []) result_1]\<rparr>) \<and>
   result_fits command_1 result_1"
proof -
  let ?db1 = "auth_db_1\<lparr>command_dedup := [current_row env_id command_1 (PyDict []) result_1]\<rparr>"
  have ok: "dedup_admit env_id (command_1, PyDict []) result_1 auth_db_1 = Inr (None, ?db1)"
    by (simp add: dedup_admit_def dedup_def auth_db_1_def empty_db_def Let_def current_row_def command_1_def)
  have fits: "result_fits command_1 result_1" by (simp add: result_fits_def command_1_def result_1_def)
  have re: "dedup_admit env_id (command_1, PyDict []) result_1 ?db1 = Inr (Some (result_1\<lparr>res_duplicate := True\<rparr>), ?db1)"
    by (rule dj.stored_replays [OF dj.admit_new [OF ok]]) (use fits in simp)
  have "result_fits command_1 result_1"
    using replay_same_input [OF re ok refl refl] by (simp add: env_id_def)
  with re show ?thesis by simp
qed

end
