(* ===== verification/Delivery_Models.thy ===== *)
theory Delivery_Models
  imports Domain_Authority
begin

text \<open>
  \<open>src/runtime/delivery_models.py\<close>: the packets, the envelope and the invocation of the delivery
  ledger, their validators and their JSON form, and from \<open>src/runtime/delivery_node.py\<close> the two
  functions that derive a call identity from an envelope (\<open>logical_payload\<close>,
  \<open>invocation_for\<close>).

  A pydantic model is a record; \<open>model_dump(mode="json")\<close> is a function into \<open>pyval\<close> with
  the fields in their declared order. The discriminated union \<open>Packet\<close> is the datatype
  \<open>packet\<close>. A field with an \<open>Optional\<close> type is an option. A failed validation is a
  \<open>ValueError\<close>, of which pydantic's error is a subclass.
\<close>

section \<open>Text fields\<close>

text \<open>\<open>str.isspace\<close> on code points below 256.\<close>

definition py_space :: "char \<Rightarrow> bool" where
  "py_space c = (let n = of_char c :: nat in (9 \<le> n \<and> n \<le> 13) \<or> (28 \<le> n \<and> n \<le> 32) \<or> n = 133 \<or> n = 160)"

definition blank :: "string \<Rightarrow> bool" where
  "blank s = (\<forall>c \<in> set s. py_space c)"

definition opt_field :: "nat \<Rightarrow> string option \<Rightarrow> bool" where
  "opt_field maximum v = (case v of None \<Rightarrow> True | Some s \<Rightarrow> text_field maximum s)"

definition lower_hex :: "nat \<Rightarrow> string \<Rightarrow> bool" where
  "lower_hex n s = (length s = n \<and> (\<forall>c \<in> set s. c \<in> set ''0123456789abcdef''))"

text \<open>
  The pattern \<open>^attachment-[a-f0-9]{32}$\<close>; pydantic's regular expressions give \<open>$\<close> no match
  before a trailing newline.
\<close>

definition attachment_identity :: "string \<Rightarrow> bool" where
  "attachment_identity s = (starts_with ''attachment-'' s \<and> lower_hex 32 (drop 11 s))"

section \<open>Packets\<close>

record delivery_packet =
  dp_work_item_id :: string
  dp_target_scope_id :: string
  dp_target_agent_slot_id :: string
  dp_accepted_revision :: int
  dp_goal :: string
  dp_accepted_state_summary :: string
  dp_request :: string
  dp_constraints :: "string list"
  dp_source_baseline :: "string option"
  dp_context_digests :: "string list"
  dp_expected_response :: string
  dp_required_evidence :: "string list"
  dp_activation :: string
  dp_delivery_policy :: string
  dp_deadline :: "datetime option"
  dp_maximum_attempts :: int
  dp_retry_delay_seconds :: int

record attachment_ref =
  at_attachment_id :: string
  at_name :: string
  at_media_type :: string
  at_bytes :: int
  at_sha256 :: string

record message_packet =
  mp_project_id :: string
  mp_sender :: string
  mp_recipient :: string
  mp_content :: string
  mp_reply_to :: "string list"
  mp_response_mode :: string
  mp_target_scope_id :: string
  mp_target_agent_slot_id :: "string option"
  mp_activation :: string
  mp_delivery_policy :: string
  mp_deadline :: "datetime option"
  mp_maximum_attempts :: int
  mp_retry_delay_seconds :: int
  mp_attachment_refs :: "attachment_ref list"

record notice_packet =
  np_project_id :: string
  np_recipient :: string
  np_content :: string
  np_origin_message_id :: string
  np_notification_sequence :: int
  np_target_scope_id :: string
  np_target_agent_slot_id :: string
  np_deadline :: "datetime option"
  np_maximum_attempts :: int
  np_retry_delay_seconds :: int

datatype packet = Delivery delivery_packet | Message message_packet | Notice notice_packet

definition budget_ok :: "int \<Rightarrow> int \<Rightarrow> bool" where
  "budget_ok maximum delay = (1 \<le> maximum \<and> maximum \<le> 8 \<and> 1 \<le> delay \<and> delay \<le> 30)"

definition delivery_packet_ok :: "delivery_packet \<Rightarrow> bool" where
  "delivery_packet_ok p \<longleftrightarrow>
     text_field 256 (dp_work_item_id p) \<and> text_field 256 (dp_target_scope_id p) \<and>
     text_field 256 (dp_target_agent_slot_id p) \<and> 0 \<le> dp_accepted_revision p \<and> text_field 2048 (dp_goal p) \<and>
     text_field 4096 (dp_accepted_state_summary p) \<and> text_field 8192 (dp_request p) \<and>
     length (dp_constraints p) \<le> 32 \<and> opt_field 512 (dp_source_baseline p) \<and>
     length (dp_context_digests p) \<le> 32 \<and> text_field 4096 (dp_expected_response p) \<and>
     length (dp_required_evidence p) \<le> 32 \<and> dp_activation p \<in> {''message_only'', ''invoke''} \<and>
     dp_delivery_policy p \<in> {''immediate'', ''queue_until_idle''} \<and>
     budget_ok (dp_maximum_attempts p) (dp_retry_delay_seconds p) \<and>
     aware_command_time (dp_deadline p) \<and>
     (\<forall>v \<in> set (dp_constraints p @ dp_required_evidence p). text_field 1024 v) \<and>
     (\<forall>v \<in> set (dp_context_digests p). lower_hex 64 v)"

definition attachment_ref_ok :: "attachment_ref \<Rightarrow> bool" where
  "attachment_ref_ok a \<longleftrightarrow> attachment_identity (at_attachment_id a) \<and> text_field 255 (at_name a) \<and>
     text_field 256 (at_media_type a) \<and> 1 \<le> at_bytes a \<and> lower_hex 64 (at_sha256 a)"

definition message_packet_ok :: "message_packet \<Rightarrow> bool" where
  "message_packet_ok p \<longleftrightarrow>
     text_field 128 (mp_project_id p) \<and> text_field 512 (mp_sender p) \<and> text_field 512 (mp_recipient p) \<and>
     text_field 1048576 (mp_content p) \<and> length (mp_reply_to p) \<le> 32 \<and>
     mp_response_mode p \<in> {''async'', ''sync''} \<and> text_field 256 (mp_target_scope_id p) \<and>
     opt_field 256 (mp_target_agent_slot_id p) \<and> mp_activation p \<in> {''message_only'', ''invoke''} \<and>
     mp_delivery_policy p = ''queue_until_idle'' \<and> budget_ok (mp_maximum_attempts p) (mp_retry_delay_seconds p) \<and>
     length (mp_attachment_refs p) \<le> 8 \<and> (\<forall>a \<in> set (mp_attachment_refs p). attachment_ref_ok a) \<and>
     distinct (map at_attachment_id (mp_attachment_refs p)) \<and> \<not> blank (mp_content p) \<and>
     aware_command_time (mp_deadline p)"

definition notice_packet_ok :: "notice_packet \<Rightarrow> bool" where
  "notice_packet_ok p \<longleftrightarrow>
     text_field 128 (np_project_id p) \<and> text_field 512 (np_recipient p) \<and> text_field 8192 (np_content p) \<and>
     text_field 256 (np_origin_message_id p) \<and> 1 \<le> np_notification_sequence p \<and>
     text_field 256 (np_target_scope_id p) \<and> text_field 256 (np_target_agent_slot_id p) \<and>
     budget_ok (np_maximum_attempts p) (np_retry_delay_seconds p) \<and> aware_command_time (np_deadline p)"

fun packet_ok :: "packet \<Rightarrow> bool" where
  "packet_ok (Delivery p) = delivery_packet_ok p"
| "packet_ok (Message p) = message_packet_ok p"
| "packet_ok (Notice p) = notice_packet_ok p"

definition validate_packet :: "packet \<Rightarrow> packet result" where
  "validate_packet p = (if packet_ok p then Inr p else Inl (ValueError ''packet''))"

text \<open>The attributes the services read from a packet of any class.\<close>

fun packet_schema :: "packet \<Rightarrow> string" where
  "packet_schema (Delivery p) = ''acs-delivery/1''"
| "packet_schema (Message p) = ''acs-message/1''"
| "packet_schema (Notice p) = ''acs-notice/1''"

fun packet_target_scope :: "packet \<Rightarrow> string" where
  "packet_target_scope (Delivery p) = dp_target_scope_id p"
| "packet_target_scope (Message p) = mp_target_scope_id p"
| "packet_target_scope (Notice p) = np_target_scope_id p"

fun packet_target_slot :: "packet \<Rightarrow> string option" where
  "packet_target_slot (Delivery p) = Some (dp_target_agent_slot_id p)"
| "packet_target_slot (Message p) = mp_target_agent_slot_id p"
| "packet_target_slot (Notice p) = Some (np_target_agent_slot_id p)"

fun packet_activation :: "packet \<Rightarrow> string" where
  "packet_activation (Delivery p) = dp_activation p"
| "packet_activation (Message p) = mp_activation p"
| "packet_activation (Notice p) = ''invoke''"

fun packet_delivery_policy :: "packet \<Rightarrow> string" where
  "packet_delivery_policy (Delivery p) = dp_delivery_policy p"
| "packet_delivery_policy (Message p) = mp_delivery_policy p"
| "packet_delivery_policy (Notice p) = ''queue_until_idle''"

fun packet_deadline :: "packet \<Rightarrow> datetime option" where
  "packet_deadline (Delivery p) = dp_deadline p"
| "packet_deadline (Message p) = mp_deadline p"
| "packet_deadline (Notice p) = np_deadline p"

fun packet_maximum_attempts :: "packet \<Rightarrow> int" where
  "packet_maximum_attempts (Delivery p) = dp_maximum_attempts p"
| "packet_maximum_attempts (Message p) = mp_maximum_attempts p"
| "packet_maximum_attempts (Notice p) = np_maximum_attempts p"

fun packet_retry_delay :: "packet \<Rightarrow> int" where
  "packet_retry_delay (Delivery p) = dp_retry_delay_seconds p"
| "packet_retry_delay (Message p) = mp_retry_delay_seconds p"
| "packet_retry_delay (Notice p) = np_retry_delay_seconds p"

fun packet_work_item :: "packet \<Rightarrow> string option" where
  "packet_work_item (Delivery p) = Some (dp_work_item_id p)"
| "packet_work_item _ = None"

fun packet_accepted_revision :: "packet \<Rightarrow> int option" where
  "packet_accepted_revision (Delivery p) = Some (dp_accepted_revision p)"
| "packet_accepted_revision _ = None"

fun is_historical :: "packet \<Rightarrow> bool" where
  "is_historical (Delivery p) = True"
| "is_historical _ = False"

lemma packet_budget: "packet_ok p \<Longrightarrow> 1 \<le> packet_maximum_attempts p \<and> packet_maximum_attempts p \<le> 8 \<and>
    1 \<le> packet_retry_delay p \<and> packet_retry_delay p \<le> 30"
  by (cases p) (auto simp: delivery_packet_ok_def message_packet_ok_def notice_packet_ok_def budget_ok_def)

section \<open>JSON forms\<close>

definition strs :: "string list \<Rightarrow> pyval" where
  "strs xs = PyList (map PyStr xs)"

definition opt_time :: "hash_env \<Rightarrow> datetime option \<Rightarrow> pyval" where
  "opt_time env v = (case v of None \<Rightarrow> PyNone | Some t \<Rightarrow> PyStr (model_time env t))"

definition opt_int :: "int option \<Rightarrow> pyval" where
  "opt_int v = (case v of None \<Rightarrow> PyNone | Some i \<Rightarrow> PyInt i)"

definition attachment_dump :: "attachment_ref \<Rightarrow> pyval" where
  "attachment_dump a = PyDict
     [(PyStr ''attachment_id'', PyStr (at_attachment_id a)), (PyStr ''name'', PyStr (at_name a)),
      (PyStr ''media_type'', PyStr (at_media_type a)), (PyStr ''bytes'', PyInt (at_bytes a)),
      (PyStr ''sha256'', PyStr (at_sha256 a))]"

fun packet_dump :: "hash_env \<Rightarrow> packet \<Rightarrow> pyval" where
  "packet_dump env (Delivery p) = PyDict
     [(PyStr ''schema_version'', PyStr ''acs-delivery/1''), (PyStr ''work_item_id'', PyStr (dp_work_item_id p)),
      (PyStr ''target_scope_id'', PyStr (dp_target_scope_id p)),
      (PyStr ''target_agent_slot_id'', PyStr (dp_target_agent_slot_id p)),
      (PyStr ''accepted_revision'', PyInt (dp_accepted_revision p)), (PyStr ''goal'', PyStr (dp_goal p)),
      (PyStr ''accepted_state_summary'', PyStr (dp_accepted_state_summary p)), (PyStr ''request'', PyStr (dp_request p)),
      (PyStr ''constraints'', strs (dp_constraints p)), (PyStr ''source_baseline'', opt_str (dp_source_baseline p)),
      (PyStr ''context_digests'', strs (dp_context_digests p)),
      (PyStr ''expected_response'', PyStr (dp_expected_response p)),
      (PyStr ''required_evidence'', strs (dp_required_evidence p)), (PyStr ''activation'', PyStr (dp_activation p)),
      (PyStr ''delivery_policy'', PyStr (dp_delivery_policy p)), (PyStr ''deadline'', opt_time env (dp_deadline p)),
      (PyStr ''maximum_attempts'', PyInt (dp_maximum_attempts p)),
      (PyStr ''retry_delay_seconds'', PyInt (dp_retry_delay_seconds p))]"
| "packet_dump env (Message p) = PyDict
     ([(PyStr ''schema_version'', PyStr ''acs-message/1''), (PyStr ''project_id'', PyStr (mp_project_id p)),
       (PyStr ''sender'', PyStr (mp_sender p)), (PyStr ''recipient'', PyStr (mp_recipient p)),
       (PyStr ''content'', PyStr (mp_content p)), (PyStr ''reply_to'', strs (mp_reply_to p)),
       (PyStr ''response_mode'', PyStr (mp_response_mode p)), (PyStr ''target_scope_id'', PyStr (mp_target_scope_id p)),
       (PyStr ''target_agent_slot_id'', opt_str (mp_target_agent_slot_id p)),
       (PyStr ''activation'', PyStr (mp_activation p)), (PyStr ''delivery_policy'', PyStr (mp_delivery_policy p)),
       (PyStr ''deadline'', opt_time env (mp_deadline p)), (PyStr ''maximum_attempts'', PyInt (mp_maximum_attempts p)),
       (PyStr ''retry_delay_seconds'', PyInt (mp_retry_delay_seconds p))] @
      (if mp_attachment_refs p = [] then []
       else [(PyStr ''attachment_refs'', PyList (map attachment_dump (mp_attachment_refs p)))]))"
| "packet_dump env (Notice p) = PyDict
     [(PyStr ''schema_version'', PyStr ''acs-notice/1''), (PyStr ''project_id'', PyStr (np_project_id p)),
      (PyStr ''sender'', PyStr ''acs''), (PyStr ''recipient'', PyStr (np_recipient p)),
      (PyStr ''content'', PyStr (np_content p)), (PyStr ''origin_message_id'', PyStr (np_origin_message_id p)),
      (PyStr ''notification_sequence'', PyInt (np_notification_sequence p)),
      (PyStr ''target_scope_id'', PyStr (np_target_scope_id p)),
      (PyStr ''target_agent_slot_id'', PyStr (np_target_agent_slot_id p)), (PyStr ''activation'', PyStr ''invoke''),
      (PyStr ''delivery_policy'', PyStr ''queue_until_idle''), (PyStr ''deadline'', opt_time env (np_deadline p)),
      (PyStr ''maximum_attempts'', PyInt (np_maximum_attempts p)),
      (PyStr ''retry_delay_seconds'', PyInt (np_retry_delay_seconds p))]"

text \<open>\<open>len(packet.model_dump_json().encode())\<close>\<close>

definition packet_bytes :: "hash_env \<Rightarrow> packet \<Rightarrow> nat" where
  "packet_bytes env p = utf8_length (dumps False (packet_dump env p))"

text \<open>\<open>digest\<close> of \<open>delivery.py\<close> and \<open>canonical\<close> of \<open>delivery_node.py\<close>.\<close>

definition digest_json :: "hash_env \<Rightarrow> pyval \<Rightarrow> string" where
  "digest_json env v = sha256_hex env (canonical_json False v)"

section \<open>Endpoint bindings and resolutions\<close>

record binding_request =
  br_scope_id :: string
  br_agent_slot_id :: string
  br_expires_at :: "datetime option"

definition validate_binding_request :: "binding_request \<Rightarrow> binding_request result" where
  "validate_binding_request r =
     (if text_field 256 (br_scope_id r) \<and> text_field 256 (br_agent_slot_id r) \<and> aware_command_time (br_expires_at r)
      then Inr r else Inl (ValueError ''binding request''))"

record resolution_request =
  rq_tenant_id :: string
  rq_message_id :: string
  rq_operation_id :: string
  rq_attempt_id :: string
  rq_dispatch_id :: string
  rq_failed_endpoint_id :: string
  rq_failed_binding_revision :: int
  rq_target_scope_id :: string
  rq_target_agent_slot_id :: string
  rq_activation :: string

definition resolution_request_ok :: "resolution_request \<Rightarrow> bool" where
  "resolution_request_ok r \<longleftrightarrow>
     text_field 256 (rq_tenant_id r) \<and> text_field 256 (rq_message_id r) \<and> text_field 256 (rq_operation_id r) \<and>
     text_field 512 (rq_attempt_id r) \<and> text_field 512 (rq_dispatch_id r) \<and> text_field 256 (rq_failed_endpoint_id r) \<and>
     1 \<le> rq_failed_binding_revision r \<and> text_field 256 (rq_target_scope_id r) \<and>
     text_field 256 (rq_target_agent_slot_id r) \<and> rq_activation r \<in> {''message_only'', ''invoke''}"

record resolution =
  rs_endpoint_id :: string
  rs_binding_revision :: int
  rs_resolver_id :: string
  rs_resolver_revision :: int
  rs_reason :: string

definition resolution_ok :: "resolution \<Rightarrow> bool" where
  "resolution_ok r \<longleftrightarrow> text_field 256 (rs_endpoint_id r) \<and> 1 \<le> rs_binding_revision r \<and>
     text_field 256 (rs_resolver_id r) \<and> 1 \<le> rs_resolver_revision r \<and> text_field 1024 (rs_reason r)"

section \<open>Envelopes and invocations\<close>

record envelope =
  en_tenant_id :: string
  en_authority_id :: string
  en_authority_incarnation :: string
  en_principal_ref :: string
  en_grant_ref :: string
  en_message_id :: string
  en_command_id :: string
  en_operation_id :: string
  en_endpoint_id :: "string option"
  en_binding_revision :: "int option"
  en_machine_id :: "string option"
  en_node_id :: "string option"
  en_boot_incarnation :: "string option"
  en_accepted_state_digest :: string
  en_packet :: packet

definition envelope_dump :: "hash_env \<Rightarrow> envelope \<Rightarrow> pyval" where
  "envelope_dump env e = PyDict
     [(PyStr ''tenant_id'', PyStr (en_tenant_id e)), (PyStr ''authority_id'', PyStr (en_authority_id e)),
      (PyStr ''authority_incarnation'', PyStr (en_authority_incarnation e)),
      (PyStr ''principal_ref'', PyStr (en_principal_ref e)), (PyStr ''grant_ref'', PyStr (en_grant_ref e)),
      (PyStr ''message_id'', PyStr (en_message_id e)), (PyStr ''command_id'', PyStr (en_command_id e)),
      (PyStr ''operation_id'', PyStr (en_operation_id e)), (PyStr ''endpoint_id'', opt_str (en_endpoint_id e)),
      (PyStr ''binding_revision'', opt_int (en_binding_revision e)), (PyStr ''machine_id'', opt_str (en_machine_id e)),
      (PyStr ''node_id'', opt_str (en_node_id e)), (PyStr ''boot_incarnation'', opt_str (en_boot_incarnation e)),
      (PyStr ''accepted_state_digest'', PyStr (en_accepted_state_digest e)),
      (PyStr ''packet'', packet_dump env (en_packet e))]"

definition envelope_ok :: "envelope \<Rightarrow> bool" where
  "envelope_ok e \<longleftrightarrow> text_field 256 (en_authority_id e) \<and> text_field 256 (en_authority_incarnation e) \<and>
     text_field 256 (en_principal_ref e) \<and> text_field 256 (en_grant_ref e) \<and>
     lower_hex 64 (en_accepted_state_digest e) \<and> packet_ok (en_packet e)"

record invocation =
  iv_invocation_id :: string
  iv_attempt_id :: string
  iv_dispatch_id :: string
  iv_runtime_dispatched_receipt_id :: string
  iv_message_id :: string
  iv_command_id :: string
  iv_operation_id :: string
  iv_envelope_digest :: string
  iv_logical_payload_digest :: string
  iv_selection_digest :: string
  iv_accepted_revision :: "int option"
  iv_accepted_state_digest :: string
  iv_envelope :: envelope

definition invocation_dump :: "hash_env \<Rightarrow> invocation \<Rightarrow> pyval" where
  "invocation_dump env i = PyDict
     [(PyStr ''schema_version'', PyStr ''acs-invocation/1''), (PyStr ''invocation_id'', PyStr (iv_invocation_id i)),
      (PyStr ''attempt_id'', PyStr (iv_attempt_id i)), (PyStr ''dispatch_id'', PyStr (iv_dispatch_id i)),
      (PyStr ''runtime_dispatched_receipt_id'', PyStr (iv_runtime_dispatched_receipt_id i)),
      (PyStr ''message_id'', PyStr (iv_message_id i)), (PyStr ''command_id'', PyStr (iv_command_id i)),
      (PyStr ''operation_id'', PyStr (iv_operation_id i)), (PyStr ''envelope_digest'', PyStr (iv_envelope_digest i)),
      (PyStr ''logical_payload_digest'', PyStr (iv_logical_payload_digest i)),
      (PyStr ''selection_digest'', PyStr (iv_selection_digest i)),
      (PyStr ''accepted_revision'', opt_int (iv_accepted_revision i)),
      (PyStr ''accepted_state_digest'', PyStr (iv_accepted_state_digest i)),
      (PyStr ''envelope'', envelope_dump env (iv_envelope i))]"

definition logical_payload :: "hash_env \<Rightarrow> envelope \<Rightarrow> pyval" where
  "logical_payload env e = PyDict
     [(PyStr ''tenant_id'', PyStr (en_tenant_id e)), (PyStr ''message_id'', PyStr (en_message_id e)),
      (PyStr ''command_id'', PyStr (en_command_id e)), (PyStr ''operation_id'', PyStr (en_operation_id e)),
      (PyStr ''authority_id'', PyStr (en_authority_id e)),
      (PyStr ''authority_incarnation'', PyStr (en_authority_incarnation e)),
      (PyStr ''principal_ref'', PyStr (en_principal_ref e)), (PyStr ''grant_ref'', PyStr (en_grant_ref e)),
      (PyStr ''packet'', packet_dump env (en_packet e))]"

definition selection_identity :: "envelope \<Rightarrow> pyval" where
  "selection_identity e = PyDict
     [(PyStr ''endpoint_id'', opt_str (en_endpoint_id e)), (PyStr ''binding_revision'', opt_int (en_binding_revision e)),
      (PyStr ''machine_id'', opt_str (en_machine_id e)), (PyStr ''node_id'', opt_str (en_node_id e)),
      (PyStr ''boot_incarnation'', opt_str (en_boot_incarnation e)),
      (PyStr ''target_scope_id'', PyStr (packet_target_scope (en_packet e))),
      (PyStr ''target_agent_slot_id'', opt_str (packet_target_slot (en_packet e)))]"

text \<open>
  \<open>NodeJournal.payload_digest\<close> of a JSON value hashes its canonical form under the tag
  \<open>json\<close> (\<open>node.py\<close>, \<open>_canonical_payload\<close>).
\<close>

definition payload_digest :: "hash_env \<Rightarrow> pyval \<Rightarrow> string" where
  "payload_digest env v = sha256_hex env (canonical_json True (PyDict [(PyStr ''kind'', PyStr ''json''), (PyStr ''value'', v)]))"

definition invocation_ok :: "invocation \<Rightarrow> bool" where
  "invocation_ok i \<longleftrightarrow> text_field 512 (iv_invocation_id i) \<and> text_field 512 (iv_attempt_id i) \<and>
     text_field 512 (iv_dispatch_id i) \<and> text_field 512 (iv_runtime_dispatched_receipt_id i) \<and>
     text_field 256 (iv_message_id i) \<and> text_field 256 (iv_command_id i) \<and> text_field 256 (iv_operation_id i) \<and>
     lower_hex 64 (iv_envelope_digest i) \<and> lower_hex 64 (iv_logical_payload_digest i) \<and>
     lower_hex 64 (iv_selection_digest i) \<and>
     (case iv_accepted_revision i of None \<Rightarrow> True | Some n \<Rightarrow> 0 \<le> n) \<and>
     lower_hex 64 (iv_accepted_state_digest i)"

definition invocation_of :: "hash_env \<Rightarrow> envelope \<Rightarrow> string \<Rightarrow> invocation" where
  "invocation_of env e attempt_id =
     \<lparr>iv_invocation_id = ''delivery-invocation:'' @ attempt_id, iv_attempt_id = attempt_id,
      iv_dispatch_id = ''delivery-dispatch:'' @ attempt_id,
      iv_runtime_dispatched_receipt_id = ''delivery:'' @ en_message_id e @ '':runtime_dispatched'',
      iv_message_id = en_message_id e, iv_command_id = en_command_id e, iv_operation_id = en_operation_id e,
      iv_envelope_digest = digest_json env (envelope_dump env e),
      iv_logical_payload_digest = payload_digest env (logical_payload env e),
      iv_selection_digest = digest_json env (selection_identity e),
      iv_accepted_revision = packet_accepted_revision (en_packet e),
      iv_accepted_state_digest = en_accepted_state_digest e, iv_envelope = e\<rparr>"

definition invocation_for :: "hash_env \<Rightarrow> envelope \<Rightarrow> string \<Rightarrow> invocation result" where
  "invocation_for env e attempt_id =
     (if invocation_ok (invocation_of env e attempt_id) then Inr (invocation_of env e attempt_id)
      else Inl (ValueError ''InvocationRequest''))"

lemma invocation_for_Inr: "invocation_for env e a = Inr i \<longleftrightarrow> invocation_ok i \<and> i = invocation_of env e a"
  by (auto simp: invocation_for_def)

definition TERMINAL_STATES :: "string list" where
  "TERMINAL_STATES = [''delivered'', ''uncertain'', ''expired'', ''blocked'', ''budget_exhausted'']"

end
