(* ===== verification/Delivery_Store.thy ===== *)
theory Delivery_Store
  imports Delivery_Models
begin

text \<open>
  The delivery ledger: the tables \<open>delivery_endpoints\<close>, \<open>delivery_messages\<close>,
  \<open>delivery_attempts\<close>, \<open>delivery_receipts\<close> and \<open>inbox_messages\<close> of
  \<open>src/runtime/communication_core_schema.sql\<close>, the notice tables of
  \<open>communication_schema.sql\<close> and \<open>communication_notice_schema.sql\<close> and the wait tables, beside
  the authority's own tables (\<open>dcore\<close>).

  A JSON column that holds a dumped model (\<open>packet_json\<close>, \<open>command_json\<close>,
  \<open>envelope_json\<close>, \<open>selection_json\<close>, \<open>invocation_json\<close>) is kept as the value it was
  dumped from: dumping and strict validation are inverse on validated models. Other JSON is a
  \<open>pyval\<close>. Rows are in insertion order, which is the order of \<open>created_at\<close>.
\<close>

record endpoint_row =
  ep_tenant_id :: string
  ep_endpoint_id :: string
  ep_revision :: int
  ep_scope_id :: string
  ep_agent_slot_id :: string
  ep_machine_id :: string
  ep_node_id :: string
  ep_boot_incarnation :: string
  ep_supports_invoke :: bool
  ep_evidence_class :: string
  ep_expires_at :: "int option"
  ep_status :: string
  ep_command_id :: string
  ep_operation_id :: string

record message_row =
  dm_tenant_id :: string
  dm_message_id :: string
  dm_command_id :: string
  dm_operation_id :: string
  dm_endpoint_id :: "string option"
  dm_binding_revision :: "int option"
  dm_packet :: packet
  dm_command :: command
  dm_canonical_hash :: string
  dm_envelope :: envelope
  dm_envelope_hash :: string
  dm_state :: string
  dm_attempts :: nat
  dm_next_attempt_at :: int
  dm_maximum_attempts :: int
  dm_retry_delay_seconds :: int
  dm_last_error :: "string option"
  dm_policy_hash :: string
  dm_accepted_state_digest :: string
  dm_receipt_high_water :: string
  dm_activation :: "(string option \<times> string option \<times> string \<times> string) option"

text \<open>
  The four columns \<open>activation_*\<close> are written together, so they are one field: \<open>None\<close> while
  they are \<open>NULL\<close>.

  The selection an Attempt was prepared with. \<open>se_expires_at\<close> is \<open>str(binding["expires_at"])\<close>,
  the text of a JSON timestamp or \<open>None\<close>.
\<close>

record selection =
  se_endpoint_id :: string
  se_revision :: int
  se_scope_id :: string
  se_agent_slot_id :: string
  se_machine_id :: string
  se_node_id :: string
  se_boot_incarnation :: string
  se_supports_invoke :: bool
  se_evidence_class :: string
  se_expires_at :: string

datatype history_entry =
    Prepared selection
  | Resolved (resolved_selection: selection) resolution (failed_selection: selection) string

fun recorded_selection :: "history_entry \<Rightarrow> selection" where
  "recorded_selection (Prepared s) = s"
| "recorded_selection (Resolved s r f c) = s"

record attempt_row =
  da_tenant_id :: string
  da_message_id :: string
  da_ordinal :: nat
  da_attempt_id :: string
  da_operation_id :: string
  da_endpoint_id :: string
  da_selection_revision :: int
  da_connection_ref :: string
  da_finished_at :: "int option"
  da_status :: string
  da_error_code :: "string option"
  da_selection :: selection
  da_selection_digest :: string
  da_selection_history :: "history_entry list"
  da_invocation :: "invocation option"
  da_invocation_digest :: "string option"
  da_dispatch_id :: "string option"
  da_runtime_dispatched_receipt_id :: "string option"

record receipt_row =
  dr_tenant_id :: string
  dr_message_id :: string
  dr_receipt_id :: string
  dr_layer :: string
  dr_attempt_id :: "string option"
  dr_dispatch_id :: "string option"
  dr_evidence :: pyval

record inbox_row =
  ib_tenant_id :: string
  ib_message_id :: string
  ib_target_agent_slot_id :: string
  ib_payload :: pyval
  ib_receipt :: pyval

record supervisor_row =
  sv_tenant_id :: string
  sv_project_id :: string
  sv_agent_slot_id :: string
  sv_manager_address :: string

record notice_row =
  no_tenant_id :: string
  no_project_id :: string
  no_message_id :: string
  no_sequence :: int
  no_recipient :: string
  no_state :: string
  no_code :: string

record notice_route_row =
  nr_tenant_id :: string
  nr_project_id :: string
  nr_message_id :: string
  nr_recipient :: string
  nr_source_slot_id :: "string option"
  nr_native_requested :: bool
  nr_delivery_message_id :: "string option"
  nr_last_error :: "string option"

record wait_row =
  wt_tenant_id :: string
  wt_project_id :: string
  wt_waiter_id :: string
  wt_address :: string
  wt_request_id :: string
  wt_expires_at :: int

record ingress_row =
  wi_tenant_id :: string
  wi_project_id :: string
  wi_message_id :: string
  wi_recipient :: string
  wi_request_ids :: "string list"
  wi_state :: string
  wi_waiter_ref :: "string option"
  wi_expires_at :: int
  wi_selected_at :: "int option"

record delivery_db =
  dcore :: authority_db
  delivery_endpoints :: "endpoint_row list"
  delivery_messages :: "message_row list"
  delivery_attempts :: "attempt_row list"
  delivery_receipts :: "receipt_row list"
  inbox_messages :: "inbox_row list"
  communication_messages :: "(string \<times> string \<times> string) list"
  communication_supervisors :: "supervisor_row list"
  communication_notices :: "notice_row list"
  communication_notice_routes :: "notice_route_row list"
  notice_sequence :: int
  communication_waits :: "wait_row list"
  communication_wait_ingress :: "ingress_row list"

definition empty_delivery_db :: "authority_db \<Rightarrow> delivery_db" where
  "empty_delivery_db a = \<lparr>dcore = a, delivery_endpoints = [], delivery_messages = [], delivery_attempts = [],
     delivery_receipts = [], inbox_messages = [], communication_messages = [], communication_supervisors = [],
     communication_notices = [], communication_notice_routes = [], notice_sequence = 0, communication_waits = [],
     communication_wait_ingress = []\<rparr>"

type_synonym message_key = "string \<times> string"

definition message_key :: "message_row \<Rightarrow> message_key" where
  "message_key m = (dm_tenant_id m, dm_message_id m)"

definition attempt_message :: "attempt_row \<Rightarrow> message_key" where
  "attempt_message a = (da_tenant_id a, da_message_id a)"

definition receipt_message :: "receipt_row \<Rightarrow> message_key" where
  "receipt_message r = (dr_tenant_id r, dr_message_id r)"

definition lookup_delivery :: "message_key \<Rightarrow> delivery_db \<Rightarrow> message_row option" where
  "lookup_delivery k db = find (\<lambda>m. message_key m = k) (delivery_messages db)"

definition lookup_endpoint :: "string \<Rightarrow> string \<Rightarrow> delivery_db \<Rightarrow> endpoint_row option" where
  "lookup_endpoint t i db = find (\<lambda>e. ep_tenant_id e = t \<and> ep_endpoint_id e = i) (delivery_endpoints db)"

definition lookup_attempt :: "message_key \<Rightarrow> nat \<Rightarrow> delivery_db \<Rightarrow> attempt_row option" where
  "lookup_attempt k n db = find (\<lambda>a. attempt_message a = k \<and> da_ordinal a = n) (delivery_attempts db)"

definition lookup_receipt :: "message_key \<Rightarrow> string \<Rightarrow> delivery_db \<Rightarrow> receipt_row option" where
  "lookup_receipt k layer db = find (\<lambda>r. receipt_message r = k \<and> dr_layer r = layer) (delivery_receipts db)"

definition update_message :: "message_key \<Rightarrow> (message_row \<Rightarrow> message_row) \<Rightarrow> delivery_db \<Rightarrow> delivery_db" where
  "update_message k f db = db\<lparr>delivery_messages := update_where (\<lambda>m. message_key m = k) f (delivery_messages db)\<rparr>"

definition update_attempts :: "(attempt_row \<Rightarrow> bool) \<Rightarrow> (attempt_row \<Rightarrow> attempt_row) \<Rightarrow> delivery_db \<Rightarrow> delivery_db" where
  "update_attempts p f db = db\<lparr>delivery_attempts := update_where p f (delivery_attempts db)\<rparr>"

text \<open>\<open>interval '1 second'\<close> in microseconds.\<close>

definition seconds :: "int \<Rightarrow> int" where
  "seconds n = n * 1000000"

lemma lookup_delivery_SomeD: "lookup_delivery k db = Some m \<Longrightarrow> m \<in> set (delivery_messages db) \<and> message_key m = k"
  unfolding lookup_delivery_def by (drule find_SomeD) simp

lemma lookup_attempt_SomeD:
  "lookup_attempt k n db = Some a \<Longrightarrow> a \<in> set (delivery_attempts db) \<and> attempt_message a = k \<and> da_ordinal a = n"
  unfolding lookup_attempt_def by (drule find_SomeD) simp

lemma lookup_receipt_SomeD:
  "lookup_receipt k l db = Some r \<Longrightarrow> r \<in> set (delivery_receipts db) \<and> receipt_message r = k \<and> dr_layer r = l"
  unfolding lookup_receipt_def by (drule find_SomeD) simp

lemma lookup_endpoint_SomeD:
  "lookup_endpoint t i db = Some e \<Longrightarrow> e \<in> set (delivery_endpoints db) \<and> ep_tenant_id e = t \<and> ep_endpoint_id e = i"
  unfolding lookup_endpoint_def by (drule find_SomeD) simp

lemma lookup_update_message [simp]:
  assumes "\<And>m. message_key (f m) = message_key m"
  shows "lookup_delivery k (update_message j f db) =
    (if k = j then map_option f (lookup_delivery k db) else lookup_delivery k db)"
proof -
  have "find (\<lambda>m. message_key m = k) (update_where (\<lambda>m. message_key m = j) f xs) =
      (if k = j then map_option f (find (\<lambda>m. message_key m = k) xs) else find (\<lambda>m. message_key m = k) xs)" for xs
    by (induction xs) (auto simp: assms)
  then show ?thesis by (simp add: lookup_delivery_def update_message_def)
qed

lemma update_message_frame [simp]:
  "delivery_attempts (update_message k f db) = delivery_attempts db"
  "delivery_receipts (update_message k f db) = delivery_receipts db"
  "delivery_endpoints (update_message k f db) = delivery_endpoints db"
  "inbox_messages (update_message k f db) = inbox_messages db"
  "dcore (update_message k f db) = dcore db"
  "communication_wait_ingress (update_message k f db) = communication_wait_ingress db"
  "communication_messages (update_message k f db) = communication_messages db"
  by (simp_all add: update_message_def)

lemma update_attempts_frame [simp]:
  "delivery_messages (update_attempts p f db) = delivery_messages db"
  "delivery_receipts (update_attempts p f db) = delivery_receipts db"
  "delivery_endpoints (update_attempts p f db) = delivery_endpoints db"
  "inbox_messages (update_attempts p f db) = inbox_messages db"
  "dcore (update_attempts p f db) = dcore db"
  by (simp_all add: update_attempts_def)

end
