(* ===== verification/Communication_Faults.thy ===== *)
theory Communication_Faults
  imports Delivery_Store
begin

text \<open>
  \<open>src/runtime/communication_faults.py\<close>: the manager of every agent slot, and the notices that
  tell a manager about a message that could not be delivered. \<open>bind_supervisor\<close> records a
  manager once and refuses a cycle; \<open>record_obstacle\<close> writes at most one notice per message and
  recipient and passes an unreachable manager's notice on to the next one.

  \<open>queue_communication_notices\<close>, which turns a notice into a delivery of its own, is modelled
  with the delivery service.
\<close>

section \<open>Managers\<close>

definition lookup_supervisor :: "string \<Rightarrow> string \<Rightarrow> string option \<Rightarrow> delivery_db \<Rightarrow> string option" where
  "lookup_supervisor t p slot db =
     map_option sv_manager_address (find (\<lambda>s. sv_tenant_id s = t \<and> sv_project_id s = p \<and> Some (sv_agent_slot_id s) = slot)
       (communication_supervisors db))"

fun supervisor_walk :: "delivery_db \<Rightarrow> string \<Rightarrow> string \<Rightarrow> nat \<Rightarrow> string \<Rightarrow> string list \<Rightarrow> unit result" where
  "supervisor_walk db t p 0 address seen = Inl (ValueError ''communication manager chain exceeds the configured team bound'')"
| "supervisor_walk db t p (Suc n) address seen =
     (if address \<in> set seen then Inl (ValueError ''communication manager relationship would form a cycle'')
      else if starts_with ''client:'' address then Inr ()
      else rbind (parse_handle address ''collaborator'' p) (\<lambda>parent_slot.
        case lookup_supervisor t p (Some parent_slot) db of
          None \<Rightarrow> Inr ()
        | Some parent \<Rightarrow> supervisor_walk db t p n parent (address # seen)))"

definition bind_supervisor :: "string \<Rightarrow> string \<Rightarrow> string \<Rightarrow> string \<Rightarrow> delivery_db \<Rightarrow> delivery_db result" where
  "bind_supervisor t p slot manager db =
     (if lookup_supervisor t p (Some slot) db \<noteq> None then Inr db
      else rbind (handle ''collaborator'' p slot) (\<lambda>own.
        rbind (supervisor_walk db t p 128 manager [own]) (\<lambda>_.
        if \<not> (\<exists>s \<in> set (agent_slots (dcore db)). as_agent_slot_id s = slot) \<or>
           \<not> (\<exists>j \<in> set (collaboration_projects (dcore db)). pj_tenant_id j = t \<and> pj_project_id j = p)
        then Inl (IntegrityError ''communication_supervisors_fkey'')
        else Inr (db\<lparr>communication_supervisors := communication_supervisors db @
          [\<lparr>sv_tenant_id = t, sv_project_id = p, sv_agent_slot_id = slot, sv_manager_address = manager\<rparr>]\<rparr>))))"

section \<open>Notices\<close>

definition OBSTACLES :: "string list" where
  "OBSTACLES = [''blocked'', ''uncertain'', ''budget_exhausted'', ''expired'']"

fun packet_sender :: "packet \<Rightarrow> string option" where
  "packet_sender (Delivery p) = None"
| "packet_sender (Message p) = Some (mp_sender p)"
| "packet_sender (Notice p) = Some ''acs''"

fun packet_recipient :: "packet \<Rightarrow> string option" where
  "packet_recipient (Delivery p) = None"
| "packet_recipient (Message p) = Some (mp_recipient p)"
| "packet_recipient (Notice p) = Some (np_recipient p)"

definition first_notice :: "string \<Rightarrow> string \<Rightarrow> string \<Rightarrow> delivery_db \<Rightarrow> (string \<times> string) option" where
  "first_notice t p mid db =
     map_option (\<lambda>n. (no_state n, no_code n))
       (find (\<lambda>n. no_tenant_id n = t \<and> no_project_id n = p \<and> no_message_id n = mid) (communication_notices db))"

definition forward ::
  "string \<Rightarrow> string \<Rightarrow> string \<Rightarrow> string option \<Rightarrow> delivery_db \<Rightarrow> (string option \<times> bool \<times> (string \<times> string) option) result" where
  "forward t p mid source_slot db =
     (case lookup_delivery (t, mid) db of
        None \<Rightarrow> Inl (TypeError ''NoneType'')
      | Some m \<Rightarrow>
          let original = first_notice t p mid db in
          case lookup_supervisor t p source_slot db of
            Some manager \<Rightarrow> Inr (Some manager, starts_with ''collaborator:'' manager, original)
          | None \<Rightarrow>
              Inr (case filter (\<lambda>c. cl_tenant_id c = t \<and> cl_project_id c = p) (communication_clients (dcore db)) of
                     [c] \<Rightarrow> Some (cl_address c) | _ \<Rightarrow> packet_sender (dm_packet m), False, original))"

definition notice_key :: "notice_row \<Rightarrow> string \<times> string \<times> string \<times> string" where
  "notice_key n = (no_tenant_id n, no_project_id n, no_message_id n, no_recipient n)"

definition insert_notice ::
  "string \<Rightarrow> string \<Rightarrow> string \<Rightarrow> string option \<Rightarrow> string option \<Rightarrow> bool \<Rightarrow> string \<Rightarrow> string option \<Rightarrow> delivery_db
     \<Rightarrow> delivery_db result" where
  "insert_notice t p mid recipient source_slot native state code db =
     (case recipient of
        None \<Rightarrow> Inl (IntegrityError ''communication_notices recipient'')
      | Some who \<Rightarrow>
          if \<exists>n \<in> set (communication_notices db). notice_key n = (t, p, mid, who)
          then Inr (db\<lparr>notice_sequence := notice_sequence db + 1\<rparr>)
          else if (t, p, mid) \<notin> set (communication_messages db) then Inl (IntegrityError ''communication_notices_fkey'')
          else Inr (db\<lparr>notice_sequence := notice_sequence db + 1,
            communication_notices := communication_notices db @
              [\<lparr>no_tenant_id = t, no_project_id = p, no_message_id = mid, no_sequence = notice_sequence db + 1,
                no_recipient = who, no_state = state,
                no_code = (case code of None \<Rightarrow> ''delivery_unconfirmed'' | Some c \<Rightarrow> if c = [] then ''delivery_unconfirmed'' else c)\<rparr>],
            communication_notice_routes := communication_notice_routes db @
              [\<lparr>nr_tenant_id = t, nr_project_id = p, nr_message_id = mid, nr_recipient = who,
                nr_source_slot_id = source_slot, nr_native_requested = native, nr_delivery_message_id = None,
                nr_last_error = None\<rparr>]\<rparr>))"

definition unreachable ::
  "string \<Rightarrow> string \<Rightarrow> string \<Rightarrow> string \<Rightarrow> string option \<Rightarrow> delivery_db \<Rightarrow> delivery_db result" where
  "unreachable t p mid recipient code db =
     (let db1 = db\<lparr>communication_notice_routes := update_where
            (\<lambda>r. nr_tenant_id r = t \<and> nr_project_id r = p \<and> nr_message_id r = mid \<and> nr_recipient r = recipient)
            (\<lambda>r. r\<lparr>nr_native_requested := False, nr_last_error := code\<rparr>) (communication_notice_routes db)\<rparr> in
      rbind (parse_handle recipient ''collaborator'' p) (\<lambda>slot.
      rbind (forward t p mid (Some slot) db1) (\<lambda>(next_recipient, native, original).
      case original of
        None \<Rightarrow> Inr db1
      | Some (state, c) \<Rightarrow> insert_notice t p mid next_recipient (Some slot) native state (Some c) db1)))"

definition has_receipt :: "message_key \<Rightarrow> string list \<Rightarrow> delivery_db \<Rightarrow> bool" where
  "has_receipt k layers db = (\<exists>r \<in> set (delivery_receipts db). receipt_message r = k \<and> dr_layer r \<in> set layers)"

definition record_obstacle :: "message_row \<Rightarrow> string \<Rightarrow> string option \<Rightarrow> delivery_db \<Rightarrow> delivery_db result" where
  "record_obstacle row state code db =
     (if state \<notin> set OBSTACLES then Inr db
      else case dm_packet row of
        Delivery p \<Rightarrow> Inr db
      | Message p \<Rightarrow>
          rbind (forward (dm_tenant_id row) (mp_project_id p) (dm_message_id row) (mp_target_agent_slot_id p) db)
            (\<lambda>(recipient, native, _).
             insert_notice (dm_tenant_id row) (mp_project_id p) (dm_message_id row) recipient (mp_target_agent_slot_id p)
               (native \<and> state \<noteq> ''uncertain'') state code db)
      | Notice p \<Rightarrow>
          if state \<noteq> ''uncertain'' \<and>
             (\<not> has_receipt (message_key row) [''runtime_dispatched'', ''runtime_acknowledged''] db \<or>
              code = Some ''native_pre_call_rejected'')
          then unreachable (dm_tenant_id row) (np_project_id p) (np_origin_message_id p) (np_recipient p) code db
          else Inr db)"

text \<open>
  \<open>_content\<close>: \<open>json.dumps\<close> of four members with sorted keys and the default separators.
\<close>

definition notice_content :: "string \<Rightarrow> string \<Rightarrow> string option \<Rightarrow> string \<Rightarrow> string \<Rightarrow> string result" where
  "notice_content p mid target state code =
     rbind (handle ''message'' p mid) (\<lambda>h.
     let member = (\<lambda>k v. json_string False k @ '': '' @ v) in
     Inr (''{'' @ join '', '' [member ''code'' (json_string False code), member ''delivery_state'' (json_string False state),
       member ''message_handle'' (json_string False h),
       member ''target'' (case target of None \<Rightarrow> ''null'' | Some s \<Rightarrow> json_string False s)] @ ''}''))"

definition notice_binding :: "command \<Rightarrow> notice_packet \<Rightarrow> delivery_db \<Rightarrow> (string \<times> string \<times> string option) option" where
  "notice_binding c p db =
     (case find (\<lambda>n. notice_key n = (tenant_id c, np_project_id p, np_origin_message_id p, np_recipient p) \<and>
             no_sequence n = np_notification_sequence p) (communication_notices db) of
        None \<Rightarrow> None
      | Some n \<Rightarrow>
          if \<exists>r \<in> set (communication_notice_routes db).
               (nr_tenant_id r, nr_project_id r, nr_message_id r, nr_recipient r) = notice_key n \<and>
               nr_delivery_message_id r = Some (target_id c) \<and> nr_native_requested r \<and>
               lookup_supervisor (nr_tenant_id r) (nr_project_id r) (nr_source_slot_id r) db = Some (nr_recipient r)
          then map_option (\<lambda>m. (no_state n, no_code n, packet_recipient (dm_packet m)))
                 (lookup_delivery (tenant_id c, np_origin_message_id p) db)
          else None)"

definition authorize_notice :: "command \<Rightarrow> notice_packet \<Rightarrow> delivery_db \<Rightarrow> unit result" where
  "authorize_notice c p db =
     (case notice_binding c p db of
        None \<Rightarrow> Inl (DeliveryRejected ''system_notice_binding_changed'' ''blocked'')
      | Some (state, code, target) \<Rightarrow>
          rbind (notice_content (np_project_id p) (np_origin_message_id p) target state code) (\<lambda>content.
          if np_content p \<noteq> content then Inl (DeliveryRejected ''system_notice_binding_changed'' ''blocked'')
          else guard (\<exists>k \<in> set (contacts (dcore db)). ct_tenant_id k = tenant_id c \<and> ct_project_id k = np_project_id p \<and>
                 ct_agent_slot_id k = np_target_agent_slot_id p \<and> ct_principal_ref k = principal_ref c \<and>
                 ct_grant_ref k = grant_ref c \<and> ct_profile k \<in> {''root_manager'', ''route_manager''}) (refused c)))"

section \<open>The manager relation stays acyclic\<close>

definition manages :: "delivery_db \<Rightarrow> string \<Rightarrow> string \<Rightarrow> (string \<times> string) set" where
  "manages db t p = {(s, m). \<exists>a. lookup_supervisor t p (Some s) db = Some a \<and> parse_handle a ''collaborator'' p = Inr m}"

lemma parse_handle_text: "parse_handle v kind p = Inr i \<Longrightarrow> v = kind @ '':'' @ p @ '':'' @ i"
  using split_on_join [of "CHR '':''" v] by (auto simp: parse_handle_Inr)

lemma supervisor_walk_avoids:
  assumes "supervisor_walk db t p n address seen = Inr ()" "''collaborator:'' @ p @ '':'' @ slot \<in> set seen"
    and "parse_handle address ''collaborator'' p = Inr m"
  shows "(m, slot) \<notin> (manages db t p)\<^sup>*"
  using assms
proof (induction n arbitrary: address seen m)
  case (Suc n)
  have addr: "address = ''collaborator:'' @ p @ '':'' @ m" using parse_handle_text [OF Suc.prems(3)] by simp
  have ne: "m \<noteq> slot" using Suc.prems(1,2) addr by (auto split: if_splits)
  show ?case
  proof
    assume "(m, slot) \<in> (manages db t p)\<^sup>*"
    with ne obtain m' where step: "(m, m') \<in> manages db t p" "(m', slot) \<in> (manages db t p)\<^sup>*"
      by (meson converse_rtranclE)
    then obtain a where a: "lookup_supervisor t p (Some m) db = Some a" "parse_handle a ''collaborator'' p = Inr m'"
      by (auto simp: manages_def)
    have "\<not> starts_with ''client:'' address" by (simp add: addr starts_with_def)
    then have "supervisor_walk db t p n a (address # seen) = Inr ()"
      using Suc.prems(1,3) a(1) by (auto split: if_splits)
    from Suc.IH [OF this _ a(2)] Suc.prems(2) step(2) show False by simp
  qed
qed simp

lemma lookup_supervisor_append:
  "lookup_supervisor t p s (db\<lparr>communication_supervisors := communication_supervisors db @ [r]\<rparr>) =
     (case lookup_supervisor t p s db of Some a \<Rightarrow> Some a
      | None \<Rightarrow> if sv_tenant_id r = t \<and> sv_project_id r = p \<and> Some (sv_agent_slot_id r) = s
                then Some (sv_manager_address r) else None)"
  by (auto simp: lookup_supervisor_def find_append split: option.splits)

text \<open>
  C27. Managers never form a cycle: whatever manager is configured for a slot, in a project whose
  manager relation has no cycle, the relation after \<open>bind_supervisor\<close> has none either, so every
  chain of escalations ends.
\<close>

theorem managers_acyclic:
  assumes "bind_supervisor t p slot manager db = Inr db'" and "acyclic (manages db u q)"
  shows "acyclic (manages db' u q)"
proof (cases "lookup_supervisor t p (Some slot) db = None \<and> (u, q) = (t, p)")
  case True
  from assms(1) True obtain own where own: "handle ''collaborator'' p slot = Inr own"
    and walk: "supervisor_walk db t p 128 manager [own] = Inr ()"
    and db': "db' = db\<lparr>communication_supervisors := communication_supervisors db @
          [\<lparr>sv_tenant_id = t, sv_project_id = p, sv_agent_slot_id = slot, sv_manager_address = manager\<rparr>]\<rparr>"
    unfolding bind_supervisor_def by (auto split: if_splits)
  have lookup: "lookup_supervisor t p (Some s) db' =
      (case lookup_supervisor t p (Some s) db of Some a \<Rightarrow> Some a | None \<Rightarrow> if s = slot then Some manager else None)" for s
    unfolding db' by (auto simp: lookup_supervisor_append split: option.splits)
  show ?thesis
  proof (cases "parse_handle manager ''collaborator'' p")
    case (Inl e)
    have "manages db' t p = manages db t p"
      using Inl True by (auto simp: manages_def lookup split: option.splits if_splits)
    then show ?thesis using assms(2) True by simp
  next
    case (Inr m)
    have "manages db' t p = insert (slot, m) (manages db t p)"
      using Inr True by (auto simp: manages_def lookup split: option.splits if_splits)
    moreover have "own = ''collaborator:'' @ p @ '':'' @ slot"
      using own by (auto simp: handle_def split: if_splits)
    then have "(m, slot) \<notin> (manages db t p)\<^sup>*"
      using supervisor_walk_avoids [OF walk _ Inr, of slot] by simp
    ultimately show ?thesis using assms(2) True by simp
  qed
next
  case False
  have "manages db' u q = manages db u q"
  proof (cases "lookup_supervisor t p (Some slot) db = None")
    case True
    with False have "(u, q) \<noteq> (t, p)" by simp
    with assms(1) True show ?thesis
      by (auto simp: bind_supervisor_def manages_def lookup_supervisor_append split: if_splits option.splits)
  qed (use assms(1) in \<open>auto simp: bind_supervisor_def\<close>)
  then show ?thesis using assms(2) by simp
qed

text \<open>A project with two slots: \<open>lead\<close> answers to a client and \<open>dev\<close> to \<open>lead\<close>.\<close>

definition faults_db :: delivery_db where
  "faults_db = empty_delivery_db (auth_db_1\<lparr>
     agent_slots := [\<lparr>as_agent_slot_id = ''lead'', as_tenant_id = ''t'', as_scope_id = ''s'', as_status = ''active''\<rparr>,
                     \<lparr>as_agent_slot_id = ''dev'', as_tenant_id = ''t'', as_scope_id = ''s'', as_status = ''active''\<rparr>],
     collaboration_projects := [\<lparr>pj_tenant_id = ''t'', pj_project_id = ''p'', pj_scope_id = ''s'', pj_state = ''active''\<rparr>]\<rparr>)"

theorem managers_acyclic_witness:
  "\<exists>db'. bind_supervisor ''t'' ''p'' ''dev'' ''collaborator:p:lead'' faults_db = Inr db' \<and>
     acyclic (manages db' ''t'' ''p'') \<and> manages db' ''t'' ''p'' = {(''dev'', ''lead'')}"
proof -
  let ?db = "faults_db\<lparr>communication_supervisors := [\<lparr>sv_tenant_id = ''t'', sv_project_id = ''p'',
    sv_agent_slot_id = ''dev'', sv_manager_address = ''collaborator:p:lead''\<rparr>]\<rparr>"
  have bind: "bind_supervisor ''t'' ''p'' ''dev'' ''collaborator:p:lead'' faults_db = Inr ?db" by code_simp
  have "manages faults_db ''t'' ''p'' = {}"
    by (simp add: manages_def lookup_supervisor_def faults_db_def empty_delivery_db_def)
  then have "acyclic (manages faults_db ''t'' ''p'')" by (simp add: acyclic_def)
  from managers_acyclic [OF bind this] have "acyclic (manages ?db ''t'' ''p'')" .
  moreover have parse: "parse_handle ''collaborator:p:lead'' ''collaborator'' ''p'' = Inr ''lead''" by code_simp
  have "manages ?db ''t'' ''p'' = {(''dev'', ''lead'')}"
    by (auto simp: manages_def lookup_supervisor_def parse split: if_splits)
  ultimately show ?thesis using bind by blast
qed

section \<open>One notice per message and recipient\<close>

text \<open>The tables that notices never touch.\<close>

definition ledger where
  "ledger db = (delivery_messages db, delivery_attempts db, delivery_receipts db, delivery_endpoints db,
     inbox_messages db, dcore db, communication_supervisors db, communication_messages db, communication_waits db,
     communication_wait_ingress db)"

lemma insert_notice_Inr:
  assumes "insert_notice t p mid recipient slot native state code db = Inr db'"
  shows "\<exists>who ns. recipient = Some who \<and> communication_notices db' = communication_notices db @ ns \<and>
    (t, p, mid, who) \<in> notice_key ` set (communication_notices db') \<and>
    (if (t, p, mid, who) \<in> notice_key ` set (communication_notices db) then ns = []
     else map notice_key ns = [(t, p, mid, who)] \<and> map no_sequence ns = [notice_sequence db + 1])"
  using assms by (auto simp: insert_notice_def notice_key_def split: option.splits if_splits)

lemma insert_notice_frame:
  assumes "insert_notice t p mid recipient slot native state code db = Inr db'"
  shows "ledger db' = ledger db"
  using assms by (auto simp: insert_notice_def ledger_def split: option.splits if_splits)

lemma unreachable_frame:
  assumes "unreachable t p mid who code db = Inr db'"
  shows "ledger db' = ledger db"
  using assms unfolding unreachable_def
  by (auto simp: Let_def ledger_def [of "_\<lparr>communication_notice_routes := _\<rparr>"] ledger_def [of db] dest!: insert_notice_frame split: option.splits)

lemma record_obstacle_frame:
  assumes "record_obstacle row state code db = Inr db'"
  shows "ledger db' = ledger db"
  using assms unfolding record_obstacle_def
  by (auto dest: insert_notice_frame unreachable_frame split: if_splits packet.splits)

text \<open>Whom an obstacle of a message concerns: the manager of its target, else the one client of the project, else the sender.\<close>

definition obstacle_recipient :: "message_row \<Rightarrow> message_packet \<Rightarrow> delivery_db \<Rightarrow> string option" where
  "obstacle_recipient row p db =
     (case lookup_supervisor (dm_tenant_id row) (mp_project_id p) (mp_target_agent_slot_id p) db of
        Some manager \<Rightarrow> Some manager
      | None \<Rightarrow>
          (case filter (\<lambda>c. cl_tenant_id c = dm_tenant_id row \<and> cl_project_id c = mp_project_id p) (communication_clients (dcore db)) of
             [c] \<Rightarrow> Some (cl_address c)
           | _ \<Rightarrow> Option.bind (lookup_delivery (dm_tenant_id row, dm_message_id row) db) (\<lambda>m. packet_sender (dm_packet m))))"

definition obstacle_key :: "message_row \<Rightarrow> message_packet \<Rightarrow> string \<Rightarrow> string \<times> string \<times> string \<times> string" where
  "obstacle_key row p who = (dm_tenant_id row, mp_project_id p, dm_message_id row, who)"

text \<open>Everything that happens to notices: obstacles, managers that cannot be reached, and work of the system that leaves them.\<close>

inductive fault_step :: "delivery_db \<Rightarrow> delivery_db \<Rightarrow> bool" where
  obstacle: "record_obstacle row state code db = Inr db' \<Longrightarrow> fault_step db db'"
| escalation: "unreachable t p mid who code db = Inr db' \<Longrightarrow> fault_step db db'"
| other_work: "communication_notices db' = communication_notices db \<Longrightarrow> fault_step db db'"

definition notices_ok :: "notice_row list \<Rightarrow> delivery_db \<Rightarrow> bool" where
  "notices_ok ns db \<longleftrightarrow> distinct (map notice_key (communication_notices db)) \<and> (\<exists>more. communication_notices db = ns @ more)"

lemma insert_notice_ok:
  assumes "insert_notice t p mid recipient slot native state code db = Inr db'" "notices_ok ns db"
  shows "notices_ok ns db'"
proof -
  from insert_notice_Inr [OF assms(1)] obtain who more where m: "communication_notices db' = communication_notices db @ more"
    and c: "if (t, p, mid, who) \<in> notice_key ` set (communication_notices db) then more = [] else map notice_key more = [(t, p, mid, who)]"
    by (metis (full_types))
  then show ?thesis using assms(2) by (auto simp: notices_ok_def split: if_splits)
qed

lemma unreachable_ok:
  assumes "unreachable t p mid who code db = Inr db'" "notices_ok ns db"
  shows "notices_ok ns db'"
proof -
  define db1 where "db1 = db\<lparr>communication_notice_routes := update_where
            (\<lambda>r. nr_tenant_id r = t \<and> nr_project_id r = p \<and> nr_message_id r = mid \<and> nr_recipient r = who)
            (\<lambda>r. r\<lparr>nr_native_requested := False, nr_last_error := code\<rparr>) (communication_notice_routes db)\<rparr>"
  have ok: "notices_ok ns db1" using assms(2) by (simp add: notices_ok_def db1_def)
  with assms(1) show ?thesis unfolding unreachable_def Let_def db1_def [symmetric]
    by (auto dest: insert_notice_ok split: option.splits)
qed

interpretation flt: step_invariant fault_step "notices_ok ns" for ns
proof
  fix db db'
  assume ok: "notices_ok ns db" and "fault_step db db'"
  from this(2) show "notices_ok ns db'"
  proof cases
    case (obstacle row state code)
    with ok show ?thesis unfolding record_obstacle_def
      by (auto dest: insert_notice_ok unreachable_ok split: if_splits packet.splits)
  next
    case (escalation t p mid who code)
    then show ?thesis using ok unreachable_ok by blast
  next
    case other_work
    then show ?thesis using ok by (simp add: notices_ok_def)
  qed
qed

lemma record_obstacle_message:
  assumes "record_obstacle row state code db = Inr db'" "state \<in> set OBSTACLES" "dm_packet row = Message p"
  obtains who native where "obstacle_recipient row p db = Some who"
    "insert_notice (dm_tenant_id row) (mp_project_id p) (dm_message_id row) (Some who) (mp_target_agent_slot_id p) native state code db = Inr db'"
    "native \<longleftrightarrow> lookup_supervisor (dm_tenant_id row) (mp_project_id p) (mp_target_agent_slot_id p) db = Some who \<and>
       starts_with ''collaborator:'' who \<and> state \<noteq> ''uncertain''"
proof -
  from assms obtain recipient native original
    where fwd: "forward (dm_tenant_id row) (mp_project_id p) (dm_message_id row) (mp_target_agent_slot_id p) db = Inr (recipient, native, original)"
      and ins: "insert_notice (dm_tenant_id row) (mp_project_id p) (dm_message_id row) recipient
        (mp_target_agent_slot_id p) (native \<and> state \<noteq> ''uncertain'') state code db = Inr db'"
    by (auto simp: record_obstacle_def)
  have rec: "recipient = obstacle_recipient row p db"
    using fwd
    by (cases "lookup_supervisor (dm_tenant_id row) (mp_project_id p) (mp_target_agent_slot_id p) db")
      (auto simp: forward_def obstacle_recipient_def Let_def split: option.splits list.splits)
  obtain who where who: "recipient = Some who" using ins by (auto simp: insert_notice_def split: option.splits)
  have "native \<longleftrightarrow> lookup_supervisor (dm_tenant_id row) (mp_project_id p) (mp_target_agent_slot_id p) db = Some who \<and> starts_with ''collaborator:'' who"
    using fwd who by (auto simp: forward_def Let_def split: option.splits)
  with that [of who "native \<and> state \<noteq> ''uncertain''"] rec who ins show thesis by auto
qed

lemma insert_notice_exact:
  assumes "insert_notice t p mid (Some who) slot native state code db = Inr db'"
  shows "if (t, p, mid, who) \<in> notice_key ` set (communication_notices db)
    then communication_notices db' = communication_notices db \<and> communication_notice_routes db' = communication_notice_routes db
    else communication_notices db' = communication_notices db @
        [\<lparr>no_tenant_id = t, no_project_id = p, no_message_id = mid, no_sequence = notice_sequence db + 1, no_recipient = who, no_state = state,
          no_code = (if code \<in> {None, Some []} then ''delivery_unconfirmed'' else the code)\<rparr>] \<and>
      communication_notice_routes db' = communication_notice_routes db @
        [\<lparr>nr_tenant_id = t, nr_project_id = p, nr_message_id = mid, nr_recipient = who, nr_source_slot_id = slot, nr_native_requested = native,
          nr_delivery_message_id = None, nr_last_error = None\<rparr>]"
proof (cases "\<exists>n \<in> set (communication_notices db). notice_key n = (t, p, mid, who)")
  case True
  then have "(t, p, mid, who) \<in> notice_key ` set (communication_notices db)" by force
  with True assms show ?thesis by (auto simp: insert_notice_def)
next
  case False
  then have "(t, p, mid, who) \<notin> notice_key ` set (communication_notices db)" by force
  with False assms show ?thesis by (cases code) (auto simp: insert_notice_def split: if_splits)
qed

lemma recipient_frame: "ledger db' = ledger db \<Longrightarrow> obstacle_recipient row p db' = obstacle_recipient row p db"
proof -
  assume l: "ledger db' = ledger db"
  have e: "lookup_supervisor t q slot db' = lookup_supervisor t q slot db" "lookup_delivery k db' = lookup_delivery k db" "dcore db' = dcore db" for t q slot k
    using l by (simp_all add: lookup_supervisor_def lookup_delivery_def ledger_def)
  show ?thesis unfolding obstacle_recipient_def e ..
qed

text \<open>
  C28. A failed message is reported once to whom it concerns. Recording an obstacle of a natural
  message adds exactly one notice, with that state and code and its route, for the recipient the manager
  relation selects, and none when that recipient has one; every other notice stays as it is. From then on,
  whatever obstacles, escalations, changes of managers or other work follow, no notice is lost, no recipient
  has two notices of one message, and a further obstacle of the message adds none while the relation
  selects the same recipient.
\<close>

theorem obstacle_notified_once:
  assumes run: "record_obstacle row state code db = Inr db'" and obs: "state \<in> set OBSTACLES" and msg: "dm_packet row = Message p"
    and dist: "distinct (map notice_key (communication_notices db))"
  shows "\<exists>who. obstacle_recipient row p db = Some who \<and> obstacle_recipient row p db' = Some who \<and>
    (if obstacle_key row p who \<in> notice_key ` set (communication_notices db)
     then communication_notices db' = communication_notices db \<and> communication_notice_routes db' = communication_notice_routes db
     else communication_notices db' = communication_notices db @
         [\<lparr>no_tenant_id = dm_tenant_id row, no_project_id = mp_project_id p, no_message_id = dm_message_id row,
           no_sequence = notice_sequence db + 1, no_recipient = who, no_state = state,
           no_code = (if code \<in> {None, Some []} then ''delivery_unconfirmed'' else the code)\<rparr>] \<and>
       communication_notice_routes db' = communication_notice_routes db @
         [\<lparr>nr_tenant_id = dm_tenant_id row, nr_project_id = mp_project_id p, nr_message_id = dm_message_id row, nr_recipient = who,
           nr_source_slot_id = mp_target_agent_slot_id p,
           nr_native_requested = (lookup_supervisor (dm_tenant_id row) (mp_project_id p) (mp_target_agent_slot_id p) db = Some who \<and>
             starts_with ''collaborator:'' who \<and> state \<noteq> ''uncertain''),
           nr_delivery_message_id = None, nr_last_error = None\<rparr>]) \<and>
    (\<forall>db1. fault_step\<^sup>*\<^sup>* db' db1 \<longrightarrow>
       (\<exists>more. communication_notices db1 = communication_notices db' @ more) \<and>
       length (filter (\<lambda>n. notice_key n = obstacle_key row p who) (communication_notices db1)) = 1 \<and>
       (\<forall>other. length (filter (\<lambda>n. notice_key n = obstacle_key row p other) (communication_notices db1)) \<le> 1) \<and>
       (\<forall>s c db2. record_obstacle row s c db1 = Inr db2 \<and> obstacle_recipient row p db1 = Some who \<longrightarrow>
          communication_notices db2 = communication_notices db1))"
proof -
  obtain who native where who: "obstacle_recipient row p db = Some who"
    and ins: "insert_notice (dm_tenant_id row) (mp_project_id p) (dm_message_id row) (Some who) (mp_target_agent_slot_id p) native state code db = Inr db'"
    and native: "native \<longleftrightarrow> lookup_supervisor (dm_tenant_id row) (mp_project_id p) (mp_target_agent_slot_id p) db = Some who \<and>
       starts_with ''collaborator:'' who \<and> state \<noteq> ''uncertain''"
    by (rule record_obstacle_message [OF run obs msg])
  let ?k = "obstacle_key row p who"
  have who': "obstacle_recipient row p db' = Some who" using recipient_frame [OF insert_notice_frame [OF ins]] who by simp
  have mem: "?k \<in> notice_key ` set (communication_notices db')" using insert_notice_Inr [OF ins] by (auto simp: obstacle_key_def)
  have "notices_ok [] db" using dist by (simp add: notices_ok_def)
  then have ok: "notices_ok (communication_notices db') db'" using insert_notice_ok [OF ins] by (auto simp: notices_ok_def)
  have later: "(\<exists>more. communication_notices db1 = communication_notices db' @ more) \<and>
       length (filter (\<lambda>n. notice_key n = ?k) (communication_notices db1)) = 1 \<and>
       (\<forall>other. length (filter (\<lambda>n. notice_key n = obstacle_key row p other) (communication_notices db1)) \<le> 1) \<and>
       (\<forall>s c db2. record_obstacle row s c db1 = Inr db2 \<and> obstacle_recipient row p db1 = Some who \<longrightarrow>
          communication_notices db2 = communication_notices db1)" if steps: "fault_step\<^sup>*\<^sup>* db' db1" for db1
  proof -
    from flt.inv_run [OF steps ok] obtain more where m: "communication_notices db1 = communication_notices db' @ more"
      and d: "distinct (map notice_key (communication_notices db1))" by (auto simp: notices_ok_def)
    have k: "?k \<in> notice_key ` set (communication_notices db1)" using mem m by auto
    have one: "length (filter (\<lambda>n. notice_key n = x) (communication_notices db1)) \<le> 1" for x
    proof (cases "x \<in> notice_key ` set (communication_notices db1)")
      case False
      then have "filter (\<lambda>n. notice_key n = x) (communication_notices db1) = []" by (auto simp: filter_empty_conv)
      then show ?thesis by simp
    qed (use filter_key_one [OF d, of x] in simp)
    have "communication_notices db2 = communication_notices db1"
      if r: "record_obstacle row s c db1 = Inr db2" and same: "obstacle_recipient row p db1 = Some who" for s c db2
    proof (cases "s \<in> set OBSTACLES")
      case True
      then obtain n2 where "insert_notice (dm_tenant_id row) (mp_project_id p) (dm_message_id row) (Some who) (mp_target_agent_slot_id p) n2 s c db1 = Inr db2"
        using record_obstacle_message [OF r True msg] same by (metis option.inject)
      from insert_notice_Inr [OF this] k show ?thesis by (auto simp: obstacle_key_def)
    qed (use r in \<open>simp add: record_obstacle_def\<close>)
    then show ?thesis using m filter_key_one [OF d k] one by blast
  qed
  note exact = insert_notice_exact [OF ins, unfolded native, folded obstacle_key_def]
  show ?thesis by (rule exI [of _ who]) (use who who' exact later in blast)
qed

text \<open>A message from \<open>lead\<close> to \<open>dev\<close>, queued at the endpoint \<open>e\<close>.\<close>

definition packet_1 :: message_packet where
  "packet_1 = \<lparr>mp_project_id = ''p'', mp_sender = ''collaborator:p:lead'', mp_recipient = ''collaborator:p:dev'',
     mp_content = ''hi'', mp_reply_to = [], mp_response_mode = ''async'', mp_target_scope_id = ''s'',
     mp_target_agent_slot_id = Some ''dev'', mp_activation = ''invoke'', mp_delivery_policy = ''queue_until_idle'',
     mp_deadline = None, mp_maximum_attempts = 3, mp_retry_delay_seconds = 1, mp_attachment_refs = []\<rparr>"

definition sha_a :: string where "sha_a = replicate 64 (CHR ''a'')"

definition send_1 :: command where
  "send_1 = command_1\<lparr>command_type := ''message.send'', command_id := ''c2'', idempotency_key := ''k2'',
     payload := PyDict [(PyStr ''schema_version'', PyStr ''acs-message/1''), (PyStr ''communication_project_id'', PyStr ''p'')]\<rparr>"

definition envelope_1 :: envelope where
  "envelope_1 = \<lparr>en_tenant_id = ''t'', en_authority_id = ''a'', en_authority_incarnation = ''1'',
     en_principal_ref = ''agent:p'', en_grant_ref = ''g'', en_message_id = ''m1'', en_command_id = ''c2'',
     en_operation_id = ''o1'', en_endpoint_id = Some ''e'', en_binding_revision = Some 1, en_machine_id = Some ''mc'',
     en_node_id = Some ''n'', en_boot_incarnation = Some ''b'', en_accepted_state_digest = sha_a,
     en_packet = Message packet_1\<rparr>"

definition message_1 :: message_row where
  "message_1 = \<lparr>dm_tenant_id = ''t'', dm_message_id = ''m1'', dm_command_id = ''c2'', dm_operation_id = ''o1'',
     dm_endpoint_id = Some ''e'', dm_binding_revision = Some 1, dm_packet = Message packet_1, dm_command = send_1,
     dm_canonical_hash = sha_a, dm_envelope = envelope_1, dm_envelope_hash = sha_a, dm_state = ''queued'',
     dm_attempts = 0, dm_next_attempt_at = 0, dm_maximum_attempts = 3, dm_retry_delay_seconds = 1, dm_last_error = None,
     dm_policy_hash = sha_a, dm_accepted_state_digest = sha_a, dm_receipt_high_water = ''accepted_by_authority'',
     dm_activation = None\<rparr>"

theorem obstacle_notified_once_witness:
  "\<exists>db'. record_obstacle message_1 ''blocked'' None
      (faults_db\<lparr>delivery_messages := [message_1], communication_messages := [(''t'', ''p'', ''m1'')]\<rparr>) = Inr db' \<and>
     length (communication_notices db') = 1 \<and>
     (\<forall>s c db''. record_obstacle message_1 s c db' = Inr db'' \<longrightarrow> communication_notices db'' = communication_notices db')"
proof -
  let ?db = "faults_db\<lparr>delivery_messages := [message_1], communication_messages := [(''t'', ''p'', ''m1'')]\<rparr>"
  let ?db' = "?db\<lparr>notice_sequence := 1, communication_notices := [\<lparr>no_tenant_id = ''t'', no_project_id = ''p'',
      no_message_id = ''m1'', no_sequence = 1, no_recipient = ''collaborator:p:lead'', no_state = ''blocked'',
      no_code = ''delivery_unconfirmed''\<rparr>], communication_notice_routes := [\<lparr>nr_tenant_id = ''t'', nr_project_id = ''p'',
      nr_message_id = ''m1'', nr_recipient = ''collaborator:p:lead'', nr_source_slot_id = Some ''dev'',
      nr_native_requested = False, nr_delivery_message_id = None, nr_last_error = None\<rparr>]\<rparr>"
  have run: "record_obstacle message_1 ''blocked'' None ?db = Inr ?db'"
    by (simp add: record_obstacle_def OBSTACLES_def forward_def insert_notice_def lookup_delivery_def lookup_supervisor_def
        first_notice_def message_key_def message_1_def packet_1_def faults_db_def empty_delivery_db_def auth_db_1_def empty_db_def)
  have obs: "''blocked'' \<in> set OBSTACLES" by (simp add: OBSTACLES_def)
  have msg: "dm_packet message_1 = Message packet_1" by (simp add: message_1_def)
  have "distinct (map notice_key (communication_notices ?db))" by (simp add: faults_db_def empty_delivery_db_def)
  note once = obstacle_notified_once [OF run obs msg this]
  have "obstacle_recipient message_1 packet_1 ?db = Some ''collaborator:p:lead''"
    by (simp add: obstacle_recipient_def lookup_supervisor_def lookup_delivery_def message_key_def message_1_def packet_1_def faults_db_def
        empty_delivery_db_def auth_db_1_def empty_db_def)
  with once have "obstacle_recipient message_1 packet_1 ?db' = Some ''collaborator:p:lead''" by auto
  with once have "\<forall>s c db''. record_obstacle message_1 s c ?db' = Inr db'' \<longrightarrow> communication_notices db'' = communication_notices ?db'"
    by (metis (no_types, lifting) option.inject rtranclp.rtrancl_refl)
  then show ?thesis using run by (intro exI [of _ ?db']) simp
qed

end
