(* ===== verification/Communication_Boundary.thy ===== *)
theory Communication_Boundary
  imports Communication_Faults
begin

text \<open>
  \<open>communication_boundary\<close> of \<open>src/runtime/communication.py\<close>, the check of caller, project,
  recipient, scope policy and endpoint that every send and every retry of a message repeats, and
  the wait channel gate of \<open>src/runtime/communication_wait_ingress.py\<close>.

  A \<open>DeliveryService\<close> is the record \<open>delivery_service\<close>. The attributes it sets on its authority
  object (\<open>_communication_notice\<close>, \<open>_communication_recovery\<close> and the two wait ingress flags)
  are fields of it. An endpoint object is known by what \<open>descriptor()\<close> returns. The attachment
  store is a parameter: \<open>ds_attachments\<close> gives the references \<open>prepare_sender_attachments\<close>
  returns, or its exception. The endpoint resolver is a parameter as well, as it is in the code.
\<close>

record descriptor =
  de_machine_id :: string
  de_node_id :: string
  de_boot_incarnation :: string
  de_scope_id :: string
  de_agent_slot_id :: string
  de_supports_invoke :: bool
  de_evidence_class :: string

record delivery_service =
  ds_authority :: domain_authority
  ds_endpoints :: "(string \<times> descriptor) list"
  ds_notice :: bool
  ds_recovery :: bool
  ds_wait_ingress :: bool
  ds_attachments :: "command \<Rightarrow> string \<Rightarrow> string \<Rightarrow> string \<Rightarrow> string list \<Rightarrow> delivery_db \<Rightarrow> pyval list result"
  ds_resolver :: "(resolution_request \<Rightarrow> resolution result) option"

abbreviation rejected :: "string \<Rightarrow> exn" where
  "rejected code \<equiv> DeliveryRejected code ''blocked''"

section \<open>The policy of the target scope\<close>

text \<open>\<open>dict.get(k, d)\<close>, and \<open>in\<close> with a string on the left.\<close>

fun get_default :: "pyval \<Rightarrow> string \<Rightarrow> pyval \<Rightarrow> pyval result" where
  "get_default (PyDict kvs) k d = Inr (case dict_get kvs k of None \<Rightarrow> d | Some v \<Rightarrow> v)"
| "get_default _ k d = Inl (AttributeError ''get'')"

fun is_infix :: "string \<Rightarrow> string \<Rightarrow> bool" where
  "is_infix s [] = (s = [])"
| "is_infix s (c # cs) = (starts_with s (c # cs) \<or> is_infix s cs)"

fun py_contains :: "string \<Rightarrow> pyval \<Rightarrow> bool result" where
  "py_contains s (PyList xs) = Inr (PyStr s \<in> set xs)"
| "py_contains s (PyDict kvs) = Inr (PyStr s \<in> fst ` set kvs)"
| "py_contains s (PyStr t) = Inr (is_infix s t)"
| "py_contains s _ = Inl (TypeError ''argument is not iterable'')"

fun py_items :: "pyval \<Rightarrow> pyval list result" where
  "py_items (PyList xs) = Inr xs"
| "py_items (PyDict kvs) = Inr (map fst kvs)"
| "py_items (PyStr t) = Inr (map (\<lambda>c. PyStr [c]) t)"
| "py_items _ = Inl (TypeError ''object is not iterable'')"

fun check_policies :: "command \<Rightarrow> packet \<Rightarrow> pyval list \<Rightarrow> unit result" where
  "check_policies c p [] = Inr ()"
| "check_policies c p (policy # policies) =
     rbind (get_default policy ''rules'' (PyDict [])) (\<lambda>rules.
     rbind (get_default rules ''allowed_activations'' (PyList [PyStr ''invoke'', PyStr ''message_only''])) (\<lambda>activations.
     rbind (py_contains (packet_activation p) activations) (\<lambda>activation_ok.
     if \<not> activation_ok then Inl (refused c)
     else rbind (get_default rules ''allowed_delivery_policies'' (PyList [PyStr ''queue_until_idle''])) (\<lambda>modes.
       rbind (py_contains (packet_delivery_policy p) modes) (\<lambda>mode_ok.
       if \<not> mode_ok then Inl (refused c) else check_policies c p policies)))))"

definition team_policies :: "pyval \<Rightarrow> pyval list result" where
  "team_policies policy =
     rbind (get_default policy ''collaboration_team'' (PyDict [])) (\<lambda>team.
     rbind (get_default team ''policies'' (PyList [])) py_items)"

section \<open>The boundary\<close>

fun packet_project :: "packet \<Rightarrow> string" where
  "packet_project (Delivery p) = []"
| "packet_project (Message p) = mp_project_id p"
| "packet_project (Notice p) = np_project_id p"

definition active_policy :: "string \<Rightarrow> string \<Rightarrow> authority_db \<Rightarrow> pyval option" where
  "active_policy t scope db =
     map_option sc_policy (find (\<lambda>s. sc_tenant_id s = t \<and> sc_scope_id s = scope \<and> sc_status s = ''active'') (scopes db))"

definition participants_digest :: "hash_env \<Rightarrow> packet \<Rightarrow> string" where
  "participants_digest env p = digest_json env (PyDict
     [(PyStr ''project_id'', PyStr (packet_project p)), (PyStr ''sender'', opt_str (packet_sender p)),
      (PyStr ''recipient'', opt_str (packet_recipient p))])"

text \<open>The caller of a natural message is the sender it names.\<close>

definition check_sender :: "delivery_service \<Rightarrow> command \<Rightarrow> message_packet \<Rightarrow> delivery_db \<Rightarrow> unit result" where
  "check_sender self c p db =
     (if starts_with ''client:'' (mp_sender p)
      then if \<not> (ctx_trusted_client (auth_context (ds_authority self)) \<or> ds_recovery self) then Inl (refused c)
           else guard (\<exists>k \<in> set (communication_clients (dcore db)). cl_tenant_id k = tenant_id c \<and>
                  cl_project_id k = mp_project_id p \<and> cl_address k = mp_sender p \<and> cl_principal_ref k = principal_ref c)
                  (refused c)
      else rbind (parse_handle (mp_sender p) ''collaborator'' (mp_project_id p)) (\<lambda>slot.
        if (case ctx_agent_slot_id (auth_context (ds_authority self)) of None \<Rightarrow> False | Some own \<Rightarrow> own \<noteq> slot)
        then Inl (refused c)
        else guard (\<exists>m \<in> set (contacts (dcore db)). ct_tenant_id m = tenant_id c \<and> ct_project_id m = mp_project_id p \<and>
               ct_principal_ref m = principal_ref c \<and> ct_agent_slot_id m = slot \<and> ct_grant_ref m = grant_ref c \<and>
               (\<exists>s \<in> set (agent_slots (dcore db)). as_agent_slot_id s = slot \<and> as_tenant_id s = ct_tenant_id m \<and>
                  as_status s = ''active'')) (refused c)))"

definition check_caller ::
  "delivery_service \<Rightarrow> command \<Rightarrow> packet \<Rightarrow> project_row \<Rightarrow> delivery_db \<Rightarrow> unit result" where
  "check_caller self c p project db =
     (case p of
        Delivery _ \<Rightarrow> Inl (rejected ''historical_delivery_read_only'')
      | Notice n \<Rightarrow> authorize_notice c n db
      | Message m \<Rightarrow>
          rbind (check_sender self c m db) (\<lambda>_.
          if mp_attachment_refs m = [] then Inr ()
          else rbind (ds_attachments self c (mp_project_id m) (pj_scope_id project) (mp_sender m)
                 (map at_attachment_id (mp_attachment_refs m)) db) (\<lambda>references.
            guard (references = map attachment_dump (mp_attachment_refs m)) (rejected ''attachment_packet_identity_changed''))))"

definition target_available :: "int \<Rightarrow> command \<Rightarrow> packet \<Rightarrow> string \<Rightarrow> authority_db \<Rightarrow> bool" where
  "target_available now c p target db \<longleftrightarrow>
     (\<exists>s \<in> set (agent_slots db). as_tenant_id s = tenant_id c \<and> as_agent_slot_id s = target \<and>
        as_scope_id s = packet_target_scope p \<and> as_status s = ''active'' \<and>
        (\<exists>m \<in> set (contacts db). ct_tenant_id m = as_tenant_id s \<and> ct_project_id m = packet_project p \<and>
           ct_agent_slot_id m = as_agent_slot_id s \<and>
           (\<exists>g \<in> set (grants db). gr_grant_ref g = ct_grant_ref m \<and> gr_tenant_id g = ct_tenant_id m \<and>
              gr_principal_ref g = ct_principal_ref m \<and>
              (packet_activation p = ''message_only'' \<or>
               gr_revoked_at g = None \<and> (case gr_expires_at g of None \<Rightarrow> True | Some e \<Rightarrow> now < e) \<and>
               gr_authority_id g = authority_id c \<and> gr_authority_incarnation g = authority_incarnation c))))"

definition check_binding ::
  "hash_env \<Rightarrow> delivery_service \<Rightarrow> int \<Rightarrow> command \<Rightarrow> packet \<Rightarrow> string \<Rightarrow> string option \<Rightarrow> int option \<Rightarrow> bool \<Rightarrow> delivery_db
     \<Rightarrow> endpoint_row result" where
  "check_binding env self now c p target endpoint_id revision recovery db =
     (case (case endpoint_id of None \<Rightarrow> None | Some i \<Rightarrow> lookup_endpoint (tenant_id c) i db) of
        None \<Rightarrow> Inl (rejected ''endpoint_binding_missing'')
      | Some b \<Rightarrow>
          if ep_status b \<noteq> ''active'' \<or> ep_scope_id b \<noteq> packet_target_scope p \<or> ep_agent_slot_id b \<noteq> target
          then Inl (rejected ''endpoint_binding_changed'')
          else if recovery \<and> revision = None then Inl (TypeError ''<'')
          else if (if recovery then ep_revision b < the revision else Some (ep_revision b) \<noteq> revision)
          then Inl (rejected ''endpoint_binding_changed'')
          else if access_mode (ds_authority self) \<noteq> ''owner'' \<and>
                  (case ep_expires_at b of None \<Rightarrow> False | Some e \<Rightarrow> e \<le> now)
          then Inl (rejected ''endpoint_binding_expired'')
          else if packet_activation p = ''invoke'' \<and> \<not> ep_supports_invoke b
          then Inl (rejected ''invoke_endpoint_unavailable'')
          else Inr b)"

definition check_target ::
  "hash_env \<Rightarrow> delivery_service \<Rightarrow> (nat \<Rightarrow> int) \<Rightarrow> command \<Rightarrow> packet \<Rightarrow> string option \<Rightarrow> int option \<Rightarrow> bool \<Rightarrow> delivery_db
     \<Rightarrow> (endpoint_row option \<times> string \<times> string) result" where
  "check_target env self clk c p endpoint_id revision recovery db =
     (let who = (case packet_recipient p of None \<Rightarrow> [] | Some r \<Rightarrow> r) in
      if starts_with ''client:'' who
      then if \<not> (\<exists>k \<in> set (communication_clients (dcore db)). cl_tenant_id k = tenant_id c \<and>
                    cl_project_id k = packet_project p \<and> cl_address k = who)
              \<or> packet_target_slot p \<noteq> None \<or> endpoint_id \<noteq> None
           then Inl (rejected ''recipient_binding_mismatch'')
           else Inr (None, digest_json env (PyDict [(PyStr ''authority_inbox'', PyStr (packet_project p))]),
                     participants_digest env p)
      else rbind (parse_handle who ''collaborator'' (packet_project p)) (\<lambda>target.
        if Some target \<noteq> packet_target_slot p then Inl (rejected ''recipient_binding_mismatch'')
        else if \<not> target_available (clk 0) c p target (dcore db) then Inl (rejected ''target_slot_unavailable'')
        else case active_policy (tenant_id c) (packet_target_scope p) (dcore db) of
          None \<Rightarrow> Inl (rejected ''scope_unavailable'')
        | Some policy \<Rightarrow>
            rbind (if access_mode (ds_authority self) = ''owner'' then Inr ()
                   else rbind (team_policies policy) (check_policies c p)) (\<lambda>_.
            if packet_activation p = ''message_only'' \<and> endpoint_id = None
            then Inr (None, digest_json env policy, participants_digest env p)
            else rbind (check_binding env self (clk 1) c p target endpoint_id revision recovery db) (\<lambda>b.
              Inr (Some b, digest_json env policy, participants_digest env p)))))"

definition communication_boundary ::
  "hash_env \<Rightarrow> delivery_service \<Rightarrow> (nat \<Rightarrow> int) \<Rightarrow> command \<Rightarrow> packet \<Rightarrow> string option \<Rightarrow> int option \<Rightarrow> bool \<Rightarrow> delivery_db
     \<Rightarrow> (endpoint_row option \<times> string \<times> string) result" where
  "communication_boundary env self clk c p endpoint_id revision recovery db =
     (let auth = ds_authority self; scope = Some (packet_target_scope p) in
      rbind (authorize env auth clk c ''message.send'' scope 0 (dcore db)) (\<lambda>_.
      if payload_get c ''communication_project_id'' \<noteq> Some (PyStr (packet_project p))
      then Inl (rejected ''message_project_identity_changed'')
      else rbind (if packet_activation p = ''invoke'' \<and> packet_target_slot p \<noteq> None
             then authorize env auth (\<lambda>n. clk (4 + n)) c ''runtime.invoke'' scope 0 (dcore db) else Inr ()) (\<lambda>_.
      if (case packet_deadline p of None \<Rightarrow> False | Some d \<Rightarrow> instant d \<le> clk 8)
      then Inl (DeliveryRejected ''deadline_expired'' ''expired'')
      else case find (\<lambda>j. pj_tenant_id j = tenant_id c \<and> pj_project_id j = packet_project p \<and> pj_state j = ''active'')
                  (collaboration_projects (dcore db)) of
        None \<Rightarrow> Inl (rejected ''project_unavailable'')
      | Some project \<Rightarrow>
          rbind (check_caller self c p project db) (\<lambda>_.
          check_target env self (\<lambda>n. clk (9 + n)) c p endpoint_id revision recovery db))))"

definition delivery_boundary ::
  "hash_env \<Rightarrow> delivery_service \<Rightarrow> (nat \<Rightarrow> int) \<Rightarrow> command \<Rightarrow> packet \<Rightarrow> string option \<Rightarrow> int option \<Rightarrow> bool \<Rightarrow> delivery_db
     \<Rightarrow> (endpoint_row option \<times> string \<times> string) result" where
  "delivery_boundary env self clk c p endpoint_id revision recovery db =
     (if is_historical p then Inl (rejected ''historical_delivery_read_only'')
      else communication_boundary env self clk c p endpoint_id revision recovery db)"

section \<open>The wait channel\<close>

definition lookup_ingress :: "string \<Rightarrow> string \<Rightarrow> string \<Rightarrow> delivery_db \<Rightarrow> ingress_row option" where
  "lookup_ingress t p mid db =
     find (\<lambda>w. wi_tenant_id w = t \<and> wi_project_id w = p \<and> wi_message_id w = mid) (communication_wait_ingress db)"

definition update_ingress :: "string \<Rightarrow> string \<Rightarrow> string \<Rightarrow> (ingress_row \<Rightarrow> ingress_row) \<Rightarrow> delivery_db \<Rightarrow> delivery_db" where
  "update_ingress t p mid f db = db\<lparr>communication_wait_ingress := update_where
     (\<lambda>w. wi_tenant_id w = t \<and> wi_project_id w = p \<and> wi_message_id w = mid) f (communication_wait_ingress db)\<rparr>"

definition reserve ::
  "string \<Rightarrow> string \<Rightarrow> string \<Rightarrow> string \<Rightarrow> string list \<Rightarrow> int \<Rightarrow> delivery_db \<Rightarrow> delivery_db result" where
  "reserve t p mid recipient requests expiry db =
     (if lookup_ingress t p mid db \<noteq> None then Inl (IntegrityError ''communication_wait_ingress_pkey'')
      else if requests = [] \<or> 32 < length requests then Inl (IntegrityError ''communication_wait_ingress_check'')
      else if (t, p, mid) \<notin> set (communication_messages db) then Inl (IntegrityError ''communication_wait_ingress_fkey'')
      else Inr (update_message (t, mid) (\<lambda>m. m\<lparr>dm_state := ''retry_wait'', dm_next_attempt_at := expiry\<rparr>)
        (db\<lparr>communication_wait_ingress := communication_wait_ingress db @
          [\<lparr>wi_tenant_id = t, wi_project_id = p, wi_message_id = mid, wi_recipient = recipient, wi_request_ids = requests,
            wi_state = ''reserved'', wi_waiter_ref = None, wi_expires_at = expiry, wi_selected_at = None\<rparr>]\<rparr>)))"

definition select_ingress ::
  "int \<Rightarrow> string \<Rightarrow> string \<Rightarrow> string \<Rightarrow> string \<Rightarrow> string list \<Rightarrow> string \<Rightarrow> delivery_db \<Rightarrow> delivery_db result" where
  "select_ingress now t p mid recipient requests waiter db =
     (if requests = [] \<or> 32 < length requests then Inl (IntegrityError ''communication_wait_ingress_check'')
      else if lookup_ingress t p mid db \<noteq> None
      then Inr (update_ingress t p mid
             (\<lambda>w. w\<lparr>wi_state := ''selected'', wi_waiter_ref := Some waiter, wi_selected_at := Some now\<rparr>) db)
      else if (t, p, mid) \<notin> set (communication_messages db) then Inl (IntegrityError ''communication_wait_ingress_fkey'')
      else Inr (db\<lparr>communication_wait_ingress := communication_wait_ingress db @
          [\<lparr>wi_tenant_id = t, wi_project_id = p, wi_message_id = mid, wi_recipient = recipient, wi_request_ids = requests,
            wi_state = ''selected'', wi_waiter_ref = Some waiter, wi_expires_at = now, wi_selected_at = Some now\<rparr>]\<rparr>))"

text \<open>\<open>MAX(expires_at)\<close> over the live waits of the reserved requests.\<close>

definition latest_wait :: "int \<Rightarrow> ingress_row \<Rightarrow> delivery_db \<Rightarrow> int option" where
  "latest_wait now w db =
     (let live = map wt_expires_at (filter (\<lambda>x. wt_tenant_id x = wi_tenant_id w \<and> wt_project_id x = wi_project_id w \<and>
            wt_address x = wi_recipient w \<and> wt_request_id x \<in> set (wi_request_ids w) \<and> now < wt_expires_at x)
            (communication_waits db))
      in if live = [] then None else Some (Max (set live)))"

definition gate :: "int \<Rightarrow> string \<Rightarrow> string \<Rightarrow> string \<Rightarrow> delivery_db \<Rightarrow> bool \<times> delivery_db" where
  "gate now t p mid db =
     (case lookup_ingress t p mid db of
        None \<Rightarrow> (False, db)
      | Some w \<Rightarrow>
          if wi_state w \<noteq> ''reserved'' then (wi_state w = ''selected'', db)
          else case latest_wait now w db of
            Some expiry \<Rightarrow>
              (True, update_message (t, mid) (\<lambda>m. m\<lparr>dm_next_attempt_at := expiry\<rparr>)
                 (update_ingress t p mid (\<lambda>w. w\<lparr>wi_expires_at := expiry\<rparr>) db))
          | None \<Rightarrow>
              let released = update_ingress t p mid (\<lambda>w. w\<lparr>wi_state := ''released''\<rparr>) db in
              if has_receipt (t, mid) [''runtime_dispatched'', ''runtime_acknowledged'', ''response_received''] db
              then (False, released)
              else (False, update_message (t, mid)
                (\<lambda>m. if dm_state m = ''retry_wait'' \<and> dm_attempts m = 0
                     then m\<lparr>dm_state := ''queued'', dm_next_attempt_at := now\<rparr> else m) released))"

section \<open>What the boundary has checked\<close>

lemma check_target_Inr:
  assumes "check_target env self clk c p endpoint_id revision recovery db = Inr (b, ph, sd)"
  shows "sd = participants_digest env p \<and>
    (case b of None \<Rightarrow> endpoint_id = None
     | Some e \<Rightarrow> \<exists>i. endpoint_id = Some i \<and> lookup_endpoint (tenant_id c) i db = Some e \<and> ep_status e = ''active'' \<and>
         ep_scope_id e = packet_target_scope p \<and> Some (ep_agent_slot_id e) = packet_target_slot p \<and>
         (if recovery then the revision \<le> ep_revision e else revision = Some (ep_revision e)) \<and>
         (packet_activation p = ''invoke'' \<longrightarrow> ep_supports_invoke e) \<and>
         target_available (clk 0) c p (ep_agent_slot_id e) (dcore db))"
proof -
  have bind: "check_binding env self now c p target endpoint_id revision recovery db = Inr e \<Longrightarrow>
      \<exists>i. endpoint_id = Some i \<and> lookup_endpoint (tenant_id c) i db = Some e \<and> ep_status e = ''active'' \<and>
         ep_scope_id e = packet_target_scope p \<and> ep_agent_slot_id e = target \<and>
         (if recovery then the revision \<le> ep_revision e else revision = Some (ep_revision e)) \<and>
         (packet_activation p = ''invoke'' \<longrightarrow> ep_supports_invoke e)" for now target e
    unfolding check_binding_def by (auto split: option.splits if_splits)
  show ?thesis
    using assms unfolding check_target_def Let_def
    by (auto split: if_splits option.split_asm dest!: bind)
qed

end
