(* ===== verification/Delivery_Service.thy ===== *)
theory Delivery_Service
  imports Communication_Boundary
begin

text \<open>
  \<open>DeliveryService\<close> of \<open>src/runtime/delivery.py\<close>: binding an endpoint, queueing a message and
  reading one back. Each method is one transaction over \<open>delivery_db\<close>; \<open>clk n\<close> is the
  \<open>n\<close>-th reading of the database clock and identifiers made with \<open>uuid4\<close> are arguments.
  A successful command returns whether it was a replay, with its result.
\<close>

section \<open>Receipts and events\<close>

definition insert_delivery_receipt :: "receipt_row \<Rightarrow> delivery_db \<Rightarrow> delivery_db result" where
  "insert_delivery_receipt r db =
     (if lookup_receipt (receipt_message r) (dr_layer r) db \<noteq> None then Inl (IntegrityError ''delivery_receipts_pkey'')
      else if \<exists>s \<in> set (delivery_receipts db). dr_tenant_id s = dr_tenant_id r \<and> dr_receipt_id s = dr_receipt_id r
      then Inl (IntegrityError ''delivery_receipts_tenant_id_receipt_id_key'')
      else if lookup_delivery (receipt_message r) db = None then Inl (IntegrityError ''delivery_receipts_fkey'')
      else Inr (db\<lparr>delivery_receipts := delivery_receipts db @ [r]\<rparr>))"

definition is_notice_command :: "command \<Rightarrow> bool" where
  "is_notice_command c \<longleftrightarrow> payload_get c ''schema_version'' = Some (PyStr ''acs-notice/1'')"

definition delivery_event :: "command \<Rightarrow> command_result \<Rightarrow> string \<Rightarrow> string \<Rightarrow> string option \<Rightarrow> authority_db \<Rightarrow> authority_db" where
  "delivery_event c res hashed state work_item db = db\<lparr>domain_events := domain_events db @
     [\<lparr>ev_tenant_id = tenant_id c, ev_work_item_id = None, ev_from_state = None, ev_to_state = state,
       ev_initiated_by = (if is_notice_command c then ''acs'' else principal_ref c),
       ev_lineage_mode = (if is_notice_command c then ''system_notification'' else ''external_command''),
       ev_command_id = command_id c, ev_resulting_revision = res_revision res, ev_canonical_hash = Some hashed,
       ev_target_kind = ''message'', ev_target_id = target_id c, ev_related_work_item_id = work_item\<rparr>]\<rparr>"

section \<open>Binding an endpoint\<close>

definition binding_dump :: "hash_env \<Rightarrow> binding_request \<Rightarrow> pyval" where
  "binding_dump env r = PyDict [(PyStr ''scope_id'', PyStr (br_scope_id r)),
     (PyStr ''agent_slot_id'', PyStr (br_agent_slot_id r)), (PyStr ''expires_at'', opt_time env (br_expires_at r))]"

definition descriptor_dump :: "descriptor \<Rightarrow> pyval" where
  "descriptor_dump d = PyDict
     [(PyStr ''machine_id'', PyStr (de_machine_id d)), (PyStr ''node_id'', PyStr (de_node_id d)),
      (PyStr ''boot_incarnation'', PyStr (de_boot_incarnation d)), (PyStr ''scope_id'', PyStr (de_scope_id d)),
      (PyStr ''agent_slot_id'', PyStr (de_agent_slot_id d)), (PyStr ''supports_invoke'', PyBool (de_supports_invoke d)),
      (PyStr ''evidence_class'', PyStr (de_evidence_class d))]"

definition bound_endpoint ::
  "delivery_service \<Rightarrow> command \<Rightarrow> binding_request \<Rightarrow> descriptor \<Rightarrow> command_result \<Rightarrow> endpoint_row" where
  "bound_endpoint self c r d res =
     \<lparr>ep_tenant_id = tenant_id c, ep_endpoint_id = target_id c, ep_revision = res_revision res, ep_scope_id = br_scope_id r,
      ep_agent_slot_id = br_agent_slot_id r, ep_machine_id = de_machine_id d, ep_node_id = de_node_id d,
      ep_boot_incarnation = de_boot_incarnation d, ep_supports_invoke = de_supports_invoke d,
      ep_evidence_class = de_evidence_class d,
      ep_expires_at = (if access_mode (ds_authority self) = ''owner'' then None else map_option instant (br_expires_at r)),
      ep_status = ''active'', ep_command_id = command_id c, ep_operation_id = res_operation_id res\<rparr>"

text \<open>\<open>INSERT ... ON CONFLICT(tenant_id,endpoint_id) DO UPDATE\<close>\<close>

definition upsert_endpoint :: "endpoint_row \<Rightarrow> delivery_db \<Rightarrow> delivery_db" where
  "upsert_endpoint e db = db\<lparr>delivery_endpoints :=
     (if lookup_endpoint (ep_tenant_id e) (ep_endpoint_id e) db = None then delivery_endpoints db @ [e]
      else update_where (\<lambda>f. ep_tenant_id f = ep_tenant_id e \<and> ep_endpoint_id f = ep_endpoint_id e) (\<lambda>_. e)
        (delivery_endpoints db))\<rparr>"

definition bind_endpoint ::
  "hash_env \<Rightarrow> delivery_service \<Rightarrow> (nat \<Rightarrow> int) \<Rightarrow> string \<Rightarrow> command \<Rightarrow> binding_request \<Rightarrow> delivery_db
     \<Rightarrow> (command_result \<times> delivery_db) result" where
  "bind_endpoint env self clk oid c r0 db =
     (if command_type c \<noteq> ''message.bind'' \<or> target_kind c \<noteq> ''message'' then Inl (refused c)
      else rbind (validate_binding_request r0) (\<lambda>r.
      case map_of (ds_endpoints self) (target_id c) of
        None \<Rightarrow> Inl (rejected ''endpoint_not_configured'')
      | Some d \<Rightarrow>
        if (de_scope_id d, de_agent_slot_id d) \<noteq> (br_scope_id r, br_agent_slot_id r)
        then Inl (rejected ''endpoint_scope_mismatch'')
        else
        let res = \<lparr>res_command_id = command_id c, res_operation_id = oid, res_target_id = target_id c,
                   res_revision = expected_revision c + 1, res_state = ''endpoint_bound'',
                   res_receipt_layer = ''accepted_by_authority'', res_duplicate = False\<rparr>;
            auth = ds_authority self; scope = Some (br_scope_id r) in
        rbind (authorize env auth clk c ''delivery.manage'' scope 0 (dcore db)) (\<lambda>_.
        rbind (dedup env c res (PyDict [(PyStr ''binding'', binding_dump env r), (PyStr ''node'', descriptor_dump d)]) (dcore db))
          (\<lambda>((duplicate, hashed), core1).
        case duplicate of
          Some prior \<Rightarrow> Inr (prior, db)
        | None \<Rightarrow>
          let slot_active = (\<exists>s \<in> set (agent_slots core1). as_tenant_id s = tenant_id c \<and> as_scope_id s = br_scope_id r \<and>
                as_agent_slot_id s = br_agent_slot_id r \<and> as_status s = ''active'');
              revision = (case lookup_endpoint (tenant_id c) (target_id c) db of None \<Rightarrow> 0 | Some e \<Rightarrow> ep_revision e) in
          if \<not> slot_active then Inl (rejected ''target_slot_unavailable'')
          else if revision \<noteq> expected_revision c
          then Inl (revision_conflict (target_id c) (expected_revision c) revision)
          else if access_mode auth \<noteq> ''owner'' \<and>
                  (case br_expires_at r of None \<Rightarrow> True | Some e \<Rightarrow> instant e \<le> clk 4)
          then Inl (DeliveryRejected ''binding_expired'' ''expired'')
          else rbind (authorize env auth (\<lambda>n. clk (5 + n)) c ''delivery.manage'' scope 0 core1) (\<lambda>_.
          if past_deadline c (clk 9) then Inl (DeliveryRejected ''binding_authorization_expired'' ''expired'')
          else
          rbind (record_operation c oid (delivery_event c res hashed ''message.endpoint_bound'' None core1)) (\<lambda>core2.
          rbind (record_outbox c oid ''message.endpoint_bound'' (PyDict [(PyStr ''endpoint_id'', PyStr (target_id c))]) core2) (\<lambda>core3.
          Inr (res, (upsert_endpoint (bound_endpoint self c r d res) db)\<lparr>dcore := core3\<rparr>))))))))"

section \<open>Queueing a message\<close>

definition direct_inbox :: "packet \<Rightarrow> bool" where
  "direct_inbox p = (case p of Message m \<Rightarrow> starts_with ''client:'' (mp_recipient m) \<or> mp_activation m = ''message_only'' | _ \<Rightarrow> False)"

definition attachment_hold :: "packet \<Rightarrow> bool" where
  "attachment_hold p = (case p of Message m \<Rightarrow> mp_attachment_refs m \<noteq> [] \<and> mp_activation m = ''invoke'' \<and> \<not> direct_inbox p
     | _ \<Rightarrow> False)"

definition send_extra :: "hash_env \<Rightarrow> packet \<Rightarrow> string option \<Rightarrow> int option \<Rightarrow> pyval" where
  "send_extra env p endpoint_id revision = PyDict [(PyStr ''packet'', packet_dump env p),
     (PyStr ''endpoint_id'', opt_str endpoint_id), (PyStr ''binding_revision'', opt_int revision)]"

definition envelope_for ::
  "command \<Rightarrow> packet \<Rightarrow> string \<Rightarrow> string option \<Rightarrow> int option \<Rightarrow> endpoint_row option \<Rightarrow> string \<Rightarrow> envelope" where
  "envelope_for c p oid endpoint_id revision b state_digest =
     \<lparr>en_tenant_id = tenant_id c, en_authority_id = authority_id c, en_authority_incarnation = authority_incarnation c,
      en_principal_ref = principal_ref c, en_grant_ref = grant_ref c, en_message_id = target_id c,
      en_command_id = command_id c, en_operation_id = oid, en_endpoint_id = endpoint_id, en_binding_revision = revision,
      en_machine_id = map_option ep_machine_id b, en_node_id = map_option ep_node_id b,
      en_boot_incarnation = map_option ep_boot_incarnation b, en_accepted_state_digest = state_digest, en_packet = p\<rparr>"

definition queued_row ::
  "hash_env \<Rightarrow> int \<Rightarrow> command \<Rightarrow> packet \<Rightarrow> string option \<Rightarrow> int option \<Rightarrow> envelope \<Rightarrow> string \<Rightarrow> string \<Rightarrow> message_row" where
  "queued_row env now c p endpoint_id revision e hashed policy_hash =
     \<lparr>dm_tenant_id = tenant_id c, dm_message_id = target_id c, dm_command_id = command_id c,
      dm_operation_id = en_operation_id e, dm_endpoint_id = endpoint_id, dm_binding_revision = revision, dm_packet = p,
      dm_command = c, dm_canonical_hash = hashed, dm_envelope = e,
      dm_envelope_hash = digest_json env (envelope_dump env e), dm_state = ''queued'', dm_attempts = 0,
      dm_next_attempt_at = now, dm_maximum_attempts = packet_maximum_attempts p,
      dm_retry_delay_seconds = packet_retry_delay p, dm_last_error = None, dm_policy_hash = policy_hash,
      dm_accepted_state_digest = en_accepted_state_digest e, dm_receipt_high_water = ''accepted_by_authority'',
      dm_activation = None\<rparr>"

definition insert_delivery :: "message_row \<Rightarrow> delivery_db \<Rightarrow> delivery_db result" where
  "insert_delivery m db =
     (if lookup_delivery (message_key m) db \<noteq> None then Inl (IntegrityError ''delivery_messages_pkey'')
      else if \<exists>x \<in> set (delivery_messages db). dm_operation_id x = dm_operation_id m \<or>
                (dm_tenant_id x, dm_command_id x) = (dm_tenant_id m, dm_command_id m)
      then Inl (IntegrityError ''delivery_messages_key'')
      else Inr (db\<lparr>delivery_messages := delivery_messages db @ [m]\<rparr>))"

definition accepted_receipt :: "hash_env \<Rightarrow> message_row \<Rightarrow> receipt_row" where
  "accepted_receipt env m =
     (let rid = ''delivery:'' @ dm_message_id m @ '':accepted_by_authority'' in
      \<lparr>dr_tenant_id = dm_tenant_id m, dr_message_id = dm_message_id m, dr_receipt_id = rid,
       dr_layer = ''accepted_by_authority'', dr_attempt_id = None, dr_dispatch_id = None,
       dr_evidence = PyDict [(PyStr ''receipt_id'', PyStr rid), (PyStr ''operation_id'', PyStr (dm_operation_id m)),
         (PyStr ''command_id'', PyStr (dm_command_id m)), (PyStr ''canonical_hash'', PyStr (dm_canonical_hash m)),
         (PyStr ''envelope_hash'', PyStr (digest_json env (envelope_dump env (dm_envelope m)))),
         (PyStr ''accepted_revision'', opt_int (packet_accepted_revision (dm_packet m))),
         (PyStr ''accepted_state_digest'', PyStr (dm_accepted_state_digest m))]\<rparr>)"

definition inbox_receipt :: "message_row \<Rightarrow> receipt_row" where
  "inbox_receipt m =
     \<lparr>dr_tenant_id = dm_tenant_id m, dr_message_id = dm_message_id m,
      dr_receipt_id = ''delivery:'' @ dm_message_id m @ '':target_inbox_committed'', dr_layer = ''target_inbox_committed'',
      dr_attempt_id = None, dr_dispatch_id = None,
      dr_evidence = PyDict [(PyStr ''source'', PyStr ''authority_inbox''), (PyStr ''model_consumption'', PyStr ''unconfirmed'')]\<rparr>"

definition delivery_operation :: "command \<Rightarrow> string \<Rightarrow> authority_db \<Rightarrow> authority_db result" where
  "delivery_operation c oid db =
     rbind (record_operation c oid db) (\<lambda>db1.
     Inr (db1\<lparr>operations := update_where (\<lambda>q. op_operation_id q = oid)
       (\<lambda>q. q\<lparr>op_provider_workflow_id := ''acs-delivery/'' @ oid\<rparr>) (operations db1)\<rparr>))"

definition delivery_outbox ::
  "command \<Rightarrow> packet \<Rightarrow> command_result \<Rightarrow> string \<Rightarrow> authority_db \<Rightarrow> authority_db result" where
  "delivery_outbox c p res hashed db =
     (let oid = res_operation_id res; db1 = delivery_event c res hashed ''message.queued'' (packet_work_item p) db in
     if \<exists>m \<in> set (outbox db1). ob_tenant_id m = tenant_id c \<and> ob_message_id m = target_id c
     then Inl (IntegrityError ''outbox_tenant_id_message_id_key'')
     else Inr (db1\<lparr>outbox := outbox db1 @
       [\<lparr>ob_tenant_id = tenant_id c, ob_message_id = target_id c, ob_operation_id = oid, ob_topic = ''message.delivery'',
         ob_payload = PyDict [(PyStr ''tenant_id'', PyStr (tenant_id c)), (PyStr ''message_id'', PyStr (target_id c)),
           (PyStr ''operation_id'', PyStr oid)], ob_delivered_at = None\<rparr>]\<rparr>))"

definition commit_inbox :: "message_row \<Rightarrow> delivery_db \<Rightarrow> delivery_db result" where
  "commit_inbox m db =
     (let hold = attachment_hold (dm_packet m) in
      if \<not> (direct_inbox (dm_packet m) \<or> hold) then Inr db
      else insert_delivery_receipt (inbox_receipt m)
        (update_message (message_key m) (\<lambda>r. r\<lparr>dm_state := (if hold then ''blocked'' else ''delivered''),
           dm_receipt_high_water := ''target_inbox_committed'',
           dm_last_error := (if hold then Some ''native_attachment_delivery_unsupported'' else None)\<rparr>) db))"

definition queue_message ::
  "hash_env \<Rightarrow> int \<Rightarrow> command_result \<Rightarrow> message_row \<Rightarrow> authority_db \<Rightarrow> delivery_db \<Rightarrow> delivery_db result" where
  "queue_message env now res m core1 db =
     (let c = dm_command m in
      rbind (delivery_operation c (res_operation_id res) core1) (\<lambda>core2.
      if (case packet_deadline (dm_packet m) of None \<Rightarrow> False | Some d \<Rightarrow> instant d \<le> now)
      then Inl (DeliveryRejected ''deadline_expired'' ''expired'')
      else rbind (insert_delivery m (db\<lparr>dcore := core2\<rparr>)) (\<lambda>db1.
      rbind (delivery_outbox c (dm_packet m) res (dm_canonical_hash m) (dcore db1)) (\<lambda>core3.
      rbind (insert_delivery_receipt (accepted_receipt env m) (db1\<lparr>dcore := core3\<rparr>)) (commit_inbox m)))))"

definition send_message ::
  "hash_env \<Rightarrow> delivery_service \<Rightarrow> (nat \<Rightarrow> int) \<Rightarrow> string \<Rightarrow> int \<Rightarrow> command \<Rightarrow> packet \<Rightarrow> string option \<Rightarrow> int option
     \<Rightarrow> delivery_db \<Rightarrow> (command_result \<times> delivery_db) result" where
  "send_message env self clk oid max_packet_bytes c p0 endpoint_id revision db =
     (if \<not> (65536 \<le> max_packet_bytes \<and> max_packet_bytes \<le> 8 * 1024 * 1024)
      then Inl (ValueError ''invalid trusted packet byte limit'')
      else if command_type c \<noteq> ''message.send'' \<or> target_kind c \<noteq> ''message'' then Inl (refused c)
      else rbind (validate_packet p0) (\<lambda>p.
      if is_historical p then Inl (rejected ''historical_delivery_read_only'')
      else if (case p of Notice _ \<Rightarrow> \<not> ds_notice self | _ \<Rightarrow> False) then Inl (refused c)
      else if (case (packet_deadline p, deadline c) of (Some d, Some e) \<Rightarrow> instant e < instant d | _ \<Rightarrow> False)
              \<or> max_packet_bytes < int (packet_bytes env p)
      then Inl (rejected ''packet_bound_exceeded'')
      else if \<not> direct_inbox p \<and> (endpoint_id \<in> {None, Some []} \<or> (case revision of None \<Rightarrow> True | Some n \<Rightarrow> n < 1))
      then Inl (rejected ''invalid_endpoint_selection'')
      else
      let res = \<lparr>res_command_id = command_id c, res_operation_id = oid, res_target_id = target_id c,
                 res_revision = expected_revision c, res_state = ''message_queued'',
                 res_receipt_layer = ''accepted_by_authority'', res_duplicate = False\<rparr>;
          auth = ds_authority self; scope = Some (packet_target_scope p) in
      rbind (authorize env auth clk c ''message.send'' scope 0 (dcore db)) (\<lambda>_.
      rbind (if packet_activation p = ''invoke'' \<and> \<not> direct_inbox p
             then authorize env auth (\<lambda>n. clk (4 + n)) c ''runtime.invoke'' scope 0 (dcore db) else Inr ()) (\<lambda>_.
      rbind (dedup env c res (send_extra env p endpoint_id revision) (dcore db)) (\<lambda>((duplicate, hashed), core1).
      case duplicate of
        Some prior \<Rightarrow> Inr (prior, db)
      | None \<Rightarrow>
        rbind (delivery_boundary env self (\<lambda>n. clk (8 + n)) c p endpoint_id revision False (db\<lparr>dcore := core1\<rparr>))
          (\<lambda>(b, policy_hash, state_digest).
        let e = envelope_for c p oid endpoint_id revision b state_digest in
        if \<not> envelope_ok e then Inl (ValueError ''DeliveryEnvelope'')
        else rbind (queue_message env (clk 19) res
               (queued_row env (clk 20) c p endpoint_id revision e hashed policy_hash) core1 db)
          (\<lambda>db'. Inr (res, db'))))))))"

section \<open>Reading a message\<close>

definition caller_address ::
  "hash_env \<Rightarrow> authenticated_context \<Rightarrow> string \<Rightarrow> authority_db \<Rightarrow> string result" where
  "caller_address env ctx project db =
     (if ctx_trusted_client ctx
      then handle ''client'' project (digest_json env (PyList [PyStr (ctx_authority_id ctx), PyStr (ctx_principal_ref ctx)]))
      else case remdups (map ct_agent_slot_id (filter (\<lambda>k. ct_tenant_id k = ctx_tenant_id ctx \<and> ct_project_id k = project \<and>
             ct_principal_ref k = ctx_principal_ref ctx \<and> ct_grant_ref k = ctx_grant_ref ctx \<and>
             (\<exists>s \<in> set (agent_slots db). as_agent_slot_id s = ct_agent_slot_id k \<and> as_status s = ''active'') \<and>
             (case ctx_agent_slot_id ctx of None \<Rightarrow> True | Some own \<Rightarrow> ct_agent_slot_id k = own)) (contacts db))) of
        [slot] \<Rightarrow> handle ''collaborator'' project slot
      | _ \<Rightarrow> Inl (denied (ctx_principal_ref ctx) (ctx_grant_ref ctx)))"

definition inspect_message ::
  "hash_env \<Rightarrow> delivery_service \<Rightarrow> (nat \<Rightarrow> int) \<Rightarrow> command \<Rightarrow> string \<Rightarrow> delivery_db
     \<Rightarrow> (message_row \<times> (string \<times> pyval) list) result" where
  "inspect_message env self clk c mid db =
     (if command_type c \<noteq> ''message.read'' \<or> target_kind c \<noteq> ''message'' \<or> target_id c \<noteq> mid then Inl (refused c)
      else case lookup_delivery (tenant_id c, mid) db of
        None \<Rightarrow> Inl (rejected ''message_missing'')
      | Some m \<Rightarrow>
        let p = dm_packet m; natural = \<not> is_historical p; ctx = auth_context (ds_authority self) in
        rbind (authorize env (ds_authority self) clk c ''message.read''
                 (if natural then None else Some (packet_target_scope p)) 0 (dcore db)) (\<lambda>_.
        rbind (if \<not> natural then Inr ()
               else rbind (caller_address env ctx (packet_project p) (dcore db)) (\<lambda>address.
                 guard (Some address \<in> {packet_sender p, packet_recipient p})
                   (denied (ctx_principal_ref ctx) (ctx_grant_ref ctx)))) (\<lambda>_.
        Inr (m, map (\<lambda>r. (dr_layer r, dr_evidence r))
                  (filter (\<lambda>r. receipt_message r = (tenant_id c, mid)) (delivery_receipts db))))))"

end
