(* ===== verification/Delivery_Dispatch.thy ===== *)
theory Delivery_Dispatch
  imports Delivery_Service
begin

text \<open>
  \<open>DeliveryDispatcher\<close> of \<open>src/runtime/delivery.py\<close>: the worker that carries a committed message
  to its endpoint. A dispatch is a sequence of transactions with calls of the endpoint between
  them, so every transaction is a definition of its own: \<open>prepare_dispatch\<close> (claim an Attempt),
  \<open>mark_dispatched\<close> (the durable marker before the native call), \<open>complete_dispatch\<close> (project the
  observation), \<open>fail_dispatch\<close> (classify a failure), \<open>resolve_pre_call\<close>,
  \<open>reconcile_marked\<close> and the transactions of \<open>recover_prepared\<close>. \<open>dispatch\<close> composes them.

  The endpoint is what the code makes of it, an object with a \<open>descriptor\<close> that may call back any
  number of times and then returns or raises. The session locks only serialise dispatches of one
  message; whether a try-lock succeeded is an argument.
\<close>

section \<open>Data\<close>

record delivery_identity =
  di_tenant_id :: string
  di_message_id :: string
  di_operation_id :: string

record dispatcher =
  dp_service :: delivery_service
  dp_worker_id :: string
  dp_attempt_id :: "string option"
  dp_fixed_identity :: "(string \<times> string \<times> string \<times> string) option"

record dispatch_result =
  dx_status :: string
  dx_message_id :: "string option"
  dx_attempts :: "nat option"
  dx_retry_after :: "int option"

record node_receipt =
  rn_receipt_id :: string
  rn_layer :: string
  rn_evidence :: pyval

record observation =
  ob_status :: string
  ob_receipts :: "node_receipt list"

abbreviation mode_of :: "dispatcher \<Rightarrow> string" where
  "mode_of self \<equiv> access_mode (ds_authority (dp_service self))"

definition bind_fixed_attempt_identity :: "dispatcher \<Rightarrow> delivery_identity \<Rightarrow> dispatcher result" where
  "bind_fixed_attempt_identity self i =
     (case dp_attempt_id self of
        None \<Rightarrow> Inr self
      | Some a \<Rightarrow>
          let bound = (di_tenant_id i, di_message_id i, di_operation_id i, a) in
          case dp_fixed_identity self of
            None \<Rightarrow> Inr (self\<lparr>dp_fixed_identity := Some bound\<rparr>)
          | Some prior \<Rightarrow> if prior \<noteq> bound then Inl (rejected ''fixed_attempt_id_identity_conflict'') else Inr self)"

section \<open>Closing and deferring\<close>

text \<open>The \<open>CHECK\<close> constraints of \<open>delivery_messages.state\<close> and \<open>delivery_attempts.status\<close>.\<close>

definition MESSAGE_STATES :: "string list" where
  "MESSAGE_STATES = [''queued'', ''delivering'', ''retry_wait'', ''delivered'', ''uncertain'', ''expired'', ''blocked'',
     ''budget_exhausted'']"

definition ATTEMPT_STATUSES :: "string list" where
  "ATTEMPT_STATUSES = [''prepared'', ''runtime_dispatched'', ''interrupted'', ''retry_wait'', ''delivered'', ''uncertain'',
     ''expired'', ''blocked'', ''budget_exhausted'']"

definition is_open :: "message_row \<Rightarrow> attempt_row \<Rightarrow> bool" where
  "is_open row a \<longleftrightarrow> attempt_message a = message_key row \<and> da_ordinal a = dm_attempts row \<and> da_finished_at a = None"

definition finish :: "(nat \<Rightarrow> int) \<Rightarrow> message_row \<Rightarrow> string \<Rightarrow> string option \<Rightarrow> delivery_db \<Rightarrow> delivery_db result" where
  "finish clk row state code db =
     (if state \<notin> set MESSAGE_STATES then Inl (IntegrityError ''delivery_messages_state_check'')
      else if state \<notin> set ATTEMPT_STATUSES \<and> (\<exists>a \<in> set (delivery_attempts db). is_open row a)
      then Inl (IntegrityError ''delivery_attempts_status_check'')
      else record_obstacle row state code
        (update_attempts (is_open row)
           (\<lambda>a. a\<lparr>da_status := state, da_error_code := code, da_finished_at := Some (clk 1)\<rparr>)
        (update_message (message_key row)
           (\<lambda>m. m\<lparr>dm_state := state, dm_last_error := code,
                  dm_next_attempt_at := clk 0 + seconds (dm_retry_delay_seconds m)\<rparr>) db)))"

definition full_result :: "message_row \<Rightarrow> string \<Rightarrow> dispatch_result" where
  "full_result row status = \<lparr>dx_status = status, dx_message_id = Some (dm_message_id row),
     dx_attempts = Some (dm_attempts row), dx_retry_after = Some (dm_retry_delay_seconds row)\<rparr>"

definition attempts_result :: "message_row \<Rightarrow> string \<Rightarrow> dispatch_result" where
  "attempts_result row status = (full_result row status)\<lparr>dx_retry_after := None\<rparr>"

definition state_result :: "message_row \<Rightarrow> string \<Rightarrow> dispatch_result" where
  "state_result row status = (attempts_result row status)\<lparr>dx_attempts := None\<rparr>"

definition bare_result :: "string \<Rightarrow> int option \<Rightarrow> dispatch_result" where
  "bare_result status delay = \<lparr>dx_status = status, dx_message_id = None, dx_attempts = None, dx_retry_after = delay\<rparr>"

text \<open>\<open>NATIVE_ATTACHMENT_UNSUPPORTED\<close> and the classification of \<open>_failure\<close>.\<close>

definition attachment_unsupported :: string where
  "attachment_unsupported = ''native_attachment_delivery_unsupported''"

definition bounded_delivery :: "dispatcher \<Rightarrow> message_row \<Rightarrow> bool" where
  "bounded_delivery self row \<longleftrightarrow> mode_of self \<noteq> ''owner'' \<or> packet_schema (dm_packet row) \<noteq> ''acs-delivery/1''"

definition budget_spent :: "dispatcher \<Rightarrow> message_row \<Rightarrow> bool" where
  "budget_spent self row \<longleftrightarrow> bounded_delivery self row \<and> dm_maximum_attempts row \<le> int (dm_attempts row)"

definition classify_failure :: "dispatcher \<Rightarrow> message_row \<Rightarrow> exn \<Rightarrow> string \<times> string" where
  "classify_failure self row error =
     (case error of
        DeliveryRejected code state \<Rightarrow> (state, code)
      | _ \<Rightarrow>
        if is_authorization_denied error then (''blocked'', ''current_grant_denied'')
        else if is_pre_call_rejected error
        then (''blocked'', if exn_text error = attachment_unsupported then attachment_unsupported
                           else ''native_pre_call_rejected'')
        else if is_boundary_rejected error \<or> (case error of OperationIdentityConflict _ \<Rightarrow> True | _ \<Rightarrow> False)
        then (''blocked'', ''node_boundary_rejected'')
        else (if budget_spent self row then ''budget_exhausted'' else ''retry_wait'', ''transport_ack_unavailable''))"

definition failure ::
  "dispatcher \<Rightarrow> (nat \<Rightarrow> int) \<Rightarrow> message_row \<Rightarrow> exn \<Rightarrow> delivery_db \<Rightarrow> (dispatch_result \<times> delivery_db) result" where
  "failure self clk row error db =
     (let (status, code) = classify_failure self row error in
      rbind (finish clk row status (Some code) db) (\<lambda>db'. Inr (full_result row status, db')))"

definition defer_prepared ::
  "int \<Rightarrow> message_row \<Rightarrow> string \<Rightarrow> delivery_db \<Rightarrow> dispatch_result \<times> delivery_db" where
  "defer_prepared now row why db =
     (full_result row ''retry_wait'',
      update_message (message_key row) (\<lambda>m. m\<lparr>dm_state := ''retry_wait'', dm_last_error := Some why,
        dm_next_attempt_at := now + seconds (dm_retry_delay_seconds m)\<rparr>) db)"

section \<open>Loading a committed operation\<close>

text \<open>\<open>pending\<close>, over the three joined tables.\<close>

definition pending_deliveries ::
  "dispatcher \<Rightarrow> int \<Rightarrow> int \<Rightarrow> delivery_db \<Rightarrow> delivery_identity list result" where
  "pending_deliveries self now limit db =
     (if \<not> (1 \<le> limit \<and> limit \<le> 64) then Inl (ValueError ''bounded scan required'')
      else Inr (take (nat limit) (map (\<lambda>m. \<lparr>di_tenant_id = dm_tenant_id m, di_message_id = dm_message_id m,
          di_operation_id = dm_operation_id m\<rparr>)
        (filter (\<lambda>m. (\<exists>o' \<in> set (outbox (dcore db)). ob_tenant_id o' = dm_tenant_id m \<and>
               ob_message_id o' = dm_message_id m \<and> ob_operation_id o' = dm_operation_id m \<and> ob_topic o' = ''message.delivery'') \<and>
             (\<exists>q \<in> set (operations (dcore db)). op_operation_id q = dm_operation_id m \<and> op_tenant_id q = dm_tenant_id m \<and>
               op_status q = ''committed'') \<and>
             dm_state m \<in> {''queued'', ''delivering'', ''retry_wait''} \<and> dm_next_attempt_at m \<le> now \<and>
             dm_tenant_id m = ctx_tenant_id (auth_context (ds_authority (dp_service self))))
          (delivery_messages db)))))"

definition find_message :: "delivery_identity \<Rightarrow> delivery_db \<Rightarrow> message_row option" where
  "find_message i db = find (\<lambda>m. dm_tenant_id m = di_tenant_id i \<and> dm_message_id m = di_message_id i \<and>
     dm_operation_id m = di_operation_id i) (delivery_messages db)"

fun dict_entries :: "pyval \<Rightarrow> (pyval \<times> pyval) list option" where
  "dict_entries (PyDict kvs) = Some kvs"
| "dict_entries _ = None"

definition identity_dump :: "message_row \<Rightarrow> pyval" where
  "identity_dump m = PyDict [(PyStr ''tenant_id'', PyStr (dm_tenant_id m)), (PyStr ''message_id'', PyStr (dm_message_id m)),
     (PyStr ''operation_id'', PyStr (dm_operation_id m))]"

definition wake_entries_ok :: "message_row \<Rightarrow> (pyval \<times> pyval) list \<Rightarrow> bool" where
  "wake_entries_ok m kvs \<longleftrightarrow>
     py_eq (PyDict (filter (\<lambda>kv. fst kv \<noteq> PyStr ''receiver_wake'') kvs)) (identity_dump m) \<and>
     (case dict_get kvs ''receiver_wake'' of
        None \<Rightarrow> True
      | Some w \<Rightarrow> (case dict_entries w of None \<Rightarrow> False
                   | Some ws \<Rightarrow> dict_get ws ''schema_version'' = Some (PyStr ''acs-message-wake/1'')))"

definition ledger_rows_ok :: "message_row \<Rightarrow> delivery_db \<Rightarrow> bool" where
  "ledger_rows_ok m db \<longleftrightarrow>
     (case find (\<lambda>q. op_tenant_id q = dm_tenant_id m \<and> op_operation_id q = dm_operation_id m) (operations (dcore db)) of
        None \<Rightarrow> False
      | Some q \<Rightarrow> (op_command_id q, op_provider q, op_provider_workflow_id q, op_status q) =
          (dm_command_id m, ''temporal'', ''acs-delivery/'' @ dm_operation_id m, ''committed'')) \<and>
     (case find (\<lambda>d. dd_tenant_id d = dm_tenant_id m \<and> dd_command_id d = Some (dm_command_id m)) (command_dedup (dcore db)) of
        None \<Rightarrow> False
      | Some d \<Rightarrow> dd_canonical_hash d = Some (dm_canonical_hash m) \<and>
          json_member (dd_result_json d) ''operation_id'' = Some (PyStr (dm_operation_id m)) \<and>
          json_member (dd_result_json d) ''command_id'' = Some (PyStr (dm_command_id m)) \<and>
          json_member (dd_result_json d) ''target_id'' = Some (PyStr (dm_message_id m))) \<and>
     map (\<lambda>e. (ev_target_kind e, ev_target_id e, ev_related_work_item_id e, ev_to_state e, ev_command_id e,
               ev_resulting_revision e, ev_canonical_hash e))
       (filter (\<lambda>e. ev_tenant_id e = dm_tenant_id m \<and> ev_command_id e = dm_command_id m) (domain_events (dcore db))) =
       [(''message'', dm_message_id m, packet_work_item (dm_packet m), ''message.queued'', dm_command_id m,
         expected_revision (dm_command m), Some (dm_canonical_hash m))] \<and>
     (case lookup_receipt (message_key m) ''accepted_by_authority'' db of
        None \<Rightarrow> False
      | Some r \<Rightarrow>
          let rid = ''delivery:'' @ dm_message_id m @ '':accepted_by_authority''; get = json_member (dr_evidence r) in
          dr_receipt_id r = rid \<and> get ''receipt_id'' = Some (PyStr rid) \<and>
          get ''operation_id'' = Some (PyStr (dm_operation_id m)) \<and> get ''command_id'' = Some (PyStr (dm_command_id m)) \<and>
          get ''canonical_hash'' = Some (PyStr (dm_canonical_hash m)) \<and>
          get ''accepted_state_digest'' = Some (PyStr (dm_accepted_state_digest m)))"

definition load_delivery :: "delivery_identity \<Rightarrow> delivery_db \<Rightarrow> (message_row \<times> pyval option) result" where
  "load_delivery i db =
     (case find_message i db of
        None \<Rightarrow> Inl (rejected ''committed_outbox_missing'')
      | Some m \<Rightarrow>
        case find (\<lambda>o'. ob_tenant_id o' = dm_tenant_id m \<and> ob_message_id o' = dm_message_id m \<and>
               ob_operation_id o' = dm_operation_id m) (outbox (dcore db)) of
          None \<Rightarrow> Inl (rejected ''domain_ledger_conflict'')
        | Some o' \<Rightarrow>
          if ob_topic o' \<noteq> ''message.delivery'' then Inl (rejected ''domain_ledger_conflict'')
          else case dict_entries (ob_payload o') of
            None \<Rightarrow> Inl (AttributeError ''items'')
          | Some kvs \<Rightarrow>
            if \<not> wake_entries_ok m kvs \<or> \<not> ledger_rows_ok m db then Inl (rejected ''domain_ledger_conflict'')
            else Inr (m, dict_get kvs ''receiver_wake''))"

section \<open>Authorizing the row again\<close>

definition recovered_service :: "delivery_service \<Rightarrow> authenticated_context \<Rightarrow> delivery_service" where
  "recovered_service s ctx = s\<lparr>ds_authority := (ds_authority s)\<lparr>auth_context := ctx\<rparr>, ds_recovery := True\<rparr>"

definition authorize_row ::
  "hash_env \<Rightarrow> dispatcher \<Rightarrow> (nat \<Rightarrow> int) \<Rightarrow> message_row \<Rightarrow> delivery_db \<Rightarrow> (envelope \<times> endpoint_row) result" where
  "authorize_row env self clk row db =
     (let c = dm_command row; e = dm_envelope row; p = en_packet e in
      if digest_json env (envelope_dump env e) \<noteq> dm_envelope_hash row \<or> p \<noteq> dm_packet row \<or>
         (en_tenant_id e, en_message_id e, en_operation_id e, en_command_id e) \<noteq>
         (dm_tenant_id row, dm_message_id row, dm_operation_id row, dm_command_id row)
      then Inl (rejected ''durable_message_corrupt'')
      else if canonical_hash env c (Some (send_extra env (dm_packet row) (dm_endpoint_id row) (dm_binding_revision row)))
              \<noteq> dm_canonical_hash row
      then Inl (rejected ''durable_command_corrupt'')
      else if (en_authority_id e, en_authority_incarnation e, en_principal_ref e, en_grant_ref e) \<noteq>
              (authority_id c, authority_incarnation c, principal_ref c, grant_ref c)
      then Inl (rejected ''durable_authorization_reference_mismatch'')
      else if (case packet_deadline p of None \<Rightarrow> False | Some d \<Rightarrow> instant d \<le> clk 0)
      then Inl (DeliveryRejected ''deadline_expired'' ''expired'')
      else
      rbind (committed_delivery_context c (packet_schema p) (case packet_sender p of None \<Rightarrow> [] | Some s \<Rightarrow> s)
               (packet_project p) (dcore db)) (\<lambda>ctx.
      rbind (delivery_boundary env (recovered_service (dp_service self) ctx) (\<lambda>n. clk (1 + n)) c p (dm_endpoint_id row)
               (dm_binding_revision row) True db) (\<lambda>(b, policy_hash, state_digest).
      if policy_hash \<noteq> dm_policy_hash row then Inl (rejected ''scope_policy_changed'')
      else if state_digest \<noteq> dm_accepted_state_digest row \<or> en_accepted_state_digest e \<noteq> state_digest
      then Inl (rejected ''accepted_state_digest_changed'')
      else if packet_activation p = ''invoke'' \<and>
              (case dm_activation row of
                 Some (Some node, machine, _, _) \<Rightarrow> (Some node, machine) \<noteq> (map_option ep_node_id b, map_option ep_machine_id b)
               | _ \<Rightarrow> False)
      then Inl (DeliveryRejected ''activation_location_requires_reconciliation'' ''uncertain'')
      else case b of
        None \<Rightarrow> Inl (PyKeyError ''revision'')
      | Some x \<Rightarrow> Inr (e\<lparr>en_machine_id := Some (ep_machine_id x), en_node_id := Some (ep_node_id x),
            en_boot_incarnation := Some (ep_boot_incarnation x), en_binding_revision := Some (ep_revision x)\<rparr>, x))))"

section \<open>Selections\<close>

definition selection_of :: "hash_env \<Rightarrow> string \<Rightarrow> endpoint_row \<Rightarrow> selection" where
  "selection_of env endpoint_id b =
     \<lparr>se_endpoint_id = endpoint_id, se_revision = ep_revision b, se_scope_id = ep_scope_id b,
      se_agent_slot_id = ep_agent_slot_id b, se_machine_id = ep_machine_id b, se_node_id = ep_node_id b,
      se_boot_incarnation = ep_boot_incarnation b, se_supports_invoke = ep_supports_invoke b,
      se_evidence_class = ep_evidence_class b,
      se_expires_at = (case ep_expires_at b of None \<Rightarrow> ''None'' | Some t \<Rightarrow> isoformat env (DT t (Some 0)))\<rparr>"

definition selection_dump :: "selection \<Rightarrow> pyval" where
  "selection_dump s = PyDict
     [(PyStr ''endpoint_id'', PyStr (se_endpoint_id s)), (PyStr ''revision'', PyInt (se_revision s)),
      (PyStr ''scope_id'', PyStr (se_scope_id s)), (PyStr ''agent_slot_id'', PyStr (se_agent_slot_id s)),
      (PyStr ''machine_id'', PyStr (se_machine_id s)), (PyStr ''node_id'', PyStr (se_node_id s)),
      (PyStr ''boot_incarnation'', PyStr (se_boot_incarnation s)), (PyStr ''supports_invoke'', PyBool (se_supports_invoke s)),
      (PyStr ''evidence_class'', PyStr (se_evidence_class s)), (PyStr ''expires_at'', PyStr (se_expires_at s))]"

definition selection_digest :: "hash_env \<Rightarrow> selection \<Rightarrow> string" where
  "selection_digest env s = digest_json env (selection_dump s)"

definition invocation_digest :: "hash_env \<Rightarrow> invocation \<Rightarrow> string" where
  "invocation_digest env i = digest_json env (invocation_dump env i)"

definition endpoint_matches :: "descriptor \<Rightarrow> selection \<Rightarrow> bool" where
  "endpoint_matches d s \<longleftrightarrow>
     (de_scope_id d, de_agent_slot_id d, de_machine_id d, de_node_id d, de_boot_incarnation d, de_supports_invoke d,
      de_evidence_class d) =
     (se_scope_id s, se_agent_slot_id s, se_machine_id s, se_node_id s, se_boot_incarnation s, se_supports_invoke s,
      se_evidence_class s)"

definition load_attempt :: "message_row \<Rightarrow> delivery_db \<Rightarrow> attempt_row result" where
  "load_attempt row db =
     (case lookup_attempt (message_key row) (dm_attempts row) db of
        None \<Rightarrow> Inl (rejected ''delivery_attempt_missing'')
      | Some a \<Rightarrow> Inr a)"

definition row_endpoint :: "message_row \<Rightarrow> string" where
  "row_endpoint row = (case dm_endpoint_id row of None \<Rightarrow> [] | Some i \<Rightarrow> i)"

text \<open>An Attempt whose selection was resolved to another binding than the message's own.\<close>

definition check_resolved ::
  "dispatcher \<Rightarrow> int \<Rightarrow> message_row \<Rightarrow> selection \<Rightarrow> delivery_db \<Rightarrow> unit result" where
  "check_resolved self now row s db =
     (case lookup_endpoint (dm_tenant_id row) (se_endpoint_id s) db of
        None \<Rightarrow> Inl (rejected ''attempt_resolution_binding_missing'')
      | Some x \<Rightarrow>
          if ep_revision x \<noteq> se_revision s \<or> ep_status x \<noteq> ''active''
          then Inl (rejected ''attempt_resolution_binding_missing'')
          else if (ep_scope_id x, ep_agent_slot_id x, ep_machine_id x, ep_node_id x, ep_boot_incarnation x,
                   ep_supports_invoke x, ep_evidence_class x) \<noteq>
                  (se_scope_id s, se_agent_slot_id s, se_machine_id s, se_node_id s, se_boot_incarnation s,
                   se_supports_invoke s, se_evidence_class s)
          then Inl (rejected ''attempt_resolution_binding_changed'')
          else if mode_of self = ''owner'' then Inr ()
          else case ep_expires_at x of
            None \<Rightarrow> Inl (TypeError ''fromisoformat'')
          | Some t \<Rightarrow> guard (now < t) (DeliveryRejected ''attempt_resolution_binding_expired'' ''expired''))"

definition check_invocation :: "hash_env \<Rightarrow> envelope \<Rightarrow> attempt_row \<Rightarrow> unit result" where
  "check_invocation env e a =
     (if packet_activation (en_packet e) \<noteq> ''invoke'' then Inr ()
      else rbind (invocation_for env e (da_attempt_id a)) (\<lambda>expected.
        case da_invocation a of
          None \<Rightarrow> Inl (rejected ''immutable_invocation_missing'')
        | Some i \<Rightarrow> guard (i = expected \<and> Some (invocation_digest env i) = da_invocation_digest a)
            (rejected ''immutable_invocation_changed'')))"

definition selected_endpoint ::
  "hash_env \<Rightarrow> dispatcher \<Rightarrow> (nat \<Rightarrow> int) \<Rightarrow> message_row \<Rightarrow> attempt_row \<Rightarrow> delivery_db \<Rightarrow> (envelope \<times> string) result" where
  "selected_endpoint env self clk row a db =
     rbind (authorize_row env self clk row db) (\<lambda>(e, b).
     let s = da_selection a in
     if selection_digest env s \<noteq> da_selection_digest a then Inl (rejected ''attempt_selection_changed'')
     else if da_selection_history a = [] \<or> recorded_selection (last (da_selection_history a)) \<noteq> s
     then Inl (rejected ''attempt_selection_history_changed'')
     else if se_scope_id s \<noteq> packet_target_scope (dm_packet row) \<or>
             Some (se_agent_slot_id s) \<noteq> packet_target_slot (dm_packet row)
     then Inl (rejected ''attempt_selection_scope_changed'')
     else
     let own = (Some (se_endpoint_id s) = dm_endpoint_id row \<and> Some (se_revision s) = dm_binding_revision row);
         e' = (if own then e
               else e\<lparr>en_endpoint_id := Some (se_endpoint_id s), en_binding_revision := Some (se_revision s),
                      en_machine_id := Some (se_machine_id s), en_node_id := Some (se_node_id s),
                      en_boot_incarnation := Some (se_boot_incarnation s)\<rparr>) in
     rbind (if own then guard (s = selection_of env (row_endpoint row) b) (rejected ''attempt_selection_changed'')
            else check_resolved self (clk 12) row s db) (\<lambda>_.
     case map_of (ds_endpoints (dp_service self)) (se_endpoint_id s) of
       None \<Rightarrow> Inl (DeliveryTransportError ''endpoint_unavailable'')
     | Some d \<Rightarrow>
         if \<not> endpoint_matches d s then Inl (rejected ''configured_endpoint_changed'')
         else rbind (check_invocation env e' a) (\<lambda>_. Inr (e', se_endpoint_id s))))"

section \<open>Receipts of a delivery\<close>

definition raise_high_water :: "message_key \<Rightarrow> string \<Rightarrow> delivery_db \<Rightarrow> delivery_db" where
  "raise_high_water k layer db =
     update_message k (\<lambda>m. if the (receipt_index (dm_receipt_high_water m)) < the (receipt_index layer)
       then m\<lparr>dm_receipt_high_water := layer\<rparr> else m) db"

definition record_delivery_receipt ::
  "message_row \<Rightarrow> string \<Rightarrow> string \<Rightarrow> pyval \<Rightarrow> string option \<Rightarrow> string option \<Rightarrow> delivery_db \<Rightarrow> delivery_db result" where
  "record_delivery_receipt row rid layer evidence attempt_id dispatch_id db =
     (if receipt_index layer = None then Inl (rejected ''unknown_receipt_layer'')
      else rbind
        (case lookup_receipt (message_key row) layer db of
           Some r \<Rightarrow>
             if dr_receipt_id r = rid \<and> py_eq (dr_evidence r) evidence \<and> dr_attempt_id r = attempt_id \<and> dr_dispatch_id r = dispatch_id
             then Inr db else Inl (rejected ''receipt_projection_conflict'')
         | None \<Rightarrow>
             if \<not> json_encodable evidence then Inl (json_error evidence)
             else insert_delivery_receipt \<lparr>dr_tenant_id = dm_tenant_id row, dr_message_id = dm_message_id row,
                    dr_receipt_id = rid, dr_layer = layer, dr_attempt_id = attempt_id, dr_dispatch_id = dispatch_id,
                    dr_evidence = jsonify evidence\<rparr> db)
        (\<lambda>db1. Inr (raise_high_water (message_key row) layer db1)))"

fun project_receipts :: "message_row \<Rightarrow> node_receipt list \<Rightarrow> delivery_db \<Rightarrow> delivery_db result" where
  "project_receipts row [] db = Inr db"
| "project_receipts row (r # rs) db =
     (if rn_layer r = ''accepted_by_authority'' then project_receipts row rs db
      else case (dict_entries (rn_evidence r), str_or_null (json_member (rn_evidence r) ''attempt_id''),
                 str_or_null (json_member (rn_evidence r) ''dispatch_id'')) of
        (Some _, Some attempt_id, Some dispatch_id) \<Rightarrow>
          rbind (record_delivery_receipt row (rn_receipt_id r) (rn_layer r) (rn_evidence r) attempt_id dispatch_id db)
            (project_receipts row rs)
      | _ \<Rightarrow> Inl (TypeError ''receipt evidence''))"

definition project_inbox :: "hash_env \<Rightarrow> message_row \<Rightarrow> node_receipt \<Rightarrow> delivery_db \<Rightarrow> delivery_db result" where
  "project_inbox env row inbox db =
     (let logical = logical_payload env (dm_envelope row) in
      case find (\<lambda>i. ib_tenant_id i = dm_tenant_id row \<and> ib_message_id i = dm_message_id row) (inbox_messages db) of
        Some i \<Rightarrow> if (Some (ib_target_agent_slot_id i)) = packet_target_slot (dm_packet row) \<and> py_eq (ib_payload i) logical
                  then Inr db else Inl (rejected ''inbox_projection_conflict'')
      | None \<Rightarrow>
        (case packet_target_slot (dm_packet row) of
           None \<Rightarrow> Inl (IntegrityError ''inbox_messages target_agent_slot_id'')
         | Some target \<Rightarrow> Inr (db\<lparr>inbox_messages := inbox_messages db @
             [\<lparr>ib_tenant_id = dm_tenant_id row, ib_message_id = dm_message_id row, ib_target_agent_slot_id = target,
               ib_payload = logical, ib_receipt = jsonify (rn_evidence inbox)\<rparr>]\<rparr>)))"

definition mark_outbox :: "int \<Rightarrow> message_row \<Rightarrow> delivery_db \<Rightarrow> delivery_db" where
  "mark_outbox now row db = db\<lparr>dcore := (dcore db)\<lparr>outbox := update_where
     (\<lambda>o'. ob_tenant_id o' = dm_tenant_id row \<and> ob_message_id o' = dm_message_id row \<and> ob_operation_id o' = dm_operation_id row)
     (\<lambda>o'. o'\<lparr>ob_delivered_at := (case ob_delivered_at o' of None \<Rightarrow> Some now | Some t \<Rightarrow> Some t)\<rparr>) (outbox (dcore db))\<rparr>\<rparr>"

definition project ::
  "hash_env \<Rightarrow> int \<Rightarrow> message_row \<Rightarrow> observation \<Rightarrow> delivery_db \<Rightarrow> delivery_db result" where
  "project env now row obs db =
     rbind (project_receipts row (ob_receipts obs) db) (\<lambda>db1.
     case find (\<lambda>r. rn_layer r = ''target_inbox_committed'') (ob_receipts obs) of
       None \<Rightarrow> Inl (rejected ''inbox_ack_missing'')
     | Some inbox \<Rightarrow> rbind (project_inbox env row inbox db1) (\<lambda>db2. Inr (mark_outbox now row db2)))"

end
