(* ===== verification/Delivery_Attempts.thy ===== *)
theory Delivery_Attempts
  imports Delivery_Dispatch
begin

text \<open>
  The transactions of \<open>DeliveryDispatcher.dispatch\<close>, \<open>reconcile_marked\<close> and
  \<open>recover_prepared\<close> (\<open>src/runtime/delivery.py\<close>), and their composition.

  A transaction that returns early commits; one that raises is rolled back. \<open>clk\<close> gives the clock
  readings of one transaction. What surrounds the transactions is the record \<open>world\<close>: whether the
  advisory locks were free, what \<open>advance_message_wake\<close> of
  \<open>communication_message_wake.py\<close> stored in the outbox payload and answered, the calls the
  endpoint made to \<open>mark_dispatched\<close> and what it finally returned or raised.
\<close>

section \<open>Claiming an Attempt\<close>

text \<open>At most one Attempt of a message is open (\<open>delivery_attempts_one_open\<close>).\<close>

definition open_attempt :: "message_row \<Rightarrow> delivery_db \<Rightarrow> attempt_row option" where
  "open_attempt row db =
     find (\<lambda>a. attempt_message a = message_key row \<and> da_finished_at a = None) (delivery_attempts db)"

definition interrupt_open :: "int \<Rightarrow> message_row \<Rightarrow> delivery_db \<Rightarrow> delivery_db" where
  "interrupt_open now row db =
     update_attempts (\<lambda>a. attempt_message a = message_key row \<and> da_finished_at a = None)
       (\<lambda>a. a\<lparr>da_status := ''interrupted'', da_error_code := Some ''core_interrupted'', da_finished_at := Some now\<rparr>) db"

definition insert_attempt :: "attempt_row \<Rightarrow> delivery_db \<Rightarrow> delivery_db result" where
  "insert_attempt a db =
     (if lookup_attempt (attempt_message a) (da_ordinal a) db \<noteq> None then Inl (IntegrityError ''delivery_attempts_pkey'')
      else if \<exists>x \<in> set (delivery_attempts db). da_attempt_id x = da_attempt_id a
      then Inl (IntegrityError ''delivery_attempts_attempt_id_key'')
      else if \<exists>x \<in> set (delivery_attempts db). attempt_message x = attempt_message a \<and> da_finished_at x = None
      then Inl (IntegrityError ''delivery_attempts_one_open'')
      else Inr (db\<lparr>delivery_attempts := delivery_attempts db @ [a]\<rparr>))"

definition prepared_attempt ::
  "hash_env \<Rightarrow> dispatcher \<Rightarrow> message_row \<Rightarrow> selection \<Rightarrow> string \<Rightarrow> invocation option \<Rightarrow> attempt_row" where
  "prepared_attempt env self row s attempt_id i =
     \<lparr>da_tenant_id = dm_tenant_id row, da_message_id = dm_message_id row, da_ordinal = dm_attempts row + 1,
      da_attempt_id = attempt_id, da_operation_id = dm_operation_id row, da_endpoint_id = se_endpoint_id s,
      da_selection_revision = se_revision s, da_connection_ref = dp_worker_id self, da_finished_at = None,
      da_status = ''prepared'', da_error_code = None, da_selection = s, da_selection_digest = selection_digest env s,
      da_selection_history = [Prepared s], da_invocation = i,
      da_invocation_digest = map_option (invocation_digest env) i, da_dispatch_id = map_option iv_dispatch_id i,
      da_runtime_dispatched_receipt_id = map_option iv_runtime_dispatched_receipt_id i\<rparr>"

definition new_attempt ::
  "hash_env \<Rightarrow> dispatcher \<Rightarrow> (nat \<Rightarrow> int) \<Rightarrow> string \<Rightarrow> message_row \<Rightarrow> envelope \<Rightarrow> endpoint_row \<Rightarrow> delivery_db
     \<Rightarrow> (dispatch_result option \<times> delivery_db) result" where
  "new_attempt env self clk fresh row e b db =
     (let s = selection_of env (row_endpoint row) b;
          attempt_id = (case dp_attempt_id self of None \<Rightarrow> fresh | Some a \<Rightarrow> if a = [] then fresh else a);
          unavailable = (case map_of (ds_endpoints (dp_service self)) (row_endpoint row) of
            None \<Rightarrow> Some (DeliveryTransportError ''endpoint_unavailable'')
          | Some d \<Rightarrow> if endpoint_matches d s then None else Some (rejected ''configured_endpoint_changed'')) in
      rbind (if unavailable = None \<and> packet_activation (en_packet e) = ''invoke''
             then rbind (invocation_for env e attempt_id) (\<lambda>i. Inr (Some i)) else Inr None) (\<lambda>i.
      if dp_attempt_id self \<noteq> None \<and> (\<exists>x \<in> set (delivery_attempts db). da_attempt_id x = attempt_id)
      then Inl (rejected ''attempt_id_reused'')
      else rbind (insert_attempt (prepared_attempt env self row s attempt_id i) db) (\<lambda>db1.
      let db2 = update_message (message_key row)
            (\<lambda>m. m\<lparr>dm_attempts := dm_attempts row + 1, dm_state := ''delivering'', dm_last_error := None\<rparr>) db1 in
      case unavailable of
        None \<Rightarrow> Inr (None, db2)
      | Some error \<Rightarrow>
          rbind (failure self clk (row\<lparr>dm_attempts := dm_attempts row + 1\<rparr>) error db2) (\<lambda>(r, db3). Inr (Some r, db3)))))"

definition claim_attempt ::
  "hash_env \<Rightarrow> dispatcher \<Rightarrow> (nat \<Rightarrow> int) \<Rightarrow> bool \<Rightarrow> string \<Rightarrow> message_row \<Rightarrow> bool \<Rightarrow> delivery_db
     \<Rightarrow> (dispatch_result option \<times> delivery_db) result" where
  "claim_attempt env self clk slot_free fresh row reuse db =
     rbind (authorize_row env self clk row db) (\<lambda>(e, b).
     if packet_delivery_policy (en_packet e) = ''queue_until_idle'' \<and> packet_activation (en_packet e) = ''invoke'' \<and> \<not> slot_free
     then Inr (map_prod Some id (defer_prepared (clk 12) row ''target_dispatch_in_progress'' db))
     else if reuse
     then rbind (load_attempt row db) (\<lambda>a.
       if dp_attempt_id self \<noteq> None \<and> dp_attempt_id self \<noteq> Some (da_attempt_id a)
       then Inl (rejected ''attempt_id_reused'')
       else case selected_endpoint env self (\<lambda>n. clk (12 + n)) row a db of
         Inr _ \<Rightarrow> Inr (None, db)
       | Inl error \<Rightarrow>
           (case error of
              DeliveryTransportError _ \<Rightarrow> Inr (map_prod Some id (defer_prepared (clk 30) row ''transport_ack_unavailable'' db))
            | _ \<Rightarrow> Inl error))
     else new_attempt env self (\<lambda>n. clk (12 + n)) fresh row e b db)"

text \<open>The exceptions the preparing transaction turns into a failure of the message.\<close>

definition dispatch_caught :: "exn \<Rightarrow> bool" where
  "dispatch_caught error \<longleftrightarrow> is_authorization_denied error \<or> is_boundary_rejected error \<or>
     (case error of DeliveryRejected _ _ \<Rightarrow> True | OperationIdentityConflict _ \<Rightarrow> True | DeliveryTransportError _ \<Rightarrow> True
      | _ \<Rightarrow> False)"

definition catch_claim ::
  "dispatcher \<Rightarrow> (nat \<Rightarrow> int) \<Rightarrow> message_row \<Rightarrow> delivery_db \<Rightarrow> (dispatch_result option \<times> delivery_db) result
     \<Rightarrow> (dispatch_result option \<times> delivery_db) result" where
  "catch_claim self clk row db r =
     (case r of
        Inr x \<Rightarrow> Inr x
      | Inl error \<Rightarrow>
          if dispatch_caught error then rbind (failure self clk row error db) (\<lambda>(x, db'). Inr (Some x, db')) else Inl error)"

text \<open>From the scheduled time on: close an interrupted call, spend the budget, or claim.\<close>

definition prepare_due ::
  "hash_env \<Rightarrow> dispatcher \<Rightarrow> (nat \<Rightarrow> int) \<Rightarrow> bool \<Rightarrow> string \<Rightarrow> message_row \<Rightarrow> delivery_db
     \<Rightarrow> (dispatch_result option \<times> delivery_db) result" where
  "prepare_due env self clk slot_free fresh row db =
     (let status = map_option da_status (open_attempt row db); reuse = (status = Some ''prepared'') in
      if status = Some ''runtime_dispatched''
      then rbind (finish clk row ''uncertain'' (Some ''core_interrupted_after_dispatch'') db)
             (\<lambda>db'. Inr (Some (attempts_result row ''uncertain''), db'))
      else if \<not> reuse \<and> budget_spent self row
      then rbind (finish clk row ''budget_exhausted'' (Some ''attempt_budget_exhausted'') db)
             (\<lambda>db'. Inr (Some (bare_result ''budget_exhausted'' None), db'))
      else
      let db1 = (if reuse then db else interrupt_open (clk 0) row db) in
      catch_claim self (\<lambda>n. clk (50 + n)) row db1
        (claim_attempt env self (\<lambda>n. clk (1 + n)) slot_free fresh row reuse db1))"

definition wait_gate :: "dispatcher \<Rightarrow> int \<Rightarrow> message_row \<Rightarrow> delivery_db \<Rightarrow> bool \<times> delivery_db" where
  "wait_gate self now row db =
     (if ds_wait_ingress (dp_service self) \<and> packet_schema (dm_packet row) = ''acs-message/1''
      then gate now (dm_tenant_id row) (packet_project (dm_packet row)) (dm_message_id row) db
      else (False, db))"

definition prepare_loaded ::
  "hash_env \<Rightarrow> dispatcher \<Rightarrow> (nat \<Rightarrow> int) \<Rightarrow> bool \<Rightarrow> string \<Rightarrow> delivery_identity \<Rightarrow> message_row \<Rightarrow> delivery_db
     \<Rightarrow> (dispatch_result option \<times> delivery_db) result" where
  "prepare_loaded env self clk slot_free fresh i row db =
     (if dm_state row \<in> set TERMINAL_STATES then Inr (Some (state_result row (dm_state row)), db)
      else case wait_gate self (clk 0) row db of
        (True, db1) \<Rightarrow> Inr (Some (bare_result ''retry_wait'' (Some 1)), db1)
      | (False, db1) \<Rightarrow>
          rbind (load_delivery i db1) (\<lambda>(row1, _).
          if clk 1 < dm_next_attempt_at row1
          then Inr (Some (bare_result ''retry_wait'' (Some (dm_retry_delay_seconds row1))), db1)
          else prepare_due env self (\<lambda>n. clk (2 + n)) slot_free fresh row1 db1))"

definition prepare_dispatch ::
  "hash_env \<Rightarrow> dispatcher \<Rightarrow> (nat \<Rightarrow> int) \<Rightarrow> bool \<Rightarrow> string \<Rightarrow> delivery_identity \<Rightarrow> delivery_db
     \<Rightarrow> (dispatch_result option \<times> delivery_db) result" where
  "prepare_dispatch env self clk slot_free fresh i db =
     (case load_delivery i db of
        Inr (row, _) \<Rightarrow> prepare_loaded env self clk slot_free fresh i row db
      | Inl error \<Rightarrow>
          (case error of
             DeliveryRejected code state \<Rightarrow>
               (case find_message i db of
                  None \<Rightarrow> Inl error
                | Some row \<Rightarrow> rbind (finish clk row state (Some code) db)
                    (\<lambda>db'. Inr (Some (attempts_result row state), db')))
           | _ \<Rightarrow> Inl error))"

section \<open>Around the call of the endpoint\<close>

definition authorize_selected ::
  "hash_env \<Rightarrow> dispatcher \<Rightarrow> (nat \<Rightarrow> int) \<Rightarrow> delivery_identity \<Rightarrow> delivery_db \<Rightarrow> (message_row \<times> pyval option \<times> attempt_row \<times> envelope \<times> string) result" where
  "authorize_selected env self clk i db =
     rbind (load_delivery i db) (\<lambda>(row, wake).
     rbind (load_attempt row db) (\<lambda>a.
     rbind (selected_endpoint env self clk row a db) (\<lambda>(e, x). Inr (row, wake, a, e, x))))"

definition already_routed :: "message_row \<Rightarrow> bool" where
  "already_routed row \<longleftrightarrow> packet_schema (dm_packet row) = ''acs-message/1'' \<and> dm_state row = ''delivered''"

definition location_of :: "invocation \<Rightarrow> string option \<times> string option \<times> string \<times> string" where
  "location_of v = (en_node_id (iv_envelope v), en_machine_id (iv_envelope v), iv_dispatch_id v, iv_runtime_dispatched_receipt_id v)"

definition set_marker ::
  "message_row \<Rightarrow> invocation \<Rightarrow> pyval \<Rightarrow> exn \<Rightarrow> delivery_db \<Rightarrow> delivery_db result" where
  "set_marker row v evidence conflict db =
     rbind (record_delivery_receipt row (iv_runtime_dispatched_receipt_id v) ''runtime_dispatched'' evidence
              (Some (iv_attempt_id v)) (Some (iv_dispatch_id v)) db) (\<lambda>db1.
     if \<not> (\<exists>a \<in> set (delivery_attempts db1). attempt_message a = message_key row \<and> da_ordinal a = dm_attempts row \<and>
             da_status a = ''prepared'')
     then Inl conflict
     else Inr (update_attempts (\<lambda>a. attempt_message a = message_key row \<and> da_ordinal a = dm_attempts row \<and>
                 da_status a = ''prepared'') (\<lambda>a. a\<lparr>da_status := ''runtime_dispatched''\<rparr>)
            (update_message (message_key row) (\<lambda>m. m\<lparr>dm_activation := Some (location_of v)\<rparr>) db1)))"

definition mark_dispatched ::
  "hash_env \<Rightarrow> dispatcher \<Rightarrow> (nat \<Rightarrow> int) \<Rightarrow> delivery_identity \<Rightarrow> invocation \<Rightarrow> pyval \<Rightarrow> delivery_db \<Rightarrow> delivery_db result" where
  "mark_dispatched env self clk i v evidence db =
     rbind (load_delivery i db) (\<lambda>(row, _).
     if already_routed row then Inl (InvocationPreCallRejected ''message_already_routed_to_inbox'')
     else rbind (load_attempt row db) (\<lambda>a.
     rbind (selected_endpoint env self clk row a db) (\<lambda>(e, _).
     if da_invocation a \<noteq> Some v \<or> e \<noteq> iv_envelope v then Inl (rejected ''immutable_invocation_changed'')
     else if dm_activation row \<notin> {None, Some (location_of v)}
     then Inl (DeliveryRejected ''activation_location_requires_reconciliation'' ''uncertain'')
     else set_marker row v evidence (DeliveryRejected ''dispatch_marker_conflict'' ''uncertain'') db)))"

definition read_dispatch_marker :: "delivery_identity \<Rightarrow> invocation \<Rightarrow> delivery_db \<Rightarrow> bool result" where
  "read_dispatch_marker i v db =
     rbind (load_delivery i db) (\<lambda>_.
     case lookup_receipt (di_tenant_id i, di_message_id i) ''runtime_dispatched'' db of
       None \<Rightarrow> Inr False
     | Some r \<Rightarrow>
         if (dr_receipt_id r, dr_attempt_id r, dr_dispatch_id r) =
            (iv_runtime_dispatched_receipt_id v, Some (iv_attempt_id v), Some (iv_dispatch_id v))
         then Inr True else Inl (DeliveryRejected ''dispatch_marker_identity_changed'' ''uncertain''))"

definition complete_dispatch ::
  "hash_env \<Rightarrow> (nat \<Rightarrow> int) \<Rightarrow> delivery_identity \<Rightarrow> observation \<Rightarrow> delivery_db \<Rightarrow> (dispatch_result \<times> delivery_db) result" where
  "complete_dispatch env clk i obs db =
     rbind (load_delivery i db) (\<lambda>(row, _).
     rbind (project env (clk 0) row obs db) (\<lambda>db1.
     rbind (finish (\<lambda>n. clk (1 + n)) row (ob_status obs)
              (if ob_status obs = ''uncertain'' then Some ''native_outcome_uncertain'' else None) db1) (\<lambda>db2.
     Inr (full_result row (ob_status obs), db2))))"

section \<open>Resolving to another endpoint before any call\<close>

definition eligible_resolution ::
  "dispatcher \<Rightarrow> int \<Rightarrow> resolution_request \<Rightarrow> resolution \<Rightarrow> selection \<Rightarrow> endpoint_row \<Rightarrow> unit result" where
  "eligible_resolution self now rq rs old b =
     (if ep_status b \<noteq> ''active'' \<or> ep_revision b \<noteq> rs_binding_revision rs \<or> ep_scope_id b \<noteq> rq_target_scope_id rq \<or>
         ep_agent_slot_id b \<noteq> rq_target_agent_slot_id rq \<or> ep_supports_invoke b \<noteq> se_supports_invoke old \<or>
         ep_evidence_class b \<noteq> se_evidence_class old
      then Inl (rejected ''resolver_endpoint_ineligible'')
      else if mode_of self = ''owner'' then Inr ()
      else case ep_expires_at b of
        None \<Rightarrow> Inl (TypeError ''fromisoformat'')
      | Some t \<Rightarrow> guard (now < t) (rejected ''resolver_endpoint_ineligible''))"

definition resolution_request_for ::
  "message_row \<Rightarrow> invocation \<Rightarrow> resolution_request result" where
  "resolution_request_for row v =
     (case (en_endpoint_id (iv_envelope v), en_binding_revision (iv_envelope v), packet_target_slot (dm_packet row)) of
        (Some failed, Some revision, Some slot) \<Rightarrow>
          let rq = \<lparr>rq_tenant_id = dm_tenant_id row, rq_message_id = dm_message_id row, rq_operation_id = dm_operation_id row,
                rq_attempt_id = iv_attempt_id v, rq_dispatch_id = iv_dispatch_id v, rq_failed_endpoint_id = failed,
                rq_failed_binding_revision = revision, rq_target_scope_id = packet_target_scope (dm_packet row),
                rq_target_agent_slot_id = slot, rq_activation = packet_activation (dm_packet row)\<rparr> in
          if resolution_request_ok rq then Inr rq else Inl (ValueError ''EndpointResolutionRequest'')
      | _ \<Rightarrow> Inl (ValueError ''EndpointResolutionRequest''))"

definition resolved_envelope :: "message_row \<Rightarrow> resolution \<Rightarrow> endpoint_row \<Rightarrow> envelope" where
  "resolved_envelope row rs b = (dm_envelope row)\<lparr>en_endpoint_id := Some (rs_endpoint_id rs),
     en_binding_revision := Some (rs_binding_revision rs), en_machine_id := Some (ep_machine_id b),
     en_node_id := Some (ep_node_id b), en_boot_incarnation := Some (ep_boot_incarnation b)\<rparr>"

definition resolve_pre_call ::
  "hash_env \<Rightarrow> dispatcher \<Rightarrow> (nat \<Rightarrow> int) \<Rightarrow> delivery_identity \<Rightarrow> invocation \<Rightarrow> delivery_db \<Rightarrow> (bool \<times> delivery_db) result" where
  "resolve_pre_call env self clk i v db =
     (case ds_resolver (dp_service self) of
        None \<Rightarrow> Inr (False, db)
      | Some resolver \<Rightarrow>
        rbind (load_delivery i db) (\<lambda>(row, _).
        rbind (load_attempt row db) (\<lambda>a.
        if da_attempt_id a \<noteq> iv_attempt_id v \<or> da_dispatch_id a \<noteq> Some (iv_dispatch_id v) \<or> da_status a \<noteq> ''prepared''
           \<or> has_receipt (message_key row) [''runtime_dispatched''] db
        then Inr (False, db)
        else rbind (resolution_request_for row v) (\<lambda>rq.
        rbind (resolver rq) (\<lambda>rs.
        if \<not> resolution_ok rs then Inl (ValueError ''EndpointResolution'')
        else if rs_endpoint_id rs = rq_failed_endpoint_id rq \<and> rs_binding_revision rs = rq_failed_binding_revision rq
        then Inl (rejected ''resolver_returned_failed_endpoint'')
        else case lookup_endpoint (dm_tenant_id row) (rs_endpoint_id rs) db of
          None \<Rightarrow> Inl (rejected ''resolver_endpoint_missing'')
        | Some b \<Rightarrow>
          rbind (eligible_resolution self (clk 0) rq rs (da_selection a) b) (\<lambda>_.
          let s = (selection_of env (rs_endpoint_id rs) b)\<lparr>se_revision := rs_binding_revision rs\<rparr>;
              e = resolved_envelope row rs b in
          rbind (if packet_activation (en_packet e) = ''invoke''
                 then rbind (invocation_for env e (iv_attempt_id v)) (\<lambda>j. Inr (Some j)) else Inr None) (\<lambda>j.
          Inr (True, update_attempts
            (\<lambda>x. attempt_message x = message_key row \<and> da_ordinal x = dm_attempts row \<and> da_status x = ''prepared'')
            (\<lambda>x. x\<lparr>da_endpoint_id := se_endpoint_id s, da_selection_revision := se_revision s, da_selection := s,
                   da_selection_digest := selection_digest env s,
                   da_selection_history := da_selection_history a @ [Resolved s rs (da_selection a) ''native_pre_call_rejected''],
                   da_invocation := j, da_invocation_digest := map_option (invocation_digest env) j\<rparr>) db))))))))"

definition retry_resolved :: "int \<Rightarrow> delivery_identity \<Rightarrow> delivery_db \<Rightarrow> delivery_db" where
  "retry_resolved now i db = update_message (di_tenant_id i, di_message_id i)
     (\<lambda>m. m\<lparr>dm_next_attempt_at := now, dm_last_error := Some ''endpoint_resolved_pre_call''\<rparr>) db"

section \<open>Classifying a failed call\<close>

text \<open>
  The transaction at the end of the handler. \<open>inspect\<close> is \<open>endpoint.inspect_delivery\<close>, or
  \<open>None\<close> when no endpoint had been selected.
\<close>

definition acknowledged :: "observation \<Rightarrow> bool" where
  "acknowledged obs \<longleftrightarrow> (\<exists>r \<in> set (ob_receipts obs). rn_layer r \<in> {''runtime_acknowledged'', ''response_received''})"

definition fail_marked ::
  "hash_env \<Rightarrow> (nat \<Rightarrow> int) \<Rightarrow> message_row \<Rightarrow> (string \<Rightarrow> observation result) option \<Rightarrow> delivery_db
     \<Rightarrow> (dispatch_result \<times> delivery_db) result" where
  "fail_marked env clk row inspect db =
     rbind (case inspect of None \<Rightarrow> Inr None | Some f \<Rightarrow> rbind (f ''uncertain'') (\<lambda>obs. Inr (Some obs))) (\<lambda>readback.
     case readback of
       Some obs \<Rightarrow>
         if acknowledged obs
         then rbind (project env (clk 0) row obs db) (\<lambda>db1.
              rbind (finish (\<lambda>n. clk (1 + n)) row ''delivered'' None db1) (\<lambda>db2.
              Inr (attempts_result row ''delivered'', db2)))
         else rbind (finish clk row ''uncertain'' (Some ''post_dispatch_result_uncertain'') db)
                (\<lambda>db1. Inr (attempts_result row ''uncertain'', db1))
     | None \<Rightarrow> rbind (finish clk row ''uncertain'' (Some ''post_dispatch_result_uncertain'') db)
                (\<lambda>db1. Inr (attempts_result row ''uncertain'', db1)))"

definition inbox_source :: "message_row \<Rightarrow> delivery_db \<Rightarrow> string option" where
  "inbox_source row db = (case lookup_receipt (message_key row) ''target_inbox_committed'' db of
     None \<Rightarrow> None | Some r \<Rightarrow> json_text (json_member (dr_evidence r) ''source''))"

definition fail_unmarked ::
  "hash_env \<Rightarrow> dispatcher \<Rightarrow> (nat \<Rightarrow> int) \<Rightarrow> message_row \<Rightarrow> (string \<Rightarrow> observation result) option \<Rightarrow> exn \<Rightarrow> delivery_db
     \<Rightarrow> (dispatch_result \<times> delivery_db) result" where
  "fail_unmarked env self clk row inspect error db =
     (if is_pre_call_rejected error \<and> inspect \<noteq> None \<and> exn_text error = attachment_unsupported \<and>
         inbox_source row db = Some ''authority_inbox''
      then failure self clk row error db
      else rbind
        (case inspect of
           Some f \<Rightarrow>
             if is_pre_call_rejected error
             then rbind (f ''blocked'') (\<lambda>obs. if ob_receipts obs = [] then Inr db else project env (clk 0) row obs db)
             else Inr db
         | None \<Rightarrow> Inr db)
        (\<lambda>db1.
         case error of
           InvocationDeferred activity \<Rightarrow> Inr (defer_prepared (clk 1) row (''target_'' @ activity) db1)
         | _ \<Rightarrow> failure self (\<lambda>n. clk (1 + n)) row error db1))"

definition fail_dispatch ::
  "hash_env \<Rightarrow> dispatcher \<Rightarrow> (nat \<Rightarrow> int) \<Rightarrow> delivery_identity \<Rightarrow> (string \<Rightarrow> observation result) option \<Rightarrow> exn \<Rightarrow> delivery_db
     \<Rightarrow> (dispatch_result \<times> delivery_db) result" where
  "fail_dispatch env self clk i inspect error db =
     rbind (load_delivery i db) (\<lambda>(row, _).
     if already_routed row then Inr (attempts_result row ''delivered'', db)
     else if has_receipt (message_key row) [''runtime_dispatched''] db then fail_marked env clk row inspect db
     else fail_unmarked env self clk row inspect error db)"

section \<open>One dispatch\<close>

record world =
  wd_lock :: bool
  wd_slot_free :: bool
  wd_fresh :: string
  wd_clk :: "nat \<Rightarrow> nat \<Rightarrow> int"
  wd_startup_saves :: "pyval list"
  wd_startup_state :: "string option"
  wd_wake_enabled :: bool
  wd_wake_saves :: "pyval list"
  wd_wake :: "string option result"
  wd_marks :: "((nat \<Rightarrow> int) \<times> invocation \<times> pyval) list"
  wd_outcome :: "observation result"
  wd_inspect :: "string \<Rightarrow> observation result"

text \<open>\<open>jsonb_set(payload,'{receiver_wake}',...)\<close> on the outbox row of the operation.\<close>

fun set_member :: "string \<Rightarrow> pyval \<Rightarrow> pyval \<Rightarrow> pyval" where
  "set_member k v (PyDict kvs) = PyDict (filter (\<lambda>kv. fst kv \<noteq> PyStr k) kvs @ [(PyStr k, v)])"
| "set_member k v w = w"

definition save_wake :: "delivery_identity \<Rightarrow> pyval \<Rightarrow> delivery_db \<Rightarrow> delivery_db" where
  "save_wake i w db = db\<lparr>dcore := (dcore db)\<lparr>outbox := update_where
     (\<lambda>o'. ob_tenant_id o' = di_tenant_id i \<and> ob_operation_id o' = di_operation_id i \<and> ob_topic o' = ''message.delivery'')
     (\<lambda>o'. o'\<lparr>ob_payload := set_member ''receiver_wake'' w (ob_payload o')\<rparr>) (outbox (dcore db))\<rparr>\<rparr>"

definition save_wakes :: "delivery_identity \<Rightarrow> pyval list \<Rightarrow> delivery_db \<Rightarrow> delivery_db" where
  "save_wakes i ws db = fold (save_wake i) ws db"

definition wake_phase :: "delivery_identity \<Rightarrow> delivery_db \<Rightarrow> string option" where
  "wake_phase i db =
     (case find (\<lambda>o'. ob_tenant_id o' = di_tenant_id i \<and> ob_operation_id o' = di_operation_id i \<and> ob_topic o' = ''message.delivery'')
             (outbox (dcore db)) of
        None \<Rightarrow> None
      | Some o' \<Rightarrow> (case json_member (ob_payload o') ''receiver_wake'' of
            None \<Rightarrow> None
          | Some w \<Rightarrow> (case json_member w ''lifecycle'' of
                None \<Rightarrow> None
              | Some l \<Rightarrow> json_text (json_member l ''phase''))))"

text \<open>The transaction after an unfinished startup was only read back.\<close>

definition readback_startup ::
  "(nat \<Rightarrow> int) \<Rightarrow> delivery_identity \<Rightarrow> delivery_db \<Rightarrow> (dispatch_result \<times> delivery_db) result" where
  "readback_startup clk i db =
     rbind (load_delivery i db) (\<lambda>(row, _).
     if dm_state row \<notin> set TERMINAL_STATES \<and>
        (case packet_deadline (dm_packet row) of None \<Rightarrow> False | Some d \<Rightarrow> instant d \<le> clk 0)
     then rbind (finish (\<lambda>n. clk (1 + n)) row ''expired'' (Some ''deadline_expired'') db)
            (\<lambda>db1. Inr (state_result row ''expired'', db1))
     else if dm_state row \<in> set TERMINAL_STATES
     then Inr (state_result row (dm_state row),
               update_message (di_tenant_id i, di_message_id i)
                 (\<lambda>m. m\<lparr>dm_next_attempt_at := clk 1 + seconds (dm_retry_delay_seconds m)\<rparr>) db)
     else Inr (defer_prepared (clk 1) row ''receiver_wake_original_readback_required'' db))"

fun run_marks ::
  "hash_env \<Rightarrow> dispatcher \<Rightarrow> delivery_identity \<Rightarrow> ((nat \<Rightarrow> int) \<times> invocation \<times> pyval) list \<Rightarrow> delivery_db \<Rightarrow> delivery_db" where
  "run_marks env self i [] db = db"
| "run_marks env self i ((clk, v, evidence) # ms) db =
     run_marks env self i ms
       (case mark_dispatched env self clk i v evidence db of Inl _ \<Rightarrow> db | Inr db' \<Rightarrow> db')"

text \<open>The handler of the call: a pre-call rejection may first move to another endpoint.\<close>

definition handle_failure ::
  "hash_env \<Rightarrow> dispatcher \<Rightarrow> world \<Rightarrow> delivery_identity \<Rightarrow> invocation option \<Rightarrow> bool \<Rightarrow> exn \<Rightarrow> delivery_db
     \<Rightarrow> (dispatch_result \<times> delivery_db) result" where
  "handle_failure env self w i v selected error db =
     (let fall = fail_dispatch env self (wd_clk w 5) i (if selected then Some (wd_inspect w) else None) error in
      if is_pre_call_rejected error \<and> \<not> is_invocation_deferred error \<and> exn_text error \<noteq> attachment_unsupported \<and>
         ds_resolver (dp_service self) \<noteq> None
      then (case v of
              None \<Rightarrow> Inl (AttributeError ''invocation'')
            | Some call \<Rightarrow>
                rbind (resolve_pre_call env self (wd_clk w 4) i call db) (\<lambda>(resolved, db1).
                if resolved
                then Inr (\<lparr>dx_status = ''retry_wait'', dx_message_id = Some (di_message_id i),
                           dx_attempts = map_option dm_attempts (find_message i db), dx_retry_after = Some 0\<rparr>, retry_resolved (wd_clk w 5 0) i db1)
                else fall db1))
      else fall db)"

definition call_endpoint ::
  "hash_env \<Rightarrow> dispatcher \<Rightarrow> world \<Rightarrow> delivery_identity \<Rightarrow> delivery_db \<Rightarrow> (dispatch_result \<times> delivery_db) result" where
  "call_endpoint env self w i db =
     (case authorize_selected env self (wd_clk w 2) i db of
        Inl error \<Rightarrow> handle_failure env self w i None False error db
      | Inr (row, wake, a, e, x) \<Rightarrow>
        let v = da_invocation a;
            woken = (v \<noteq> None \<and> packet_schema (en_packet e) = ''acs-message/1'' \<and>
                     (wake \<notin> {None, Some PyNone} \<or> wd_wake_enabled w));
            db1 = (if woken then save_wakes i (wd_wake_saves w) db else db) in
        case (if woken then wd_wake w else Inr None) of
          Inl error \<Rightarrow> handle_failure env self w i v True error db1
        | Inr (Some why) \<Rightarrow>
            (case load_delivery i db1 of
               Inl error \<Rightarrow> handle_failure env self w i v True error db1
             | Inr (row1, _) \<Rightarrow> Inr (defer_prepared (wd_clk w 3 0) row1 why db1))
        | Inr None \<Rightarrow>
            let db2 = run_marks env self i (if v = None then [] else wd_marks w) db1 in
            (case wd_outcome w of
               Inl error \<Rightarrow> handle_failure env self w i v True error db2
             | Inr obs \<Rightarrow>
                 (case complete_dispatch env (wd_clk w 4) i obs db2 of
                    Inr r \<Rightarrow> Inr r
                  | Inl error \<Rightarrow> handle_failure env self w i v True error db2)))"

definition dispatch ::
  "hash_env \<Rightarrow> dispatcher \<Rightarrow> world \<Rightarrow> delivery_identity \<Rightarrow> delivery_db \<Rightarrow> (dispatch_result \<times> delivery_db) result" where
  "dispatch env self0 w i db =
     (if di_tenant_id i \<noteq> ctx_tenant_id (auth_context (ds_authority (dp_service self0)))
      then Inl (rejected ''invalid_committed_operation_identity'')
      else rbind (bind_fixed_attempt_identity self0 i) (\<lambda>self.
      if \<not> wd_lock w then Inr (bare_result ''busy'' (Some 1), db)
      else
      let executing = (wake_phase i db = Some ''executing'');
          db0 = (if executing then save_wakes i (wd_startup_saves w) db else db) in
      if executing \<and> wd_startup_state w \<noteq> Some ''completed'' then readback_startup (wd_clk w 0) i db0
      else rbind (prepare_dispatch env self (wd_clk w 1) (wd_slot_free w) (wd_fresh w) i db0) (\<lambda>(early, db1).
      case early of Some r \<Rightarrow> Inr (r, db1) | None \<Rightarrow> call_endpoint env self w i db1)))"

end
