(* ===== verification/Delivery_Recovery.thy ===== *)
theory Delivery_Recovery
  imports Delivery_Attempts
begin

text \<open>
  \<open>recover_prepared\<close> and \<open>reconcile_marked\<close> of \<open>src/runtime/delivery.py\<close>: resuming a prepared
  Attempt after the Node was restarted, and settling an Attempt whose native outcome was uncertain.
  Neither creates an Attempt. As in \<open>dispatch\<close>, the endpoint's own calls are arguments.
\<close>

section \<open>Resuming a prepared Attempt\<close>

text \<open>
  \<open>recoverable\<close> tells which configured endpoints have a \<open>recover_prepared\<close> method.
\<close>

definition recovery_endpoint ::
  "hash_env \<Rightarrow> dispatcher \<Rightarrow> (nat \<Rightarrow> int) \<Rightarrow> (string \<Rightarrow> bool) \<Rightarrow> message_row \<Rightarrow> attempt_row \<Rightarrow> delivery_db
     \<Rightarrow> (envelope \<times> string \<times> invocation) result" where
  "recovery_endpoint env self clk recoverable row a db =
     (if da_status a \<noteq> ''prepared'' \<or> da_finished_at a \<noteq> None
      then Inl (rejected ''recovery_requires_open_prepared_attempt'')
      else rbind (authorize_row env self clk row db) (\<lambda>(_, b).
      let s = selection_of env (row_endpoint row) b; old = da_selection a; original = dm_envelope row in
      if selection_digest env old \<noteq> da_selection_digest a then Inl (rejected ''immutable_selection_changed'')
      else if (se_endpoint_id s, se_scope_id s, se_agent_slot_id s, se_machine_id s, se_node_id s, se_supports_invoke s,
               se_evidence_class s) \<noteq>
              (se_endpoint_id old, se_scope_id old, se_agent_slot_id old, se_machine_id old, se_node_id old,
               se_supports_invoke old, se_evidence_class old) \<or>
              se_revision s \<le> se_revision old \<or> se_boot_incarnation s = se_boot_incarnation old
      then Inl (rejected ''recovery_binding_identity_changed'')
      else case map_of (ds_endpoints (dp_service self)) (row_endpoint row) of
        None \<Rightarrow> Inl (rejected ''recovery_endpoint_unavailable'')
      | Some d \<Rightarrow>
          if \<not> endpoint_matches d s then Inl (rejected ''recovery_endpoint_unavailable'')
          else if \<not> recoverable (row_endpoint row) then Inl (rejected ''recovery_transport_unavailable'')
          else case da_invocation a of
            None \<Rightarrow> Inl (ValueError ''InvocationRequest'')
          | Some v \<Rightarrow>
              if digest_json env (envelope_dump env original) \<noteq> dm_envelope_hash row
              then Inl (rejected ''immutable_recovery_invocation_changed'')
              else rbind (invocation_for env original (da_attempt_id a)) (\<lambda>expected.
              if v \<noteq> expected \<or> Some (invocation_digest env v) \<noteq> da_invocation_digest a \<or>
                 Some (iv_dispatch_id v) \<noteq> da_dispatch_id a
              then Inl (rejected ''immutable_recovery_invocation_changed'')
              else Inr (original, row_endpoint row, v))))"

definition recover_begin ::
  "hash_env \<Rightarrow> dispatcher \<Rightarrow> (nat \<Rightarrow> int) \<Rightarrow> (string \<Rightarrow> bool) \<Rightarrow> delivery_identity \<Rightarrow> delivery_db
     \<Rightarrow> ((dispatch_result + (envelope \<times> string \<times> invocation)) \<times> delivery_db) result" where
  "recover_begin env self clk recoverable i db =
     rbind (load_delivery i db) (\<lambda>(row, _).
     if dm_state row \<in> set TERMINAL_STATES then Inr (Inl (state_result row (dm_state row)), db)
     else case wait_gate self (clk 0) row db of
       (True, db1) \<Rightarrow> Inr (Inl (bare_result ''retry_wait'' (Some 1)), db1)
     | (False, db1) \<Rightarrow>
         rbind (load_delivery i db1) (\<lambda>(row1, _).
         rbind (load_attempt row1 db1) (\<lambda>a.
         if dp_attempt_id self \<noteq> None \<and> dp_attempt_id self \<noteq> Some (da_attempt_id a)
         then Inl (rejected ''attempt_id_reused'')
         else rbind (recovery_endpoint env self (\<lambda>n. clk (1 + n)) recoverable row1 a db1) (\<lambda>r.
         if has_receipt (message_key row1) [''runtime_dispatched''] db1
         then Inl (DeliveryRejected ''marked_attempt_requires_readback'' ''uncertain'')
         else Inr (Inr r, db1)))))"

definition authorize_original ::
  "hash_env \<Rightarrow> dispatcher \<Rightarrow> (nat \<Rightarrow> int) \<Rightarrow> (string \<Rightarrow> bool) \<Rightarrow> delivery_identity \<Rightarrow> envelope \<times> string \<times> invocation \<Rightarrow> delivery_db
     \<Rightarrow> envelope result" where
  "authorize_original env self clk recoverable i r db =
     rbind (load_delivery i db) (\<lambda>(row, _).
     rbind (load_attempt row db) (\<lambda>a.
     rbind (recovery_endpoint env self clk recoverable row a db) (\<lambda>checked.
     if checked \<noteq> r then Inl (rejected ''recovery_authority_changed'') else Inr (fst checked))))"

definition mark_original ::
  "hash_env \<Rightarrow> dispatcher \<Rightarrow> (nat \<Rightarrow> int) \<Rightarrow> (string \<Rightarrow> bool) \<Rightarrow> delivery_identity \<Rightarrow> envelope \<times> string \<times> invocation \<Rightarrow> invocation
     \<Rightarrow> pyval \<Rightarrow> delivery_db \<Rightarrow> delivery_db result" where
  "mark_original env self clk recoverable i r stored proof db =
     rbind (load_delivery i db) (\<lambda>(row, _).
     if already_routed row then Inl (InvocationPreCallRejected ''message_already_routed_to_inbox'')
     else rbind (load_attempt row db) (\<lambda>a.
     rbind (recovery_endpoint env self clk recoverable row a db) (\<lambda>checked.
     if stored \<noteq> snd (snd r) \<or> checked \<noteq> r then Inl (rejected ''recovery_authority_changed'')
     else set_marker row stored proof (DeliveryRejected ''recovery_marker_conflict'' ''uncertain'') db)))"

text \<open>The two last transactions: a refusal after the marker is uncertain, before it is raised on.\<close>

definition recover_failed ::
  "(nat \<Rightarrow> int) \<Rightarrow> delivery_identity \<Rightarrow> exn \<Rightarrow> delivery_db \<Rightarrow> (dispatch_result \<times> delivery_db) result" where
  "recover_failed clk i error db =
     rbind (load_delivery i db) (\<lambda>(row, _).
     if has_receipt (message_key row) [''runtime_dispatched''] db
     then rbind (finish clk row ''uncertain'' (Some ''recovery_result_uncertain'') db)
            (\<lambda>db1. Inr (state_result row ''uncertain'', db1))
     else Inl error)"

definition recover_complete ::
  "hash_env \<Rightarrow> (nat \<Rightarrow> int) \<Rightarrow> delivery_identity \<Rightarrow> observation \<Rightarrow> delivery_db \<Rightarrow> (dispatch_result \<times> delivery_db) result" where
  "recover_complete env clk i obs db =
     rbind (load_delivery i db) (\<lambda>(row, _).
     rbind (project env (clk 0) row obs db) (\<lambda>db1.
     rbind (finish (\<lambda>n. clk (1 + n)) row (ob_status obs) None db1) (\<lambda>db2.
     Inr (attempts_result row (ob_status obs), db2))))"

definition recovery_caught :: "exn \<Rightarrow> bool" where
  "recovery_caught error \<longleftrightarrow> is_authorization_denied error \<or> is_pre_call_rejected error \<or>
     (case error of DeliveryRejected _ _ \<Rightarrow> True | DeliveryTransportError _ \<Rightarrow> True | _ \<Rightarrow> False)"

text \<open>
  One call of \<open>recover_prepared\<close>: \<open>evidence\<close> tells whether the endpoint's store holds the signed
  preparation, \<open>marks\<close> are the endpoint's calls of \<open>mark_original\<close> and \<open>outcome\<close> is what it
  returned or raised.
\<close>

fun run_original_marks ::
  "hash_env \<Rightarrow> dispatcher \<Rightarrow> (string \<Rightarrow> bool) \<Rightarrow> delivery_identity \<Rightarrow> envelope \<times> string \<times> invocation
     \<Rightarrow> ((nat \<Rightarrow> int) \<times> invocation \<times> pyval) list \<Rightarrow> delivery_db \<Rightarrow> delivery_db" where
  "run_original_marks env self recoverable i r [] db = db"
| "run_original_marks env self recoverable i r ((clk, v, proof) # ms) db =
     run_original_marks env self recoverable i r ms
       (case mark_original env self clk recoverable i r v proof db of Inl _ \<Rightarrow> db | Inr db' \<Rightarrow> db')"

definition recover_prepared ::
  "hash_env \<Rightarrow> dispatcher \<Rightarrow> (nat \<Rightarrow> nat \<Rightarrow> int) \<Rightarrow> (string \<Rightarrow> bool) \<Rightarrow> bool \<Rightarrow> bool \<Rightarrow> ((nat \<Rightarrow> int) \<times> invocation \<times> pyval) list
     \<Rightarrow> observation result \<Rightarrow> delivery_identity \<Rightarrow> delivery_db \<Rightarrow> (dispatch_result \<times> delivery_db) result" where
  "recover_prepared env self0 clk recoverable lock evidence marks outcome i db =
     (if di_tenant_id i \<noteq> ctx_tenant_id (auth_context (ds_authority (dp_service self0)))
      then Inl (rejected ''invalid_committed_operation_identity'')
      else rbind (bind_fixed_attempt_identity self0 i) (\<lambda>self.
      if \<not> lock then Inr (bare_result ''busy'' (Some 1), db)
      else rbind (recover_begin env self (clk 0) recoverable i db) (\<lambda>(r, db1).
      case r of
        Inl early \<Rightarrow> Inr (early, db1)
      | Inr prepared \<Rightarrow>
          if \<not> evidence then Inl (rejected ''signed_prepare_evidence_missing'')
          else
          let db2 = run_original_marks env self recoverable i prepared marks db1 in
          case outcome of
            Inl error \<Rightarrow> if recovery_caught error then recover_failed (clk 1) i error db2 else Inl error
          | Inr obs \<Rightarrow> recover_complete env (clk 1) i obs db2)))"

section \<open>Settling an uncertain Attempt\<close>

definition attempt_identity :: "attempt_row \<Rightarrow> string \<times> string option \<times> string option \<times> string" where
  "attempt_identity a = (da_attempt_id a, da_dispatch_id a, da_invocation_digest a, da_selection_digest a)"

definition reconcile_begin ::
  "hash_env \<Rightarrow> dispatcher \<Rightarrow> (nat \<Rightarrow> int) \<Rightarrow> delivery_identity \<Rightarrow> delivery_db
     \<Rightarrow> (dispatch_result + (invocation \<times> attempt_row)) result" where
  "reconcile_begin env self clk i db =
     rbind (load_delivery i db) (\<lambda>(row, _).
     if dm_state row \<noteq> ''uncertain'' then Inr (Inl (state_result row (dm_state row)))
     else rbind (load_attempt row db) (\<lambda>a.
     if da_status a \<noteq> ''uncertain'' then Inl (rejected ''marked_reconciliation_requires_uncertain_attempt'')
     else case da_invocation a of
       None \<Rightarrow> Inl (rejected ''marked_reconciliation_requires_uncertain_attempt'')
     | Some v \<Rightarrow>
         (case find (\<lambda>r. receipt_message r = message_key row \<and> dr_layer r = ''runtime_dispatched'' \<and>
                 dr_attempt_id r = Some (iv_attempt_id v) \<and> dr_dispatch_id r = Some (iv_dispatch_id v)) (delivery_receipts db) of
            None \<Rightarrow> Inl (rejected ''marked_reconciliation_receipt_missing'')
          | Some r \<Rightarrow>
              if dr_receipt_id r \<noteq> iv_runtime_dispatched_receipt_id v
              then Inl (rejected ''marked_reconciliation_receipt_missing'')
              else rbind (selected_endpoint env self clk row a db) (\<lambda>_. Inr (Inr (v, a))))))"

definition reconcile_commit ::
  "hash_env \<Rightarrow> dispatcher \<Rightarrow> (nat \<Rightarrow> int) \<Rightarrow> delivery_identity \<Rightarrow> invocation \<times> attempt_row \<Rightarrow> observation \<Rightarrow> delivery_db
     \<Rightarrow> (dispatch_result \<times> delivery_db) result" where
  "reconcile_commit env self clk i va obs db =
     rbind (load_delivery i db) (\<lambda>(row, _).
     rbind (load_attempt row db) (\<lambda>a.
     if dm_state row \<noteq> ''uncertain'' \<or> da_status a \<noteq> ''uncertain'' \<or> attempt_identity a \<noteq> attempt_identity (snd va)
     then Inl (DeliveryRejected ''marked_reconciliation_lineage_changed'' ''uncertain'')
     else rbind (selected_endpoint env self clk row a db) (\<lambda>_.
     rbind (project env (clk 13) row obs db) (\<lambda>db1.
     if ob_status obs \<notin> set MESSAGE_STATES \<or> ob_status obs \<notin> set ATTEMPT_STATUSES
     then Inl (IntegrityError ''delivery_messages_state_check'')
     else Inr (attempts_result row (ob_status obs),
       update_attempts (\<lambda>x. attempt_message x = message_key row \<and> da_attempt_id x = iv_attempt_id (fst va))
         (\<lambda>x. x\<lparr>da_status := ob_status obs, da_error_code := None, da_finished_at := Some (clk 14)\<rparr>)
       (update_message (message_key row) (\<lambda>m. m\<lparr>dm_state := ob_status obs, dm_last_error := None\<rparr>) db1))))))"

definition reconcile_marked ::
  "hash_env \<Rightarrow> dispatcher \<Rightarrow> (nat \<Rightarrow> nat \<Rightarrow> int) \<Rightarrow> bool \<Rightarrow> (invocation \<Rightarrow> observation result) \<Rightarrow> delivery_identity \<Rightarrow> delivery_db
     \<Rightarrow> (dispatch_result \<times> delivery_db) result" where
  "reconcile_marked env self clk lock reconcile i db =
     (if di_tenant_id i \<noteq> ctx_tenant_id (auth_context (ds_authority (dp_service self)))
      then Inl (rejected ''invalid_committed_operation_identity'')
      else if \<not> lock then Inr (bare_result ''busy'' (Some 1), db)
      else rbind (reconcile_begin env self (clk 0) i db) (\<lambda>r.
      case r of
        Inl early \<Rightarrow> Inr (early, db)
      | Inr va \<Rightarrow> rbind (reconcile (fst va)) (\<lambda>obs. reconcile_commit env self (clk 1) i va obs db)))"

end
