(* ===== verification/Delivery_Views.thy ===== *)
theory Delivery_Views
  imports Delivery_Recovery
begin

text \<open>
  The delivery ledger seen from one message: \<open>view k db\<close> is its row, its Attempts and its receipt
  layers. \<open>view_ok\<close> is the well-formedness of a view. A change that leaves every other message
  alone, keeps the immutable columns and the number of Attempts, only appends receipts and keeps
  \<open>view_ok\<close> is \<open>calm\<close>; all writes of the dispatcher but the claim of a new Attempt are, and
  \<open>calm\<close> changes compose.
\<close>

section \<open>Views\<close>

definition attempts_of :: "message_key \<Rightarrow> delivery_db \<Rightarrow> attempt_row list" where
  "attempts_of k db = filter (\<lambda>a. attempt_message a = k) (delivery_attempts db)"

definition layers_of :: "message_key \<Rightarrow> delivery_db \<Rightarrow> string list" where
  "layers_of k db = map dr_layer (filter (\<lambda>r. receipt_message r = k) (delivery_receipts db))"

type_synonym view = "message_row option \<times> attempt_row list \<times> string list"

definition view :: "message_key \<Rightarrow> delivery_db \<Rightarrow> view" where
  "view k db = (lookup_delivery k db, attempts_of k db, layers_of k db)"

definition level :: "string \<Rightarrow> nat" where
  "level layer = the (receipt_index layer)"

definition live_status :: "string \<Rightarrow> bool" where
  "live_status s \<longleftrightarrow> s \<in> {''prepared'', ''runtime_dispatched''}"

definition attempt_ok :: "message_row \<Rightarrow> attempt_row \<Rightarrow> bool" where
  "attempt_ok m a \<longleftrightarrow> (da_finished_at a = None \<longleftrightarrow> live_status (da_status a)) \<and>
     (da_finished_at a = None \<longrightarrow> da_ordinal a = dm_attempts m)"

definition view_ok :: "view \<Rightarrow> bool" where
  "view_ok v = (case v of
     (None, as, ls) \<Rightarrow> as = [] \<and> ls = []
   | (Some m, as, ls) \<Rightarrow>
       \<not> is_historical (dm_packet m) \<and> int (dm_attempts m) \<le> dm_maximum_attempts m \<and> dm_maximum_attempts m \<le> 8 \<and>
       map da_ordinal as = [1 ..< Suc (dm_attempts m)] \<and> (\<forall>a \<in> set as. attempt_ok m a) \<and>
       distinct ls \<and> set ls \<subseteq> set RECEIPT_LAYERS \<and> dm_receipt_high_water m \<in> set ls \<and>
       (\<forall>l \<in> set ls. level l \<le> level (dm_receipt_high_water m)))"

text \<open>Whatever may have been dispatched is either settled or still has its open Attempt.\<close>

definition marker_ok :: "view \<Rightarrow> bool" where
  "marker_ok v = (case v of
     (None, as, ls) \<Rightarrow> True
   | (Some m, as, ls) \<Rightarrow> ''runtime_dispatched'' \<in> set ls \<longrightarrow>
       dm_state m \<in> set TERMINAL_STATES \<or> (\<exists>a \<in> set as. da_finished_at a = None))"

definition delivery_inv :: "delivery_db \<Rightarrow> bool" where
  "delivery_inv db \<longleftrightarrow> distinct (map message_key (delivery_messages db)) \<and> (\<forall>k. view_ok (view k db) \<and> marker_ok (view k db))"

text \<open>The columns no statement ever writes again.\<close>

definition frozen :: "message_row \<Rightarrow> message_row" where
  "frozen m = m\<lparr>dm_state := [], dm_attempts := 0, dm_next_attempt_at := 0, dm_last_error := None,
     dm_receipt_high_water := [], dm_activation := None\<rparr>"

lemma frozen_fields [simp]:
  "frozen (m\<lparr>dm_state := a\<rparr>) = frozen m" "frozen (m\<lparr>dm_attempts := n\<rparr>) = frozen m"
  "frozen (m\<lparr>dm_next_attempt_at := t\<rparr>) = frozen m" "frozen (m\<lparr>dm_last_error := c\<rparr>) = frozen m"
  "frozen (m\<lparr>dm_receipt_high_water := l\<rparr>) = frozen m" "frozen (m\<lparr>dm_activation := x\<rparr>) = frozen m"
  by (simp_all add: frozen_def)

lemma frozenD:
  assumes "frozen m' = frozen m"
  shows "message_key m' = message_key m" "dm_packet m' = dm_packet m" "dm_maximum_attempts m' = dm_maximum_attempts m"
    "dm_tenant_id m' = dm_tenant_id m" "dm_message_id m' = dm_message_id m" "dm_operation_id m' = dm_operation_id m"
    "dm_retry_delay_seconds m' = dm_retry_delay_seconds m" "dm_command m' = dm_command m"
proof -
  have "message_key (frozen x) = message_key x" "dm_packet (frozen x) = dm_packet x"
    "dm_maximum_attempts (frozen x) = dm_maximum_attempts x" "dm_tenant_id (frozen x) = dm_tenant_id x"
    "dm_message_id (frozen x) = dm_message_id x" "dm_operation_id (frozen x) = dm_operation_id x"
    "dm_retry_delay_seconds (frozen x) = dm_retry_delay_seconds x" "dm_command (frozen x) = dm_command x" for x
    by (simp_all add: frozen_def message_key_def)
  from this [of m] this [of m'] assms show "message_key m' = message_key m" "dm_packet m' = dm_packet m"
    "dm_maximum_attempts m' = dm_maximum_attempts m" "dm_tenant_id m' = dm_tenant_id m" "dm_message_id m' = dm_message_id m"
    "dm_operation_id m' = dm_operation_id m" "dm_retry_delay_seconds m' = dm_retry_delay_seconds m" "dm_command m' = dm_command m"
    by metis+
qed

section \<open>Calm changes\<close>

lemma view_ok_None [simp]: "view_ok (None, as, ls) \<longleftrightarrow> as = [] \<and> ls = []"
  by (simp add: view_ok_def)

definition calm_view :: "view \<Rightarrow> view \<Rightarrow> bool" where
  "calm_view v v' = (case v of
     (None, as, ls) \<Rightarrow> fst v' = None \<and> (view_ok v \<longrightarrow> v' = v)
   | (Some m, as, ls) \<Rightarrow> (case v' of
       (None, _, _) \<Rightarrow> False
     | (Some m', as', ls') \<Rightarrow>
         frozen m' = frozen m \<and> dm_attempts m' = dm_attempts m \<and> map da_attempt_id as' = map da_attempt_id as \<and>
         (\<exists>x. ls' = ls @ x) \<and> (view_ok v \<longrightarrow> view_ok v')))"

definition calm :: "message_key \<Rightarrow> delivery_db \<Rightarrow> delivery_db \<Rightarrow> bool" where
  "calm k db db' \<longleftrightarrow> map message_key (delivery_messages db') = map message_key (delivery_messages db) \<and>
     (\<forall>j. j \<noteq> k \<longrightarrow> view j db' = view j db) \<and> calm_view (view k db) (view k db') \<and>
     (\<exists>rs. delivery_receipts db' = delivery_receipts db @ rs)"

lemma calm_view_refl [simp]: "calm_view v v"
  by (auto simp: calm_view_def split: option.splits prod.splits)

lemma calm_view_trans: "calm_view u v \<Longrightarrow> calm_view v w \<Longrightarrow> calm_view u w"
  by (cases u; cases v; cases w) (auto simp: calm_view_def split: option.splits prod.splits)

lemma calm_refl [simp]: "calm k db db"
  by (simp add: calm_def)

lemma calm_trans [trans]:
  assumes "calm k a b" "calm k b c"
  shows "calm k a c"
proof -
  obtain r s where "delivery_receipts b = delivery_receipts a @ r" "delivery_receipts c = delivery_receipts b @ s"
    using assms by (auto simp: calm_def)
  then have "\<exists>rs. delivery_receipts c = delivery_receipts a @ rs" by simp
  with assms show ?thesis unfolding calm_def using calm_view_trans by metis
qed

lemma calm_same:
  "delivery_messages db' = delivery_messages db \<Longrightarrow> delivery_attempts db' = delivery_attempts db \<Longrightarrow>
   delivery_receipts db' = delivery_receipts db \<Longrightarrow> calm k db db'"
  by (simp add: calm_def view_def lookup_delivery_def attempts_of_def layers_of_def)

lemma calm_ledger: "ledger db' = ledger db \<Longrightarrow> calm k db db'"
  by (rule calm_same) (simp_all add: ledger_def)

lemma view_update_message:
  assumes "\<And>m. message_key (f m) = message_key m"
  shows "view j (update_message k f db) =
    (if j = k then (map_option f (lookup_delivery k db), attempts_of k db, layers_of k db) else view j db)"
  by (simp add: view_def assms attempts_of_def layers_of_def)

lemma keys_update_message:
  "(\<And>m. message_key (f m) = message_key m) \<Longrightarrow>
   map message_key (delivery_messages (update_message k f db)) = map message_key (delivery_messages db)"
  by (simp add: update_message_def map_update_where)

lemma attempt_ok_cong: "dm_attempts m' = dm_attempts m \<Longrightarrow> attempt_ok m' a = attempt_ok m a"
  by (simp add: attempt_ok_def)

lemma view_ok_message:
  assumes "frozen m' = frozen m" "dm_attempts m' = dm_attempts m" "dm_receipt_high_water m' = dm_receipt_high_water m"
  shows "view_ok (Some m', as, ls) = view_ok (Some m, as, ls)"
  using assms frozenD [OF assms(1)] by (simp add: view_ok_def attempt_ok_cong [OF assms(2)])

lemma calm_update_message:
  assumes "\<And>m. frozen (f m) = frozen m" "\<And>m. dm_attempts (f m) = dm_attempts m"
    "\<And>m. dm_receipt_high_water (f m) = dm_receipt_high_water m"
  shows "calm k db (update_message k f db)"
proof -
  have key: "message_key (f m) = message_key m" for m using assms(1) frozenD(1) by blast
  have "calm_view (view k db) (view k (update_message k f db))"
    unfolding view_update_message [OF key] using view_ok_message [OF assms, of _ "attempts_of k db" "layers_of k db"]
    by (auto simp: view_def calm_view_def assms split: option.splits)
  then show ?thesis
    by (simp add: calm_def keys_update_message [OF key] view_update_message [OF key])
qed

lemma attempts_of_update:
  assumes "\<And>a. attempt_message (f a) = attempt_message a"
  shows "attempts_of j (update_attempts p f db) = update_where p f (attempts_of j db)"
proof -
  have "filter (\<lambda>a. attempt_message a = j) (update_where p f xs) = update_where p f (filter (\<lambda>a. attempt_message a = j) xs)" for xs
    by (induction xs) (auto simp: assms)
  then show ?thesis by (simp add: attempts_of_def update_attempts_def)
qed

lemma lookup_update_attempts [simp]: "lookup_delivery k (update_attempts p f db) = lookup_delivery k db"
  by (simp add: lookup_delivery_def)

lemma calm_update_attempts:
  assumes "\<And>a. p a \<Longrightarrow> attempt_message a = k"
    and same: "\<And>a. attempt_message (f a) = attempt_message a" "\<And>a. da_ordinal (f a) = da_ordinal a"
      "\<And>a. da_attempt_id (f a) = da_attempt_id a"
    and live: "\<And>m a. p a \<Longrightarrow> attempt_ok m a \<Longrightarrow> attempt_ok m (f a)"
  shows "calm k db (update_attempts p f db)"
proof -
  have other: "update_where p f (attempts_of j db) = attempts_of j db" if "j \<noteq> k" for j
    using assms(1) that by (intro update_where_none) (auto simp: attempts_of_def)
  have maps: "map da_ordinal (update_where p f as) = map da_ordinal as"
    "map da_attempt_id (update_where p f as) = map da_attempt_id as" for as
    by (simp_all add: map_update_where same)
  have "calm_view (view k db) (view k (update_attempts p f db))"
    by (auto simp: view_def calm_view_def view_ok_def lookup_delivery_def layers_of_def attempts_of_update [OF same(1)] maps
        set_update_where live split: option.splits)
  then show ?thesis
    by (auto simp: calm_def view_def attempts_of_update [OF same(1)] other lookup_delivery_def layers_of_def)
qed


section \<open>The writes of the dispatcher\<close>

lemma receipt_index_level: "receipt_index l = Some n \<Longrightarrow> level l = n"
  by (simp add: level_def)

lemma receipt_index_layers: "receipt_index l \<noteq> None \<longleftrightarrow> l \<in> set RECEIPT_LAYERS"
proof -
  have "index_of l xs \<noteq> None \<longleftrightarrow> l \<in> set xs" for xs :: "string list" by (induction xs) auto
  then show ?thesis by (simp add: receipt_index_def)
qed

lemma insert_receipt_Inr:
  assumes "insert_delivery_receipt r db = Inr db'"
  shows "db' = db\<lparr>delivery_receipts := delivery_receipts db @ [r]\<rparr> \<and> dr_layer r \<notin> set (layers_of (receipt_message r) db) \<and>
    lookup_delivery (receipt_message r) db \<noteq> None"
  using assms by (auto simp: insert_delivery_receipt_def layers_of_def lookup_receipt_def find_None_iff_all split: if_splits)

lemma layers_of_lookup: "l \<in> set (layers_of k db) \<longleftrightarrow> lookup_receipt k l db \<noteq> None"
  by (auto simp: layers_of_def lookup_receipt_def find_None_iff_all)

lemma has_receipt_layers: "has_receipt k ls db \<longleftrightarrow> (\<exists>l \<in> set ls. l \<in> set (layers_of k db))"
  by (auto simp: has_receipt_def layers_of_def)

lemma raise_view:
  assumes "view_ok (Some m, as, ls)" "l \<in> set RECEIPT_LAYERS" "l \<notin> set ls" "ls' = ls @ [l]"
  shows "view_ok (Some (if level (dm_receipt_high_water m) < level l then m\<lparr>dm_receipt_high_water := l\<rparr> else m), as, ls')"
  using assms by (auto simp: view_ok_def attempt_ok_def intro: order_trans less_imp_le)

lemma raise_view_same:
  assumes "view_ok (Some m, as, ls)" "l \<in> set ls"
  shows "\<not> level (dm_receipt_high_water m) < level l"
  using assms by (auto simp: view_ok_def not_less)

text \<open>
  What recording a receipt does to the ledger: nothing but the high-water mark when the layer is
  there, one more row otherwise.
\<close>

definition raised :: "string \<Rightarrow> message_row \<Rightarrow> message_row" where
  "raised layer m = (if level (dm_receipt_high_water m) < level layer then m\<lparr>dm_receipt_high_water := layer\<rparr> else m)"

lemma raised_fields [simp]:
  "frozen (raised l m) = frozen m" "dm_attempts (raised l m) = dm_attempts m" "dm_state (raised l m) = dm_state m"
  "message_key (raised l m) = message_key m"
  by (simp_all add: raised_def message_key_def)

lemma raise_high_water_update: "raise_high_water k layer db = update_message k (raised layer) db"
  unfolding raise_high_water_def raised_def [abs_def] level_def ..

lemma record_delivery_receipt_Inr:
  assumes "record_delivery_receipt row rid layer evidence a d db = Inr db'"
  shows "\<exists>rs. layer \<in> set RECEIPT_LAYERS \<and>
    db' = update_message (message_key row) (raised layer) (db\<lparr>delivery_receipts := delivery_receipts db @ rs\<rparr>) \<and>
    (rs = [] \<and> layer \<in> set (layers_of (message_key row) db) \<or>
     (\<exists>r. rs = [r] \<and> receipt_message r = message_key row \<and> dr_layer r = layer \<and>
        layer \<notin> set (layers_of (message_key row) db) \<and> lookup_delivery (message_key row) db \<noteq> None))"
proof -
  let ?k = "message_key row"
  let ?r = "\<lparr>dr_tenant_id = dm_tenant_id row, dr_message_id = dm_message_id row, dr_receipt_id = rid, dr_layer = layer,
    dr_attempt_id = a, dr_dispatch_id = d, dr_evidence = jsonify evidence\<rparr>"
  have r: "receipt_message ?r = ?k" by (simp add: receipt_message_def message_key_def)
  have layer: "layer \<in> set RECEIPT_LAYERS"
    using assms receipt_index_layers [of layer] by (auto simp: record_delivery_receipt_def split: if_splits)
  show ?thesis
  proof (cases "lookup_receipt ?k layer db")
    case (Some x)
    with assms have "db' = raise_high_water ?k layer db"
      by (auto simp: record_delivery_receipt_def split: if_splits)
    then show ?thesis using Some layer by (intro exI [of _ "[]"]) (simp add: raise_high_water_update layers_of_lookup)
  next
    case None
    with assms obtain db1 where "insert_delivery_receipt ?r db = Inr db1" "db' = raise_high_water ?k layer db1"
      by (auto simp: record_delivery_receipt_def split: if_splits)
    then show ?thesis using insert_receipt_Inr [of ?r db db1] layer r
      by (intro exI [of _ "[?r]"]) (simp add: raise_high_water_update)
  qed
qed

lemma receipts_calm:
  assumes "layer \<in> set RECEIPT_LAYERS"
    and "rs = [] \<and> layer \<in> set (layers_of k db) \<or>
      (\<exists>r. rs = [r] \<and> receipt_message r = k \<and> dr_layer r = layer \<and> layer \<notin> set (layers_of k db) \<and> lookup_delivery k db \<noteq> None)"
  shows "calm k db (update_message k (raised layer) (db\<lparr>delivery_receipts := delivery_receipts db @ rs\<rparr>))"
    (is "calm k db (update_message k _ ?db)")
proof -
  have key: "message_key (raised layer m) = message_key m" for m by simp
  have base: "lookup_delivery j ?db = lookup_delivery j db" "attempts_of j ?db = attempts_of j db" for j
    by (simp_all add: lookup_delivery_def attempts_of_def)
  have ls: "layers_of k ?db = layers_of k db @ map dr_layer rs" "j \<noteq> k \<Longrightarrow> layers_of j ?db = layers_of j db" for j
    using assms(2) by (auto simp: layers_of_def)
  have "calm_view (view k db) (map_option (raised layer) (lookup_delivery k db), attempts_of k db, layers_of k db @ map dr_layer rs)"
  proof (cases "lookup_delivery k db")
    case (Some m)
    have "view_ok (Some (raised layer m), attempts_of k db, layers_of k db @ map dr_layer rs)"
      if ok: "view_ok (Some m, attempts_of k db, layers_of k db)"
      using assms(2)
    proof
      assume "rs = [] \<and> layer \<in> set (layers_of k db)"
      then show ?thesis using ok raise_view_same [OF ok, of layer] by (simp add: raised_def)
    next
      assume "\<exists>r. rs = [r] \<and> receipt_message r = k \<and> dr_layer r = layer \<and> layer \<notin> set (layers_of k db) \<and> lookup_delivery k db \<noteq> None"
      then show ?thesis using raise_view [OF ok assms(1), of "layers_of k db @ [layer]"] by (auto simp: raised_def)
    qed
    then show ?thesis using Some by (simp add: view_def calm_view_def)
  qed (use assms(2) in \<open>auto simp: view_def calm_view_def\<close>)
  then show ?thesis
    unfolding calm_def view_update_message [OF key] keys_update_message [OF key]
    by (auto simp: view_def base ls)
qed

lemma record_delivery_receipt_calm:
  assumes "record_delivery_receipt row rid layer evidence a d db = Inr db'"
  shows "calm (message_key row) db db' \<and> delivery_attempts db' = delivery_attempts db \<and>
    layer \<in> set (layers_of (message_key row) db') \<and>
    (\<forall>k. map_option dm_state (lookup_delivery k db') = map_option dm_state (lookup_delivery k db))"
proof -
  from record_delivery_receipt_Inr [OF assms] obtain rs where layer: "layer \<in> set RECEIPT_LAYERS"
    and db': "db' = update_message (message_key row) (raised layer) (db\<lparr>delivery_receipts := delivery_receipts db @ rs\<rparr>)"
    and rs: "rs = [] \<and> layer \<in> set (layers_of (message_key row) db) \<or>
     (\<exists>r. rs = [r] \<and> receipt_message r = message_key row \<and> dr_layer r = layer \<and>
        layer \<notin> set (layers_of (message_key row) db) \<and> lookup_delivery (message_key row) db \<noteq> None)" by blast
  have "layer \<in> set (layers_of (message_key row) db')" using rs by (auto simp: db' layers_of_def)
  moreover have "map_option dm_state (lookup_delivery k db') = map_option dm_state (lookup_delivery k db)" for k
  proof -
    have "lookup_delivery k (db\<lparr>delivery_receipts := delivery_receipts db @ rs\<rparr>) = lookup_delivery k db"
      by (simp add: lookup_delivery_def)
    then show ?thesis by (cases "lookup_delivery k db") (auto simp: db')
  qed
  ultimately show ?thesis using receipts_calm [OF layer rs] by (simp add: db')
qed

end
