(* ===== verification/Delivery_Safety.thy ===== *)
theory Delivery_Safety
  imports Delivery_Views
begin

text \<open>
  Every transaction of the delivery service keeps the ledger invariant \<open>delivery_inv\<close> and only
  moves it forward (\<open>extends\<close>): rows keep their immutable columns, receipts are appended, the
  number of Attempts and the receipt high-water mark never fall, and after the dispatch marker no
  Attempt is added. \<open>raises\<close> bounds the exceptions a check can raise.
\<close>

section \<open>Exceptions of the checks\<close>

definition raises :: "(exn \<Rightarrow> bool) \<Rightarrow> 'a result \<Rightarrow> bool" where
  "raises P r = (case r of Inl e \<Rightarrow> P e | Inr _ \<Rightarrow> True)"

lemma raises_Inl [simp]: "raises P (Inl e) = P e" and raises_Inr [simp]: "raises P (Inr x)"
  by (simp_all add: raises_def)

lemma raisesD: "raises P r \<Longrightarrow> r = Inl e \<Longrightarrow> P e"
  by (simp add: raises_def)

lemma raises_rbind [intro]: "raises P r \<Longrightarrow> (\<And>x. raises P (f x)) \<Longrightarrow> raises P (rbind r f)"
  by (cases r) (auto simp: raises_def rbind_def split: sum.splits)

lemma raises_guard [intro]: "P e \<Longrightarrow> raises P (guard b e)"
  by (simp add: guard_def)

lemma raises_if [intro]: "raises P x \<Longrightarrow> raises P y \<Longrightarrow> raises P (if b then x else y)"
  by simp

lemma raises_option [intro]: "raises P x \<Longrightarrow> (\<And>v. raises P (f v)) \<Longrightarrow> raises P (case r of None \<Rightarrow> x | Some v \<Rightarrow> f v)"
  by (cases r) auto

lemma raises_prod [intro]: "(\<And>a b. raises P (f a b)) \<Longrightarrow> raises P (case r of (a, b) \<Rightarrow> f a b)"
  by (cases r) auto

lemmas raises_intros = raises_rbind raises_guard raises_if raises_option raises_prod

text \<open>
  \<open>steady_error\<close>: an exception that leaves the message in a terminal state when the preparing
  transaction turns it into a failure. Only an unavailable transport does not.
\<close>

definition steady_error :: "exn \<Rightarrow> bool" where
  "steady_error e = (case e of DeliveryRejected _ s \<Rightarrow> s \<in> set TERMINAL_STATES | DeliveryTransportError _ \<Rightarrow> False | _ \<Rightarrow> True)"

lemma steady_simps [simp]:
  "steady_error (DeliveryRejected c s) \<longleftrightarrow> s \<in> set TERMINAL_STATES" "\<not> steady_error (DeliveryTransportError t)"
  "steady_error (AuthorizationDenied p g x y)" "steady_error (IdentityRejected p g w)" "steady_error (TypeError t)"
  "steady_error (ValueError t)" "steady_error (AttributeError t)" "steady_error (PyKeyError t)"
  "steady_error (BusinessDeadlineExpired t)"
  by (simp_all add: steady_error_def)

lemma terminal_names [simp]:
  "''blocked'' \<in> set TERMINAL_STATES" "''expired'' \<in> set TERMINAL_STATES" "''uncertain'' \<in> set TERMINAL_STATES"
  "''delivered'' \<in> set TERMINAL_STATES" "''budget_exhausted'' \<in> set TERMINAL_STATES"
  "''queued'' \<notin> set TERMINAL_STATES" "''retry_wait'' \<notin> set TERMINAL_STATES" "''delivering'' \<notin> set TERMINAL_STATES"
  by (simp_all add: TERMINAL_STATES_def)

abbreviation steady :: "'a result \<Rightarrow> bool" where
  "steady \<equiv> raises steady_error"

lemma steady_row_live: "steady (row_live c p now r)"
  unfolding row_live_def Let_def by (intro raises_intros) simp_all

lemma steady_check_chain: "steady (check_chain env c p now parent rows)"
  by (induction rows arbitrary: parent) (auto intro!: raises_intros steady_row_live)

lemma steady_authorize: "steady (authorize env self clk c p s k db)"
proof -
  have del: "steady (authorize_delegation env self now c p db)" for now
    unfolding authorize_delegation_def Let_def by (intro raises_intros steady_check_chain) simp_all
  have own: "steady (authorize_owner self now c s db)" for now
    unfolding authorize_owner_def Let_def by (intro raises_intros) simp_all
  show ?thesis unfolding authorize_def Let_def by (intro raises_intros del own) simp_all
qed

lemma steady_parse_handle: "steady (parse_handle v k p)"
  unfolding parse_handle_def by (auto split: list.split)

lemma steady_handle: "steady (handle k p i)"
  unfolding handle_def by simp

lemma steady_policies: "steady (team_policies v)" "steady (check_policies c p vs)"
proof -
  have get: "steady (get_default v k d)" for v k d by (cases v) simp_all
  have items: "steady (py_items v)" for v by (cases v) simp_all
  have contains: "steady (py_contains s v)" for s v by (cases v) simp_all
  show "steady (team_policies v)" unfolding team_policies_def by (intro raises_intros get items)
  show "steady (check_policies c p vs)"
    by (induction vs) (auto intro!: raises_intros get contains)
qed

text \<open>
  The attachment store is a parameter. What the boundary relies on: it refuses with the default
  state of \<open>DeliveryRejected\<close>, and never reports a missing transport.
\<close>

definition attachments_steady :: "delivery_service \<Rightarrow> bool" where
  "attachments_steady s \<longleftrightarrow> (\<forall>c p scope sender ids db. steady (ds_attachments s c p scope sender ids db))"

lemma steady_check_caller: "attachments_steady self \<Longrightarrow> steady (check_caller self c p j db)"
proof -
  assume att: "attachments_steady self"
  have notice: "steady (authorize_notice c n db)" for n
    unfolding authorize_notice_def notice_content_def Let_def by (intro raises_intros steady_handle) simp_all
  have sender: "steady (check_sender self c m db)" for m
    unfolding check_sender_def by (intro raises_intros steady_parse_handle) simp_all
  from att show ?thesis unfolding check_caller_def
    by (cases p) (auto intro!: raises_intros sender notice simp: attachments_steady_def)
qed

lemma steady_boundary: "attachments_steady self \<Longrightarrow> steady (delivery_boundary env self clk c p i r b db)"
proof -
  assume att: "attachments_steady self"
  have bind: "steady (check_binding env self now c p t i r b db)" for now t
    unfolding check_binding_def by (intro raises_intros) simp_all
  have target: "steady (check_target env self k c p i r b db)" for k
    unfolding check_target_def Let_def by (intro raises_intros steady_parse_handle steady_policies bind) simp_all
  show ?thesis unfolding delivery_boundary_def communication_boundary_def Let_def
    by (intro raises_intros steady_authorize steady_check_caller [OF att] target) simp_all
qed

lemma steady_authorize_row:
  assumes "attachments_steady (dp_service self)"
  shows "steady (authorize_row env self clk row db)"
proof -
  have "attachments_steady (recovered_service (dp_service self) ctx)" for ctx
    using assms by (simp add: attachments_steady_def recovered_service_def)
  then show ?thesis unfolding authorize_row_def committed_delivery_context_def Let_def
    by (intro raises_intros steady_boundary) simp_all
qed

definition steady_or_transport :: "exn \<Rightarrow> bool" where
  "steady_or_transport e \<longleftrightarrow> steady_error e \<or> (\<exists>s. e = DeliveryTransportError s)"

lemma raises_mono: "raises P r \<Longrightarrow> (\<And>e. P e \<Longrightarrow> Q e) \<Longrightarrow> raises Q r"
  by (cases r) auto

lemma selected_endpoint_raises:
  assumes "attachments_steady (dp_service self)"
  shows "raises steady_or_transport (selected_endpoint env self clk row a db)"
proof -
  have auth: "raises steady_or_transport (authorize_row env self clk row db)"
    by (rule raises_mono [OF steady_authorize_row [OF assms]]) (simp add: steady_or_transport_def)
  have inv: "raises steady_or_transport (check_invocation env e a)" for e
    unfolding check_invocation_def invocation_for_def by (intro raises_intros) (simp_all add: steady_or_transport_def)
  have res: "raises steady_or_transport (check_resolved self now row s db)" for now s
    unfolding check_resolved_def by (intro raises_intros) (simp_all add: steady_or_transport_def)
  show ?thesis unfolding selected_endpoint_def Let_def
    by (intro raises_intros auth inv res) (simp_all add: steady_or_transport_def)
qed

lemma claim_reuse_raises:
  assumes "attachments_steady (dp_service self)"
  shows "steady (claim_attempt env self clk free fresh row True db)"
proof -
  have "steady (case selected_endpoint env self k row a db of
      Inr _ \<Rightarrow> Inr (None, db)
    | Inl error \<Rightarrow> (case error of DeliveryTransportError _ \<Rightarrow> Inr x | _ \<Rightarrow> Inl error))" for k a x
    using selected_endpoint_raises [OF assms, of env k row a db]
    by (cases "selected_endpoint env self k row a db") (auto simp: steady_or_transport_def split: exn.split)
  then show ?thesis unfolding claim_attempt_def load_attempt_def if_True
    by (intro raises_intros steady_authorize_row [OF assms]) simp_all
qed

lemma classify_steady:
  assumes "steady_error e" "dispatch_caught e"
  shows "fst (classify_failure self row e) \<in> set TERMINAL_STATES"
  using assms by (cases e) (auto simp: classify_failure_def dispatch_caught_def)

lemma load_rejected_blocked: "load_delivery i db = Inl (DeliveryRejected c s) \<Longrightarrow> s = ''blocked''"
  unfolding load_delivery_def by (auto split: option.splits if_splits)


section \<open>Single writes\<close>

lemma message_states_not_live: "s \<in> set MESSAGE_STATES \<Longrightarrow> \<not> live_status s"
  by (auto simp: MESSAGE_STATES_def live_status_def)

lemma finish_Inr:
  assumes "finish clk row state code db = Inr db'"
  shows "state \<in> set MESSAGE_STATES \<and> ledger db' = ledger
    (update_attempts (is_open row) (\<lambda>a. a\<lparr>da_status := state, da_error_code := code, da_finished_at := Some (clk 1)\<rparr>)
    (update_message (message_key row) (\<lambda>m. m\<lparr>dm_state := state, dm_last_error := code,
       dm_next_attempt_at := clk 0 + seconds (dm_retry_delay_seconds m)\<rparr>) db))"
  using assms unfolding finish_def by (auto dest: record_obstacle_frame split: if_splits)

lemma ledger_rows:
  assumes "ledger db' = ledger db"
  shows "delivery_messages db' = delivery_messages db" "delivery_attempts db' = delivery_attempts db"
    "delivery_receipts db' = delivery_receipts db" "dcore db' = dcore db"
  using assms by (simp_all add: ledger_def)

lemma ledger_view: "ledger db' = ledger db \<Longrightarrow> view k db' = view k db"
  by (simp add: ledger_def view_def lookup_delivery_def attempts_of_def layers_of_def)

lemma finish_calm:
  assumes "finish clk row state code db = Inr db'"
  shows "calm (message_key row) db db' \<and> delivery_receipts db' = delivery_receipts db \<and>
    (\<forall>m. lookup_delivery (message_key row) db' = Some m \<longrightarrow> dm_state m = state)"
proof -
  let ?k = "message_key row"
  let ?f = "\<lambda>m. m\<lparr>dm_state := state, dm_last_error := code, dm_next_attempt_at := clk 0 + seconds (dm_retry_delay_seconds m)\<rparr>"
  let ?g = "\<lambda>a. a\<lparr>da_status := state, da_error_code := code, da_finished_at := Some (clk 1)\<rparr>"
  let ?db = "update_attempts (is_open row) ?g (update_message ?k ?f db)"
  note fin = finish_Inr [OF assms]
  have "calm ?k db (update_message ?k ?f db)" by (rule calm_update_message) simp_all
  also have "calm ?k (update_message ?k ?f db) ?db"
  proof (rule calm_update_attempts)
    show "attempt_ok m (?g a)" for m a using fin message_states_not_live by (simp add: attempt_ok_def)
  qed (simp_all add: is_open_def attempt_message_def)
  also have "calm ?k ?db db'" using fin by (intro calm_ledger) simp
  finally have calm: "calm ?k db db'" .
  have led: "ledger db' = ledger ?db" using fin by simp
  have "lookup_delivery ?k db' = lookup_delivery ?k ?db"
    using ledger_view [OF led, of ?k] by (simp add: view_def)
  also have "\<dots> = map_option ?f (lookup_delivery ?k db)" by (simp add: message_key_def)
  finally have "\<forall>m. lookup_delivery ?k db' = Some m \<longrightarrow> dm_state m = state" by auto
  moreover have "delivery_receipts db' = delivery_receipts db" using ledger_rows(3) [OF led] by simp
  ultimately show ?thesis using calm by simp
qed

lemma layers_of_receipts: "delivery_receipts db' = delivery_receipts db \<Longrightarrow> layers_of k db' = layers_of k db"
  by (simp add: layers_of_def)

lemma marker_ok_settled:
  "(\<forall>m. lookup_delivery k db = Some m \<longrightarrow> dm_state m \<in> set TERMINAL_STATES) \<Longrightarrow> marker_ok (view k db)"
  by (auto simp: marker_ok_def view_def split: option.splits)

lemma marker_ok_unmarked: "''runtime_dispatched'' \<notin> set (layers_of k db) \<Longrightarrow> marker_ok (view k db)"
  by (auto simp: marker_ok_def view_def split: option.splits)

lemma marker_ok_open: "\<exists>a \<in> set (attempts_of k db). da_finished_at a = None \<Longrightarrow> marker_ok (view k db)"
  by (auto simp: marker_ok_def view_def split: option.splits)

lemma finish_marker:
  assumes "finish clk row state code db = Inr db'"
    and "state \<in> set TERMINAL_STATES \<or> ''runtime_dispatched'' \<notin> set (layers_of (message_key row) db)"
  shows "marker_ok (view (message_key row) db')"
  using assms(2)
proof
  assume "state \<in> set TERMINAL_STATES"
  then show ?thesis using finish_calm [OF assms(1)] by (intro marker_ok_settled) simp
next
  assume "''runtime_dispatched'' \<notin> set (layers_of (message_key row) db)"
  moreover have "layers_of (message_key row) db' = layers_of (message_key row) db"
    using finish_calm [OF assms(1)] by (intro layers_of_receipts) simp
  ultimately show ?thesis by (intro marker_ok_unmarked) simp
qed

lemma failure_calm:
  assumes "failure self clk row error db = Inr (r, db')"
    and "fst (classify_failure self row error) \<in> set TERMINAL_STATES \<or>
      ''runtime_dispatched'' \<notin> set (layers_of (message_key row) db)"
  shows "calm (message_key row) db db' \<and> marker_ok (view (message_key row) db')"
proof -
  obtain status code where c: "classify_failure self row error = (status, code)" by fastforce
  with assms(1) have "finish clk row status (Some code) db = Inr db'" by (auto simp: failure_def)
  then show ?thesis using finish_calm [of clk row status "Some code" db db'] finish_marker [of clk row status "Some code" db db'] assms(2) c
    by simp
qed

lemma defer_calm: "calm (message_key row) db (snd (defer_prepared now row why db))"
  unfolding defer_prepared_def snd_conv by (rule calm_update_message) simp_all

lemma defer_rows [simp]:
  "delivery_attempts (snd (defer_prepared now row why db)) = delivery_attempts db"
  "delivery_receipts (snd (defer_prepared now row why db)) = delivery_receipts db"
  by (simp_all add: defer_prepared_def)

text \<open>A message that is not settled keeps its open Attempt when it is only rescheduled.\<close>

lemma marker_ok_defer:
  assumes "marker_ok (view (message_key row) db)" "lookup_delivery (message_key row) db = Some m" "dm_state m \<notin> set TERMINAL_STATES"
  shows "marker_ok (view (message_key row) (snd (defer_prepared now row why db)))"
proof (cases "''runtime_dispatched'' \<in> set (layers_of (message_key row) db)")
  case True
  with assms have "\<exists>a \<in> set (attempts_of (message_key row) db). da_finished_at a = None"
    by (auto simp: marker_ok_def view_def)
  then show ?thesis by (intro marker_ok_open) (simp add: attempts_of_def)
next
  case False
  then show ?thesis by (intro marker_ok_unmarked) (simp add: layers_of_def)
qed

lemma project_receipts_calm:
  assumes "project_receipts row rs db = Inr db'"
  shows "calm (message_key row) db db' \<and> delivery_attempts db' = delivery_attempts db \<and>
    (\<forall>k. map_option dm_state (lookup_delivery k db') = map_option dm_state (lookup_delivery k db))"
  using assms
proof (induction rs arbitrary: db)
  case (Cons r rs)
  show ?case
  proof (cases "rn_layer r = ''accepted_by_authority''")
    case False
    with Cons.prems obtain db1 a d where
      rec: "record_delivery_receipt row (rn_receipt_id r) (rn_layer r) (rn_evidence r) a d db = Inr db1"
      and rest: "project_receipts row rs db1 = Inr db'"
      by (auto split: option.splits)
    note step = record_delivery_receipt_calm [OF rec]
    show ?thesis using step Cons.IH [OF rest] calm_trans [of "message_key row" db db1 db'] by simp
  qed (use Cons in simp)
qed simp

lemma project_calm:
  assumes "project env now row obs db = Inr db'"
  shows "calm (message_key row) db db' \<and> delivery_attempts db' = delivery_attempts db \<and>
    (\<forall>k. map_option dm_state (lookup_delivery k db') = map_option dm_state (lookup_delivery k db))"
proof -
  from assms obtain db1 inbox db2 where recs: "project_receipts row (ob_receipts obs) db = Inr db1"
    and inbox: "project_inbox env row inbox db1 = Inr db2" and db': "db' = mark_outbox now row db2"
    unfolding project_def by (auto split: option.splits)
  have same: "delivery_messages db' = delivery_messages db1 \<and> delivery_attempts db' = delivery_attempts db1 \<and>
      delivery_receipts db' = delivery_receipts db1"
    using inbox unfolding db' project_inbox_def mark_outbox_def by (auto simp: Let_def split: option.splits if_splits)
  have "calm (message_key row) db1 db'" using same by (intro calm_same) auto
  with project_receipts_calm [OF recs] have "calm (message_key row) db db'" using calm_trans by blast
  then show ?thesis using project_receipts_calm [OF recs] same by (simp add: lookup_delivery_def)
qed

end
