(* ===== verification/Delivery_Progress.thy ===== *)
theory Delivery_Progress
  imports Delivery_Safety
begin

text \<open>
  The transactions of the dispatcher and of the delivery service are \<open>safe\<close>: from a ledger that
  satisfies \<open>delivery_inv\<close> they lead to one that does, and they only extend it.
\<close>

section \<open>Safe changes\<close>

definition marked :: "message_key \<Rightarrow> delivery_db \<Rightarrow> bool" where
  "marked k db \<longleftrightarrow> ''runtime_dispatched'' \<in> set (layers_of k db)"

definition extends :: "delivery_db \<Rightarrow> delivery_db \<Rightarrow> bool" where
  "extends db db' \<longleftrightarrow> (\<exists>rs. delivery_receipts db' = delivery_receipts db @ rs) \<and>
     (\<forall>k m. lookup_delivery k db = Some m \<longrightarrow> (\<exists>m'. lookup_delivery k db' = Some m' \<and> frozen m' = frozen m \<and>
        dm_attempts m \<le> dm_attempts m' \<and> level (dm_receipt_high_water m) \<le> level (dm_receipt_high_water m') \<and>
        (marked k db \<longrightarrow> dm_attempts m' = dm_attempts m)))"

definition safe :: "delivery_db \<Rightarrow> delivery_db \<Rightarrow> bool" where
  "safe db db' \<longleftrightarrow> (delivery_inv db \<longrightarrow> delivery_inv db' \<and> extends db db')"

lemma extends_refl [simp]: "extends db db"
  by (simp add: extends_def)

lemma marked_extends: "extends a b \<Longrightarrow> marked k a \<Longrightarrow> marked k b"
  by (auto simp: extends_def marked_def layers_of_def)

lemma extends_trans:
  assumes "extends a b" "extends b c"
  shows "extends a c"
proof -
  obtain r s where "delivery_receipts b = delivery_receipts a @ r" "delivery_receipts c = delivery_receipts b @ s"
    using assms by (auto simp: extends_def)
  then have rs: "\<exists>rs. delivery_receipts c = delivery_receipts a @ rs" by simp
  have "\<exists>m''. lookup_delivery k c = Some m'' \<and> frozen m'' = frozen m \<and> dm_attempts m \<le> dm_attempts m'' \<and>
      level (dm_receipt_high_water m) \<le> level (dm_receipt_high_water m'') \<and> (marked k a \<longrightarrow> dm_attempts m'' = dm_attempts m)"
    if m: "lookup_delivery k a = Some m" for k m
  proof -
    obtain m' where m': "lookup_delivery k b = Some m'" "frozen m' = frozen m" "dm_attempts m \<le> dm_attempts m'"
      "level (dm_receipt_high_water m) \<le> level (dm_receipt_high_water m')" "marked k a \<longrightarrow> dm_attempts m' = dm_attempts m"
      using assms(1) m unfolding extends_def by blast
    obtain m'' where "lookup_delivery k c = Some m''" "frozen m'' = frozen m'" "dm_attempts m' \<le> dm_attempts m''"
      "level (dm_receipt_high_water m') \<le> level (dm_receipt_high_water m'')" "marked k b \<longrightarrow> dm_attempts m'' = dm_attempts m'"
      using assms(2) m'(1) unfolding extends_def by blast
    with m' show ?thesis using marked_extends [OF assms(1), of k] by (intro exI [of _ m'']) auto
  qed
  with rs show ?thesis unfolding extends_def by blast
qed

lemma safe_refl [simp]: "safe db db"
  by (simp add: safe_def)

lemma safe_trans: "safe a b \<Longrightarrow> safe b c \<Longrightarrow> safe a c"
  using extends_trans by (auto simp: safe_def)

lemma safeI: "(delivery_inv db \<Longrightarrow> safe db db') \<Longrightarrow> safe db db'"
  by (auto simp: safe_def)

lemma invD:
  assumes "delivery_inv db"
  shows "view_ok (view k db)" "marker_ok (view k db)" "distinct (map message_key (delivery_messages db))"
  using assms unfolding delivery_inv_def by blast+

lemma calm_view_ok: "calm_view v v' \<Longrightarrow> view_ok v \<Longrightarrow> view_ok v'"
  by (cases v; cases v') (auto simp: calm_view_def split: option.splits)

lemma calm_safe:
  assumes "calm k db db'" "delivery_inv db \<Longrightarrow> marker_ok (view k db')"
  shows "safe db db'"
  unfolding safe_def
proof
  assume inv: "delivery_inv db"
  have keys: "map message_key (delivery_messages db') = map message_key (delivery_messages db)"
    and other: "\<And>j. j \<noteq> k \<Longrightarrow> view j db' = view j db" and cv: "calm_view (view k db) (view k db')"
    and rs: "\<exists>rs. delivery_receipts db' = delivery_receipts db @ rs"
    using assms(1) by (auto simp: calm_def)
  have ok: "view_ok (view k db')"
    using calm_view_ok [OF cv] invD(1) [OF inv, of k] by simp
  have "delivery_inv db'"
    unfolding delivery_inv_def keys using invD [OF inv] ok assms(2) [OF inv] other by metis
  moreover have "extends db db'"
    unfolding extends_def
  proof (intro conjI allI impI rs)
    fix j m assume m: "lookup_delivery j db = Some m"
    show "\<exists>m'. lookup_delivery j db' = Some m' \<and> frozen m' = frozen m \<and> dm_attempts m \<le> dm_attempts m' \<and>
      level (dm_receipt_high_water m) \<le> level (dm_receipt_high_water m') \<and> (marked j db \<longrightarrow> dm_attempts m' = dm_attempts m)"
    proof (cases "j = k")
      case True
      with cv m obtain m' x where m': "lookup_delivery k db' = Some m'" "frozen m' = frozen m" "dm_attempts m' = dm_attempts m"
        "layers_of k db' = layers_of k db @ x"
        by (auto simp: calm_view_def view_def split: option.splits)
      have "dm_receipt_high_water m \<in> set (layers_of k db)"
        using invD(1) [OF inv, of k] True m by (simp add: view_ok_def view_def)
      then have "level (dm_receipt_high_water m) \<le> level (dm_receipt_high_water m')"
        using ok m' by (simp add: view_ok_def view_def)
      then show ?thesis using m' True by simp
    next
      case False
      then have "lookup_delivery j db' = lookup_delivery j db" using other by (simp add: view_def)
      then show ?thesis using m by simp
    qed
  qed
  ultimately show "delivery_inv db' \<and> extends db db'" ..
qed

lemma views_safe:
  assumes "delivery_messages db' = delivery_messages db" "delivery_attempts db' = delivery_attempts db"
    "delivery_receipts db' = delivery_receipts db"
  shows "safe db db'"
proof (rule calm_safe)
  show "calm k db db'" for k using assms by (rule calm_same)
  have "view k db' = view k db" for k
    using assms by (simp add: view_def lookup_delivery_def attempts_of_def layers_of_def)
  then show "delivery_inv db \<Longrightarrow> marker_ok (view undefined db')" by (simp add: invD)
qed

lemma find_message_lookup:
  assumes "delivery_inv db" "find_message i db = Some row"
  shows "lookup_delivery (message_key row) db = Some row" "message_key row = (di_tenant_id i, di_message_id i)"
proof -
  from find_SomeD [OF assms(2) [unfolded find_message_def]] have "row \<in> set (delivery_messages db)"
    and k: "message_key row = (di_tenant_id i, di_message_id i)" by (auto simp: message_key_def)
  then show "lookup_delivery (message_key row) db = Some row"
    using find_Some_iff_key [OF invD(3) [OF assms(1)], of "message_key row" row] by (simp add: lookup_delivery_def)
  show "message_key row = (di_tenant_id i, di_message_id i)" by (fact k)
qed

lemma load_delivery_find: "load_delivery i db = Inr (row, w) \<Longrightarrow> find_message i db = Some row"
  unfolding load_delivery_def by (auto split: option.splits if_splits)

lemmas load_lookup = find_message_lookup [OF _ load_delivery_find]

section \<open>Closing transactions\<close>

lemma finish_safe:
  assumes "finish clk row state code db = Inr db'"
    and "state \<in> set TERMINAL_STATES \<or> \<not> marked (message_key row) db"
  shows "safe db db'"
  using finish_calm [OF assms(1)] finish_marker [OF assms(1)] assms(2)
  by (intro calm_safe [of "message_key row"]) (auto simp: marked_def)

lemma failure_safe:
  assumes "failure self clk row error db = Inr (r, db')"
    and "fst (classify_failure self row error) \<in> set TERMINAL_STATES \<or> \<not> marked (message_key row) db"
  shows "safe db db'"
  using failure_calm [OF assms(1)] assms(2) by (intro calm_safe [of "message_key row"]) (auto simp: marked_def)

lemma project_finish_safe:
  assumes "project env now row obs db = Inr db1" "finish clk row state code db1 = Inr db'"
    and "state \<in> set TERMINAL_STATES"
  shows "safe db db'"
proof (rule calm_safe)
  show "calm (message_key row) db db'" using project_calm [OF assms(1)] finish_calm [OF assms(2)] calm_trans by blast
  show "marker_ok (view (message_key row) db')" using finish_marker [OF assms(2)] assms(3) by simp
qed

lemma defer_safe:
  assumes "lookup_delivery (message_key row) db = Some m" "dm_state m \<notin> set TERMINAL_STATES"
  shows "safe db (snd (defer_prepared now row why db))"
  using marker_ok_defer [OF invD(2) assms] by (intro calm_safe [OF defer_calm]) simp

lemma complete_dispatch_safe:
  assumes "complete_dispatch env clk i obs db = Inr (r, db')" "ob_status obs \<in> set TERMINAL_STATES"
  shows "safe db db'"
  using assms unfolding complete_dispatch_def by (auto intro: project_finish_safe)

lemma recover_complete_safe:
  assumes "recover_complete env clk i obs db = Inr (r, db')" "ob_status obs \<in> set TERMINAL_STATES"
  shows "safe db db'"
  using assms unfolding recover_complete_def by (auto intro: project_finish_safe)

lemma recover_failed_safe:
  assumes "recover_failed clk i error db = Inr (r, db')"
  shows "safe db db'"
  using assms unfolding recover_failed_def by (auto intro: finish_safe split: if_splits)

lemma readback_startup_safe:
  assumes "readback_startup clk i db = Inr (r, db')"
  shows "safe db db'"
proof (rule safeI)
  assume inv: "delivery_inv db"
  from assms obtain row w where load: "load_delivery i db = Inr (row, w)" unfolding readback_startup_def by auto
  note row = load_lookup [OF inv load]
  let ?t = "update_message (di_tenant_id i, di_message_id i)
                 (\<lambda>m. m\<lparr>dm_next_attempt_at := clk 1 + seconds (dm_retry_delay_seconds m)\<rparr>) db"
  have "safe db ?t" if "dm_state row \<in> set TERMINAL_STATES"
  proof (rule calm_safe)
    show "calm (message_key row) db ?t" unfolding row(2) by (rule calm_update_message) simp_all
    show "marker_ok (view (message_key row) ?t)"
      using row that by (intro marker_ok_settled) (auto simp: message_key_def)
  qed
  then show "safe db db'"
    using assms load row(1) defer_safe [OF row(1), of "clk 1" "''receiver_wake_original_readback_required''"]
    unfolding readback_startup_def by (auto intro: finish_safe simp: defer_prepared_def split: if_splits)
qed

section \<open>The marker\<close>

lemma set_marker_safe:
  assumes "set_marker row v evidence conflict db = Inr db'"
  shows "safe db db'"
proof (rule safeI)
  assume inv: "delivery_inv db"
  let ?k = "message_key row"
  let ?p = "\<lambda>a. attempt_message a = ?k \<and> da_ordinal a = dm_attempts row \<and> da_status a = ''prepared''"
  let ?f = "\<lambda>m. m\<lparr>dm_activation := Some (location_of v)\<rparr>"
  let ?g = "\<lambda>a. a\<lparr>da_status := ''runtime_dispatched''\<rparr>"
  from assms obtain db1 a where rec: "record_delivery_receipt row (iv_runtime_dispatched_receipt_id v) ''runtime_dispatched''
      evidence (Some (iv_attempt_id v)) (Some (iv_dispatch_id v)) db = Inr db1"
    and a: "a \<in> set (delivery_attempts db1)" "?p a"
    and db': "db' = update_attempts ?p ?g (update_message ?k ?f db1)"
    unfolding set_marker_def by (auto split: if_splits)
  note step = record_delivery_receipt_calm [OF rec]
  have c2: "calm ?k db1 (update_message ?k ?f db1)" by (rule calm_update_message) simp_all
  have c3: "calm ?k (update_message ?k ?f db1) db'" unfolding db'
    by (rule calm_update_attempts) (auto simp: attempt_message_def attempt_ok_def live_status_def)
  have calm: "calm ?k db db'" using step c2 c3 calm_trans by blast
  have mem: "a \<in> set (attempts_of ?k db)" using a step by (simp add: attempts_of_def)
  have ok: "view_ok (view ?k db)" by (rule invD(1) [OF inv])
  then have "attempt_ok (the (lookup_delivery ?k db)) a"
    using mem by (cases "lookup_delivery ?k db") (auto simp: view_def view_ok_def)
  then have "da_finished_at (?g a) = None" using a by (simp add: attempt_ok_def live_status_def)
  moreover have "?g a \<in> set (attempts_of ?k db')"
    using a by (auto simp: db' attempts_of_def update_attempts_def set_update_where attempt_message_def)
  ultimately have "marker_ok (view ?k db')" by (intro marker_ok_open) blast
  with calm show "safe db db'" by (intro calm_safe) auto
qed

lemma mark_dispatched_safe: "mark_dispatched env self clk i v evidence db = Inr db' \<Longrightarrow> safe db db'"
  unfolding mark_dispatched_def by (auto intro: set_marker_safe split: if_splits)

lemma mark_original_safe: "mark_original env self clk rc i r v proof db = Inr db' \<Longrightarrow> safe db db'"
  unfolding mark_original_def by (auto intro: set_marker_safe split: if_splits)

lemma run_marks_safe: "safe db (run_marks env self i ms db)"
proof (induction ms arbitrary: db)
  case (Cons m ms)
  obtain clk v ev where m: "m = (clk, v, ev)" by (cases m)
  show ?case
  proof (cases "mark_dispatched env self clk i v ev db")
    case (Inr db1)
    then show ?thesis using mark_dispatched_safe [OF Inr] Cons.IH [of db1] safe_trans by (auto simp: m)
  qed (use Cons m in auto)
qed simp

lemma run_original_marks_safe: "safe db (run_original_marks env self rc i r ms db)"
proof (induction ms arbitrary: db)
  case (Cons m ms)
  obtain clk v ev where m: "m = (clk, v, ev)" by (cases m)
  show ?case
  proof (cases "mark_original env self clk rc i r v ev db")
    case (Inr db1)
    then show ?thesis using mark_original_safe [OF Inr] Cons.IH [of db1] safe_trans by (auto simp: m)
  qed (use Cons m in auto)
qed simp

end
