(* ===== verification/Delivery_Claims.thy ===== *)
theory Delivery_Claims
  imports Delivery_Progress
begin

text \<open>
  The preparing transaction (\<open>prepare_dispatch\<close>) is safe: it reuses the open prepared Attempt, or
  claims a new one when no Attempt is open, the budget is not spent and nothing can have been
  dispatched. Then the remaining transactions and the composed calls: \<open>dispatch\<close>,
  \<open>recover_prepared\<close>, \<open>reconcile_marked\<close>, \<open>send_message\<close> and \<open>bind_endpoint\<close>.
\<close>

section \<open>The wait channel\<close>

lemma update_ingress_rows [simp]:
  "delivery_messages (update_ingress t p mid f db) = delivery_messages db"
  "delivery_attempts (update_ingress t p mid f db) = delivery_attempts db"
  "delivery_receipts (update_ingress t p mid f db) = delivery_receipts db"
  by (simp_all add: update_ingress_def)

lemma view_update_ingress [simp]: "view k (update_ingress t p mid f db) = view k db"
  by (simp add: view_def lookup_delivery_def attempts_of_def layers_of_def)

lemma gate_cases:
  assumes "gate now t p mid db = (b, db')"
  obtains (same) g where "db' = db \<or> db' = update_ingress t p mid g db"
  | (held) g expiry where "db' = update_message (t, mid) (\<lambda>m. m\<lparr>dm_next_attempt_at := expiry\<rparr>) (update_ingress t p mid g db)"
  | (released) g where "\<not> marked (t, mid) db" "db' = update_message (t, mid)
      (\<lambda>m. if dm_state m = ''retry_wait'' \<and> dm_attempts m = 0
           then m\<lparr>dm_state := ''queued'', dm_next_attempt_at := now\<rparr> else m) (update_ingress t p mid g db)"
proof (cases "lookup_ingress t p mid db")
  case None
  with assms show thesis by (intro same) (simp add: gate_def)
next
  case (Some w)
  note w = Some
  show thesis
  proof (cases "wi_state w = ''reserved''")
    case False
    with assms w show thesis by (intro same) (simp add: gate_def)
  next
    case True
    show thesis
    proof (cases "latest_wait now w db")
      case None
      note none = this
      show thesis
      proof (cases "has_receipt (t, mid) [''runtime_dispatched'', ''runtime_acknowledged'', ''response_received''] db")
        case rec: True
        with assms w True none show thesis by (intro same) (auto simp: gate_def Let_def)
      next
        case False
        then have "\<not> marked (t, mid) db" by (auto simp: has_receipt_layers marked_def)
        with False assms w True none show thesis by (intro released) (auto simp: gate_def Let_def)
      qed
    next
      case (Some expiry)
      with assms w True show thesis by (intro held) (auto simp: gate_def)
    qed
  qed
qed

lemma gate_safe:
  assumes "gate now t p mid db = (b, db')"
  shows "safe db db' \<and> (\<forall>m'. lookup_delivery (t, mid) db' = Some m' \<longrightarrow>
    (\<exists>m. lookup_delivery (t, mid) db = Some m \<and> (dm_state m' = dm_state m \<or> dm_state m' = ''queued'')))"
  using assms
proof (cases rule: gate_cases)
  case (same g)
  have look: "lookup_delivery k (update_ingress t p mid g db) = lookup_delivery k db" for k by (simp add: lookup_delivery_def)
  have "safe db (update_ingress t p mid g db)" by (rule views_safe) simp_all
  then show ?thesis using same by (auto simp: look)
next
  case (held g expiry)
  let ?u = "update_ingress t p mid g db"
  let ?f = "\<lambda>m. m\<lparr>dm_next_attempt_at := expiry\<rparr>"
  have look: "lookup_delivery k ?u = lookup_delivery k db" for k by (simp add: lookup_delivery_def)
  have key: "message_key (?f m) = message_key m" for m by (simp add: message_key_def)
  have "safe db ?u" by (rule views_safe) simp_all
  moreover have "safe ?u db'"
  proof (rule calm_safe)
    show "calm (t, mid) ?u db'" unfolding held by (rule calm_update_message) simp_all
    show "marker_ok (view (t, mid) db')" if "delivery_inv ?u"
      using invD(2) [OF that, of "(t, mid)"] unfolding held view_update_message [OF key]
      by (auto simp: marker_ok_def view_def split: option.splits)
  qed
  ultimately have "safe db db'" by (rule safe_trans)
  then show ?thesis by (auto simp: held key look)
next
  case (released g)
  let ?u = "update_ingress t p mid g db"
  let ?f = "\<lambda>m. if dm_state m = ''retry_wait'' \<and> dm_attempts m = 0
           then m\<lparr>dm_state := ''queued'', dm_next_attempt_at := now\<rparr> else m"
  have look: "lookup_delivery k ?u = lookup_delivery k db" for k by (simp add: lookup_delivery_def)
  have key: "message_key (?f m) = message_key m" for m by (simp add: message_key_def)
  have "safe db ?u" by (rule views_safe) simp_all
  moreover have "safe ?u db'"
  proof (rule calm_safe)
    show "calm (t, mid) ?u db'" unfolding released by (rule calm_update_message) simp_all
    show "marker_ok (view (t, mid) db')"
      using released by (intro marker_ok_unmarked) (simp add: layers_of_def marked_def)
  qed
  ultimately have "safe db db'" by (rule safe_trans)
  then show ?thesis by (auto simp: released key look)
qed

lemma wait_gate_safe:
  assumes "wait_gate self now row db = (b, db')"
  shows "safe db db' \<and> (\<forall>m'. lookup_delivery (message_key row) db' = Some m' \<longrightarrow>
    (\<exists>m. lookup_delivery (message_key row) db = Some m \<and> (dm_state m' = dm_state m \<or> dm_state m' = ''queued'')))"
  using assms gate_safe [of now "dm_tenant_id row" "packet_project (dm_packet row)" "dm_message_id row" db b db']
  unfolding wait_gate_def by (auto simp: message_key_def split: if_splits)

section \<open>Claiming\<close>

lemma open_attempt_live:
  assumes "delivery_inv db" "open_attempt row db = Some a"
  shows "live_status (da_status a) \<and> a \<in> set (attempts_of (message_key row) db) \<and> da_finished_at a = None"
proof -
  from find_SomeD [OF assms(2) [unfolded open_attempt_def]]
  have a: "a \<in> set (attempts_of (message_key row) db)" "da_finished_at a = None" by (auto simp: attempts_of_def)
  moreover have "view_ok (view (message_key row) db)" by (rule invD(1) [OF assms(1)])
  ultimately show ?thesis
    by (cases "lookup_delivery (message_key row) db") (auto simp: view_ok_def view_def attempt_ok_def)
qed

lemma no_open_unmarked:
  assumes "delivery_inv db" "open_attempt row db = None" "lookup_delivery (message_key row) db = Some m"
    "dm_state m \<notin> set TERMINAL_STATES"
  shows "\<not> marked (message_key row) db"
proof -
  have "\<not> (\<exists>a \<in> set (attempts_of (message_key row) db). da_finished_at a = None)"
    using assms(2) by (auto simp: open_attempt_def attempts_of_def find_None_iff_all)
  then show ?thesis using invD(2) [OF assms(1), of "message_key row"] assms(3,4)
    by (auto simp: marker_ok_def view_def marked_def)
qed

lemma interrupt_none: "open_attempt row db = None \<Longrightarrow> interrupt_open now row db = db"
  unfolding interrupt_open_def update_attempts_def
  by (subst update_where_none) (auto simp: open_attempt_def find_None_iff_all)

lemma insert_attempt_Inr:
  "insert_attempt a db = Inr db' \<Longrightarrow> db' = db\<lparr>delivery_attempts := delivery_attempts db @ [a]\<rparr>"
  by (auto simp: insert_attempt_def split: if_splits)

lemma unspent_budget:
  assumes "delivery_inv db" "lookup_delivery (message_key row) db = Some row" "\<not> budget_spent self row"
  shows "int (dm_attempts row) < dm_maximum_attempts row"
proof -
  have "\<not> is_historical (dm_packet row)"
    using invD(1) [OF assms(1), of "message_key row"] assms(2) by (simp add: view_ok_def view_def)
  then have "bounded_delivery self row" by (cases "dm_packet row") (simp_all add: bounded_delivery_def)
  then show ?thesis using assms(3) by (simp add: budget_spent_def)
qed

lemma attempts_grow:
  assumes inv: "delivery_inv db" and row: "lookup_delivery (message_key row) db = Some row"
    and none: "open_attempt row db = None" and unmarked: "\<not> marked (message_key row) db"
    and budget: "int (dm_attempts row) < dm_maximum_attempts row"
    and a: "attempt_message a = message_key row" "da_ordinal a = dm_attempts row + 1" "da_status a = ''prepared''" "da_finished_at a = None"
  defines "db' \<equiv> update_message (message_key row)
      (\<lambda>m. m\<lparr>dm_attempts := dm_attempts row + 1, dm_state := ''delivering'', dm_last_error := None\<rparr>)
      (db\<lparr>delivery_attempts := delivery_attempts db @ [a]\<rparr>)"
  shows "safe db db'" "\<not> marked (message_key row) db'"
proof -
  let ?k = "message_key row"
  let ?f = "\<lambda>m. m\<lparr>dm_attempts := dm_attempts row + 1, dm_state := ''delivering'', dm_last_error := None\<rparr>"
  let ?db = "db\<lparr>delivery_attempts := delivery_attempts db @ [a]\<rparr>"
  have key: "message_key (?f m) = message_key m" for m by (simp add: message_key_def)
  have base: "lookup_delivery j ?db = lookup_delivery j db" "layers_of j ?db = layers_of j db"
    "attempts_of j ?db = attempts_of j db @ (if j = ?k then [a] else [])" for j
    using a(1) by (simp_all add: lookup_delivery_def layers_of_def attempts_of_def)
  have view: "view j db' = (if j = ?k then (Some (?f row), attempts_of ?k db @ [a], layers_of ?k db) else view j db)" for j
    unfolding db'_def view_update_message [OF key] by (simp add: view_def base row)
  have closed: "\<forall>x \<in> set (attempts_of ?k db). da_finished_at x \<noteq> None"
    using none by (auto simp: open_attempt_def attempts_of_def find_None_iff_all)
  have ok: "view_ok (Some row, attempts_of ?k db, layers_of ?k db)" using invD(1) [OF inv, of ?k] row by (simp add: view_def)
  then have "view_ok (view ?k db')"
    using budget closed a by (auto simp: view view_ok_def attempt_ok_def live_status_def)
  moreover have "marker_ok (view ?k db')" using a(4) by (simp add: view marker_ok_def)
  moreover have "map message_key (delivery_messages db') = map message_key (delivery_messages db)"
    unfolding db'_def keys_update_message [OF key] by simp
  ultimately have inv': "delivery_inv db'"
    using invD [OF inv] view unfolding delivery_inv_def by metis
  have "delivery_receipts db' = delivery_receipts db" by (simp add: db'_def)
  then have ls: "layers_of j db' = layers_of j db" for j by (simp add: layers_of_def)
  show "\<not> marked ?k db'" using unmarked by (simp add: marked_def ls)
  have "lookup_delivery j db' = (if j = ?k then Some (?f row) else lookup_delivery j db)" for j
    using view [of j] by (simp add: view_def split: if_splits)
  then have "extends db db'"
    using row unmarked \<open>delivery_receipts db' = delivery_receipts db\<close> by (auto simp: extends_def)
  with inv' show "safe db db'" by (simp add: safe_def)
qed

definition grown :: "message_row \<Rightarrow> attempt_row \<Rightarrow> delivery_db \<Rightarrow> delivery_db" where
  "grown row a db = update_message (message_key row)
      (\<lambda>m. m\<lparr>dm_attempts := dm_attempts row + 1, dm_state := ''delivering'', dm_last_error := None\<rparr>)
      (db\<lparr>delivery_attempts := delivery_attempts db @ [a]\<rparr>)"

lemma new_attempt_Inr:
  assumes "new_attempt env self clk fresh row e b db = Inr (r, db')"
  obtains s aid i error x where "r = None \<and> db' = grown row (prepared_attempt env self row s aid i) db \<or>
    r = Some x \<and> failure self clk (row\<lparr>dm_attempts := dm_attempts row + 1\<rparr>) error (grown row (prepared_attempt env self row s aid i) db) = Inr (x, db')"
proof -
  obtain s aid u where su: "new_attempt env self clk fresh row e b db =
      rbind (if u = None \<and> packet_activation (en_packet e) = ''invoke''
             then rbind (invocation_for env e aid) (\<lambda>i. Inr (Some i)) else Inr None) (\<lambda>i.
      if dp_attempt_id self \<noteq> None \<and> (\<exists>x \<in> set (delivery_attempts db). da_attempt_id x = aid)
      then Inl (rejected ''attempt_id_reused'')
      else rbind (insert_attempt (prepared_attempt env self row s aid i) db) (\<lambda>db1.
      case u of
        None \<Rightarrow> Inr (None, update_message (message_key row)
            (\<lambda>m. m\<lparr>dm_attempts := dm_attempts row + 1, dm_state := ''delivering'', dm_last_error := None\<rparr>) db1)
      | Some error \<Rightarrow>
          rbind (failure self clk (row\<lparr>dm_attempts := dm_attempts row + 1\<rparr>) error (update_message (message_key row)
            (\<lambda>m. m\<lparr>dm_attempts := dm_attempts row + 1, dm_state := ''delivering'', dm_last_error := None\<rparr>) db1))
          (\<lambda>(r, db3). Inr (Some r, db3))))"
    unfolding new_attempt_def Let_def by blast
  from assms [unfolded su] obtain i db1 where ins: "insert_attempt (prepared_attempt env self row s aid i) db = Inr db1"
    and res: "(case u of
        None \<Rightarrow> Inr (None, update_message (message_key row)
            (\<lambda>m. m\<lparr>dm_attempts := dm_attempts row + 1, dm_state := ''delivering'', dm_last_error := None\<rparr>) db1)
      | Some error \<Rightarrow>
          rbind (failure self clk (row\<lparr>dm_attempts := dm_attempts row + 1\<rparr>) error (update_message (message_key row)
            (\<lambda>m. m\<lparr>dm_attempts := dm_attempts row + 1, dm_state := ''delivering'', dm_last_error := None\<rparr>) db1))
          (\<lambda>(r, db3). Inr (Some r, db3))) = (Inr (r, db') :: (dispatch_result option \<times> delivery_db) result)"
    unfolding rbind_eq_Inr by (auto simp only: rbind_eq_Inr split: if_split_asm)
  have "grown row (prepared_attempt env self row s aid i) db = update_message (message_key row)
            (\<lambda>m. m\<lparr>dm_attempts := dm_attempts row + 1, dm_state := ''delivering'', dm_last_error := None\<rparr>) db1"
    unfolding grown_def insert_attempt_Inr [OF ins] ..
  note g = this [symmetric]
  show thesis using res unfolding g by (cases u) (auto intro: that)
qed

lemma new_attempt_safe:
  assumes "new_attempt env self clk fresh row e b db = Inr (r, db')"
    and "delivery_inv db" "lookup_delivery (message_key row) db = Some row" "open_attempt row db = None"
    and "\<not> marked (message_key row) db" "\<not> budget_spent self row"
  shows "safe db db'"
  using assms(1)
proof (rule new_attempt_Inr)
  fix s aid i error x
  let ?a = "prepared_attempt env self row s aid i"
  assume res: "r = None \<and> db' = grown row ?a db \<or>
    r = Some x \<and> failure self clk (row\<lparr>dm_attempts := dm_attempts row + 1\<rparr>) error (grown row ?a db) = Inr (x, db')"
  have a: "attempt_message ?a = message_key row" "da_ordinal ?a = dm_attempts row + 1" "da_status ?a = ''prepared''"
    "da_finished_at ?a = None"
    by (simp_all add: prepared_attempt_def attempt_message_def message_key_def)
  note grow = attempts_grow [OF assms(2-5) unspent_budget [OF assms(2,3,6)] a, folded grown_def]
  have key: "message_key (row\<lparr>dm_attempts := n\<rparr>) = message_key row" for n by (simp add: message_key_def)
  from res show ?thesis
  proof
    assume "r = Some x \<and> failure self clk (row\<lparr>dm_attempts := dm_attempts row + 1\<rparr>) error (grown row ?a db) = Inr (x, db')"
    then have "safe (grown row ?a db) db'" using grow(2) by (intro failure_safe) (auto simp: key)
    with grow(1) show ?thesis by (rule safe_trans)
  qed (use grow(1) in simp)
qed

lemma claim_attempt_safe:
  assumes "claim_attempt env self clk free fresh row reuse db = Inr (r, db')"
    and "delivery_inv db" "lookup_delivery (message_key row) db = Some row" "dm_state row \<notin> set TERMINAL_STATES"
    and "\<not> reuse \<Longrightarrow> open_attempt row db = None \<and> \<not> budget_spent self row"
  shows "safe db db'"
proof -
  have new: "safe db db'" if "new_attempt env self (\<lambda>n. clk (12 + n)) fresh row e b db = Inr (r, db')" "\<not> reuse" for e b
    using new_attempt_safe [OF that(1) assms(2,3)] assms(5) [OF that(2)] no_open_unmarked [OF assms(2) _ assms(3,4)] by simp
  have defd: "map_prod Some id (defer_prepared now row why db) = (r, db') \<Longrightarrow> safe db db'" for now why
    using defer_safe [OF assms(3,4), of now why] by (cases "defer_prepared now row why db") auto
  obtain e b where auth: "authorize_row env self clk row db = Inr (e, b)"
    using assms(1) unfolding claim_attempt_def by auto
  show ?thesis
    using assms(1) auth unfolding claim_attempt_def
    by (auto intro: new defd split: if_splits sum.splits exn.splits)
qed


text \<open>A claimed message has its open Attempt.\<close>

definition claimed :: "message_key \<Rightarrow> delivery_db \<Rightarrow> bool" where
  "claimed k db \<longleftrightarrow> (\<exists>a \<in> set (attempts_of k db). da_finished_at a = None)"

lemma claimed_grown: "attempt_message a = message_key row \<Longrightarrow> da_finished_at a = None \<Longrightarrow> claimed (message_key row) (grown row a db)"
  by (auto simp: claimed_def grown_def attempts_of_def)

lemma new_attempt_claims:
  assumes "new_attempt env self clk fresh row e b db = Inr (None, db')"
  shows "claimed (message_key row) db'"
  using assms
proof (rule new_attempt_Inr)
  fix s aid i error x
  assume "None = None \<and> db' = grown row (prepared_attempt env self row s aid i) db \<or>
    None = Some x \<and> failure self clk (row\<lparr>dm_attempts := dm_attempts row + 1\<rparr>) error (grown row (prepared_attempt env self row s aid i) db) = Inr (x, db')"
  then have "db' = grown row (prepared_attempt env self row s aid i) db" by simp
  moreover have "claimed (message_key row) (grown row (prepared_attempt env self row s aid i) db)"
    by (rule claimed_grown) (simp_all add: prepared_attempt_def attempt_message_def message_key_def)
  ultimately show ?thesis by simp
qed

lemma claim_attempt_claims:
  assumes "claim_attempt env self clk free fresh row reuse db = Inr (None, db')" "reuse \<Longrightarrow> claimed (message_key row) db"
  shows "claimed (message_key row) db'"
proof -
  obtain e b where auth: "authorize_row env self clk row db = Inr (e, b)"
    using assms(1) unfolding claim_attempt_def by auto
  have some: "map_prod Some id (defer_prepared now row why db) \<noteq> (None, db')" for now why
    by (cases "defer_prepared now row why db") simp
  show ?thesis
  proof (cases reuse)
    case True
    with assms auth some have "db' = db" unfolding claim_attempt_def by (auto split: if_splits sum.splits exn.splits)
    with True assms(2) show ?thesis by simp
  next
    case False
    with assms(1) auth some have "new_attempt env self (\<lambda>n. clk (12 + n)) fresh row e b db = Inr (None, db')"
      unfolding claim_attempt_def by (auto simp del: One_nat_def split: if_splits)
    then show ?thesis by (rule new_attempt_claims)
  qed
qed

lemma open_attempt_claimed: "open_attempt row db = Some a \<Longrightarrow> claimed (message_key row) db"
  unfolding open_attempt_def claimed_def attempts_of_def using find_SomeD by fastforce

lemma finish_result_safe:
  assumes "rbind (finish clk row state code db) (\<lambda>db'. Inr (Some x, db')) = Inr (r, db')" "state \<in> set TERMINAL_STATES"
  shows "safe db db' \<and> r = Some x"
  using assms finish_safe by auto

lemma prepare_due_safe:
  assumes "prepare_due env self clk free fresh row db = Inr (r, db')" "attachments_steady (dp_service self)"
    and "delivery_inv db" "lookup_delivery (message_key row) db = Some row" "dm_state row \<notin> set TERMINAL_STATES"
  shows "safe db db' \<and> (r = None \<longrightarrow> claimed (message_key row) db')"
proof -
  let ?status = "map_option da_status (open_attempt row db)"
  let ?reuse = "?status = Some ''prepared''"
  consider (dispatched) "?status = Some ''runtime_dispatched''" | (spent) "?status \<noteq> Some ''runtime_dispatched''" "\<not> ?reuse \<and> budget_spent self row"
    | (go) "?status \<noteq> Some ''runtime_dispatched''" "\<not> (\<not> ?reuse \<and> budget_spent self row)" by blast
  then show ?thesis
  proof cases
    case dispatched
    note finish_result_safe [OF assms(1) [unfolded prepare_due_def Let_def if_P [OF dispatched]]]
    then show ?thesis by simp
  next
    case spent
    note finish_result_safe [OF assms(1) [unfolded prepare_due_def Let_def if_not_P [OF spent(1)] if_P [OF spent(2)]]]
    then show ?thesis by simp
  next
    case go
    have none: "open_attempt row db = None" if "\<not> ?reuse"
      using open_attempt_live [OF assms(3), of row] go(1) that
      by (cases "open_attempt row db") (auto simp: live_status_def)
    let ?claim = "claim_attempt env self (\<lambda>n. clk (1 + n)) free fresh row ?reuse db"
    have db1: "(if ?reuse then db else interrupt_open (clk 0) row db) = db" using none interrupt_none by simp
    have caught: "catch_claim self (\<lambda>n. clk (50 + n)) row db ?claim = Inr (r, db')"
      using assms(1) unfolding prepare_due_def Let_def if_not_P [OF go(1)] if_not_P [OF go(2)] db1 .
    show ?thesis
    proof (cases ?claim)
      case (Inr x)
      have eq: "?claim = Inr (r, db')" using caught unfolding catch_claim_def Inr by simp
      have "safe db db'" using none go(2) by (intro claim_attempt_safe [OF eq assms(3-5)]) blast
      moreover have "claimed (message_key row) db'" if "r = None"
        using eq unfolding that by (rule claim_attempt_claims) (use open_attempt_claimed in blast)
      ultimately show ?thesis by blast
    next
      case (Inl error)
      have steady: "steady_error error" if ?reuse
        using raisesD [OF claim_reuse_raises [OF assms(2)]] Inl that by metis
      obtain x where fail: "failure self (\<lambda>n. clk (50 + n)) row error db = Inr (x, db')" "r = Some x" "dispatch_caught error"
        using caught unfolding catch_claim_def Inl by (auto split: if_split_asm)
      have "fst (classify_failure self row error) \<in> set TERMINAL_STATES \<or> \<not> marked (message_key row) db"
        using steady classify_steady [OF _ fail(3)] no_open_unmarked [OF assms(3) none assms(4,5)] by blast
      then show ?thesis using failure_safe [OF fail(1)] fail(2) by simp
    qed
  qed
qed

lemma prepare_loaded_safe:
  assumes "prepare_loaded env self clk free fresh i row db = Inr (r, db')" "attachments_steady (dp_service self)"
    and inv: "delivery_inv db" and load: "load_delivery i db = Inr (row, w)"
  shows "safe db db' \<and> (r = None \<longrightarrow> claimed (message_key row) db')"
proof (cases "dm_state row \<in> set TERMINAL_STATES")
  case True
  with assms(1) show ?thesis by (auto simp: prepare_loaded_def)
next
  case False
  obtain held db1 where gate: "wait_gate self (clk 0) row db = (held, db1)" by fastforce
  note row = load_lookup [OF inv load] and g = wait_gate_safe [OF gate]
  show ?thesis
  proof (cases held)
    case True
    with assms(1) False gate g show ?thesis by (auto simp: prepare_loaded_def)
  next
    case unheld: False
    with assms(1) False gate obtain row1 w1 where load1: "load_delivery i db1 = Inr (row1, w1)"
      and rest: "(if clk 1 < dm_next_attempt_at row1
          then Inr (Some (bare_result ''retry_wait'' (Some (dm_retry_delay_seconds row1))), db1)
          else prepare_due env self (\<lambda>n. clk (2 + n)) free fresh row1 db1) = Inr (r, db')"
      unfolding prepare_loaded_def by auto
    have inv1: "delivery_inv db1" using g inv by (simp add: safe_def)
    note row1 = load_lookup [OF inv1 load1]
    have key: "message_key row1 = message_key row" using row(2) row1(2) by simp
    have live: "dm_state row1 \<notin> set TERMINAL_STATES" using g row(1) row1(1) False unfolding key by fastforce
    show ?thesis
      using rest prepare_due_safe [OF _ assms(2) inv1 row1(1) live, of env "\<lambda>n. clk (2 + n)" free fresh r db'] g safe_trans
      unfolding key by (auto split: if_splits)
  qed
qed

lemma prepare_dispatch_safe:
  assumes "prepare_dispatch env self clk free fresh i db = Inr (r, db')" "attachments_steady (dp_service self)"
    and inv: "delivery_inv db"
  shows "safe db db' \<and> (r = None \<longrightarrow> claimed (di_tenant_id i, di_message_id i) db')"
proof (cases "load_delivery i db")
  case (Inr x)
  obtain row w where x: "x = (row, w)" by (cases x)
  with Inr have load: "load_delivery i db = Inr (row, w)" by simp
  show ?thesis
    using prepare_loaded_safe [OF _ assms(2) inv load, of env clk free fresh r db'] assms(1) load load_lookup(2) [OF inv load]
    by (simp add: prepare_dispatch_def)
next
  case (Inl error)
  with assms(1) obtain code state row where "error = DeliveryRejected code state"
    and fin: "finish clk row state (Some code) db = Inr db'" and "r \<noteq> None"
    unfolding prepare_dispatch_def by (auto split: exn.splits option.splits)
  moreover from this Inl have "state = ''blocked''" using load_rejected_blocked by blast
  ultimately show ?thesis using finish_safe [OF fin] by auto
qed

end
