(* ===== verification/Delivery_Runs.thy ===== *)
theory Delivery_Runs
  imports Delivery_Claims
begin

text \<open>
  The calls the dispatcher and the delivery service offer, each composed of its transactions, are
  safe: \<open>dispatch\<close>, \<open>recover_prepared\<close>, \<open>reconcile_marked\<close>, \<open>send_message\<close> and
  \<open>bind_endpoint\<close>. What is assumed of the environment is named: the attachment lookup raises no
  transport error (\<open>attachments_steady\<close>) and an endpoint that returns an observation reports a
  settled status (\<open>settles\<close>).
\<close>

section \<open>Keeping the claim\<close>

lemma claimed_rows: "delivery_attempts db' = delivery_attempts db \<Longrightarrow> claimed k db' = claimed k db"
  by (simp add: claimed_def attempts_of_def)

lemma claimed_update:
  assumes "\<And>a. attempt_message (f a) = attempt_message a" "\<And>a. da_finished_at (f a) = da_finished_at a"
  shows "claimed k (update_attempts p f db) = claimed k db"
proof -
  have "claimed k d \<longleftrightarrow> None \<in> set (map da_finished_at (attempts_of k d))" for d by (force simp: claimed_def)
  then show ?thesis by (simp add: attempts_of_update [OF assms(1)] map_update_where assms(2) del: set_map)
qed

lemma set_marker_claimed:
  assumes "set_marker row v evidence conflict db = Inr db'"
  shows "claimed k db' = claimed k db"
proof -
  let ?p = "\<lambda>a. attempt_message a = message_key row \<and> da_ordinal a = dm_attempts row \<and> da_status a = ''prepared''"
  from assms obtain db1 where rec: "record_delivery_receipt row (iv_runtime_dispatched_receipt_id v) ''runtime_dispatched''
      evidence (Some (iv_attempt_id v)) (Some (iv_dispatch_id v)) db = Inr db1"
    and db': "db' = update_attempts ?p (\<lambda>a. a\<lparr>da_status := ''runtime_dispatched''\<rparr>)
      (update_message (message_key row) (\<lambda>m. m\<lparr>dm_activation := Some (location_of v)\<rparr>) db1)"
    unfolding set_marker_def by (auto split: if_splits)
  have "claimed k db' = claimed k (update_message (message_key row) (\<lambda>m. m\<lparr>dm_activation := Some (location_of v)\<rparr>) db1)"
    unfolding db' by (rule claimed_update) (simp_all add: attempt_message_def)
  also have "\<dots> = claimed k db1" by (rule claimed_rows) simp
  finally have "claimed k db' = claimed k db1" .
  then show ?thesis using record_delivery_receipt_calm [OF rec] claimed_rows [of db1 db k] by simp
qed

lemma run_marks_claimed: "claimed k (run_marks env self i ms db) = claimed k db"
proof (induction ms arbitrary: db)
  case (Cons m ms)
  obtain clk v ev where m: "m = (clk, v, ev)" by (cases m)
  have "claimed k db' = claimed k db" if "mark_dispatched env self clk i v ev db = Inr db'" for db'
    using that unfolding mark_dispatched_def by (auto simp: set_marker_claimed split: if_splits)
  then show ?case using Cons by (auto simp: m split: sum.splits)
qed simp

lemma save_wakes_rows [simp]:
  "delivery_messages (save_wakes i ws db) = delivery_messages db" "delivery_attempts (save_wakes i ws db) = delivery_attempts db"
  "delivery_receipts (save_wakes i ws db) = delivery_receipts db"
  unfolding save_wakes_def by (induction ws arbitrary: db) (simp_all add: save_wake_def)

lemma save_wakes_safe: "safe db (save_wakes i ws db)"
  by (rule views_safe) simp_all

text \<open>A claimed message may be rescheduled: its Attempt stays open.\<close>

lemma claimed_update_safe:
  assumes "claimed k db" "\<And>m. frozen (f m) = frozen m" "\<And>m. dm_attempts (f m) = dm_attempts m"
    "\<And>m. dm_receipt_high_water (f m) = dm_receipt_high_water m"
  shows "safe db (update_message k f db)"
proof (rule calm_safe)
  show "calm k db (update_message k f db)" using assms(2-4) by (rule calm_update_message)
  show "marker_ok (view k (update_message k f db))"
    using assms(1) by (intro marker_ok_open) (simp add: claimed_def attempts_of_def)
qed

lemma claimed_defer_safe: "claimed (message_key row) db \<Longrightarrow> safe db (snd (defer_prepared now row why db))"
  unfolding defer_prepared_def snd_conv by (rule claimed_update_safe) simp_all

lemma retry_resolved_safe: "claimed (di_tenant_id i, di_message_id i) db \<Longrightarrow> safe db (retry_resolved now i db)"
  unfolding retry_resolved_def by (rule claimed_update_safe) simp_all

section \<open>The failure handler\<close>

lemma has_receipt_marked: "has_receipt k [''runtime_dispatched''] db \<longleftrightarrow> marked k db"
  by (simp add: has_receipt_layers marked_def)

lemma fail_marked_safe:
  assumes "fail_marked env clk row inspect db = Inr (r, db')"
  shows "safe db db'"
proof -
  from assms obtain readback where "(case readback of
       Some obs \<Rightarrow>
         if acknowledged obs
         then rbind (project env (clk 0) row obs db) (\<lambda>db1.
              rbind (finish (\<lambda>n. clk (1 + n)) row ''delivered'' None db1) (\<lambda>db2.
              Inr (attempts_result row ''delivered'', db2)))
         else rbind (finish clk row ''uncertain'' (Some ''post_dispatch_result_uncertain'') db)
                (\<lambda>db1. Inr (attempts_result row ''uncertain'', db1))
     | None \<Rightarrow> rbind (finish clk row ''uncertain'' (Some ''post_dispatch_result_uncertain'') db)
                (\<lambda>db1. Inr (attempts_result row ''uncertain'', db1))) = Inr (r, db')"
    unfolding fail_marked_def by (subst (asm) rbind_eq_Inr) blast
  then show ?thesis by (cases readback) (auto intro: finish_safe project_finish_safe split: if_splits)
qed

lemma classify_pre_call: "is_pre_call_rejected e \<Longrightarrow> fst (classify_failure self row e) \<in> set TERMINAL_STATES"
  by (cases e) (auto simp: classify_failure_def)

lemma project_safe_claimed:
  assumes "project env now row obs db = Inr db'" "claimed (message_key row) db"
  shows "safe db db' \<and> claimed (message_key row) db'"
proof -
  note p = project_calm [OF assms(1)]
  then have "claimed (message_key row) db'" using assms(2) claimed_rows by blast
  moreover from this have "marker_ok (view (message_key row) db')" by (intro marker_ok_open) (simp add: claimed_def)
  ultimately show ?thesis using p calm_safe by blast
qed

lemma fail_unmarked_safe:
  assumes "fail_unmarked env self clk row inspect error db = Inr (r, db')"
    and unmarked: "\<not> marked (message_key row) db" and claimed: "claimed (message_key row) db"
  shows "safe db db'"
proof (cases "is_pre_call_rejected error \<and> inspect \<noteq> None \<and> exn_text error = attachment_unsupported \<and>
         inbox_source row db = Some ''authority_inbox''")
  case True
  with assms(1) have "failure self clk row error db = Inr (r, db')" by (simp add: fail_unmarked_def)
  then show ?thesis using unmarked failure_safe by blast
next
  case False
  define first where "first = (case inspect of
           Some f \<Rightarrow>
             if is_pre_call_rejected error
             then rbind (f ''blocked'') (\<lambda>obs. if ob_receipts obs = [] then Inr db else project env (clk 0) row obs db)
             else Inr db
         | None \<Rightarrow> Inr db)"
  from assms(1) obtain db1 where db1: "first = Inr db1"
    and rest: "(case error of
           InvocationDeferred activity \<Rightarrow> Inr (defer_prepared (clk 1) row (''target_'' @ activity) db1)
         | _ \<Rightarrow> failure self (\<lambda>n. clk (1 + n)) row error db1) = Inr (r, db')"
    unfolding fail_unmarked_def if_not_P [OF False] first_def [symmetric] rbind_eq_Inr by blast
  have one: "safe db db1 \<and> claimed (message_key row) db1 \<and> (is_pre_call_rejected error \<or> db1 = db)"
    using db1 claimed project_safe_claimed unfolding first_def
    by (auto split: option.splits if_splits)
  have "safe db1 db'"
  proof (cases "is_invocation_deferred error")
    case True
    then obtain s where "error = InvocationDeferred s" by (cases error) auto
    with rest one claimed_defer_safe [of row db1 "clk 1" "''target_'' @ s"] show ?thesis
      by (simp add: defer_prepared_def)
  next
    case False
    then have "failure self (\<lambda>n. clk (1 + n)) row error db1 = Inr (r, db')" using rest by (cases error) simp_all
    then show ?thesis using one unmarked classify_pre_call failure_safe by metis
  qed
  with one show ?thesis using safe_trans by blast
qed

lemma fail_dispatch_safe:
  assumes "fail_dispatch env self clk i inspect error db = Inr (r, db')" "claimed (di_tenant_id i, di_message_id i) db"
  shows "safe db db'"
proof (rule safeI)
  assume inv: "delivery_inv db"
  from assms(1) obtain row w where load: "load_delivery i db = Inr (row, w)" unfolding fail_dispatch_def by auto
  note row = load_lookup [OF inv load]
  consider "already_routed row" "db' = db" | "fail_marked env clk row inspect db = Inr (r, db')"
    | "fail_unmarked env self clk row inspect error db = Inr (r, db')" "\<not> marked (message_key row) db"
    using assms(1) load unfolding fail_dispatch_def by (auto simp: has_receipt_marked split: if_splits)
  then show "safe db db'" using fail_marked_safe fail_unmarked_safe assms(2) row(2) by cases auto
qed

lemma resolve_pre_call_cases:
  assumes "resolve_pre_call env self clk i v db = Inr (b, db')"
  obtains (same) "db' = db"
  | (moved) row w s h j where "load_delivery i db = Inr (row, w)" "\<not> marked (message_key row) db"
      "db' = update_attempts (\<lambda>x. attempt_message x = message_key row \<and> da_ordinal x = dm_attempts row \<and> da_status x = ''prepared'')
            (\<lambda>x. x\<lparr>da_endpoint_id := se_endpoint_id s, da_selection_revision := se_revision s, da_selection := s,
                   da_selection_digest := selection_digest env s, da_selection_history := h,
                   da_invocation := j, da_invocation_digest := map_option (invocation_digest env) j\<rparr>) db"
proof (cases "ds_resolver (dp_service self)")
  case None
  with assms same show thesis by (simp add: resolve_pre_call_def)
next
  case (Some resolver)
  from assms obtain row w where load: "load_delivery i db = Inr (row, w)"
    unfolding resolve_pre_call_def Some by auto
  from assms obtain a where a: "load_attempt row db = Inr a"
    unfolding resolve_pre_call_def Some by (auto simp: load)
  show thesis
  proof (cases "da_attempt_id a \<noteq> iv_attempt_id v \<or> da_dispatch_id a \<noteq> Some (iv_dispatch_id v) \<or> da_status a \<noteq> ''prepared''
           \<or> has_receipt (message_key row) [''runtime_dispatched''] db")
    case True
    with assms Some load a same show thesis by (simp add: resolve_pre_call_def)
  next
    case False
    then have "\<not> marked (message_key row) db" by (simp add: has_receipt_marked)
    note moved = moved [OF load this]
    note step = assms [unfolded resolve_pre_call_def Some load a rbind_Inr option.case prod.case if_not_P [OF False] Let_def]
    from step obtain rq where rq: "resolution_request_for row v = Inr rq" unfolding rbind_eq_Inr by blast
    note step = step [unfolded rq rbind_Inr]
    from step obtain rs where rs: "resolver rq = Inr rs" unfolding rbind_eq_Inr by blast
    note step = step [unfolded rs rbind_Inr]
    from step have ok: "\<not> \<not> resolution_ok rs" "\<not> (rs_endpoint_id rs = rq_failed_endpoint_id rq \<and> rs_binding_revision rs = rq_failed_binding_revision rq)"
      by (auto split: if_split_asm)
    note step = step [unfolded if_not_P [OF ok(1)] if_not_P [OF ok(2)]]
    from step obtain x where x: "lookup_endpoint (dm_tenant_id row) (rs_endpoint_id rs) db = Some x" by (auto split: option.split_asm)
    from step obtain j where "db' = update_attempts (\<lambda>x. attempt_message x = message_key row \<and> da_ordinal x = dm_attempts row \<and> da_status x = ''prepared'')
        (\<lambda>y. y\<lparr>da_endpoint_id := se_endpoint_id ((selection_of env (rs_endpoint_id rs) x)\<lparr>se_revision := rs_binding_revision rs\<rparr>),
           da_selection_revision := se_revision ((selection_of env (rs_endpoint_id rs) x)\<lparr>se_revision := rs_binding_revision rs\<rparr>),
           da_selection := (selection_of env (rs_endpoint_id rs) x)\<lparr>se_revision := rs_binding_revision rs\<rparr>,
           da_selection_digest := selection_digest env ((selection_of env (rs_endpoint_id rs) x)\<lparr>se_revision := rs_binding_revision rs\<rparr>),
           da_selection_history := da_selection_history a @
             [Resolved ((selection_of env (rs_endpoint_id rs) x)\<lparr>se_revision := rs_binding_revision rs\<rparr>) rs (da_selection a) ''native_pre_call_rejected''],
           da_invocation := j, da_invocation_digest := map_option (invocation_digest env) j\<rparr>) db"
      unfolding x option.case rbind_eq_Inr [where r = "eligible_resolution self (clk 0) rq rs (da_selection a) x"]
      by (elim exE conjE) (subst (asm) rbind_eq_Inr, auto)
    then show thesis by (rule moved)
  qed
qed

lemma resolve_pre_call_safe:
  assumes "resolve_pre_call env self clk i v db = Inr (b, db')"
  shows "safe db db'" "claimed k db' = claimed k db"
proof -
  have "safe db db' \<and> claimed k db' = claimed k db"
    using assms
  proof (cases rule: resolve_pre_call_cases)
    case (moved row w s h j)
    let ?k = "message_key row"
    have "calm ?k db db'"
      unfolding moved(3) by (rule calm_update_attempts) (auto simp: attempt_message_def attempt_ok_def)
    moreover have "marker_ok (view ?k db')"
      using moved(2) unfolding moved(3) by (intro marker_ok_unmarked) (simp add: marked_def layers_of_def)
    moreover have "claimed k db' = claimed k db"
      unfolding moved(3) by (rule claimed_update) (simp_all add: attempt_message_def)
    ultimately show ?thesis using calm_safe by blast
  qed simp
  then show "safe db db'" "claimed k db' = claimed k db" by auto
qed

lemma handle_failure_safe:
  assumes "handle_failure env self w i v selected error db = Inr (r, db')" and claim: "claimed (di_tenant_id i, di_message_id i) db"
  shows "safe db db'"
proof -
  let ?move = "is_pre_call_rejected error \<and> \<not> is_invocation_deferred error \<and> exn_text error \<noteq> attachment_unsupported \<and>
         ds_resolver (dp_service self) \<noteq> None"
  let ?fall = "fail_dispatch env self (wd_clk w 5) i (if selected then Some (wd_inspect w) else None) error"
  have fall: "safe d db'" if "?fall d = Inr (r, db')" "claimed (di_tenant_id i, di_message_id i) d" for d
    using that by (rule fail_dispatch_safe)
  show ?thesis
  proof (cases ?move)
    case False
    from assms(1) have "?fall db = Inr (r, db')" unfolding handle_failure_def Let_def if_not_P [OF False] .
    then show ?thesis using claim by (rule fall)
  next
    case True
    from assms(1) obtain call resolved db1 where res: "resolve_pre_call env self (wd_clk w 4) i call db = Inr (resolved, db1)"
      and rest: "resolved \<and> db' = retry_resolved (wd_clk w 5 0) i db1 \<or> ?fall db1 = Inr (r, db')"
      unfolding handle_failure_def Let_def if_P [OF True] by (auto split: option.splits if_split_asm)
    note one = resolve_pre_call_safe [OF res]
    have "safe db1 db'" using rest fall retry_resolved_safe one(2) claim by auto
    with one(1) show ?thesis by (rule safe_trans)
  qed
qed

definition settles :: "observation result \<Rightarrow> bool" where
  "settles r \<longleftrightarrow> (\<forall>obs. r = Inr obs \<longrightarrow> ob_status obs \<in> set TERMINAL_STATES)"

lemma call_endpoint_safe:
  assumes "call_endpoint env self w i db = Inr (r, db')" "settles (wd_outcome w)" "delivery_inv db"
    and claim: "claimed (di_tenant_id i, di_message_id i) db"
  shows "safe db db'"
proof (cases "authorize_selected env self (wd_clk w 2) i db")
  case (Inl error)
  with assms(1) have "handle_failure env self w i None False error db = Inr (r, db')" by (simp add: call_endpoint_def)
  then show ?thesis using claim by (rule handle_failure_safe)
next
  case (Inr x)
  obtain row wake a e y where x: "x = (row, wake, a, e, y)" by (cases x) auto
  let ?k = "(di_tenant_id i, di_message_id i)"
  define woken where "woken \<longleftrightarrow> da_invocation a \<noteq> None \<and> packet_schema (en_packet e) = ''acs-message/1'' \<and>
                     (wake \<notin> {None, Some PyNone} \<or> wd_wake_enabled w)"
  define db1 where "db1 = (if woken then save_wakes i (wd_wake_saves w) db else db)"
  define db2 where "db2 = run_marks env self i (if da_invocation a = None then [] else wd_marks w) db1"
  have safe1: "safe db db1" by (simp add: db1_def save_wakes_safe)
  have claim1: "claimed ?k db1" using claim claimed_rows [of "save_wakes i (wd_wake_saves w) db" db] by (simp add: db1_def)
  have safe2: "safe db1 db2" by (simp add: db2_def run_marks_safe)
  have claim2: "claimed ?k db2" using claim1 by (simp add: db2_def run_marks_claimed)
  have inv1: "delivery_inv db1" using safe1 assms(3) by (simp add: safe_def)
  define out where "out = (if woken then wd_wake w else Inr None)"
  note step = assms(1) [unfolded call_endpoint_def Inr x sum.case prod.case Let_def
      woken_def [symmetric] db1_def [symmetric] db2_def [symmetric] out_def [symmetric]]
  consider (fail1) error where "handle_failure env self w i (da_invocation a) True error db1 = Inr (r, db')"
    | (wait) row1 z why where "load_delivery i db1 = Inr (row1, z)" "db' = snd (defer_prepared (wd_clk w 3 0) row1 why db1)"
    | (fail2) error where "handle_failure env self w i (da_invocation a) True error db2 = Inr (r, db')"
    | (full) obs where "wd_outcome w = Inr obs" "complete_dispatch env (wd_clk w 4) i obs db2 = Inr (r, db')"
  proof (cases out)
    case (Inl e) with step that(1) show thesis by simp
  next
    case (Inr y)
    show thesis
    proof (cases y)
      case (Some why)
      with step Inr that(1,2) show thesis by (cases "load_delivery i db1") (auto simp: defer_prepared_def split: prod.splits)
    next
      case None
      note step = step [unfolded Inr None sum.case option.case]
      show thesis
      proof (cases "wd_outcome w")
        case (Inl e) with step that(3) show thesis by simp
      next
        case (Inr obs)
        with step that(3,4) show thesis by (cases "complete_dispatch env (wd_clk w 4) i obs db2") auto
      qed
    qed
  qed
  then have "safe db1 db'"
  proof cases
    case fail1 then show ?thesis using claim1 by (rule handle_failure_safe)
  next
    case wait
    then show ?thesis using claim1 claimed_defer_safe load_lookup(2) [OF inv1 wait(1)] by metis
  next
    case fail2
    then show ?thesis using claim2 handle_failure_safe safe2 safe_trans by blast
  next
    case full
    then show ?thesis using complete_dispatch_safe assms(2) safe2 safe_trans unfolding settles_def by blast
  qed
  with safe1 show ?thesis by (rule safe_trans)
qed

lemma bind_fixed_service: "bind_fixed_attempt_identity self i = Inr self' \<Longrightarrow> dp_service self' = dp_service self"
  by (auto simp: bind_fixed_attempt_identity_def Let_def split: option.splits if_splits)

lemma dispatch_safe:
  assumes "dispatch env self w i db = Inr (r, db')" "attachments_steady (dp_service self)" "settles (wd_outcome w)"
  shows "safe db db'"
proof (rule safeI)
  assume inv: "delivery_inv db"
  define executing where "executing \<longleftrightarrow> wake_phase i db = Some ''executing''"
  define db0 where "db0 = (if executing then save_wakes i (wd_startup_saves w) db else db)"
  have safe0: "safe db db0" by (simp add: db0_def save_wakes_safe)
  then have inv0: "delivery_inv db0" using inv by (simp add: safe_def)
  from assms(1) obtain self' where self': "bind_fixed_attempt_identity self i = Inr self'"
    unfolding dispatch_def by (auto split: if_splits)
  define prep where "prep = prepare_dispatch env self' (wd_clk w 1) (wd_slot_free w) (wd_fresh w) i db0"
  have rest: "\<exists>early db1. prep = Inr (early, db1) \<and> (case early of Some x \<Rightarrow> db1 = db' | None \<Rightarrow> call_endpoint env self' w i db1 = Inr (r, db'))"
    if "db' \<noteq> db" "readback_startup (wd_clk w 0) i db0 \<noteq> Inr (r, db')"
  proof -
    from assms(1) that have "rbind prep (\<lambda>(early, db1). case early of Some r \<Rightarrow> Inr (r, db1) | None \<Rightarrow> call_endpoint env self' w i db1) = Inr (r, db')"
      unfolding dispatch_def self' Let_def executing_def [symmetric] db0_def [symmetric] prep_def
      by (auto split: if_split_asm)
    then obtain early db1 where "prep = Inr (early, db1)"
      "(case early of Some r \<Rightarrow> Inr (r, db1) | None \<Rightarrow> call_endpoint env self' w i db1) = Inr (r, db')"
      unfolding rbind_eq_Inr by auto
    then show ?thesis by (intro exI [of _ early] exI [of _ db1]) (cases early, simp_all)
  qed
  consider (busy) "db' = db" | (readback) "readback_startup (wd_clk w 0) i db0 = Inr (r, db')"
    | (early) x where "prepare_dispatch env self' (wd_clk w 1) (wd_slot_free w) (wd_fresh w) i db0 = Inr (Some x, db')"
    | (go) db1 where "prepare_dispatch env self' (wd_clk w 1) (wd_slot_free w) (wd_fresh w) i db0 = Inr (None, db1)"
        "call_endpoint env self' w i db1 = Inr (r, db')"
    using rest unfolding prep_def by (fastforce split: option.splits)
  then have "db' = db \<or> safe db0 db'"
  proof cases
    case readback then show ?thesis using readback_startup_safe by blast
  next
    case early
    then show ?thesis using prepare_dispatch_safe [OF early] inv0 assms(2) bind_fixed_service [OF self'] by simp
  next
    case go
    have one: "safe db0 db1" "claimed (di_tenant_id i, di_message_id i) db1"
      using prepare_dispatch_safe [OF go(1) _ inv0] assms(2) bind_fixed_service [OF self'] by auto
    then have "delivery_inv db1" using inv0 by (simp add: safe_def)
    then have "safe db1 db'" using call_endpoint_safe [OF go(2) assms(3)] one(2) by blast
    with one(1) show ?thesis using safe_trans by blast
  qed simp
  then show "safe db db'" using safe0 safe_trans by auto
qed

section \<open>Recovery\<close>

lemma recover_begin_safe:
  assumes "recover_begin env self clk recoverable i db = Inr (x, db')"
  shows "safe db db'"
proof -
  from assms obtain row w where load: "load_delivery i db = Inr (row, w)" unfolding recover_begin_def by auto
  obtain held db1 where gate: "wait_gate self (clk 0) row db = (held, db1)" by fastforce
  have "db' = db \<or> db' = db1"
    using assms load gate unfolding recover_begin_def by (auto split: if_split_asm bool.split_asm)
  then show ?thesis using wait_gate_safe [OF gate] by auto
qed

lemma recover_prepared_safe:
  assumes "recover_prepared env self clk recoverable lock evidence marks outcome i db = Inr (r, db')" "settles outcome"
  shows "safe db db'"
proof (cases "db' = db")
  case False
  from assms(1) obtain self' where self': "bind_fixed_attempt_identity self i = Inr self'"
    unfolding recover_prepared_def by (auto split: if_splits)
  from assms(1) False obtain x db1 where start: "recover_begin env self' (clk 0) recoverable i db = Inr (x, db1)"
    unfolding recover_prepared_def self' by (auto split: if_splits)
  note one = recover_begin_safe [OF start]
  show ?thesis
  proof (cases x)
    case (Inl early)
    with assms(1) start False have "db' = db1" unfolding recover_prepared_def self' by (auto split: if_splits)
    with one show ?thesis by simp
  next
    case (Inr prepared)
    let ?db2 = "run_original_marks env self' recoverable i prepared marks db1"
    from assms(1) start False Inr have
      "(let db2 = ?db2 in case outcome of
          Inl error \<Rightarrow> if recovery_caught error then recover_failed (clk 1) i error db2 else Inl error
        | Inr obs \<Rightarrow> recover_complete env (clk 1) i obs db2) = Inr (r, db')"
      unfolding recover_prepared_def self' by (auto split: if_splits)
    then have "safe ?db2 db'"
      unfolding Let_def using assms(2) recover_failed_safe recover_complete_safe
      by (cases outcome) (auto simp: settles_def split: if_splits)
    then show ?thesis using one run_original_marks_safe safe_trans by blast
  qed
qed simp

lemma reconcile_commit_safe:
  assumes "reconcile_commit env self clk i va obs db = Inr (r, db')" "ob_status obs \<in> set TERMINAL_STATES"
  shows "safe db db'"
proof -
  from assms(1) obtain row db1 where pr: "project env (clk 13) row obs db = Inr db1"
    and st: "ob_status obs \<in> set MESSAGE_STATES"
    and db': "db' = update_attempts (\<lambda>x. attempt_message x = message_key row \<and> da_attempt_id x = iv_attempt_id (fst va))
         (\<lambda>x. x\<lparr>da_status := ob_status obs, da_error_code := None, da_finished_at := Some (clk 14)\<rparr>)
       (update_message (message_key row) (\<lambda>m. m\<lparr>dm_state := ob_status obs, dm_last_error := None\<rparr>) db1)"
    unfolding reconcile_commit_def by (auto split: if_splits)
  let ?k = "message_key row"
  let ?db2 = "update_message ?k (\<lambda>m. m\<lparr>dm_state := ob_status obs, dm_last_error := None\<rparr>) db1"
  have key: "message_key (m\<lparr>dm_state := ob_status obs, dm_last_error := None\<rparr>) = message_key m" for m by (simp add: message_key_def)
  have "calm ?k db1 ?db2" by (rule calm_update_message) simp_all
  moreover have "calm ?k ?db2 db'" unfolding db'
    by (rule calm_update_attempts) (auto simp: attempt_message_def attempt_ok_def message_states_not_live [OF st])
  ultimately have calm: "calm ?k db db'" using project_calm [OF pr] calm_trans by blast
  have "marker_ok (view ?k db')"
    using assms(2) by (intro marker_ok_settled) (auto simp: db' key)
  with calm show ?thesis by (intro calm_safe) auto
qed

lemma reconcile_marked_safe:
  assumes "reconcile_marked env self clk lock reconcile i db = Inr (r, db')" "\<And>v. settles (reconcile v)"
  shows "safe db db'"
proof (cases "reconcile_begin env self (clk 0) i db")
  case (Inr x)
  with assms show ?thesis unfolding reconcile_marked_def settles_def
    by (cases x) (auto intro: reconcile_commit_safe split: if_splits)
qed (use assms(1) in \<open>auto simp: reconcile_marked_def split: if_splits\<close>)

section \<open>The service\<close>

text \<open>What a successful call yields, proved by following its control structure.\<close>

definition yields :: "('a \<Rightarrow> bool) \<Rightarrow> 'a result \<Rightarrow> bool" where
  "yields P r \<longleftrightarrow> (\<forall>x. r = Inr x \<longrightarrow> P x)"

lemma yieldsD: "yields P r \<Longrightarrow> r = Inr x \<Longrightarrow> P x"
  by (simp add: yields_def)

lemma yields_Inl [simp]: "yields P (Inl e)" and yields_Inr [simp]: "yields P (Inr x) = P x"
  by (simp_all add: yields_def)

lemma yields_rbind: "(\<And>x. r = Inr x \<Longrightarrow> yields P (f x)) \<Longrightarrow> yields P (rbind r f)"
  by (auto simp: yields_def)

lemma yields_if: "(b \<Longrightarrow> yields P x) \<Longrightarrow> (\<not> b \<Longrightarrow> yields P y) \<Longrightarrow> yields P (if b then x else y)"
  by simp

lemma yields_option: "(r = None \<Longrightarrow> yields P x) \<Longrightarrow> (\<And>v. r = Some v \<Longrightarrow> yields P (f v)) \<Longrightarrow> yields P (case r of None \<Rightarrow> x | Some v \<Rightarrow> f v)"
  by (cases r) auto

lemma yields_prod: "(\<And>a b. r = (a, b) \<Longrightarrow> yields P (f a b)) \<Longrightarrow> yields P (case r of (a, b) \<Rightarrow> f a b)"
  by (cases r) auto

lemma yields_prod2: "(\<And>a b. r = (a, b) \<Longrightarrow> yields P (f a b c)) \<Longrightarrow> yields P ((case r of (a, b) \<Rightarrow> f a b) c)"
  by (cases r) auto

lemmas yields_intros = yields_rbind yields_if yields_option yields_prod yields_prod2 yields_Inl

lemma bind_endpoint_rows:
  "yields (\<lambda>(x, db'). db' = db \<or> (\<exists>e core. db' = (upsert_endpoint e db)\<lparr>dcore := core\<rparr>)) (bind_endpoint env self clk oid c r db)"
  unfolding bind_endpoint_def Let_def by (intro yields_intros) auto

lemma bind_endpoint_safe:
  assumes "bind_endpoint env self clk oid c r db = Inr (x, db')"
  shows "safe db db'"
  using yieldsD [OF bind_endpoint_rows assms] by (auto intro: views_safe simp: upsert_endpoint_def)

lemma insert_delivery_Inr:
  "insert_delivery m db = Inr db' \<Longrightarrow> db' = db\<lparr>delivery_messages := delivery_messages db @ [m]\<rparr> \<and> lookup_delivery (message_key m) db = None"
  by (auto simp: insert_delivery_def split: if_splits)

definition settled_row :: "message_row \<Rightarrow> message_row" where
  "settled_row m = (let hold = attachment_hold (dm_packet m) in
     if direct_inbox (dm_packet m) \<or> hold
     then m\<lparr>dm_state := (if hold then ''blocked'' else ''delivered''), dm_receipt_high_water := ''target_inbox_committed'',
            dm_last_error := (if hold then Some ''native_attachment_delivery_unsupported'' else None)\<rparr>
     else m)"

definition first_receipts :: "hash_env \<Rightarrow> message_row \<Rightarrow> receipt_row list" where
  "first_receipts env m = accepted_receipt env m #
     (if direct_inbox (dm_packet m) \<or> attachment_hold (dm_packet m) then [inbox_receipt m] else [])"

lemma settled_row_fields [simp]:
  "message_key (settled_row m) = message_key m" "frozen (settled_row m) = frozen m" "dm_attempts (settled_row m) = dm_attempts m"
  "dm_packet (settled_row m) = dm_packet m" "dm_maximum_attempts (settled_row m) = dm_maximum_attempts m"
  by (simp_all add: settled_row_def Let_def message_key_def)

lemma receipt_keys [simp]:
  "receipt_message (accepted_receipt env m) = message_key m" "receipt_message (inbox_receipt m) = message_key m"
  "dr_layer (accepted_receipt env m) = ''accepted_by_authority''" "dr_layer (inbox_receipt m) = ''target_inbox_committed''"
  by (simp_all add: accepted_receipt_def inbox_receipt_def receipt_message_def message_key_def Let_def)

lemma queue_message_rows:
  assumes "queue_message env now res m core1 db = Inr db'"
  shows "lookup_delivery (message_key m) db = None \<and> delivery_messages db' = delivery_messages db @ [settled_row m] \<and>
    delivery_attempts db' = delivery_attempts db \<and> delivery_receipts db' = delivery_receipts db @ first_receipts env m"
proof -
  from assms obtain core2 core3 db1 db2 where ins: "insert_delivery m (db\<lparr>dcore := core2\<rparr>) = Inr db1"
    and rec: "insert_delivery_receipt (accepted_receipt env m) (db1\<lparr>dcore := core3\<rparr>) = Inr db2"
    and inbox: "commit_inbox m db2 = Inr db'"
    unfolding queue_message_def Let_def by (auto split: if_split_asm)
  note ins = insert_delivery_Inr [OF ins] and rec = insert_receipt_Inr [OF rec]
  have none: "lookup_delivery (message_key m) db = None" using ins by (simp add: lookup_delivery_def)
  have db2: "delivery_messages db2 = delivery_messages db @ [m]" "delivery_attempts db2 = delivery_attempts db"
    "delivery_receipts db2 = delivery_receipts db @ [accepted_receipt env m]"
    using ins rec by simp_all
  show ?thesis
  proof (cases "direct_inbox (dm_packet m) \<or> attachment_hold (dm_packet m)")
    case False
    with inbox have "db' = db2" by (simp add: commit_inbox_def)
    with False none db2 show ?thesis by (simp add: settled_row_def first_receipts_def)
  next
    case True
    let ?f = "\<lambda>r. r\<lparr>dm_state := (if attachment_hold (dm_packet m) then ''blocked'' else ''delivered''),
           dm_receipt_high_water := ''target_inbox_committed'',
           dm_last_error := (if attachment_hold (dm_packet m) then Some ''native_attachment_delivery_unsupported'' else None)\<rparr>"
    have "insert_delivery_receipt (inbox_receipt m) (update_message (message_key m) ?f db2) = Inr db'"
      using inbox unfolding commit_inbox_def Let_def by (subst (asm) if_not_P) (use True in simp_all)
    note rec' = insert_receipt_Inr [OF this]
    have "update_where (\<lambda>x. message_key x = message_key m) ?f (delivery_messages db) = delivery_messages db"
      using none by (intro update_where_none) (auto simp: lookup_delivery_def find_None_iff_all)
    then have "delivery_messages db' = delivery_messages db @ [settled_row m]"
      using rec' True db2 by (simp add: update_message_def update_where_def settled_row_def Let_def)
    with True none db2 rec' show ?thesis by (simp add: first_receipts_def)
  qed
qed

lemma queue_message_safe:
  assumes "queue_message env now res m core1 db = Inr db'"
    and m: "\<not> is_historical (dm_packet m)" "dm_attempts m = 0" "0 \<le> dm_maximum_attempts m" "dm_maximum_attempts m \<le> 8"
      "dm_receipt_high_water m = ''accepted_by_authority''"
  shows "safe db db'"
  unfolding safe_def
proof
  assume inv: "delivery_inv db"
  note q = queue_message_rows [OF assms(1)]
  let ?k = "message_key m"
  have none: "lookup_delivery ?k db = None" using q by blast
  then have fresh: "attempts_of ?k db = []" "layers_of ?k db = []" using invD(1) [OF inv, of ?k] by (simp_all add: view_def)
  have look: "lookup_delivery j db' = (if j = ?k then Some (settled_row m) else lookup_delivery j db)" for j
    using none q by (auto simp: lookup_delivery_def find_append split: option.split)
  have other: "view j db' = view j db" if "j \<noteq> ?k" for j
    using q that look by (simp add: view_def attempts_of_def layers_of_def first_receipts_def)
  have own: "view ?k db' = (Some (settled_row m), [], map dr_layer (first_receipts env m))"
    using q fresh look by (simp add: view_def attempts_of_def layers_of_def first_receipts_def)
  have "view_ok (view ?k db') \<and> marker_ok (view ?k db')"
    unfolding own using m by (simp add: view_ok_def marker_ok_def first_receipts_def settled_row_def Let_def level_def receipt_index_def RECEIPT_LAYERS_def)
  moreover have "distinct (map message_key (delivery_messages db'))"
    using q none invD(3) [OF inv] by (auto simp: lookup_delivery_def find_None_iff_all)
  ultimately have "delivery_inv db'" unfolding delivery_inv_def using other invD(1,2) [OF inv] by metis
  moreover have "extends db db'" using q look none by (auto simp: extends_def)
  ultimately show "delivery_inv db' \<and> extends db db'" ..
qed

definition queues :: "command \<Rightarrow> delivery_db \<Rightarrow> delivery_db \<Rightarrow> bool" where
  "queues c db db' \<longleftrightarrow> (\<exists>env now res m core. queue_message env now res m core db = Inr db' \<and> dm_attempts m = 0 \<and>
      \<not> is_historical (dm_packet m) \<and> 1 \<le> dm_maximum_attempts m \<and> dm_maximum_attempts m \<le> 8 \<and>
      dm_receipt_high_water m = ''accepted_by_authority'' \<and> dm_state m = ''queued'' \<and> message_key m = (tenant_id c, target_id c))"

lemma queues_row:
  assumes "queue_message env now res (queued_row env t c p endpoint_id revision e hashed policy_hash) core db = Inr db'"
    and "validate_packet p0 = Inr p" "\<not> is_historical p"
  shows "queues c db db'"
proof -
  let ?m = "queued_row env t c p endpoint_id revision e hashed policy_hash"
  have "packet_ok p" using assms(2) by (auto simp: validate_packet_def split: if_splits)
  from packet_budget [OF this] assms(3) have "dm_attempts ?m = 0" "\<not> is_historical (dm_packet ?m)" "1 \<le> dm_maximum_attempts ?m"
    "dm_maximum_attempts ?m \<le> 8" "dm_receipt_high_water ?m = ''accepted_by_authority''" "dm_state ?m = ''queued''"
    "message_key ?m = (tenant_id c, target_id c)" by (simp_all add: queued_row_def message_key_def)
  with assms(1) show ?thesis unfolding queues_def by blast
qed

lemma send_message_queues:
  "yields (\<lambda>(x, db'). db' = db \<or> queues c db db') (send_message env self clk oid mx c p endpoint_id revision db)"
  unfolding send_message_def Let_def by (intro yields_intros) (auto dest: queues_row)

lemma send_message_safe:
  assumes "send_message env self clk oid mx c p endpoint_id revision db = Inr (x, db')"
  shows "safe db db'"
  using yieldsD [OF send_message_queues assms] queue_message_safe unfolding queues_def by fastforce

end
