(* ===== verification/Delivery_Steps.thy ===== *)
theory Delivery_Steps
  imports Delivery_Runs
begin

text \<open>
  Runs of the delivery ledger: any sequence of calls of the delivery service and its dispatchers,
  of any tenant, by any number of workers, with crashes in between. A dispatch or a recovery that
  is lost leaves the transactions it had committed: the preparation and some of the markers.
\<close>

inductive delivery_step :: "hash_env \<Rightarrow> delivery_db \<Rightarrow> delivery_db \<Rightarrow> bool" for env :: hash_env where
  bind: "bind_endpoint env s clk oid c r db = Inr (x, db') \<Longrightarrow> delivery_step env db db'"
| send: "send_message env s clk oid mx c p e v db = Inr (x, db') \<Longrightarrow> delivery_step env db db'"
| manage: "bind_supervisor t p slot manager db = Inr db' \<Longrightarrow> delivery_step env db db'"
| select: "select_ingress now t p mid recipient requests waiter db = Inr db' \<Longrightarrow> delivery_step env db db'"
| gate: "gate now t p mid db = (b, db') \<Longrightarrow> delivery_step env db db'"
| dispatch: "dispatch env self w i db = Inr (r, db') \<Longrightarrow> attachments_steady (dp_service self) \<Longrightarrow> settles (wd_outcome w) \<Longrightarrow>
    delivery_step env db db'"
| dispatch_lost: "prepare_dispatch env self clk free fresh i db = Inr (None, db1) \<Longrightarrow> attachments_steady (dp_service self) \<Longrightarrow>
    delivery_step env db (run_marks env self i ms db1)"
| recover: "recover_prepared env self clks rc lock ev ms outcome i db = Inr (r, db') \<Longrightarrow> settles outcome \<Longrightarrow>
    delivery_step env db db'"
| recover_lost: "recover_begin env self clk rc i db = Inr (Inr q, db1) \<Longrightarrow>
    delivery_step env db (run_original_marks env self rc i q ms db1)"
| reconcile: "reconcile_marked env self clks lock f i db = Inr (r, db') \<Longrightarrow> (\<And>v. settles (f v)) \<Longrightarrow> delivery_step env db db'"

inductive_cases delivery_stepE: "delivery_step env db db'"

lemma bind_supervisor_safe:
  assumes "bind_supervisor t p slot manager db = Inr db'"
  shows "safe db db'"
proof -
  have "yields (\<lambda>d. delivery_messages d = delivery_messages db \<and> delivery_attempts d = delivery_attempts db \<and>
      delivery_receipts d = delivery_receipts db) (bind_supervisor t p slot manager db)"
    unfolding bind_supervisor_def Let_def by (intro yields_intros) auto
  from yieldsD [OF this assms] show ?thesis by (intro views_safe) auto
qed

lemma select_ingress_safe:
  assumes "select_ingress now t p mid recipient requests waiter db = Inr db'"
  shows "safe db db'"
  using assms unfolding select_ingress_def by (intro views_safe) (auto split: if_splits)

lemma delivery_step_safe: "delivery_step env db db' \<Longrightarrow> safe db db'"
proof (induction rule: delivery_step.induct)
  case (dispatch_lost self clk free fresh i db db1 ms)
  show ?case
  proof (rule safeI)
    assume "delivery_inv db"
    with dispatch_lost have "safe db db1" using prepare_dispatch_safe by blast
    then show "safe db (run_marks env self i ms db1)" using run_marks_safe safe_trans by blast
  qed
next
  case (recover_lost self clk rc i db q db1 ms)
  then show ?case using recover_begin_safe run_original_marks_safe safe_trans by blast
next
  case (gate now t p mid db b db')
  then show ?case using gate_safe by blast
qed (blast intro: bind_endpoint_safe send_message_safe bind_supervisor_safe select_ingress_safe dispatch_safe
  recover_prepared_safe reconcile_marked_safe)+

interpretation dlv: step_invariant "delivery_step env" delivery_inv
  by unfold_locales (auto dest!: delivery_step_safe simp: safe_def)

lemma run_extends:
  assumes "(delivery_step env)\<^sup>*\<^sup>* db db'" "delivery_inv db"
  shows "extends db db'"
  using assms(1)
proof (induction rule: rtranclp_induct)
  case (step u v)
  have "delivery_inv u" using step.hyps(1) assms(2) by (rule dlv.inv_run)
  then have "extends u v" using delivery_step_safe [OF step.hyps(2)] by (simp add: safe_def)
  with step.IH show ?case using extends_trans by blast
qed simp

end
