(* ===== verification/Delivery_Samples.thy ===== *)
theory Delivery_Samples
  imports Delivery_Runs
begin

text \<open>
  Concrete ledgers, services and worlds: the message \<open>m1\<close> from \<open>lead\<close> to \<open>dev\<close>
  (\<open>message_1\<close>), as it is just queued (\<open>queued_db\<close>) and as it is after the native call may have
  started (\<open>dispatched_db\<close>). The properties of the delivery are applied at them.
\<close>

section \<open>The service\<close>

definition descriptor_1 :: descriptor where
  "descriptor_1 = \<lparr>de_machine_id = ''mc'', de_node_id = ''n'', de_boot_incarnation = ''b'', de_scope_id = ''s'',
     de_agent_slot_id = ''dev'', de_supports_invoke = True, de_evidence_class = ''native''\<rparr>"

definition service_1 :: delivery_service where
  "service_1 = \<lparr>ds_authority = auth_1, ds_endpoints = [(''e'', descriptor_1)], ds_notice = False, ds_recovery = False,
     ds_wait_ingress = False, ds_attachments = (\<lambda>c p s a ids db. Inr []), ds_resolver = None\<rparr>"

definition dispatcher_1 :: dispatcher where
  "dispatcher_1 = \<lparr>dp_service = service_1, dp_worker_id = ''w'', dp_attempt_id = None, dp_fixed_identity = None\<rparr>"

definition identity_1 :: delivery_identity where
  "identity_1 = \<lparr>di_tenant_id = ''t'', di_message_id = ''m1'', di_operation_id = ''o1''\<rparr>"

definition world_1 :: world where
  "world_1 = \<lparr>wd_lock = True, wd_slot_free = True, wd_fresh = ''a2'', wd_clk = (\<lambda>_ _. 6), wd_startup_saves = [],
     wd_startup_state = None, wd_wake_enabled = False, wd_wake_saves = [], wd_wake = Inr None, wd_marks = [],
     wd_outcome = Inl (DeliveryTransportError ''down''), wd_inspect = (\<lambda>_. Inl (DeliveryTransportError ''down''))\<rparr>"

lemma attachments_steady_1: "attachments_steady (dp_service dispatcher_1)"
  by (simp add: attachments_steady_def dispatcher_1_def service_1_def)

lemma settles_1: "settles (wd_outcome world_1)"
  by (simp add: settles_def world_1_def)

section \<open>The ledger\<close>

definition delivery_db_1 :: delivery_db where
  "delivery_db_1 = empty_delivery_db (auth_db_1\<lparr>
     grants := [grant_1\<lparr>gr_permissions := [''message.send'', ''message.read'', ''runtime.invoke'', ''delivery.manage'']\<rparr>,
                grant_1\<lparr>gr_grant_ref := ''gd'', gr_principal_ref := ''agent:d''\<rparr>],
     grant_delegations := [],
     agent_slots := [\<lparr>as_agent_slot_id = ''lead'', as_tenant_id = ''t'', as_scope_id = ''s'', as_status = ''active''\<rparr>,
                     \<lparr>as_agent_slot_id = ''dev'', as_tenant_id = ''t'', as_scope_id = ''s'', as_status = ''active''\<rparr>],
     collaboration_memberships :=
       [\<lparr>ct_tenant_id = ''t'', ct_project_id = ''p'', ct_principal_ref = ''agent:p'', ct_profile = ''lead'',
         ct_grant_ref = ''g'', ct_agent_slot_id = ''lead''\<rparr>,
        \<lparr>ct_tenant_id = ''t'', ct_project_id = ''p'', ct_principal_ref = ''agent:d'', ct_profile = ''worker'',
         ct_grant_ref = ''gd'', ct_agent_slot_id = ''dev''\<rparr>],
     collaboration_projects := [\<lparr>pj_tenant_id = ''t'', pj_project_id = ''p'', pj_scope_id = ''s'', pj_state = ''active''\<rparr>]\<rparr>)"

definition queued_core :: authority_db where
  "queued_core = (dcore delivery_db_1)\<lparr>
     operations := [\<lparr>op_operation_id = ''o1'', op_tenant_id = ''t'', op_command_id = ''c2'', op_provider = ''temporal'',
       op_provider_workflow_id = ''acs-delivery/o1'', op_status = ''committed''\<rparr>],
     command_dedup := [\<lparr>dd_tenant_id = ''t'', dd_idempotency_key = ''k2'', dd_command_id = Some ''c2'', dd_payload_hash = sha_a,
       dd_hash_version = ''v2'', dd_canonical_hash = Some sha_a, dd_migration_state = ''current'', dd_legacy_command_id = None,
       dd_legacy_record = None, dd_replay_policy = ''exact'',
       dd_result_json = PyDict [(PyStr ''operation_id'', PyStr ''o1''), (PyStr ''command_id'', PyStr ''c2''),
         (PyStr ''target_id'', PyStr ''m1'')]\<rparr>],
     domain_events := [\<lparr>ev_tenant_id = ''t'', ev_work_item_id = None, ev_from_state = None, ev_to_state = ''message.queued'',
       ev_initiated_by = ''agent:p'', ev_lineage_mode = ''external_command'', ev_command_id = ''c2'',
       ev_resulting_revision = 0, ev_canonical_hash = Some sha_a, ev_target_kind = ''message'', ev_target_id = ''m1'',
       ev_related_work_item_id = None\<rparr>],
     outbox := [\<lparr>ob_tenant_id = ''t'', ob_message_id = ''m1'', ob_operation_id = ''o1'', ob_topic = ''message.delivery'',
       ob_payload = PyDict [(PyStr ''tenant_id'', PyStr ''t''), (PyStr ''message_id'', PyStr ''m1''),
         (PyStr ''operation_id'', PyStr ''o1'')], ob_delivered_at = None\<rparr>]\<rparr>"

definition accepted_1 :: receipt_row where
  "accepted_1 = \<lparr>dr_tenant_id = ''t'', dr_message_id = ''m1'', dr_receipt_id = ''delivery:m1:accepted_by_authority'',
     dr_layer = ''accepted_by_authority'', dr_attempt_id = None, dr_dispatch_id = None,
     dr_evidence = PyDict [(PyStr ''receipt_id'', PyStr ''delivery:m1:accepted_by_authority''),
       (PyStr ''operation_id'', PyStr ''o1''), (PyStr ''command_id'', PyStr ''c2''), (PyStr ''canonical_hash'', PyStr sha_a),
       (PyStr ''envelope_hash'', PyStr sha_a), (PyStr ''accepted_revision'', PyNone),
       (PyStr ''accepted_state_digest'', PyStr sha_a)]\<rparr>"

definition endpoint_1 :: endpoint_row where
  "endpoint_1 = \<lparr>ep_tenant_id = ''t'', ep_endpoint_id = ''e'', ep_revision = 1, ep_scope_id = ''s'', ep_agent_slot_id = ''dev'',
     ep_machine_id = ''mc'', ep_node_id = ''n'', ep_boot_incarnation = ''b'', ep_supports_invoke = True,
     ep_evidence_class = ''native'', ep_expires_at = Some 40, ep_status = ''active'', ep_command_id = ''c1'',
     ep_operation_id = ''o0''\<rparr>"

definition queued_db :: delivery_db where
  "queued_db = (empty_delivery_db queued_core)\<lparr>delivery_endpoints := [endpoint_1], delivery_messages := [message_1],
     delivery_receipts := [accepted_1], communication_messages := [(''t'', ''p'', ''m1'')]\<rparr>"

definition selection_1 :: selection where
  "selection_1 = \<lparr>se_endpoint_id = ''e'', se_revision = 1, se_scope_id = ''s'', se_agent_slot_id = ''dev'',
     se_machine_id = ''mc'', se_node_id = ''n'', se_boot_incarnation = ''b'', se_supports_invoke = True,
     se_evidence_class = ''native'', se_expires_at = ''t''\<rparr>"

definition invocation_1 :: invocation where
  "invocation_1 = \<lparr>iv_invocation_id = ''delivery-invocation:a1'', iv_attempt_id = ''a1'', iv_dispatch_id = ''delivery-dispatch:a1'',
     iv_runtime_dispatched_receipt_id = ''delivery:m1:runtime_dispatched'', iv_message_id = ''m1'', iv_command_id = ''c2'',
     iv_operation_id = ''o1'', iv_envelope_digest = sha_a, iv_logical_payload_digest = sha_a, iv_selection_digest = sha_a,
     iv_accepted_revision = None, iv_accepted_state_digest = sha_a, iv_envelope = envelope_1\<rparr>"

definition attempt_1 :: attempt_row where
  "attempt_1 = \<lparr>da_tenant_id = ''t'', da_message_id = ''m1'', da_ordinal = 1, da_attempt_id = ''a1'', da_operation_id = ''o1'',
     da_endpoint_id = ''e'', da_selection_revision = 1, da_connection_ref = ''w'', da_finished_at = None,
     da_status = ''runtime_dispatched'', da_error_code = None, da_selection = selection_1, da_selection_digest = sha_a,
     da_selection_history = [Prepared selection_1], da_invocation = Some invocation_1, da_invocation_digest = Some sha_a,
     da_dispatch_id = Some ''delivery-dispatch:a1'',
     da_runtime_dispatched_receipt_id = Some ''delivery:m1:runtime_dispatched''\<rparr>"

definition marker_1 :: receipt_row where
  "marker_1 = \<lparr>dr_tenant_id = ''t'', dr_message_id = ''m1'', dr_receipt_id = ''delivery:m1:runtime_dispatched'',
     dr_layer = ''runtime_dispatched'', dr_attempt_id = Some ''a1'', dr_dispatch_id = Some ''delivery-dispatch:a1'',
     dr_evidence = PyDict []\<rparr>"

definition dispatched_db :: delivery_db where
  "dispatched_db = queued_db\<lparr>
     delivery_messages := [message_1\<lparr>dm_state := ''delivering'', dm_attempts := 1,
       dm_receipt_high_water := ''runtime_dispatched'', dm_activation := Some (location_of invocation_1)\<rparr>],
     delivery_attempts := [attempt_1], delivery_receipts := [accepted_1, marker_1]\<rparr>"

lemma key_1 [simp]: "message_key message_1 = (''t'', ''m1'')" "attempt_message attempt_1 = (''t'', ''m1'')"
  "receipt_message accepted_1 = (''t'', ''m1'')" "receipt_message marker_1 = (''t'', ''m1'')"
  by (simp_all add: message_key_def attempt_message_def receipt_message_def message_1_def attempt_1_def accepted_1_def marker_1_def)

lemma view_queued: "view k queued_db =
    (if k = (''t'', ''m1'') then (Some message_1, [], [''accepted_by_authority'']) else (None, [], []))"
  by (simp add: view_def queued_db_def empty_delivery_db_def lookup_delivery_def attempts_of_def layers_of_def accepted_1_def
      receipt_message_def)

lemma inv_queued: "delivery_inv queued_db"
  unfolding delivery_inv_def view_queued
  by (simp add: queued_db_def view_ok_def marker_ok_def message_1_def level_def receipt_index_def RECEIPT_LAYERS_def)

lemma view_dispatched: "view k dispatched_db =
    (if k = (''t'', ''m1'') then (Some (message_1\<lparr>dm_state := ''delivering'', dm_attempts := 1,
       dm_receipt_high_water := ''runtime_dispatched'', dm_activation := Some (location_of invocation_1)\<rparr>), [attempt_1],
       [''accepted_by_authority'', ''runtime_dispatched'']) else (None, [], []))"
  by (simp add: view_def dispatched_db_def lookup_delivery_def attempts_of_def layers_of_def accepted_1_def marker_1_def
      receipt_message_def message_key_def message_1_def)

lemma inv_dispatched: "delivery_inv dispatched_db"
  unfolding delivery_inv_def view_dispatched
  by (simp add: dispatched_db_def view_ok_def marker_ok_def message_1_def attempt_ok_def live_status_def attempt_1_def
      level_def receipt_index_def RECEIPT_LAYERS_def)

text \<open>A core that finds the call interrupted after its marker settles the message as uncertain.\<close>

lemma dispatch_dispatched:
  "case dispatch env_0 dispatcher_1 world_1 identity_1 dispatched_db of
     Inl _ \<Rightarrow> False
   | Inr (r, db) \<Rightarrow> dx_status r = ''uncertain'' \<and> map dm_state (delivery_messages db) = [''uncertain''] \<and>
       map dm_attempts (delivery_messages db) = [1] \<and> map da_status (delivery_attempts db) = [''uncertain'']"
  by code_simp

end
