(* ===== verification/Delivery_Properties.thy ===== *)
theory Delivery_Properties
  imports Delivery_Steps Delivery_Samples
begin

text \<open>
  What holds of the delivery ledger along every run of \<open>delivery_step\<close>, whatever the endpoints,
  resolvers and attachment stores answer, and its refinement of the lifecycle of one message.
\<close>

section \<open>The ledger\<close>

lemma reachable_view:
  assumes "(delivery_step env)\<^sup>*\<^sup>* db db'" "delivery_inv db"
  shows "delivery_inv db'" "view_ok (view k db')"
  using dlv.inv_run [OF assms] invD(1) by blast+

lemma one_open:
  assumes "view_ok (Some m, as, ls)"
  shows "length (filter (\<lambda>a. da_finished_at a = None) as) \<le> 1"
proof -
  have ord: "\<forall>a \<in> set as. da_finished_at a = None \<longrightarrow> da_ordinal a = dm_attempts m"
    and dist: "distinct (map da_ordinal as)"
    using assms by (auto simp: view_ok_def attempt_ok_def)
  have "length (filter (\<lambda>a. da_finished_at a = None) as) \<le> length (filter (\<lambda>a. da_ordinal a = dm_attempts m) as)"
    using ord by (induction as) auto
  also have "\<dots> \<le> 1" using dist by (rule filter_key_at_most_one)
  finally show ?thesis .
qed

lemma attempts_length:
  assumes "view_ok (view k db)" "lookup_delivery k db = Some m"
  shows "length (attempts_of k db) = dm_attempts m"
proof -
  from assms have "map da_ordinal (attempts_of k db) = [1 ..< Suc (dm_attempts m)]" by (simp add: view_ok_def view_def)
  from arg_cong [OF this, of length] show ?thesis by simp
qed

lemma run_lookup:
  assumes "extends db db'" "lookup_delivery k db = Some m"
  obtains m' where "lookup_delivery k db' = Some m'" "frozen m' = frozen m" "dm_attempts m \<le> dm_attempts m'"
    "level (dm_receipt_high_water m) \<le> level (dm_receipt_high_water m')" "marked k db \<longrightarrow> dm_attempts m' = dm_attempts m"
  using assms unfolding extends_def by blast

text \<open>The run of the witnesses: one dispatch of the message whose call was interrupted.\<close>

lemma run_1:
  obtains db' m where "(delivery_step env_0)\<^sup>*\<^sup>* dispatched_db db'" "map dm_state (delivery_messages db') = [''uncertain'']"
    "lookup_delivery (''t'', ''m1'') db' = Some m"
proof -
  obtain r db' where run: "dispatch env_0 dispatcher_1 world_1 identity_1 dispatched_db = Inr (r, db')"
    and state: "map dm_state (delivery_messages db') = [''uncertain'']"
    using dispatch_dispatched by (auto split: sum.splits)
  have "delivery_step env_0 dispatched_db db'" using run attachments_steady_1 settles_1 by (rule delivery_step.dispatch)
  then have star: "(delivery_step env_0)\<^sup>*\<^sup>* dispatched_db db'" by blast
  obtain m where "lookup_delivery (''t'', ''m1'') dispatched_db = Some m"
    using view_dispatched [of "(''t'', ''m1'')"] by (simp add: view_def)
  with run_extends [OF star inv_dispatched] obtain m' where "lookup_delivery (''t'', ''m1'') db' = Some m'" by (rule run_lookup)
  with star state show thesis by (rule that)
qed

text \<open>
  C29. The ledger stays consistent along every run of binds, sends, dispatches, recoveries,
  reconciliations and crashes: the Attempts of a message are numbered 1 to \<open>attempts\<close> without a gap,
  at most one of them is open, each receipt layer was recorded at most once, and
  \<open>receipt_high_water\<close> names the highest recorded layer.
\<close>

theorem ledger_consistent:
  assumes "(delivery_step env)\<^sup>*\<^sup>* db db'" "delivery_inv db" "lookup_delivery k db' = Some m"
  shows "map da_ordinal (attempts_of k db') = [1 ..< Suc (dm_attempts m)] \<and>
    length (filter (\<lambda>a. da_finished_at a = None) (attempts_of k db')) \<le> 1 \<and>
    distinct (layers_of k db') \<and> dm_receipt_high_water m \<in> set (layers_of k db') \<and>
    (\<forall>l \<in> set (layers_of k db'). level l \<le> level (dm_receipt_high_water m))"
proof -
  have ok: "view_ok (Some m, attempts_of k db', layers_of k db')"
    using reachable_view(2) [OF assms(1,2), of k] assms(3) by (simp add: view_def)
  then show ?thesis using one_open [OF ok] by (simp add: view_ok_def)
qed

theorem ledger_consistent_witness:
  "\<exists>db' m. (delivery_step env_0)\<^sup>*\<^sup>* dispatched_db db' \<and> lookup_delivery (''t'', ''m1'') db' = Some m \<and>
     map da_ordinal (attempts_of (''t'', ''m1'') db') = [1 ..< Suc (dm_attempts m)]"
proof -
  obtain db' m where run: "(delivery_step env_0)\<^sup>*\<^sup>* dispatched_db db'" and m: "lookup_delivery (''t'', ''m1'') db' = Some m"
    by (rule run_1)
  from ledger_consistent [OF run inv_dispatched m] run m show ?thesis by blast
qed

text \<open>
  C30. The retry budget is a bound: in every reachable ledger a message has exactly \<open>attempts\<close>
  Attempt rows, never more than its \<open>maximum_attempts\<close>, and that is at most eight.
\<close>

theorem attempts_bounded:
  assumes "(delivery_step env)\<^sup>*\<^sup>* db db'" "delivery_inv db" "lookup_delivery k db' = Some m"
  shows "length (attempts_of k db') = dm_attempts m \<and> int (dm_attempts m) \<le> dm_maximum_attempts m \<and> dm_maximum_attempts m \<le> 8"
proof -
  have ok: "view_ok (Some m, attempts_of k db', layers_of k db')"
    using reachable_view(2) [OF assms(1,2), of k] assms(3) by (simp add: view_def)
  then show ?thesis using attempts_length [OF reachable_view(2) [OF assms(1,2)] assms(3)] by (simp add: view_ok_def)
qed

theorem attempts_bounded_witness:
  "\<exists>db' m. (delivery_step env_0)\<^sup>*\<^sup>* dispatched_db db' \<and> lookup_delivery (''t'', ''m1'') db' = Some m \<and>
     length (attempts_of (''t'', ''m1'') db') \<le> 8"
proof -
  obtain db' m where run: "(delivery_step env_0)\<^sup>*\<^sup>* dispatched_db db'" and m: "lookup_delivery (''t'', ''m1'') db' = Some m"
    by (rule run_1)
  from attempts_bounded [OF run inv_dispatched m] have "length (attempts_of (''t'', ''m1'') db') \<le> 8" by linarith
  with run m show ?thesis by blast
qed

text \<open>
  C31. No second native call: from the moment the \<open>runtime_dispatched\<close> marker of a message is
  durable, no later call of any worker adds an Attempt to it, whatever crashes, restarts and
  failures follow; the message and the marker stay.
\<close>

theorem dispatched_never_retried:
  assumes "(delivery_step env)\<^sup>*\<^sup>* db db'" "delivery_inv db" "lookup_delivery k db = Some m"
    "''runtime_dispatched'' \<in> set (layers_of k db)"
  shows "\<exists>m'. lookup_delivery k db' = Some m' \<and> dm_attempts m' = dm_attempts m \<and>
    length (attempts_of k db') = length (attempts_of k db) \<and> ''runtime_dispatched'' \<in> set (layers_of k db')"
proof -
  have ext: "extends db db'" using assms(1,2) by (rule run_extends)
  have mark: "marked k db" using assms(4) by (simp add: marked_def)
  obtain m' where m': "lookup_delivery k db' = Some m'" "dm_attempts m' = dm_attempts m"
    using run_lookup [OF ext assms(3)] mark by metis
  then show ?thesis
    using attempts_length [OF reachable_view(2) [OF assms(1,2)] m'(1)] attempts_length [OF invD(1) [OF assms(2)] assms(3)]
      marked_extends [OF ext mark] by (simp add: marked_def)
qed

theorem dispatched_never_retried_witness:
  "\<exists>db' m'. (delivery_step env_0)\<^sup>*\<^sup>* dispatched_db db' \<and> map dm_state (delivery_messages db') = [''uncertain''] \<and>
     lookup_delivery (''t'', ''m1'') db' = Some m' \<and> dm_attempts m' = 1"
proof -
  obtain db' x where run: "(delivery_step env_0)\<^sup>*\<^sup>* dispatched_db db'" "map dm_state (delivery_messages db') = [''uncertain'']"
    by (rule run_1)
  obtain m where m: "lookup_delivery (''t'', ''m1'') dispatched_db = Some m" "dm_attempts m = 1"
    "''runtime_dispatched'' \<in> set (layers_of (''t'', ''m1'') dispatched_db)"
    using view_dispatched [of "(''t'', ''m1'')"] by (auto simp: view_def)
  from dispatched_never_retried [OF run(1) inv_dispatched m(1,3)] m(2) run show ?thesis by auto
qed

text \<open>
  C32. Receipts are only ever appended, a message never disappears, its immutable columns (packet,
  command, envelope and hashes) never change, and its high-water mark never goes down.
\<close>

theorem receipts_append_only:
  assumes "(delivery_step env)\<^sup>*\<^sup>* db db'" "delivery_inv db"
  shows "(\<exists>rs. delivery_receipts db' = delivery_receipts db @ rs) \<and>
    (\<forall>k m. lookup_delivery k db = Some m \<longrightarrow> (\<exists>m'. lookup_delivery k db' = Some m' \<and> frozen m' = frozen m \<and>
       level (dm_receipt_high_water m) \<le> level (dm_receipt_high_water m')))"
  using run_extends [OF assms] unfolding extends_def by blast

theorem receipts_append_only_witness:
  "\<exists>db' rs. (delivery_step env_0)\<^sup>*\<^sup>* dispatched_db db' \<and> delivery_receipts db' = [accepted_1, marker_1] @ rs"
proof -
  obtain db' m where run: "(delivery_step env_0)\<^sup>*\<^sup>* dispatched_db db'" by (rule run_1)
  from receipts_append_only [OF run inv_dispatched] run show ?thesis by (auto simp: dispatched_db_def)
qed

section \<open>The lifecycle of one message\<close>

text \<open>
  The abstract machine: a message is accepted, claimed again while its budget lasts, and marked as
  possibly dispatched once. Nothing follows the marker.
\<close>

datatype lifecycle = Absent | Pending nat | Dispatched nat

inductive lifecycle_step :: "nat \<Rightarrow> lifecycle \<Rightarrow> lifecycle \<Rightarrow> bool" for budget :: nat where
  accept: "lifecycle_step budget Absent (Pending 0)"
| claim: "n < budget \<Longrightarrow> lifecycle_step budget (Pending n) (Pending (Suc n))"
| mark: "lifecycle_step budget (Pending n) (Dispatched n)"

inductive_cases lifecycle_dispatchedE: "lifecycle_step budget (Dispatched n) s"

definition lifecycle_of :: "message_key \<Rightarrow> delivery_db \<Rightarrow> lifecycle" where
  "lifecycle_of k db = (case lookup_delivery k db of
     None \<Rightarrow> Absent
   | Some m \<Rightarrow> if marked k db then Dispatched (dm_attempts m) else Pending (dm_attempts m))"

lemma claims: "n \<le> a \<Longrightarrow> a \<le> budget \<Longrightarrow> (lifecycle_step budget)\<^sup>*\<^sup>* (Pending n) (Pending a)"
proof (induction a)
  case (Suc a)
  show ?case
  proof (cases "n = Suc a")
    case False
    then have "(lifecycle_step budget)\<^sup>*\<^sup>* (Pending n) (Pending a)" using Suc by simp
    moreover have "lifecycle_step budget (Pending a) (Pending (Suc a))" using Suc.prems by (intro lifecycle_step.claim) simp
    ultimately show ?thesis by (rule rtranclp.rtrancl_into_rtrancl)
  qed simp
qed simp

lemma claims_mark: "n \<le> a \<Longrightarrow> a \<le> budget \<Longrightarrow> (lifecycle_step budget)\<^sup>*\<^sup>* (Pending n) (if b then Dispatched a else Pending a)"
  using claims by (auto intro: rtranclp.rtrancl_into_rtrancl lifecycle_step.mark)

lemma lifecycle_stuck: "(lifecycle_step budget)\<^sup>*\<^sup>* (Dispatched n) s \<Longrightarrow> s = Dispatched n"
  by (induction rule: rtranclp_induct) (auto elim: lifecycle_dispatchedE)

text \<open>
  C35. The ledger refines the lifecycle: read through \<open>lifecycle_of\<close>, every step of the system is a
  sequence of lifecycle steps of each message within the budget its packet fixed.
\<close>

theorem delivery_refines_lifecycle:
  assumes "delivery_step env db db'" "delivery_inv db"
  shows "case lookup_delivery k db' of
      None \<Rightarrow> lifecycle_of k db = Absent
    | Some m \<Rightarrow> (lifecycle_step (nat (dm_maximum_attempts m)))\<^sup>*\<^sup>* (lifecycle_of k db) (lifecycle_of k db')"
proof -
  have ext: "extends db db'" and inv: "delivery_inv db'" using delivery_step_safe [OF assms(1)] assms(2) by (auto simp: safe_def)
  show ?thesis
  proof (cases "lookup_delivery k db'")
    case None
    have "lookup_delivery k db = None"
    proof (rule ccontr)
      assume "lookup_delivery k db \<noteq> None"
      then obtain m where "lookup_delivery k db = Some m" by blast
      with ext show False by (rule run_lookup) (simp add: None)
    qed
    with None show ?thesis by (simp add: lifecycle_of_def)
  next
    case (Some m')
    have bound: "dm_attempts m' \<le> nat (dm_maximum_attempts m')"
      using invD(1) [OF inv, of k] Some by (auto simp: view_ok_def view_def)
    have "(lifecycle_step (nat (dm_maximum_attempts m')))\<^sup>*\<^sup>* (lifecycle_of k db) (lifecycle_of k db')"
    proof (cases "lookup_delivery k db")
      case None
      have "(lifecycle_step (nat (dm_maximum_attempts m')))\<^sup>*\<^sup>* (Pending 0) (lifecycle_of k db')"
        using claims_mark [OF _ bound, of 0 "marked k db'"] Some by (simp add: lifecycle_of_def)
      moreover have "lifecycle_step (nat (dm_maximum_attempts m')) (lifecycle_of k db) (Pending 0)"
        using None by (simp add: lifecycle_of_def lifecycle_step.accept)
      ultimately show ?thesis by (simp add: converse_rtranclp_into_rtranclp)
    next
      case m: (Some m)
      from ext m obtain x where x: "lookup_delivery k db' = Some x" "dm_attempts m \<le> dm_attempts x"
        "marked k db \<longrightarrow> dm_attempts x = dm_attempts m" by (rule run_lookup)
      then show ?thesis
        using claims_mark [OF _ bound, of "dm_attempts m" "marked k db'"] Some m marked_extends [OF ext, of k]
        by (auto simp: lifecycle_of_def)
    qed
    with Some show ?thesis by simp
  qed
qed

theorem delivery_refines_lifecycle_witness:
  "\<exists>db' m. delivery_step env_0 dispatched_db db' \<and> lookup_delivery (''t'', ''m1'') db' = Some m \<and>
     lifecycle_of (''t'', ''m1'') dispatched_db = Dispatched 1 \<and> lifecycle_of (''t'', ''m1'') db' = Dispatched 1"
proof -
  obtain r db' where run: "dispatch env_0 dispatcher_1 world_1 identity_1 dispatched_db = Inr (r, db')"
    using dispatch_dispatched by (auto split: sum.splits)
  have step: "delivery_step env_0 dispatched_db db'" using run attachments_steady_1 settles_1 by (rule delivery_step.dispatch)
  have life: "lifecycle_of (''t'', ''m1'') dispatched_db = Dispatched 1"
    using view_dispatched [of "(''t'', ''m1'')"] by (simp add: lifecycle_of_def view_def marked_def)
  note ref = delivery_refines_lifecycle [OF step inv_dispatched, of "(''t'', ''m1'')"]
  then obtain m where m: "lookup_delivery (''t'', ''m1'') db' = Some m" using life by (auto split: option.splits)
  with ref life have "lifecycle_of (''t'', ''m1'') db' = Dispatched 1" using lifecycle_stuck by simp
  with step life m show ?thesis by blast
qed

section \<open>A spent budget\<close>

lemma record_obstacle_total:
  assumes "dm_packet row = Message p" "lookup_delivery (message_key row) db \<noteq> None"
    "(dm_tenant_id row, mp_project_id p, dm_message_id row) \<in> set (communication_messages db)"
    "\<And>m. lookup_delivery (message_key row) db = Some m \<Longrightarrow> dm_packet m = Message p"
  shows "\<exists>db'. record_obstacle row state code db = Inr db'"
proof -
  obtain m where m: "lookup_delivery (dm_tenant_id row, dm_message_id row) db = Some m" "dm_packet m = Message p"
    using assms(2,4) by (auto simp: message_key_def)
  have "\<exists>who native original. forward (dm_tenant_id row) (mp_project_id p) (dm_message_id row) (mp_target_agent_slot_id p) db
      = Inr (Some who, native, original)"
    using m by (auto simp: forward_def Let_def split: option.splits list.splits)
  then show ?thesis using assms(1,3) by (auto simp: record_obstacle_def insert_notice_def)
qed

lemma finish_total:
  assumes "dm_packet row = Message p" "lookup_delivery (message_key row) db = Some row"
    "(dm_tenant_id row, mp_project_id p, dm_message_id row) \<in> set (communication_messages db)" "state \<in> set TERMINAL_STATES"
  shows "\<exists>db'. finish clk row state code db = Inr db'"
proof -
  let ?f = "\<lambda>m. m\<lparr>dm_state := state, dm_last_error := code, dm_next_attempt_at := clk 0 + seconds (dm_retry_delay_seconds m)\<rparr>"
  let ?db = "update_attempts (is_open row) (\<lambda>a. a\<lparr>da_status := state, da_error_code := code, da_finished_at := Some (clk 1)\<rparr>)
    (update_message (message_key row) ?f db)"
  have key: "message_key (?f m) = message_key m" for m by (simp add: message_key_def)
  have "lookup_delivery (message_key row) ?db = Some (?f row)" using assms(2) by (simp add: key)
  then have "\<exists>db'. record_obstacle row state code ?db = Inr db'"
    using assms(1,3) by (intro record_obstacle_total [where p = p]) (auto simp: update_attempts_def update_message_def)
  moreover have "state \<in> set MESSAGE_STATES" "state \<in> set ATTEMPT_STATUSES"
    using assms(4) by (auto simp: TERMINAL_STATES_def MESSAGE_STATES_def ATTEMPT_STATUSES_def)
  ultimately show ?thesis by (simp add: finish_def)
qed

text \<open>
  C36. A spent budget settles: when a registered message is due, is not held by a waiting reader, has
  no open Attempt and has used all its Attempts, the next preparation does not fail and does not
  try again; it commits the state \<open>budget_exhausted\<close>.
\<close>

theorem spent_budget_settles:
  assumes load: "load_delivery i db = Inr (row, w)" and inv: "delivery_inv db"
    and p: "dm_packet row = Message p" "(dm_tenant_id row, mp_project_id p, dm_message_id row) \<in> set (communication_messages db)"
    and due: "dm_state row \<notin> set TERMINAL_STATES" "wait_gate self (clk 0) row db = (False, db)" "dm_next_attempt_at row \<le> clk 1"
    and spent: "open_attempt row db = None" "dm_maximum_attempts row \<le> int (dm_attempts row)"
  shows "\<exists>db' m. prepare_dispatch env self clk free fresh i db = Inr (Some (bare_result ''budget_exhausted'' None), db') \<and>
    lookup_delivery (message_key row) db' = Some m \<and> dm_state m = ''budget_exhausted''"
proof -
  note row = load_lookup [OF inv load]
  obtain db' where fin: "finish (\<lambda>n. clk (2 + n)) row ''budget_exhausted'' (Some ''attempt_budget_exhausted'') db = Inr db'"
    using finish_total [OF p(1) row(1) p(2)] terminal_names by blast
  have "budget_spent self row" using spent(2) p(1) by (simp add: budget_spent_def bounded_delivery_def)
  then have "prepare_due env self (\<lambda>n. clk (2 + n)) free fresh row db = Inr (Some (bare_result ''budget_exhausted'' None), db')"
    using spent(1) fin by (simp add: prepare_due_def)
  then have "prepare_dispatch env self clk free fresh i db = Inr (Some (bare_result ''budget_exhausted'' None), db')"
    using load due by (simp add: prepare_dispatch_def prepare_loaded_def)
  moreover obtain m where "lookup_delivery (message_key row) db' = Some m"
  proof -
    have "safe db db'" using fin by (rule finish_safe) simp
    then have "extends db db'" using inv by (simp add: safe_def)
    then show thesis using row(1) that by (auto elim!: run_lookup)
  qed
  ultimately show ?thesis using finish_calm [OF fin] by blast
qed

definition spent_db :: delivery_db where
  "spent_db = queued_db\<lparr>delivery_messages := [message_1\<lparr>dm_state := ''retry_wait'', dm_attempts := 1, dm_maximum_attempts := 1\<rparr>],
     delivery_attempts := [attempt_1\<lparr>da_status := ''retry_wait'', da_finished_at := Some 5\<rparr>]\<rparr>"

lemma inv_spent: "delivery_inv spent_db"
proof -
  have "view k spent_db = (if k = (''t'', ''m1'')
      then (Some (message_1\<lparr>dm_state := ''retry_wait'', dm_attempts := 1, dm_maximum_attempts := 1\<rparr>),
            [attempt_1\<lparr>da_status := ''retry_wait'', da_finished_at := Some 5\<rparr>], [''accepted_by_authority''])
      else (None, [], []))" for k
    by (simp add: view_def spent_db_def queued_db_def empty_delivery_db_def lookup_delivery_def attempts_of_def layers_of_def
        accepted_1_def receipt_message_def message_key_def message_1_def attempt_message_def attempt_1_def)
  then show ?thesis unfolding delivery_inv_def
    by (simp add: spent_db_def view_ok_def marker_ok_def message_1_def attempt_ok_def live_status_def attempt_1_def
      level_def receipt_index_def RECEIPT_LAYERS_def)
qed

theorem spent_budget_settles_witness:
  "\<exists>db' m. prepare_dispatch env_0 dispatcher_1 (\<lambda>_. 6) True ''a2'' identity_1 spent_db
       = Inr (Some (bare_result ''budget_exhausted'' None), db') \<and>
     lookup_delivery (''t'', ''m1'') db' = Some m \<and> dm_state m = ''budget_exhausted''"
proof -
  let ?row = "message_1\<lparr>dm_state := ''retry_wait'', dm_attempts := 1, dm_maximum_attempts := 1\<rparr>"
  have load: "load_delivery identity_1 spent_db = Inr (?row, None)" by code_simp
  have p: "dm_packet ?row = Message packet_1" by (simp add: message_1_def)
  have reg: "(dm_tenant_id ?row, mp_project_id packet_1, dm_message_id ?row) \<in> set (communication_messages spent_db)" by code_simp
  have live: "dm_state ?row \<notin> set TERMINAL_STATES" by code_simp
  have gate: "wait_gate dispatcher_1 ((\<lambda>_. 6) 0) ?row spent_db = (False, spent_db)"
    by (simp add: wait_gate_def dispatcher_1_def service_1_def)
  have due: "dm_next_attempt_at ?row \<le> (\<lambda>_. 6) (1 :: nat)" by (simp add: message_1_def)
  have none: "open_attempt ?row spent_db = None" by code_simp
  have spent: "dm_maximum_attempts ?row \<le> int (dm_attempts ?row)" by simp
  have key: "message_key ?row = (''t'', ''m1'')" by (simp add: message_key_def message_1_def)
  from spent_budget_settles [where clk = "\<lambda>_. 6", OF load inv_spent p reg live gate due none spent]
  show ?thesis unfolding key by blast
qed

section \<open>Settled messages\<close>

text \<open>
  A settled message is left alone: once its state is terminal, a dispatch that gets the message
  lock (and whose receiver startup is not unfinished) returns that state and changes nothing.
\<close>

theorem settled_dispatch_inert:
  assumes "load_delivery i db = Inr (row, wake)" "dm_state row \<in> set TERMINAL_STATES" "wake_phase i db \<noteq> Some ''executing''"
    and "di_tenant_id i = ctx_tenant_id (auth_context (ds_authority (dp_service self)))"
    and "bind_fixed_attempt_identity self i = Inr self'" "wd_lock w"
  shows "dispatch env self w i db = Inr (state_result row (dm_state row), db)"
  using assms by (simp add: dispatch_def prepare_dispatch_def prepare_loaded_def)

theorem settled_dispatch_inert_witness:
  "dispatch env_0 dispatcher_1 world_1 identity_1 (dispatched_db\<lparr>delivery_messages := [message_1\<lparr>dm_state := ''delivered''\<rparr>]\<rparr>) =
     Inr (state_result message_1 ''delivered'', dispatched_db\<lparr>delivery_messages := [message_1\<lparr>dm_state := ''delivered''\<rparr>]\<rparr>)"
proof -
  let ?db = "dispatched_db\<lparr>delivery_messages := [message_1\<lparr>dm_state := ''delivered''\<rparr>]\<rparr>"
  let ?row = "message_1\<lparr>dm_state := ''delivered''\<rparr>"
  have load: "load_delivery identity_1 ?db = Inr (?row, None)" by code_simp
  have state: "dm_state ?row \<in> set TERMINAL_STATES" by simp
  have wake: "wake_phase identity_1 ?db \<noteq> Some ''executing''" by code_simp
  have tenant: "di_tenant_id identity_1 = ctx_tenant_id (auth_context (ds_authority (dp_service dispatcher_1)))" by code_simp
  have bound: "bind_fixed_attempt_identity dispatcher_1 identity_1 = Inr dispatcher_1"
    by (simp add: bind_fixed_attempt_identity_def dispatcher_1_def)
  have lock: "wd_lock world_1" by (simp add: world_1_def)
  from settled_dispatch_inert [OF load state wake tenant bound lock]
  show ?thesis by (simp add: state_result_def attempts_result_def full_result_def)
qed

end
