(* ===== verification/Delivery_Sends.thy ===== *)
theory Delivery_Sends
  imports Delivery_Properties
begin

text \<open>
  The round trip between the two halves of \<open>src/runtime/delivery.py\<close>: the rows \<open>send_message\<close>
  commits in eight tables are the rows the dispatcher's \<open>_load\<close> checks before it touches a message.
\<close>

section \<open>What is sent can be dispatched\<close>

definition sent_row :: "hash_env \<Rightarrow> int \<Rightarrow> command \<Rightarrow> packet \<Rightarrow> string option \<Rightarrow> int option \<Rightarrow> envelope \<Rightarrow> string \<Rightarrow> message_row" where
  "sent_row env t c p ep v e policy_hash =
     queued_row env t c p ep v e (canonical_hash env c (Some (send_extra env p ep v))) policy_hash"

definition commits ::
  "hash_env \<Rightarrow> string \<Rightarrow> command \<Rightarrow> packet \<Rightarrow> string option \<Rightarrow> int option \<Rightarrow> delivery_db \<Rightarrow> command_result \<Rightarrow> delivery_db \<Rightarrow> bool" where
  "commits env oid c p ep v db x db' \<longleftrightarrow> (\<exists>now t e pol. en_operation_id e = oid \<and>
     res_operation_id x = oid \<and> res_command_id x = command_id c \<and> res_target_id x = target_id c \<and>
     res_revision x = expected_revision c \<and> filter (dedup_matches c) (command_dedup (dcore db)) = [] \<and>
     queue_message env now x (sent_row env t c p ep v e pol)
       ((dcore db)\<lparr>command_dedup := command_dedup (dcore db) @ [current_row env c (send_extra env p ep v) x]\<rparr>) db = Inr db')"

lemma dedup_digest: "dedup env c res extra db = Inr ((x, h), db') \<Longrightarrow> h = canonical_hash env c (Some extra)"
  unfolding dedup_def Let_def by (auto split: list.splits if_splits option.splits)

lemma commitsI:
  assumes "dedup env c x (send_extra env p ep v) (dcore db) = Inr ((None, h), core1)"
    and "queue_message env now x (queued_row env t c p ep v e h pol) core1 db = Inr db'"
    and "en_operation_id e = oid" "res_operation_id x = oid" "res_command_id x = command_id c" "res_target_id x = target_id c"
      "res_revision x = expected_revision c"
  shows "commits env oid c p ep v db x db'"
  using assms(2-) dedup_new [OF assms(1)] dedup_digest [OF assms(1)] unfolding commits_def sent_row_def by blast

lemma send_message_commits:
  "yields (\<lambda>(x, db'). res_duplicate x \<or> commits env oid c p ep v db x db') (send_message env self clk oid mx c p ep v db)"
proof -
  have dup: "res_duplicate r" if "dedup env c x extra core = Inr ((Some r, h), core1)" for x extra core r h core1
    using dedup_replay [OF that] by auto
  have ok: "validate_packet p = Inr q \<Longrightarrow> q = p" for q by (auto simp: validate_packet_def split: if_splits)
  show ?thesis
    unfolding send_message_def Let_def
    by (intro yields_intros)
      (auto dest: dup dest!: ok intro: commitsI simp: envelope_for_def)
qed

definition queued_event :: "message_row \<Rightarrow> command_result \<Rightarrow> authority_db \<Rightarrow> domain_event" where
  "queued_event m res core = last (domain_events (delivery_event (dm_command m) res (dm_canonical_hash m) ''message.queued''
     (packet_work_item (dm_packet m)) core))"

lemma commit_inbox_core: "commit_inbox m db = Inr db' \<Longrightarrow> dcore db' = dcore db"
  by (auto simp: commit_inbox_def Let_def update_message_def dest!: insert_receipt_Inr split: if_split_asm)

lemma queue_message_core:
  assumes "queue_message env now res m core1 db = Inr db'"
  shows "command_dedup (dcore db') = command_dedup core1 \<and>
    domain_events (dcore db') = domain_events core1 @ [queued_event m res core1] \<and>
    (\<forall>q \<in> set (operations core1). op_operation_id q \<noteq> res_operation_id res) \<and>
    operations (dcore db') = operations core1 @ [\<lparr>op_operation_id = res_operation_id res, op_tenant_id = tenant_id (dm_command m),
      op_command_id = command_id (dm_command m), op_provider = ''temporal'',
      op_provider_workflow_id = ''acs-delivery/'' @ res_operation_id res, op_status = ''committed''\<rparr>] \<and>
    (\<forall>o' \<in> set (outbox core1). (ob_tenant_id o', ob_message_id o') \<noteq> (tenant_id (dm_command m), target_id (dm_command m))) \<and>
    outbox (dcore db') = outbox core1 @ [\<lparr>ob_tenant_id = tenant_id (dm_command m), ob_message_id = target_id (dm_command m),
      ob_operation_id = res_operation_id res, ob_topic = ''message.delivery'',
      ob_payload = PyDict [(PyStr ''tenant_id'', PyStr (tenant_id (dm_command m))), (PyStr ''message_id'', PyStr (target_id (dm_command m))),
        (PyStr ''operation_id'', PyStr (res_operation_id res))], ob_delivered_at = None\<rparr>]"
proof -
  let ?c = "dm_command m"
  from assms obtain core2 core3 db1 db2 where op: "delivery_operation ?c (res_operation_id res) core1 = Inr core2"
    and ins: "insert_delivery m (db\<lparr>dcore := core2\<rparr>) = Inr db1"
    and out: "delivery_outbox ?c (dm_packet m) res (dm_canonical_hash m) (dcore db1) = Inr core3"
    and rec: "insert_delivery_receipt (accepted_receipt env m) (db1\<lparr>dcore := core3\<rparr>) = Inr db2"
    and inbox: "commit_inbox m db2 = Inr db'"
    unfolding queue_message_def Let_def by (auto split: if_split_asm)
  have core: "dcore db' = core3" using commit_inbox_core [OF inbox] insert_receipt_Inr [OF rec] by simp
  have db1: "dcore db1 = core2" using insert_delivery_Inr [OF ins] by simp
  from op have fresh: "\<forall>q \<in> set (operations core1). op_operation_id q \<noteq> res_operation_id res"
    by (auto simp: delivery_operation_def record_operation_def split: if_split_asm)
  then have keep: "update_where (\<lambda>q. op_operation_id q = res_operation_id res) f (operations core1) = operations core1" for f
    by (intro update_where_none) auto
  from op fresh have core2: "core2 = core1\<lparr>operations := operations core1 @ [\<lparr>op_operation_id = res_operation_id res,
      op_tenant_id = tenant_id ?c, op_command_id = command_id ?c, op_provider = ''temporal'',
      op_provider_workflow_id = ''acs-delivery/'' @ res_operation_id res, op_status = ''committed''\<rparr>]\<rparr>"
    using keep by (auto simp: delivery_operation_def record_operation_def update_where_def split: if_split_asm)
  show ?thesis
    using out fresh unfolding core db1 core2
    by (auto simp: delivery_outbox_def delivery_event_def queued_event_def Let_def split: if_split_asm)
qed

lemma find_append_none: "(\<forall>x \<in> set xs. \<not> P x) \<Longrightarrow> find P (xs @ ys) = find P ys"
  by (induction xs) auto

lemma settled_sent_fields [simp]:
  "dm_tenant_id (settled_row (sent_row env t c p ep v e pol)) = tenant_id c"
  "dm_message_id (settled_row (sent_row env t c p ep v e pol)) = target_id c"
  "dm_command_id (settled_row (sent_row env t c p ep v e pol)) = command_id c"
  "dm_operation_id (settled_row (sent_row env t c p ep v e pol)) = en_operation_id e"
  "dm_command (settled_row (sent_row env t c p ep v e pol)) = c"
  "dm_packet (settled_row (sent_row env t c p ep v e pol)) = p"
  "dm_canonical_hash (settled_row (sent_row env t c p ep v e pol)) = canonical_hash env c (Some (send_extra env p ep v))"
  "dm_accepted_state_digest (settled_row (sent_row env t c p ep v e pol)) = en_accepted_state_digest e"
  "dm_attempts (settled_row (sent_row env t c p ep v e pol)) = 0"
  by (simp_all add: settled_row_def sent_row_def queued_row_def Let_def)

lemma sent_fields [simp]:
  "dm_command (sent_row env t c p ep v e pol) = c" "dm_attempts (sent_row env t c p ep v e pol) = 0" "dm_packet (sent_row env t c p ep v e pol) = p"
  "message_key (sent_row env t c p ep v e pol) = (tenant_id c, target_id c)"
  "dm_canonical_hash (sent_row env t c p ep v e pol) = canonical_hash env c (Some (send_extra env p ep v))"
  by (simp_all add: sent_row_def queued_row_def message_key_def)

lemma accepted_loads:
  assumes "lookup_receipt (tenant_id c, target_id c) ''accepted_by_authority'' db = Some (accepted_receipt env (sent_row env t c p ep v e pol))"
  shows "case lookup_receipt (message_key (settled_row (sent_row env t c p ep v e pol))) ''accepted_by_authority'' db of
        None \<Rightarrow> False
      | Some r \<Rightarrow>
          let rid = ''delivery:'' @ target_id c @ '':accepted_by_authority''; get = json_member (dr_evidence r) in
          dr_receipt_id r = rid \<and> get ''receipt_id'' = Some (PyStr rid) \<and>
          get ''operation_id'' = Some (PyStr (en_operation_id e)) \<and> get ''command_id'' = Some (PyStr (command_id c)) \<and>
          get ''canonical_hash'' = Some (PyStr (canonical_hash env c (Some (send_extra env p ep v)))) \<and>
          get ''accepted_state_digest'' = Some (PyStr (en_accepted_state_digest e))"
proof -
  have key: "message_key (settled_row (sent_row env t c p ep v e pol)) = (tenant_id c, target_id c)" by simp
  show ?thesis unfolding key assms option.case Let_def
    by (simp add: accepted_receipt_def sent_row_def queued_row_def Let_def dict_get_def)
qed

lemma queue_message_fresh:
  assumes "queue_message env now res m core1 db = Inr db'"
  shows "lookup_receipt (message_key m) ''accepted_by_authority'' db = None"
proof -
  from assms obtain core2 core3 db1 db2 where ins: "insert_delivery m (db\<lparr>dcore := core2\<rparr>) = Inr db1"
    and rec: "insert_delivery_receipt (accepted_receipt env m) (db1\<lparr>dcore := core3\<rparr>) = Inr db2"
    unfolding queue_message_def Let_def by (auto split: if_split_asm)
  have "''accepted_by_authority'' \<notin> set (layers_of (message_key m) (db1\<lparr>dcore := core3\<rparr>))"
    using insert_receipt_Inr [OF rec] by simp
  then have "lookup_receipt (message_key m) ''accepted_by_authority'' (db1\<lparr>dcore := core3\<rparr>) = None"
    unfolding layers_of_lookup by simp
  then show ?thesis using insert_delivery_Inr [OF ins] by (simp add: Delivery_Store.lookup_receipt_def)
qed

lemma committed_rows_ok:
  assumes "commits env oid c p ep v db x db'"
    and "\<forall>ev \<in> set (domain_events (dcore db)). ev_tenant_id ev = tenant_id c \<longrightarrow> ev_command_id ev \<noteq> command_id c"
  shows "\<exists>t e pol. delivery_messages db' = delivery_messages db @ [settled_row (sent_row env t c p ep v e pol)] \<and>
    lookup_delivery (tenant_id c, target_id c) db = None \<and> en_operation_id e = oid \<and>
    ledger_rows_ok (settled_row (sent_row env t c p ep v e pol)) db'"
proof -
  from assms(1) obtain now t e pol where ids: "en_operation_id e = oid" "res_operation_id x = oid" "res_command_id x = command_id c"
      "res_target_id x = target_id c" "res_revision x = expected_revision c"
    and dd: "filter (dedup_matches c) (command_dedup (dcore db)) = []"
    and q: "queue_message env now x (sent_row env t c p ep v e pol)
       ((dcore db)\<lparr>command_dedup := command_dedup (dcore db) @ [current_row env c (send_extra env p ep v) x]\<rparr>) db = Inr db'"
    unfolding commits_def by blast
  let ?m = "sent_row env t c p ep v e pol"
  note rows = queue_message_rows [OF q] and core = queue_message_core [OF q]
  have op: "find (\<lambda>q. op_tenant_id q = tenant_id c \<and> op_operation_id q = oid) (operations (dcore db')) =
      Some \<lparr>op_operation_id = oid, op_tenant_id = tenant_id c, op_command_id = command_id c, op_provider = ''temporal'',
        op_provider_workflow_id = ''acs-delivery/'' @ oid, op_status = ''committed''\<rparr>"
    using core ids by (simp add: find_append_none)
  have "\<forall>d \<in> set (command_dedup (dcore db)). \<not> (dd_tenant_id d = tenant_id c \<and> dd_command_id d = Some (command_id c))"
    using dd by (auto simp: filter_empty_conv dedup_matches_def)
  then have ded: "find (\<lambda>d. dd_tenant_id d = tenant_id c \<and> dd_command_id d = Some (command_id c)) (command_dedup (dcore db')) =
      Some (current_row env c (send_extra env p ep v) x)"
    using core by (simp add: find_append_none current_row_def)
  have ev: "filter (\<lambda>e. ev_tenant_id e = tenant_id c \<and> ev_command_id e = command_id c) (domain_events (dcore db')) =
      [queued_event ?m x ((dcore db)\<lparr>command_dedup := command_dedup (dcore db) @ [current_row env c (send_extra env p ep v) x]\<rparr>)]"
    using core assms(2) by (auto simp: queued_event_def delivery_event_def filter_empty_conv)
  have "lookup_receipt (tenant_id c, target_id c) ''accepted_by_authority'' db = None" using queue_message_fresh [OF q] by simp
  then have acc: "lookup_receipt (tenant_id c, target_id c) ''accepted_by_authority'' db' = Some (accepted_receipt env ?m)"
    using rows by (simp add: Delivery_Store.lookup_receipt_def first_receipts_def find_append)
  have "ledger_rows_ok (settled_row ?m) db'"
    unfolding ledger_rows_ok_def settled_sent_fields ids(1) op ded ev
    by (intro conjI accepted_loads [OF acc, unfolded ids(1)])
      (simp_all add: ids current_row_def queued_event_def delivery_event_def result_dump_def dict_get_def)
  then show ?thesis using rows ids by auto
qed

text \<open>
  C37. What is sent can be dispatched: when \<open>send_message\<close> accepts a new command (its event journal
  has no entry of that command), the operation, event, outbox, journal and receipt rows it commits
  are exactly the ones \<open>_load\<close> of the dispatcher demands; the message loads with its packet and
  command, no Attempt used and no receiver startup pending.
\<close>

theorem sent_message_loads:
  assumes "send_message env self clk oid mx c p ep v db = Inr (x, db')" "\<not> res_duplicate x"
    and "\<forall>ev \<in> set (domain_events (dcore db)). ev_tenant_id ev = tenant_id c \<longrightarrow> ev_command_id ev \<noteq> command_id c"
  shows "\<exists>row. load_delivery \<lparr>di_tenant_id = tenant_id c, di_message_id = target_id c, di_operation_id = oid\<rparr> db' = Inr (row, None) \<and>
    dm_command row = c \<and> dm_packet row = p \<and> dm_attempts row = 0"
proof -
  have com: "commits env oid c p ep v db x db'" using yieldsD [OF send_message_commits assms(1)] assms(2) by simp
  from committed_rows_ok [OF com assms(3)] obtain t e pol
    where ms: "delivery_messages db' = delivery_messages db @ [settled_row (sent_row env t c p ep v e pol)]"
      and none: "lookup_delivery (tenant_id c, target_id c) db = None" and oid: "en_operation_id e = oid"
      and ok: "ledger_rows_ok (settled_row (sent_row env t c p ep v e pol)) db'" by blast
  let ?row = "settled_row (sent_row env t c p ep v e pol)"
  let ?i = "\<lparr>di_tenant_id = tenant_id c, di_message_id = target_id c, di_operation_id = oid\<rparr>"
  have "\<forall>m \<in> set (delivery_messages db). \<not> (dm_tenant_id m = tenant_id c \<and> dm_message_id m = target_id c \<and> dm_operation_id m = oid)"
    using none by (auto simp: lookup_delivery_def find_None_iff_all message_key_def)
  then have "find_message ?i db' = Some ?row" by (simp add: find_message_def ms find_append_none oid)
  moreover obtain o' where "find (\<lambda>o'. ob_tenant_id o' = tenant_id c \<and> ob_message_id o' = target_id c \<and> ob_operation_id o' = oid)
      (outbox (dcore db')) = Some o'" "ob_topic o' = ''message.delivery''" "ob_payload o' = identity_dump ?row"
  proof -
    from com obtain now t' e' pol' where "res_operation_id x = oid" and q: "queue_message env now x (sent_row env t' c p ep v e' pol')
       ((dcore db)\<lparr>command_dedup := command_dedup (dcore db) @ [current_row env c (send_extra env p ep v) x]\<rparr>) db = Inr db'"
      unfolding commits_def by blast
    note core = queue_message_core [OF q]
    then have "\<forall>o' \<in> set (outbox (dcore db)). \<not> (ob_tenant_id o' = tenant_id c \<and> ob_message_id o' = target_id c \<and> ob_operation_id o' = oid)"
      by auto
    from find_append_none [OF this] core \<open>res_operation_id x = oid\<close>
    have "find (\<lambda>o'. ob_tenant_id o' = tenant_id c \<and> ob_message_id o' = target_id c \<and> ob_operation_id o' = oid) (outbox (dcore db')) =
      Some \<lparr>ob_tenant_id = tenant_id c, ob_message_id = target_id c, ob_operation_id = oid, ob_topic = ''message.delivery'',
        ob_payload = identity_dump ?row, ob_delivered_at = None\<rparr>"
      by (simp add: identity_dump_def oid)
    then show thesis by (rule that) simp_all
  qed
  moreover have "wake_entries_ok ?row [(PyStr ''tenant_id'', PyStr (tenant_id c)), (PyStr ''message_id'', PyStr (target_id c)),
      (PyStr ''operation_id'', PyStr oid)]"
    by (simp add: wake_entries_ok_def identity_dump_def oid dict_get_def)
  ultimately have "load_delivery ?i db' = Inr (?row, None)"
    using ok by (simp add: load_delivery_def oid identity_dump_def dict_get_def)
  then show ?thesis by (intro exI [of _ ?row]) simp
qed

definition bound_1 :: delivery_db where
  "bound_1 = delivery_db_1\<lparr>delivery_endpoints := [endpoint_1]\<rparr>"

definition sent_result :: command_result where
  "sent_result = \<lparr>res_command_id = ''c2'', res_operation_id = ''o1'', res_target_id = ''m1'', res_revision = 0,
     res_state = ''message_queued'', res_receipt_layer = ''accepted_by_authority'', res_duplicate = False\<rparr>"

definition journal_1 :: authority_db where
  "journal_1 = (dcore bound_1)\<lparr>command_dedup := [current_row env_0 send_1 (send_extra env_0 (Message packet_1) (Some ''e'') (Some 1)) sent_result]\<rparr>"

lemma hash_env_0: "canonical_hash env_0 c x = sha_a" "digest_json env_0 y = sha_a"
  by (simp_all add: canonical_hash_def digest_json_def env_0_def sha_a_def)

lemma packet_1_ok: "packet_ok (Message packet_1)"
proof -
  have "\<not> blank (mp_content packet_1)" by code_simp
  then show ?thesis
    by (simp add: message_packet_ok_def text_field_def opt_field_def budget_ok_def aware_command_time_def packet_1_def)
qed

lemma row_1: "queued_row env_0 5 send_1 (Message packet_1) (Some ''e'') (Some 1) envelope_1 sha_a sha_a =
    message_1\<lparr>dm_next_attempt_at := 5\<rparr>"
  "envelope_for send_1 (Message packet_1) ''o1'' (Some ''e'') (Some 1) (Some endpoint_1) sha_a = envelope_1"
  by (simp_all add: queued_row_def envelope_for_def hash_env_0 message_1_def envelope_1_def send_1_def command_1_def endpoint_1_def packet_1_def)

lemma auth_1_ok:
  "authorize env_0 (ds_authority service_1) (\<lambda>_. 5) send_1 ''message.send'' (Some ''s'') 0 (dcore bound_1) = Inr ()"
  "authorize env_0 (ds_authority service_1) (\<lambda>_. 5) send_1 ''runtime.invoke'' (Some ''s'') 0 (dcore bound_1) = Inr ()"
  by code_simp+

lemma bytes_1: "int (packet_bytes env_0 (Message packet_1)) \<le> 65536"
  by code_simp

lemma boundary_1: "delivery_boundary env_0 service_1 (\<lambda>_. 5) send_1 (Message packet_1) (Some ''e'') (Some 1) False
    (bound_1\<lparr>dcore := journal_1\<rparr>) = Inr (Some endpoint_1, sha_a, sha_a)"
  by code_simp

lemma queue_1:
  "case queue_message env_0 5 sent_result (message_1\<lparr>dm_next_attempt_at := 5\<rparr>) journal_1 bound_1 of Inl _ \<Rightarrow> False | _ \<Rightarrow> True"
  by code_simp

lemma dedup_1: "dedup env_0 send_1 sent_result (send_extra env_0 (Message packet_1) (Some ''e'') (Some 1)) (dcore bound_1) =
    Inr ((None, sha_a), journal_1)"
  by (simp add: dedup_def hash_env_0 journal_1_def bound_1_def delivery_db_1_def empty_delivery_db_def auth_db_1_def empty_db_def
      current_row_def send_1_def command_1_def)

lemma send_1_runs:
  obtains db' where "send_message env_0 service_1 (\<lambda>_. 5) ''o1'' 65536 send_1 (Message packet_1) (Some ''e'') (Some 1) bound_1 = Inr (sent_result, db')"
proof -
  have bytes: "\<not> 65536 < packet_bytes env_0 (Message packet_1)" using bytes_1 by simp
  obtain db' where q: "queue_message env_0 5 sent_result (message_1\<lparr>dm_next_attempt_at := 5\<rparr>) journal_1 bound_1 = Inr db'"
    using queue_1 by (auto split: sum.splits)
  have env: "envelope_ok envelope_1"
    using packet_1_ok by (simp add: envelope_ok_def envelope_1_def text_field_def lower_hex_def sha_a_def)
  have direct: "\<not> direct_inbox (Message packet_1)" by code_simp
  have cmd: "command_type send_1 = ''message.send''" "target_kind send_1 = ''message''" "command_id send_1 = ''c2''" "target_id send_1 = ''m1''"
    "expected_revision send_1 = 0" by (simp_all add: send_1_def command_1_def)
  have pk: "packet_target_scope (Message packet_1) = ''s''" "packet_activation (Message packet_1) = ''invoke''" "packet_deadline (Message packet_1) = None"
    by (simp_all add: packet_1_def)
  show thesis
    by (rule that [of db'])
      (simp add: send_message_def validate_packet_def packet_1_ok bytes direct cmd pk auth_1_ok sent_result_def [symmetric] dedup_1 boundary_1
        row_1 env q del: packet_ok.simps packet_target_scope.simps packet_activation.simps packet_deadline.simps)
qed

theorem sent_message_loads_witness:
  "\<exists>db' row. send_message env_0 service_1 (\<lambda>_. 5) ''o1'' 65536 send_1 (Message packet_1) (Some ''e'') (Some 1) bound_1 = Inr (sent_result, db') \<and>
     load_delivery identity_1 db' = Inr (row, None) \<and> dm_packet row = Message packet_1"
proof -
  obtain db' where run: "send_message env_0 service_1 (\<lambda>_. 5) ''o1'' 65536 send_1 (Message packet_1) (Some ''e'') (Some 1) bound_1 = Inr (sent_result, db')"
    by (rule send_1_runs)
  have new: "\<not> res_duplicate sent_result" by (simp add: sent_result_def)
  have ev: "\<forall>ev \<in> set (domain_events (dcore bound_1)). ev_tenant_id ev = tenant_id send_1 \<longrightarrow> ev_command_id ev \<noteq> command_id send_1" by code_simp
  have "\<lparr>di_tenant_id = tenant_id send_1, di_message_id = target_id send_1, di_operation_id = ''o1''\<rparr> = identity_1"
    by (simp add: identity_1_def send_1_def command_1_def)
  with sent_message_loads [OF run new ev] run show ?thesis by auto
qed

end
