(* ===== verification/Lease_Authority.thy ===== *)
theory Lease_Authority
  imports Domain_Authority
begin

text \<open>
  \<open>src/runtime/lease_authority.py\<close>: exclusive leases with fencing tokens.

  \<open>LeaseAuthority\<close> works over a \<open>LeaseStore\<close>, an interface (a Python \<open>Protocol\<close>): the
  record \<open>lease_store\<close> holds what it calls there, \<open>_authorize\<close> and
  \<open>enrollment.current_attempt_binding\<close>, as functions, together with the authenticated context.
  No property assumes anything about the two functions.

  Every operation runs in one transaction and takes the clock as \<open>clk\<close>, the sequence of the
  readings it makes, and the values that \<open>uuid4\<close> and \<open>token_hex\<close> supply (\<open>fresh_ids\<close>).
\<close>

section \<open>Tables and store\<close>

record lease_row =
  le_lease_id :: string
  le_tenant_id :: string
  le_resource_id :: string
  le_owner_attempt_id :: string
  le_owner_runtime_id :: string
  le_authority_id :: string
  le_authority_incarnation :: string
  le_generation :: int
  le_fencing_token :: string
  le_grant_ref :: string
  le_command_id :: "string option"
  le_idempotency_key :: "string option"
  le_scope_id :: string
  le_request_hash :: "string option"
  le_expires_at :: int
  le_status :: string

record attempt_row =
  at_attempt_id :: string
  at_tenant_id :: string
  at_work_item_id :: string
  at_agent_slot_id :: string
  at_status :: string
  at_producer_ref :: "string option"
  at_runtime_id :: "string option"
  at_scope_id :: "string option"
  at_grant_ref :: "string option"
  at_authority_id :: "string option"
  at_authority_incarnation :: "string option"

record work_item_row =
  wi_work_item_id :: string
  wi_tenant_id :: string
  wi_scope_id :: string
  wi_agent_slot_id :: string
  wi_revision :: int

record lease_db =
  core :: authority_db
  leases :: "lease_row list"
  attempts :: "attempt_row list"
  work_items :: "work_item_row list"

record lease_store =
  ls_context :: authenticated_context
  ls_authorize :: "(nat \<Rightarrow> int) \<Rightarrow> command \<Rightarrow> string \<Rightarrow> string option \<Rightarrow> lease_db \<Rightarrow> unit result"
  ls_attempt_binding :: "string \<Rightarrow> lease_db \<Rightarrow> unit result"

record fresh_ids =
  fi_operation :: string
  fi_lease :: string
  fi_token :: string
  fi_read :: string

section \<open>Helpers\<close>

definition active_attempt :: "string \<Rightarrow> bool" where
  "active_attempt status \<longleftrightarrow> status \<in> {''active'', ''running'', ''ready'', ''started''}"

definition bind_command :: "command \<Rightarrow> string \<Rightarrow> string \<Rightarrow> unit result" where
  "bind_command c operation resource =
     guard (command_type c = ''lease.'' @ operation \<and> target_kind c = ''lease'' \<and> target_id c = resource)
       (LeaseRejected resource ''command type or target does not match lease operation'')"

definition read_command :: "lease_store \<Rightarrow> fresh_ids \<Rightarrow> int \<Rightarrow> string \<Rightarrow> string \<Rightarrow> command" where
  "read_command st ids now resource permission =
     (let x = ls_context st in
      \<lparr>schema_version = ''1.0'', hash_version = ''v2'', command_id = ''lease-read-'' @ fi_read ids,
       command_type = permission, idempotency_key = ''lease-read-'' @ fi_read ids,
       correlation_id = ''lease-authority-read'', causation_id = None, tenant_id = ctx_tenant_id x,
       authority_id = ctx_authority_id x, authority_incarnation = ctx_authority_incarnation x,
       principal_ref = ctx_principal_ref x, grant_ref = ctx_grant_ref x, target_kind = ''lease'',
       target_id = resource, expected_revision = 0, issued_at = DT now (Some 0),
       deadline = Some (DT (now + 5 * 60 * 1000000) (Some 0)), payload = PyDict []\<rparr>)"

definition nonblank :: "string \<Rightarrow> bool" where
  "nonblank s \<longleftrightarrow> (\<exists>c \<in> set s. \<not> is_space c)"

text \<open>
  \<open>_owner_row\<close>: the registered, active owner of the request, given by its work item and the
  revision of that work item. An exception of \<open>current_attempt_binding\<close> other than the two it
  catches is passed on.
\<close>

definition owner_matches :: "lease_store \<Rightarrow> lease_request \<Rightarrow> attempt_row \<Rightarrow> work_item_row \<Rightarrow> slot_row \<Rightarrow> bool" where
  "owner_matches st r a w slot \<longleftrightarrow>
     (case (at_runtime_id a, at_scope_id a, at_grant_ref a, at_authority_id a, at_authority_incarnation a, at_producer_ref a) of
        (Some rt, Some sc, Some gr, Some au, Some inc, Some producer) \<Rightarrow>
          (\<forall>v \<in> {at_attempt_id a, at_work_item_id a, at_agent_slot_id a, rt, sc, gr, au, inc, wi_scope_id w, producer,
                as_scope_id slot, wi_agent_slot_id w}. nonblank v) \<and>
          (case lr_work_item_id r of None \<Rightarrow> True | Some i \<Rightarrow> at_work_item_id a = i) \<and>
          rt = owner_runtime_id r \<and> sc = lr_scope_id r \<and> wi_scope_id w = lr_scope_id r \<and> as_scope_id slot = lr_scope_id r \<and>
          gr = lr_grant_ref r \<and> gr = ctx_grant_ref (ls_context st) \<and> au = ctx_authority_id (ls_context st) \<and>
          inc = lr_authority_incarnation r \<and> inc = ctx_authority_incarnation (ls_context st) \<and>
          producer = ctx_principal_ref (ls_context st) \<and> at_agent_slot_id a = wi_agent_slot_id w \<and>
          as_status slot = ''active'' \<and> active_attempt (at_status a)
      | _ \<Rightarrow> False)"

definition owner_row :: "lease_store \<Rightarrow> lease_request \<Rightarrow> lease_db \<Rightarrow> (string \<times> int) option result" where
  "owner_row st r db =
     (case ls_attempt_binding st (owner_attempt_id r) db of
        Inl (AcceptanceGuardFailed _) \<Rightarrow> Inr None
      | Inl e \<Rightarrow> if is_authorization_denied e then Inr None else Inl e
      | Inr _ \<Rightarrow>
         Inr (case find (\<lambda>a. at_tenant_id a = ctx_tenant_id (ls_context st) \<and> at_attempt_id a = owner_attempt_id r) (attempts db) of
           None \<Rightarrow> None
         | Some a \<Rightarrow>
          (case (find (\<lambda>w. wi_tenant_id w = at_tenant_id a \<and> wi_work_item_id w = at_work_item_id a) (work_items db),
                 find (\<lambda>s. as_tenant_id s = at_tenant_id a \<and> as_agent_slot_id s = at_agent_slot_id a) (agent_slots (core db))) of
             (Some w, Some slot) \<Rightarrow>
               if owner_matches st r a w slot then Some (at_work_item_id a, wi_revision w) else None
           | _ \<Rightarrow> None)))"

text \<open>\<open>_admit_command\<close>; the result is a JSON object, \<open>None\<close> for the read-only probe.\<close>

fun is_PyDict :: "pyval \<Rightarrow> bool" where
  "is_PyDict (PyDict _) = True"
| "is_PyDict _ = False"

definition lease_row_admits :: "command \<Rightarrow> string \<Rightarrow> dedup_row \<Rightarrow> bool" where
  "lease_row_admits c digest row \<longleftrightarrow>
     dd_idempotency_key row = idempotency_key c \<and> dd_command_id row = Some (command_id c) \<and>
     dd_payload_hash row = digest \<and> dd_canonical_hash row = Some digest \<and> dd_hash_version row = ''v2'' \<and>
     dd_migration_state row = ''current'' \<and> dd_replay_policy row = ''replay_safe'' \<and>
     is_PyDict (dd_result_json row) \<and>
     json_member (dd_result_json row) ''command_id'' = Some (PyStr (command_id c)) \<and>
     json_member (dd_result_json row) ''resource_id'' = Some (PyStr (target_id c))"

definition admit_command ::
  "hash_env \<Rightarrow> command \<Rightarrow> pyval option \<Rightarrow> pyval \<Rightarrow> authority_db \<Rightarrow> ((pyval option \<times> string) \<times> authority_db) result" where
  "admit_command env c res extra db =
     (let digest = canonical_hash env c (Some extra);
          conflict = Inl (IdempotencyConflict (idempotency_key c)) in
      case filter (dedup_matches c) (command_dedup db) of
        [] \<Rightarrow>
          if hash_version c \<noteq> ''v2'' then conflict
          else (case res of
              None \<Rightarrow> Inr ((None, digest), db)
            | Some v \<Rightarrow> Inr ((None, digest), db\<lparr>command_dedup := command_dedup db @
                [\<lparr>dd_tenant_id = tenant_id c, dd_idempotency_key = idempotency_key c, dd_command_id = Some (command_id c),
                  dd_payload_hash = digest, dd_hash_version = ''v2'', dd_canonical_hash = Some digest,
                  dd_migration_state = ''current'', dd_legacy_command_id = None, dd_legacy_record = None,
                  dd_replay_policy = ''replay_safe'', dd_result_json = v\<rparr>]\<rparr>))
      | [row] \<Rightarrow>
          if lease_row_admits c digest row then Inr ((Some (dd_result_json row), digest), db) else conflict
      | _ \<Rightarrow> conflict)"

definition append_journal ::
  "command \<Rightarrow> string \<Rightarrow> string \<Rightarrow> pyval \<Rightarrow> string \<Rightarrow> string \<Rightarrow> bool \<Rightarrow> authority_db \<Rightarrow> authority_db result" where
  "append_journal c oid topic body digest work_item recovery db =
     (if \<exists>o' \<in> set (operations db). op_operation_id o' = oid then Inl (IntegrityError ''operations_pkey'')
      else if \<exists>m \<in> set (outbox db). ob_tenant_id m = tenant_id c \<and> ob_message_id m = ''msg-'' @ command_id c
      then Inl (IntegrityError ''outbox_tenant_id_message_id_key'')
      else Inr (db\<lparr>
        operations := operations db @ [\<lparr>op_operation_id = oid, op_tenant_id = tenant_id c, op_command_id = command_id c,
          op_provider = ''local-lease'', op_provider_workflow_id = ''acs-p1/'' @ command_id c, op_status = ''committed''\<rparr>],
        domain_events := domain_events db @ [\<lparr>ev_tenant_id = tenant_id c, ev_work_item_id = Some work_item, ev_from_state = None,
          ev_to_state = topic, ev_initiated_by = principal_ref c,
          ev_lineage_mode = (if recovery then ''deterministic_recovery'' else ''external_command''),
          ev_command_id = command_id c, ev_resulting_revision = expected_revision c, ev_canonical_hash = Some digest,
          ev_target_kind = ''work_item'', ev_target_id = work_item, ev_related_work_item_id = None\<rparr>],
        outbox := outbox db @ [\<lparr>ob_tenant_id = tenant_id c, ob_message_id = ''msg-'' @ command_id c, ob_operation_id = oid,
          ob_topic = topic, ob_payload = body, ob_delivered_at = None\<rparr>]\<rparr>))"

definition lookup_lease :: "lease_store \<Rightarrow> string \<Rightarrow> string \<Rightarrow> lease_db \<Rightarrow> lease_row option" where
  "lookup_lease st lid resource db =
     find (\<lambda>l. le_tenant_id l = ctx_tenant_id (ls_context st) \<and> le_lease_id l = lid \<and> le_resource_id l = resource) (leases db)"

definition with_core :: "lease_db \<Rightarrow> authority_db \<Rightarrow> lease_db" where
  "with_core db a = db\<lparr>core := a\<rparr>"

section \<open>Acquiring\<close>

definition request_dump :: "lease_request \<Rightarrow> pyval" where
  "request_dump r = PyDict
     [(PyStr ''resource_id'', PyStr (lr_resource_id r)), (PyStr ''owner_attempt_id'', PyStr (owner_attempt_id r)),
      (PyStr ''owner_runtime_id'', PyStr (owner_runtime_id r)), (PyStr ''grant_ref'', PyStr (lr_grant_ref r)),
      (PyStr ''authority_incarnation'', PyStr (lr_authority_incarnation r)), (PyStr ''scope_id'', PyStr (lr_scope_id r)),
      (PyStr ''mode'', PyStr (mode r)), (PyStr ''work_item_id'', opt_str (lr_work_item_id r)),
      (PyStr ''ttl_seconds'', PyInt (ttl_seconds r))]"

definition acquire_result :: "hash_env \<Rightarrow> command \<Rightarrow> fresh_ids \<Rightarrow> string \<Rightarrow> int \<Rightarrow> int \<Rightarrow> string list \<Rightarrow> pyval" where
  "acquire_result env c ids resource generation expires predecessors = PyDict
     [(PyStr ''command_id'', PyStr (command_id c)), (PyStr ''operation_id'', PyStr (''op-'' @ fi_operation ids)),
      (PyStr ''lease_id'', PyStr (''lease-'' @ fi_lease ids)), (PyStr ''resource_id'', PyStr resource),
      (PyStr ''generation'', PyInt generation), (PyStr ''fencing_token'', PyStr (fi_token ids)),
      (PyStr ''expires_at'', PyStr (isoformat env (DT expires (Some 0)))), (PyStr ''status'', PyStr ''granted''),
      (PyStr ''expired_lease_ids'', PyList (map PyStr predecessors))]"

definition active_leases :: "string \<Rightarrow> string \<Rightarrow> lease_db \<Rightarrow> lease_row list" where
  "active_leases tenant resource db =
     filter (\<lambda>l. le_tenant_id l = tenant \<and> le_resource_id l = resource \<and> le_status l = ''granted'') (leases db)"

definition max_generation :: "string \<Rightarrow> string \<Rightarrow> lease_db \<Rightarrow> int" where
  "max_generation tenant resource db =
     (let gs = map le_generation (filter (\<lambda>l. le_tenant_id l = tenant \<and> le_resource_id l = resource) (leases db))
      in if gs = [] then 0 else Max (set gs))"

definition insert_lease :: "lease_row \<Rightarrow> lease_db \<Rightarrow> lease_db result" where
  "insert_lease l db =
     (if \<exists>x \<in> set (leases db). le_lease_id x = le_lease_id l then Inl (IntegrityError ''leases_pkey'')
      else Inr (db\<lparr>leases := leases db @ [l]\<rparr>))"

definition granted_row :: "command \<Rightarrow> lease_request \<Rightarrow> fresh_ids \<Rightarrow> int \<Rightarrow> string \<Rightarrow> int \<Rightarrow> lease_row" where
  "granted_row c r ids generation digest expires =
     \<lparr>le_lease_id = ''lease-'' @ fi_lease ids, le_tenant_id = tenant_id c, le_resource_id = lr_resource_id r,
      le_owner_attempt_id = owner_attempt_id r, le_owner_runtime_id = owner_runtime_id r,
      le_authority_id = authority_id c, le_authority_incarnation = authority_incarnation c,
      le_generation = generation, le_fencing_token = fi_token ids, le_grant_ref = grant_ref c,
      le_command_id = Some (command_id c), le_idempotency_key = Some (idempotency_key c),
      le_scope_id = lr_scope_id r, le_request_hash = Some digest, le_expires_at = expires,
      le_status = ''granted''\<rparr>"

text \<open>
  \<open>acquire_lease\<close>. The clock is read by the first authorization (\<open>clk 0\<close> to \<open>clk 3\<close>), for
  the test of the active leases (\<open>clk 4\<close>), for the new expiry (\<open>clk 5\<close>) and by the second
  authorization (from \<open>clk 6\<close>). \<open>(True, v)\<close> is a replayed result.
\<close>

definition acquire_lease ::
  "hash_env \<Rightarrow> lease_store \<Rightarrow> (nat \<Rightarrow> int) \<Rightarrow> fresh_ids \<Rightarrow> command \<Rightarrow> lease_request \<Rightarrow> lease_db
     \<Rightarrow> ((bool \<times> pyval) \<times> lease_db) result" where
  "acquire_lease env st clk ids c r db =
     rbind (bind_command c ''acquire'' (lr_resource_id r)) (\<lambda>_.
     let extra = PyDict [(PyStr ''operation'', PyStr ''acquire''), (PyStr ''request'', request_dump r)];
         resource = lr_resource_id r in
     rbind (ls_authorize st clk c ''lease.acquire'' (Some (lr_scope_id r)) db) (\<lambda>_.
     rbind (admit_command env c None extra (core db)) (\<lambda>((prior, _), _).
     case prior of
       Some v \<Rightarrow> Inr ((True, v), db)
     | None \<Rightarrow>
       if lr_grant_ref r \<noteq> grant_ref c \<or> lr_authority_incarnation r \<noteq> authority_incarnation c
       then Inl (LeaseRejected resource ''grant or authority mismatch'')
       else if mode r \<noteq> ''exclusive'' then Inl (LeaseRejected resource ''only exclusive leases are supported'')
       else rbind (owner_row st r db) (\<lambda>owner.
       case owner of
         None \<Rightarrow> Inl (LeaseRejected resource ''owner registration is incomplete, inactive or mismatched'')
       | Some (work_item, wrev) \<Rightarrow>
         if expected_revision c \<noteq> wrev then Inl (revision_conflict work_item (expected_revision c) wrev)
         else if \<exists>l \<in> set (leases db). le_tenant_id l = tenant_id c \<and>
                   (le_command_id l = Some (command_id c) \<or> le_idempotency_key l = Some (idempotency_key c))
         then Inl (IdempotencyConflict (idempotency_key c))
         else
           let active = active_leases (tenant_id c) resource db in
           if 1 < length active \<or> (\<exists>l \<in> set active. clk 4 < le_expires_at l)
           then Inl (LeaseRejected resource ''resource already leased'')
           else
             let predecessors = map le_lease_id active;
                 generation = max_generation (tenant_id c) resource db + 1;
                 expires = clk 5 + ttl_seconds r * 1000000;
                 res = acquire_result env c ids resource generation expires predecessors in
             rbind (ls_authorize st (\<lambda>n. clk (6 + n)) c ''lease.acquire'' (Some (lr_scope_id r)) db) (\<lambda>_.
             rbind (admit_command env c (Some res) extra (core db)) (\<lambda>((_, digest), core1).
             let db1 = db\<lparr>core := core1, leases := update_where
                    (\<lambda>l. le_tenant_id l = tenant_id c \<and> le_lease_id l \<in> set predecessors)
                    (\<lambda>l. l\<lparr>le_status := ''expired''\<rparr>) (leases db)\<rparr> in
             rbind (insert_lease (granted_row c r ids generation digest expires) db1) (\<lambda>db2.
             rbind (append_journal c (''op-'' @ fi_operation ids) ''lease.acquired'' res digest work_item False (core db2)) (\<lambda>core2.
             Inr ((False, res), db2\<lparr>core := core2\<rparr>)))))))))"

section \<open>Fences\<close>

definition fence_row_ok ::
  "lease_row \<Rightarrow> int \<Rightarrow> string \<Rightarrow> int \<Rightarrow> string \<times> string \<times> string \<times> string \<times> string \<times> string \<Rightarrow> bool" where
  "fence_row_ok l generation token now owner \<longleftrightarrow>
     le_command_id l \<noteq> None \<and> le_generation l = generation \<and> le_fencing_token l = token \<and>
     le_status l = ''granted'' \<and> now < le_expires_at l \<and>
     (le_owner_attempt_id l, le_owner_runtime_id l, le_scope_id l, le_grant_ref l, le_authority_incarnation l, le_authority_id l) = owner"

text \<open>
  \<open>_verify_row\<close>: the clock is read for the read command (\<open>clk 0\<close>), by the authorization
  (\<open>clk 1\<close> to \<open>clk 4\<close>) and for the expiry (\<open>clk 5\<close>). It returns the lease and the work item
  of its owner.
\<close>

definition verify_row ::
  "lease_store \<Rightarrow> (nat \<Rightarrow> int) \<Rightarrow> fresh_ids \<Rightarrow> string \<Rightarrow> string \<Rightarrow> int \<Rightarrow> string \<Rightarrow> authenticated_context
     \<Rightarrow> string option \<Rightarrow> string option \<Rightarrow> string option \<Rightarrow> string option \<Rightarrow> string option \<Rightarrow> string \<Rightarrow> lease_db
     \<Rightarrow> (lease_row \<times> string) result" where
  "verify_row st clk ids lid resource generation token caller attempt runtime scope grant incarnation permission db =
     (if caller \<noteq> ls_context st \<or> \<not> (truthy attempt \<and> truthy runtime \<and> truthy scope \<and> truthy grant \<and> truthy incarnation)
         \<or> grant \<noteq> Some (ctx_grant_ref caller) \<or> incarnation \<noteq> Some (ctx_authority_incarnation caller)
      then Inl (FencingRejected resource)
      else case ls_authorize st (\<lambda>n. clk (1 + n)) (read_command st ids (clk 0) resource permission) permission scope db of
        Inl e \<Rightarrow> if is_authorization_denied e then Inl (FencingRejected resource) else Inl e
      | Inr _ \<Rightarrow>
        (case lookup_lease st lid resource db of
           None \<Rightarrow> Inl (FencingRejected resource)
         | Some l \<Rightarrow>
             if \<not> fence_row_ok l generation token (clk 5)
                  (the attempt, the runtime, the scope, the grant, the incarnation, ctx_authority_id caller)
             then Inl (FencingRejected resource)
             else rbind (owner_row st \<lparr>lr_resource_id = resource, owner_attempt_id = the attempt, owner_runtime_id = the runtime,
                    lr_grant_ref = the grant, lr_authority_incarnation = the incarnation, lr_scope_id = the scope,
                    mode = ''exclusive'', lr_work_item_id = None, ttl_seconds = 1\<rparr> db) (\<lambda>owner.
             case owner of
               None \<Rightarrow> Inl (FencingRejected resource)
             | Some (work_item, _) \<Rightarrow> Inr (l, work_item))))"

definition verify_fence ::
  "lease_store \<Rightarrow> (nat \<Rightarrow> int) \<Rightarrow> fresh_ids \<Rightarrow> string \<Rightarrow> string \<Rightarrow> int \<Rightarrow> string \<Rightarrow> authenticated_context option
     \<Rightarrow> string option \<Rightarrow> string option \<Rightarrow> string option \<Rightarrow> string option \<Rightarrow> string option \<Rightarrow> string \<Rightarrow> lease_db
     \<Rightarrow> unit result" where
  "verify_fence st clk ids lid resource generation token caller attempt runtime scope grant incarnation permission db =
     (if permission \<noteq> ''effect.write'' then Inl (FencingRejected resource)
      else rbind (verify_row st clk ids lid resource generation token
             (case caller of None \<Rightarrow> ls_context st | Some x \<Rightarrow> x) attempt runtime scope grant incarnation permission db)
             (\<lambda>_. Inr ()))"

text \<open>
  \<open>hold_fence\<close>: the row is verified once on entry, and the fence that is yielded carries
  \<open>check_current\<close>, which verifies it again each time its holder calls it. \<open>dbs\<close> is what the
  transaction sees at each of these verifications (\<open>dbs 0\<close> on entry, \<open>dbs (Suc n)\<close> at the \<open>n\<close>-th
  check) and each verification reads the clock six times. After the block the flag \<open>active\<close>
  makes every further check fail; a holder that only checks inside the block never sees it.
\<close>

record held_fence =
  hf_work_item_id :: string
  hf_authority_id :: string
  hf_check :: "nat \<Rightarrow> unit result"

definition hold_fence ::
  "lease_store \<Rightarrow> (nat \<Rightarrow> int) \<Rightarrow> fresh_ids \<Rightarrow> string \<Rightarrow> string \<Rightarrow> int \<Rightarrow> string \<Rightarrow> authenticated_context
     \<Rightarrow> string option \<Rightarrow> string option \<Rightarrow> string option \<Rightarrow> string option \<Rightarrow> string option \<Rightarrow> string \<Rightarrow> (nat \<Rightarrow> lease_db)
     \<Rightarrow> held_fence result" where
  "hold_fence st clk ids lid resource generation token caller attempt runtime scope grant incarnation permission dbs =
     (if permission \<noteq> ''effect.write'' then Inl (FencingRejected resource)
      else
        let check_current = (\<lambda>n. verify_row st (\<lambda>k. clk (6 * n + k)) ids lid resource generation token caller
              attempt runtime scope grant incarnation permission (dbs n)) in
        rbind (check_current 0) (\<lambda>(_, work_item).
        Inr \<lparr>hf_work_item_id = work_item, hf_authority_id = ctx_authority_id caller,
             hf_check = (\<lambda>n. rbind (check_current (Suc n)) (\<lambda>_. Inr ()))\<rparr>))"

definition verify_historical_readback ::
  "lease_store \<Rightarrow> (nat \<Rightarrow> int) \<Rightarrow> fresh_ids \<Rightarrow> string \<Rightarrow> string \<Rightarrow> int \<Rightarrow> string \<Rightarrow> authenticated_context
     \<Rightarrow> string \<Rightarrow> string \<Rightarrow> string \<Rightarrow> string \<Rightarrow> lease_db \<Rightarrow> unit result" where
  "verify_historical_readback st clk ids lid resource generation token caller scope grant incarnation permission db =
     (if caller \<noteq> ls_context st \<or> grant \<noteq> ctx_grant_ref caller \<or> incarnation \<noteq> ctx_authority_incarnation caller
         \<or> permission \<noteq> ''effect.read''
      then Inl (FencingRejected resource)
      else case ls_authorize st (\<lambda>n. clk (1 + n)) (read_command st ids (clk 0) resource ''effect.read'') ''effect.read'' (Some scope) db of
        Inl e \<Rightarrow> if is_authorization_denied e then Inl (FencingRejected resource) else Inl e
      | Inr _ \<Rightarrow>
        (case lookup_lease st lid resource db of
           None \<Rightarrow> Inl (FencingRejected resource)
         | Some l \<Rightarrow>
             if le_generation l \<noteq> generation \<or> le_fencing_token l \<noteq> token \<or> le_scope_id l \<noteq> scope
                \<or> le_authority_id l \<noteq> ctx_authority_id caller
             then Inl (FencingRejected resource)
             else case find (\<lambda>a. ai_authority_id a = le_authority_id l \<and> ai_incarnation a = le_authority_incarnation l)
                    (authority_instances (core db)) of
               None \<Rightarrow> Inl (FencingRejected resource)
             | Some a \<Rightarrow>
                 if ai_status a \<notin> {''active'', ''revoked''}
                    \<or> ai_status a = ''active'' \<and> le_authority_incarnation l \<noteq> ctx_authority_incarnation caller
                 then Inl (FencingRejected resource) else Inr ()))"

section \<open>Renewal, release, revocation\<close>

definition opt_int :: "int option \<Rightarrow> pyval" where
  "opt_int v = (case v of None \<Rightarrow> PyNone | Some i \<Rightarrow> PyInt i)"

definition lifecycle_result :: "hash_env \<Rightarrow> command \<Rightarrow> fresh_ids \<Rightarrow> lease_row \<Rightarrow> string \<Rightarrow> string \<Rightarrow> int \<Rightarrow> string \<Rightarrow> pyval" where
  "lifecycle_result env c ids l lid resource expires status = PyDict
     [(PyStr ''command_id'', PyStr (command_id c)), (PyStr ''operation_id'', PyStr (''op-'' @ fi_operation ids)),
      (PyStr ''lease_id'', PyStr lid), (PyStr ''resource_id'', PyStr resource),
      (PyStr ''generation'', PyInt (le_generation l)), (PyStr ''fencing_token'', PyStr (le_fencing_token l)),
      (PyStr ''expires_at'', PyStr (isoformat env (DT expires (Some 0)))), (PyStr ''status'', PyStr status)]"

definition owner_request :: "string \<Rightarrow> lease_row \<Rightarrow> lease_request" where
  "owner_request resource l =
     \<lparr>lr_resource_id = resource, owner_attempt_id = le_owner_attempt_id l, owner_runtime_id = le_owner_runtime_id l,
      lr_grant_ref = le_grant_ref l, lr_authority_incarnation = le_authority_incarnation l, lr_scope_id = le_scope_id l,
      mode = ''exclusive'', lr_work_item_id = None, ttl_seconds = 1\<rparr>"

definition invalid_ttl :: "int option \<Rightarrow> bool" where
  "invalid_ttl ttl \<longleftrightarrow> (case ttl of None \<Rightarrow> True | Some t \<Rightarrow> t \<le> 0 \<or> 3600 < t)"

definition next_expiry :: "int \<Rightarrow> string \<Rightarrow> int option \<Rightarrow> lease_row \<Rightarrow> int" where
  "next_expiry now operation ttl l = (if operation = ''renew'' then now + the ttl * 1000000 else le_expires_at l)"

definition lifecycle ::
  "hash_env \<Rightarrow> lease_store \<Rightarrow> (nat \<Rightarrow> int) \<Rightarrow> fresh_ids \<Rightarrow> command \<Rightarrow> string \<Rightarrow> string \<Rightarrow> int option \<Rightarrow> string option
     \<Rightarrow> string \<Rightarrow> string \<Rightarrow> string \<Rightarrow> int option \<Rightarrow> lease_db \<Rightarrow> ((bool \<times> pyval) \<times> lease_db) result" where
  "lifecycle env st clk ids c lid resource generation token operation permission status ttl db =
     rbind (bind_command c operation resource) (\<lambda>_.
     let extra = PyDict [(PyStr ''operation'', PyStr operation), (PyStr ''lease_id'', PyStr lid),
           (PyStr ''resource_id'', PyStr resource), (PyStr ''generation'', opt_int generation),
           (PyStr ''fencing_token'', opt_str token), (PyStr ''ttl_seconds'', opt_int ttl)];
         scope = map_option le_scope_id (find (\<lambda>l. le_tenant_id l = tenant_id c \<and> le_lease_id l = lid \<and>
           le_resource_id l = resource) (leases db)) in
     rbind (ls_authorize st clk c permission scope db) (\<lambda>_.
     rbind (admit_command env c None extra (core db)) (\<lambda>((prior, _), _).
     case prior of
       Some v \<Rightarrow> Inr ((True, v), db)
     | None \<Rightarrow>
      (case lookup_lease st lid resource db of
         None \<Rightarrow> Inl (LeaseRejected resource ''lease not found'')
       | Some l \<Rightarrow>
         if (generation \<noteq> None \<and> generation \<noteq> Some (le_generation l)) \<or> (token \<noteq> None \<and> token \<noteq> Some (le_fencing_token l))
         then Inl (LeaseRejected resource ''stale lease generation or fencing token'')
         else if operation = ''renew'' \<and> invalid_ttl ttl
         then Inl (LeaseRejected resource ''invalid renewal TTL'')
         else rbind (verify_row st (\<lambda>n. clk (4 + n)) ids lid resource (le_generation l) (le_fencing_token l) (ls_context st)
                (Some (le_owner_attempt_id l)) (Some (le_owner_runtime_id l)) (Some (le_scope_id l)) (Some (le_grant_ref l))
                (Some (le_authority_incarnation l)) permission db) (\<lambda>_.
         rbind (owner_row st (owner_request resource l) db) (\<lambda>owner.
         case owner of
           None \<Rightarrow> Inl (LeaseRejected resource ''owner registration is incomplete, inactive or mismatched'')
         | Some (work_item, wrev) \<Rightarrow>
           if expected_revision c \<noteq> wrev then Inl (revision_conflict work_item (expected_revision c) wrev)
           else
             let expires = next_expiry (clk 10) operation ttl l;
                 res = lifecycle_result env c ids l lid resource expires status in
             rbind (ls_authorize st (\<lambda>n. clk (11 + n)) c permission (Some (le_scope_id l)) db) (\<lambda>_.
             rbind (admit_command env c (Some res) extra (core db)) (\<lambda>((_, digest), core1).
             let db1 = db\<lparr>core := core1, leases := update_where (\<lambda>x. le_tenant_id x = tenant_id c \<and> le_lease_id x = lid)
                    (\<lambda>x. x\<lparr>le_expires_at := expires, le_status := status\<rparr>) (leases db)\<rparr> in
             rbind (append_journal c (''op-'' @ fi_operation ids) (''lease.'' @ operation) res digest work_item False (core db1)) (\<lambda>core2.
             Inr ((False, res), db1\<lparr>core := core2\<rparr>))))))))))"

definition renew_lease where
  "renew_lease env st clk ids c lid resource generation token ttl db =
     lifecycle env st clk ids c lid resource (Some generation) (Some token) ''renew'' ''lease.renew'' ''granted'' (Some ttl) db"

definition release_lease where
  "release_lease env st clk ids c lid resource generation token db =
     lifecycle env st clk ids c lid resource (Some generation) (Some token) ''release'' ''lease.release'' ''released'' None db"

definition revoke_lease where
  "revoke_lease env st clk ids c lid resource generation token db =
     lifecycle env st clk ids c lid resource generation token ''revoke'' ''lease.revoke'' ''revoked'' None db"

section \<open>Expiry\<close>

definition expiry_identity :: "hash_env \<Rightarrow> string \<Rightarrow> lease_row \<Rightarrow> string" where
  "expiry_identity env tenant l = sha256_hex env (dumps True (PyTuple [PyStr tenant, PyStr (le_lease_id l),
     PyInt (le_generation l), PyStr (isoformat env (DT (le_expires_at l) (Some 0)))]))"

definition expiry_command :: "hash_env \<Rightarrow> string \<Rightarrow> string \<Rightarrow> lease_row \<Rightarrow> command" where
  "expiry_command env tenant resource l =
     (let ident = expiry_identity env tenant l; at = DT (le_expires_at l) (Some 0) in
      \<lparr>schema_version = ''1.0'', hash_version = ''v2'', command_id = ''lease-expiry-'' @ ident, command_type = ''lease.expire'',
       idempotency_key = ''lease-expiry-'' @ ident, correlation_id = ''lease-expiry-'' @ le_lease_id l,
       causation_id = le_command_id l, tenant_id = tenant, authority_id = le_authority_id l,
       authority_incarnation = le_authority_incarnation l, principal_ref = ''runtime:lease-expiry'', grant_ref = le_grant_ref l,
       target_kind = ''lease'', target_id = resource, expected_revision = 0, issued_at = at, deadline = Some at,
       payload = PyDict []\<rparr>)"

definition expire_locked ::
  "hash_env \<Rightarrow> lease_store \<Rightarrow> (nat \<Rightarrow> int) \<Rightarrow> string \<Rightarrow> string \<Rightarrow> lease_db \<Rightarrow> (bool \<times> lease_db) result" where
  "expire_locked env st clk lid resource db =
     (case lookup_lease st lid resource db of
        None \<Rightarrow> Inr (False, db)
      | Some l \<Rightarrow>
          if le_authority_id l \<noteq> ctx_authority_id (ls_context st) \<or> le_status l \<noteq> ''granted'' \<or> clk 0 < le_expires_at l
          then Inr (False, db)
          else
            let tenant = ctx_tenant_id (ls_context st);
                ident = expiry_identity env tenant l;
                iso = PyStr (isoformat env (DT (le_expires_at l) (Some 0))) in
            rbind (validate_command (expiry_command env tenant resource l)) (\<lambda>c.
            let res = PyDict [(PyStr ''command_id'', PyStr (command_id c)), (PyStr ''operation_id'', PyStr (''lease-expiry-op-'' @ ident)),
                  (PyStr ''lease_id'', PyStr lid), (PyStr ''resource_id'', PyStr resource), (PyStr ''generation'', PyInt (le_generation l)),
                  (PyStr ''expires_at'', iso), (PyStr ''status'', PyStr ''expired'')];
                extra = PyDict [(PyStr ''operation'', PyStr ''expire''), (PyStr ''lease_id'', PyStr lid),
                  (PyStr ''resource_id'', PyStr resource), (PyStr ''generation'', PyInt (le_generation l)), (PyStr ''expires_at'', iso),
                  (PyStr ''original_command_id'', opt_str (le_command_id l)), (PyStr ''original_grant_ref'', PyStr (le_grant_ref l))] in
            rbind (admit_command env c None extra (core db)) (\<lambda>((prior, digest), _).
            if prior \<noteq> None then Inr (False, db)
            else if clk 1 < le_expires_at l then Inr (False, db)
            else rbind (admit_command env c (Some res) extra (core db)) (\<lambda>((_, _), core1).
            let db1 = db\<lparr>core := core1, leases := update_where (\<lambda>x. le_tenant_id x = tenant \<and> le_lease_id x = lid)
                   (\<lambda>x. x\<lparr>le_status := ''expired''\<rparr>) (leases db)\<rparr>;
                work_item = (case find (\<lambda>a. at_tenant_id a = tenant \<and> at_attempt_id a = le_owner_attempt_id l) (attempts db) of
                   None \<Rightarrow> resource | Some a \<Rightarrow> at_work_item_id a) in
            rbind (append_journal c (''lease-expiry-op-'' @ ident) ''lease.expired'' res digest work_item True (core db1)) (\<lambda>core2.
            Inr (True, db1\<lparr>core := core2\<rparr>))))))"

text \<open>
  \<open>expire_leases\<close>: the candidates are read once, then each is expired in a transaction of its
  own; an exception ends the loop and leaves the earlier transactions committed.
\<close>

definition expiry_candidates :: "lease_store \<Rightarrow> int \<Rightarrow> lease_db \<Rightarrow> (string \<times> string) list" where
  "expiry_candidates st now db =
     map (\<lambda>l. (le_lease_id l, le_resource_id l)) (sort_key le_resource_id (sort_key le_lease_id
       (filter (\<lambda>l. le_tenant_id l = ctx_tenant_id (ls_context st) \<and> le_authority_id l = ctx_authority_id (ls_context st) \<and>
          le_status l = ''granted'' \<and> le_expires_at l \<le> now) (leases db))))"

fun expire_loop ::
  "hash_env \<Rightarrow> lease_store \<Rightarrow> (nat \<Rightarrow> nat \<Rightarrow> int) \<Rightarrow> (string \<times> string) list \<Rightarrow> nat \<Rightarrow> lease_db \<Rightarrow> lease_db \<times> nat result" where
  "expire_loop env st clk [] n db = (db, Inr n)"
| "expire_loop env st clk ((lid, resource) # rest) n db =
     (case expire_locked env st (clk (length rest)) lid resource db of
        Inl e \<Rightarrow> (db, Inl e)
      | Inr (done', db') \<Rightarrow> expire_loop env st clk rest (n + (if done' then 1 else 0)) db')"

definition expire_leases where
  "expire_leases env st now clk db = expire_loop env st clk (expiry_candidates st now db) 0 db"

definition inspect_lease ::
  "lease_store \<Rightarrow> (nat \<Rightarrow> int) \<Rightarrow> fresh_ids \<Rightarrow> string \<Rightarrow> string option \<Rightarrow> lease_db \<Rightarrow> lease_row option result" where
  "inspect_lease st clk ids lid resource db =
     (case find (\<lambda>l. le_tenant_id l = ctx_tenant_id (ls_context st) \<and> le_lease_id l = lid) (leases db) of
        None \<Rightarrow> Inr None
      | Some x \<Rightarrow>
          if resource \<noteq> None \<and> resource \<noteq> Some (le_resource_id x) then Inr None
          else rbind (ls_authorize st (\<lambda>n. clk (1 + n)) (read_command st ids (clk 0) (le_resource_id x) ''lease.inspect'')
                 ''lease.inspect'' (Some (le_scope_id x)) db) (\<lambda>_.
          case lookup_lease st lid (le_resource_id x) db of
            None \<Rightarrow> Inr None
          | Some l \<Rightarrow>
              if le_grant_ref l \<noteq> ctx_grant_ref (ls_context st) \<or> le_authority_incarnation l \<noteq> ctx_authority_incarnation (ls_context st)
                 \<or> le_authority_id l \<noteq> ctx_authority_id (ls_context st)
              then Inl (FencingRejected (le_resource_id x)) else Inr (Some l)))"

section \<open>What each operation does to the lease table\<close>

lemma admit_command_core:
  assumes "admit_command env c res extra db = Inr ((p, h), db')"
  shows "h = canonical_hash env c (Some extra)"
  using assms unfolding admit_command_def by (auto simp: Let_def split: list.splits if_splits option.splits)

lemma insert_lease_Inr [simp]:
  "insert_lease l db = Inr db' \<longleftrightarrow> (\<forall>x \<in> set (leases db). le_lease_id x \<noteq> le_lease_id l) \<and> db' = db\<lparr>leases := leases db @ [l]\<rparr>"
  by (auto simp: insert_lease_def)

definition lease_key :: "lease_row \<Rightarrow> string \<times> string" where
  "lease_key l = (le_tenant_id l, le_resource_id l)"

text \<open>A row another operation left: the same lease, changed at most in its expiry and status, and only while granted.\<close>

definition evolves :: "lease_row \<Rightarrow> lease_row \<Rightarrow> bool" where
  "evolves l m \<longleftrightarrow> m = l \<or> le_status l = ''granted'' \<and> m = l\<lparr>le_expires_at := le_expires_at m, le_status := le_status m\<rparr>"

definition acquired :: "command \<Rightarrow> lease_request \<Rightarrow> int \<Rightarrow> int \<Rightarrow> lease_row \<Rightarrow> lease_db \<Rightarrow> bool" where
  "acquired c r now base new db \<longleftrightarrow>
     (\<forall>l \<in> set (active_leases (tenant_id c) (lr_resource_id r) db). le_expires_at l \<le> now) \<and>
     length (active_leases (tenant_id c) (lr_resource_id r) db) \<le> 1 \<and>
     (\<forall>l \<in> set (leases db). le_lease_id l \<noteq> le_lease_id new) \<and>
     lease_key new = (tenant_id c, lr_resource_id r) \<and> le_status new = ''granted'' \<and>
     le_generation new = max_generation (tenant_id c) (lr_resource_id r) db + 1 \<and>
     le_expires_at new = base + ttl_seconds r * 1000000"

definition close_expired :: "command \<Rightarrow> lease_request \<Rightarrow> lease_db \<Rightarrow> lease_row list" where
  "close_expired c r db = update_where
     (\<lambda>l. le_tenant_id l = tenant_id c \<and> le_lease_id l \<in> set (map le_lease_id (active_leases (tenant_id c) (lr_resource_id r) db)))
     (\<lambda>l. l\<lparr>le_status := ''expired''\<rparr>) (leases db)"

lemma close_expired_ids: "map le_lease_id (close_expired c r db) = map le_lease_id (leases db)"
  by (simp add: close_expired_def map_update_where)

lemma acquire_lease_Inr:
  assumes "acquire_lease env st clk ids c r db = Inr ((dup, v), db')"
  shows "dup \<and> db' = db \<or>
    (\<exists>new. \<not> dup \<and> acquired c r (clk 4) (clk 5) new db \<and> leases db' = close_expired c r db @ [new])"
proof (cases dup)
  case True
  with assms show ?thesis unfolding acquire_lease_def
    by (auto simp: Let_def split: option.splits if_splits)
next
  case False
  have as_map: "(\<forall>x \<in> set A. le_lease_id x \<noteq> i) \<longleftrightarrow> i \<notin> set (map le_lease_id A)" for A i
    by auto
  have ids: "(\<forall>x \<in> set (close_expired c r db). le_lease_id x \<noteq> i) \<longleftrightarrow> (\<forall>x \<in> set (leases db). le_lease_id x \<noteq> i)" for i
    by (simp only: as_map close_expired_ids)
  from assms False show ?thesis
    unfolding acquire_lease_def Let_def rbind_eq_Inr split_paired_Ex prod.case
    apply (elim exE conjE)
    apply (split option.split_asm)
    apply (split if_split_asm, simp)
    apply (split if_split_asm, simp)
    apply (unfold rbind_eq_Inr split_paired_Ex prod.case)
    apply (elim exE conjE)
    apply (split option.split_asm, simp)
    apply (split prod.split_asm)
    apply (split if_split_asm, simp)
    apply (split if_split_asm, simp)
    apply (split if_split_asm, simp)
    apply (unfold rbind_eq_Inr split_paired_Ex prod.case insert_lease_Inr sum.inject prod.inject close_expired_def [symmetric] lease_db.simps)
    apply (elim exE conjE)
    subgoal for _ _ _ _ _ _ _ _ _ _ _ h
      by (rule disjI2, rule exI [of _ "granted_row c r ids (max_generation (tenant_id c) (lr_resource_id r) db + 1) h
            (clk 5 + ttl_seconds r * 1000000)"])
        (auto simp: acquired_def granted_row_def lease_key_def ids not_less)
    by simp
qed

lemma verify_row_Inr:
  assumes "verify_row st clk ids lid resource generation token caller attempt runtime scope grant incarnation permission db = Inr (l, w)"
  shows "lookup_lease st lid resource db = Some l \<and> le_generation l = generation \<and> le_fencing_token l = token \<and>
    le_status l = ''granted'' \<and> clk 5 < le_expires_at l \<and> caller = ls_context st \<and>
    ls_authorize st (\<lambda>n. clk (1 + n)) (read_command st ids (clk 0) resource permission) permission scope db = Inr ()"
  using assms unfolding verify_row_def fence_row_ok_def
  by (auto split: if_splits sum.splits option.splits)

lemma lifecycle_Inr:
  assumes "lifecycle env st clk ids c lid resource generation token operation permission status ttl db = Inr ((dup, v), db')"
  shows "dup \<and> db' = db \<or>
    (\<exists>l. \<not> dup \<and> lookup_lease st lid resource db = Some l \<and> le_status l = ''granted'' \<and> clk 9 < le_expires_at l \<and>
       \<not> (generation \<noteq> None \<and> generation \<noteq> Some (le_generation l) \<or> token \<noteq> None \<and> token \<noteq> Some (le_fencing_token l)) \<and>
       \<not> (operation = ''renew'' \<and> invalid_ttl ttl) \<and>
       leases db' = update_where (\<lambda>x. le_tenant_id x = tenant_id c \<and> le_lease_id x = lid)
         (\<lambda>x. x\<lparr>le_expires_at := next_expiry (clk 10) operation ttl l, le_status := status\<rparr>) (leases db))"
proof (cases "lookup_lease st lid resource db")
  case None
  with assms show ?thesis unfolding lifecycle_def Let_def by (auto split: option.splits)
next
  case (Some l)
  have ver: "le_status l = ''granted'' \<and> clk 9 < le_expires_at l"
    if "verify_row st (\<lambda>n. clk (4 + n)) ids lid resource g t x a r s h i permission db = Inr (y, w)" for g t x a r s h i y w
    using verify_row_Inr [OF that] by (simp add: Some)
  have db': "leases db1 = X" if "db\<lparr>core := k, leases := X, core := k'\<rparr> = db1" for k k' X db1
    using that by (auto simp del: not_None_eq)
  from assms show ?thesis
    unfolding lifecycle_def Let_def rbind_eq_Inr split_paired_Ex prod.case Some option.case
    apply (elim exE conjE)
    apply (split option.split_asm)
    apply (split if_split_asm, simp)
    apply (split if_split_asm, simp)
    apply (unfold rbind_eq_Inr split_paired_Ex prod.case)
    apply (elim exE conjE)
    apply (split option.split_asm, simp)
    apply (split prod.split_asm)
    apply (split if_split_asm, simp)
    apply (unfold rbind_eq_Inr split_paired_Ex prod.case sum.inject prod.inject)
    apply (elim exE conjE)
    apply (drule ver, drule db')
    apply (rule disjI2, rule exI [of _ l], intro conjI refl; (assumption | blast))
    by simp
qed

lemma expire_locked_Inr:
  assumes "expire_locked env st clk lid resource db = Inr (b, db')"
  shows "\<not> b \<and> db' = db \<or>
    (\<exists>l. b \<and> lookup_lease st lid resource db = Some l \<and> le_status l = ''granted'' \<and> le_expires_at l \<le> clk 1 \<and>
       leases db' = update_where (\<lambda>x. le_tenant_id x = ctx_tenant_id (ls_context st) \<and> le_lease_id x = lid)
         (\<lambda>x. x\<lparr>le_status := ''expired''\<rparr>) (leases db))"
proof (cases "lookup_lease st lid resource db")
  case None
  with assms show ?thesis unfolding expire_locked_def by simp
next
  case (Some l)
  from assms show ?thesis
    unfolding expire_locked_def Let_def Some option.case
    apply (split if_split_asm, simp)
    apply (unfold rbind_eq_Inr split_paired_Ex prod.case)
    apply (elim exE conjE)
    apply (split if_split_asm, simp)
    apply (split if_split_asm, simp)
    apply (unfold rbind_eq_Inr split_paired_Ex prod.case sum.inject prod.inject)
    apply (elim exE conjE)
    by (rule disjI2, rule exI [of _ l]) (auto simp: not_less)
qed

section \<open>The lease invariant\<close>

definition lease_inv :: "lease_db \<Rightarrow> bool" where
  "lease_inv db \<longleftrightarrow>
     distinct (map le_lease_id (leases db)) \<and> (\<forall>l \<in> set (leases db). 0 < le_generation l) \<and>
     (\<forall>l \<in> set (leases db). \<forall>m \<in> set (leases db). lease_key l = lease_key m \<and> le_lease_id l \<noteq> le_lease_id m \<longrightarrow>
        le_generation l \<noteq> le_generation m \<and> (le_status l = ''granted'' \<longrightarrow> le_generation m < le_generation l))"

lemma lease_inv_unique:
  "lease_inv db \<Longrightarrow> l \<in> set (leases db) \<Longrightarrow> m \<in> set (leases db) \<Longrightarrow> le_lease_id l = le_lease_id m \<Longrightarrow> l = m"
  by (rule key_unique [where key = le_lease_id and xs = "leases db"]) (simp_all add: lease_inv_def)

lemma lease_inv_granted:
  "lease_inv db \<Longrightarrow> l \<in> set (leases db) \<Longrightarrow> m \<in> set (leases db) \<Longrightarrow> lease_key l = lease_key m \<Longrightarrow>
   le_lease_id l \<noteq> le_lease_id m \<Longrightarrow> le_status l = ''granted'' \<Longrightarrow> le_generation m < le_generation l"
  by (simp add: lease_inv_def)

definition status_update :: "(lease_row \<Rightarrow> lease_row) \<Rightarrow> bool" where
  "status_update f \<longleftrightarrow> (\<forall>x. f x = x\<lparr>le_expires_at := le_expires_at (f x), le_status := le_status (f x)\<rparr>)"

lemma status_update_fields:
  assumes "status_update f"
  shows "le_lease_id (f x) = le_lease_id x" "lease_key (f x) = lease_key x" "le_generation (f x) = le_generation x"
proof -
  have "f x = x\<lparr>le_expires_at := le_expires_at (f x), le_status := le_status (f x)\<rparr>"
    using assms by (simp add: status_update_def)
  then have "\<exists>a b. f x = x\<lparr>le_expires_at := a, le_status := b\<rparr>" by blast
  then show "le_lease_id (f x) = le_lease_id x" "lease_key (f x) = lease_key x" "le_generation (f x) = le_generation x"
    by (auto simp: lease_key_def)
qed

lemma status_update_rows [simp]:
  "status_update (\<lambda>x. x\<lparr>le_expires_at := e, le_status := st\<rparr>)" "status_update (\<lambda>x. x\<lparr>le_status := st\<rparr>)"
  by (simp_all add: status_update_def)

lemma update_rows:
  assumes "status_update f" "x \<in> set (update_where p f rows)"
  shows "\<exists>y \<in> set rows. le_lease_id x = le_lease_id y \<and> lease_key x = lease_key y \<and> le_generation x = le_generation y \<and>
    (if p y then x = f y else x = y)"
  using assms(2) status_update_fields [OF assms(1)] by (auto simp: set_update_where split: if_splits)

lemma update_inv:
  assumes inv: "lease_inv db" and f: "status_update f" and rows: "leases db' = update_where p f (leases db)"
    and st: "\<And>x. x \<in> set (leases db) \<Longrightarrow> p x \<Longrightarrow> le_status (f x) = ''granted'' \<Longrightarrow> le_status x = ''granted''"
  shows "lease_inv db'"
proof -
  have "map le_lease_id (leases db') = map le_lease_id (leases db)"
    using status_update_fields(1) [OF f] by (simp add: rows map_update_where)
  moreover have "le_generation l \<noteq> le_generation m \<and> (le_status l = ''granted'' \<longrightarrow> le_generation m < le_generation l)"
    if lm: "l \<in> set (leases db')" "m \<in> set (leases db')" "lease_key l = lease_key m" "le_lease_id l \<noteq> le_lease_id m" for l m
  proof -
    obtain l0 where l0: "l0 \<in> set (leases db)" "le_lease_id l = le_lease_id l0" "lease_key l = lease_key l0"
      "le_generation l = le_generation l0" "if p l0 then l = f l0 else l = l0"
      using update_rows [OF f lm(1) [unfolded rows]] by blast
    obtain m0 where m0: "m0 \<in> set (leases db)" "le_lease_id m = le_lease_id m0" "lease_key m = lease_key m0"
      "le_generation m = le_generation m0" using update_rows [OF f lm(2) [unfolded rows]] by blast
    have "le_status l = ''granted'' \<Longrightarrow> le_status l0 = ''granted''"
      using l0(5) st [OF l0(1)] by (cases "p l0") auto
    moreover have "le_generation l0 \<noteq> le_generation m0 \<and> (le_status l0 = ''granted'' \<longrightarrow> le_generation m0 < le_generation l0)"
      using inv l0 m0 lm(3,4) by (auto simp: lease_inv_def)
    ultimately show ?thesis using l0(4) m0(4) by auto
  qed
  moreover have "0 < le_generation l" if l: "l \<in> set (leases db')" for l
    using update_rows [OF f l [unfolded rows]] inv by (auto simp: lease_inv_def)
  ultimately show ?thesis using inv by (simp add: lease_inv_def)
qed

lemma max_generation_nonneg: "lease_inv db \<Longrightarrow> 0 \<le> max_generation tenant resource db"
proof (cases "filter (\<lambda>l. le_tenant_id l = tenant \<and> le_resource_id l = resource) (leases db)")
  case (Cons l ls)
  assume inv: "lease_inv db"
  have "l \<in> set (filter (\<lambda>l. le_tenant_id l = tenant \<and> le_resource_id l = resource) (leases db))" unfolding Cons by simp
  with inv have "0 < le_generation l" by (simp add: lease_inv_def)
  then have "0 < Max (set (map le_generation (l # ls)))" by (subst Max_gr_iff) auto
  then show ?thesis by (simp only: max_generation_def Let_def Cons) simp
qed (simp add: max_generation_def)

lemma max_generation_ge:
  "l \<in> set (leases db) \<Longrightarrow> lease_key l = (tenant, resource) \<Longrightarrow> le_generation l \<le> max_generation tenant resource db"
  by (auto simp: max_generation_def Let_def lease_key_def filter_empty_conv intro!: Max_ge)

lemma close_expired_rows:
  assumes "x \<in> set (close_expired c r db)" "distinct (map le_lease_id (leases db))"
  shows "\<exists>y \<in> set (leases db). le_lease_id x = le_lease_id y \<and> lease_key x = lease_key y \<and> le_generation x = le_generation y \<and>
    (le_status x = ''granted'' \<longrightarrow> le_status y = ''granted'') \<and>
    (lease_key y = (tenant_id c, lr_resource_id r) \<longrightarrow> le_status x \<noteq> ''granted'')"
proof -
  let ?p = "\<lambda>l. le_tenant_id l = tenant_id c \<and> le_lease_id l \<in> set (map le_lease_id (active_leases (tenant_id c) (lr_resource_id r) db))"
  let ?f = "\<lambda>l. l\<lparr>le_status := ''expired''\<rparr>"
  obtain y where y: "y \<in> set (leases db)" "le_lease_id x = le_lease_id y" "lease_key x = lease_key y"
    "le_generation x = le_generation y" "if ?p y then x = ?f y else x = y"
    using update_rows [of ?f x ?p "leases db"] assms(1) by (auto simp: close_expired_def)
  have "?p y" if "lease_key y = (tenant_id c, lr_resource_id r)" "le_status y = ''granted''"
    using that y(1) by (auto simp: lease_key_def active_leases_def)
  then show ?thesis using y by (auto split: if_splits)
qed

lemma acquired_inv:
  assumes inv: "lease_inv db" and new: "acquired c r now base new db" and rows: "leases db' = close_expired c r db @ [new]"
  shows "lease_inv db'"
proof -
  have dist: "distinct (map le_lease_id (leases db))" using inv by (simp add: lease_inv_def)
  have key: "lease_key new = (tenant_id c, lr_resource_id r)" using new by (simp add: acquired_def)
  have gen: "le_generation l < le_generation new" if "l \<in> set (leases db)" "lease_key l = lease_key new" for l
    using max_generation_ge [OF that(1), of "tenant_id c" "lr_resource_id r"] that key new by (simp add: acquired_def)
  have nid: "\<forall>l \<in> set (leases db). le_lease_id l \<noteq> le_lease_id new" using new by (simp add: acquired_def)
  have old: "le_generation l \<noteq> le_generation m \<and> (le_status l = ''granted'' \<longrightarrow> le_generation m < le_generation l)"
    if lm: "l \<in> set (close_expired c r db)" "m \<in> set (close_expired c r db)" "lease_key l = lease_key m"
      "le_lease_id l \<noteq> le_lease_id m" for l m
    using close_expired_rows [OF lm(1) dist] close_expired_rows [OF lm(2) dist] inv lm(3,4)
    unfolding lease_inv_def by (elim bexE) metis
  have mix: "le_generation l < le_generation new \<and> le_status l \<noteq> ''granted''"
    if "l \<in> set (close_expired c r db)" "lease_key l = lease_key new" for l
    using close_expired_rows [OF that(1) dist] gen that(2) key by metis
  have "le_generation l \<noteq> le_generation m \<and> (le_status l = ''granted'' \<longrightarrow> le_generation m < le_generation l)"
    if lm: "l \<in> set (leases db')" "m \<in> set (leases db')" "lease_key l = lease_key m" "le_lease_id l \<noteq> le_lease_id m" for l m
  proof -
    consider "l \<in> set (close_expired c r db)" "m \<in> set (close_expired c r db)"
      | "l = new" "m \<in> set (close_expired c r db)" | "l \<in> set (close_expired c r db)" "m = new"
      using lm by (auto simp: rows)
    then show ?thesis
    proof cases
      case 1
      then show ?thesis using old lm by blast
    next
      case 2
      then show ?thesis using mix [of m] lm(3) by auto
    next
      case 3
      then show ?thesis using mix [of l] lm(3) by auto
    qed
  qed
  moreover have "distinct (map le_lease_id (leases db'))"
    using dist nid by (auto simp: rows close_expired_ids image_iff dest: close_expired_rows [OF _ dist])
  moreover have "0 < le_generation l" if "l \<in> set (leases db')" for l
    using that close_expired_rows [OF _ dist, of l c r] inv new max_generation_nonneg [OF inv, of "tenant_id c" "lr_resource_id r"]
    by (auto simp: rows lease_inv_def acquired_def)
  ultimately show ?thesis by (simp add: lease_inv_def)
qed

text \<open>
  One step of the system: a lease operation through any store, or anything that leaves the lease
  table alone (every other component).
\<close>

inductive lease_step :: "hash_env \<Rightarrow> lease_db \<Rightarrow> lease_db \<Rightarrow> bool" for env where
  acquire: "acquire_lease env st clk ids c r db = Inr (x, db') \<Longrightarrow> lease_step env db db'"
| renew: "renew_lease env st clk ids c lid resource g t ttl db = Inr (x, db') \<Longrightarrow> lease_step env db db'"
| release: "release_lease env st clk ids c lid resource g t db = Inr (x, db') \<Longrightarrow> lease_step env db db'"
| revoke: "revoke_lease env st clk ids c lid resource g' t' db = Inr (x, db') \<Longrightarrow> lease_step env db db'"
| expire: "expire_locked env st clk lid resource db = Inr (b, db') \<Longrightarrow> lease_step env db db'"
| other: "leases db' = leases db \<Longrightarrow> lease_step env db db'"

inductive_cases lease_stepE: "lease_step env db db'"

text \<open>The three ways a step changes the table.\<close>

definition lease_effect :: "lease_db \<Rightarrow> lease_db \<Rightarrow> bool" where
  "lease_effect db db' \<longleftrightarrow>
     leases db' = leases db \<or>
     (\<exists>c r now base new. acquired c r now base new db \<and> leases db' = close_expired c r db @ [new]) \<or>
     (\<exists>t l f. l \<in> set (leases db) \<and> le_status l = ''granted'' \<and> status_update f \<and>
        leases db' = update_where (\<lambda>x. le_tenant_id x = t \<and> le_lease_id x = le_lease_id l) f (leases db))"

lemma lookup_lease_SomeD:
  "lookup_lease st lid resource db = Some l \<Longrightarrow> l \<in> set (leases db) \<and> le_lease_id l = lid \<and>
     lease_key l = (ctx_tenant_id (ls_context st), resource)"
  unfolding lookup_lease_def by (drule find_SomeD) (simp add: lease_key_def)

lemma effect_updateI:
  assumes "lookup_lease st lid resource db = Some l" "le_status l = ''granted''" "status_update f"
    and "leases db' = update_where (\<lambda>x. le_tenant_id x = t \<and> le_lease_id x = lid) f (leases db)"
  shows "lease_effect db db'"
proof -
  have "le_lease_id l = lid" "l \<in> set (leases db)" using lookup_lease_SomeD [OF assms(1)] by auto
  then show ?thesis unfolding lease_effect_def using assms(2-4) by blast
qed

lemma lifecycle_effect:
  assumes "lifecycle env st clk ids c lid resource g t operation permission status ttl db = Inr (x, db')"
  shows "lease_effect db db'"
proof -
  obtain dup v where x: "x = (dup, v)" by (cases x)
  from lifecycle_Inr [OF assms [unfolded x]] show ?thesis
  proof (elim disjE exE conjE)
    fix l
    assume l: "lookup_lease st lid resource db = Some l" "le_status l = ''granted''"
      and db': "leases db' = update_where (\<lambda>x. le_tenant_id x = tenant_id c \<and> le_lease_id x = lid)
         (\<lambda>x. x\<lparr>le_expires_at := next_expiry (clk 10) operation ttl l, le_status := status\<rparr>) (leases db)"
    show ?thesis by (rule effect_updateI [OF l status_update_rows(1) db'])
  qed (simp add: lease_effect_def)
qed

lemma step_effect:
  assumes "lease_step env db db'"
  shows "lease_effect db db'"
  using assms
proof cases
  case (acquire st clk ids c r x)
  obtain dup v where x: "x = (dup, v)" by (cases x)
  from acquire_lease_Inr [OF acquire [unfolded x]] show ?thesis unfolding lease_effect_def by blast
next
  case (expire st clk lid resource b)
  from expire_locked_Inr [OF expire] show ?thesis
  proof (elim disjE exE conjE)
    fix l
    assume l: "lookup_lease st lid resource db = Some l" "le_status l = ''granted''"
      and db': "leases db' = update_where (\<lambda>x. le_tenant_id x = ctx_tenant_id (ls_context st) \<and> le_lease_id x = lid)
         (\<lambda>x. x\<lparr>le_status := ''expired''\<rparr>) (leases db)"
    show ?thesis by (rule effect_updateI [OF l status_update_rows(2) db'])
  qed (simp add: lease_effect_def)
next
  case (renew st clk ids c lid resource g t ttl x)
  then show ?thesis unfolding renew_lease_def by (rule lifecycle_effect)
next
  case (release st clk ids c lid resource g t x)
  then show ?thesis unfolding release_lease_def by (rule lifecycle_effect)
next
  case (revoke st clk ids c lid resource g' t' x)
  then show ?thesis unfolding revoke_lease_def by (rule lifecycle_effect)
qed (simp add: lease_effect_def)

lemma effect_inv:
  assumes inv: "lease_inv db" and eff: "lease_effect db db'"
  shows "lease_inv db'"
  using eff unfolding lease_effect_def
proof (elim disjE exE conjE)
  assume "leases db' = leases db"
  with inv show ?thesis by (simp add: lease_inv_def)
next
  fix c r now base new
  assume "acquired c r now base new db" "leases db' = close_expired c r db @ [new]"
  with inv show ?thesis by (rule acquired_inv)
next
  fix t l f
  assume l: "l \<in> set (leases db)" "le_status l = ''granted''" and f: "status_update f"
    and rows: "leases db' = update_where (\<lambda>x. le_tenant_id x = t \<and> le_lease_id x = le_lease_id l) f (leases db)"
  have "distinct (map le_lease_id (leases db))" using inv by (simp add: lease_inv_def)
  then have "x = l" if "x \<in> set (leases db)" "le_lease_id x = le_lease_id l" for x
    using key_unique that l(1) by metis
  with l(2) show ?thesis by (intro update_inv [OF inv f rows]) auto
qed

text \<open>What a step keeps of every lease: a lease is never removed, and a closed lease never changes.\<close>

lemma effect_keeps:
  assumes inv: "lease_inv db" and eff: "lease_effect db db'" and l: "l \<in> set (leases db)"
  shows "\<exists>m \<in> set (leases db'). le_lease_id m = le_lease_id l \<and> lease_key m = lease_key l \<and>
    le_generation m = le_generation l \<and> (le_status l = ''granted'' \<or> m = l)"
  using eff unfolding lease_effect_def
proof (elim disjE exE conjE)
  fix c r now base new
  assume rows: "leases db' = close_expired c r db @ [new]"
  let ?p = "\<lambda>x. le_tenant_id x = tenant_id c \<and> le_lease_id x \<in> set (map le_lease_id (active_leases (tenant_id c) (lr_resource_id r) db))"
  have dist: "distinct (map le_lease_id (leases db))" using inv by (simp add: lease_inv_def)
  have "le_status l = ''granted''" if "?p l"
  proof -
    from that obtain a where "a \<in> set (leases db)" "le_status a = ''granted''" "le_lease_id a = le_lease_id l"
      by (auto simp: active_leases_def)
    with key_unique [OF dist this(1) l] show ?thesis by simp
  qed
  moreover have "(if ?p l then l\<lparr>le_status := ''expired''\<rparr> else l) \<in> set (leases db')" (is "?m \<in> _")
    using l unfolding rows set_append close_expired_def set_update_where by blast
  ultimately show ?thesis by (intro bexI [of _ ?m]) (simp_all add: lease_key_def)
next
  fix t g f
  assume g: "g \<in> set (leases db)" "le_status g = ''granted''" and f: "status_update f"
    and rows: "leases db' = update_where (\<lambda>x. le_tenant_id x = t \<and> le_lease_id x = le_lease_id g) f (leases db)"
  have dist: "distinct (map le_lease_id (leases db))" using inv by (simp add: lease_inv_def)
  let ?p = "\<lambda>x. le_tenant_id x = t \<and> le_lease_id x = le_lease_id g"
  have "le_status l = ''granted''" if "?p l" using key_unique [OF dist g(1) l] that g(2) by simp
  moreover have "(if ?p l then f l else l) \<in> set (leases db')" using l unfolding rows set_update_where by blast
  ultimately show ?thesis using status_update_fields [OF f, of l] by (cases "?p l") auto
qed (use l in auto)

lemma effect_max_generation:
  assumes inv: "lease_inv db" and eff: "lease_effect db db'"
  shows "max_generation tenant resource db \<le> max_generation tenant resource db'"
proof (cases "filter (\<lambda>l. le_tenant_id l = tenant \<and> le_resource_id l = resource) (leases db)")
  case Nil
  then show ?thesis using max_generation_nonneg [OF effect_inv [OF inv eff], of tenant resource]
    by (simp add: max_generation_def)
next
  case (Cons x xs)
  let ?gs = "map le_generation (filter (\<lambda>l. le_tenant_id l = tenant \<and> le_resource_id l = resource) (leases db))"
  have "max_generation tenant resource db = Max (set ?gs)" using Cons by (simp add: max_generation_def Let_def)
  moreover have "Max (set ?gs) \<in> set ?gs" using Cons by (intro Max_in) auto
  ultimately obtain l where l: "l \<in> set (leases db)" "lease_key l = (tenant, resource)" "le_generation l = max_generation tenant resource db"
    by (auto simp: lease_key_def)
  obtain m where "m \<in> set (leases db')" "lease_key m = (tenant, resource)" "le_generation m = max_generation tenant resource db"
    using effect_keeps [OF inv eff l(1)] l by auto
  then show ?thesis using max_generation_ge by metis
qed

interpretation ln: ranked_steps "lease_step env" lease_inv "max_generation tenant resource" for env tenant resource
  by unfold_locales (auto intro: effect_inv step_effect effect_max_generation)

section \<open>The command journal of leases\<close>

text \<open>A lease under a higher generation of its resource is never granted again.\<close>

lemma rows_kept:
  assumes "(lease_step env)\<^sup>*\<^sup>* db db'" "lease_inv db" "x \<in> set (leases db)"
  shows "\<exists>y \<in> set (leases db'). le_lease_id y = le_lease_id x \<and> lease_key y = lease_key x \<and> le_generation y = le_generation x"
  using assms
proof (induction rule: rtranclp_induct)
  case (step u v)
  then obtain y where y: "y \<in> set (leases u)" "le_lease_id y = le_lease_id x" "lease_key y = lease_key x"
    "le_generation y = le_generation x" by blast
  have "lease_inv u" using ln.inv_run step.hyps(1) assms(2) by blast
  from effect_keeps [OF this step_effect [OF step.hyps(2)] y(1)] y show ?case by auto
qed blast

lemma superseded_not_granted:
  assumes "lease_inv db" "l \<in> set (leases db)" "m \<in> set (leases db)" "lease_key m = lease_key l"
    and "le_generation l < le_generation m" and "(lease_step env)\<^sup>*\<^sup>* db db'"
  shows "\<not> (\<exists>x. lookup_lease st (le_lease_id l) resource db' = Some x \<and> le_status x = ''granted'' \<and> P x)"
proof
  assume "\<exists>x. lookup_lease st (le_lease_id l) resource db' = Some x \<and> le_status x = ''granted'' \<and> P x"
  then obtain x where x: "lookup_lease st (le_lease_id l) resource db' = Some x" "le_status x = ''granted''" by blast
  note x' = lookup_lease_SomeD [OF x(1)]
  have inv: "lease_inv db'" using ln.inv_run assms(1,6) by blast
  obtain l' where l': "l' \<in> set (leases db')" "le_lease_id l' = le_lease_id l" "lease_key l' = lease_key l"
    "le_generation l' = le_generation l" using rows_kept [OF assms(6,1,2)] by blast
  obtain m' where m': "m' \<in> set (leases db')" "lease_key m' = lease_key m" "le_generation m' = le_generation m"
    using rows_kept [OF assms(6,1,3)] by blast
  have xl: "x = l'" using lease_inv_unique [OF inv _ l'(1)] x' l'(2) by simp
  have "le_lease_id l' \<noteq> le_lease_id m'" using lease_inv_unique [OF inv l'(1) m'(1)] l'(4) m'(3) assms(5) by auto
  then have "le_generation m' < le_generation l'"
    using lease_inv_granted [OF inv l'(1) m'(1)] xl x(2) l'(3) m'(2) assms(4) by simp
  then show False using l'(4) m'(3) assms(5) by simp
qed

definition lease_admit ::
  "hash_env \<Rightarrow> command \<times> pyval \<Rightarrow> pyval \<Rightarrow> authority_db \<Rightarrow> (pyval option \<times> authority_db) result" where
  "lease_admit env cx v db = rbind (admit_command env (fst cx) (Some v) (snd cx) db) (\<lambda>((r, _), db'). Inr (r, db'))"

definition lease_dedup_row :: "hash_env \<Rightarrow> command \<times> pyval \<Rightarrow> pyval \<Rightarrow> dedup_row" where
  "lease_dedup_row env cx v = (current_row env (fst cx) (snd cx) undefined)\<lparr>dd_result_json := v\<rparr>"

definition lease_stored :: "hash_env \<Rightarrow> command \<times> pyval \<Rightarrow> pyval \<Rightarrow> authority_db \<Rightarrow> bool" where
  "lease_stored env cx v db \<longleftrightarrow> filter (dedup_matches (fst cx)) (command_dedup db) = [lease_dedup_row env cx v]"

definition lease_fits :: "command \<Rightarrow> pyval \<Rightarrow> bool" where
  "lease_fits c v \<longleftrightarrow> is_PyDict v \<and> json_member v ''command_id'' = Some (PyStr (command_id c)) \<and>
     json_member v ''resource_id'' = Some (PyStr (target_id c))"

lemma lease_row_matches: "dedup_matches d (lease_dedup_row env cx v) \<longleftrightarrow> same_identity (fst cx) d"
  by (auto simp: dedup_matches_def lease_dedup_row_def current_row_def same_identity_def)

lemma lease_admit_new:
  assumes "lease_admit env cx v db = Inr (None, db')"
  shows "filter (dedup_matches (fst cx)) (command_dedup db) = [] \<and>
    db' = db\<lparr>command_dedup := command_dedup db @ [lease_dedup_row env cx v]\<rparr>"
  using assms unfolding lease_admit_def admit_command_def lease_dedup_row_def current_row_def
  by (auto simp: Let_def split: list.splits if_splits)

lemma lease_admit_replay: "lease_admit env cx v db = Inr (Some x, db') \<Longrightarrow> db' = db"
  unfolding lease_admit_def admit_command_def by (auto simp: Let_def split: list.splits if_splits)

lemma lease_stored_member: "lease_stored env cx v db \<Longrightarrow> lease_dedup_row env cx v \<in> set (command_dedup db)"
  unfolding lease_stored_def by (metis list.set_intros(1) filter_is_subset subsetD)

interpretation lj: idempotent_journal "lease_admit env" "lease_stored env" "\<lambda>cx. lease_fits (fst cx)"
  "\<lambda>v. v" "\<lambda>cx dx :: command \<times> pyval. same_identity (fst cx) (fst dx)" for env
proof unfold_locales
  fix c :: "command \<times> pyval" and r s t
  assume "lease_admit env c r s = Inr (None, t)"
  then show "lease_stored env c r t"
    by (auto simp: lease_stored_def lease_row_matches same_identity_def dest!: lease_admit_new)
next
  fix c :: "command \<times> pyval" and r s x t
  assume "lease_admit env c r s = Inr (Some x, t)"
  then show "t = s" by (rule lease_admit_replay)
next
  fix c d :: "command \<times> pyval" and r s q y t
  assume st: "lease_stored env c r s" and ad: "lease_admit env d q s = Inr (y, t)"
  show "lease_stored env c r t"
  proof (cases y)
    case None
    note new = lease_admit_new [OF ad [unfolded None]]
    then have "\<not> same_identity (fst c) (fst d)"
      using lease_stored_member [OF st] by (auto simp: filter_empty_conv lease_row_matches)
    then have "\<not> dedup_matches (fst c) (lease_dedup_row env d q)"
      using lease_row_matches same_identity_sym by blast
    with st new show ?thesis by (simp add: lease_stored_def)
  next
    case (Some x)
    have "t = s" by (rule lease_admit_replay [OF ad [unfolded Some]])
    with st show ?thesis by simp
  qed
next
  fix c :: "command \<times> pyval" and r s q
  assume st: "lease_stored env c r s" and fit: "lease_fits (fst c) r"
  then show "lease_admit env c q s = Inr (Some r, s)"
    by (auto simp: lease_admit_def admit_command_def lease_stored_def lease_row_admits_def lease_dedup_row_def
        current_row_def lease_fits_def Let_def)
next
  fix c d :: "command \<times> pyval" and r s q t
  assume st: "lease_stored env c r s" and sh: "same_identity (fst c) (fst d)"
  have "dedup_matches (fst d) (lease_dedup_row env c r)" using sh by (simp add: lease_row_matches)
  then have "filter (dedup_matches (fst d)) (command_dedup s) \<noteq> []"
    using lease_stored_member [OF st] by (auto simp: filter_empty_conv)
  then show "lease_admit env d q s \<noteq> Inr (None, t)" using lease_admit_new by blast
qed

section \<open>Properties\<close>

definition slot_1 :: slot_row where
  "slot_1 = \<lparr>as_agent_slot_id = ''slot'', as_tenant_id = ''t'', as_scope_id = ''s'', as_status = ''active''\<rparr>"

definition store_1 :: lease_store where
  "store_1 = \<lparr>ls_context = ctx_1, ls_authorize = (\<lambda>clk c p sc db. Inr ()), ls_attempt_binding = (\<lambda>a db. Inr ())\<rparr>"

definition lease_db_1 :: lease_db where
  "lease_db_1 = \<lparr>core = auth_db_1\<lparr>agent_slots := [slot_1]\<rparr>, leases = [],
     attempts = [\<lparr>at_attempt_id = ''at'', at_tenant_id = ''t'', at_work_item_id = ''w'', at_agent_slot_id = ''slot'',
       at_status = ''running'', at_producer_ref = Some ''agent:p'', at_runtime_id = Some ''rt'', at_scope_id = Some ''s'',
       at_grant_ref = Some ''g'', at_authority_id = Some ''a'', at_authority_incarnation = Some ''1''\<rparr>],
     work_items = [\<lparr>wi_work_item_id = ''w'', wi_tenant_id = ''t'', wi_scope_id = ''s'', wi_agent_slot_id = ''slot'', wi_revision = 0\<rparr>]\<rparr>"

definition ids_1 :: fresh_ids where
  "ids_1 = \<lparr>fi_operation = ''1'', fi_lease = ''1'', fi_token = ''tok'', fi_read = ''1''\<rparr>"

definition acquire_1 :: command where
  "acquire_1 = command_1\<lparr>command_type := ''lease.acquire'', target_kind := ''lease'', target_id := ''file''\<rparr>"

definition request_1 :: lease_request where
  "request_1 = \<lparr>lr_resource_id = ''file'', owner_attempt_id = ''at'', owner_runtime_id = ''rt'', lr_grant_ref = ''g'',
     lr_authority_incarnation = ''1'', lr_scope_id = ''s'', mode = ''exclusive'', lr_work_item_id = None, ttl_seconds = 60\<rparr>"

definition lease_1 :: lease_row where
  "lease_1 = granted_row acquire_1 request_1 ids_1 1 (replicate 64 (CHR ''a'')) 60000005"

definition leased_db :: "authority_db \<Rightarrow> lease_db" where
  "leased_db k = lease_db_1\<lparr>leases := [lease_1], core := k\<rparr>"

lemma lease_db_1_inv: "lease_inv lease_db_1"
  by (simp add: lease_inv_def lease_db_1_def)

lemma lease_1_fields:
  "le_status lease_1 = ''granted''" "le_generation lease_1 = 1" "le_lease_id lease_1 = ''lease-1''"
  by (simp_all add: lease_1_def granted_row_def ids_1_def)

lemma lease_sample:
  "leases lease_db_1 = []" "command_dedup (core lease_db_1) = []" "operations (core lease_db_1) = []" "outbox (core lease_db_1) = []"
  "ls_authorize store_1 = (\<lambda>clk c p sc db. Inr ())" "hash_version acquire_1 = ''v2''" "expected_revision acquire_1 = 0"
  "command_type acquire_1 = ''lease.acquire''" "target_kind acquire_1 = ''lease''" "target_id acquire_1 = ''file''"
  "lr_resource_id request_1 = ''file''" "lr_grant_ref request_1 = grant_ref acquire_1" "mode request_1 = ''exclusive''"
  "lr_authority_incarnation request_1 = authority_incarnation acquire_1" "ttl_seconds request_1 = 60"
  by (simp_all add: lease_db_1_def auth_db_1_def empty_db_def store_1_def acquire_1_def command_1_def request_1_def)

lemma leased_db_acquired:
  "\<exists>v k. acquire_lease env_0 store_1 (\<lambda>n. int n) ids_1 acquire_1 request_1 lease_db_1 = Inr ((False, v), leased_db k)"
proof -
  have sha: "canonical_hash env_0 c x = replicate 64 (CHR ''a'')" for c x
    by (simp add: canonical_hash_def env_0_def)
  have owner: "owner_row store_1 request_1 lease_db_1 = Inr (Some (''w'', 0))" by code_simp
  show ?thesis
    by (simp add: acquire_lease_def bind_command_def Let_def admit_command_def sha owner append_journal_def insert_lease_def
        active_leases_def max_generation_def leased_db_def lease_1_def lease_sample) blast
qed

text \<open>
  C23. Mutual exclusion: whatever sequence of acquisitions, renewals, releases, revocations and
  expiries runs, through any stores, two granted leases on the same resource of a tenant are the
  same lease, and it is the lease with the highest generation of that resource.
\<close>

theorem lease_mutual_exclusion:
  assumes "lease_inv db" "(lease_step env)\<^sup>*\<^sup>* db db'"
    and "l \<in> set (leases db')" "m \<in> set (leases db')" "lease_key l = lease_key m" "le_status l = ''granted''"
  shows "(le_status m = ''granted'' \<longrightarrow> l = m) \<and> le_generation m \<le> le_generation l"
proof -
  have inv: "lease_inv db'" using ln.inv_run assms(1,2) by blast
  show ?thesis
  proof (cases "le_lease_id l = le_lease_id m")
    case True
    with lease_inv_unique [OF inv assms(3,4)] show ?thesis by simp
  next
    case False
    with lease_inv_granted [OF inv assms(3,4,5)] lease_inv_granted [OF inv assms(4,3)] assms(5,6)
    show ?thesis by force
  qed
qed

theorem lease_mutual_exclusion_witness:
  "\<exists>k. (lease_step env_0)\<^sup>*\<^sup>* lease_db_1 (leased_db k) \<and> le_status lease_1 = ''granted'' \<and>
     (\<forall>m \<in> set (leases (leased_db k)). lease_key lease_1 = lease_key m \<longrightarrow> le_generation m \<le> le_generation lease_1)"
proof -
  obtain v k where "acquire_lease env_0 store_1 (\<lambda>n. int n) ids_1 acquire_1 request_1 lease_db_1 = Inr ((False, v), leased_db k)"
    using leased_db_acquired by blast
  then have run: "(lease_step env_0)\<^sup>*\<^sup>* lease_db_1 (leased_db k)" by (blast intro: lease_step.acquire)
  have mem: "lease_1 \<in> set (leases (leased_db k))" by (simp add: leased_db_def)
  from lease_mutual_exclusion [OF lease_db_1_inv run mem _ _ lease_1_fields(1)] run lease_1_fields(1) show ?thesis by blast
qed

text \<open>
  C24. Fencing: once a resource has a lease of a higher generation, the earlier lease never
  passes \<open>verify_fence\<close> again, whatever happens afterwards and whatever generation and token
  are presented; and a fence that passes belongs to a lease that is granted and unexpired at
  the last clock reading, with the presented generation and token.
\<close>

theorem superseded_lease_fenced:
  assumes "lease_inv db" "l \<in> set (leases db)" "m \<in> set (leases db)" "lease_key m = lease_key l"
    and "le_generation l < le_generation m" and "(lease_step env)\<^sup>*\<^sup>* db db'"
  shows "verify_fence st clk ids (le_lease_id l) resource g t caller a r s h i p db' \<noteq> Inr () \<and>
    (verify_fence st clk ids lid resource g t caller a r s h i p db' = Inr () \<longrightarrow>
       (\<exists>x. lookup_lease st lid resource db' = Some x \<and> le_status x = ''granted'' \<and> clk 5 < le_expires_at x \<and>
          le_generation x = g \<and> le_fencing_token x = t))"
proof -
  have fence: "\<exists>x. lookup_lease st lid resource db' = Some x \<and> le_status x = ''granted'' \<and> clk 5 < le_expires_at x \<and>
      le_generation x = g \<and> le_fencing_token x = t"
    if "verify_fence st clk ids lid resource g t caller a r s h i p db' = Inr ()" for lid
    using that unfolding verify_fence_def by (auto split: if_splits dest!: verify_row_Inr)
  with superseded_not_granted [OF assms] show ?thesis by blast
qed

theorem superseded_lease_fenced_witness:
  "\<exists>db l. lease_inv db \<and> l \<in> set (leases db) \<and>
     verify_fence store_1 (\<lambda>n. int n) ids_1 (le_lease_id l) ''file'' 1 ''tok'' None (Some ''at'') (Some ''rt'') (Some ''s'')
       (Some ''g'') (Some ''1'') ''effect.write'' db \<noteq> Inr ()"
proof -
  let ?l = "lease_1\<lparr>le_status := ''expired''\<rparr>"
  let ?m = "lease_1\<lparr>le_lease_id := ''lease-2'', le_generation := 2\<rparr>"
  let ?db = "lease_db_1\<lparr>leases := [?l, ?m]\<rparr>"
  have inv: "lease_inv ?db" by (simp add: lease_inv_def lease_1_fields lease_key_def)
  have mem: "?l \<in> set (leases ?db)" "?m \<in> set (leases ?db)" "lease_key ?m = lease_key ?l" by (simp_all add: lease_key_def)
  have gen: "le_generation ?l < le_generation ?m" by (simp add: lease_1_fields)
  have run: "(lease_step env_0)\<^sup>*\<^sup>* ?db ?db" by simp
  have "verify_fence store_1 (\<lambda>n. int n) ids_1 (le_lease_id ?l) ''file'' 1 ''tok'' None (Some ''at'') (Some ''rt'') (Some ''s'')
       (Some ''g'') (Some ''1'') ''effect.write'' ?db \<noteq> Inr ()"
    using superseded_lease_fenced [OF inv mem gen run] by blast
  with inv mem(1) show ?thesis by blast
qed

lemma close_expired_map:
  assumes "distinct (map le_lease_id (leases db))"
  shows "close_expired c r db =
    map (\<lambda>l. if lease_key l = (tenant_id c, lr_resource_id r) \<and> le_status l = ''granted'' then l\<lparr>le_status := ''expired''\<rparr> else l) (leases db)"
proof -
  have "le_tenant_id l = tenant_id c \<and> le_lease_id l \<in> set (map le_lease_id (active_leases (tenant_id c) (lr_resource_id r) db)) \<longleftrightarrow>
      lease_key l = (tenant_id c, lr_resource_id r) \<and> le_status l = ''granted''" if "l \<in> set (leases db)" for l
    using that assms by (auto simp: active_leases_def lease_key_def distinct_map inj_on_def)
  then show ?thesis unfolding close_expired_def update_where_def by (intro map_cong refl) simp
qed

text \<open>
  C34. A new lease is granted only over expired ones: when \<open>acquire_lease\<close> grants a lease (and
  does not replay a result), every lease that was granted on the resource had expired at the
  clock reading of the test. The table afterwards is the old one with exactly those leases closed as \<open>expired\<close>
  and the new lease added, under an identifier not used before; its generation is strictly higher than that of every earlier lease of the resource, and
  it expires the requested number of seconds after a clock reading of this call.
\<close>

theorem acquire_only_over_expired:
  assumes "lease_inv db" "acquire_lease env st clk ids c r db = Inr ((False, v), db')"
  shows "\<exists>new. leases db' = map (\<lambda>l. if lease_key l = (tenant_id c, lr_resource_id r) \<and> le_status l = ''granted''
        then l\<lparr>le_status := ''expired''\<rparr> else l) (leases db) @ [new] \<and>
    le_status new = ''granted'' \<and> lease_key new = (tenant_id c, lr_resource_id r) \<and> le_expires_at new = clk 5 + ttl_seconds r * 1000000 \<and>
    (\<forall>l \<in> set (leases db). le_lease_id l \<noteq> le_lease_id new \<and> (lease_key l = lease_key new \<longrightarrow>
       le_generation l < le_generation new \<and> (le_status l = ''granted'' \<longrightarrow> le_expires_at l \<le> clk 4)))"
proof -
  obtain new where new: "acquired c r (clk 4) (clk 5) new db" and rows: "leases db' = close_expired c r db @ [new]"
    using acquire_lease_Inr [OF assms(2)] by blast
  have dist: "distinct (map le_lease_id (leases db))" using assms(1) by (simp add: lease_inv_def)
  have "le_generation l < le_generation new \<and> (le_status l = ''granted'' \<longrightarrow> le_expires_at l \<le> clk 4)"
    if "l \<in> set (leases db)" "lease_key l = lease_key new" for l
    using max_generation_ge [OF that(1), of "tenant_id c" "lr_resource_id r"] that new
    by (auto simp: acquired_def active_leases_def lease_key_def)
  then show ?thesis using rows new unfolding close_expired_map [OF dist] acquired_def by blast
qed

theorem acquire_only_over_expired_witness:
  "\<exists>k new. leases (leased_db k) = [new] \<and> le_status new = ''granted'' \<and> le_expires_at new = 60000005"
proof -
  obtain v k where ok: "acquire_lease env_0 store_1 (\<lambda>n. int n) ids_1 acquire_1 request_1 lease_db_1 = Inr ((False, v), leased_db k)"
    using leased_db_acquired by blast
  from acquire_only_over_expired [OF lease_db_1_inv ok] show ?thesis
    by (auto simp: lease_db_1_def request_1_def)
qed

text \<open>
  A closed lease is final: once a lease is released, revoked or expired, no sequence of
  operations changes its row; and a renewal of it that does not raise only replays an earlier
  result and changes nothing.
\<close>

theorem closed_lease_final:
  assumes "lease_inv db" "l \<in> set (leases db)" "le_status l \<noteq> ''granted''" "(lease_step env)\<^sup>*\<^sup>* db db'"
  shows "l \<in> set (leases db') \<and>
    (renew_lease env st clk ids c (le_lease_id l) (le_resource_id l) g t ttl db' = Inr ((dup, v), db'') \<longrightarrow> dup \<and> db'' = db')"
proof -
  have inv: "lease_inv db'" using ln.inv_run assms(1,4) by blast
  have mem: "l \<in> set (leases db')" using assms(4,1,2)
  proof (induction rule: rtranclp_induct)
    case (step u v)
    have "lease_inv u" using ln.inv_run step.hyps(1) assms(1) by blast
    from effect_keeps [OF this step_effect [OF step.hyps(2)], of l] step assms(3) show ?case by auto
  qed
  moreover have "dup \<and> db'' = db'"
    if "renew_lease env st clk ids c (le_lease_id l) (le_resource_id l) g t ttl db' = Inr ((dup, v), db'')"
  proof -
    have "x = l" if "lookup_lease st (le_lease_id l) (le_resource_id l) db' = Some x" for x
      using lookup_lease_SomeD [OF that] lease_inv_unique [OF inv _ mem] by blast
    then show ?thesis
      using lifecycle_Inr [OF that [unfolded renew_lease_def]] assms(3) by blast
  qed
  ultimately show ?thesis by blast
qed

theorem closed_lease_final_witness:
  "\<exists>db l. l \<in> set (leases db) \<and> le_status l = ''released'' \<and> (\<forall>db'. (lease_step env_0)\<^sup>*\<^sup>* db db' \<longrightarrow> l \<in> set (leases db'))"
proof -
  let ?l = "lease_1\<lparr>le_status := ''released''\<rparr>"
  let ?db = "lease_db_1\<lparr>leases := [?l]\<rparr>"
  have inv: "lease_inv ?db" by (simp add: lease_inv_def lease_1_fields)
  have mem: "?l \<in> set (leases ?db)" "le_status ?l \<noteq> ''granted''" "le_status ?l = ''released''" by simp_all
  then show ?thesis using closed_lease_final [OF inv mem(1,2)] by blast
qed

end
