(* ===== verification/Effect_Gateway.thy ===== *)
theory Effect_Gateway
  imports Lease_Authority
begin

text \<open>
  \<open>src/runtime/effects.py\<close>: \<open>LocalFileEffectGateway\<close>, which writes protected files under a
  held lease fence and keeps a write-ahead journal of every operation below its root.

  The disk is a record of what the gateway makes visible by a single \<open>link\<close> or \<open>rename\<close>:
  the files of the \<open>operations\<close> directory by the key of their operation (\<open>.payload\<close>,
  \<open>.intent\<close>, \<open>.completed\<close>, \<open>.execution-...\<close>), the pointer of each resource in \<open>current\<close>,
  \<open>config.json\<close>, and the target files by their registered path. Metadata files hold the
  value that \<open>_record\<close> sealed and that \<open>_load\<close> returns; \<open>_persist\<close> writes a temporary file
  under a random name first, which nothing reads. Directory descriptors, \<open>flock\<close> and
  \<open>fsync\<close> have no counterpart: one call of the gateway runs under the exclusive lock and is
  one function here.

  An operation may be cut at any moment. \<open>io n\<close> says what happens at the \<open>n\<close>-th
  \<open>_persist\<close> of a call: \<open>Pass\<close>, or an exception (an \<open>OSError\<close>, a crash of the process)
  \<open>Before\<close> or \<open>After\<close> the name becomes visible. A call therefore returns its result
  together with the disk it leaves behind, also when it raises. \<open>sha\<close> is
  \<open>hashlib.sha256(data).hexdigest()\<close> on bytes; bytes are lists of characters.
\<close>

section \<open>Constants, names and paths\<close>

definition MARKER_DIR :: string where "MARKER_DIR = ''.acs-effect-markers''"
definition EFFECT_SCHEMA :: string where "EFFECT_SCHEMA = ''acs-file-effect/2''"
definition META_LIMIT :: int where "META_LIMIT = 1048576"

definition control_free :: "string \<Rightarrow> bool" where
  "control_free s = (\<forall>c \<in> set s. 32 \<le> (of_char c :: nat))"

definition effect_identity :: "string option \<Rightarrow> unit result" where
  "effect_identity value =
     (case value of None \<Rightarrow> Inl (ValueError ''identity must be a bounded nonempty string'')
      | Some s \<Rightarrow> guard (1 \<le> length s \<and> length s \<le> 256 \<and> control_free s)
          (ValueError ''identity must be a bounded nonempty string''))"

definition relative_resource :: "string \<Rightarrow> string result" where
  "relative_resource raw =
     (if raw = [] \<or> CHR 0x5C \<in> set raw \<or> CHR '':'' \<in> set raw \<or> \<not> control_free raw \<or>
         (\<exists>part \<in> set (split_on CHR ''/'' raw). part \<in> {[], ''.'', ''..'', MARKER_DIR})
      then Inl (ValueError ''resource path must be relative and outside gateway metadata'')
      else Inr raw)"

text \<open>\<open>str.encode()\<close> on characters below 256.\<close>

definition utf8 :: "string \<Rightarrow> string" where
  "utf8 s = concat (map (\<lambda>c. let n = of_char c :: nat in
     if n < 128 then [c] else [char_of (192 + n div 64), char_of (128 + n mod 64)]) s)"

section \<open>Journal records\<close>

record file_state =
  fs_exists :: bool
  fs_sha256 :: "string option"
  fs_bytes :: int

definition state_of :: "(string \<Rightarrow> string) \<Rightarrow> string option \<Rightarrow> file_state" where
  "state_of sha content =
     (case content of
        None \<Rightarrow> \<lparr>fs_exists = False, fs_sha256 = None, fs_bytes = 0\<rparr>
      | Some data \<Rightarrow> \<lparr>fs_exists = True, fs_sha256 = Some (sha data), fs_bytes = int (length data)\<rparr>)"

record effect_owner =
  eo_caller :: "authenticated_context option"
  eo_attempt_id :: "string option"
  eo_runtime_id :: "string option"
  eo_scope_id :: "string option"
  eo_grant_ref :: "string option"
  eo_authority_incarnation :: "string option"

record owner_binding =
  ow_attempt_id :: "string option"
  ow_runtime_id :: "string option"
  ow_scope_id :: "string option"
  ow_grant_ref :: "string option"
  ow_authority_incarnation :: "string option"

definition binding_of :: "effect_owner \<Rightarrow> owner_binding" where
  "binding_of o1 = \<lparr>ow_attempt_id = eo_attempt_id o1, ow_runtime_id = eo_runtime_id o1, ow_scope_id = eo_scope_id o1,
     ow_grant_ref = eo_grant_ref o1, ow_authority_incarnation = eo_authority_incarnation o1\<rparr>"

record pointer =
  pt_operation_id :: string
  pt_state :: string

abbreviation prepared_pointer :: "string \<Rightarrow> pointer" where
  "prepared_pointer op \<equiv> \<lparr>pt_operation_id = op, pt_state = ''prepared''\<rparr>"

abbreviation completed_pointer :: "string \<Rightarrow> pointer" where
  "completed_pointer op \<equiv> \<lparr>pt_operation_id = op, pt_state = ''completed''\<rparr>"

record effect_key =
  ek_schema :: string
  ek_operation_id :: string
  ek_lease_id :: string
  ek_resource_id :: string
  ek_generation :: int
  ek_fencing_token :: string
  ek_relative_path :: string
  ek_scope_id :: string
  ek_owner :: owner_binding
  ek_principal_ref :: string
  ek_tenant_id :: string
  ek_authority_id :: string
  ek_work_item_id :: string
  ek_new :: file_state

record intent =
  it_key :: effect_key
  it_old :: file_state
  it_previous :: "pointer option"

record executor =
  ex_lease_id :: string
  ex_generation :: int
  ex_fencing_token :: string
  ex_owner :: owner_binding
  ex_principal_ref :: string
  ex_tenant_id :: string
  ex_authority_id :: string
  ex_work_item_id :: string

record execution =
  xn_intent_sha256 :: string
  xn_executor :: executor

record effect_result =
  ew_status :: string
  ew_observation :: string
  ew_operation_id :: string
  ew_resource_id :: string
  ew_readback_ref :: string
  ew_sha256 :: "string option"
  ew_bytes :: int
  ew_marker_ref :: string

record completion =
  cp_intent_sha256 :: string
  cp_result :: effect_result
  cp_completed_by :: executor
  cp_completion_basis :: string

subsection \<open>The JSON that is hashed and measured\<close>

definition file_state_dump :: "file_state \<Rightarrow> pyval" where
  "file_state_dump s = PyDict [(PyStr ''exists'', PyBool (fs_exists s)), (PyStr ''sha256'', opt_str (fs_sha256 s)),
     (PyStr ''bytes'', PyInt (fs_bytes s))]"

definition owner_dump :: "owner_binding \<Rightarrow> pyval" where
  "owner_dump b = PyDict [(PyStr ''attempt_id'', opt_str (ow_attempt_id b)), (PyStr ''runtime_id'', opt_str (ow_runtime_id b)),
     (PyStr ''scope_id'', opt_str (ow_scope_id b)), (PyStr ''grant_ref'', opt_str (ow_grant_ref b)),
     (PyStr ''authority_incarnation'', opt_str (ow_authority_incarnation b))]"

definition pointer_dump :: "pointer \<Rightarrow> pyval" where
  "pointer_dump p = PyDict [(PyStr ''operation_id'', PyStr (pt_operation_id p)), (PyStr ''state'', PyStr (pt_state p))]"

definition intent_dump :: "intent \<Rightarrow> pyval" where
  "intent_dump i = (let k = it_key i in PyDict
     [(PyStr ''schema'', PyStr (ek_schema k)), (PyStr ''operation_id'', PyStr (ek_operation_id k)),
      (PyStr ''lease_id'', PyStr (ek_lease_id k)), (PyStr ''resource_id'', PyStr (ek_resource_id k)),
      (PyStr ''generation'', PyInt (ek_generation k)), (PyStr ''fencing_token'', PyStr (ek_fencing_token k)),
      (PyStr ''relative_path'', PyStr (ek_relative_path k)), (PyStr ''scope_id'', PyStr (ek_scope_id k)),
      (PyStr ''owner'', owner_dump (ek_owner k)), (PyStr ''principal_ref'', PyStr (ek_principal_ref k)),
      (PyStr ''tenant_id'', PyStr (ek_tenant_id k)), (PyStr ''authority_id'', PyStr (ek_authority_id k)),
      (PyStr ''work_item_id'', PyStr (ek_work_item_id k)), (PyStr ''new'', file_state_dump (ek_new k)),
      (PyStr ''old'', file_state_dump (it_old i)),
      (PyStr ''previous'', case it_previous i of None \<Rightarrow> PyNone | Some p \<Rightarrow> pointer_dump p)])"

definition executor_dump :: "executor \<Rightarrow> pyval" where
  "executor_dump x = PyDict
     [(PyStr ''lease_id'', PyStr (ex_lease_id x)), (PyStr ''generation'', PyInt (ex_generation x)),
      (PyStr ''fencing_token'', PyStr (ex_fencing_token x)), (PyStr ''owner'', owner_dump (ex_owner x)),
      (PyStr ''principal_ref'', PyStr (ex_principal_ref x)), (PyStr ''tenant_id'', PyStr (ex_tenant_id x)),
      (PyStr ''authority_id'', PyStr (ex_authority_id x)), (PyStr ''work_item_id'', PyStr (ex_work_item_id x))]"

definition execution_dump :: "execution \<Rightarrow> pyval" where
  "execution_dump x = PyDict [(PyStr ''intent_sha256'', PyStr (xn_intent_sha256 x)), (PyStr ''executor'', executor_dump (xn_executor x))]"

definition result_dump :: "effect_result \<Rightarrow> pyval" where
  "result_dump r = PyDict
     [(PyStr ''status'', PyStr (ew_status r)), (PyStr ''observation'', PyStr (ew_observation r)),
      (PyStr ''operation_id'', PyStr (ew_operation_id r)), (PyStr ''resource_id'', PyStr (ew_resource_id r)),
      (PyStr ''readback_ref'', PyStr (ew_readback_ref r)), (PyStr ''sha256'', opt_str (ew_sha256 r)),
      (PyStr ''bytes'', PyInt (ew_bytes r)), (PyStr ''marker_ref'', PyStr (ew_marker_ref r))]"

definition completion_dump :: "completion \<Rightarrow> pyval" where
  "completion_dump c = PyDict
     [(PyStr ''intent_sha256'', PyStr (cp_intent_sha256 c)), (PyStr ''result'', result_dump (cp_result c)),
      (PyStr ''completed_by'', executor_dump (cp_completed_by c)), (PyStr ''completion_basis'', PyStr (cp_completion_basis c))]"

definition body_digest :: "(string \<Rightarrow> string) \<Rightarrow> pyval \<Rightarrow> string" where
  "body_digest sha body = sha (canonical_json True body)"

definition sealed :: "(string \<Rightarrow> string) \<Rightarrow> pyval \<Rightarrow> string" where
  "sealed sha body = canonical_json True (PyDict [(PyStr ''body'', body), (PyStr ''sha256'', PyStr (body_digest sha body))])"

section \<open>The gateway and its disk\<close>

record gateway =
  gw_scope_id :: string
  gw_resources :: "(string \<times> string) list"
  gw_max_bytes :: int
  gw_open :: bool

record gateway_disk =
  dk_config :: "string option"
  dk_entries :: "string list"
  dk_payloads :: "string \<Rightarrow> string option"
  dk_intents :: "string \<Rightarrow> intent option"
  dk_completed :: "string \<Rightarrow> completion option"
  dk_executions :: "string \<times> string \<Rightarrow> execution option"
  dk_current :: "string \<Rightarrow> pointer option"
  dk_directories :: "string list"
  dk_targets :: "string \<Rightarrow> string option"

type_synonym 'a io = "gateway_disk \<Rightarrow> 'a result \<times> gateway_disk"

datatype fault = Pass | Before exn | After exn

definition io_return :: "'a result \<Rightarrow> 'a io" where
  "io_return r d = (r, d)"

definition io_bind :: "'a io \<Rightarrow> ('a \<Rightarrow> 'b io) \<Rightarrow> 'b io" where
  "io_bind m f d = (case m d of (Inl e, d1) \<Rightarrow> (Inl e, d1) | (Inr x, d1) \<Rightarrow> f x d1)"

text \<open>
  \<open>_persist\<close>: the temporary file is written, the fence is checked, and the name becomes
  visible in one step, which \<open>change\<close> computes (it raises when an immutable name exists with
  other bytes).
\<close>

definition persist :: "(nat \<Rightarrow> unit result) \<Rightarrow> (nat \<Rightarrow> fault) \<Rightarrow> nat \<Rightarrow> (gateway_disk \<Rightarrow> gateway_disk result) \<Rightarrow> unit io" where
  "persist check io n change d =
     (case io n of
        Before e \<Rightarrow> (Inl e, d)
      | f \<Rightarrow>
        (case check n of
           Inl e \<Rightarrow> (Inl e, d)
         | Inr _ \<Rightarrow>
           (case change d of
              Inl e \<Rightarrow> (Inl e, d)
            | Inr d1 \<Rightarrow> (case f of After e \<Rightarrow> (Inl e, d1) | _ \<Rightarrow> (Inr (), d1)))))"

text \<open>
  The immutable case: an existing name is read with the length of the new data as its limit,
  so a longer file is refused as too large and any other difference as a conflict.
\<close>

definition immutable :: "string option \<Rightarrow> string \<Rightarrow> gateway_disk \<Rightarrow> gateway_disk \<Rightarrow> gateway_disk result" where
  "immutable existing data created d =
     (case existing of
        None \<Rightarrow> Inr created
      | Some old \<Rightarrow>
          if length old > length data then Inl (ValueError ''file is not regular or exceeds size limit'')
          else if old \<noteq> data then Inl (ValueError ''immutable operation intent/configuration conflicts'')
          else Inr d)"

text \<open>\<open>_record\<close>: sealed metadata of bounded size.\<close>

definition record_body ::
  "(string \<Rightarrow> string) \<Rightarrow> (nat \<Rightarrow> unit result) \<Rightarrow> (nat \<Rightarrow> fault) \<Rightarrow> nat \<Rightarrow> pyval \<Rightarrow> (gateway_disk \<Rightarrow> gateway_disk result) \<Rightarrow> unit io" where
  "record_body sha check io n body change d =
     (if META_LIMIT < int (length (sealed sha body)) then (Inl (ValueError ''metadata size exceeds limit''), d)
      else persist check io n change d)"

definition install_payload :: "string \<Rightarrow> string \<Rightarrow> gateway_disk \<Rightarrow> gateway_disk result" where
  "install_payload key data d =
     immutable (dk_payloads d key) data (d\<lparr>dk_payloads := (dk_payloads d)(key \<mapsto> data)\<rparr>) d"

definition install_intent :: "(string \<Rightarrow> string) \<Rightarrow> string \<Rightarrow> intent \<Rightarrow> gateway_disk \<Rightarrow> gateway_disk result" where
  "install_intent sha key i d =
     immutable (map_option (\<lambda>x. sealed sha (intent_dump x)) (dk_intents d key)) (sealed sha (intent_dump i))
       (d\<lparr>dk_intents := (dk_intents d)(key \<mapsto> i)\<rparr>) d"

definition install_execution :: "(string \<Rightarrow> string) \<Rightarrow> string \<Rightarrow> string \<Rightarrow> execution \<Rightarrow> gateway_disk \<Rightarrow> gateway_disk result" where
  "install_execution sha key xkey x d =
     immutable (map_option (\<lambda>y. sealed sha (execution_dump y)) (dk_executions d (key, xkey))) (sealed sha (execution_dump x))
       (d\<lparr>dk_executions := (dk_executions d)((key, xkey) \<mapsto> x)\<rparr>) d"

definition install_completion :: "(string \<Rightarrow> string) \<Rightarrow> string \<Rightarrow> completion \<Rightarrow> gateway_disk \<Rightarrow> gateway_disk result" where
  "install_completion sha key c d =
     immutable (map_option (\<lambda>y. sealed sha (completion_dump y)) (dk_completed d key)) (sealed sha (completion_dump c))
       (d\<lparr>dk_completed := (dk_completed d)(key \<mapsto> c)\<rparr>) d"

definition replace_pointer :: "string \<Rightarrow> pointer \<Rightarrow> gateway_disk \<Rightarrow> gateway_disk result" where
  "replace_pointer rkey p d = Inr (d\<lparr>dk_current := (dk_current d)(rkey \<mapsto> p)\<rparr>)"

definition replace_target :: "string \<Rightarrow> string \<Rightarrow> gateway_disk \<Rightarrow> gateway_disk result" where
  "replace_target path data d = Inr (d\<lparr>dk_targets := (dk_targets d)(path \<mapsto> data)\<rparr>)"

subsection \<open>Opening\<close>

fun register_resources :: "(string \<times> string) list \<Rightarrow> (string \<times> string) list \<Rightarrow> (string \<times> string) list result" where
  "register_resources [] known = Inr known"
| "register_resources ((resource, path) # rest) known =
     rbind (effect_identity (Some resource)) (\<lambda>_.
     rbind (relative_resource path) (\<lambda>relative.
     if relative \<in> snd ` set known then Inl (ValueError ''multiple resources cannot share a path'')
     else register_resources rest (known @ [(resource, relative)])))"

definition config_bytes :: "string \<Rightarrow> (string \<times> string) list \<Rightarrow> int \<Rightarrow> string" where
  "config_bytes scope resources max_bytes = canonical_json True (PyDict
     [(PyStr ''schema'', PyStr EFFECT_SCHEMA), (PyStr ''scope_id'', PyStr scope),
      (PyStr ''resources'', PyDict (map (\<lambda>(r, p). (PyStr r, PyStr p)) resources)), (PyStr ''max_bytes'', PyInt max_bytes)])"

definition open_gateway ::
  "(nat \<Rightarrow> fault) \<Rightarrow> string \<Rightarrow> string \<Rightarrow> (string \<times> string) list \<Rightarrow> int \<Rightarrow> gateway io" where
  "open_gateway io scope operator_trust resource_paths max_bytes d =
     (if scope = [] \<or> length scope > 256 then (Inl (ValueError ''scope_id is required and bounded''), d)
      else if operator_trust = [] \<or> max_bytes \<le> 0
      then (Inl (ValueError ''operator_trust and positive integer max_bytes are required''), d)
      else case register_resources resource_paths [] of
        Inl e \<Rightarrow> (Inl e, d)
      | Inr resources \<Rightarrow>
          if dk_entries d \<noteq> [] \<and> dk_config d = None
          then (Inl (ValueError ''existing unbound marker history requires explicit migration''), d)
          else
            let data = config_bytes scope resources max_bytes in
            io_bind (persist (\<lambda>_. Inr ()) io 0 (\<lambda>d. immutable (dk_config d) data (d\<lparr>dk_config := Some data\<rparr>) d)) (\<lambda>_ d1.
              (Inr \<lparr>gw_scope_id = scope, gw_resources = resources, gw_max_bytes = max_bytes, gw_open = True\<rparr>,
               d1\<lparr>dk_entries := remdups (dk_entries d1 @ [''operations'', ''current''])\<rparr>)) d)"

definition close_gateway :: "gateway \<Rightarrow> gateway" where
  "close_gateway gw = gw\<lparr>gw_open := False\<rparr>"

definition exclusive :: "gateway \<Rightarrow> unit result" where
  "exclusive gw = guard (gw_open gw) (EffectUnavailable ''gateway'' ''gateway is closed'')"

subsection \<open>Targets\<close>

definition parent_paths :: "string \<Rightarrow> string list" where
  "parent_paths path = (let parts = split_on CHR ''/'' path in map (\<lambda>n. join ''/'' (take n parts)) [1..<length parts])"

definition target :: "gateway \<Rightarrow> string \<Rightarrow> string option \<Rightarrow> gateway_disk \<Rightarrow> string result" where
  "target gw resource relative d =
     (case map_of (gw_resources gw) resource of
        None \<Rightarrow> Inl (EffectUnavailable resource ''resource/path is not registered'')
      | Some registered \<Rightarrow>
          rbind (case relative of
                   None \<Rightarrow> Inr ()
                 | Some r \<Rightarrow> rbind (relative_resource r)
                     (\<lambda>p. guard (p = registered) (EffectUnavailable resource ''resource/path is not registered'')))
            (\<lambda>_. if set (parent_paths registered) \<subseteq> set (dk_directories d) then Inr registered
                 else Inl (OSError ''No such file or directory'')))"

definition read_target :: "gateway \<Rightarrow> string \<Rightarrow> bool \<Rightarrow> gateway_disk \<Rightarrow> string option result" where
  "read_target gw path missing d =
     (case dk_targets d path of
        None \<Rightarrow> if missing then Inr None else Inl (OSError ''No such file or directory'')
      | Some data \<Rightarrow> if gw_max_bytes gw < int (length data) then Inl (ValueError ''file is not regular or exceeds size limit'')
          else Inr (Some data))"

definition target_state :: "(string \<Rightarrow> string) \<Rightarrow> gateway \<Rightarrow> string \<Rightarrow> bool \<Rightarrow> file_state io" where
  "target_state sha gw path missing d = (rbind (read_target gw path missing d) (\<lambda>data. Inr (state_of sha data)), d)"

section \<open>Writing\<close>

record effect_call =
  ec_lease_id :: string
  ec_resource_id :: string
  ec_generation :: int
  ec_fencing_token :: string
  ec_relative_path :: "string option"
  ec_operation_id :: "string option"
  ec_owner :: effect_owner

fun reason_text :: "exn \<Rightarrow> string" where
  "reason_text (ValueError s) = s"
| "reason_text (TypeError s) = s"
| "reason_text (OSError s) = s"
| "reason_text (PyKeyError s) = [CHR 0x27] @ s @ [CHR 0x27]"
| "reason_text (EffectUnavailable r s) = ''effect readback unavailable for '' @ r @ '': '' @ s"
| "reason_text _ = []"

fun is_effect_error :: "exn \<Rightarrow> bool" where
  "is_effect_error (OSError _) = True"
| "is_effect_error (TypeError _) = True"
| "is_effect_error (PyKeyError _) = True"
| "is_effect_error e = is_value_error e"

fun is_unavailable :: "exn \<Rightarrow> bool" where
  "is_unavailable (EffectUnavailable _ _) = True"
| "is_unavailable _ = False"

text \<open>\<open>except (OSError, ValueError, TypeError, KeyError)\<close>, raised again as \<open>EffectUnavailable\<close>.\<close>

definition unavailable_on_error :: "string \<Rightarrow> 'a io \<Rightarrow> 'a io" where
  "unavailable_on_error resource m d =
     (case m d of
        (Inl e, d1) \<Rightarrow> (Inl (if is_effect_error e then EffectUnavailable resource (reason_text e) else e), d1)
      | r \<Rightarrow> r)"

text \<open>
  \<open>_fence\<close>; \<open>hold\<close> is the \<open>hold_fence\<close> of the authority. The check on entry is number 0, the
  checks of the writes have the number of their \<open>persist\<close>.
\<close>

definition effect_fence ::
  "gateway \<Rightarrow> (effect_call \<Rightarrow> string \<Rightarrow> held_fence result) \<Rightarrow> effect_call \<Rightarrow> held_fence result" where
  "effect_fence gw hold call =
     (let o1 = ec_owner call; resource = ec_resource_id call in
      if eo_caller o1 = None \<or> \<not> (truthy (eo_attempt_id o1) \<and> truthy (eo_runtime_id o1) \<and> truthy (eo_scope_id o1) \<and>
           truthy (eo_grant_ref o1) \<and> truthy (eo_authority_incarnation o1)) \<or> eo_scope_id o1 \<noteq> Some (gw_scope_id gw)
      then Inl (EffectUnavailable resource ''complete authenticated owner in this scope is required'')
      else rbind (hold call ''effect.write'') (\<lambda>f.
        if hf_work_item_id f = [] \<or> hf_authority_id f \<noteq> ctx_authority_id (the (eo_caller o1))
        then Inl (EffectUnavailable resource ''held fence lacks WorkItem/authority binding'')
        else rbind (hf_check f 0) (\<lambda>_. Inr f)))"

definition call_key :: "(string \<Rightarrow> string) \<Rightarrow> gateway \<Rightarrow> effect_call \<Rightarrow> held_fence \<Rightarrow> string \<Rightarrow> string \<Rightarrow> effect_key" where
  "call_key sha gw call f path data =
     \<lparr>ek_schema = EFFECT_SCHEMA, ek_operation_id = the (ec_operation_id call), ek_lease_id = ec_lease_id call,
      ek_resource_id = ec_resource_id call, ek_generation = ec_generation call, ek_fencing_token = ec_fencing_token call,
      ek_relative_path = path, ek_scope_id = gw_scope_id gw, ek_owner = binding_of (ec_owner call),
      ek_principal_ref = ctx_principal_ref (the (eo_caller (ec_owner call))),
      ek_tenant_id = ctx_tenant_id (the (eo_caller (ec_owner call))),
      ek_authority_id = ctx_authority_id (the (eo_caller (ec_owner call))),
      ek_work_item_id = hf_work_item_id f, ek_new = state_of sha (Some data)\<rparr>"

definition call_executor :: "effect_call \<Rightarrow> held_fence \<Rightarrow> executor" where
  "call_executor call f =
     \<lparr>ex_lease_id = ec_lease_id call, ex_generation = ec_generation call, ex_fencing_token = ec_fencing_token call,
      ex_owner = binding_of (ec_owner call), ex_principal_ref = ctx_principal_ref (the (eo_caller (ec_owner call))),
      ex_tenant_id = ctx_tenant_id (the (eo_caller (ec_owner call))),
      ex_authority_id = ctx_authority_id (the (eo_caller (ec_owner call))), ex_work_item_id = hf_work_item_id f\<rparr>"

text \<open>A resumed operation keeps the identity of its original intent.\<close>

definition resumed_key :: "intent option \<Rightarrow> effect_key \<Rightarrow> effect_key result" where
  "resumed_key original k =
     (case original of
        None \<Rightarrow> Inr k
      | Some i \<Rightarrow>
          let x = it_key i in
          if ek_tenant_id x \<noteq> ek_tenant_id k \<or> ek_authority_id x \<noteq> ek_authority_id k \<or> ek_work_item_id x \<noteq> ek_work_item_id k
          then Inl (ValueError ''recovery tenant/authority/WorkItem differs from original intent'')
          else Inr (k\<lparr>ek_lease_id := ek_lease_id x, ek_generation := ek_generation x, ek_fencing_token := ek_fencing_token x,
            ek_owner := ek_owner x, ek_principal_ref := ek_principal_ref x, ek_authority_id := ek_authority_id x\<rparr>))"

definition effect_result_of :: "string \<Rightarrow> effect_call \<Rightarrow> intent \<Rightarrow> string \<Rightarrow> effect_result" where
  "effect_result_of key call i path =
     \<lparr>ew_status = ''verified'', ew_observation = ''operation_completion'', ew_operation_id = the (ec_operation_id call),
      ew_resource_id = ec_resource_id call, ew_readback_ref = path, ew_sha256 = fs_sha256 (ek_new (it_key i)),
      ew_bytes = fs_bytes (ek_new (it_key i)), ew_marker_ref = MARKER_DIR @ ''/operations/'' @ key @ ''.completed''\<rparr>"

text \<open>The intent: a new one is recorded after its payload, an existing one must be the same operation.\<close>

definition record_intent ::
  "(string \<Rightarrow> string) \<Rightarrow> gateway \<Rightarrow> (nat \<Rightarrow> unit result) \<Rightarrow> (nat \<Rightarrow> fault) \<Rightarrow> string \<Rightarrow> string \<Rightarrow> string \<Rightarrow> pointer option \<Rightarrow> effect_key \<Rightarrow> intent io" where
  "record_intent sha gw check io key path data current k =
     io_bind (target_state sha gw path True) (\<lambda>old.
     let i = \<lparr>it_key = k, it_old = old, it_previous = current\<rparr> in
     io_bind (persist check io 1 (install_payload key data)) (\<lambda>_.
     io_bind (record_body sha check io 2 (intent_dump i) (install_intent sha key i)) (\<lambda>_.
     io_return (Inr i))))"

definition settle_intent ::
  "(string \<Rightarrow> string) \<Rightarrow> gateway \<Rightarrow> (nat \<Rightarrow> unit result) \<Rightarrow> (nat \<Rightarrow> fault) \<Rightarrow> string \<Rightarrow> string \<Rightarrow> string \<Rightarrow> pointer option \<Rightarrow> effect_key \<Rightarrow> intent io" where
  "settle_intent sha gw check io key path data current k d =
     (case dk_intents d key of
        Some i \<Rightarrow> if it_key i \<noteq> k then (Inl (ValueError ''operation identity/input conflicts with immutable intent''), d) else (Inr i, d)
      | None \<Rightarrow>
          if current \<noteq> None \<and> pt_state (the current) \<noteq> ''completed''
          then (Inl (ValueError ''resource has an unresolved operation; resume it first''), d)
          else record_intent sha gw check io key path data current k d)"

text \<open>An operation with a completion record never writes its resource again.\<close>

definition replay_completed ::
  "(string \<Rightarrow> string) \<Rightarrow> (nat \<Rightarrow> unit result) \<Rightarrow> (nat \<Rightarrow> fault) \<Rightarrow> string \<Rightarrow> pointer option \<Rightarrow> string \<Rightarrow> intent \<Rightarrow> completion \<Rightarrow> effect_result io" where
  "replay_completed sha check io rkey current op i c =
     (if cp_intent_sha256 c \<noteq> body_digest sha (intent_dump i)
      then io_return (Inl (ValueError ''completion does not bind the recorded intent''))
      else if current = Some (prepared_pointer op)
      then io_bind (record_body sha check io 3 (pointer_dump (completed_pointer op)) (replace_pointer rkey (completed_pointer op)))
             (\<lambda>_. io_return (Inr (cp_result c)))
      else io_return (Inr (cp_result c)))"

text \<open>The resource is replaced only where it still shows the bytes from before the operation.\<close>

definition apply_target ::
  "(string \<Rightarrow> string) \<Rightarrow> gateway \<Rightarrow> (nat \<Rightarrow> unit result) \<Rightarrow> (nat \<Rightarrow> fault) \<Rightarrow> string \<Rightarrow> string \<Rightarrow> intent \<Rightarrow> bool io" where
  "apply_target sha gw check io path data i =
     io_bind (target_state sha gw path True) (\<lambda>observed.
     if observed = ek_new (it_key i) then io_return (Inr False)
     else if observed \<noteq> it_old i then io_return (Inl (ValueError ''resource differs from both prewrite and intended states''))
     else io_bind (persist check io 5 (replace_target path data)) (\<lambda>_. io_return (Inr True)))"

definition run_intent ::
  "(string \<Rightarrow> string) \<Rightarrow> gateway \<Rightarrow> (nat \<Rightarrow> unit result) \<Rightarrow> (nat \<Rightarrow> fault) \<Rightarrow> effect_call \<Rightarrow> executor \<Rightarrow> string \<Rightarrow> string \<Rightarrow> string \<Rightarrow> string
     \<Rightarrow> pointer option \<Rightarrow> intent \<Rightarrow> effect_result io" where
  "run_intent sha gw check io call x key rkey path data current i =
     (let op = the (ec_operation_id call); res = effect_result_of key call i path in
      if current \<noteq> it_previous i \<and> current \<noteq> Some (prepared_pointer op)
      then io_return (Inl (ValueError ''resource advanced beyond this operation''))
      else
      io_bind (record_body sha check io 3 (pointer_dump (prepared_pointer op)) (replace_pointer rkey (prepared_pointer op))) (\<lambda>_.
      let xn = \<lparr>xn_intent_sha256 = body_digest sha (intent_dump i), xn_executor = x\<rparr> in
      io_bind (record_body sha check io 4 (execution_dump xn)
        (install_execution sha key (body_digest sha (executor_dump x)) xn)) (\<lambda>_.
      io_bind (apply_target sha gw check io path data i) (\<lambda>applied_now.
      io_bind (target_state sha gw path False) (\<lambda>seen.
      if seen \<noteq> ek_new (it_key i) then io_return (Inl (ValueError ''resource readback differs from intended state''))
      else
      let c = \<lparr>cp_intent_sha256 = body_digest sha (intent_dump i), cp_result = res, cp_completed_by = x,
               cp_completion_basis = (if applied_now then ''applied_now'' else ''observed_target'')\<rparr> in
      io_bind (record_body sha check io 6 (completion_dump c) (install_completion sha key c)) (\<lambda>_.
      io_bind (record_body sha check io 7 (pointer_dump (completed_pointer op)) (replace_pointer rkey (completed_pointer op))) (\<lambda>_.
      io_return (Inr res))))))))"

definition continue_intent ::
  "(string \<Rightarrow> string) \<Rightarrow> gateway \<Rightarrow> (nat \<Rightarrow> unit result) \<Rightarrow> (nat \<Rightarrow> fault) \<Rightarrow> effect_call \<Rightarrow> executor \<Rightarrow> string \<Rightarrow> string \<Rightarrow> string \<Rightarrow> string
     \<Rightarrow> pointer option \<Rightarrow> intent \<Rightarrow> effect_result io" where
  "continue_intent sha gw check io call x key rkey path data current i d =
     (case dk_completed d key of
        Some c \<Rightarrow> replay_completed sha check io rkey current (the (ec_operation_id call)) i c d
      | None \<Rightarrow> run_intent sha gw check io call x key rkey path data current i d)"

definition write_held ::
  "(string \<Rightarrow> string) \<Rightarrow> gateway \<Rightarrow> (nat \<Rightarrow> fault) \<Rightarrow> effect_call \<Rightarrow> string \<Rightarrow> intent option \<Rightarrow> held_fence \<Rightarrow> effect_result io" where
  "write_held sha gw io call data original f d =
     (case rbind (exclusive gw) (\<lambda>_. target gw (ec_resource_id call) (ec_relative_path call) d) of
        Inl e \<Rightarrow> (Inl e, d)
      | Inr path \<Rightarrow>
          let op = the (ec_operation_id call); check = hf_check f; key = sha (utf8 op);
              rkey = sha (utf8 (ec_resource_id call)) @ ''.json''; x = call_executor call f in
          case resumed_key original (call_key sha gw call f path data) of
            Inl e \<Rightarrow> (Inl e, d)
          | Inr k \<Rightarrow>
              let current = dk_current d rkey in
              io_bind (settle_intent sha gw check io key path data current k)
                (continue_intent sha gw check io call x key rkey path data current) d)"

definition effect_write_as ::
  "(string \<Rightarrow> string) \<Rightarrow> gateway \<Rightarrow> (effect_call \<Rightarrow> string \<Rightarrow> held_fence result) \<Rightarrow> (nat \<Rightarrow> fault) \<Rightarrow> effect_call \<Rightarrow> string
     \<Rightarrow> intent option \<Rightarrow> effect_result io" where
  "effect_write_as sha gw hold io call data original =
     (if gw_max_bytes gw < int (length data)
      then io_return (Inl (EffectUnavailable (ec_resource_id call) ''payload must be bounded bytes''))
      else unavailable_on_error (ec_resource_id call)
        (io_bind (io_return (rbind (effect_identity (ec_operation_id call)) (\<lambda>_. effect_fence gw hold call)))
          (write_held sha gw io call data original)))"

definition effect_write where
  "effect_write sha gw hold io call data = effect_write_as sha gw hold io call data None"

text \<open>
  \<open>resume\<close> reads the intent and its payload in a first exclusive section. Both are immutable
  once the intent is recorded, so the write that follows sees the same ones.
\<close>

definition effect_resume where
  "effect_resume sha gw hold io call d =
     unavailable_on_error (ec_resource_id call) (\<lambda>d.
       case rbind (effect_identity (ec_operation_id call)) (\<lambda>_. exclusive gw) of
         Inl e \<Rightarrow> (Inl e, d)
       | Inr _ \<Rightarrow>
           let key = sha (utf8 (the (ec_operation_id call))) in
           (case dk_intents d key of
              None \<Rightarrow> (Inl (ValueError ''operation has no prepared intent''), d)
            | Some original \<Rightarrow>
                (case dk_payloads d key of
                   None \<Rightarrow> (Inl (OSError ''No such file or directory''), d)
                 | Some data \<Rightarrow>
                     if gw_max_bytes gw < int (length data) then (Inl (ValueError ''file is not regular or exceeds size limit''), d)
                     else effect_write_as sha gw hold io call data (Some original) d))) d"

section \<open>Reading back\<close>

record effect_observation =
  ef_status :: string
  ef_operation_id :: string
  ef_resource_id :: string
  ef_readback_ref :: string
  ef_sha256 :: "string option"
  ef_bytes :: int
  ef_size_bytes :: int
  ef_intent_sha256 :: string
  ef_completion_sha256 :: "string option"
  ef_completion_state :: string
  ef_observation :: string

definition intent_binds :: "gateway \<Rightarrow> string \<Rightarrow> string \<Rightarrow> int \<Rightarrow> string \<Rightarrow> string \<Rightarrow> string \<Rightarrow> effect_key \<Rightarrow> bool" where
  "intent_binds gw lease resource generation token path op k \<longleftrightarrow>
     ek_operation_id k = op \<and> ek_lease_id k = lease \<and> ek_resource_id k = resource \<and> ek_generation k = generation \<and>
     ek_fencing_token k = token \<and> ek_relative_path k = path \<and> ek_scope_id k = gw_scope_id gw \<and> ek_schema k = EFFECT_SCHEMA"

definition completion_binds :: "(string \<Rightarrow> string) \<Rightarrow> intent \<Rightarrow> string \<Rightarrow> string \<Rightarrow> string \<Rightarrow> file_state \<Rightarrow> completion \<Rightarrow> bool" where
  "completion_binds sha i op resource path seen c \<longleftrightarrow>
     cp_intent_sha256 c = body_digest sha (intent_dump i) \<and> ew_operation_id (cp_result c) = op \<and>
     ew_resource_id (cp_result c) = resource \<and> ew_readback_ref (cp_result c) = path \<and>
     ew_sha256 (cp_result c) = fs_sha256 seen \<and> ew_bytes (cp_result c) = fs_bytes seen \<and>
     ew_status (cp_result c) = ''verified'' \<and> cp_completion_basis c \<in> {''applied_now'', ''observed_target''}"

definition observe ::
  "(string \<Rightarrow> string) \<Rightarrow> gateway \<Rightarrow> string \<Rightarrow> string \<Rightarrow> int \<Rightarrow> string \<Rightarrow> string option \<Rightarrow> string option \<Rightarrow> gateway_disk
     \<Rightarrow> effect_observation result" where
  "observe sha gw lease resource generation token relative operation d =
     rbind (exclusive gw) (\<lambda>_.
     rbind (target gw resource relative d) (\<lambda>path.
     rbind (case operation of
              Some op \<Rightarrow> Inr op
            | None \<Rightarrow> (case dk_current d (sha (utf8 resource) @ ''.json'') of
                None \<Rightarrow> Inl (ValueError ''resource has no operation pointer'')
              | Some p \<Rightarrow> Inr (pt_operation_id p))) (\<lambda>op.
     rbind (effect_identity (Some op)) (\<lambda>_.
     case dk_intents d (sha (utf8 op)) of
       None \<Rightarrow> Inl (ValueError ''readback does not match original operation identity'')
     | Some i \<Rightarrow>
         if \<not> intent_binds gw lease resource generation token path op (it_key i)
         then Inl (ValueError ''readback does not match original operation identity'')
         else rbind (read_target gw path False d) (\<lambda>data.
         let seen = state_of sha data; completed = dk_completed d (sha (utf8 op)) in
         if seen \<noteq> ek_new (it_key i) then Inl (ValueError ''current resource bytes differ from operation intent'')
         else if completed \<noteq> None \<and> \<not> completion_binds sha i op resource path seen (the completed)
         then Inl (ValueError ''completed record does not bind observed operation/intent'')
         else Inr \<lparr>ef_status = ''verified'', ef_operation_id = op, ef_resource_id = resource, ef_readback_ref = path,
           ef_sha256 = fs_sha256 seen, ef_bytes = fs_bytes seen, ef_size_bytes = fs_bytes seen,
           ef_intent_sha256 = body_digest sha (intent_dump i),
           ef_completion_sha256 = map_option (\<lambda>c. body_digest sha (completion_dump c)) completed,
           ef_completion_state = (if completed = None then ''prepared'' else ''completed''),
           ef_observation = ''current_resource''\<rparr>)))))"

definition effect_unavailable :: "string \<Rightarrow> 'a result \<Rightarrow> 'a result" where
  "effect_unavailable resource r =
     (case r of Inl e \<Rightarrow> Inl (if is_effect_error e then EffectUnavailable resource (reason_text e) else e) | _ \<Rightarrow> r)"

definition readback ::
  "(string \<Rightarrow> string) \<Rightarrow> gateway \<Rightarrow> (effect_call \<Rightarrow> string \<Rightarrow> held_fence result) \<Rightarrow> effect_call \<Rightarrow> gateway_disk
     \<Rightarrow> effect_observation result" where
  "readback sha gw hold call d = effect_unavailable (ec_resource_id call)
     (rbind (effect_fence gw hold call) (\<lambda>_.
      observe sha gw (ec_lease_id call) (ec_resource_id call) (ec_generation call) (ec_fencing_token call)
        (ec_relative_path call) (ec_operation_id call) d))"

text \<open>
  \<open>historical_readback\<close> and \<open>historical_readback_in_transaction\<close>: \<open>verified\<close> is the answer of
  \<open>verify_historical_readback\<close> of the authority, on its own connection or on the caller's.
\<close>

definition historical_readback ::
  "(string \<Rightarrow> string) \<Rightarrow> gateway \<Rightarrow> unit result \<Rightarrow> effect_call \<Rightarrow> gateway_disk \<Rightarrow> effect_observation result" where
  "historical_readback sha gw verified call d =
     (if eo_scope_id (ec_owner call) \<noteq> Some (gw_scope_id gw)
      then Inl (EffectUnavailable (ec_resource_id call) ''resource scope mismatch'')
      else effect_unavailable (ec_resource_id call)
        (rbind verified (\<lambda>_.
         observe sha gw (ec_lease_id call) (ec_resource_id call) (ec_generation call) (ec_fencing_token call)
           (ec_relative_path call) (ec_operation_id call) d)))"

datatype reconciliation =
    Observed effect_observation
  | Resumed effect_result
  | Uncertain string "string option" string

definition effect_reconcile ::
  "(string \<Rightarrow> string) \<Rightarrow> gateway \<Rightarrow> (effect_call \<Rightarrow> string \<Rightarrow> held_fence result) \<Rightarrow> unit result \<Rightarrow> (nat \<Rightarrow> fault) \<Rightarrow> effect_call \<Rightarrow> bool
     \<Rightarrow> reconciliation io" where
  "effect_reconcile sha gw hold verified io call historical d =
     (case (if historical then (rbind (historical_readback sha gw verified call d) (\<lambda>v. Inr (Observed v)), d)
            else io_bind (effect_resume sha gw hold io call) (\<lambda>r. io_return (Inr (Resumed r))) d) of
        (Inl e, d1) \<Rightarrow>
          if is_unavailable e \<or> is_effect_error e
          then (Inr (Uncertain (ec_resource_id call) (ec_relative_path call) (reason_text e)), d1) else (Inl e, d1)
      | r \<Rightarrow> r)"

text \<open>\<open>hold_fence\<close> of the lease authority, in the form the gateway calls it.\<close>

definition lease_hold ::
  "lease_store \<Rightarrow> (nat \<Rightarrow> int) \<Rightarrow> fresh_ids \<Rightarrow> (nat \<Rightarrow> lease_db) \<Rightarrow> effect_call \<Rightarrow> string \<Rightarrow> held_fence result" where
  "lease_hold st clk ids dbs call permission =
     (let o1 = ec_owner call in
      hold_fence st clk ids (ec_lease_id call) (ec_resource_id call) (ec_generation call) (ec_fencing_token call)
        (the (eo_caller o1)) (eo_attempt_id o1) (eo_runtime_id o1) (eo_scope_id o1) (eo_grant_ref o1)
        (eo_authority_incarnation o1) permission dbs)"

end
