(* ===== verification/Effect_Journal.thy ===== *)
theory Effect_Journal
  imports Effect_Gateway
begin

text \<open>
  The write-ahead journal of the effect gateway. \<open>journal_step\<close> lists the visible changes an
  operation makes, one per \<open>_persist\<close>, with what must hold on the disk when it happens.
  \<open>leads\<close> is a small logic for calls that may be cut: it says that every disk a call can leave
  behind, whether it returns, raises or crashes, is reached by such changes. With it each part of
  \<open>_write\<close> is followed once, and invariants are proved on the changes alone.
\<close>

section \<open>Calls that may be cut\<close>

definition leads :: "(gateway_disk \<Rightarrow> gateway_disk \<Rightarrow> bool) \<Rightarrow> 'a io \<Rightarrow> gateway_disk \<Rightarrow> ('a \<Rightarrow> gateway_disk \<Rightarrow> bool) \<Rightarrow> bool" where
  "leads R m d Q \<longleftrightarrow> R\<^sup>*\<^sup>* d (snd (m d)) \<and> (\<forall>x. fst (m d) = Inr x \<longrightarrow> Q x (snd (m d)))"

lemma leads_return: "leads R (io_return r) d (\<lambda>x d1. r = Inr x \<and> d1 = d)"
  by (auto simp: leads_def io_return_def)

lemma leads_returnI: "(\<And>x. r = Inr x \<Longrightarrow> Q x d) \<Longrightarrow> leads R (io_return r) d Q"
  by (auto simp: leads_def io_return_def)

lemma leads_pureI: "(\<And>x. r = Inr x \<Longrightarrow> Q x d) \<Longrightarrow> leads R (\<lambda>d. (r, d)) d Q"
  by (auto simp: leads_def)

lemma leads_bind:
  assumes "leads R m d P" and "\<And>x d1. m d = (Inr x, d1) \<Longrightarrow> P x d1 \<Longrightarrow> leads R (f x) d1 Q"
  shows "leads R (io_bind m f) d Q"
proof (cases "m d")
  case (Pair r d1)
  show ?thesis
  proof (cases r)
    case (Inl e)
    with assms(1) Pair show ?thesis by (auto simp: leads_def io_bind_def)
  next
    case (Inr x)
    have "leads R (f x) d1 Q" using assms Pair Inr by (auto simp: leads_def)
    moreover have "R\<^sup>*\<^sup>* d d1" using assms(1) Pair by (auto simp: leads_def)
    ultimately show ?thesis using Pair Inr by (auto simp: leads_def io_bind_def)
  qed
qed

lemma leads_persist_checked:
  assumes "\<And>d1. check n = Inr () \<Longrightarrow> change d = Inr d1 \<Longrightarrow> R\<^sup>*\<^sup>* d d1 \<and> Q () d1"
  shows "leads R (persist check io n change) d Q"
  using assms by (cases "io n"; cases "check n"; cases "change d") (auto simp: leads_def persist_def)

lemma leads_record_checked:
  assumes "\<And>d1. check n = Inr () \<Longrightarrow> change d = Inr d1 \<Longrightarrow> R\<^sup>*\<^sup>* d d1 \<and> Q () d1"
  shows "leads R (record_body sha check io n body change) d Q"
  using leads_persist_checked [of check n change d R Q io] assms by (auto simp: leads_def record_body_def)

lemma leads_persist:
  assumes "\<And>d1. change d = Inr d1 \<Longrightarrow> R\<^sup>*\<^sup>* d d1 \<and> Q () d1"
  shows "leads R (persist check io n change) d Q"
  using assms by (rule leads_persist_checked)

lemma leads_record:
  assumes "\<And>d1. change d = Inr d1 \<Longrightarrow> R\<^sup>*\<^sup>* d d1 \<and> Q () d1"
  shows "leads R (record_body sha check io n body change) d Q"
  using assms by (rule leads_record_checked)

lemma leads_catch: "leads R m d Q \<Longrightarrow> leads R (unavailable_on_error resource m) d Q"
  by (cases "m d"; cases "fst (m d)") (auto simp: leads_def unavailable_on_error_def)

lemma leads_mono: "leads R m d P \<Longrightarrow> (\<And>x d1. P x d1 \<Longrightarrow> Q x d1) \<Longrightarrow> leads R m d Q"
  by (auto simp: leads_def)

lemma leads_cong: "m d = m' d \<Longrightarrow> leads R m' d Q \<Longrightarrow> leads R m d Q"
  by (simp add: leads_def)

lemma leads_if: "(b \<Longrightarrow> leads R m d Q) \<Longrightarrow> (\<not> b \<Longrightarrow> leads R m' d Q) \<Longrightarrow> leads R (if b then m else m') d Q"
  by simp

lemma leads_run: "leads R m d Q \<Longrightarrow> m d = (r, d1) \<Longrightarrow> R\<^sup>*\<^sup>* d d1"
  by (auto simp: leads_def)

lemma leads_target_state:
  "leads R (target_state sha gw path missing) d (\<lambda>s d1. d1 = d \<and> s = state_of sha (dk_targets d path) \<and>
     (\<forall>data. dk_targets d path = Some data \<longrightarrow> int (length data) \<le> gw_max_bytes gw))"
  by (auto simp: leads_def target_state_def read_target_def split: option.splits if_splits)

section \<open>The visible changes of an operation\<close>

abbreviation resource_key :: "(string \<Rightarrow> string) \<Rightarrow> effect_key \<Rightarrow> string" where
  "resource_key sha k \<equiv> sha (utf8 (ek_resource_id k)) @ ''.json''"

abbreviation operation_key :: "(string \<Rightarrow> string) \<Rightarrow> effect_key \<Rightarrow> string" where
  "operation_key sha k \<equiv> sha (utf8 (ek_operation_id k))"

definition shown :: "(string \<Rightarrow> string) \<Rightarrow> gateway_disk \<Rightarrow> effect_key \<Rightarrow> file_state" where
  "shown sha d k = state_of sha (dk_targets d (ek_relative_path k))"

definition completes :: "(string \<Rightarrow> string) \<Rightarrow> intent \<Rightarrow> completion \<Rightarrow> bool" where
  "completes sha i c \<longleftrightarrow>
     completion_binds sha i (ek_operation_id (it_key i)) (ek_resource_id (it_key i)) (ek_relative_path (it_key i)) (ek_new (it_key i)) c"

definition key_ok :: "(string \<Rightarrow> string) \<Rightarrow> gateway \<Rightarrow> string \<Rightarrow> effect_key \<Rightarrow> bool" where
  "key_ok sha gw op k \<longleftrightarrow>
     ek_operation_id k = op \<and> ek_schema k = EFFECT_SCHEMA \<and> ek_scope_id k = gw_scope_id gw \<and>
     map_of (gw_resources gw) (ek_resource_id k) = Some (ek_relative_path k)"

inductive journal_step :: "(string \<Rightarrow> string) \<Rightarrow> gateway \<Rightarrow> string \<Rightarrow> gateway_disk \<Rightarrow> gateway_disk \<Rightarrow> bool"
  for sha gw op where
  j_payload: "dk_payloads d (sha (utf8 op)) = None \<Longrightarrow> dk_intents d (sha (utf8 op)) = None \<Longrightarrow>
    journal_step sha gw op d (d\<lparr>dk_payloads := (dk_payloads d)(sha (utf8 op) \<mapsto> data)\<rparr>)"
| j_intent: "dk_intents d (sha (utf8 op)) = None \<Longrightarrow> dk_payloads d (sha (utf8 op)) = Some data \<Longrightarrow>
    key_ok sha gw op (it_key i) \<Longrightarrow> ek_new (it_key i) = state_of sha (Some data) \<Longrightarrow> int (length data) \<le> gw_max_bytes gw \<Longrightarrow>
    it_previous i = dk_current d (resource_key sha (it_key i)) \<Longrightarrow>
    (\<And>p. it_previous i = Some p \<Longrightarrow> pt_state p = ''completed'') \<Longrightarrow>
    it_old i = shown sha d (it_key i) \<Longrightarrow> fs_bytes (it_old i) \<le> gw_max_bytes gw \<Longrightarrow>
    journal_step sha gw op d (d\<lparr>dk_intents := (dk_intents d)(sha (utf8 op) \<mapsto> i)\<rparr>)"
| j_prepare: "dk_intents d (sha (utf8 op)) = Some i \<Longrightarrow> key_ok sha gw op (it_key i) \<Longrightarrow> dk_completed d (sha (utf8 op)) = None \<Longrightarrow>
    dk_current d (resource_key sha (it_key i)) \<in> {it_previous i, Some (prepared_pointer op)} \<Longrightarrow>
    journal_step sha gw op d (d\<lparr>dk_current := (dk_current d)(resource_key sha (it_key i) \<mapsto> prepared_pointer op)\<rparr>)"
| j_execution: "journal_step sha gw op d (d\<lparr>dk_executions := (dk_executions d)((sha (utf8 op), xkey) \<mapsto> x)\<rparr>)"
| j_apply: "dk_intents d (sha (utf8 op)) = Some i \<Longrightarrow> key_ok sha gw op (it_key i) \<Longrightarrow> dk_completed d (sha (utf8 op)) = None \<Longrightarrow>
    dk_current d (resource_key sha (it_key i)) = Some (prepared_pointer op) \<Longrightarrow>
    shown sha d (it_key i) = it_old i \<Longrightarrow> it_old i \<noteq> ek_new (it_key i) \<Longrightarrow> ek_new (it_key i) = state_of sha (Some data) \<Longrightarrow>
    journal_step sha gw op d (d\<lparr>dk_targets := (dk_targets d)(ek_relative_path (it_key i) \<mapsto> data)\<rparr>)"
| j_complete: "dk_intents d (sha (utf8 op)) = Some i \<Longrightarrow> key_ok sha gw op (it_key i) \<Longrightarrow> dk_completed d (sha (utf8 op)) = None \<Longrightarrow>
    dk_current d (resource_key sha (it_key i)) = Some (prepared_pointer op) \<Longrightarrow>
    shown sha d (it_key i) = ek_new (it_key i) \<Longrightarrow> completes sha i c \<Longrightarrow>
    journal_step sha gw op d (d\<lparr>dk_completed := (dk_completed d)(sha (utf8 op) \<mapsto> c)\<rparr>)"
| j_settle: "dk_intents d (sha (utf8 op)) = Some i \<Longrightarrow> key_ok sha gw op (it_key i) \<Longrightarrow> dk_completed d (sha (utf8 op)) = Some c \<Longrightarrow>
    dk_current d (resource_key sha (it_key i)) = Some (prepared_pointer op) \<Longrightarrow>
    journal_step sha gw op d (d\<lparr>dk_current := (dk_current d)(resource_key sha (it_key i) \<mapsto> completed_pointer op)\<rparr>)"

lemmas journal_intros = r_into_rtranclp [of "journal_step sha gw op" for sha gw op] journal_step.intros

section \<open>Every call is a sequence of visible changes\<close>

lemma immutable_Inr: "immutable existing data created d = Inr d1 \<longleftrightarrow> existing = None \<and> d1 = created \<or> existing = Some data \<and> d1 = d"
  by (auto simp: immutable_def split: option.splits if_splits)

lemma payload_again: "dk_payloads d k = Some data \<Longrightarrow> d\<lparr>dk_payloads := (dk_payloads d)(k \<mapsto> data)\<rparr> = d"
  by (cases d) (simp add: fun_upd_idem)

lemma record_intent_leads:
  assumes "key_ok sha gw op k" "ek_new k = state_of sha (Some data)" "int (length data) \<le> gw_max_bytes gw"
    and "current = dk_current d (resource_key sha k)" "\<And>p. current = Some p \<Longrightarrow> pt_state p = ''completed''"
    and None: "dk_intents d (sha (utf8 op)) = None"
  shows "leads (journal_step sha gw op) (record_intent sha gw check io (sha (utf8 op)) (ek_relative_path k) data current k) d
    (\<lambda>i d1. dk_intents d1 (sha (utf8 op)) = Some i \<and> it_key i = k \<and> dk_current d1 = dk_current d)"
  unfolding record_intent_def Let_def
proof (rule leads_bind [OF leads_target_state], elim conjE)
  let ?k = "sha (utf8 op)" and ?d1 = "d\<lparr>dk_payloads := (dk_payloads d)(sha (utf8 op) \<mapsto> data)\<rparr>"
  fix s d0 assume s: "d0 = d" "s = state_of sha (dk_targets d (ek_relative_path k))"
    "\<forall>data. dk_targets d (ek_relative_path k) = Some data \<longrightarrow> int (length data) \<le> gw_max_bytes gw"
  let ?i = "\<lparr>it_key = k, it_old = s, it_previous = current\<rparr>"
  have "journal_step sha gw op ?d1 (?d1\<lparr>dk_intents := (dk_intents ?d1)(?k \<mapsto> ?i)\<rparr>)"
    by (rule journal_step.j_intent [where data = data])
      (use assms s in \<open>auto simp: shown_def state_of_def split: option.splits\<close>)
  moreover have "(journal_step sha gw op)\<^sup>*\<^sup>* d ?d1 \<or> ?d1 = d" if "dk_payloads d ?k = None \<or> dk_payloads d ?k = Some data"
    using that None payload_again [of d ?k data] by (auto intro: journal_intros)
  ultimately show "leads (journal_step sha gw op)
    (io_bind (persist check io 1 (install_payload ?k data)) (\<lambda>_.
      io_bind (record_body sha check io 2 (intent_dump ?i) (install_intent sha ?k ?i)) (\<lambda>_. io_return (Inr ?i)))) d0
    (\<lambda>i d1. dk_intents d1 ?k = Some i \<and> it_key i = k \<and> dk_current d1 = dk_current d)"
    unfolding s(1)
    by (intro leads_bind [OF leads_persist, where P = "\<lambda>_ d1. d1 = ?d1"]
        leads_bind [OF leads_record, where P = "\<lambda>_ d1. d1 = ?d1\<lparr>dk_intents := (dk_intents ?d1)(?k \<mapsto> ?i)\<rparr>"] leads_returnI)
      (auto simp: install_payload_def install_intent_def immutable_Inr None payload_again)
qed

lemma settle_intent_leads:
  assumes "key_ok sha gw op k" "ek_new k = state_of sha (Some data)" "int (length data) \<le> gw_max_bytes gw"
    and "current = dk_current d (resource_key sha k)"
  shows "leads (journal_step sha gw op) (settle_intent sha gw check io (sha (utf8 op)) (ek_relative_path k) data current k) d
    (\<lambda>i d1. dk_intents d1 (sha (utf8 op)) = Some i \<and> it_key i = k \<and> dk_current d1 = dk_current d)"
proof (cases "dk_intents d (sha (utf8 op)) = None \<and> (\<forall>p. current = Some p \<longrightarrow> pt_state p = ''completed'')")
  case True
  then have "\<not> (current \<noteq> None \<and> pt_state (the current) \<noteq> ''completed'')" by (cases current) auto
  with True have same: "settle_intent sha gw check io (sha (utf8 op)) (ek_relative_path k) data current k d =
      record_intent sha gw check io (sha (utf8 op)) (ek_relative_path k) data current k d"
    by (auto simp: settle_intent_def)
  show ?thesis by (rule leads_cong, rule same, rule record_intent_leads [OF assms])
      (use True in simp_all)
next
  case False
  then show ?thesis by (auto simp: settle_intent_def leads_def split: option.splits)
qed

lemma replay_completed_leads:
  assumes "dk_intents d (sha (utf8 op)) = Some i" "key_ok sha gw op (it_key i)" "dk_completed d (sha (utf8 op)) = Some c"
    and "current = dk_current d (resource_key sha (it_key i))"
  shows "leads (journal_step sha gw op) (replay_completed sha check io (resource_key sha (it_key i)) current op i c) d
    (\<lambda>_ _. True)"
proof -
  have "journal_step sha gw op d (d\<lparr>dk_current := (dk_current d)(resource_key sha (it_key i) \<mapsto> completed_pointer op)\<rparr>)"
    if "current = Some (prepared_pointer op)"
    by (rule journal_step.j_settle [OF assms(1-3)]) (use that assms(4) in simp)
  then show ?thesis unfolding replay_completed_def
    by (auto intro!: leads_returnI leads_bind [OF leads_record, where P = "\<lambda>_ _. True"] simp: replace_pointer_def)
qed

lemma apply_target_leads:
  assumes "dk_intents d (sha (utf8 op)) = Some i" "key_ok sha gw op (it_key i)" "dk_completed d (sha (utf8 op)) = None"
    and "dk_current d (resource_key sha (it_key i)) = Some (prepared_pointer op)"
    and new: "ek_new (it_key i) = state_of sha (Some data)"
  shows "leads (journal_step sha gw op) (apply_target sha gw check io (ek_relative_path (it_key i)) data i) d
    (\<lambda>_ d1. shown sha d1 (it_key i) = ek_new (it_key i) \<and> (\<exists>t. d1 = d\<lparr>dk_targets := t\<rparr>))"
  unfolding apply_target_def
proof (rule leads_bind [OF leads_target_state], elim conjE)
  let ?path = "ek_relative_path (it_key i)"
  let ?d1 = "d\<lparr>dk_targets := (dk_targets d)(?path \<mapsto> data)\<rparr>"
  fix s d0 assume s: "d0 = d" "s = state_of sha (dk_targets d ?path)"
  then have shown: "shown sha d (it_key i) = s" by (simp add: shown_def)
  have "journal_step sha gw op d ?d1" if "s = it_old i" "s \<noteq> ek_new (it_key i)"
    using journal_step.j_apply [OF assms(1-4) _ _ new] shown that by simp
  moreover have "shown sha ?d1 (it_key i) = ek_new (it_key i)" by (simp add: shown_def new)
  moreover have "\<exists>t. d = d\<lparr>dk_targets := t\<rparr>" by (rule exI [of _ "dk_targets d"]) simp
  ultimately show "leads (journal_step sha gw op) (if s = ek_new (it_key i) then io_return (Inr False)
      else if s \<noteq> it_old i then io_return (Inl (ValueError ''resource differs from both prewrite and intended states''))
      else io_bind (persist check io 5 (replace_target ?path data)) (\<lambda>_. io_return (Inr True))) d0
    (\<lambda>_ d1. shown sha d1 (it_key i) = ek_new (it_key i) \<and> (\<exists>t. d1 = d\<lparr>dk_targets := t\<rparr>))"
    using shown unfolding s(1)
    by (auto intro!: leads_returnI leads_bind [OF leads_persist, where P = "\<lambda>_ d1. d1 = ?d1"] simp: replace_target_def)
qed

lemma result_completes:
  "the (ec_operation_id call) = ek_operation_id (it_key i) \<Longrightarrow> ec_resource_id call = ek_resource_id (it_key i) \<Longrightarrow>
   completes sha i \<lparr>cp_intent_sha256 = body_digest sha (intent_dump i),
     cp_result = effect_result_of key call i (ek_relative_path (it_key i)), cp_completed_by = x,
     cp_completion_basis = (if b then ''applied_now'' else ''observed_target'')\<rparr>"
  by (simp add: completes_def completion_binds_def effect_result_of_def)

lemma run_intent_leads:
  assumes i: "dk_intents d (sha (utf8 op)) = Some i" "key_ok sha gw op (it_key i)" "dk_completed d (sha (utf8 op)) = None"
    and cur: "current = dk_current d (resource_key sha (it_key i))"
    and call: "ec_operation_id call = Some op" "ec_resource_id call = ek_resource_id (it_key i)"
    and new: "ek_new (it_key i) = state_of sha (Some data)"
  shows "leads (journal_step sha gw op)
    (run_intent sha gw check io call x (sha (utf8 op)) (resource_key sha (it_key i)) (ek_relative_path (it_key i)) data current i) d
    (\<lambda>_ _. True)"
proof (cases "current \<noteq> it_previous i \<and> current \<noteq> Some (prepared_pointer op)")
  case True
  then show ?thesis unfolding run_intent_def Let_def using call by (simp add: leads_returnI)
next
  case False
  let ?k = "sha (utf8 op)" and ?rk = "resource_key sha (it_key i)"
  let ?d1 = "d\<lparr>dk_current := (dk_current d)(?rk \<mapsto> prepared_pointer op)\<rparr>"
  define held :: "gateway_disk \<Rightarrow> bool" where "held = (\<lambda>d1. dk_intents d1 ?k = Some i \<and> dk_completed d1 ?k = None \<and> dk_current d1 ?rk = Some (prepared_pointer op))"
  have prep: "journal_step sha gw op d ?d1" by (rule journal_step.j_prepare [OF i]) (use False cur in auto)
  have ex: "(journal_step sha gw op)\<^sup>*\<^sup>* d1 d2 \<and> held d2" if "held d1" "install_execution sha ?k xk xn d1 = Inr d2" for d1 d2 xk xn
    using that by (auto simp: install_execution_def immutable_Inr held_def intro!: r_into_rtranclp journal_step.j_execution)
  have app: "leads (journal_step sha gw op) (apply_target sha gw check io (ek_relative_path (it_key i)) data i) d1
      (\<lambda>_ d2. shown sha d2 (it_key i) = ek_new (it_key i) \<and> held d2)" if "held d1" for d1
    by (rule leads_mono [OF apply_target_leads]) (use that i(2) new in \<open>auto simp: held_def\<close>)
  have seen: "leads (journal_step sha gw op) (target_state sha gw (ek_relative_path (it_key i)) False) d1 (\<lambda>_ d2. d2 = d1)" for d1
    by (rule leads_mono [OF leads_target_state]) simp
  have comp: "(journal_step sha gw op)\<^sup>*\<^sup>* d1 d2 \<and> held (d2\<lparr>dk_completed := (dk_completed d2)(?k := None)\<rparr>) \<and> dk_completed d2 ?k \<noteq> None"
    if "held d1" "shown sha d1 (it_key i) = ek_new (it_key i)" "completes sha i c" "install_completion sha ?k c d1 = Inr d2" for d1 d2 c
    using that i(2) by (auto simp: install_completion_def immutable_Inr held_def intro!: r_into_rtranclp journal_step.j_complete)
  have fin: "(journal_step sha gw op)\<^sup>*\<^sup>* d1 (d1\<lparr>dk_current := (dk_current d1)(?rk \<mapsto> completed_pointer op)\<rparr>)"
    if "held (d1\<lparr>dk_completed := (dk_completed d1)(?k := None)\<rparr>)" "dk_completed d1 ?k \<noteq> None" for d1
    using that i(2) by (auto simp: held_def intro!: r_into_rtranclp journal_step.j_settle)
  show ?thesis unfolding run_intent_def Let_def call option.sel if_not_P [OF False]
    apply (rule leads_bind [OF leads_record, where P = "\<lambda>_. held"])
    subgoal using prep i by (auto simp: replace_pointer_def held_def)
    apply (rule leads_bind [OF leads_record, where P = "\<lambda>_. held"])
    subgoal by (rule ex)
    apply (rule leads_bind [OF app], assumption)
    apply (rule leads_bind [OF seen])
    apply (rule leads_if)
    subgoal by (rule leads_returnI) simp
    apply (rule leads_bind [OF leads_record, where P = "\<lambda>_ d2. held (d2\<lparr>dk_completed := (dk_completed d2)(?k := None)\<rparr>) \<and> dk_completed d2 ?k \<noteq> None"])
    subgoal by (elim conjE) (rule comp, simp, simp, rule result_completes, use call i(2) in \<open>simp_all add: key_ok_def\<close>)
    apply (rule leads_bind [OF leads_record, where P = "\<lambda>_ _. True"])
    subgoal using fin by (auto simp: replace_pointer_def)
    by (rule leads_returnI) simp
qed

lemma target_registered: "target gw resource relative d = Inr path \<Longrightarrow> map_of (gw_resources gw) resource = Some path"
  by (auto simp: target_def split: option.splits if_splits)

lemma resumed_key_fields:
  "resumed_key original (call_key sha gw call f path data) = Inr k \<Longrightarrow>
     ek_operation_id k = the (ec_operation_id call) \<and> ek_resource_id k = ec_resource_id call \<and> ek_relative_path k = path \<and>
     ek_schema k = EFFECT_SCHEMA \<and> ek_scope_id k = gw_scope_id gw \<and> ek_new k = state_of sha (Some data)"
  by (auto simp: resumed_key_def call_key_def Let_def split: option.splits if_splits)

lemma continue_intent_leads:
  assumes i: "dk_intents d (sha (utf8 op)) = Some i" "key_ok sha gw op (it_key i)"
    and cur: "current = dk_current d (resource_key sha (it_key i))"
    and call: "ec_operation_id call = Some op" "ec_resource_id call = ek_resource_id (it_key i)"
    and new: "ek_new (it_key i) = state_of sha (Some data)"
  shows "leads (journal_step sha gw op)
    (continue_intent sha gw check io call x (sha (utf8 op)) (resource_key sha (it_key i)) (ek_relative_path (it_key i)) data current i) d
    (\<lambda>_ _. True)"
proof (cases "dk_completed d (sha (utf8 op))")
  case None
  from run_intent_leads [OF i None cur call new] show ?thesis by (rule leads_cong [rotated]) (simp add: continue_intent_def None)
next
  case (Some c)
  from replay_completed_leads [OF i Some cur] show ?thesis
    by (rule leads_cong [rotated]) (simp add: continue_intent_def Some call)
qed

lemma write_held_leads:
  assumes op: "ec_operation_id call = Some op" and size: "int (length data) \<le> gw_max_bytes gw"
  shows "leads (journal_step sha gw op) (write_held sha gw io call data original f) d (\<lambda>_ _. True)"
proof (cases "rbind (exclusive gw) (\<lambda>_. target gw (ec_resource_id call) (ec_relative_path call) d)")
  case (Inl e)
  then show ?thesis by (simp add: write_held_def leads_def)
next
  case path: (Inr path)
  then have registered: "map_of (gw_resources gw) (ec_resource_id call) = Some path" by (auto intro: target_registered)
  show ?thesis
  proof (cases "resumed_key original (call_key sha gw call f path data)")
    case (Inl e)
    with path show ?thesis by (simp add: write_held_def leads_def)
  next
    case key: (Inr k)
    note k = resumed_key_fields [OF key]
    have ok: "key_ok sha gw op k" using k registered op by (simp add: key_ok_def)
    have body: "leads (journal_step sha gw op)
      (io_bind (settle_intent sha gw (hf_check f) io (sha (utf8 op)) (ek_relative_path k) data (dk_current d (resource_key sha k)) k)
        (continue_intent sha gw (hf_check f) io call (call_executor call f) (sha (utf8 op)) (resource_key sha k)
          (ek_relative_path k) data (dk_current d (resource_key sha k)))) d (\<lambda>_ _. True)"
    proof (rule leads_bind [OF settle_intent_leads [OF ok _ size refl]], use k in simp, elim conjE)
      fix i :: intent and d1 :: gateway_disk assume i: "dk_intents d1 (sha (utf8 op)) = Some i" "it_key i = k" "dk_current d1 = dk_current d"
      have f: "ec_resource_id call = ek_resource_id (it_key i)" "ek_new (it_key i) = state_of sha (Some data)" "key_ok sha gw op (it_key i)"
        using i(2) k ok by simp_all
      show "leads (journal_step sha gw op) (continue_intent sha gw (hf_check f) io call (call_executor call f) (sha (utf8 op))
          (resource_key sha k) (ek_relative_path k) data (dk_current d (resource_key sha k)) i) d1 (\<lambda>_ _. True)"
        by (rule continue_intent_leads [OF i(1) f(3) refl op f(1,2), unfolded i(2,3)])
    qed
    show ?thesis
      by (rule leads_cong [OF _ body]) (use path key k op in \<open>simp add: write_held_def Let_def\<close>)
  qed
qed

lemma effect_write_leads:
  assumes "ec_operation_id call = Some op"
  shows "leads (journal_step sha gw op) (effect_write_as sha gw hold io call data original) d (\<lambda>_ _. True)"
  unfolding effect_write_as_def
  by (auto intro!: leads_returnI leads_catch leads_bind [OF leads_return] write_held_leads [OF assms])

lemma effect_resume_leads:
  assumes "ec_operation_id call = Some op"
  shows "leads (journal_step sha gw op) (effect_resume sha gw hold io call) d (\<lambda>_ _. True)"
proof -
  note w = effect_write_leads [OF assms, of sha gw hold io _ "Some original" for original, unfolded leads_def]
  have "leads (journal_step sha gw op) (\<lambda>d.
       case rbind (effect_identity (ec_operation_id call)) (\<lambda>_. exclusive gw) of
         Inl e \<Rightarrow> (Inl e, d)
       | Inr _ \<Rightarrow>
           let key = sha (utf8 (the (ec_operation_id call))) in
           (case dk_intents d key of
              None \<Rightarrow> (Inl (ValueError ''operation has no prepared intent''), d)
            | Some original \<Rightarrow>
                (case dk_payloads d key of
                   None \<Rightarrow> (Inl (OSError ''No such file or directory''), d)
                 | Some data \<Rightarrow>
                     if gw_max_bytes gw < int (length data) then (Inl (ValueError ''file is not regular or exceeds size limit''), d)
                     else effect_write_as sha gw hold io call data (Some original) d))) d (\<lambda>_ _. True)"
    using w by (auto simp: leads_def Let_def split: sum.split option.split)
  from leads_catch [OF this] show ?thesis by (simp add: leads_def effect_resume_def)
qed

lemma effect_reconcile_leads:
  assumes "ec_operation_id call = Some op"
  shows "leads (journal_step sha gw op) (effect_reconcile sha gw hold verified io call historical) d (\<lambda>_ _. True)"
proof -
  have "leads (journal_step sha gw op) (io_bind (effect_resume sha gw hold io call) (\<lambda>r. io_return (Inr (Resumed r)))) d (\<lambda>_ _. True)"
    by (rule leads_bind [OF effect_resume_leads [OF assms]]) (rule leads_returnI, simp)
  then show ?thesis unfolding leads_def effect_reconcile_def by (auto split: sum.splits prod.splits)
qed

end
