(* ===== verification/Effect_Safety.thy ===== *)
theory Effect_Safety
  imports Effect_Journal
begin

text \<open>
  The invariant of the effect journal, kept by every visible change and hence at every point
  where a call may be cut.

  \<^item> A recorded intent names a registered resource and its payload is stored. The pointer it was
    planned on is that of a completed operation, and the resource never returns to it.
  \<^item> A completion record binds the intent of its operation.
  \<^item> The operation a pointer names has an intent. While it is not complete the resource shows
    the bytes from before or after it; once complete, the resource shows its bytes.
  \<^item> While the pointer an intent was planned on is still current, the resource still shows the
    bytes the intent recorded.
\<close>

section \<open>The invariant\<close>

definition wf_gateway :: "gateway \<Rightarrow> bool" where
  "wf_gateway gw \<longleftrightarrow> distinct (map snd (gw_resources gw))"

definition previous_ok :: "(string \<Rightarrow> string) \<Rightarrow> gateway_disk \<Rightarrow> intent \<Rightarrow> bool" where
  "previous_ok sha d i \<longleftrightarrow> (\<forall>p. it_previous i = Some p \<longrightarrow>
     pt_state p = ''completed'' \<and> dk_current d (resource_key sha (it_key i)) \<noteq> Some (prepared_pointer (pt_operation_id p)) \<and>
     dk_completed d (sha (utf8 (pt_operation_id p))) \<noteq> None)"

definition intent_ok :: "(string \<Rightarrow> string) \<Rightarrow> gateway \<Rightarrow> gateway_disk \<Rightarrow> string \<Rightarrow> intent \<Rightarrow> bool" where
  "intent_ok sha gw d k i \<longleftrightarrow>
     k = operation_key sha (it_key i) \<and> key_ok sha gw (ek_operation_id (it_key i)) (it_key i) \<and>
     (\<exists>data. dk_payloads d k = Some data \<and> ek_new (it_key i) = state_of sha (Some data) \<and> int (length data) \<le> gw_max_bytes gw) \<and>
     fs_bytes (it_old i) \<le> gw_max_bytes gw \<and> previous_ok sha d i"

definition pointer_ok :: "(string \<Rightarrow> string) \<Rightarrow> gateway_disk \<Rightarrow> string \<Rightarrow> pointer \<Rightarrow> bool" where
  "pointer_ok sha d rk p \<longleftrightarrow> (\<exists>i. dk_intents d (sha (utf8 (pt_operation_id p))) = Some i \<and>
     ek_operation_id (it_key i) = pt_operation_id p \<and> resource_key sha (it_key i) = rk \<and>
     (if dk_completed d (sha (utf8 (pt_operation_id p))) = None
      then pt_state p = ''prepared'' \<and> shown sha d (it_key i) \<in> {it_old i, ek_new (it_key i)}
      else pt_state p \<in> {''prepared'', ''completed''} \<and> shown sha d (it_key i) = ek_new (it_key i)))"

definition completion_ok :: "(string \<Rightarrow> string) \<Rightarrow> gateway_disk \<Rightarrow> string \<Rightarrow> completion \<Rightarrow> bool" where
  "completion_ok sha d k c \<longleftrightarrow> (\<exists>i. dk_intents d k = Some i \<and> completes sha i c)"

definition planned_ok :: "(string \<Rightarrow> string) \<Rightarrow> gateway_disk \<Rightarrow> string \<Rightarrow> intent \<Rightarrow> bool" where
  "planned_ok sha d k i \<longleftrightarrow>
     (dk_completed d k = None \<and> dk_current d (resource_key sha (it_key i)) = it_previous i \<longrightarrow> shown sha d (it_key i) = it_old i)"

definition journal_ok :: "(string \<Rightarrow> string) \<Rightarrow> gateway \<Rightarrow> gateway_disk \<Rightarrow> bool" where
  "journal_ok sha gw d \<longleftrightarrow>
     (\<forall>k i. dk_intents d k = Some i \<longrightarrow> intent_ok sha gw d k i \<and> planned_ok sha d k i) \<and>
     (\<forall>k c. dk_completed d k = Some c \<longrightarrow> completion_ok sha d k c) \<and>
     (\<forall>rk p. dk_current d rk = Some p \<longrightarrow> pointer_ok sha d rk p)"

lemma journal_okD:
  assumes "journal_ok sha gw d"
  shows "dk_intents d k = Some i \<Longrightarrow> intent_ok sha gw d k i" "dk_intents d k = Some i \<Longrightarrow> planned_ok sha d k i"
    and "dk_completed d k = Some c \<Longrightarrow> completion_ok sha d k c" "dk_current d rk = Some p \<Longrightarrow> pointer_ok sha d rk p"
  using assms by (auto simp: journal_ok_def)

lemma journal_okI:
  assumes "\<And>k i. dk_intents d k = Some i \<Longrightarrow> intent_ok sha gw d k i" "\<And>k i. dk_intents d k = Some i \<Longrightarrow> planned_ok sha d k i"
    and "\<And>k c. dk_completed d k = Some c \<Longrightarrow> completion_ok sha d k c" "\<And>rk p. dk_current d rk = Some p \<Longrightarrow> pointer_ok sha d rk p"
  shows "journal_ok sha gw d"
  using assms by (auto simp: journal_ok_def)

lemma empty_journal_ok:
  "dk_intents d = Map.empty \<Longrightarrow> dk_completed d = Map.empty \<Longrightarrow> dk_current d = Map.empty \<Longrightarrow> journal_ok sha gw d"
  by (simp add: journal_ok_def)

lemma path_resource:
  assumes "wf_gateway gw" "key_ok sha gw op k" "key_ok sha gw op' k'" "ek_relative_path k = ek_relative_path k'"
  shows "ek_resource_id k = ek_resource_id k'"
proof -
  have mem: "(ek_resource_id k, ek_relative_path k) \<in> set (gw_resources gw)" "(ek_resource_id k', ek_relative_path k) \<in> set (gw_resources gw)"
    using assms(2-4) by (auto simp: key_ok_def dest!: map_of_SomeD)
  from assms(1) have "distinct (map snd (gw_resources gw))" by (simp add: wf_gateway_def)
  from key_unique [OF this mem] show ?thesis by simp
qed

lemma registered_paths_distinct:
  "register_resources rs known = Inr rs' \<Longrightarrow> distinct (map snd known) \<Longrightarrow> distinct (map snd rs')"
  by (induction rs known rule: register_resources.induct) (auto split: if_splits)

lemma opened_gateway_wf: "open_gateway io scope trust paths max_bytes d = (Inr gw, d') \<Longrightarrow> wf_gateway gw"
  by (auto simp: open_gateway_def wf_gateway_def io_bind_def Let_def registered_paths_distinct split: if_splits sum.splits prod.splits)

section \<open>Preservation\<close>

text \<open>Changes that leave intents, completions, pointers and targets alone keep everything.\<close>

lemma untouched:
  "intent_ok sha gw (d\<lparr>dk_executions := x\<rparr>) k i = intent_ok sha gw d k i"
  "planned_ok sha (d\<lparr>dk_executions := x\<rparr>) k i = planned_ok sha d k i"
  "completion_ok sha (d\<lparr>dk_executions := x\<rparr>) k c = completion_ok sha d k c"
  "pointer_ok sha (d\<lparr>dk_executions := x\<rparr>) rk p = pointer_ok sha d rk p"
  "planned_ok sha (d\<lparr>dk_payloads := y\<rparr>) k i = planned_ok sha d k i"
  "completion_ok sha (d\<lparr>dk_payloads := y\<rparr>) k c = completion_ok sha d k c"
  "pointer_ok sha (d\<lparr>dk_payloads := y\<rparr>) rk p = pointer_ok sha d rk p"
  "completion_ok sha (d\<lparr>dk_current := z\<rparr>) k c = completion_ok sha d k c"
  "pointer_ok sha (d\<lparr>dk_current := z\<rparr>) rk p = pointer_ok sha d rk p"
  "completion_ok sha (d\<lparr>dk_targets := t\<rparr>) k c = completion_ok sha d k c"
  by (simp_all add: intent_ok_def previous_ok_def planned_ok_def completion_ok_def pointer_ok_def shown_def)

lemma ok_payload:
  assumes "journal_ok sha gw d" "dk_intents d k0 = None"
  shows "journal_ok sha gw (d\<lparr>dk_payloads := (dk_payloads d)(k0 \<mapsto> data)\<rparr>)"
proof (rule journal_okI)
  fix k i assume "dk_intents (d\<lparr>dk_payloads := (dk_payloads d)(k0 \<mapsto> data)\<rparr>) k = Some i"
  then have i: "dk_intents d k = Some i" by simp
  then have "k \<noteq> k0" using assms(2) by auto
  then show "intent_ok sha gw (d\<lparr>dk_payloads := (dk_payloads d)(k0 \<mapsto> data)\<rparr>) k i"
    using journal_okD(1) [OF assms(1) i] by (auto simp: intent_ok_def previous_ok_def)
  show "planned_ok sha (d\<lparr>dk_payloads := (dk_payloads d)(k0 \<mapsto> data)\<rparr>) k i"
    using journal_okD(2) [OF assms(1) i] by (simp add: untouched)
qed (use journal_okD(3,4) [OF assms(1)] in \<open>simp_all add: untouched\<close>)

lemma ok_execution: "journal_ok sha gw d \<Longrightarrow> journal_ok sha gw (d\<lparr>dk_executions := x\<rparr>)"
  by (simp add: journal_ok_def untouched)

lemma ok_intent:
  assumes ok: "journal_ok sha gw d" and none: "dk_intents d (sha (utf8 op)) = None" and data: "dk_payloads d (sha (utf8 op)) = Some data"
    and i: "key_ok sha gw op (it_key i)" "ek_new (it_key i) = state_of sha (Some data)" "int (length data) \<le> gw_max_bytes gw"
      "it_previous i = dk_current d (resource_key sha (it_key i))" "\<And>p. it_previous i = Some p \<Longrightarrow> pt_state p = ''completed''"
      "it_old i = shown sha d (it_key i)" "fs_bytes (it_old i) \<le> gw_max_bytes gw"
  shows "journal_ok sha gw (d\<lparr>dk_intents := (dk_intents d)(sha (utf8 op) \<mapsto> i)\<rparr>)" (is "journal_ok sha gw ?d")
proof (rule journal_okI)
  have prev: "previous_ok sha d i"
    unfolding previous_ok_def
  proof (intro allI impI conjI)
    fix p assume p: "it_previous i = Some p"
    show st: "pt_state p = ''completed''" by (rule i(5) [OF p])
    from p i(4) have cur: "dk_current d (resource_key sha (it_key i)) = Some p" by simp
    then show "dk_current d (resource_key sha (it_key i)) \<noteq> Some (prepared_pointer (pt_operation_id p))" using st by (cases p) auto
    show "dk_completed d (sha (utf8 (pt_operation_id p))) \<noteq> None"
      using journal_okD(4) [OF ok cur] st by (auto simp: pointer_ok_def split: if_splits)
  qed
  fix k j assume "dk_intents ?d k = Some j"
  then consider "k = sha (utf8 op)" "j = i" | "k \<noteq> sha (utf8 op)" "dk_intents d k = Some j" by (auto split: if_splits)
  then show "intent_ok sha gw ?d k j"
  proof cases
    case 1
    with prev i data show ?thesis by (simp add: intent_ok_def key_ok_def previous_ok_def)
  next
    case 2
    with journal_okD(1) [OF ok 2(2)] show ?thesis by (auto simp: intent_ok_def previous_ok_def)
  qed
  from \<open>dk_intents ?d k = Some j\<close> show "planned_ok sha ?d k j"
    using journal_okD(2) [OF ok, of k j] i(6) by (auto simp: planned_ok_def shown_def split: if_splits)
next
  show "completion_ok sha ?d k c" if "dk_completed ?d k = Some c" for k c
    using journal_okD(3) [OF ok, of k c] that none by (auto simp: completion_ok_def)
  show "pointer_ok sha ?d rk p" if "dk_current ?d rk = Some p" for rk p
    using journal_okD(4) [OF ok, of rk p] that none by (auto simp: pointer_ok_def shown_def split: if_splits)
qed

lemma completed_only_prepared:
  assumes "journal_ok sha gw d" "dk_current d (resource_key sha (it_key i)) = Some (prepared_pointer op)" "dk_intents d k = Some j"
    and "resource_key sha (it_key j) = resource_key sha (it_key i)"
  shows "it_previous j \<noteq> Some (prepared_pointer op)" "it_previous j \<noteq> Some (completed_pointer op)"
  using journal_okD(1) [OF assms(1,3)] assms(2,4) by (auto simp: intent_ok_def previous_ok_def)

lemma ok_prepare:
  assumes ok: "journal_ok sha gw d" and i: "dk_intents d (sha (utf8 op)) = Some i" "key_ok sha gw op (it_key i)"
    and c: "dk_completed d (sha (utf8 op)) = None"
    and cur: "dk_current d (resource_key sha (it_key i)) \<in> {it_previous i, Some (prepared_pointer op)}"
  shows "journal_ok sha gw (d\<lparr>dk_current := (dk_current d)(resource_key sha (it_key i) \<mapsto> prepared_pointer op)\<rparr>)" (is "journal_ok sha gw ?d")
proof (rule journal_okI)
  fix k j assume "dk_intents ?d k = Some j"
  then have j: "dk_intents d k = Some j" by simp
  have prev: "previous_ok sha d j" using journal_okD(1) [OF ok j] by (simp add: intent_ok_def)
  from prev have not_prepared: "Some (prepared_pointer op) \<noteq> it_previous j" by (auto simp: previous_ok_def dest: sym)
  from prev c have "previous_ok sha ?d j" by (auto simp: previous_ok_def)
  then show "intent_ok sha gw ?d k j" using journal_okD(1) [OF ok j] by (auto simp: intent_ok_def)
  show "planned_ok sha ?d k j"
    using journal_okD(2) [OF ok j] not_prepared by (auto simp: planned_ok_def shown_def)
next
  show "completion_ok sha ?d k c" if "dk_completed ?d k = Some c" for k c
    using journal_okD(3) [OF ok, of k c] that by (simp add: completion_ok_def)
  have shown: "shown sha d (it_key i) \<in> {it_old i, ek_new (it_key i)}"
    using cur journal_okD(2) [OF ok i(1)] journal_okD(4) [OF ok, of "resource_key sha (it_key i)" "prepared_pointer op"] c i
    by (auto simp: planned_ok_def pointer_ok_def)
  show "pointer_ok sha ?d rk p" if "dk_current ?d rk = Some p" for rk p
  proof (cases "rk = resource_key sha (it_key i)")
    case True
    with that i c shown show ?thesis by (auto simp: pointer_ok_def shown_def key_ok_def)
  next
    case False
    with that journal_okD(4) [OF ok, of rk p] show ?thesis by (simp add: untouched)
  qed
qed

lemma ok_settle:
  assumes ok: "journal_ok sha gw d" and i: "dk_intents d (sha (utf8 op)) = Some i" "key_ok sha gw op (it_key i)"
    and c: "dk_completed d (sha (utf8 op)) = Some c"
    and cur: "dk_current d (resource_key sha (it_key i)) = Some (prepared_pointer op)"
  shows "journal_ok sha gw (d\<lparr>dk_current := (dk_current d)(resource_key sha (it_key i) \<mapsto> completed_pointer op)\<rparr>)" (is "journal_ok sha gw ?d")
proof (rule journal_okI)
  fix k j assume "dk_intents ?d k = Some j"
  then have j: "dk_intents d k = Some j" by simp
  have "previous_ok sha ?d j" using journal_okD(1) [OF ok j] by (auto simp: intent_ok_def previous_ok_def)
  then show "intent_ok sha gw ?d k j" using journal_okD(1) [OF ok j] by (auto simp: intent_ok_def)
  show "planned_ok sha ?d k j"
    using journal_okD(2) [OF ok j] completed_only_prepared(2) [OF ok cur j] by (auto simp: planned_ok_def shown_def)
next
  show "completion_ok sha ?d k c" if "dk_completed ?d k = Some c" for k c
    using journal_okD(3) [OF ok, of k c] that by (simp add: completion_ok_def)
  show "pointer_ok sha ?d rk p" if "dk_current ?d rk = Some p" for rk p
  proof (cases "rk = resource_key sha (it_key i)")
    case True
    with that c journal_okD(4) [OF ok cur] show ?thesis by (auto simp: pointer_ok_def shown_def)
  next
    case False
    with that journal_okD(4) [OF ok, of rk p] show ?thesis by (simp add: untouched)
  qed
qed

lemma ok_complete:
  assumes ok: "journal_ok sha gw d" and i: "dk_intents d (sha (utf8 op)) = Some i" "key_ok sha gw op (it_key i)"
    and none: "dk_completed d (sha (utf8 op)) = None"
    and cur: "dk_current d (resource_key sha (it_key i)) = Some (prepared_pointer op)"
    and new: "shown sha d (it_key i) = ek_new (it_key i)" and c: "completes sha i c"
  shows "journal_ok sha gw (d\<lparr>dk_completed := (dk_completed d)(sha (utf8 op) \<mapsto> c)\<rparr>)" (is "journal_ok sha gw ?d")
proof (rule journal_okI)
  fix k j assume "dk_intents ?d k = Some j"
  then have j: "dk_intents d k = Some j" by simp
  have "previous_ok sha ?d j" using journal_okD(1) [OF ok j] by (auto simp: intent_ok_def previous_ok_def)
  then show "intent_ok sha gw ?d k j" using journal_okD(1) [OF ok j] by (auto simp: intent_ok_def)
  show "planned_ok sha ?d k j" using journal_okD(2) [OF ok j] by (auto simp: planned_ok_def shown_def split: if_splits)
next
  show "completion_ok sha ?d k x" if "dk_completed ?d k = Some x" for k x
    using journal_okD(3) [OF ok, of k x] that i c by (auto simp: completion_ok_def split: if_splits)
  show "pointer_ok sha ?d rk p" if "dk_current ?d rk = Some p" for rk p
  proof (cases "sha (utf8 (pt_operation_id p)) = sha (utf8 op)")
    case True
    with that journal_okD(4) [OF ok, of rk p] new i(1) show ?thesis
      by (auto simp: pointer_ok_def shown_def split: if_splits)
  next
    case False
    with that journal_okD(4) [OF ok, of rk p] show ?thesis by (auto simp: pointer_ok_def shown_def)
  qed
qed

lemma ok_apply:
  assumes wf: "wf_gateway gw" and ok: "journal_ok sha gw d" and i: "dk_intents d (sha (utf8 op)) = Some i" "key_ok sha gw op (it_key i)"
    and none: "dk_completed d (sha (utf8 op)) = None"
    and cur: "dk_current d (resource_key sha (it_key i)) = Some (prepared_pointer op)"
    and new: "ek_new (it_key i) = state_of sha (Some data)"
  shows "journal_ok sha gw (d\<lparr>dk_targets := (dk_targets d)(ek_relative_path (it_key i) \<mapsto> data)\<rparr>)" (is "journal_ok sha gw ?d")
proof (rule journal_okI)
  have same: "resource_key sha (it_key j) = resource_key sha (it_key i)"
    if "dk_intents d k = Some j" "ek_relative_path (it_key j) = ek_relative_path (it_key i)" for k j
    using path_resource [OF wf _ i(2) that(2)] journal_okD(1) [OF ok that(1)] by (auto simp: intent_ok_def)
  fix k j assume "dk_intents ?d k = Some j"
  then have j: "dk_intents d k = Some j" by simp
  show "intent_ok sha gw ?d k j" using journal_okD(1) [OF ok j] by (auto simp: intent_ok_def previous_ok_def)
  show "planned_ok sha ?d k j"
    using journal_okD(2) [OF ok j] same [OF j] cur completed_only_prepared(1) [OF ok cur j] by (auto simp: planned_ok_def shown_def)
next
  show "completion_ok sha ?d k x" if "dk_completed ?d k = Some x" for k x
    using journal_okD(3) [OF ok, of k x] that by (simp add: completion_ok_def)
  show "pointer_ok sha ?d rk p" if "dk_current ?d rk = Some p" for rk p
  proof -
    from that have p: "dk_current d rk = Some p" by simp
    obtain j where j: "dk_intents d (sha (utf8 (pt_operation_id p))) = Some j" "resource_key sha (it_key j) = rk"
      using journal_okD(4) [OF ok p] by (auto simp: pointer_ok_def)
    have "j = i" if "ek_relative_path (it_key j) = ek_relative_path (it_key i)"
    proof -
      have "resource_key sha (it_key j) = resource_key sha (it_key i)"
        using path_resource [OF wf _ i(2) that] journal_okD(1) [OF ok j(1)] by (auto simp: intent_ok_def)
      with p j cur have "pt_operation_id p = op" by simp
      with j i show ?thesis by simp
    qed
    with journal_okD(4) [OF ok p] j new none i show ?thesis by (auto simp: pointer_ok_def shown_def split: if_splits)
  qed
qed

lemma journal_ok_step: "wf_gateway gw \<Longrightarrow> journal_ok sha gw d \<Longrightarrow> journal_step sha gw op d d' \<Longrightarrow> journal_ok sha gw d'"
  by (erule journal_step.cases) (auto intro: ok_payload ok_intent ok_prepare ok_execution ok_apply ok_complete ok_settle)

section \<open>Calls of the gateway\<close>

text \<open>One call for the operation \<open>op\<close>, whatever fence it holds and wherever it is cut.\<close>

inductive effect_step :: "(string \<Rightarrow> string) \<Rightarrow> gateway \<Rightarrow> string \<Rightarrow> gateway_disk \<Rightarrow> gateway_disk \<Rightarrow> bool" for sha gw op where
  e_write: "ec_operation_id call = Some op \<Longrightarrow> effect_write sha gw hold io call data d = (r, d') \<Longrightarrow> effect_step sha gw op d d'"
| e_resume: "ec_operation_id call = Some op \<Longrightarrow> effect_resume sha gw hold io call d = (r, d') \<Longrightarrow> effect_step sha gw op d d'"
| e_reconcile: "ec_operation_id call = Some op \<Longrightarrow> effect_reconcile sha gw hold verified io call historical d = (q, d') \<Longrightarrow>
    effect_step sha gw op d d'"

inductive_cases effect_stepE: "effect_step sha gw op d d'"

definition journal_steps :: "(string \<Rightarrow> string) \<Rightarrow> gateway \<Rightarrow> gateway_disk \<Rightarrow> gateway_disk \<Rightarrow> bool" where
  "journal_steps sha gw d d' \<longleftrightarrow> (\<exists>op. journal_step sha gw op d d')"

definition effect_steps :: "(string \<Rightarrow> string) \<Rightarrow> gateway \<Rightarrow> gateway_disk \<Rightarrow> gateway_disk \<Rightarrow> bool" where
  "effect_steps sha gw d d' \<longleftrightarrow> (\<exists>op. effect_step sha gw op d d')"

lemma effect_step_journal: "effect_step sha gw op d d' \<Longrightarrow> (journal_step sha gw op)\<^sup>*\<^sup>* d d'"
  by (auto simp: effect_write_def elim!: effect_stepE
      intro: leads_run [OF effect_write_leads] leads_run [OF effect_resume_leads] leads_run [OF effect_reconcile_leads])

lemma journal_run_steps: "(journal_step sha gw op)\<^sup>*\<^sup>* d d' \<Longrightarrow> (journal_steps sha gw)\<^sup>*\<^sup>* d d'"
  by (erule rtranclp_mono [THEN predicate2D, rotated]) (auto simp: journal_steps_def)

lemma effect_run_journal: "(effect_steps sha gw)\<^sup>*\<^sup>* d d' \<Longrightarrow> (journal_steps sha gw)\<^sup>*\<^sup>* d d'"
proof (induction rule: rtranclp_induct)
  case (step a b)
  then have "(journal_steps sha gw)\<^sup>*\<^sup>* a b" by (auto simp: effect_steps_def dest!: effect_step_journal journal_run_steps)
  with step.IH show ?case by (rule rtranclp_trans)
qed simp

section \<open>An applied operation\<close>

definition applied :: "(string \<Rightarrow> string) \<Rightarrow> string \<Rightarrow> gateway_disk \<Rightarrow> bool" where
  "applied sha op d \<longleftrightarrow> (\<exists>i. dk_intents d (sha (utf8 op)) = Some i \<and> ek_operation_id (it_key i) = op \<and>
     (dk_completed d (sha (utf8 op)) \<noteq> None \<or>
      dk_current d (resource_key sha (it_key i)) = Some (prepared_pointer op) \<and> shown sha d (it_key i) = ek_new (it_key i)))"

lemma applied_step:
  assumes wf: "wf_gateway gw" and ok: "journal_ok sha gw d" and "applied sha op d" and step: "journal_step sha gw op' d d'"
  shows "applied sha op d'"
proof -
  from assms(3) obtain i where i: "dk_intents d (sha (utf8 op)) = Some i" "ek_operation_id (it_key i) = op"
    and a: "dk_completed d (sha (utf8 op)) \<noteq> None \<or>
      dk_current d (resource_key sha (it_key i)) = Some (prepared_pointer op) \<and> shown sha d (it_key i) = ek_new (it_key i)"
    by (auto simp: applied_def)
  from journal_okD(1) [OF ok i(1)] have key: "key_ok sha gw op (it_key i)" using i(2) by (simp add: intent_ok_def)
  from step show ?thesis
  proof cases
    case (j_prepare j)
    have "resource_key sha (it_key j) \<noteq> resource_key sha (it_key i) \<or> op' = op"
      if cur: "dk_current d (resource_key sha (it_key i)) = Some (prepared_pointer op)"
      using j_prepare(5) cur completed_only_prepared(1) [OF ok cur j_prepare(2)] by auto
    with a i j_prepare show ?thesis by (auto simp: applied_def shown_def)
  next
    case (j_apply j data)
    have "ek_relative_path (it_key j) \<noteq> ek_relative_path (it_key i)" 
      if "dk_current d (resource_key sha (it_key i)) = Some (prepared_pointer op)" "shown sha d (it_key i) = ek_new (it_key i)"
    proof
      assume "ek_relative_path (it_key j) = ek_relative_path (it_key i)"
      from path_resource [OF wf j_apply(3) key this] that(1) j_apply(5) have "op' = op" by simp
      with j_apply i that(2) show False by simp
    qed
    with a i j_apply show ?thesis by (auto simp: applied_def shown_def)
  qed (use a i in \<open>auto simp: applied_def shown_def\<close>)
qed

lemma applied_keeps_targets:
  "applied sha op d \<Longrightarrow> journal_step sha gw op d d' \<Longrightarrow> dk_targets d' = dk_targets d"
  by (erule journal_step.cases) (auto simp: applied_def)

interpretation efx: ranked_steps "journal_steps sha gw" "\<lambda>d. wf_gateway gw \<and> journal_ok sha gw d" "applied sha op" for sha gw op
  by unfold_locales (auto simp: journal_steps_def intro: journal_ok_step applied_step)

text \<open>A run of one operation replaces at most one file, once, by its payload.\<close>

definition replaced :: "(string \<Rightarrow> string) \<Rightarrow> string \<Rightarrow> gateway_disk \<Rightarrow> gateway_disk \<Rightarrow> bool" where
  "replaced sha op d d' \<longleftrightarrow> (\<exists>i data. dk_intents d' (sha (utf8 op)) = Some i \<and> ek_new (it_key i) = state_of sha (Some data) \<and>
     dk_targets d' = (dk_targets d)(ek_relative_path (it_key i) \<mapsto> data))"

lemma intents_kept: "journal_step sha gw op d d' \<Longrightarrow> dk_intents d k = Some i \<Longrightarrow> dk_intents d' k = Some i"
  by (erule journal_step.cases) auto

lemma change_applied:
  "journal_step sha gw op d d' \<Longrightarrow> dk_targets d' \<noteq> dk_targets d \<Longrightarrow> applied sha op d' \<and> replaced sha op d d'"
  by (erule journal_step.cases) (auto simp: applied_def replaced_def shown_def key_ok_def)

lemma run_changes_once:
  assumes "wf_gateway gw" "journal_ok sha gw d" "(journal_step sha gw op)\<^sup>*\<^sup>* d d'"
  shows "dk_targets d' = dk_targets d \<or> applied sha op d' \<and> replaced sha op d d'"
  using assms(3)
proof (induction rule: rtranclp_induct)
  case (step a b)
  have ok: "journal_ok sha gw a" using efx.inv_run [OF journal_run_steps [OF step.hyps(1)]] assms(1,2) by blast
  from step.IH show ?case
  proof
    assume eq: "dk_targets a = dk_targets d"
    show ?case
    proof (cases "dk_targets b = dk_targets a")
      case False
      with change_applied [OF step.hyps(2)] eq show ?thesis by (simp add: replaced_def)
    qed (simp add: eq)
  next
    assume a: "applied sha op a \<and> replaced sha op d a"
    then have "dk_targets b = dk_targets a" using applied_keeps_targets step.hyps(2) by blast
    with a applied_step [OF assms(1) ok _ step.hyps(2)] intents_kept [OF step.hyps(2)] show ?case
      by (auto simp: replaced_def)
  qed
qed simp

lemma applied_run_inert:
  assumes "(journal_step sha gw op)\<^sup>*\<^sup>* d d'" "wf_gateway gw" "journal_ok sha gw d" "applied sha op d"
  shows "dk_targets d' = dk_targets d"
  using assms
proof (induction rule: rtranclp_induct)
  case (step a b)
  then have inv: "wf_gateway gw \<and> journal_ok sha gw d" by blast
  from step have "applied sha op a" using efx.rank_run [OF journal_run_steps [OF step.hyps(1)] inv, of op] by simp
  with applied_keeps_targets [OF _ step.hyps(2)] step.IH step.prems show ?case by simp
qed simp

end
