(* ===== verification/Effect_Resume.thy ===== *)
theory Effect_Resume
  imports Effect_Safety
begin

text \<open>
  Recovery of an interrupted operation: from every disk that the calls of the gateway can leave
  behind, a call that is not disturbed any more carries a pending operation to its end.
\<close>

section \<open>Undisturbed calls\<close>

definition undisturbed :: "(nat \<Rightarrow> unit result) \<Rightarrow> (nat \<Rightarrow> fault) \<Rightarrow> bool" where
  "undisturbed check io \<longleftrightarrow> (\<forall>n. check n = Inr () \<and> io n = Pass)"

definition fits :: "(string \<Rightarrow> string) \<Rightarrow> pyval \<Rightarrow> bool" where
  "fits sha body \<longleftrightarrow> int (length (sealed sha body)) \<le> META_LIMIT"

lemma io_bind_Inr: "m d = (Inr x, d1) \<Longrightarrow> io_bind m f d = f x d1"
  by (simp add: io_bind_def)

lemma persist_undisturbed: "undisturbed check io \<Longrightarrow> change d = Inr d1 \<Longrightarrow> persist check io n change d = (Inr (), d1)"
  by (simp add: undisturbed_def persist_def)

lemma record_undisturbed:
  "undisturbed check io \<Longrightarrow> fits sha body \<Longrightarrow> change d = Inr d1 \<Longrightarrow> record_body sha check io n body change d = (Inr (), d1)"
  by (simp add: record_body_def fits_def persist_undisturbed)

lemma target_state_readable:
  assumes "fs_bytes (state_of sha (dk_targets d path)) \<le> gw_max_bytes gw" "missing \<or> fs_exists (state_of sha (dk_targets d path))"
  shows "target_state sha gw path missing d = (Inr (state_of sha (dk_targets d path)), d)"
  using assms by (auto simp: target_state_def read_target_def state_of_def split: option.splits)

text \<open>What the journal must have room for: the records of the rest of the operation.\<close>

definition completion_of :: "(string \<Rightarrow> string) \<Rightarrow> effect_call \<Rightarrow> executor \<Rightarrow> intent \<Rightarrow> bool \<Rightarrow> completion" where
  "completion_of sha call x i applied_now =
     \<lparr>cp_intent_sha256 = body_digest sha (intent_dump i),
      cp_result = effect_result_of (operation_key sha (it_key i)) call i (ek_relative_path (it_key i)), cp_completed_by = x,
      cp_completion_basis = (if applied_now then ''applied_now'' else ''observed_target'')\<rparr>"

definition execution_of :: "(string \<Rightarrow> string) \<Rightarrow> executor \<Rightarrow> intent \<Rightarrow> execution" where
  "execution_of sha x i = \<lparr>xn_intent_sha256 = body_digest sha (intent_dump i), xn_executor = x\<rparr>"

definition has_room :: "(string \<Rightarrow> string) \<Rightarrow> effect_call \<Rightarrow> executor \<Rightarrow> intent \<Rightarrow> gateway_disk \<Rightarrow> bool" where
  "has_room sha call x i d \<longleftrightarrow>
     (let op = ek_operation_id (it_key i); slot = dk_executions d (operation_key sha (it_key i), body_digest sha (executor_dump x)) in
      fits sha (pointer_dump (prepared_pointer op)) \<and> fits sha (pointer_dump (completed_pointer op)) \<and>
      fits sha (execution_dump (execution_of sha x i)) \<and>
      fits sha (completion_dump (completion_of sha call x i True)) \<and> fits sha (completion_dump (completion_of sha call x i False)) \<and>
      slot \<in> {None, Some (execution_of sha x i)})"

lemma install_execution_room:
  assumes "dk_executions d (k, xk) \<in> {None, Some x}"
  obtains e where "install_execution sha k xk x d = Inr (d\<lparr>dk_executions := e\<rparr>)"
proof (cases "dk_executions d (k, xk)")
  case None
  then show ?thesis by (intro that) (simp add: install_execution_def immutable_def)
next
  case (Some y)
  with assms have "install_execution sha k xk x d = Inr (d\<lparr>dk_executions := dk_executions d\<rparr>)"
    by (simp add: install_execution_def immutable_def)
  then show ?thesis by (rule that)
qed

lemma apply_undisturbed:
  assumes u: "undisturbed check io" and new: "ek_new (it_key i) = state_of sha (Some data)"
    and sizes: "fs_bytes (it_old i) \<le> gw_max_bytes gw" "int (length data) \<le> gw_max_bytes gw"
    and visible: "shown sha d (it_key i) \<in> {it_old i, ek_new (it_key i)}"
  obtains b t where "apply_target sha gw check io (ek_relative_path (it_key i)) data i d = (Inr b, d\<lparr>dk_targets := t\<rparr>)"
    and "state_of sha (t (ek_relative_path (it_key i))) = ek_new (it_key i)"
proof (cases "shown sha d (it_key i) = ek_new (it_key i)")
  case True
  have "fs_bytes (state_of sha (dk_targets d (ek_relative_path (it_key i)))) \<le> gw_max_bytes gw"
    using True new sizes by (simp add: shown_def state_of_def)
  then have "target_state sha gw (ek_relative_path (it_key i)) True d = (Inr (ek_new (it_key i)), d)"
    using target_state_readable [of sha d] True by (simp add: shown_def)
  then have "apply_target sha gw check io (ek_relative_path (it_key i)) data i d = (Inr False, d\<lparr>dk_targets := dk_targets d\<rparr>)"
    by (simp add: apply_target_def io_bind_Inr io_return_def)
  with True show ?thesis by (intro that [of False "dk_targets d"]) (simp_all add: shown_def)
next
  case False
  with visible have old: "shown sha d (it_key i) = it_old i" "it_old i \<noteq> ek_new (it_key i)" by auto
  then have "target_state sha gw (ek_relative_path (it_key i)) True d = (Inr (it_old i), d)"
    using target_state_readable [of sha d] sizes by (simp add: shown_def)
  moreover have "persist check io 5 (replace_target (ek_relative_path (it_key i)) data) d =
      (Inr (), d\<lparr>dk_targets := (dk_targets d)(ek_relative_path (it_key i) \<mapsto> data)\<rparr>)"
    by (rule persist_undisturbed [OF u]) (simp add: replace_target_def)
  ultimately have "apply_target sha gw check io (ek_relative_path (it_key i)) data i d =
      (Inr True, d\<lparr>dk_targets := (dk_targets d)(ek_relative_path (it_key i) \<mapsto> data)\<rparr>)"
    using old by (simp add: apply_target_def io_bind_Inr io_return_def)
  with new show ?thesis by (intro that) (assumption, simp)
qed

lemma run_undisturbed:
  assumes u: "undisturbed check io" and call: "ec_operation_id call = Some (ek_operation_id (it_key i))"
    and new: "ek_new (it_key i) = state_of sha (Some data)"
    and sizes: "fs_bytes (it_old i) \<le> gw_max_bytes gw" "int (length data) \<le> gw_max_bytes gw"
    and visible: "shown sha d (it_key i) \<in> {it_old i, ek_new (it_key i)}"
    and cur: "current \<in> {it_previous i, Some (prepared_pointer (ek_operation_id (it_key i)))}"
    and none: "dk_completed d (operation_key sha (it_key i)) = None" and room: "has_room sha call x i d"
  obtains b t e where "run_intent sha gw check io call x (operation_key sha (it_key i)) rk (ek_relative_path (it_key i)) data current i d =
      (Inr (cp_result (completion_of sha call x i b)),
       d\<lparr>dk_executions := e, dk_targets := t,
         dk_completed := (dk_completed d)(operation_key sha (it_key i) \<mapsto> completion_of sha call x i b),
         dk_current := (dk_current d)(rk \<mapsto> completed_pointer (ek_operation_id (it_key i)))\<rparr>)"
    and "state_of sha (t (ek_relative_path (it_key i))) = ek_new (it_key i)"
proof -
  let ?op = "ek_operation_id (it_key i)" and ?k = "operation_key sha (it_key i)" and ?path = "ek_relative_path (it_key i)"
  let ?d1 = "d\<lparr>dk_current := (dk_current d)(rk \<mapsto> prepared_pointer ?op)\<rparr>"
  obtain e where e: "install_execution sha ?k (body_digest sha (executor_dump x)) (execution_of sha x i) ?d1 = Inr (?d1\<lparr>dk_executions := e\<rparr>)"
    by (rule install_execution_room [of ?d1 ?k "body_digest sha (executor_dump x)" "execution_of sha x i" sha])
      (use room in \<open>auto simp: has_room_def Let_def\<close>)
  let ?d2 = "?d1\<lparr>dk_executions := e\<rparr>"
  obtain b t where t: "apply_target sha gw check io ?path data i ?d2 = (Inr b, ?d2\<lparr>dk_targets := t\<rparr>)" "state_of sha (t ?path) = ek_new (it_key i)"
    by (rule apply_undisturbed [OF u new sizes, of ?d2]) (use visible in \<open>simp_all add: shown_def\<close>)
  let ?d3 = "?d2\<lparr>dk_targets := t\<rparr>"
  have seen: "target_state sha gw ?path False ?d3 = (Inr (ek_new (it_key i)), ?d3)"
    using target_state_readable [of sha ?d3 ?path gw False] t(2) sizes new by (simp add: state_of_def)
  have r1: "record_body sha check io 3 (pointer_dump (prepared_pointer ?op)) (replace_pointer rk (prepared_pointer ?op)) d = (Inr (), ?d1)"
    and r2: "record_body sha check io 4 (execution_dump (execution_of sha x i))
      (install_execution sha ?k (body_digest sha (executor_dump x)) (execution_of sha x i)) ?d1 = (Inr (), ?d2)"
    using room e by (auto intro!: record_undisturbed [OF u] simp: has_room_def Let_def replace_pointer_def)
  have r3: "record_body sha check io 6 (completion_dump (completion_of sha call x i b)) (install_completion sha ?k (completion_of sha call x i b)) ?d3
      = (Inr (), ?d3\<lparr>dk_completed := (dk_completed d)(?k \<mapsto> completion_of sha call x i b)\<rparr>)"
    by (rule record_undisturbed [OF u]) (use room none in \<open>cases b; simp add: has_room_def Let_def install_completion_def immutable_def\<close>)+
  have r4: "record_body sha check io 7 (pointer_dump (completed_pointer ?op)) (replace_pointer rk (completed_pointer ?op))
       (?d3\<lparr>dk_completed := (dk_completed d)(?k \<mapsto> completion_of sha call x i b)\<rparr>)
      = (Inr (), ?d3\<lparr>dk_completed := (dk_completed d)(?k \<mapsto> completion_of sha call x i b), dk_current := (dk_current d)(rk \<mapsto> completed_pointer ?op)\<rparr>)"
    by (rule record_undisturbed [OF u]) (use room in \<open>simp_all add: has_room_def Let_def replace_pointer_def\<close>)
  have "run_intent sha gw check io call x ?k rk ?path data current i d = (Inr (cp_result (completion_of sha call x i b)),
      ?d3\<lparr>dk_completed := (dk_completed d)(?k \<mapsto> completion_of sha call x i b), dk_current := (dk_current d)(rk \<mapsto> completed_pointer ?op)\<rparr>)"
    using cur call r1 r2 r3 r4 t(1) seen
    by (auto simp: run_intent_def Let_def io_bind_Inr io_return_def execution_of_def completion_of_def)
  with t(2) show ?thesis by (intro that [of b t e]) simp_all
qed

section \<open>Resuming\<close>

text \<open>The current owner works for the same tenant, authority and work item as the original one.\<close>

definition same_work :: "effect_call \<Rightarrow> held_fence \<Rightarrow> effect_key \<Rightarrow> bool" where
  "same_work call f k \<longleftrightarrow>
     ek_tenant_id k = ctx_tenant_id (the (eo_caller (ec_owner call))) \<and>
     ek_authority_id k = ctx_authority_id (the (eo_caller (ec_owner call))) \<and> ek_work_item_id k = hf_work_item_id f"

lemma resumed_key_same:
  assumes "key_ok sha gw op (it_key i)" "ec_operation_id call = Some op" "ec_resource_id call = ek_resource_id (it_key i)"
    and "same_work call f (it_key i)" "ek_new (it_key i) = state_of sha (Some data)"
  shows "resumed_key (Some i) (call_key sha gw call f (ek_relative_path (it_key i)) data) = Inr (it_key i)"
  using assms by (simp add: resumed_key_def call_key_def key_ok_def same_work_def Let_def)

lemma resume_undisturbed:
  assumes ok: "journal_ok sha gw d" and i: "dk_intents d (sha (utf8 op)) = Some i" "ek_operation_id (it_key i) = op"
    and none: "dk_completed d (sha (utf8 op)) = None"
    and cur: "dk_current d (resource_key sha (it_key i)) \<in> {it_previous i, Some (prepared_pointer op)}"
    and gw: "gw_open gw" and call: "effect_identity (Some op) = Inr ()" "ec_operation_id call = Some op" "ec_resource_id call = ek_resource_id (it_key i)"
      "target gw (ec_resource_id call) (ec_relative_path call) d = Inr (ek_relative_path (it_key i))"
    and f: "effect_fence gw hold call = Inr f" "undisturbed (hf_check f) io" "same_work call f (it_key i)"
    and room: "has_room sha call (call_executor call f) i d"
  obtains b t e where "effect_resume sha gw hold io call d =
      (Inr (cp_result (completion_of sha call (call_executor call f) i b)),
       d\<lparr>dk_executions := e, dk_targets := t,
         dk_completed := (dk_completed d)(sha (utf8 op) \<mapsto> completion_of sha call (call_executor call f) i b),
         dk_current := (dk_current d)(resource_key sha (it_key i) \<mapsto> completed_pointer op)\<rparr>)"
    and "state_of sha (t (ek_relative_path (it_key i))) = ek_new (it_key i)"
proof -
  obtain data where data: "dk_payloads d (sha (utf8 op)) = Some data" "ek_new (it_key i) = state_of sha (Some data)"
    "int (length data) \<le> gw_max_bytes gw" and iok: "key_ok sha gw op (it_key i)" "fs_bytes (it_old i) \<le> gw_max_bytes gw"
    using journal_okD(1) [OF ok i(1)] i(2) unfolding intent_ok_def by blast
  have visible: "shown sha d (it_key i) \<in> {it_old i, ek_new (it_key i)}"
    using cur journal_okD(2) [OF ok i(1)] journal_okD(4) [OF ok, of "resource_key sha (it_key i)" "prepared_pointer op"] none i
    by (auto simp: planned_ok_def pointer_ok_def)
  have key: "resumed_key (Some i) (call_key sha gw call f (ek_relative_path (it_key i)) data) = Inr (it_key i)"
    using resumed_key_same [OF iok(1) call(2,3) f(3) data(2)] .
  obtain b t e where run: "run_intent sha gw (hf_check f) io call (call_executor call f) (operation_key sha (it_key i)) (resource_key sha (it_key i))
        (ek_relative_path (it_key i)) data (dk_current d (resource_key sha (it_key i))) i d =
      (Inr (cp_result (completion_of sha call (call_executor call f) i b)),
       d\<lparr>dk_executions := e, dk_targets := t,
         dk_completed := (dk_completed d)(operation_key sha (it_key i) \<mapsto> completion_of sha call (call_executor call f) i b),
         dk_current := (dk_current d)(resource_key sha (it_key i) \<mapsto> completed_pointer (ek_operation_id (it_key i)))\<rparr>)"
    and t: "state_of sha (t (ek_relative_path (it_key i))) = ek_new (it_key i)"
    by (rule run_undisturbed [OF f(2) _ data(2) _ data(3) visible _ _ room, of "dk_current d (resource_key sha (it_key i))"])
      (use iok i(2) none cur call(2) in simp_all)
  note run = run [unfolded i(2)]
  have "write_held sha gw io call data (Some i) f d = run_intent sha gw (hf_check f) io call (call_executor call f) (sha (utf8 op))
      (resource_key sha (it_key i)) (ek_relative_path (it_key i)) data (dk_current d (resource_key sha (it_key i))) i d"
    using gw call key i(1) none
    by (simp add: write_held_def exclusive_def Let_def io_bind_Inr settle_intent_def continue_intent_def)
  then have "effect_write_as sha gw hold io call data (Some i) d = write_held sha gw io call data (Some i) f d"
    using run call f(1) data(3) by (simp add: effect_write_as_def unavailable_on_error_def io_bind_Inr io_return_def)
  with \<open>write_held _ _ _ _ _ _ _ _ = _\<close> run have "effect_resume sha gw hold io call d = run_intent sha gw (hf_check f) io call (call_executor call f)
      (sha (utf8 op)) (resource_key sha (it_key i)) (ek_relative_path (it_key i)) data (dk_current d (resource_key sha (it_key i))) i d"
    using gw call i(1) data by (simp add: effect_resume_def unavailable_on_error_def exclusive_def)
  with run t show ?thesis by (intro that [of b t e]) simp_all
qed

text \<open>A readback of an operation that is complete and still shown.\<close>

lemma observe_completed:
  assumes "gw_open gw" "effect_identity (Some op) = Inr ()" "target gw (ek_resource_id (it_key i)) relative d = Inr (ek_relative_path (it_key i))"
    and "dk_intents d (sha (utf8 op)) = Some i" "key_ok sha gw op (it_key i)" "dk_completed d (sha (utf8 op)) = Some c" "completes sha i c"
    and new: "shown sha d (it_key i) = ek_new (it_key i)" "fs_exists (ek_new (it_key i))" "fs_bytes (ek_new (it_key i)) \<le> gw_max_bytes gw"
  shows "\<exists>v. observe sha gw (ek_lease_id (it_key i)) (ek_resource_id (it_key i)) (ek_generation (it_key i)) (ek_fencing_token (it_key i))
    relative (Some op) d = Inr v \<and> ef_completion_state v = ''completed'' \<and> ef_sha256 v = fs_sha256 (ek_new (it_key i))"
proof -
  obtain data where data: "dk_targets d (ek_relative_path (it_key i)) = Some data" "state_of sha (Some data) = ek_new (it_key i)"
    using new(1) [symmetric] new(2) by (cases "dk_targets d (ek_relative_path (it_key i))") (auto simp: shown_def state_of_def)
  have "fs_bytes (state_of sha (Some data)) \<le> gw_max_bytes gw" using data new by simp
  then have "read_target gw (ek_relative_path (it_key i)) False d = Inr (Some data)"
    using data(1) by (simp add: read_target_def state_of_def)
  moreover have "intent_binds gw (ek_lease_id (it_key i)) (ek_resource_id (it_key i)) (ek_generation (it_key i)) (ek_fencing_token (it_key i))
      (ek_relative_path (it_key i)) op (it_key i)"
    using assms(5) by (simp add: intent_binds_def key_ok_def)
  moreover have "completion_binds sha i op (ek_resource_id (it_key i)) (ek_relative_path (it_key i)) (ek_new (it_key i)) c"
    using assms(5,7) by (simp add: completes_def key_ok_def)
  ultimately show ?thesis using assms data(2) by (simp add: observe_def exclusive_def Let_def)
qed

end
