(* ===== verification/Effect_Properties.thy ===== *)
theory Effect_Properties
  imports Effect_Resume
begin

text \<open>
  The guarantees of the effect gateway over all sequences of calls, cut at any point, and its
  composition with the lease authority that fences it.
\<close>

section \<open>Fenced calls\<close>

lemma fence_refused: "effect_fence gw hold call = Inl e \<Longrightarrow> (\<exists>e'. effect_write_as sha gw hold io call data original d = (Inl e', d))"
  by (cases "effect_identity (ec_operation_id call)")
    (auto simp: effect_write_as_def unavailable_on_error_def io_bind_def io_return_def)

section \<open>Every change is checked\<close>

text \<open>
  The visible changes of a call with the fence check directly before each. \<open>valid n\<close> says that check number \<open>n\<close>, the
  one of the \<open>n\<close>-th \<open>_persist\<close>, was passed: the payload is the first, the intent the second, the pointer of the
  resource the third (and the seventh, when the operation is complete), the execution the fourth, the replacement of the protected file
  the fifth, the completion the sixth.
\<close>

inductive fenced_step :: "(nat \<Rightarrow> bool) \<Rightarrow> gateway_disk \<Rightarrow> gateway_disk \<Rightarrow> bool" for valid where
  f_payload: "valid 1 \<Longrightarrow> fenced_step valid d (d\<lparr>dk_payloads := p\<rparr>)"
| f_intent: "valid 2 \<Longrightarrow> fenced_step valid d (d\<lparr>dk_intents := i\<rparr>)"
| f_pointer: "valid n \<Longrightarrow> n = 3 \<or> n = 7 \<Longrightarrow> fenced_step valid d (d\<lparr>dk_current := c\<rparr>)"
| f_execution: "valid 4 \<Longrightarrow> fenced_step valid d (d\<lparr>dk_executions := x\<rparr>)"
| f_target: "valid 5 \<Longrightarrow> fenced_step valid d (d\<lparr>dk_targets := t\<rparr>)"
| f_completion: "valid 6 \<Longrightarrow> fenced_step valid d (d\<lparr>dk_completed := e\<rparr>)"

lemma fenced_changes: "(fenced_step valid)\<^sup>*\<^sup>* d d' \<Longrightarrow> dk_targets d' \<noteq> dk_targets d \<Longrightarrow> valid 5"
  by (induction rule: rtranclp_induct) (auto elim!: fenced_step.cases)

definition fenced_io :: "(nat \<Rightarrow> bool) \<Rightarrow> 'a io \<Rightarrow> bool" where
  "fenced_io valid m \<longleftrightarrow> (\<forall>d. leads (fenced_step valid) m d (\<lambda>_ _. True))"

lemma fenced_run: "fenced_io valid m \<Longrightarrow> (fenced_step valid)\<^sup>*\<^sup>* d (snd (m d))"
  by (simp add: fenced_io_def leads_def)

lemma fenced_return: "fenced_io valid (io_return r)"
  by (simp add: fenced_io_def leads_returnI)

lemma fenced_target_state: "fenced_io valid (target_state sha gw path missing)"
  unfolding fenced_io_def by (blast intro: leads_mono [OF leads_target_state])

lemma fenced_bind: "fenced_io valid m \<Longrightarrow> (\<And>x. fenced_io valid (f x)) \<Longrightarrow> fenced_io valid (io_bind m f)"
  unfolding fenced_io_def by (blast intro: leads_bind)

lemma fenced_if: "fenced_io valid m \<Longrightarrow> fenced_io valid m' \<Longrightarrow> fenced_io valid (if b then m else m')"
  by simp

lemma fenced_catch: "fenced_io valid m \<Longrightarrow> fenced_io valid (unavailable_on_error resource m)"
  unfolding fenced_io_def by (blast intro: leads_catch)

lemma fenced_persist:
  assumes "check n = Inr () \<Longrightarrow> valid n" "\<And>d d1. valid n \<Longrightarrow> change d = Inr d1 \<Longrightarrow> d1 = d \<or> fenced_step valid d d1"
  shows "fenced_io valid (persist check io n change)" and "fenced_io valid (record_body sha check io n body change)"
  unfolding fenced_io_def by (intro allI leads_persist_checked leads_record_checked; use assms in blast)+

lemma fenced_installs:
  assumes "\<And>n. check n = Inr () \<Longrightarrow> valid n"
  shows "fenced_io valid (persist check io 1 (install_payload key data))"
    and "fenced_io valid (record_body sha check io 2 body (install_intent sha key i))"
    and "fenced_io valid (record_body sha check io 3 body (replace_pointer rkey p))"
    and "fenced_io valid (record_body sha check io 4 body (install_execution sha key xkey x))"
    and "fenced_io valid (persist check io 5 (replace_target path data))"
    and "fenced_io valid (record_body sha check io 6 body (install_completion sha key c))"
    and "fenced_io valid (record_body sha check io 7 body (replace_pointer rkey p))"
  by (rule fenced_persist, rule assms,
      auto simp: install_payload_def install_intent_def install_execution_def install_completion_def replace_pointer_def replace_target_def
        immutable_Inr intro: fenced_step.intros)+

lemmas fenced_intros = fenced_bind fenced_return fenced_target_state fenced_if fenced_installs

lemma settle_intent_fenced:
  assumes "\<And>n. check n = Inr () \<Longrightarrow> valid n"
  shows "fenced_io valid (settle_intent sha gw check io key path data current k)"
proof -
  have r: "fenced_io valid (record_intent sha gw check io key path data current k)"
    unfolding record_intent_def Let_def by (intro fenced_intros assms)
  then show ?thesis by (auto simp: fenced_io_def leads_def settle_intent_def split: option.split)
qed

lemma continue_intent_fenced:
  assumes "\<And>n. check n = Inr () \<Longrightarrow> valid n"
  shows "fenced_io valid (continue_intent sha gw check io call x key rkey path data current i)"
proof -
  have a: "fenced_io valid (apply_target sha gw check io path data i)" unfolding apply_target_def by (intro fenced_intros assms)
  have "fenced_io valid (replay_completed sha check io rkey current op i c)" for op c
    unfolding replay_completed_def by (intro fenced_intros assms)
  moreover have "fenced_io valid (run_intent sha gw check io call x key rkey path data current i)"
    unfolding run_intent_def Let_def by (intro fenced_intros a assms)
  ultimately show ?thesis by (auto simp: fenced_io_def leads_def continue_intent_def split: option.split)
qed

lemma write_held_fenced:
  assumes "\<And>n. hf_check f n = Inr () \<Longrightarrow> valid n"
  shows "fenced_io valid (write_held sha gw io call data original f)"
proof -
  have "fenced_io valid (io_bind (settle_intent sha gw (hf_check f) io key path data current k)
      (continue_intent sha gw (hf_check f) io call x key rkey path data current))" for key path current k x rkey
    by (intro fenced_bind settle_intent_fenced continue_intent_fenced assms)
  then show ?thesis by (auto simp: fenced_io_def leads_def write_held_def Let_def split: sum.split)
qed

text \<open>
  The lease a call presents is current at a verification of its fence: verification 0 when the fence is taken, verification \<open>n + 1\<close> for check number \<open>n\<close>. The
  table of leases is what the verification sees, and the time is what it reads from the clock.
\<close>

definition current_lease :: "lease_store \<Rightarrow> (nat \<Rightarrow> int) \<Rightarrow> (nat \<Rightarrow> lease_db) \<Rightarrow> effect_call \<Rightarrow> nat \<Rightarrow> bool" where
  "current_lease st clk dbs call n =
     (case lookup_lease st (ec_lease_id call) (ec_resource_id call) (dbs n) of
        None \<Rightarrow> False
      | Some x \<Rightarrow> le_status x = ''granted'' \<and> clk (6 * n + 5) < le_expires_at x \<and> le_generation x = ec_generation call \<and>
          le_fencing_token x = ec_fencing_token call)"

lemma lease_hold_current:
  assumes "lease_hold st clk ids dbs call permission = Inr f"
  shows "current_lease st clk dbs call 0" and "hf_check f n = Inr () \<Longrightarrow> current_lease st clk dbs call (Suc n)"
  using assms unfolding lease_hold_def hold_fence_def Let_def current_lease_def
  by (auto split: if_splits dest!: verify_row_Inr)

lemma effect_fence_Inr:
  assumes "effect_fence gw (lease_hold st clk ids dbs) call = Inr f"
  shows "current_lease st clk dbs call 0" and "current_lease st clk dbs call 1" and "\<And>n. hf_check f n = Inr () \<Longrightarrow> current_lease st clk dbs call (Suc n)"
proof -
  from assms have f: "lease_hold st clk ids dbs call ''effect.write'' = Inr f" and check: "hf_check f 0 = Inr ()"
    unfolding effect_fence_def Let_def by (auto split: if_splits)
  show "current_lease st clk dbs call 0" by (rule lease_hold_current(1) [OF f])
  show "current_lease st clk dbs call 1" using lease_hold_current(2) [OF f check] by simp
  show "hf_check f n = Inr () \<Longrightarrow> current_lease st clk dbs call (Suc n)" for n by (rule lease_hold_current(2) [OF f])
qed

text \<open>What a call may leave behind: an unchanged disk, or one reached by checked changes under a lease that is current when the fence is taken.\<close>

definition under_lease :: "lease_store \<Rightarrow> (nat \<Rightarrow> int) \<Rightarrow> (nat \<Rightarrow> lease_db) \<Rightarrow> effect_call \<Rightarrow> gateway_disk \<Rightarrow> gateway_disk \<Rightarrow> bool" where
  "under_lease st clk dbs call d d' \<longleftrightarrow>
     d' = d \<or> current_lease st clk dbs call 0 \<and> current_lease st clk dbs call 1 \<and> (fenced_step (\<lambda>n. current_lease st clk dbs call (Suc n)))\<^sup>*\<^sup>* d d'"

lemma write_under_lease: "under_lease st clk dbs call d (snd (effect_write_as sha gw (lease_hold st clk ids dbs) io call data original d))"
proof (cases "effect_fence gw (lease_hold st clk ids dbs) call")
  case (Inl e)
  from fence_refused [OF this, of sha io data original d] show ?thesis by (auto simp: under_lease_def)
next
  case (Inr f)
  let ?valid = "\<lambda>n. current_lease st clk dbs call (Suc n)"
  note c = effect_fence_Inr [OF Inr]
  have "fenced_io ?valid (effect_write_as sha gw (lease_hold st clk ids dbs) io call data original)"
  proof (cases "effect_identity (ec_operation_id call)")
    case (Inl e)
    then show ?thesis unfolding effect_write_as_def by (auto simp: fenced_io_def leads_def unavailable_on_error_def io_bind_def io_return_def)
  next
    case ok: (Inr u)
    have "fenced_io ?valid (write_held sha gw io call data original f)" by (rule write_held_fenced [OF c(3)])
    with ok Inr show ?thesis
      unfolding effect_write_as_def by (intro fenced_if fenced_return fenced_catch) (simp add: fenced_io_def leads_def io_bind_def io_return_def)
  qed
  from fenced_run [OF this] c(1,2) show ?thesis by (simp add: under_lease_def)
qed

lemma resume_under_lease: "under_lease st clk dbs call d (snd (effect_resume sha gw (lease_hold st clk ids dbs) io call d))"
proof -
  have snd_catch: "snd (unavailable_on_error resource m d) = snd (m d)" for resource and m :: "effect_result io" and d
    by (simp add: unavailable_on_error_def split: prod.split sum.split)
  show ?thesis
    unfolding effect_resume_def snd_catch Let_def
    by (auto split: sum.split option.split intro: write_under_lease simp: under_lease_def [of _ _ _ _ d d])
qed

lemma reconcile_under_lease: "under_lease st clk dbs call d (snd (effect_reconcile sha gw (lease_hold st clk ids dbs) verified io call historical d))"
proof (cases historical)
  case True
  then show ?thesis by (auto simp: effect_reconcile_def under_lease_def split: sum.split)
next
  case False
  then have "snd (effect_reconcile sha gw (lease_hold st clk ids dbs) verified io call historical d) = snd (effect_resume sha gw (lease_hold st clk ids dbs) io call d)"
    by (auto simp: effect_reconcile_def io_bind_def io_return_def split: prod.split sum.split)
  with resume_under_lease show ?thesis by metis
qed

lemma under_lease_changes:
  assumes "under_lease st clk dbs call d d'"
  shows "\<not> current_lease st clk dbs call 0 \<or> \<not> current_lease st clk dbs call 1 \<Longrightarrow> d' = d"
    and "\<not> current_lease st clk dbs call 6 \<Longrightarrow> dk_targets d' = dk_targets d"
  using assms fenced_changes [of "\<lambda>n. current_lease st clk dbs call (Suc n)" d d'] by (auto simp: under_lease_def)

lemma target_cong: "dk_directories d' = dk_directories d \<Longrightarrow> target gw resource relative d' = target gw resource relative d"
  by (simp add: target_def split: option.split)

section \<open>Samples\<close>

definition gateway_1 :: gateway where
  "gateway_1 = \<lparr>gw_scope_id = ''s'', gw_resources = [(''file'', ''a'')], gw_max_bytes = 16, gw_open = True\<rparr>"

definition disk_1 :: gateway_disk where
  "disk_1 = \<lparr>dk_config = None, dk_entries = [], dk_payloads = Map.empty, dk_intents = Map.empty, dk_completed = Map.empty,
     dk_executions = Map.empty, dk_current = Map.empty, dk_directories = [], dk_targets = [''a'' \<mapsto> ''old'']\<rparr>"

definition sha_1 :: "string \<Rightarrow> string" where
  "sha_1 s = ''h''"

definition owner_1 :: effect_owner where
  "owner_1 = \<lparr>eo_caller = Some (ls_context store_1), eo_attempt_id = Some ''at'', eo_runtime_id = Some ''rt'', eo_scope_id = Some ''s'',
     eo_grant_ref = Some ''g'', eo_authority_incarnation = Some ''1''\<rparr>"

definition call_1 :: effect_call where
  "call_1 = \<lparr>ec_lease_id = ''lease-1'', ec_resource_id = ''file'', ec_generation = 1, ec_fencing_token = ''tok'',
     ec_relative_path = Some ''a'', ec_operation_id = Some ''o'', ec_owner = owner_1\<rparr>"

definition hold_1 :: "effect_call \<Rightarrow> string \<Rightarrow> held_fence result" where
  "hold_1 call permission = Inr \<lparr>hf_work_item_id = ''w'', hf_authority_id = ctx_authority_id (ls_context store_1), hf_check = (\<lambda>_. Inr ())\<rparr>"

definition crash_at :: "nat \<Rightarrow> nat \<Rightarrow> fault" where
  "crash_at k n = (if n = k then After (OSError ''crash'') else Pass)"

lemma gateway_1_wf: "wf_gateway gateway_1"
  by (simp add: wf_gateway_def gateway_1_def)

lemma disk_1_ok: "journal_ok sha gw disk_1"
  by (rule empty_journal_ok) (simp_all add: disk_1_def)

abbreviation crashed_1 :: gateway_disk where
  "crashed_1 \<equiv> snd (effect_write sha_1 gateway_1 hold_1 (crash_at 5) call_1 ''newer'' disk_1)"

lemma crashed_1_target: "dk_targets crashed_1 ''a'' = Some ''newer''"
  by code_simp

lemma call_1_operation: "ec_operation_id call_1 = Some ''o''"
  by (simp add: call_1_def)

lemma crashed_1_step: "effect_step sha_1 gateway_1 ''o'' disk_1 crashed_1"
  by (rule effect_step.e_write [OF call_1_operation, where r = "fst (effect_write sha_1 gateway_1 hold_1 (crash_at 5) call_1 ''newer'' disk_1)"])
    (rule prod.collapse [symmetric])

section \<open>Applied at most once\<close>

text \<open>
  C38. Whatever calls are made, with whatever fences, and wherever each of them fails or the
  process dies: the file of a resource is replaced at most once for an operation. When a
  call for an operation changes a file, it changes exactly the registered file of the
  recorded intent, to bytes with the intended digest and length; and from then on no write,
  resume or reconciliation of that operation changes any file, after any further calls for
  any operations.
\<close>

theorem effect_applied_once:
  assumes "wf_gateway gw" "journal_ok sha gw d0" "(effect_steps sha gw)\<^sup>*\<^sup>* d0 d1"
    and "effect_step sha gw op d1 d2" "dk_targets d2 \<noteq> dk_targets d1"
    and "(effect_steps sha gw)\<^sup>*\<^sup>* d2 d3" "effect_step sha gw op d3 d4"
  shows "(\<exists>i data. dk_intents d2 (sha (utf8 op)) = Some i \<and> state_of sha (Some data) = ek_new (it_key i) \<and>
      dk_targets d2 = (dk_targets d1)(ek_relative_path (it_key i) \<mapsto> data)) \<and> dk_targets d4 = dk_targets d3"
proof -
  have inv: "wf_gateway gw \<and> journal_ok sha gw d0" using assms by blast
  have ok1: "journal_ok sha gw d1" using efx.inv_run [OF effect_run_journal [OF assms(3)] inv] by blast
  note run = effect_step_journal [OF assms(4)]
  from run_changes_once [OF assms(1) ok1 run] assms(5) have a: "applied sha op d2" and r: "replaced sha op d1 d2" by auto
  have inv2: "wf_gateway gw \<and> journal_ok sha gw d2" using efx.inv_run [OF journal_run_steps [OF run]] ok1 assms(1) by blast
  have ok3: "journal_ok sha gw d3" using efx.inv_run [OF effect_run_journal [OF assms(6)] inv2] by blast
  have "applied sha op d3" using efx.rank_run [OF effect_run_journal [OF assms(6)] inv2, of op] a by simp
  with applied_run_inert [OF effect_step_journal [OF assms(7)] assms(1) ok3] r show ?thesis unfolding replaced_def by metis
qed

theorem effect_applied_once_witness:
  "dk_targets crashed_1 \<noteq> dk_targets disk_1 \<and>
   dk_targets (snd (effect_resume sha_1 gateway_1 hold_1 (\<lambda>_. Pass) call_1 crashed_1)) = dk_targets crashed_1"
proof
  show change: "dk_targets crashed_1 \<noteq> dk_targets disk_1"
    using crashed_1_target by (auto simp: disk_1_def)
  have "effect_step sha_1 gateway_1 ''o'' crashed_1 (snd (effect_resume sha_1 gateway_1 hold_1 (\<lambda>_. Pass) call_1 crashed_1))"
    by (rule effect_step.e_resume [OF call_1_operation, where r = "fst (effect_resume sha_1 gateway_1 hold_1 (\<lambda>_. Pass) call_1 crashed_1)"])
      (rule prod.collapse [symmetric])
  from effect_applied_once [OF gateway_1_wf disk_1_ok rtranclp.rtrancl_refl crashed_1_step change rtranclp.rtrancl_refl this]
  show "dk_targets (snd (effect_resume sha_1 gateway_1 hold_1 (\<lambda>_. Pass) call_1 crashed_1)) = dk_targets crashed_1" by blast
qed

section \<open>Interrupted operations complete\<close>

text \<open>
  C39. Recovery: take any disk that a run of calls, cut anywhere, has left behind. If an
  operation has recorded its intent, is not complete, and no other operation has used its
  resource since, then a \<open>resume\<close> of the current lease holder that is not disturbed returns a
  verified result; it leaves a completion record, the pointer of the resource on the
  completed operation, and the file in the intended state, and a readback under the original
  lease identity then reports the operation as completed with the intended digest.
\<close>

theorem interrupted_effect_completes:
  assumes "wf_gateway gw" "journal_ok sha gw d0" "(effect_steps sha gw)\<^sup>*\<^sup>* d0 d"
    and i: "dk_intents d (sha (utf8 op)) = Some i" "ek_operation_id (it_key i) = op" "dk_completed d (sha (utf8 op)) = None"
    and cur: "dk_current d (resource_key sha (it_key i)) \<in> {it_previous i, Some (prepared_pointer op)}"
    and gw: "gw_open gw" "effect_identity (Some op) = Inr ()" "ec_operation_id call = Some op" "ec_resource_id call = ek_resource_id (it_key i)"
      "target gw (ec_resource_id call) (ec_relative_path call) d = Inr (ek_relative_path (it_key i))"
    and f: "effect_fence gw hold call = Inr f" "undisturbed (hf_check f) io" "same_work call f (it_key i)"
    and room: "has_room sha call (call_executor call f) i d"
  shows "\<exists>r d'. effect_resume sha gw hold io call d = (Inr r, d') \<and> ew_status r = ''verified'' \<and> ew_operation_id r = op \<and>
    dk_completed d' (sha (utf8 op)) \<noteq> None \<and> dk_current d' (resource_key sha (it_key i)) = Some (completed_pointer op) \<and>
    shown sha d' (it_key i) = ek_new (it_key i) \<and>
    (\<exists>v. observe sha gw (ek_lease_id (it_key i)) (ek_resource_id (it_key i)) (ek_generation (it_key i)) (ek_fencing_token (it_key i))
       (ec_relative_path call) (Some op) d' = Inr v \<and> ef_completion_state v = ''completed'' \<and> ef_sha256 v = fs_sha256 (ek_new (it_key i)))"
proof -
  have ok: "journal_ok sha gw d" using efx.inv_run [OF effect_run_journal [OF assms(3)]] assms(1,2) by blast
  obtain b t e where res: "effect_resume sha gw hold io call d =
      (Inr (cp_result (completion_of sha call (call_executor call f) i b)),
       d\<lparr>dk_executions := e, dk_targets := t,
         dk_completed := (dk_completed d)(sha (utf8 op) \<mapsto> completion_of sha call (call_executor call f) i b),
         dk_current := (dk_current d)(resource_key sha (it_key i) \<mapsto> completed_pointer op)\<rparr>)" (is "_ = (Inr ?r, ?d)")
    and t: "state_of sha (t (ek_relative_path (it_key i))) = ek_new (it_key i)"
    by (rule resume_undisturbed [OF ok i cur gw f room])
  have key: "key_ok sha gw op (it_key i)" and new: "fs_exists (ek_new (it_key i))" "fs_bytes (ek_new (it_key i)) \<le> gw_max_bytes gw"
    using journal_okD(1) [OF ok i(1)] i(2) by (auto simp: intent_ok_def state_of_def)
  have c: "completes sha i (completion_of sha call (call_executor call f) i b)"
    unfolding completion_of_def by (rule result_completes) (use gw i in simp_all)
  have shown: "shown sha ?d (it_key i) = ek_new (it_key i)" using t by (simp add: shown_def)
  have "\<exists>v. observe sha gw (ek_lease_id (it_key i)) (ek_resource_id (it_key i)) (ek_generation (it_key i)) (ek_fencing_token (it_key i))
       (ec_relative_path call) (Some op) ?d = Inr v \<and> ef_completion_state v = ''completed'' \<and> ef_sha256 v = fs_sha256 (ek_new (it_key i))"
    by (rule observe_completed [OF gw(1,2) _ _ key _ _ shown new, where c = "completion_of sha call (call_executor call f) i b"])
      (use gw i c target_cong [of ?d d gw "ek_resource_id (it_key i)" "ec_relative_path call"] in simp_all)
  then show ?thesis using res shown gw(3) by (intro exI [of _ ?r] exI [of _ ?d]) (simp add: completion_of_def effect_result_of_def)
qed

definition fence_1 :: held_fence where
  "fence_1 = \<lparr>hf_work_item_id = ''w'', hf_authority_id = ctx_authority_id (ls_context store_1), hf_check = (\<lambda>_. Inr ())\<rparr>"

definition intent_1 :: intent where
  "intent_1 = \<lparr>it_key = call_key sha_1 gateway_1 call_1 fence_1 ''a'' ''newer'', it_old = state_of sha_1 (Some ''old''), it_previous = None\<rparr>"

definition pending_1 :: gateway_disk where
  "pending_1 = disk_1\<lparr>dk_payloads := [''h'' \<mapsto> ''newer''], dk_intents := [''h'' \<mapsto> intent_1], dk_current := [''h.json'' \<mapsto> prepared_pointer ''o'']\<rparr>"

lemma sha_1_h [simp]: "sha_1 x = ''h''"
  by (simp add: sha_1_def)

lemma intent_1_fields:
  "it_key intent_1 = call_key sha_1 gateway_1 call_1 fence_1 ''a'' ''newer''" "it_previous intent_1 = None"
  "it_old intent_1 = state_of sha_1 (Some ''old'')"
  by (simp_all add: intent_1_def)

lemma intent_1_key:
  "ek_operation_id (it_key intent_1) = ''o''" "ek_resource_id (it_key intent_1) = ''file''" "ek_relative_path (it_key intent_1) = ''a''"
  "ek_new (it_key intent_1) = state_of sha_1 (Some ''newer'')" "key_ok sha_1 gateway_1 ''o'' (it_key intent_1)"
  by (simp_all add: intent_1_fields call_key_def call_1_def key_ok_def gateway_1_def)

lemma pending_1_ok: "journal_ok sha_1 gateway_1 pending_1"
  by (rule journal_okI)
    (auto simp: pending_1_def disk_1_def intent_ok_def planned_ok_def completion_ok_def pointer_ok_def previous_ok_def shown_def
      intent_1_key intent_1_fields(2,3) gateway_1_def [THEN arg_cong, of gw_max_bytes] state_of_def split: if_splits)

lemma pending_1_room: "has_room sha_1 call_1 (call_executor call_1 fence_1) intent_1 pending_1"
  by code_simp

lemma pending_1_fence: "effect_fence gateway_1 hold_1 call_1 = Inr fence_1"
  by (simp add: effect_fence_def call_1_def owner_1_def gateway_1_def hold_1_def fence_1_def truthy_def)

theorem interrupted_effect_completes_witness:
  "\<exists>r d'. effect_resume sha_1 gateway_1 hold_1 (\<lambda>_. Pass) call_1 pending_1 = (Inr r, d') \<and> ew_status r = ''verified'' \<and>
    dk_current d' ''h.json'' = Some (completed_pointer ''o'')"
proof -
  have d: "dk_intents pending_1 (sha_1 (utf8 ''o'')) = Some intent_1" "dk_completed pending_1 (sha_1 (utf8 ''o'')) = None"
    "dk_current pending_1 (resource_key sha_1 (it_key intent_1)) \<in> {it_previous intent_1, Some (prepared_pointer ''o'')}"
    by (simp_all add: pending_1_def disk_1_def)
  have gw: "gw_open gateway_1" "effect_identity (Some ''o'') = Inr ()" "ec_resource_id call_1 = ek_resource_id (it_key intent_1)"
    "target gateway_1 (ec_resource_id call_1) (ec_relative_path call_1) pending_1 = Inr (ek_relative_path (it_key intent_1))"
    by (simp_all add: gateway_1_def effect_identity_def control_free_def intent_1_key call_1_def target_def relative_resource_def
        MARKER_DIR_def parent_paths_def)
  have f: "undisturbed (hf_check fence_1) (\<lambda>_. Pass)" "same_work call_1 fence_1 (it_key intent_1)"
    by (simp_all add: undisturbed_def fence_1_def same_work_def intent_1_fields call_key_def)
  from interrupted_effect_completes [OF gateway_1_wf pending_1_ok rtranclp.rtrancl_refl d(1) intent_1_key(1) d(2,3) gw(1,2)
      call_1_operation gw(3,4) pending_1_fence f pending_1_room]
  show ?thesis by auto
qed

section \<open>A superseded writer\<close>

text \<open>
  C40. The gateway under the fence of the lease authority, for \<open>write\<close>, \<open>resume\<close> and \<open>reconcile\<close> alike, whatever
  happens during the call. First, once the resource of a lease has a lease of a higher generation, a call that
  presents the earlier lease leaves the disk untouched, whatever generation, token and owner it presents; and when the
  lease is superseded only while the call runs, but before the check that directly precedes the replacement of the protected file,
  no protected file changes. Second, only a current lease writes: whatever disk a call leaves behind, it is the old one, or the lease
  was granted, unexpired and of the presented generation and token both times it was verified when the fence was taken, and the disk is reached by changes each of which was
  directly preceded by a check that found the lease so again.
\<close>

theorem superseded_writer_inert:
  assumes "lease_inv db" "l \<in> set (leases db)" "m \<in> set (leases db)" "lease_key m = lease_key l"
    and "le_generation l < le_generation m" and "(lease_step env)\<^sup>*\<^sup>* db (dbs k)" and "ec_lease_id call = le_lease_id l"
    and d': "d' \<in> {snd (effect_write sha gw (lease_hold st clk ids dbs) io call data d),
       snd (effect_resume sha gw (lease_hold st clk ids dbs) io call d),
       snd (effect_reconcile sha gw (lease_hold st clk ids dbs) verified io call historical d)}"
    and e': "e' \<in> {snd (effect_write sha gw (lease_hold st clk ids dbs) io other data d),
       snd (effect_resume sha gw (lease_hold st clk ids dbs) io other d),
       snd (effect_reconcile sha gw (lease_hold st clk ids dbs) verified io other historical d)}"
  shows "(k = 0 \<or> k = 1 \<longrightarrow> d' = d) \<and> (k = 6 \<longrightarrow> dk_targets d' = dk_targets d) \<and>
    (e' = d \<or> current_lease st clk dbs other 0 \<and> current_lease st clk dbs other 1 \<and>
       (fenced_step (\<lambda>n. current_lease st clk dbs other (Suc n)))\<^sup>*\<^sup>* d e') \<and>
    (dk_targets e' \<noteq> dk_targets d \<longrightarrow> current_lease st clk dbs other 6)"
proof -
  have stale: "\<not> current_lease st clk dbs call k"
    using superseded_not_granted [OF assms(1-6), of st "ec_resource_id call"] assms(7) by (auto simp: current_lease_def split: option.split)
  note lease = write_under_lease [where original = None, folded effect_write_def] resume_under_lease reconcile_under_lease
  have u: "under_lease st clk dbs call d d'" using d' by (auto intro: lease)
  have v: "under_lease st clk dbs other d e'" using e' by (auto intro: lease)
  from under_lease_changes [OF u] stale have "k = 0 \<or> k = 1 \<longrightarrow> d' = d" "k = 6 \<longrightarrow> dk_targets d' = dk_targets d" by auto
  moreover from under_lease_changes(2) [OF v] have "dk_targets e' \<noteq> dk_targets d \<longrightarrow> current_lease st clk dbs other 6" by blast
  ultimately show ?thesis using v unfolding under_lease_def by blast
qed

text \<open>A lease table with the lease of \<open>call_1\<close> granted, and one where it has expired and the resource has been leased again.\<close>

definition held_1 :: lease_db where
  "held_1 = lease_db_1\<lparr>leases := [lease_1]\<rparr>"

definition superseded_1 :: lease_db where
  "superseded_1 = lease_db_1\<lparr>leases := [lease_1\<lparr>le_status := ''expired''\<rparr>, lease_1\<lparr>le_lease_id := ''lease-2'', le_generation := 2\<rparr>]\<rparr>"

definition overtaken :: "(nat \<Rightarrow> bool) \<Rightarrow> nat \<Rightarrow> lease_db" where
  "overtaken valid n = (if valid n then held_1 else superseded_1)"

definition hold_while :: "(nat \<Rightarrow> bool) \<Rightarrow> effect_call \<Rightarrow> string \<Rightarrow> held_fence result" where
  "hold_while valid call permission = Inr \<lparr>hf_work_item_id = ''w'', hf_authority_id = ctx_authority_id (ls_context store_1),
     hf_check = (\<lambda>n. if valid (Suc n) then Inr () else Inl (FencingRejected ''file''))\<rparr>"

lemma verify_held_1:
  "verify_row store_1 (\<lambda>_. 0) ids_1 ''lease-1'' ''file'' 1 ''tok'' (ls_context store_1) (Some ''at'') (Some ''rt'') (Some ''s'') (Some ''g'') (Some ''1'') permission held_1 = Inr (lease_1, ''w'')"
  "verify_row store_1 (\<lambda>_. 0) ids_1 ''lease-1'' ''file'' 1 ''tok'' (ls_context store_1) (Some ''at'') (Some ''rt'') (Some ''s'') (Some ''g'') (Some ''1'') permission superseded_1 = Inl (FencingRejected ''file'')"
  by code_simp+

lemma call_1_fields:
  "ec_lease_id call_1 = ''lease-1''" "ec_resource_id call_1 = ''file''" "ec_generation call_1 = 1" "ec_fencing_token call_1 = ''tok''"
  "eo_caller (ec_owner call_1) = Some (ls_context store_1)" "eo_attempt_id (ec_owner call_1) = Some ''at''" "eo_runtime_id (ec_owner call_1) = Some ''rt''"
  "eo_scope_id (ec_owner call_1) = Some ''s''" "eo_grant_ref (ec_owner call_1) = Some ''g''" "eo_authority_incarnation (ec_owner call_1) = Some ''1''"
  by (simp_all add: call_1_def owner_1_def)

lemma lease_hold_1:
  assumes "valid 0"
  shows "effect_fence gateway_1 (lease_hold store_1 (\<lambda>_. 0) ids_1 (overtaken valid)) call_1 = effect_fence gateway_1 (hold_while valid) call_1"
proof -
  have "lease_hold store_1 (\<lambda>_. 0) ids_1 (overtaken valid) call_1 ''effect.write'' = hold_while valid call_1 ''effect.write''"
    unfolding lease_hold_def hold_fence_def hold_while_def Let_def call_1_fields option.sel overtaken_def
    using assms by (auto simp: verify_held_1)
  then show ?thesis unfolding effect_fence_def Let_def by (simp only:)
qed

lemma held_1_writes:
  "dk_targets (snd (effect_write sha_1 gateway_1 (lease_hold store_1 (\<lambda>_. 0) ids_1 (overtaken (\<lambda>n. n < 9))) (crash_at 5) call_1 ''newer'' disk_1)) ''a'' = Some ''newer''"
  unfolding effect_write_def effect_write_as_def lease_hold_1 [of "\<lambda>n. n < 9", simplified] by code_simp

lemma overtaken_records:
  "dk_intents (snd (effect_write sha_1 gateway_1 (lease_hold store_1 (\<lambda>_. 0) ids_1 (overtaken (\<lambda>n. n < 6))) (\<lambda>_. Pass) call_1 ''newer'' disk_1)) ''h'' \<noteq> None"
  unfolding effect_write_def effect_write_as_def lease_hold_1 [of "\<lambda>n. n < 6", simplified] by code_simp

theorem superseded_writer_inert_witness:
  "snd (effect_write sha_1 gateway_1 (lease_hold store_1 (\<lambda>_. 0) ids_1 (overtaken (\<lambda>_. False))) (\<lambda>_. Pass) call_1 ''newer'' disk_1) = disk_1 \<and>
   (\<exists>d'. snd (effect_write sha_1 gateway_1 (lease_hold store_1 (\<lambda>_. 0) ids_1 (overtaken (\<lambda>n. n < 6))) (\<lambda>_. Pass) call_1 ''newer'' disk_1) = d' \<and>
      dk_intents d' ''h'' \<noteq> None \<and> dk_targets d' = dk_targets disk_1) \<and>
   (\<exists>e'. snd (effect_write sha_1 gateway_1 (lease_hold store_1 (\<lambda>_. 0) ids_1 (overtaken (\<lambda>n. n < 9))) (crash_at 5) call_1 ''newer'' disk_1) = e' \<and>
      dk_targets e' ''a'' = Some ''newer'' \<and> current_lease store_1 (\<lambda>_. 0) (overtaken (\<lambda>n. n < 9)) call_1 6)"
proof -
  let ?l = "lease_1\<lparr>le_status := ''expired''\<rparr>" and ?m = "lease_1\<lparr>le_lease_id := ''lease-2'', le_generation := 2\<rparr>"
  have inv: "lease_inv superseded_1" by (simp add: superseded_1_def lease_inv_def lease_1_fields lease_key_def)
  have mem: "?l \<in> set (leases superseded_1)" "?m \<in> set (leases superseded_1)" "lease_key ?m = lease_key ?l" "le_generation ?l < le_generation ?m"
    by (simp_all add: superseded_1_def lease_key_def lease_1_fields)
  have lid: "ec_lease_id call_1 = le_lease_id ?l" by (simp add: call_1_fields lease_1_fields)
  have run: "(lease_step env_0)\<^sup>*\<^sup>* superseded_1 (overtaken valid k)" if "\<not> valid k" for valid k
    using that by (simp add: overtaken_def)
  have "snd (effect_write sha_1 gateway_1 (lease_hold store_1 (\<lambda>_. 0) ids_1 (overtaken (\<lambda>_. False))) (\<lambda>_. Pass) call_1 ''newer'' disk_1) = disk_1"
    using superseded_writer_inert [where dbs = "overtaken (\<lambda>_. False)" and k = 0, OF inv mem run lid insertI1 insertI1, where d = disk_1 and st = store_1] by simp
  moreover have "dk_targets (snd (effect_write sha_1 gateway_1 (lease_hold store_1 (\<lambda>_. 0) ids_1 (overtaken (\<lambda>n. n < 6))) (\<lambda>_. Pass) call_1 ''newer'' disk_1)) =
      dk_targets disk_1"
    using superseded_writer_inert [where dbs = "overtaken (\<lambda>n. n < 6)" and k = 6, OF inv mem run lid insertI1 insertI1, where d = disk_1 and st = store_1] by simp
  moreover have "current_lease store_1 (\<lambda>_. 0) (overtaken (\<lambda>n. n < 9)) call_1 6"
  proof -
    have "dk_targets (snd (effect_write sha_1 gateway_1 (lease_hold store_1 (\<lambda>_. 0) ids_1 (overtaken (\<lambda>n. n < 9))) (crash_at 5) call_1 ''newer'' disk_1)) \<noteq> dk_targets disk_1"
      using held_1_writes by (auto simp: disk_1_def)
    with superseded_writer_inert [where dbs = "overtaken (\<lambda>n. n < 9)" and k = 9, OF inv mem run lid insertI1 insertI1, where d = disk_1 and st = store_1] show ?thesis by auto
  qed
  ultimately show ?thesis using overtaken_records held_1_writes by blast
qed

end
