(* ===== verification/Artifact_Store.thy ===== *)
theory Artifact_Store
  imports Command_Models
begin

text \<open>
  \<open>src/runtime/artifacts.py\<close>: the content-addressed stores \<open>LocalArtifactStore\<close> and
  \<open>WindowsArtifactStore\<close>.

  The root directory of a store is a record: the bytes of its \<open>.scope\<close> marker, the names of its
  subdirectories, and the objects by digest (the file \<open>ab/abcd...\<close> is the object \<open>abcd...\<close>).
  \<open>ArtifactError\<close> is a \<open>ValueError\<close>. A call returns its result with the root it leaves behind.
  A source root of \<open>put_file\<close> is a path with the regular files that can be reached below it
  without following a link; a path is a list of components. Directory descriptors, permission
  bits, \<open>fsync\<close> and the platform check are left out. \<open>sha\<close> is SHA-256 in hexadecimal.

  Both stores keep one contract, the locale \<open>content_store\<close>.
\<close>

section \<open>Roots and stores\<close>

record cas_root =
  cr_scope :: "string option"
  cr_directories :: "string list"
  cr_objects :: "string \<Rightarrow> string option"

record source_root =
  sr_path :: "string list"
  sr_files :: "string list \<Rightarrow> string option"

record artifact_store =
  as_scope_id :: string
  as_max_bytes :: int
  as_open :: bool
  as_sources :: "source_root list"

definition scope_ok :: "string \<Rightarrow> bool" where
  "scope_ok s \<longleftrightarrow> 1 \<le> length s \<and> length s \<le> 256 \<and> s \<notin> {''.'', ''..''} \<and>
     (\<forall>c \<in> set s. c \<noteq> CHR ''/'' \<and> c \<noteq> CHR 0x5C \<and> 32 \<le> (of_char c :: nat))"

definition absolute_path :: "string list \<Rightarrow> string list result" where
  "absolute_path parts = (if ''..'' \<in> set parts \<or> (\<exists>p \<in> set parts. CHR 0x00 \<in> set p)
     then Inl (ValueError ''configured and source paths must not contain traversal or NUL'') else Inr parts)"

text \<open>\<open>_publish\<close>: link the name if it is absent; an existing file must have the same bytes.\<close>

definition published :: "string option \<Rightarrow> string \<Rightarrow> unit result" where
  "published existing data =
     (case existing of
        None \<Rightarrow> Inr ()
      | Some old \<Rightarrow>
          if length data < length old then Inl (ValueError ''artifact/source exceeds max_bytes'')
          else guard (old = data) (ValueError ''existing artifact or scope binding is corrupt/incompatible''))"

definition publish_object :: "string \<Rightarrow> string \<Rightarrow> cas_root \<Rightarrow> unit result \<times> cas_root" where
  "publish_object name data r =
     (published (cr_objects r name) data,
      if cr_objects r name = None then r\<lparr>cr_objects := (cr_objects r)(name \<mapsto> data)\<rparr> else r)"

text \<open>
  \<open>__init__\<close>. The root must be empty or already bound to a scope, and the marker is published
  like an object, so a root bound to another scope is refused.
\<close>

fun open_sources :: "source_root list \<Rightarrow> source_root list result" where
  "open_sources [] = Inr []"
| "open_sources (s # ss) = rbind (absolute_path (sr_path s)) (\<lambda>p. rbind (open_sources ss) (\<lambda>rest. Inr (s\<lparr>sr_path := p\<rparr> # rest)))"

definition open_store :: "string \<Rightarrow> source_root list \<Rightarrow> int \<Rightarrow> cas_root \<Rightarrow> artifact_store result \<times> cas_root" where
  "open_store scope sources max_bytes r =
     (if max_bytes < 1 then (Inl (ValueError ''max_bytes must be a positive integer''), r)
      else if \<not> scope_ok scope then (Inl (ValueError ''invalid artifact scope''), r)
      else case open_sources sources of
        Inl e \<Rightarrow> (Inl e, r)
      | Inr ss \<Rightarrow>
          if cr_directories r \<noteq> [] \<and> cr_scope r = None
          then (Inl (ValueError ''cannot claim a nonempty artifact root without a scope binding''), r)
          else (rbind (published (cr_scope r) scope) (\<lambda>_.
                  Inr \<lparr>as_scope_id = scope, as_max_bytes = max_bytes, as_open = True, as_sources = ss\<rparr>),
                if cr_scope r = None then r\<lparr>cr_scope := Some scope\<rparr> else r))"

definition close_store :: "artifact_store \<Rightarrow> artifact_store" where
  "close_store s = s\<lparr>as_open := False, as_sources := []\<rparr>"

definition ensure_open :: "artifact_store \<Rightarrow> unit result" where
  "ensure_open s = guard (as_open s) (ValueError ''artifact store is closed'')"

section \<open>References\<close>

definition object_path :: "string \<Rightarrow> string" where
  "object_path digest = take 2 digest @ ''/'' @ digest"

definition validate_ref :: "artifact_store \<Rightarrow> artifact_ref \<Rightarrow> unit result" where
  "validate_ref s a =
     (if (case validate_artifact_ref a of Inl _ \<Rightarrow> True | Inr _ \<Rightarrow> False) then Inl (ValueError ''invalid typed artifact reference'')
      else if \<not> ar_immutable a \<or> ar_scope_id a \<noteq> as_scope_id s then Inl (ValueError ''artifact is mutable or belongs to another scope'')
      else if \<not> is_sha256 (ar_sha256 a) then Inl (ValueError ''invalid artifact digest'')
      else if ar_path a \<noteq> object_path (ar_sha256 a) then Inl (ValueError ''artifact path does not match its digest'')
      else guard (0 \<le> ar_size_bytes a \<and> ar_size_bytes a \<le> as_max_bytes s) (ValueError ''artifact size is invalid or exceeds max_bytes''))"

definition make_ref :: "artifact_store \<Rightarrow> string \<Rightarrow> int \<Rightarrow> string \<Rightarrow> string \<Rightarrow> artifact_ref result" where
  "make_ref s digest bytes kind media = validate_artifact_ref
     \<lparr>ar_path = object_path digest, ar_sha256 = digest, ar_size_bytes = bytes, ar_media_type = media, ar_kind = kind,
      ar_scope_id = as_scope_id s, ar_immutable = True\<rparr>"

section \<open>The POSIX store\<close>

definition put_bytes ::
  "(string \<Rightarrow> string) \<Rightarrow> artifact_store \<Rightarrow> string \<Rightarrow> string \<Rightarrow> string \<Rightarrow> cas_root \<Rightarrow> artifact_ref result \<times> cas_root" where
  "put_bytes sha s kind media data r =
     (case ensure_open s of
        Inl e \<Rightarrow> (Inl e, r)
      | Inr _ \<Rightarrow>
          if as_max_bytes s < int (length data) then (Inl (ValueError ''artifact exceeds max_bytes''), r)
          else case rbind (make_ref s (sha data) (int (length data)) kind media) (\<lambda>a. rbind (validate_ref s a) (\<lambda>_. Inr a)) of
            Inl e \<Rightarrow> (Inl e, r)
          | Inr a \<Rightarrow>
              let r1 = r\<lparr>cr_directories := List.insert (take 2 (sha data)) (cr_directories r)\<rparr> in
              (case publish_object (sha data) data r1 of (ok, r2) \<Rightarrow> (rbind ok (\<lambda>_. Inr a), r2)))"

text \<open>\<open>put_file\<close>: the first authorized root above the path supplies the bytes.\<close>

fun source_bytes :: "int \<Rightarrow> string list \<Rightarrow> source_root list \<Rightarrow> string result" where
  "source_bytes limit path [] = Inl (ValueError ''source path is outside authorized_source_roots'')"
| "source_bytes limit path (s # ss) =
     (if path \<noteq> sr_path s \<and> take (length (sr_path s)) path = sr_path s
      then (case sr_files s (drop (length (sr_path s)) path) of
              None \<Rightarrow> Inl (ValueError ''artifact/source is missing, inaccessible, or linked'')
            | Some data \<Rightarrow> if limit < int (length data) then Inl (ValueError ''artifact/source exceeds max_bytes'') else Inr data)
      else source_bytes limit path ss)"

definition put_file ::
  "(string \<Rightarrow> string) \<Rightarrow> artifact_store \<Rightarrow> string \<Rightarrow> string \<Rightarrow> string list \<Rightarrow> cas_root \<Rightarrow> artifact_ref result \<times> cas_root" where
  "put_file sha s kind media path r =
     (case rbind (ensure_open s) (\<lambda>_. rbind (absolute_path path) (\<lambda>p. source_bytes (as_max_bytes s) p (as_sources s))) of
        Inl e \<Rightarrow> (Inl e, r)
      | Inr data \<Rightarrow> put_bytes sha s kind media data r)"

definition read_object :: "string \<Rightarrow> int \<Rightarrow> cas_root \<Rightarrow> string result" where
  "read_object digest limit r =
     (if take 2 digest \<notin> set (cr_directories r) then Inl (ValueError ''directory is missing, inaccessible, or linked'')
      else case cr_objects r digest of
        None \<Rightarrow> Inl (ValueError ''artifact/source is missing, inaccessible, or linked'')
      | Some data \<Rightarrow> if limit < int (length data) then Inl (ValueError ''artifact/source exceeds max_bytes'') else Inr data)"

definition read_verified :: "(string \<Rightarrow> string) \<Rightarrow> artifact_store \<Rightarrow> artifact_ref \<Rightarrow> cas_root \<Rightarrow> string result" where
  "read_verified sha s a r =
     rbind (ensure_open s) (\<lambda>_.
     rbind (validate_ref s a) (\<lambda>_.
     rbind (read_object (ar_sha256 a) (ar_size_bytes a) r) (\<lambda>data.
     if int (length data) \<noteq> ar_size_bytes a then Inl (ValueError ''artifact size mismatch'')
     else if sha data \<noteq> ar_sha256 a then Inl (ValueError ''artifact digest mismatch'')
     else Inr data)))"

definition verify_artifact :: "(string \<Rightarrow> string) \<Rightarrow> artifact_store \<Rightarrow> artifact_ref \<Rightarrow> cas_root \<Rightarrow> artifact_ref result" where
  "verify_artifact sha s a r = rbind (read_verified sha s a r) (\<lambda>_. Inr a)"

definition reference_for_digest :: "artifact_store \<Rightarrow> string \<Rightarrow> string \<Rightarrow> string \<Rightarrow> cas_root \<Rightarrow> artifact_ref result" where
  "reference_for_digest s digest kind media r =
     rbind (ensure_open s) (\<lambda>_.
     if \<not> is_sha256 digest then Inl (ValueError ''artifact digest is invalid'')
     else if take 2 digest \<notin> set (cr_directories r) then Inl (ValueError ''directory is missing, inaccessible, or linked'')
     else case cr_objects r digest of
       None \<Rightarrow> Inl (ValueError ''artifact digest target is unavailable'')
     | Some data \<Rightarrow>
         if as_max_bytes s < int (length data) then Inl (ValueError ''artifact digest target is not a bounded immutable file'')
         else rbind (make_ref s digest (int (length data)) kind media) (\<lambda>a. rbind (validate_ref s a) (\<lambda>_. Inr a)))"

section \<open>The Windows store\<close>

definition windows_open_store :: "string \<Rightarrow> int \<Rightarrow> cas_root \<Rightarrow> artifact_store result \<times> cas_root" where
  "windows_open_store scope max_bytes r =
     (if max_bytes < 1 then (Inl (ValueError ''max_bytes must be a positive integer''), r)
      else if \<not> scope_ok scope then (Inl (ValueError ''invalid artifact scope''), r)
      else if cr_scope r \<noteq> None \<and> cr_scope r \<noteq> Some scope then (Inl (ValueError ''artifact scope binding differs''), r)
      else (Inr \<lparr>as_scope_id = scope, as_max_bytes = max_bytes, as_open = True, as_sources = []\<rparr>, r\<lparr>cr_scope := Some scope\<rparr>))"

definition windows_validate_ref :: "artifact_store \<Rightarrow> artifact_ref \<Rightarrow> unit result" where
  "windows_validate_ref s a = guard (ar_scope_id a = as_scope_id s \<and> ar_immutable a \<and> is_sha256 (ar_sha256 a) \<and>
     ar_path a = object_path (ar_sha256 a) \<and> 0 \<le> ar_size_bytes a \<and> ar_size_bytes a \<le> as_max_bytes s)
     (ValueError ''invalid Windows artifact reference'')"

definition windows_put_bytes ::
  "(string \<Rightarrow> string) \<Rightarrow> artifact_store \<Rightarrow> string \<Rightarrow> string \<Rightarrow> string \<Rightarrow> cas_root \<Rightarrow> artifact_ref result \<times> cas_root" where
  "windows_put_bytes sha s kind media data r =
     (if \<not> as_open s then (Inl (ValueError ''artifact store is closed''), r)
      else if as_max_bytes s < int (length data) then (Inl (ValueError ''artifact bytes are invalid or exceed max_bytes''), r)
      else case make_ref s (sha data) (int (length data)) kind media of
        Inl e \<Rightarrow> (Inl e, r)
      | Inr a \<Rightarrow>
          let r1 = r\<lparr>cr_directories := List.insert (take 2 (sha data)) (cr_directories r)\<rparr> in
          (case cr_objects r (sha data) of
             Some old \<Rightarrow> (if old = data then Inr a else Inl (ValueError ''existing Windows artifact is corrupt''), r1)
           | None \<Rightarrow> (Inr a, r1\<lparr>cr_objects := (cr_objects r1)(sha data \<mapsto> data)\<rparr>)))"

definition windows_read :: "(string \<Rightarrow> string) \<Rightarrow> artifact_store \<Rightarrow> artifact_ref \<Rightarrow> cas_root \<Rightarrow> string result" where
  "windows_read sha s a r =
     rbind (windows_validate_ref s a) (\<lambda>_.
     case cr_objects r (ar_sha256 a) of
       None \<Rightarrow> Inl (OSError ''No such file or directory'')
     | Some data \<Rightarrow>
         if int (length data) \<noteq> ar_size_bytes a \<or> sha data \<noteq> ar_sha256 a
         then Inl (ValueError ''Windows artifact digest or size differs'') else Inr data)"

definition windows_reference_for_digest :: "artifact_store \<Rightarrow> string \<Rightarrow> string \<Rightarrow> string \<Rightarrow> cas_root \<Rightarrow> artifact_ref result" where
  "windows_reference_for_digest s digest kind media r =
     (if \<not> as_open s \<or> \<not> is_sha256 digest then Inl (ValueError ''Windows artifact digest is unavailable'')
      else case cr_objects r digest of
        None \<Rightarrow> Inl (ValueError ''Windows artifact digest target is unavailable'')
      | Some data \<Rightarrow>
          if as_max_bytes s < int (length data) then Inl (ValueError ''Windows artifact digest target is invalid'')
          else rbind (make_ref s digest (int (length data)) kind media) (\<lambda>a. rbind (windows_validate_ref s a) (\<lambda>_. Inr a)))"

section \<open>The contract of a content-addressed store\<close>

text \<open>
  What a client of either store relies on. \<open>put\<close> and \<open>get\<close> are the calls on a store, \<open>'s\<close> is
  the state of its directory; \<open>get\<close> is asked about every state, also one that somebody else has
  written to.
\<close>

locale content_store =
  fixes sha :: "string \<Rightarrow> string"
    and put :: "'d \<Rightarrow> 's \<Rightarrow> artifact_ref result \<times> 's"
    and content :: "'d \<Rightarrow> string"
    and get :: "artifact_ref \<Rightarrow> 's \<Rightarrow> string result"
  assumes get_sound: "get a s = Inr data \<Longrightarrow> sha data = ar_sha256 a \<and> int (length data) = ar_size_bytes a"
    and put_ref: "put x s = (Inr a, t) \<Longrightarrow> ar_sha256 a = sha (content x) \<and> ar_size_bytes a = int (length (content x))"
    and put_get: "put x s = (Inr a, t) \<Longrightarrow> get a t = Inr (content x)"
    and put_keeps: "get a s = Inr data \<Longrightarrow> get a (snd (put y s)) = Inr data"
begin

lemma kept: "get a s = Inr data \<Longrightarrow> get a (fold (\<lambda>y s. snd (put y s)) others s) = Inr data"
  by (induction others arbitrary: s) (auto intro: put_keeps)

lemma stored: "put x s = (Inr a, t) \<Longrightarrow> get a (fold (\<lambda>y s. snd (put y s)) others t) = Inr (content x)"
  by (rule kept [OF put_get])

text \<open>Whatever has happened to the directory, a reference yields its own bytes or an error.\<close>

lemma tamper_evident:
  assumes "put x s = (Inr a, t)" "get a u = Inr found" and "\<And>y. sha y = sha (content x) \<Longrightarrow> y = content x"
  shows "found = content x"
  using get_sound [OF assms(2)] put_ref [OF assms(1)] assms(3) by simp

lemma references_distinguish:
  assumes "put x s = (Inr a, t)" "put y u = (Inr b, v)" "ar_sha256 a = ar_sha256 b" "\<And>z. sha z = sha (content x) \<Longrightarrow> z = content x"
  shows "content x = content y"
  using put_ref [OF assms(1)] put_ref [OF assms(2)] assms(3,4) by metis

end

text \<open>The calls of a client, with the kind and the media type beside the bytes.\<close>

definition put_item :: "(string \<Rightarrow> string) \<Rightarrow> artifact_store \<Rightarrow> string \<times> string \<times> string \<Rightarrow> cas_root \<Rightarrow> artifact_ref result \<times> cas_root" where
  "put_item sha s x = put_bytes sha s (fst x) (fst (snd x)) (snd (snd x))"

definition windows_put_item :: "(string \<Rightarrow> string) \<Rightarrow> artifact_store \<Rightarrow> string \<times> string \<times> string \<Rightarrow> cas_root \<Rightarrow> artifact_ref result \<times> cas_root" where
  "windows_put_item sha s x = windows_put_bytes sha s (fst x) (fst (snd x)) (snd (snd x))"

lemma digest_no_backslash: "is_sha256 d \<Longrightarrow> CHR 0x5C \<notin> set d"
proof
  assume "is_sha256 d" "CHR 0x5C \<in> set d"
  then have "CHR 0x5C \<in> set ''0123456789abcdef''" unfolding is_sha256_def by blast
  then show False by simp
qed

lemma object_path_slashed: "is_sha256 d \<Longrightarrow> slashed (object_path d) = object_path d"
  using digest_no_backslash [of d] set_take_subset [of 2 d] by (auto simp: slashed_def object_path_def intro!: map_idI)

lemma validate_artifact_ref_Inr:
  "validate_artifact_ref a = Inr b \<Longrightarrow> is_sha256 (ar_sha256 a) \<and> 0 \<le> ar_size_bytes a \<and> b = a\<lparr>ar_path := slashed (ar_path a)\<rparr>"
  unfolding validate_artifact_ref_def by (auto simp: relative_path_Inr split: if_split_asm)

lemma make_ref_fields:
  assumes "make_ref s d n kind media = Inr a"
  shows "ar_sha256 a = d" "ar_size_bytes a = n" "ar_scope_id a = as_scope_id s" "ar_immutable a" "is_sha256 d" "0 \<le> n" "ar_path a = object_path d"
  using validate_artifact_ref_Inr [OF assms [unfolded make_ref_def]] by (simp_all add: object_path_slashed)

section \<open>Both stores keep the contract\<close>

lemma published_Inr: "published existing data = Inr () \<longleftrightarrow> existing \<in> {None, Some data}"
  by (auto simp: published_def split: option.splits)

lemma put_bytes_Inr:
  assumes "put_bytes sha s kind media data r = (Inr a, t)"
  shows "as_open s" "make_ref s (sha data) (int (length data)) kind media = Inr a" "validate_ref s a = Inr ()"
    and "take 2 (sha data) \<in> set (cr_directories t)" "cr_objects t (sha data) = Some data"
  using assms unfolding put_bytes_def ensure_open_def publish_object_def Let_def
  by (auto simp: published_Inr split: if_splits sum.splits)

lemma put_bytes_keeps:
  "set (cr_directories r) \<subseteq> set (cr_directories (snd (put_bytes sha s kind media data r)))"
  "cr_objects r d = Some x \<Longrightarrow> cr_objects (snd (put_bytes sha s kind media data r)) d = Some x"
  unfolding put_bytes_def publish_object_def Let_def by (auto split: sum.split)

lemma read_verified_Inr:
  "read_verified sha s a r = Inr data \<longleftrightarrow> as_open s \<and> validate_ref s a = Inr () \<and> take 2 (ar_sha256 a) \<in> set (cr_directories r) \<and>
     cr_objects r (ar_sha256 a) = Some data \<and> int (length data) = ar_size_bytes a \<and> sha data = ar_sha256 a"
  unfolding read_verified_def read_object_def ensure_open_def by (auto split: option.splits if_splits)

interpretation local_cas: content_store sha "put_item sha s" "\<lambda>x. snd (snd x)" "read_verified sha s" for sha s
proof
  fix a :: artifact_ref and r t data and x y :: "string \<times> string \<times> string"
  show "sha data = ar_sha256 a \<and> int (length data) = ar_size_bytes a" if "read_verified sha s a r = Inr data"
    using that by (simp add: read_verified_Inr)
  show "ar_sha256 a = sha (snd (snd x)) \<and> ar_size_bytes a = int (length (snd (snd x)))" if "put_item sha s x r = (Inr a, t)"
    using make_ref_fields [OF put_bytes_Inr(2) [OF that [unfolded put_item_def]]] by simp
  show "read_verified sha s a t = Inr (snd (snd x))" if "put_item sha s x r = (Inr a, t)"
    using put_bytes_Inr [OF that [unfolded put_item_def]] make_ref_fields [OF put_bytes_Inr(2) [OF that [unfolded put_item_def]]]
    by (simp add: read_verified_Inr)
  show "read_verified sha s a (snd (put_item sha s y r)) = Inr data" if "read_verified sha s a r = Inr data"
    using that put_bytes_keeps(1) [of r sha s "fst y" "fst (snd y)" "snd (snd y)"] put_bytes_keeps(2) [of r "ar_sha256 a" data]
    by (auto simp: read_verified_Inr put_item_def)
qed

lemma windows_put_Inr:
  assumes "windows_put_bytes sha s kind media data r = (Inr a, t)"
  shows "make_ref s (sha data) (int (length data)) kind media = Inr a" "int (length data) \<le> as_max_bytes s" "cr_objects t (sha data) = Some data"
  using assms unfolding windows_put_bytes_def Let_def by (auto split: if_splits sum.splits option.splits)

lemma windows_put_keeps:
  "cr_objects r d = Some x \<Longrightarrow> cr_objects (snd (windows_put_bytes sha s kind media data r)) d = Some x"
  unfolding windows_put_bytes_def Let_def by (auto split: sum.split option.split)

lemma windows_read_Inr:
  "windows_read sha s a r = Inr data \<longleftrightarrow> windows_validate_ref s a = Inr () \<and> cr_objects r (ar_sha256 a) = Some data \<and>
     int (length data) = ar_size_bytes a \<and> sha data = ar_sha256 a"
  unfolding windows_read_def by (auto split: option.splits if_splits)

interpretation windows_cas: content_store sha "windows_put_item sha s" "\<lambda>x. snd (snd x)" "windows_read sha s" for sha s
proof
  fix a :: artifact_ref and r t data and x y :: "string \<times> string \<times> string"
  show "sha data = ar_sha256 a \<and> int (length data) = ar_size_bytes a" if "windows_read sha s a r = Inr data"
    using that by (simp add: windows_read_Inr)
  show "ar_sha256 a = sha (snd (snd x)) \<and> ar_size_bytes a = int (length (snd (snd x)))" if "windows_put_item sha s x r = (Inr a, t)"
    using make_ref_fields [OF windows_put_Inr(1) [OF that [unfolded windows_put_item_def]]] by simp
  show "windows_read sha s a t = Inr (snd (snd x))" if "windows_put_item sha s x r = (Inr a, t)"
    using windows_put_Inr [OF that [unfolded windows_put_item_def]] make_ref_fields [OF windows_put_Inr(1) [OF that [unfolded windows_put_item_def]]]
    by (simp add: windows_read_Inr windows_validate_ref_def)
  show "windows_read sha s a (snd (windows_put_item sha s y r)) = Inr data" if "windows_read sha s a r = Inr data"
    using that windows_put_keeps [of r "ar_sha256 a" data] by (simp add: windows_read_Inr windows_put_item_def)
qed

text \<open>A root belongs to one scope: reopening it under another one fails and changes nothing.\<close>

lemma scope_binding:
  assumes "open_store scope sources max_bytes r = (Inr s, t)" "scope' \<noteq> scope"
  shows "\<exists>e. open_store scope' sources' max_bytes' t = (Inl e, t)"
proof -
  have t: "cr_scope t = Some scope"
    using assms(1) unfolding open_store_def by (auto simp: published_Inr split: if_splits sum.splits)
  have "published (Some scope) scope' \<noteq> Inr ()" using assms(2) by (simp add: published_Inr)
  then obtain e where "published (Some scope) scope' = Inl e" by (cases "published (Some scope) scope'") auto
  with t show ?thesis unfolding open_store_def by (auto split: sum.split)
qed

text \<open>
  C6. An artifact is what was put: after \<open>put_bytes\<close> has returned a reference, reading it
  returns exactly those bytes, whatever else is put into the store afterwards; and on a root
  whose files have been changed in any way by anybody, reading the reference returns those bytes
  or raises, as long as no other bytes have the same SHA-256. Both hold for the POSIX and for the Windows store.
\<close>

theorem artifact_reads_back:
  assumes no_second_preimage: "\<forall>x. sha x = sha data \<longrightarrow> x = data"
    and put: "put_bytes sha s kind media data r = (Inr a, t)" and win: "windows_put_bytes sha s kind media data r' = (Inr b, t')"
  shows "read_verified sha s a (fold (\<lambda>x r. snd (put_item sha s x r)) others t) = Inr data \<and>
    (\<forall>u found. read_verified sha s a u = Inr found \<longrightarrow> found = data) \<and>
    windows_read sha s b (fold (\<lambda>x r. snd (windows_put_item sha s x r)) others t') = Inr data \<and>
    (\<forall>u found. windows_read sha s b u = Inr found \<longrightarrow> found = data)"
proof -
  have put: "put_item sha s (kind, media, data) r = (Inr a, t)" and win: "windows_put_item sha s (kind, media, data) r' = (Inr b, t')"
    using assms by (simp_all add: put_item_def windows_put_item_def)
  show ?thesis
    using local_cas.stored [OF put] windows_cas.stored [OF win] local_cas.tamper_evident [OF put] windows_cas.tamper_evident [OF win]
      no_second_preimage by auto
qed

definition sha_ab :: "string \<Rightarrow> string" where
  "sha_ab s = replicate 64 (if s = ''data'' then CHR ''a'' else CHR ''b'')"

definition root_0 :: cas_root where
  "root_0 = \<lparr>cr_scope = None, cr_directories = [], cr_objects = Map.empty\<rparr>"

definition cas_1 :: artifact_store where
  "cas_1 = \<lparr>as_scope_id = ''s'', as_max_bytes = 8, as_open = True, as_sources = []\<rparr>"

definition ref_1 :: artifact_ref where
  "ref_1 = \<lparr>ar_path = object_path (replicate 64 (CHR ''a'')), ar_sha256 = replicate 64 (CHR ''a''), ar_size_bytes = 4,
     ar_media_type = ''m'', ar_kind = ''other'', ar_scope_id = ''s'', ar_immutable = True\<rparr>"

lemma sample_put: "fst (put_bytes sha_ab cas_1 ''other'' ''m'' ''data'' root_0) = Inr ref_1"
  by code_simp

lemma sample_windows_put: "fst (windows_put_bytes sha_ab cas_1 ''other'' ''m'' ''data'' root_0) = Inr ref_1"
  by code_simp

theorem artifact_reads_back_witness:
  "read_verified sha_ab cas_1 ref_1 (snd (put_bytes sha_ab cas_1 ''other'' ''m'' ''data'' root_0)) = Inr ''data''"
proof -
  have "sha_ab x = sha_ab ''data'' \<longrightarrow> x = ''data''" for x by (simp add: sha_ab_def numeral_eq_Suc)
  then have pre: "\<forall>x. sha_ab x = sha_ab ''data'' \<longrightarrow> x = ''data''" by blast
  have put: "put_bytes sha_ab cas_1 ''other'' ''m'' ''data'' root_0 = (Inr ref_1, snd (put_bytes sha_ab cas_1 ''other'' ''m'' ''data'' root_0))"
    using sample_put by (metis prod.collapse)
  have win: "windows_put_bytes sha_ab cas_1 ''other'' ''m'' ''data'' root_0 = (Inr ref_1, snd (windows_put_bytes sha_ab cas_1 ''other'' ''m'' ''data'' root_0))"
    using sample_windows_put by (metis prod.collapse)
  from artifact_reads_back [OF pre put win, of "[]"] show ?thesis by simp
qed

end
