(* ===== verification/Filesystem_Patch.thy ===== *)
theory Filesystem_Patch
  imports Command_Models
begin

text \<open>
  \<open>src/runtime/filesystem_patch.py\<close>: the marker-based patch format and its application to files.

  A file is its text, a path a string; \<open>absolute\<close> stands for what \<open>pathlib\<close> and
  \<open>os.path.abspath\<close> make of a name below the working directory. Links, directories and file
  modes are left out. \<open>splitlines\<close> is \<open>str.splitlines\<close>, with every line boundary Python knows
  below character 256. The loop of \<open>_update\<close> is \<open>update_loop\<close>; \<open>placed\<close> says without an
  algorithm which result a list of hunks has on a list of lines.
\<close>

section \<open>Lines\<close>

definition line_break :: "char \<Rightarrow> bool" where
  "line_break c = ((of_char c :: nat) \<in> {10, 11, 12, 13, 28, 29, 30, 133})"

function splitlines :: "string \<Rightarrow> string list" where
  "splitlines s =
     (case s of
        [] \<Rightarrow> []
      | c # cs \<Rightarrow>
          if c = CHR 0x0D \<and> cs \<noteq> [] \<and> hd cs = CHR 0x0A then [] # splitlines (tl cs)
          else if line_break c then [] # splitlines cs
          else (case splitlines cs of [] \<Rightarrow> [[c]] | l # ls \<Rightarrow> (c # l) # ls))"
  by pat_completeness auto
termination
  by (relation "measure length") auto

declare splitlines.simps [simp del]

lemma splitlines_Nil: "splitlines [] = []"
  by (subst splitlines.simps) simp

lemma splitlines_Cons:
  "splitlines (c # cs) =
     (if c = CHR 0x0D \<and> cs \<noteq> [] \<and> hd cs = CHR 0x0A then [] # splitlines (tl cs)
      else if line_break c then [] # splitlines cs
      else (case splitlines cs of [] \<Rightarrow> [[c]] | l # ls \<Rightarrow> (c # l) # ls))"
  by (subst splitlines.simps) simp

fun has_crlf :: "string \<Rightarrow> bool" where
  "has_crlf (a # b # s) \<longleftrightarrow> a = CHR 0x0D \<and> b = CHR 0x0A \<or> has_crlf (b # s)"
| "has_crlf _ \<longleftrightarrow> False"

definition line_ending :: "string \<Rightarrow> string" where
  "line_ending s = (if has_crlf s then [CHR 0x0D, CHR 0x0A] else [CHR 0x0A])"

definition join_lines :: "string \<Rightarrow> string list \<Rightarrow> string" where
  "join_lines ending ls = join ending ls @ (if ls = [] then [] else ending)"

section \<open>Hunks\<close>

definition section_start :: "string \<Rightarrow> bool" where
  "section_start l \<longleftrightarrow> starts_with ''@@'' l \<or> starts_with ''***'' l"

definition END_OF_FILE :: string where "END_OF_FILE = ''*** End of File''"

text \<open>The inner loop: the lines of a hunk, split into what it replaces and what it puts there.\<close>

fun hunk_body :: "string list \<Rightarrow> (string list \<times> string list \<times> string list) result" where
  "hunk_body [] = Inr ([], [], [])"
| "hunk_body (l # ls) =
     (if section_start l then Inr ([], [], l # ls)
      else if l = [] \<or> hd l \<notin> {CHR '' '', CHR ''+'', CHR ''-''} then Inl (FilesystemError ''invalid_patch'')
      else rbind (hunk_body ls) (\<lambda>(before, after, rest).
        Inr (if hd l = CHR ''+'' then before else tl l # before, if hd l = CHR ''-'' then after else tl l # after, rest)))"

lemma hunk_body_rest: "hunk_body ls = Inr (b, a, rest) \<Longrightarrow> length rest \<le> length ls"
  by (induction ls arbitrary: b a) (fastforce split: if_splits)+

definition at_end :: "string list \<Rightarrow> bool" where
  "at_end rest = (case rest of [] \<Rightarrow> False | l # _ \<Rightarrow> l = END_OF_FILE)"

text \<open>\<open>source.index(anchor, cursor)\<close>.\<close>

fun index_from :: "string list \<Rightarrow> string \<Rightarrow> nat \<Rightarrow> nat option" where
  "index_from [] anchor cursor = None"
| "index_from (l # ls) anchor 0 = (if l = anchor then Some 0 else map_option Suc (index_from ls anchor 0))"
| "index_from (l # ls) anchor (Suc n) = map_option Suc (index_from ls anchor n)"

text \<open>The search of the lines to replace; with none, or at the end of the file, their place is fixed.\<close>

function seek :: "string list \<Rightarrow> string list \<Rightarrow> nat \<Rightarrow> nat option" where
  "seek source before position =
     (if length source < position + length before then None
      else if take (length before) (drop position source) = before then Some position
      else seek source before (Suc position))"
  by pat_completeness auto
termination
  by (relation "measure (\<lambda>(source, before, position). Suc (length source) - position)") auto

declare seek.simps [simp del]

definition place :: "string list \<Rightarrow> string list \<Rightarrow> bool \<Rightarrow> nat \<Rightarrow> nat result" where
  "place source before ending cursor =
     (if ending
      then if length source < length before \<or> length source - length before < cursor \<or> drop (length source - length before) source \<noteq> before
           then Inl (FilesystemError ''edit_conflict'') else Inr (length source - length before)
      else if before = [] then Inr (length source)
      else case seek source before cursor of None \<Rightarrow> Inl (FilesystemError ''edit_conflict'') | Some p \<Rightarrow> Inr p)"

definition skip_anchor :: "string list \<Rightarrow> string \<Rightarrow> nat \<Rightarrow> string list \<Rightarrow> (nat \<times> string list) result" where
  "skip_anchor source marker cursor output =
     (if starts_with ''@@ '' marker
      then (case index_from source (drop 3 marker) cursor of
              None \<Rightarrow> Inl (FilesystemError ''edit_conflict'')
            | Some p \<Rightarrow> Inr (p + 1, output @ take (p + 1 - cursor) (drop cursor source)))
      else Inr (cursor, output))"

function update_loop :: "string list \<Rightarrow> string list \<Rightarrow> nat \<Rightarrow> string list \<Rightarrow> string list result" where
  "update_loop source lines cursor output =
     (case lines of
        [] \<Rightarrow> Inr (output @ drop cursor source)
      | marker # body \<Rightarrow>
          if \<not> starts_with ''@@'' marker then Inl (FilesystemError ''invalid_patch'')
          else case skip_anchor source marker cursor output of
            Inl e \<Rightarrow> Inl e
          | Inr (cursor1, output1) \<Rightarrow>
              (case hunk_body body of
                 Inl e \<Rightarrow> Inl e
               | Inr (before, after, rest) \<Rightarrow>
                   (case place source before (at_end rest) cursor1 of
                      Inl e \<Rightarrow> Inl e
                    | Inr p \<Rightarrow> update_loop source (if at_end rest then tl rest else rest) (p + length before)
                        (output1 @ take (p - cursor1) (drop cursor1 source) @ after))))"
  by pat_completeness auto
termination
  by (relation "measure (\<lambda>(source, lines, cursor, output). length lines)") (auto dest: hunk_body_rest)

declare update_loop.simps [simp del]

definition update_file :: "string \<Rightarrow> string list \<Rightarrow> string result" where
  "update_file old lines = rbind (update_loop (splitlines old) lines 0 []) (\<lambda>output. Inr (join_lines (line_ending old) output))"

section \<open>What a patch means\<close>

record hunk =
  hk_anchor :: "string option"
  hk_before :: "string list"
  hk_after :: "string list"
  hk_at_end :: bool

function parse_hunks :: "string list \<Rightarrow> hunk list result" where
  "parse_hunks lines =
     (case lines of
        [] \<Rightarrow> Inr []
      | marker # body \<Rightarrow>
          if \<not> starts_with ''@@'' marker then Inl (FilesystemError ''invalid_patch'')
          else case hunk_body body of
            Inl e \<Rightarrow> Inl e
          | Inr (before, after, rest) \<Rightarrow>
              rbind (parse_hunks (if at_end rest then tl rest else rest)) (\<lambda>hs.
                Inr (\<lparr>hk_anchor = (if starts_with ''@@ '' marker then Some (drop 3 marker) else None),
                      hk_before = before, hk_after = after, hk_at_end = at_end rest\<rparr> # hs)))"
  by pat_completeness auto
termination
  by (relation "measure length") (auto dest: hunk_body_rest)

declare parse_hunks.simps [simp del]

text \<open>
  A hunk first passes over the lines up to its anchor, then keeps lines until it meets the
  ones it replaces for the first time; without such lines, or marked as the end of the file, it
  replaces the end of the file.
\<close>

definition up_to_anchor :: "string option \<Rightarrow> string list \<Rightarrow> bool" where
  "up_to_anchor anchor pre = (case anchor of None \<Rightarrow> pre = [] | Some a \<Rightarrow> pre \<noteq> [] \<and> last pre = a \<and> a \<notin> set (butlast pre))"

definition lands :: "string list \<Rightarrow> bool \<Rightarrow> string list \<Rightarrow> string list \<Rightarrow> bool" where
  "lands before ending kept rest \<longleftrightarrow>
     (if ending \<or> before = [] then rest = []
      else \<forall>n < length kept. take (length before) (drop n (kept @ before @ rest)) \<noteq> before)"

inductive placed :: "hunk list \<Rightarrow> string list \<Rightarrow> string list \<Rightarrow> bool" where
  p_nil: "placed [] source source"
| p_hunk: "up_to_anchor (hk_anchor h) pre \<Longrightarrow> lands (hk_before h) (hk_at_end h) kept rest \<Longrightarrow> placed hs rest out \<Longrightarrow>
    placed (h # hs) (pre @ kept @ hk_before h @ rest) (pre @ kept @ hk_after h @ out)"

inductive_simps placed_nil [simp]: "placed [] source out"
inductive_cases placed_hunkE: "placed (h # hs) source out"

section \<open>The loop computes it\<close>

lemma index_from_Some:
  "index_from source a c = Some p \<longleftrightarrow> (\<exists>q rest. drop c source = q @ a # rest \<and> a \<notin> set q \<and> p = c + length q)"
proof (induction source a c arbitrary: p rule: index_from.induct)
  case (2 l ls a)
  show ?case
  proof (cases "l = a")
    case True
    then show ?thesis by (auto simp: Cons_eq_append_conv)
  next
    case False
    have "(\<exists>q rest. l # ls = q @ a # rest \<and> a \<notin> set q \<and> p = length q) \<longleftrightarrow>
        (\<exists>q rest. ls = q @ a # rest \<and> a \<notin> set q \<and> p = Suc (length q))"
    proof
      assume "\<exists>q rest. l # ls = q @ a # rest \<and> a \<notin> set q \<and> p = length q"
      with False show "\<exists>q rest. ls = q @ a # rest \<and> a \<notin> set q \<and> p = Suc (length q)"
        by (auto simp: Cons_eq_append_conv)
    next
      assume "\<exists>q rest. ls = q @ a # rest \<and> a \<notin> set q \<and> p = Suc (length q)"
      then obtain q rest where "ls = q @ a # rest" "a \<notin> set q" "p = Suc (length q)" by blast
      with False show "\<exists>q rest. l # ls = q @ a # rest \<and> a \<notin> set q \<and> p = length q"
        by (intro exI [of _ "l # q"] exI [of _ rest]) auto
    qed
    with False 2 show ?thesis by (cases p) auto
  qed
next
  case (3 l ls a n)
  then show ?case by (cases p) auto
qed simp

lemma skip_anchor_Inr:
  "skip_anchor source marker c output = Inr (c1, output1) \<longleftrightarrow>
    (\<exists>pre rest. drop c source = pre @ rest \<and> up_to_anchor (if starts_with ''@@ '' marker then Some (drop 3 marker) else None) pre \<and>
       c1 = c + length pre \<and> output1 = output @ pre)"
proof (cases "starts_with ''@@ '' marker")
  case False
  then show ?thesis by (auto simp: skip_anchor_def up_to_anchor_def)
next
  case True
  let ?a = "drop 3 marker"
  show ?thesis
  proof
    assume "skip_anchor source marker c output = Inr (c1, output1)"
    with True obtain p where p: "index_from source ?a c = Some p" "c1 = p + 1" "output1 = output @ take (p + 1 - c) (drop c source)"
      by (auto simp: skip_anchor_def split: option.splits)
    then obtain q rest where q: "drop c source = q @ ?a # rest" "?a \<notin> set q" "p = c + length q" by (auto simp: index_from_Some)
    with p True show "\<exists>pre rest. drop c source = pre @ rest \<and>
        up_to_anchor (if starts_with ''@@ '' marker then Some ?a else None) pre \<and> c1 = c + length pre \<and> output1 = output @ pre"
      by (intro exI [of _ "q @ [?a]"] exI [of _ rest]) (simp add: up_to_anchor_def)
  next
    assume "\<exists>pre rest. drop c source = pre @ rest \<and>
        up_to_anchor (if starts_with ''@@ '' marker then Some ?a else None) pre \<and> c1 = c + length pre \<and> output1 = output @ pre"
    then obtain pre rest where pre: "drop c source = pre @ rest" "pre \<noteq> []" "last pre = ?a" "?a \<notin> set (butlast pre)"
      "c1 = c + length pre" "output1 = output @ pre" using True by (auto simp: up_to_anchor_def)
    then have eq: "pre = butlast pre @ [?a]" by (metis append_butlast_last_id)
    then have "drop c source = butlast pre @ ?a # rest" using pre(1) by (metis append.assoc append_Cons append_Nil)
    then have "index_from source ?a c = Some (c + length (butlast pre))" using pre(4) by (auto simp: index_from_Some)
    moreover have "length (butlast pre) + 1 = length pre" using pre(2) by (cases pre rule: rev_cases) auto
    ultimately show "skip_anchor source marker c output = Inr (c1, output1)"
      using True pre by (simp add: skip_anchor_def)
  qed
qed

lemma seek_Some:
  "seek source b c = Some p \<longleftrightarrow> c \<le> p \<and> p + length b \<le> length source \<and> take (length b) (drop p source) = b \<and>
     (\<forall>i. c \<le> i \<and> i < p \<longrightarrow> take (length b) (drop i source) \<noteq> b)"
proof (induction source b c rule: seek.induct)
  case (1 source b c)
  show ?case
  proof (cases "length source < c + length b \<or> take (length b) (drop c source) = b")
    case True
    then show ?thesis
      by (subst seek.simps) (auto dest: le_neq_implies_less simp: le_less)
  next
    case False
    then have "(\<forall>i. c \<le> i \<and> i < p \<longrightarrow> take (length b) (drop i source) \<noteq> b) \<longleftrightarrow>
        (\<forall>i. Suc c \<le> i \<and> i < p \<longrightarrow> take (length b) (drop i source) \<noteq> b)"
      by (metis Suc_leD le_neq_implies_less Suc_leI)
    with False 1 show ?thesis by (subst seek.simps) (auto simp: Suc_le_eq le_less)
  qed
qed

lemma drop_split: "drop c xs = kept @ rest \<Longrightarrow> drop (c + length kept) xs = rest"
  by (metis add.commute append_eq_conv_conj drop_drop)

lemma place_Inr:
  assumes c: "c \<le> length source"
  shows "place source b e c = Inr p \<longleftrightarrow>
    (\<exists>kept rest. drop c source = kept @ b @ rest \<and> lands b e kept rest \<and> p = c + length kept)"
proof (cases "e \<or> b = []")
  case True
  have "place source b e c = Inr p \<longleftrightarrow> p = length source - length b \<and> c \<le> p \<and> length b \<le> length source \<and> drop p source = b"
    using True c by (auto simp: place_def)
  also have "\<dots> \<longleftrightarrow> (\<exists>kept. drop c source = kept @ b \<and> p = c + length kept)"
  proof
    assume "p = length source - length b \<and> c \<le> p \<and> length b \<le> length source \<and> drop p source = b"
    then have p: "c \<le> p" "drop p source = b" "p \<le> length source" by auto
    have "drop c source = take (p - c) (drop c source) @ drop p source"
      by (metis append_take_drop_id drop_drop le_add_diff_inverse2 p(1))
    with p show "\<exists>kept. drop c source = kept @ b \<and> p = c + length kept"
      by (intro exI [of _ "take (p - c) (drop c source)"]) auto
  next
    assume "\<exists>kept. drop c source = kept @ b \<and> p = c + length kept"
    then obtain kept where k: "drop c source = kept @ b" "p = c + length kept" by blast
    then have "length source - c = length kept + length b" by (metis length_append length_drop)
    with k c drop_split [OF k(1)] show "p = length source - length b \<and> c \<le> p \<and> length b \<le> length source \<and> drop p source = b"
      by auto
  qed
  finally show ?thesis using True by (auto simp: lands_def)
next
  case False
  have "place source b e c = Inr p \<longleftrightarrow> seek source b c = Some p" using False by (auto simp: place_def split: option.splits)
  also have "\<dots> \<longleftrightarrow> (\<exists>kept rest. drop c source = kept @ b @ rest \<and> lands b e kept rest \<and> p = c + length kept)"
  proof
    assume "seek source b c = Some p"
    then have p: "c \<le> p" "p + length b \<le> length source" "take (length b) (drop p source) = b"
      "\<forall>i. c \<le> i \<and> i < p \<longrightarrow> take (length b) (drop i source) \<noteq> b" by (auto simp: seek_Some)
    let ?kept = "take (p - c) (drop c source)" and ?rest = "drop (p + length b) source"
    have eq: "drop c source = ?kept @ b @ ?rest"
      by (metis append_take_drop_id drop_drop le_add_diff_inverse2 p(1,3) add.commute)
    have "lands b e ?kept ?rest"
      using False p(4) c p(1,2) by (auto simp: lands_def eq [symmetric] add.commute)
    with eq p show "\<exists>kept rest. drop c source = kept @ b @ rest \<and> lands b e kept rest \<and> p = c + length kept"
      by (intro exI [of _ ?kept] exI [of _ ?rest]) auto
  next
    assume "\<exists>kept rest. drop c source = kept @ b @ rest \<and> lands b e kept rest \<and> p = c + length kept"
    then obtain kept rest where k: "drop c source = kept @ b @ rest" "lands b e kept rest" "p = c + length kept" by blast
    have first: "take (length b) (drop i source) \<noteq> b" if "c \<le> i" "i < p" for i
    proof -
      have "i - c < length kept" using that k(3) by arith
      then have "take (length b) (drop (i - c) (drop c source)) \<noteq> b"
        unfolding k(1) by (rule k(2) [unfolded lands_def if_not_P [OF False], rule_format])
      with that show ?thesis by simp
    qed
    have "length source - c = length kept + length b + length rest" by (metis k(1) add.assoc length_append length_drop)
    with k c first drop_split [OF k(1)] show "seek source b c = Some p" by (auto simp: seek_Some)
  qed
  finally show ?thesis .
qed

lemma within: "c \<le> length xs \<Longrightarrow> drop c xs = ys @ zs \<Longrightarrow> c + length ys \<le> length xs"
  by (metis add.commute le_add1 le_diff_conv length_append length_drop le_add_diff_inverse2 add_le_cancel_right)

lemma placed_Cons:
  "placed (h # hs) source out \<longleftrightarrow> (\<exists>pre kept tail out'. source = pre @ kept @ hk_before h @ tail \<and> out = pre @ kept @ hk_after h @ out' \<and>
     up_to_anchor (hk_anchor h) pre \<and> lands (hk_before h) (hk_at_end h) kept tail \<and> placed hs tail out')"
  by (blast intro: p_hunk elim: placed_hunkE)

definition anchor_of :: "string \<Rightarrow> string option" where
  "anchor_of marker = (if starts_with ''@@ '' marker then Some (drop 3 marker) else None)"

lemma hunk_lands:
  assumes c: "c \<le> length source"
  shows "(\<exists>c1 o1 p. skip_anchor source marker c acc = Inr (c1, o1) \<and> place source b e c1 = Inr p \<and>
      n = p + length b \<and> acc' = o1 @ take (p - c1) (drop c1 source) @ a) \<longleftrightarrow>
    (\<exists>pre kept tail. drop c source = pre @ kept @ b @ tail \<and> up_to_anchor (anchor_of marker) pre \<and> lands b e kept tail \<and>
      n = c + length pre + length kept + length b \<and> acc' = acc @ pre @ kept @ a)" (is "?L = ?R")
proof
  assume ?L
  then obtain c1 o1 p where s: "skip_anchor source marker c acc = Inr (c1, o1)" and p: "place source b e c1 = Inr p"
    and n: "n = p + length b" "acc' = o1 @ take (p - c1) (drop c1 source) @ a" by blast
  from s obtain pre mid where pre: "drop c source = pre @ mid" "up_to_anchor (anchor_of marker) pre" "c1 = c + length pre" "o1 = acc @ pre"
    unfolding skip_anchor_Inr anchor_of_def by blast
  note c1 = within [OF c pre(1)] drop_split [OF pre(1)]
  from p obtain kept tail where k: "mid = kept @ b @ tail" "lands b e kept tail" "p = c1 + length kept"
    unfolding pre(3) place_Inr [OF c1(1)] c1(2) by blast
  have "take (p - c1) (drop c1 source) = kept" using c1(2) k pre(3) by simp
  with pre k n show ?R by (intro exI [of _ pre] exI [of _ kept] exI [of _ tail]) simp
next
  assume ?R
  then obtain pre kept tail where pre: "drop c source = pre @ kept @ b @ tail" "up_to_anchor (anchor_of marker) pre"
    and k: "lands b e kept tail" and n: "n = c + length pre + length kept + length b" "acc' = acc @ pre @ kept @ a" by blast
  note c1 = within [OF c pre(1)] drop_split [OF pre(1)]
  have s: "skip_anchor source marker c acc = Inr (c + length pre, acc @ pre)"
    unfolding skip_anchor_Inr using pre by (auto simp: anchor_of_def)
  have p: "place source b e (c + length pre) = Inr (c + length pre + length kept)"
    unfolding place_Inr [OF c1(1)] c1(2) using k by blast
  have "take (length kept) (drop (c + length pre) source) = kept" using c1(2) by simp
  with s p n show ?L
    by (intro exI [of _ "c + length pre"] exI [of _ "acc @ pre"] exI [of _ "c + length pre + length kept"]) simp
qed

lemma update_loop_hunk:
  assumes "starts_with ''@@'' marker" "hunk_body body = Inr (b, a, rest)"
  shows "update_loop source (marker # body) c acc = Inr res \<longleftrightarrow>
    (\<exists>n acc'. (\<exists>c1 o1 p. skip_anchor source marker c acc = Inr (c1, o1) \<and> place source b (at_end rest) c1 = Inr p \<and>
        n = p + length b \<and> acc' = o1 @ take (p - c1) (drop c1 source) @ a) \<and>
      update_loop source (if at_end rest then tl rest else rest) n acc' = Inr res)"
  using assms by (subst update_loop.simps) (auto split: sum.splits)

lemma parse_hunks_hunk:
  assumes "starts_with ''@@'' marker" "hunk_body body = Inr (b, a, rest)"
  shows "parse_hunks (marker # body) = Inr hs \<longleftrightarrow>
    (\<exists>hs'. parse_hunks (if at_end rest then tl rest else rest) = Inr hs' \<and>
       hs = \<lparr>hk_anchor = anchor_of marker, hk_before = b, hk_after = a, hk_at_end = at_end rest\<rparr> # hs')"
  using assms by (subst parse_hunks.simps) (auto simp: anchor_of_def)

lemma placed_result:
  "(\<exists>out. placed (h # hs) source out \<and> res = acc @ out) \<longleftrightarrow>
    (\<exists>pre kept tail. source = pre @ kept @ hk_before h @ tail \<and> up_to_anchor (hk_anchor h) pre \<and>
       lands (hk_before h) (hk_at_end h) kept tail \<and> (\<exists>out. placed hs tail out \<and> res = acc @ pre @ kept @ hk_after h @ out))"
proof
  assume "\<exists>out. placed (h # hs) source out \<and> res = acc @ out"
  then obtain pre kept tail out where "source = pre @ kept @ hk_before h @ tail" "up_to_anchor (hk_anchor h) pre"
    "lands (hk_before h) (hk_at_end h) kept tail" "placed hs tail out" "res = acc @ pre @ kept @ hk_after h @ out"
    unfolding placed_Cons by auto
  then show "\<exists>pre kept tail. source = pre @ kept @ hk_before h @ tail \<and> up_to_anchor (hk_anchor h) pre \<and>
       lands (hk_before h) (hk_at_end h) kept tail \<and> (\<exists>out. placed hs tail out \<and> res = acc @ pre @ kept @ hk_after h @ out)" by metis
next
  assume "\<exists>pre kept tail. source = pre @ kept @ hk_before h @ tail \<and> up_to_anchor (hk_anchor h) pre \<and>
       lands (hk_before h) (hk_at_end h) kept tail \<and> (\<exists>out. placed hs tail out \<and> res = acc @ pre @ kept @ hk_after h @ out)"
  then show "\<exists>out. placed (h # hs) source out \<and> res = acc @ out" using p_hunk by metis
qed

lemma hunks_split:
  "(\<exists>hs out. (\<exists>hs'. P hs' \<and> hs = h # hs') \<and> placed hs source out \<and> res = acc @ out) \<longleftrightarrow>
    (\<exists>hs'. P hs' \<and> (\<exists>out. placed (h # hs') source out \<and> res = acc @ out))"
  by blast

lemma hunk_cong:
  assumes "\<And>pre kept tail. D pre kept tail \<Longrightarrow> X (f pre kept) (g pre kept) = Y pre kept tail"
  shows "(\<exists>n acc. (\<exists>pre kept tail. D pre kept tail \<and> U pre \<and> L kept tail \<and> n = f pre kept \<and> acc = g pre kept) \<and> X n acc) \<longleftrightarrow>
    (\<exists>pre kept tail. D pre kept tail \<and> U pre \<and> L kept tail \<and> Y pre kept tail)"
  using assms by blast

lemma update_loop_Nil: "update_loop source [] c acc = Inr (acc @ drop c source)"
  by (subst update_loop.simps) simp

lemma parse_hunks_Nil: "parse_hunks [] = Inr []"
  by (subst parse_hunks.simps) simp

lemma placed_Nil: "placed [] source out \<longleftrightarrow> out = source"
  by (auto intro: p_nil elim: placed.cases)

lemma update_loop_bad:
  assumes "\<not> (starts_with ''@@'' marker \<and> (\<exists>b a rest. hunk_body body = Inr (b, a, rest)))"
  shows "update_loop source (marker # body) c acc \<noteq> Inr res"
  using assms by (subst update_loop.simps) (auto split: sum.splits)

lemma parse_hunks_bad:
  assumes "\<not> (starts_with ''@@'' marker \<and> (\<exists>b a rest. hunk_body body = Inr (b, a, rest)))"
  shows "parse_hunks (marker # body) \<noteq> Inr hs"
  using assms by (subst parse_hunks.simps) (auto split: sum.splits)

lemma update_loop_spec:
  assumes "c \<le> length source"
  shows "update_loop source lines c acc = Inr res \<longleftrightarrow>
    (\<exists>hs out. parse_hunks lines = Inr hs \<and> placed hs (drop c source) out \<and> res = acc @ out)"
  using assms
proof (induction "length lines" arbitrary: lines c acc rule: less_induct)
  case less
  show ?case
  proof (cases lines)
    case Nil
    then show ?thesis by (auto simp: update_loop_Nil parse_hunks_Nil placed_Nil)
  next
    case (Cons marker body)
    show ?thesis
    proof (cases "starts_with ''@@'' marker \<and> (\<exists>b a rest. hunk_body body = Inr (b, a, rest))")
      case False
      then have "update_loop source lines c acc \<noteq> Inr res" "\<And>hs. parse_hunks lines \<noteq> Inr hs"
        unfolding Cons using update_loop_bad parse_hunks_bad by blast+
      then show ?thesis by blast
    next
      case True
      then obtain b a rest where m: "starts_with ''@@'' marker" and body: "hunk_body body = Inr (b, a, rest)" by blast
      define next_lines where "next_lines = (if at_end rest then tl rest else rest)"
      have "length next_lines < length lines" using hunk_body_rest [OF body] by (auto simp: next_lines_def Cons)
      note IH = less.hyps [OF this]
      have "update_loop source lines c acc = Inr res \<longleftrightarrow>
        (\<exists>n acc'. (\<exists>pre kept tail. drop c source = pre @ kept @ b @ tail \<and> up_to_anchor (anchor_of marker) pre \<and>
            lands b (at_end rest) kept tail \<and> n = c + length pre + length kept + length b \<and> acc' = acc @ pre @ kept @ a) \<and>
          update_loop source next_lines n acc' = Inr res)"
        unfolding Cons update_loop_hunk [OF m body] hunk_lands [OF less.prems] next_lines_def ..
      also have "\<dots> \<longleftrightarrow> (\<exists>pre kept tail. drop c source = pre @ kept @ b @ tail \<and> up_to_anchor (anchor_of marker) pre \<and>
            lands b (at_end rest) kept tail \<and>
            (\<exists>hs out. parse_hunks next_lines = Inr hs \<and> placed hs tail out \<and> res = acc @ pre @ kept @ a @ out))"
      proof (rule hunk_cong)
        fix pre kept tail
        assume "drop c source = pre @ kept @ b @ tail"
        then have eq: "drop c source = (pre @ kept @ b) @ tail" by simp
        then have "c + length pre + length kept + length b \<le> length source" "drop (c + length pre + length kept + length b) source = tail"
          using within [OF less.prems eq] drop_split [OF eq] by (simp_all add: add.assoc)
        then show "update_loop source next_lines (c + length pre + length kept + length b) (acc @ pre @ kept @ a) = Inr res \<longleftrightarrow>
            (\<exists>hs out. parse_hunks next_lines = Inr hs \<and> placed hs tail out \<and> res = acc @ pre @ kept @ a @ out)"
          by (simp only: IH append_assoc)
      qed
      also have "\<dots> \<longleftrightarrow> (\<exists>hs out. parse_hunks lines = Inr hs \<and> placed hs (drop c source) out \<and> res = acc @ out)"
        unfolding Cons parse_hunks_hunk [OF m body] next_lines_def [symmetric]
        by (simp only: hunks_split placed_result hunk.select_convs) iprover
      finally show ?thesis .
    qed
  qed
qed

text \<open>
  C7. The scan of a patch over a file computes exactly what the patch means: an update succeeds when
  the lines are hunks and the hunks have their places one after the other in the lines of the file,
  each first occurrence of what it replaces after its anchor, and the result is the lines around
  these places with the replacements in between, each ended by the line ending of the file.
\<close>
theorem update_file_spec:
  "update_file old lines = Inr new \<longleftrightarrow>
    (\<exists>hs out. parse_hunks lines = Inr hs \<and> placed hs (splitlines old) out \<and> new = join_lines (line_ending old) out)"
proof -
  have "update_file old lines = Inr new \<longleftrightarrow>
      (\<exists>out. update_loop (splitlines old) lines 0 [] = Inr out \<and> new = join_lines (line_ending old) out)"
    by (cases "update_loop (splitlines old) lines 0 []") (auto simp: update_file_def)
  then show ?thesis by (auto simp: update_loop_spec)
qed

section \<open>Patches over several files\<close>

text \<open>
  A file is text, or bytes that are not UTF-8. \<open>absolute\<close> stands for the resolution of a name
  below the working directory.
\<close>

datatype file_content = Text string | Binary string

type_synonym files = "string \<Rightarrow> file_content option"

datatype patch_action = Add_File | Update_File | Delete_File

record change =
  ch_action :: patch_action
  ch_path :: string
  ch_destination :: string
  ch_original :: "file_content option"
  ch_content :: string

definition fs_path :: "(string \<Rightarrow> string) \<Rightarrow> string \<Rightarrow> string result" where
  "fs_path absolute name = (if name = [] \<or> CHR 0x00 \<in> set name then Inl (FilesystemError ''invalid_argument'') else Inr (absolute name))"

definition file_header :: "string \<Rightarrow> bool" where
  "file_header l \<longleftrightarrow> starts_with ''*** Add File: '' l \<or> starts_with ''*** Update File: '' l \<or> starts_with ''*** Delete File: '' l"

definition parse_header :: "string \<Rightarrow> (patch_action \<times> string) result" where
  "parse_header header =
     (if starts_with ''*** Add File: '' header then Inr (Add_File, drop (length ''*** Add File: '') header)
      else if starts_with ''*** Update File: '' header then Inr (Update_File, drop (length ''*** Update File: '') header)
      else if starts_with ''*** Delete File: '' header then Inr (Delete_File, drop (length ''*** Delete File: '') header)
      else Inl (FilesystemError ''invalid_patch''))"

definition move_target :: "(string \<Rightarrow> string) \<Rightarrow> patch_action \<Rightarrow> string \<Rightarrow> string list \<Rightarrow> (string \<times> string list) result" where
  "move_target absolute action path rest =
     (if rest \<noteq> [] \<and> starts_with ''*** Move to: '' (hd rest)
      then if action \<noteq> Update_File then Inl (FilesystemError ''invalid_patch'')
           else rbind (fs_path absolute (drop (length ''*** Move to: '') (hd rest))) (\<lambda>destination. Inr (destination, tl rest))
      else Inr (path, rest))"

definition read_file :: "files \<Rightarrow> string \<Rightarrow> file_content result" where
  "read_file fs path = (case fs path of None \<Rightarrow> Inl (OSError ''FileNotFoundError'') | Some c \<Rightarrow> Inr c)"

definition change_of :: "files \<Rightarrow> patch_action \<Rightarrow> string \<Rightarrow> string \<Rightarrow> string list \<Rightarrow> change result" where
  "change_of fs action path destination body =
     (let ch = (\<lambda>original content. \<lparr>ch_action = action, ch_path = path, ch_destination = destination,
                  ch_original = original, ch_content = content\<rparr>) in
      case action of
        Add_File \<Rightarrow>
          if fs path \<noteq> None \<or> (\<exists>l \<in> set body. \<not> starts_with ''+'' l) then Inl (FilesystemError ''edit_conflict'')
          else Inr (ch None (join_lines [CHR 0x0A] (map tl body)))
      | Update_File \<Rightarrow> rbind (read_file fs path) (\<lambda>original.
          case original of
            Binary _ \<Rightarrow> Inl (ValueError ''UnicodeDecodeError'')
          | Text old \<Rightarrow> rbind (update_file old body) (\<lambda>content. Inr (ch (Some original) content)))
      | Delete_File \<Rightarrow> rbind (read_file fs path) (\<lambda>original. Inr (ch (Some original) [])))"

text \<open>The first phase. A line \<open>*** Move to\<close> is no file header, so the next change starts at the next header.\<close>

function collect :: "(string \<Rightarrow> string) \<Rightarrow> files \<Rightarrow> string list \<Rightarrow> change list result" where
  "collect absolute fs lines =
     (case lines of
        [] \<Rightarrow> Inr []
      | header # rest \<Rightarrow>
          case rbind (parse_header header) (\<lambda>(action, name).
               rbind (fs_path absolute name) (\<lambda>path.
               rbind (move_target absolute action path rest) (\<lambda>(destination, rest1).
               rbind (change_of fs action path destination (takeWhile (\<lambda>l. \<not> file_header l) rest1)) Inr))) of
            Inl e \<Rightarrow> Inl e
          | Inr ch \<Rightarrow> rbind (collect absolute fs (dropWhile (\<lambda>l. \<not> file_header l) rest)) (\<lambda>chs. Inr (ch # chs)))"
  by pat_completeness auto
termination
  by (relation "measure (\<lambda>(absolute, fs, lines). length lines)") (auto simp: le_imp_less_Suc length_dropWhile_le)

declare collect.simps [simp del]

text \<open>
  The second phase, under the locks of all paths. \<open>fault op\<close> names the \<open>OSError\<close> the operating
  system raises in place of the operation \<open>op\<close> of this change, if any; a new file whose write
  fails is left with the first \<open>part\<close> characters.
\<close>

definition unchanged :: "(string \<Rightarrow> string option) \<Rightarrow> change \<Rightarrow> files \<Rightarrow> unit result" where
  "unchanged fault ch fs =
     (case ch_original ch of
        None \<Rightarrow> Inr ()
      | Some original \<Rightarrow>
          (case fault ''read'' of
             Some e \<Rightarrow> Inl (OSError e)
           | None \<Rightarrow> rbind (read_file fs (ch_path ch)) (\<lambda>c. guard (c = original) (FilesystemError ''edit_conflict''))))"

definition apply_change :: "(string \<Rightarrow> string option) \<Rightarrow> nat \<Rightarrow> change \<Rightarrow> files \<Rightarrow> exn option \<times> string list \<times> files" where
  "apply_change fault part ch fs =
     (case unchanged fault ch fs of
        Inl e \<Rightarrow> (Some e, [], fs)
      | Inr _ \<Rightarrow>
          (case ch_action ch of
             Delete_File \<Rightarrow>
               (case fault ''unlink'' of
                  Some e \<Rightarrow> (Some (OSError e), [], fs)
                | None \<Rightarrow> (None, [ch_destination ch], fs(ch_path ch := None)))
           | Add_File \<Rightarrow>
               (case fault ''open'' of
                  Some e \<Rightarrow> (Some (OSError e), [], fs)
                | None \<Rightarrow>
                    if fs (ch_path ch) \<noteq> None then (Some (OSError ''FileExistsError''), [], fs)
                    else (case fault ''write'' of
                            Some e \<Rightarrow> (Some (OSError e), [], fs(ch_path ch \<mapsto> Text (take part (ch_content ch))))
                          | None \<Rightarrow> (None, [ch_destination ch], fs(ch_path ch \<mapsto> Text (ch_content ch)))))
           | Update_File \<Rightarrow>
               (case fault ''write'' of
                  Some e \<Rightarrow> (Some (OSError e), [], fs)
                | None \<Rightarrow>
                    let fs1 = fs(ch_path ch \<mapsto> Text (ch_content ch)) in
                    if ch_destination ch = ch_path ch then (None, [ch_path ch], fs1)
                    else (case fault ''replace'' of
                            Some e \<Rightarrow> (Some (OSError e), [ch_path ch], fs1)
                          | None \<Rightarrow> (None, [ch_destination ch], fs1(ch_destination ch := fs1 (ch_path ch), ch_path ch := None))))))"

definition error_code :: "exn \<Rightarrow> string" where
  "error_code e = (case e of FilesystemError code \<Rightarrow> code | OSError name \<Rightarrow>
     if name = ''PermissionError'' then ''permission_denied'' else ''filesystem_error'' | _ \<Rightarrow> ''filesystem_error'')"

datatype patch_outcome = Changed "string list" | Interrupted string "string list" "string list" | Refused exn

fun apply_changes ::
  "(nat \<Rightarrow> string \<Rightarrow> string option) \<Rightarrow> (nat \<Rightarrow> nat) \<Rightarrow> nat \<Rightarrow> change list \<Rightarrow> string list \<Rightarrow> files \<Rightarrow> patch_outcome \<times> files" where
  "apply_changes fault part n [] completed fs = (Changed completed, fs)"
| "apply_changes fault part n (ch # chs) completed fs =
     (case apply_change (fault n) (part n) ch fs of
        (error, names, fs1) \<Rightarrow>
          (case error of
             None \<Rightarrow> apply_changes fault part (n + 1) chs (completed @ names) fs1
           | Some e \<Rightarrow>
               (Interrupted (error_code e) (completed @ names)
                  ((if ch_path ch \<in> set (completed @ names) then ch_destination ch else ch_path ch) # map ch_path chs), fs1)))"

text \<open>Between reading the files and holding their locks others may write: \<open>between\<close>.\<close>

definition apply_patch ::
  "(string \<Rightarrow> string) \<Rightarrow> (nat \<Rightarrow> string \<Rightarrow> string option) \<Rightarrow> (nat \<Rightarrow> nat) \<Rightarrow> (files \<Rightarrow> files) \<Rightarrow> string \<Rightarrow> files \<Rightarrow> patch_outcome \<times> files" where
  "apply_patch absolute fault part between patch fs =
     (let lines = splitlines patch in
      if lines = [] \<or> hd lines \<noteq> ''*** Begin Patch'' \<or> last lines \<noteq> ''*** End Patch''
      then (Refused (FilesystemError ''invalid_patch''), between fs)
      else case collect absolute fs (butlast (tl lines)) of
        Inl e \<Rightarrow> (Refused e, between fs)
      | Inr chs \<Rightarrow> apply_changes fault part 0 chs [] (between fs))"

text \<open>What a change does when it is carried out.\<close>

definition effect_of :: "change \<Rightarrow> files \<Rightarrow> files" where
  "effect_of ch fs =
     (case ch_action ch of
        Delete_File \<Rightarrow> fs(ch_path ch := None)
      | Add_File \<Rightarrow> fs(ch_path ch \<mapsto> Text (ch_content ch))
      | Update_File \<Rightarrow> fs(ch_path ch := None, ch_destination ch \<mapsto> Text (ch_content ch)))"

lemma unchanged_Inr: "unchanged fault ch fs = Inr u \<Longrightarrow> ch_original ch = None \<or> fs (ch_path ch) = ch_original ch"
  by (auto simp: unchanged_def read_file_def guard_def split: option.splits if_splits)

lemma apply_change_None:
  assumes "apply_change fault part ch fs = (None, names, fs1)"
  shows "names = [ch_destination ch]" "fs1 = effect_of ch fs" "ch_original ch = None \<or> fs (ch_path ch) = ch_original ch"
    "ch_action ch = Add_File \<Longrightarrow> fs (ch_path ch) = None"
proof -
  from assms obtain u where u: "unchanged fault ch fs = Inr u" by (cases "unchanged fault ch fs") (auto simp: apply_change_def)
  then show "ch_original ch = None \<or> fs (ch_path ch) = ch_original ch" by (rule unchanged_Inr)
  show "ch_action ch = Add_File \<Longrightarrow> fs (ch_path ch) = None"
    using assms u by (auto simp: apply_change_def split: option.splits if_splits)
  show "names = [ch_destination ch]"
    using assms u by (cases "ch_action ch") (auto simp: apply_change_def Let_def split: option.splits if_splits)
  show "fs1 = effect_of ch fs"
    using assms u by (cases "ch_action ch") (auto simp: apply_change_def effect_of_def Let_def split: option.splits if_splits)
qed

lemma apply_change_Some:
  assumes "apply_change fault part ch fs = (Some e, names, fs1)"
  shows "names = [] \<and> (\<forall>q. q \<noteq> ch_path ch \<or> ch_action ch \<noteq> Add_File \<longrightarrow> fs1 q = fs q) \<or>
    names = [ch_path ch] \<and> ch_action ch = Update_File \<and> ch_destination ch \<noteq> ch_path ch \<and> fs1 = fs(ch_path ch \<mapsto> Text (ch_content ch))"
proof (cases "unchanged fault ch fs")
  case (Inl x)
  with assms show ?thesis by (simp add: apply_change_def)
next
  case (Inr u)
  with assms show ?thesis
    by (cases "ch_action ch") (auto simp: apply_change_def Let_def split: option.splits if_splits)
qed

text \<open>The first \<open>k\<close> changes are carried out, and each found the file it was made for.\<close>

definition carried_out :: "change list \<Rightarrow> nat \<Rightarrow> files \<Rightarrow> files \<Rightarrow> bool" where
  "carried_out chs k fs fs1 \<longleftrightarrow> fs1 = fold effect_of (take k chs) fs \<and>
     (\<forall>j < k. let before = fold effect_of (take j chs) fs; ch = chs ! j in
        if ch_action ch = Add_File then before (ch_path ch) = None
        else ch_original ch = None \<or> before (ch_path ch) = ch_original ch)"

lemma carried_out_0: "carried_out chs 0 fs fs"
  by (simp add: carried_out_def)

lemma carried_out_Suc:
  assumes "carried_out chs k (effect_of ch fs) fs1"
    and "ch_action ch = Add_File \<Longrightarrow> fs (ch_path ch) = None" "ch_original ch = None \<or> fs (ch_path ch) = ch_original ch"
  shows "carried_out (ch # chs) (Suc k) fs fs1"
  using assms by (auto simp: carried_out_def Let_def less_Suc_eq_0_disj)

lemma apply_changes_Changed:
  assumes "apply_changes fault part n chs completed fs = (Changed c, fs1)"
  shows "c = completed @ map ch_destination chs \<and> carried_out chs (length chs) fs fs1"
  using assms
proof (induction chs arbitrary: n completed fs)
  case Nil
  then show ?case by (simp add: carried_out_def)
next
  case (Cons ch chs)
  obtain e names fs0 where a: "apply_change (fault n) (part n) ch fs = (e, names, fs0)" by (metis prod_cases3)
  with Cons.prems have "e = None" by (cases e) auto
  note step = apply_change_None [OF a [unfolded this]]
  from Cons.prems a \<open>e = None\<close> have "apply_changes fault part (n + 1) chs (completed @ names) fs0 = (Changed c, fs1)" by simp
  from Cons.IH [OF this] step show ?case by (auto intro: carried_out_Suc)
qed

text \<open>
  Change \<open>ch\<close> failed on \<open>fs\<close> and left \<open>fs1\<close>: no file has changed but a new one that may be
  incomplete; or an update is written whose move has failed, and \<open>names\<close> says so.
\<close>

definition stopped_in :: "change \<Rightarrow> files \<Rightarrow> string list \<Rightarrow> files \<Rightarrow> bool" where
  "stopped_in ch fs names fs1 \<longleftrightarrow>
     names = [] \<and> (\<forall>q. q \<noteq> ch_path ch \<or> ch_action ch \<noteq> Add_File \<longrightarrow> fs1 q = fs q) \<or>
     names = [ch_path ch] \<and> ch_action ch = Update_File \<and> ch_destination ch \<noteq> ch_path ch \<and> fs1 = fs(ch_path ch \<mapsto> Text (ch_content ch))"

lemma apply_changes_Interrupted:
  assumes "apply_changes fault part n chs completed fs = (Interrupted code c p, fs1)"
  shows "\<exists>k at names. k < length chs \<and> carried_out chs k fs at \<and> stopped_in (chs ! k) at names fs1 \<and>
    c = completed @ map ch_destination (take k chs) @ names \<and>
    p = (if ch_path (chs ! k) \<in> set c then ch_destination (chs ! k) else ch_path (chs ! k)) # map ch_path (drop (Suc k) chs)"
  using assms
proof (induction chs arbitrary: n completed fs)
  case (Cons ch chs)
  obtain e names fs0 where a: "apply_change (fault n) (part n) ch fs = (e, names, fs0)" by (metis prod_cases3)
  show ?case
  proof (cases e)
    case None
    note step = apply_change_None [OF a [unfolded None]]
    from Cons.prems a None have "apply_changes fault part (n + 1) chs (completed @ names) fs0 = (Interrupted code c p, fs1)" by simp
    from Cons.IH [OF this] obtain k at rest where k: "k < length chs" "carried_out chs k fs0 at" "stopped_in (chs ! k) at rest fs1"
      "c = (completed @ names) @ map ch_destination (take k chs) @ rest"
      "p = (if ch_path (chs ! k) \<in> set c then ch_destination (chs ! k) else ch_path (chs ! k)) # map ch_path (drop (Suc k) chs)" by blast
    from k(2) step have "carried_out (ch # chs) (Suc k) fs at" by (auto intro: carried_out_Suc)
    with k step(1) show ?thesis by (intro exI [of _ "Suc k"] exI [of _ at] exI [of _ rest]) simp
  next
    case (Some x)
    from Cons.prems a Some have eqs: "c = completed @ names" "fs1 = fs0"
      "p = (if ch_path ch \<in> set c then ch_destination ch else ch_path ch) # map ch_path chs" by auto
    with apply_change_Some [OF a [unfolded Some]] show ?thesis
      by (intro exI [of _ 0] exI [of _ fs] exI [of _ names]) (simp add: carried_out_0 stopped_in_def)
  qed
qed simp

lemma apply_changes_not_Refused: "fst (apply_changes fault part n chs completed fs) \<noteq> Refused e"
  by (induction chs arbitrary: n completed fs) (auto split: prod.splits option.splits)

text \<open>
  C8. The report of a patch says what happened to the files, whatever fails and whoever writes
  before the locks are held. A refused patch changes nothing. A patch reported as changed has
  carried out all its changes in order, each on a file that still had the bytes it was computed
  from (or, for a new file, did not exist), and names their destinations. An interrupted
  patch has carried out exactly the changes it reports as completed, possibly written one update
  whose move failed, and left every other file alone but a new file it was writing; what it has
  not carried out is what it reports as pending, in order.
\<close>

theorem patch_report:
  "case apply_patch absolute fault part between patch fs of
     (Refused e, fs1) \<Rightarrow> fs1 = between fs
   | (Changed c, fs1) \<Rightarrow> \<exists>chs. collect absolute fs (butlast (tl (splitlines patch))) = Inr chs \<and>
       c = map ch_destination chs \<and> carried_out chs (length chs) (between fs) fs1
   | (Interrupted code c p, fs1) \<Rightarrow> \<exists>chs k at names. collect absolute fs (butlast (tl (splitlines patch))) = Inr chs \<and>
       k < length chs \<and> carried_out chs k (between fs) at \<and> stopped_in (chs ! k) at names fs1 \<and>
       c = map ch_destination (take k chs) @ names \<and>
       p = (if ch_path (chs ! k) \<in> set c then ch_destination (chs ! k) else ch_path (chs ! k)) # map ch_path (drop (Suc k) chs)"
proof -
  let ?lines = "splitlines patch"
  show ?thesis
  proof (cases "?lines = [] \<or> hd ?lines \<noteq> ''*** Begin Patch'' \<or> last ?lines \<noteq> ''*** End Patch'' \<or>
      (\<exists>e. collect absolute fs (butlast (tl ?lines)) = Inl e)")
    case True
    then have "\<exists>e. apply_patch absolute fault part between patch fs = (Refused e, between fs)"
      by (auto simp: apply_patch_def Let_def)
    then show ?thesis by auto
  next
    case False
    then obtain chs where c: "collect absolute fs (butlast (tl ?lines)) = Inr chs"
      by (cases "collect absolute fs (butlast (tl ?lines))") auto
    obtain out fs1 where o: "apply_changes fault part 0 chs [] (between fs) = (out, fs1)" by fastforce
    have eq: "apply_patch absolute fault part between patch fs = (out, fs1)" using False c o by (simp add: apply_patch_def Let_def)
    show ?thesis
    proof (cases out)
      case (Changed n)
      with apply_changes_Changed [OF o [unfolded Changed]] c eq show ?thesis by simp
    next
      case (Interrupted code c1 p)
      with apply_changes_Interrupted [OF o [unfolded Interrupted]] c eq show ?thesis by simp
    next
      case (Refused e)
      with apply_changes_not_Refused [of fault part 0 chs "[]" "between fs" e] o show ?thesis by simp
    qed
  qed
qed

section \<open>Undisturbed patches\<close>

text \<open>Without faults and without a file that two sections touch, a patch that can be read is carried out.\<close>

lemma apply_change_undisturbed:
  assumes "\<And>op. fault op = None" "ch_original ch = None \<or> fs (ch_path ch) = ch_original ch"
    and "ch_action ch = Add_File \<Longrightarrow> fs (ch_path ch) = None"
  shows "apply_change fault part ch fs = (None, [ch_destination ch], effect_of ch fs)"
  using assms
  by (auto simp: apply_change_def effect_of_def unchanged_def read_file_def Let_def guard_def fun_eq_iff
      split: patch_action.splits option.splits)

definition found_as_read :: "files \<Rightarrow> change \<Rightarrow> bool" where
  "found_as_read fs ch \<longleftrightarrow> (if ch_action ch = Add_File then ch_original ch = None \<and> fs (ch_path ch) = None else fs (ch_path ch) = ch_original ch)"

lemma effect_of_elsewhere: "q \<noteq> ch_path ch \<Longrightarrow> q \<noteq> ch_destination ch \<Longrightarrow> effect_of ch fs q = fs q"
  by (simp add: effect_of_def split: patch_action.split)

lemma apply_changes_undisturbed:
  assumes "\<And>n op. fault n op = None" "\<forall>ch \<in> set chs. found_as_read fs ch"
    and "sorted_wrt (\<lambda>ch later. ch_path later \<noteq> ch_path ch \<and> ch_path later \<noteq> ch_destination ch) chs"
  shows "apply_changes fault part n chs completed fs = (Changed (completed @ map ch_destination chs), fold effect_of chs fs)"
  using assms(2,3)
proof (induction chs arbitrary: n completed fs)
  case (Cons ch chs)
  have "apply_change (fault n) (part n) ch fs = (None, [ch_destination ch], effect_of ch fs)"
    using Cons.prems(1) assms(1) by (intro apply_change_undisturbed) (auto simp: found_as_read_def split: if_splits)
  moreover have "\<forall>c \<in> set chs. found_as_read (effect_of ch fs) c"
    using Cons.prems by (auto simp: found_as_read_def effect_of_elsewhere)
  ultimately show ?case using Cons.IH [of "effect_of ch fs"] Cons.prems(2) by simp
qed simp

lemma change_of_found: "change_of fs action path destination body = Inr ch \<Longrightarrow> found_as_read fs ch"
  by (auto simp: change_of_def found_as_read_def read_file_def Let_def
      split: patch_action.splits if_splits option.splits file_content.splits)

lemma collect_Nil: "collect absolute fs [] = Inr []"
  by (subst collect.simps) simp

lemma collect_Cons:
  "collect absolute fs (header # rest) =
     (case rbind (parse_header header) (\<lambda>(action, name).
           rbind (fs_path absolute name) (\<lambda>path.
           rbind (move_target absolute action path rest) (\<lambda>(destination, rest1).
           rbind (change_of fs action path destination (takeWhile (\<lambda>l. \<not> file_header l) rest1)) Inr))) of
        Inl e \<Rightarrow> Inl e
      | Inr ch \<Rightarrow> rbind (collect absolute fs (dropWhile (\<lambda>l. \<not> file_header l) rest)) (\<lambda>chs. Inr (ch # chs)))"
  by (subst collect.simps) simp

lemma collect_found: "collect absolute fs lines = Inr chs \<Longrightarrow> \<forall>ch \<in> set chs. found_as_read fs ch"
proof (induction "length lines" arbitrary: lines chs rule: less_induct)
  case less
  show ?case
  proof (cases lines)
    case Nil
    with less.prems show ?thesis by (auto simp: collect_Nil)
  next
    case (Cons header rest)
    let ?rest = "dropWhile (\<lambda>l. \<not> file_header l) rest"
    have "length ?rest < length lines" by (simp add: Cons le_imp_less_Suc length_dropWhile_le)
    note IH = less.hyps [OF this]
    from less.prems obtain ch cs where "found_as_read fs ch" "collect absolute fs ?rest = Inr cs" "chs = ch # cs"
      unfolding Cons collect_Cons by (auto split: sum.splits dest: change_of_found)
    with IH show ?thesis by auto
  qed
qed

text \<open>
  Every section is computed from the file as it was before the patch. A second section for the
  same file therefore never finds the bytes it was made for: the first one is written, and the
  patch stops with a conflict.
\<close>

definition LF :: string where "LF = [CHR 0x0A]"

lemmas patch_eval = LF_def update_file_def splitlines_Nil splitlines_Cons line_break_def update_loop.simps skip_anchor_def place_def seek.simps
  starts_with_def section_start_def at_end_def END_OF_FILE_def join_lines_def line_ending_def

definition two_sections :: string where
  "two_sections = join LF [''*** Begin Patch'', ''*** Update File: f'', ''@@'', ''-a'', ''+x'', ''*** Update File: f'', ''@@'', ''-b'', ''+y'', ''*** End Patch'']"

lemma two_sections_lines:
  "splitlines two_sections = [''*** Begin Patch'', ''*** Update File: f'', ''@@'', ''-a'', ''+x'', ''*** Update File: f'', ''@@'', ''-b'', ''+y'', ''*** End Patch'']"
  by (simp add: two_sections_def LF_def splitlines_Nil splitlines_Cons line_break_def)

lemma two_sections_updates:
  "update_file (join_lines LF [''a'', ''b'']) [''@@'', ''-a'', ''+x''] = Inr (join_lines LF [''x'', ''b''])"
  "update_file (join_lines LF [''a'', ''b'']) [''@@'', ''-b'', ''+y''] = Inr (join_lines LF [''a'', ''y''])"
  by (simp_all add: patch_eval)

lemma second_section_conflicts:
  "fst (apply_patch id (\<lambda>_ _. None) (\<lambda>_. 0) id two_sections (Map.empty(''f'' \<mapsto> Text (join_lines LF [''a'', ''b''])))) =
    Interrupted ''edit_conflict'' [''f''] [''f'']"
  by (simp add: apply_patch_def two_sections_lines collect.simps parse_header_def starts_with_def fs_path_def move_target_def file_header_def
      change_of_def read_file_def two_sections_updates apply_change_def unchanged_def guard_def error_code_def)
     (simp add: join_lines_def LF_def)

text \<open>
  \<open>splitlines\<close> ends lines at more characters than a line feed: an update writes a line feed in
  place of every form feed of the file, also of one far from its hunks.
\<close>

lemma form_feed_rewritten:
  "update_file (''a'' @ [CHR 0x0C] @ ''b'' @ LF @ ''c'' @ LF) [''@@'', ''-c'', ''+d''] = Inr (join_lines LF [''a'', ''b'', ''d''])"
  by (simp add: patch_eval)

end
