(* ===== verification/Machine_Filesystem.thy ===== *)
theory Machine_Filesystem
  imports Filesystem_Patch
begin

text \<open>
  \<open>src/runtime/machine_filesystem.py\<close>: the walk over a directory tree, glob matching, listing in
  pages, and the unique-occurrence edit.

  A directory is known by its identity (device and inode), so that a link back to a directory
  on the way is the same directory again; \<open>dirs\<close> holds the readable directories with their
  entries. The matcher of one path component, \<open>fnmatch.fnmatchcase\<close>, and the number of bytes of a row
  in JSON are arguments. The tree is the same for all pages of a listing unless a lemma says otherwise.
\<close>

section \<open>The walk\<close>

datatype node_kind = Dir_Node nat | File_Node int | Special_Node | Lost_Node string

type_synonym tree = "(nat \<times> (string \<times> node_kind) list) list"

datatype row_kind = Row_Directory | Row_File | Row_Special | Row_Unavailable

record walk_row =
  wr_rel :: string
  wr_kind :: row_kind

definition row_of :: "string \<Rightarrow> node_kind \<Rightarrow> walk_row" where
  "row_of rel k = \<lparr>wr_rel = rel, wr_kind = (case k of Dir_Node _ \<Rightarrow> Row_Directory | File_Node _ \<Rightarrow> Row_File |
     Special_Node \<Rightarrow> Row_Special | Lost_Node _ \<Rightarrow> Row_Unavailable)\<rparr>"

text \<open>
  The stack of \<open>_walk\<close>: a directory, the prefix of its entries, and the entries still to come,
  absent until the directory has been opened.
\<close>

type_synonym frame = "nat \<times> string \<times> (string \<times> node_kind) list option"

definition frame_weight :: "frame \<Rightarrow> nat" where
  "frame_weight f = (case snd (snd f) of None \<Rightarrow> 1 | Some es \<Rightarrow> 1 + 2 * length es)"

definition unvisited :: "tree \<Rightarrow> nat list \<Rightarrow> nat set" where
  "unvisited dirs visited = fst ` set dirs - set visited"

lemma finite_unvisited [simp]: "finite (unvisited dirs visited)"
  by (simp add: unvisited_def)

lemma unvisited_visit: "map_of dirs d = Some es \<Longrightarrow> d \<notin> set visited \<Longrightarrow> card (unvisited dirs (d # visited)) < card (unvisited dirs visited)"
  using map_of_SomeD [of dirs d es] by (intro psubset_card_mono psubsetI) (force simp: unvisited_def)+

function (sequential) walk_loop :: "tree \<Rightarrow> bool \<Rightarrow> nat list \<Rightarrow> frame list \<Rightarrow> walk_row list result" where
  "walk_loop dirs deep visited [] = Inr []"
| "walk_loop dirs deep visited ((d, prefix, None) # stack) =
     (if d \<in> set visited then walk_loop dirs deep visited stack
      else case map_of dirs d of
        None \<Rightarrow> Inl (OSError ''PermissionError'')
      | Some es \<Rightarrow> walk_loop dirs deep (d # visited) ((d, prefix, Some (sort_key fst es)) # stack))"
| "walk_loop dirs deep visited ((d, prefix, Some []) # stack) = walk_loop dirs deep visited stack"
| "walk_loop dirs deep visited ((d, prefix, Some ((name, k) # es)) # stack) =
     (let rel = prefix @ name; rest = (d, prefix, Some es) # stack in
      case k of
        Dir_Node d1 \<Rightarrow>
          if deep
          then if map_of dirs d1 = None
               then rbind (walk_loop dirs deep visited rest) (\<lambda>rows. Inr (row_of rel k # row_of rel (Lost_Node ''permission_denied'') # rows))
               else rbind (walk_loop dirs deep visited ((d1, rel @ ''/'', None) # rest)) (\<lambda>rows. Inr (row_of rel k # rows))
          else rbind (walk_loop dirs deep visited rest) (\<lambda>rows. Inr (row_of rel k # rows))
      | _ \<Rightarrow> rbind (walk_loop dirs deep visited rest) (\<lambda>rows. Inr (row_of rel k # rows)))"
  by pat_completeness auto
termination
  by (relation "(\<lambda>(dirs, deep, visited, stack). card (unvisited dirs visited)) <*mlex*>
      measure (\<lambda>(dirs, deep, visited, stack). sum_list (map frame_weight stack))")
    (auto simp: wf_mlex frame_weight_def intro: mlex_less mlex_leq unvisited_visit)

declare walk_loop.simps [simp del]

definition walk :: "tree \<Rightarrow> bool \<Rightarrow> string \<Rightarrow> node_kind \<Rightarrow> walk_row list result" where
  "walk dirs deep name root = (case root of File_Node _ \<Rightarrow> Inr [row_of name root] | Dir_Node d \<Rightarrow> walk_loop dirs deep [] [(d, [], None)]
     | Special_Node \<Rightarrow> Inl (OSError ''NotADirectoryError'') | Lost_Node e \<Rightarrow> Inl (OSError e))"

definition readable_child :: "tree \<Rightarrow> string \<times> node_kind \<Rightarrow> nat \<Rightarrow> bool" where
  "readable_child dirs e d \<longleftrightarrow> snd e = Dir_Node d \<and> map_of dirs d \<noteq> None"

definition pending_dirs :: "frame list \<Rightarrow> nat set" where
  "pending_dirs stack = {d. \<exists>prefix. (d, prefix, None) \<in> set stack}"

lemma pending_dirs_simps [simp]:
  "pending_dirs [] = {}" "pending_dirs ((d, prefix, None) # stack) = insert d (pending_dirs stack)"
  "pending_dirs ((d, prefix, Some es) # stack) = pending_dirs stack"
  by (auto simp: pending_dirs_def)

text \<open>
  The rows of one entry: its own, and a second one when it is a directory that cannot be opened.
  The walk is described as the sequence of the entries it visits, each with its directory and the
  prefix under which that directory is walked.
\<close>

definition entry_rows :: "tree \<Rightarrow> string \<Rightarrow> node_kind \<Rightarrow> walk_row list" where
  "entry_rows dirs rel k = row_of rel k #
     (case k of Dir_Node d \<Rightarrow> if map_of dirs d = None then [row_of rel (Lost_Node ''permission_denied'')] else [] | _ \<Rightarrow> [])"

type_synonym visit = "nat \<times> string \<times> string \<times> node_kind"

definition visit_rel :: "visit \<Rightarrow> string" where
  "visit_rel m = (case m of (d, prefix, name, k) \<Rightarrow> prefix @ name)"

definition visit_rows :: "tree \<Rightarrow> visit \<Rightarrow> walk_row list" where
  "visit_rows dirs m = (case m of (d, prefix, name, k) \<Rightarrow> entry_rows dirs (prefix @ name) k)"

definition visit_key :: "visit \<Rightarrow> nat \<times> string" where
  "visit_key m = (case m of (d, prefix, name, k) \<Rightarrow> (d, name))"

lemma visit_simps [simp]:
  "visit_rel (d, prefix, name, k) = prefix @ name" "visit_rows dirs (d, prefix, name, k) = entry_rows dirs (prefix @ name) k"
  "visit_key (d, prefix, name, k) = (d, name)"
  by (simp_all add: visit_rel_def visit_rows_def visit_key_def)

inductive walk_run :: "tree \<Rightarrow> nat list \<Rightarrow> frame list \<Rightarrow> visit list \<Rightarrow> bool" for dirs where
  stop: "walk_run dirs visited [] []"
| again: "d \<in> set visited \<Longrightarrow> walk_run dirs visited stack ms \<Longrightarrow> walk_run dirs visited ((d, prefix, None) # stack) ms"
| enter: "d \<notin> set visited \<Longrightarrow> map_of dirs d = Some es \<Longrightarrow> walk_run dirs (d # visited) ((d, prefix, Some (sort_key fst es)) # stack) ms \<Longrightarrow>
    walk_run dirs visited ((d, prefix, None) # stack) ms"
| leave: "walk_run dirs visited stack ms \<Longrightarrow> walk_run dirs visited ((d, prefix, Some []) # stack) ms"
| descend: "map_of dirs d1 \<noteq> None \<Longrightarrow> walk_run dirs visited ((d1, prefix @ name @ ''/'', None) # (d, prefix, Some es) # stack) ms \<Longrightarrow>
    walk_run dirs visited ((d, prefix, Some ((name, Dir_Node d1) # es)) # stack) ((d, prefix, name, Dir_Node d1) # ms)"
| report: "(\<And>c. \<not> readable_child dirs (name, k) c) \<Longrightarrow> walk_run dirs visited ((d, prefix, Some es) # stack) ms \<Longrightarrow>
    walk_run dirs visited ((d, prefix, Some ((name, k) # es)) # stack) ((d, prefix, name, k) # ms)"

lemma walk_loop_entry:
  assumes "walk_loop dirs True visited ((d, prefix, Some ((name, k) # es)) # stack) = Inr rows"
  obtains (deeper) d1 rows1 where "k = Dir_Node d1" "map_of dirs d1 \<noteq> None" "rows = entry_rows dirs (prefix @ name) k @ rows1"
      "walk_loop dirs True visited ((d1, prefix @ name @ ''/'', None) # (d, prefix, Some es) # stack) = Inr rows1"
    | (next_entry) rows1 where "\<And>c. \<not> readable_child dirs (name, k) c" "rows = entry_rows dirs (prefix @ name) k @ rows1"
      "walk_loop dirs True visited ((d, prefix, Some es) # stack) = Inr rows1"
proof (cases "\<exists>d1. k = Dir_Node d1 \<and> map_of dirs d1 \<noteq> None")
  case True
  with assms deeper show thesis by (auto simp: walk_loop.simps(4) Let_def entry_rows_def)
next
  case False
  then have leaf: "\<And>c. \<not> readable_child dirs (name, k) c" by (simp add: readable_child_def)
  from assms False obtain rows1 where r: "walk_loop dirs True visited ((d, prefix, Some es) # stack) = Inr rows1"
    "rows = entry_rows dirs (prefix @ name) k @ rows1"
    by (cases k) (fastforce simp: walk_loop.simps(4) Let_def entry_rows_def)+
  show thesis by (rule next_entry [OF leaf r(2,1)])
qed

lemma walk_loop_stack:
  obtains (1) "stack = []" | (2) d prefix rest where "stack = (d, prefix, None) # rest"
    | (3) d prefix rest where "stack = (d, prefix, Some []) # rest"
    | (4) d prefix name k es rest where "stack = (d, prefix, Some ((name, k) # es)) # rest"
  by (metis list.exhaust option.exhaust prod_cases3 surj_pair)

text \<open>Induction along the walk: fewer directories to visit, or as many and a lighter stack.\<close>

lemma walk_induct [case_names step]:
  assumes "\<And>visited stack.
    (\<And>visited1 stack1. card (unvisited dirs visited1) < card (unvisited dirs visited) \<or>
       card (unvisited dirs visited1) = card (unvisited dirs visited) \<and>
       sum_list (map frame_weight stack1) < sum_list (map frame_weight stack) \<Longrightarrow> P visited1 stack1) \<Longrightarrow> P visited stack"
  shows "P visited stack"
proof -
  have "wf ((\<lambda>x. card (unvisited dirs (fst x))) <*mlex*> measure (\<lambda>x. sum_list (map frame_weight (snd x))))"
    by (rule wf_mlex) simp
  then have "case x of (v, s) \<Rightarrow> P v s" for x :: "nat list \<times> frame list"
    by (induction x rule: wf_induct_rule) (auto simp: mlex_iff intro: assms)
  from this [of "(visited, stack)"] show ?thesis by simp
qed

lemma walk_loop_run:
  "walk_loop dirs True visited stack = Inr rows \<Longrightarrow> \<exists>ms. walk_run dirs visited stack ms \<and> rows = concat (map (visit_rows dirs) ms)"
proof (induction visited stack arbitrary: rows rule: walk_induct [of dirs])
  case (step visited stack)
  show ?case
  proof (cases stack rule: walk_loop_stack)
    case 1
    with step.prems show ?thesis by (auto simp: walk_loop.simps(1) intro: walk_run.stop)
  next
    case (2 d prefix rest)
    show ?thesis
    proof (cases "d \<in> set visited")
      case True
      with 2 step.prems step.IH [of visited rest] show ?thesis
        by (auto simp: walk_loop.simps(2) frame_weight_def intro: walk_run.again)
    next
      case False
      with 2 step.prems obtain es where es: "map_of dirs d = Some es" by (auto simp: walk_loop.simps(2) split: option.splits)
      with 2 step.prems False have "walk_loop dirs True (d # visited) ((d, prefix, Some (sort_key fst es)) # rest) = Inr rows"
        by (simp add: walk_loop.simps(2))
      with step.IH [OF disjI1 [OF unvisited_visit [OF es False]]] walk_run.enter [OF False es] show ?thesis by (metis 2)
    qed
  next
    case (3 d prefix rest)
    with step.prems step.IH [of visited rest] show ?thesis
      by (auto simp: walk_loop.simps(3) frame_weight_def intro: walk_run.leave)
  next
    case (4 d prefix name k es rest)
    from step.prems [unfolded 4] show ?thesis
    proof (cases rule: walk_loop_entry)
      case (deeper d1 rows1)
      from step.IH [OF _ deeper(4)] obtain ms where ms: "walk_run dirs visited ((d1, prefix @ name @ ''/'', None) # (d, prefix, Some es) # rest) ms"
        "rows1 = concat (map (visit_rows dirs) ms)" by (auto simp: 4 frame_weight_def)
      from walk_run.descend [OF deeper(2) ms(1)] ms(2) deeper(1,3) show ?thesis
        unfolding 4 by (intro exI [of _ "(d, prefix, name, k) # ms"]) simp
    next
      case (next_entry rows1)
      from step.IH [OF _ next_entry(3)] obtain ms where ms: "walk_run dirs visited ((d, prefix, Some es) # rest) ms"
        "rows1 = concat (map (visit_rows dirs) ms)" by (auto simp: 4 frame_weight_def)
      from walk_run.report [OF next_entry(1) ms(1)] ms(2) next_entry(2) show ?thesis
        unfolding 4 by (intro exI [of _ "(d, prefix, name, k) # ms"]) simp
    qed
  qed
qed

text \<open>
  What a walk from a stack covers: a set of directories that contains the visited ones and everything the stack
  still leads to, and is closed under readable subdirectories; every entry still to come is visited under the prefix
  of its frame, and every entry of a directory opened from here on under one prefix of that directory.
\<close>

definition leads_into :: "tree \<Rightarrow> (string \<times> node_kind) list \<Rightarrow> nat set \<Rightarrow> bool" where
  "leads_into dirs es V \<longleftrightarrow> (\<forall>e \<in> set es. \<forall>d. readable_child dirs e d \<longrightarrow> d \<in> V)"

definition visits_all :: "visit list \<Rightarrow> nat \<Rightarrow> string \<Rightarrow> (string \<times> node_kind) list \<Rightarrow> bool" where
  "visits_all ms d prefix es \<longleftrightarrow> (\<forall>(name, k) \<in> set es. (d, prefix, name, k) \<in> set ms)"

definition covers :: "tree \<Rightarrow> nat list \<Rightarrow> frame list \<Rightarrow> visit list \<Rightarrow> nat set \<Rightarrow> bool" where
  "covers dirs visited stack ms V \<longleftrightarrow> set visited \<subseteq> V \<and> pending_dirs stack \<subseteq> V \<and>
     (\<forall>d prefix es. (d, prefix, Some es) \<in> set stack \<longrightarrow> visits_all ms d prefix es \<and> leads_into dirs es V) \<and>
     (\<forall>v \<in> V - set visited. \<exists>prefix es. map_of dirs v = Some es \<and> visits_all ms v prefix es \<and> leads_into dirs es V)"

lemma visits_all_Cons: "visits_all ms d prefix es \<Longrightarrow> visits_all (m # ms) d prefix es"
  by (auto simp: visits_all_def)

lemma covers_Cons: "covers dirs visited stack ms V \<Longrightarrow> covers dirs visited stack (m # ms) V"
  unfolding covers_def by (meson visits_all_Cons)

lemma covers_entry:
  assumes "covers dirs visited ((d, prefix, Some es) # stack) ms V"
    and "\<And>c. readable_child dirs (name, k) c \<Longrightarrow> c \<in> V"
  shows "covers dirs visited ((d, prefix, Some ((name, k) # es)) # stack) ((d, prefix, name, k) # ms) V"
proof -
  have "visits_all ((d, prefix, name, k) # ms) d prefix ((name, k) # es)" if "visits_all ((d, prefix, name, k) # ms) d prefix es"
    using that by (simp add: visits_all_def)
  moreover have "leads_into dirs ((name, k) # es) V" if "leads_into dirs es V" using that assms(2) by (simp add: leads_into_def)
  ultimately show ?thesis using covers_Cons [OF assms(1), of "(d, prefix, name, k)"] unfolding covers_def by auto
qed

lemma covers_open:
  assumes es: "map_of dirs d = Some es" and c: "covers dirs (d # visited) ((d, prefix, Some (sort_key fst es)) # stack) ms V"
  shows "covers dirs visited ((d, prefix, None) # stack) ms V"
proof -
  have "\<exists>prefix es. map_of dirs v = Some es \<and> visits_all ms v prefix es \<and> leads_into dirs es V" if "v \<in> V - set visited" for v
  proof (cases "v = d")
    case True
    have "visits_all ms d prefix (sort_key fst es) \<and> leads_into dirs (sort_key fst es) V" using c by (simp add: covers_def)
    with True es show ?thesis by (auto simp: visits_all_def leads_into_def)
  next
    case False
    with c that show ?thesis by (simp add: covers_def)
  qed
  with c show ?thesis unfolding covers_def by auto
qed

lemma walk_run_covers: "walk_run dirs visited stack ms \<Longrightarrow> \<exists>V. covers dirs visited stack ms V"
proof (induction rule: walk_run.induct)
  case (stop visited)
  show ?case by (rule exI [of _ "set visited"]) (simp add: covers_def)
next
  case (again d visited stack ms prefix)
  then obtain V where "covers dirs visited stack ms V" by blast
  with again(1) have "covers dirs visited ((d, prefix, None) # stack) ms V" by (auto simp: covers_def)
  then show ?case ..
next
  case (enter d visited es prefix stack ms)
  then show ?case by (blast intro: covers_open)
next
  case (leave visited stack ms d prefix)
  then obtain V where "covers dirs visited stack ms V" by blast
  then have "covers dirs visited ((d, prefix, Some []) # stack) ms V" by (auto simp: covers_def visits_all_def leads_into_def)
  then show ?case ..
next
  case (descend d1 visited prefix name d es stack ms)
  then obtain V where "covers dirs visited ((d1, prefix @ name @ ''/'', None) # (d, prefix, Some es) # stack) ms V" by blast
  then have "covers dirs visited ((d, prefix, Some es) # stack) ms V" "d1 \<in> V" by (auto simp: covers_def)
  from covers_entry [OF this(1), of name "Dir_Node d1"] this(2) show ?case by (auto simp: readable_child_def)
next
  case (report name k visited d prefix es stack ms)
  then obtain V where "covers dirs visited ((d, prefix, Some es) # stack) ms V" by blast
  from covers_entry [OF this, of name k] report(1) show ?case by auto
qed

text \<open>A walk from a readable directory returns: a directory is pushed only once its access is checked.\<close>

lemma walk_loop_returns:
  "\<forall>d \<in> pending_dirs stack. map_of dirs d \<noteq> None \<Longrightarrow> \<exists>rows. walk_loop dirs deep visited stack = Inr rows"
proof (induction visited stack rule: walk_induct [of dirs])
  case (step visited stack)
  show ?case
  proof (cases stack rule: walk_loop_stack)
    case (2 d prefix rest)
    with step.prems obtain es where es: "map_of dirs d = Some es" by auto
    show ?thesis
    proof (cases "d \<in> set visited")
      case True
      with step.IH [of visited rest] step.prems 2 show ?thesis by (auto simp: walk_loop.simps(2) frame_weight_def)
    next
      case False
      with step.IH [OF disjI1 [OF unvisited_visit [OF es False]], of "(d, prefix, Some (sort_key fst es)) # rest"] step.prems 2 es
      show ?thesis by (auto simp: walk_loop.simps(2))
    qed
  next
    case (3 d prefix rest)
    with step.IH [of visited rest] step.prems show ?thesis by (auto simp: walk_loop.simps(3) frame_weight_def)
  next
    case (4 d prefix name k es rest)
    have r: "\<exists>rows. walk_loop dirs deep visited ((d, prefix, Some es) # rest) = Inr rows"
      using step.IH [of visited "(d, prefix, Some es) # rest"] step.prems 4 by (auto simp: frame_weight_def)
    have "\<exists>rows. walk_loop dirs deep visited ((d1, prefix @ name @ ''/'', None) # (d, prefix, Some es) # rest) = Inr rows"
      if "map_of dirs d1 \<noteq> None" for d1
      using step.IH [of visited "(d1, prefix @ name @ ''/'', None) # (d, prefix, Some es) # rest"] step.prems 4 that
      by (auto simp: frame_weight_def)
    with r show ?thesis by (auto simp: 4 walk_loop.simps(4) Let_def split: node_kind.split)
  qed (simp add: walk_loop.simps(1))
qed

text \<open>
  Where a walk from \<open>d0\<close> can lead: \<open>dir_path dirs d0 d p\<close> says that the entries of directory \<open>d\<close> have the prefix \<open>p\<close> on one of
  the ways there. What the operating system promises of a directory: its names are different, not empty, and have no slash.
\<close>

inductive dir_path :: "tree \<Rightarrow> nat \<Rightarrow> nat \<Rightarrow> string \<Rightarrow> bool" for dirs d0 where
  root: "dir_path dirs d0 d0 []"
| child: "dir_path dirs d0 d p \<Longrightarrow> map_of dirs d = Some es \<Longrightarrow> (name, Dir_Node c) \<in> set es \<Longrightarrow> map_of dirs c \<noteq> None \<Longrightarrow>
    dir_path dirs d0 c (p @ name @ ''/'')"

definition reachable_dir :: "tree \<Rightarrow> nat \<Rightarrow> nat \<Rightarrow> bool" where
  "reachable_dir dirs d0 d \<longleftrightarrow> (\<exists>p. dir_path dirs d0 d p)"

definition tree_ok :: "tree \<Rightarrow> bool" where
  "tree_ok dirs \<longleftrightarrow> (\<forall>(d, es) \<in> set dirs. distinct (map fst es) \<and> (\<forall>(name, k) \<in> set es. name \<noteq> [] \<and> CHR ''/'' \<notin> set name))"

lemma tree_okD:
  assumes "tree_ok dirs" "map_of dirs d = Some es"
  shows "distinct (map fst es)" and "(name, k) \<in> set es \<Longrightarrow> name \<noteq> [] \<and> CHR ''/'' \<notin> set name"
  using assms map_of_SomeD [OF assms(2)] by (auto simp: tree_ok_def)

lemma dir_path_end: "dir_path dirs d0 d p \<Longrightarrow> p = [] \<or> last p = CHR ''/''"
  by (induction rule: dir_path.induct) auto

lemma prefix_split:
  assumes "p @ name = q @ other" and "p = [] \<or> last p = CHR ''/''" "q = [] \<or> last q = CHR ''/''"
    and "CHR ''/'' \<notin> set name" "CHR ''/'' \<notin> set other"
  shows "p = q \<and> name = other"
proof -
  have "us = []" if "p = q @ us" "us @ name = other" "p = [] \<or> last p = CHR ''/''" "CHR ''/'' \<notin> set other" for p q us name other :: string
    using that by (cases us rule: rev_cases) auto
  with assms show ?thesis unfolding append_eq_append_conv2 by (metis append_Nil2 append_Nil)
qed

lemma dir_path_unique:
  assumes ok: "tree_ok dirs" and "dir_path dirs d0 d p" "dir_path dirs d0 c p"
  shows "d = c"
  using assms(2,3)
proof (induction arbitrary: c rule: dir_path.induct)
  case root
  then show ?case by (cases rule: dir_path.cases) auto
next
  case (child d p es name d1)
  from child.prems show ?case
  proof (cases rule: dir_path.cases)
    case (child d' p' es' name')
    note at = tree_okD [OF ok] and this_child = child.hyps(2,3)
    have eq: "p @ name = p' @ name'" using child(1) by simp
    have "p = p' \<and> name = name'"
      by (rule prefix_split [OF eq dir_path_end dir_path_end])
        (use child child.hyps at(2) \<open>dir_path dirs d0 d p\<close> \<open>map_of dirs d = Some es\<close> \<open>(name, Dir_Node d1) \<in> set es\<close> in blast)+
    with child.IH child show ?thesis
      using at(1) eq_key_imp_eq_value [of es name "Dir_Node d1" "Dir_Node c"] \<open>map_of dirs d = Some es\<close> \<open>(name, Dir_Node d1) \<in> set es\<close> by auto
  qed auto
qed

text \<open>
  The stack of a walk from \<open>d0\<close>: every frame is a directory at one of its paths; an open one has been visited, is the only
  open one of its directory, and has entries of that directory still to come.
\<close>

definition is_open :: "frame \<Rightarrow> bool" where
  "is_open f \<longleftrightarrow> snd (snd f) \<noteq> None"

definition frames_ok :: "tree \<Rightarrow> nat \<Rightarrow> nat list \<Rightarrow> frame list \<Rightarrow> bool" where
  "frames_ok dirs d0 visited stack \<longleftrightarrow> (\<forall>(d, prefix, x) \<in> set stack. dir_path dirs d0 d prefix) \<and> distinct (map fst (filter is_open stack)) \<and>
     (\<forall>d prefix es. (d, prefix, Some es) \<in> set stack \<longrightarrow> d \<in> set visited \<and> distinct (map fst es) \<and> (\<exists>all. map_of dirs d = Some all \<and> set es \<subseteq> set all))"

definition visit_ok :: "tree \<Rightarrow> nat \<Rightarrow> visit \<Rightarrow> bool" where
  "visit_ok dirs d0 m \<longleftrightarrow> (case m of (d, prefix, name, k) \<Rightarrow> dir_path dirs d0 d prefix \<and> (\<exists>es. map_of dirs d = Some es \<and> (name, k) \<in> set es))"

definition awaited :: "frame list \<Rightarrow> visit \<Rightarrow> bool" where
  "awaited stack m \<longleftrightarrow> (case m of (d, prefix, name, k) \<Rightarrow> \<exists>es. (d, prefix, Some es) \<in> set stack \<and> (name, k) \<in> set es)"

definition run_ok :: "tree \<Rightarrow> nat \<Rightarrow> nat list \<Rightarrow> frame list \<Rightarrow> visit list \<Rightarrow> bool" where
  "run_ok dirs d0 visited stack ms \<longleftrightarrow> (\<forall>m \<in> set ms. visit_ok dirs d0 m \<and> (fst m \<notin> set visited \<or> awaited stack m)) \<and> distinct (map visit_key ms)"

lemma open_simps [simp]: "is_open (d, prefix, Some es)" "\<not> is_open (d, prefix, None)"
  by (simp_all add: is_open_def)

lemma frames_ok_pop: "frames_ok dirs d0 visited (f # stack) \<Longrightarrow> frames_ok dirs d0 visited stack"
  unfolding frames_ok_def by (auto split: if_splits)

lemma frames_ok_enter:
  assumes "frames_ok dirs d0 visited ((d, prefix, None) # stack)" "d \<notin> set visited" "map_of dirs d = Some es" "distinct (map fst es)"
  shows "frames_ok dirs d0 (d # visited) ((d, prefix, Some (sort_key fst es)) # stack)"
proof -
  have "d \<notin> fst ` set (filter is_open stack)" using assms(1,2) by (force simp: frames_ok_def is_open_def)
  moreover have "distinct (map fst (sort_key fst es))" using assms(4) by (simp add: distinct_map)
  ultimately show ?thesis using assms unfolding frames_ok_def by auto
qed

lemma frames_ok_entry:
  assumes "frames_ok dirs d0 visited ((d, prefix, Some ((name, k) # es)) # stack)"
  shows "frames_ok dirs d0 visited ((d, prefix, Some es) # stack)" and "visit_ok dirs d0 (d, prefix, name, k)" and "d \<in> set visited"
    and "\<And>d1. k = Dir_Node d1 \<Longrightarrow> map_of dirs d1 \<noteq> None \<Longrightarrow>
      frames_ok dirs d0 visited ((d1, prefix @ name @ ''/'', None) # (d, prefix, Some es) # stack)"
proof -
  from assms have p: "dir_path dirs d0 d prefix" and v: "d \<in> set visited"
    and all: "\<exists>all. map_of dirs d = Some all \<and> insert (name, k) (set es) \<subseteq> set all" and "distinct (map fst es)"
    unfolding frames_ok_def by auto
  then show step: "frames_ok dirs d0 visited ((d, prefix, Some es) # stack)" using assms unfolding frames_ok_def by auto
  from p v all show "visit_ok dirs d0 (d, prefix, name, k)" "d \<in> set visited" by (auto simp: visit_ok_def)
  show "frames_ok dirs d0 visited ((d1, prefix @ name @ ''/'', None) # (d, prefix, Some es) # stack)"
    if "k = Dir_Node d1" "map_of dirs d1 \<noteq> None" for d1
    using step that p all unfolding frames_ok_def by (auto intro: dir_path.child)
qed

lemma frames_ok_alone:
  assumes "frames_ok dirs d0 visited ((d, prefix, Some es) # stack)"
  shows "(d, p, Some rest) \<notin> set stack"
proof
  assume "(d, p, Some rest) \<in> set stack"
  then have "d \<in> set (map fst (filter is_open stack))" by force
  with assms show False by (simp add: frames_ok_def)
qed

lemma run_ok_entry:
  assumes f: "frames_ok dirs d0 visited ((d, prefix, Some ((name, k) # es)) # stack)"
    and r: "run_ok dirs d0 visited ((d, prefix, Some es) # stack) ms"
  shows "run_ok dirs d0 visited ((d, prefix, Some ((name, k) # es)) # stack) ((d, prefix, name, k) # ms)"
proof -
  have once: "name \<notin> fst ` set es" using f unfolding frames_ok_def by auto
  have "visit_key m \<noteq> (d, name)" if m: "m \<in> set ms" for m
  proof (cases m)
    case (fields c p other j)
    have "c \<notin> set visited \<or> awaited ((d, prefix, Some es) # stack) m" using r m fields by (fastforce simp: run_ok_def)
    then show ?thesis using frames_ok_entry(3) [OF f] frames_ok_alone [OF f] once by (auto simp: fields awaited_def image_iff)
  qed
  then have "(d, name) \<notin> visit_key ` set ms" by (metis image_iff)
  then have "distinct (map visit_key ((d, prefix, name, k) # ms))" using r by (simp add: run_ok_def)
  moreover have "awaited ((d, prefix, Some ((name, k) # es)) # stack) m" if "awaited ((d, prefix, Some es) # stack) m" for m
    using that by (auto simp: awaited_def)
  moreover have "awaited ((d, prefix, Some ((name, k) # es)) # stack) (d, prefix, name, k)" by (auto simp: awaited_def)
  ultimately show ?thesis using r frames_ok_entry(2) [OF f] unfolding run_ok_def by auto
qed

lemma walk_run_ok:
  assumes ok: "tree_ok dirs" and run: "walk_run dirs visited stack ms" and "frames_ok dirs d0 visited stack"
  shows "run_ok dirs d0 visited stack ms"
  using run assms(3)
proof (induction rule: walk_run.induct)
  case (stop visited)
  show ?case by (simp add: run_ok_def)
next
  case (again d visited stack ms prefix)
  from again.IH [OF frames_ok_pop [OF again.prems]] show ?case by (fastforce simp: run_ok_def awaited_def)
next
  case (enter d visited es prefix stack ms)
  from enter.IH [OF frames_ok_enter [OF enter.prems enter.hyps(1,2) tree_okD(1) [OF ok enter.hyps(2)]]] enter.hyps(1)
  show ?case by (fastforce simp: run_ok_def awaited_def)
next
  case (leave visited stack ms d prefix)
  from leave.IH [OF frames_ok_pop [OF leave.prems]] show ?case by (fastforce simp: run_ok_def awaited_def)
next
  case (descend d1 visited prefix name d es stack ms)
  from descend.IH [OF frames_ok_entry(4) [OF descend.prems refl descend.hyps(1)]]
  have "run_ok dirs d0 visited ((d, prefix, Some es) # stack) ms" by (fastforce simp: run_ok_def awaited_def)
  from run_ok_entry [OF descend.prems this] show ?case .
next
  case (report name k visited d prefix es stack ms)
  from run_ok_entry [OF report.prems report.IH [OF frames_ok_entry(1) [OF report.prems]]] show ?case .
qed

text \<open>A path belongs to one directory and one name there; so each visited entry has a path of its own.\<close>

lemma visit_rel_key:
  assumes ok: "tree_ok dirs" and m: "visit_ok dirs d0 m" and m1: "visit_ok dirs d0 m1" and eq: "visit_rel m = visit_rel m1"
  shows "visit_key m = visit_key m1"
proof -
  obtain d p n k where m_eq: "m = (d, p, n, k)" by (cases m)
  obtain d1 p1 n1 k1 where m1_eq: "m1 = (d1, p1, n1, k1)" by (cases m1)
  from m m1 obtain es es1 where e: "dir_path dirs d0 d p" "map_of dirs d = Some es" "(n, k) \<in> set es"
    "dir_path dirs d0 d1 p1" "map_of dirs d1 = Some es1" "(n1, k1) \<in> set es1" by (auto simp: visit_ok_def m_eq m1_eq)
  have "p = p1 \<and> n = n1"
    by (rule prefix_split [OF _ dir_path_end [OF e(1)] dir_path_end [OF e(4)]])
      (use eq tree_okD(2) [OF ok e(2,3)] tree_okD(2) [OF ok e(5,6)] in \<open>auto simp: m_eq m1_eq\<close>)
  with dir_path_unique [OF ok e(1)] e(4) show ?thesis by (simp add: m_eq m1_eq)
qed

lemma run_ok_rels:
  assumes ok: "tree_ok dirs" and r: "run_ok dirs d0 visited stack ms"
  shows "distinct (map visit_rel ms)" and "m \<in> set ms \<Longrightarrow> visit_rel m \<noteq> []"
proof -
  have "inj_on visit_key (set ms)" and d: "distinct ms" using r by (auto simp: run_ok_def distinct_map)
  moreover have "visit_key m = visit_key m1" if "m \<in> set ms" "m1 \<in> set ms" "visit_rel m = visit_rel m1" for m m1
    by (rule visit_rel_key [OF ok _ _ that(3), of d0]) (use r that(1,2) in \<open>auto simp: run_ok_def\<close>)
  ultimately have "inj_on visit_rel (set ms)" unfolding inj_on_def by blast
  with d show "distinct (map visit_rel ms)" by (simp add: distinct_map)
  show "visit_rel m \<noteq> []" if "m \<in> set ms" for m
    using r that tree_okD(2) [OF ok] by (cases m) (fastforce simp: run_ok_def visit_ok_def)
qed

text \<open>
  Rows whose paths are different, except that the row of an unreadable directory may follow the one of the same path.
\<close>

fun paired :: "walk_row list \<Rightarrow> bool" where
  "paired (x # y # es) \<longleftrightarrow> wr_rel x \<notin> wr_rel ` set es \<and> (wr_rel y = wr_rel x \<longrightarrow> wr_kind y = Row_Unavailable) \<and> paired (y # es)"
| "paired _ \<longleftrightarrow> True"

lemma paired_Cons: "paired es \<Longrightarrow> wr_rel x \<notin> wr_rel ` set es \<Longrightarrow> paired (x # es)"
  by (cases es) auto

lemma entry_rows_cases:
  obtains (one) "entry_rows dirs rel k = [row_of rel k]"
  | (two) "entry_rows dirs rel k = [row_of rel k, row_of rel (Lost_Node ''permission_denied'')]" "wr_kind (row_of rel k) = Row_Directory"
proof (cases "\<exists>d. k = Dir_Node d \<and> map_of dirs d = None")
  case True
  then show ?thesis by (intro two) (auto simp: entry_rows_def row_of_def)
next
  case False
  then show ?thesis by (intro one) (auto simp: entry_rows_def split: node_kind.split)
qed

lemma row_of_simps [simp]: "wr_rel (row_of rel k) = rel" "wr_kind (row_of rel (Lost_Node e)) = Row_Unavailable"
  by (simp_all add: row_of_def)

lemma wr_rel_entry_rows: "wr_rel ` set (entry_rows dirs rel k) = {rel}"
  by (cases dirs rel k rule: entry_rows_cases) auto

lemma wr_rel_visit_rows: "wr_rel ` set (visit_rows dirs m) = {visit_rel m}"
  by (cases m) (simp add: wr_rel_entry_rows)

lemma wr_rel_rows: "wr_rel ` set (concat (map (visit_rows dirs) ms)) = visit_rel ` set ms"
  by (induction ms) (simp_all add: image_Un wr_rel_visit_rows)

lemma rows_paired:
  "distinct (map visit_rel ms) \<Longrightarrow> paired (concat (map (visit_rows dirs) ms)) \<and> distinct (concat (map (visit_rows dirs) ms))"
proof (induction ms)
  case (Cons m ms)
  let ?rest = "concat (map (visit_rows dirs) ms)"
  obtain d p n k where m: "m = (d, p, n, k)" by (cases m)
  have fresh: "p @ n \<notin> wr_rel ` set ?rest" using Cons.prems unfolding wr_rel_rows by (simp add: m)
  then have "r \<notin> set ?rest" if "wr_rel r = p @ n" for r using that by (metis image_eqI)
  with Cons fresh show ?case
    by (cases dirs "p @ n" k rule: entry_rows_cases) (auto simp: m intro: paired_Cons)
qed simp

lemma walk_complete:
  assumes ok: "tree_ok dirs" and root: "map_of dirs d0 \<noteq> None"
  shows "\<exists>ms. walk dirs True name (Dir_Node d0) = Inr (concat (map (visit_rows dirs) ms)) \<and> run_ok dirs d0 [] [(d0, [], None)] ms \<and>
    (\<forall>d. reachable_dir dirs d0 d \<longrightarrow> (\<exists>p es. dir_path dirs d0 d p \<and> map_of dirs d = Some es \<and> visits_all ms d p es))"
proof -
  obtain rows where rows: "walk_loop dirs True [] [(d0, [], None)] = Inr rows"
    using walk_loop_returns [of "[(d0, [], None)]" dirs True "[]"] root by auto
  from walk_loop_run [OF rows] obtain ms where run: "walk_run dirs [] [(d0, [], None)] ms" and eq: "rows = concat (map (visit_rows dirs) ms)" by blast
  have "frames_ok dirs d0 [] [(d0, [], None)]" by (simp add: frames_ok_def dir_path.root)
  note r = walk_run_ok [OF ok run this]
  from walk_run_covers [OF run] obtain V where V: "covers dirs [] [(d0, [], None)] ms V" ..
  have "dir_path dirs d0 d p \<Longrightarrow> d \<in> V" for d p
    by (induction rule: dir_path.induct) (use V in \<open>fastforce simp: covers_def leads_into_def readable_child_def\<close>)+
  then have "\<exists>p es. dir_path dirs d0 d p \<and> map_of dirs d = Some es \<and> visits_all ms d p es" if "dir_path dirs d0 d q" for d q
  proof -
    from \<open>dir_path dirs d0 d q \<Longrightarrow> d \<in> V\<close> that V obtain p es where p: "map_of dirs d = Some es" "visits_all ms d p es" by (fastforce simp: covers_def)
    show ?thesis
    proof (cases es)
      case Nil
      with that p show ?thesis by (auto simp: visits_all_def)
    next
      case (Cons e rest)
      with p(2) have "(d, p, e) \<in> set ms" by (auto simp: visits_all_def)
      with r have "dir_path dirs d0 d p" by (cases e) (fastforce simp: run_ok_def visit_ok_def)
      with p show ?thesis by blast
    qed
  qed
  with rows eq r show ?thesis by (auto simp: walk_def reachable_dir_def)
qed

section \<open>Glob patterns\<close>

text \<open>
  \<open>_glob_match\<close> keeps the set of positions in the path that the patterns read so far can
  reach; \<open>fn\<close> is \<open>fnmatch.fnmatchcase\<close>.
\<close>

definition glob_step :: "(string \<Rightarrow> string \<Rightarrow> bool) \<Rightarrow> string list \<Rightarrow> string \<Rightarrow> nat set \<Rightarrow> nat set" where
  "glob_step fn parts p positions =
     (if p = ''**'' then (if positions = {} then {} else {Min positions..length parts})
      else Suc ` {i \<in> positions. i < length parts \<and> fn (parts ! i) p})"

definition glob_match :: "(string \<Rightarrow> string \<Rightarrow> bool) \<Rightarrow> string \<Rightarrow> string \<Rightarrow> bool" where
  "glob_match fn path pattern =
     (let parts = split_on CHR ''/'' path
      in length parts \<in> fold (glob_step fn parts) (split_on CHR ''/'' pattern) {0})"

text \<open>The meaning of a pattern: \<open>**\<close> stands for any number of components, the others for one each.\<close>

fun glob :: "(string \<Rightarrow> string \<Rightarrow> bool) \<Rightarrow> string list \<Rightarrow> string list \<Rightarrow> bool" where
  "glob fn [] parts \<longleftrightarrow> parts = []"
| "glob fn (p # ps) parts \<longleftrightarrow>
     (if p = ''**'' then \<exists>n \<le> length parts. glob fn ps (drop n parts)
      else case parts of [] \<Rightarrow> False | x # xs \<Rightarrow> fn x p \<and> glob fn ps xs)"

lemma glob_step_within: "positions \<subseteq> {..length parts} \<Longrightarrow> glob_step fn parts p positions \<subseteq> {..length parts}"
  by (auto simp: glob_step_def)

lemma glob_step_iff:
  assumes "positions \<subseteq> {..length parts}"
  shows "(\<exists>i \<in> glob_step fn parts p positions. glob fn ps (drop i parts)) \<longleftrightarrow> (\<exists>i \<in> positions. glob fn (p # ps) (drop i parts))"
proof (cases "p = ''**''")
  case True
  have fin: "finite positions" using assms finite_subset by blast
  show ?thesis
  proof
    assume "\<exists>i \<in> glob_step fn parts p positions. glob fn ps (drop i parts)"
    then obtain i where i: "positions \<noteq> {}" "Min positions \<le> i" "i \<le> length parts" "glob fn ps (drop i parts)"
      using True by (auto simp: glob_step_def split: if_splits)
    then have "glob fn (p # ps) (drop (Min positions) parts)" using True
      by (auto intro!: exI [of _ "i - Min positions"])
    with Min_in [OF fin i(1)] show "\<exists>i \<in> positions. glob fn (p # ps) (drop i parts)" by blast
  next
    assume "\<exists>i \<in> positions. glob fn (p # ps) (drop i parts)"
    then obtain i n where i: "i \<in> positions" "n \<le> length parts - i" "glob fn ps (drop (n + i) parts)" using True by auto
    moreover have "Min positions \<le> n + i" using Min_le [OF fin i(1)] by simp
    moreover have "n + i \<le> length parts" using i(2) subsetD [OF assms i(1)] by simp
    ultimately show "\<exists>i \<in> glob_step fn parts p positions. glob fn ps (drop i parts)" using True by (auto simp: glob_step_def)
  qed
next
  case False
  have "glob fn (p # ps) (drop i parts) \<longleftrightarrow> i < length parts \<and> fn (parts ! i) p \<and> glob fn ps (drop (Suc i) parts)" for i
    using False by (cases "i < length parts") (auto simp: Cons_nth_drop_Suc [symmetric])
  with False show ?thesis by (auto simp: glob_step_def)
qed

lemma glob_fold:
  "positions \<subseteq> {..length parts} \<Longrightarrow>
    length parts \<in> fold (glob_step fn parts) ps positions \<longleftrightarrow> (\<exists>i \<in> positions. glob fn ps (drop i parts))"
proof (induction ps arbitrary: positions)
  case Nil
  then show ?case by (auto dest: subsetD)
next
  case (Cons p ps)
  from Cons.IH [OF glob_step_within [OF Cons.prems], of fn p] glob_step_iff [OF Cons.prems, of fn p ps] show ?case by simp
qed

text \<open>
  C13. Keeping only the reachable positions, and of those only the least where \<open>**\<close> is read, loses
  nothing: \<open>_glob_match\<close> accepts a path exactly when its components can be divided among the
  components of the pattern, any number of them to each \<open>**\<close> and one that matches to each other.
\<close>

theorem glob_match_iff: "glob_match fn path pattern \<longleftrightarrow> glob fn (split_on CHR ''/'' pattern) (split_on CHR ''/'' path)"
  by (simp add: glob_match_def Let_def glob_fold)

lemma glob_stars: "glob_match fn path ''**''"
  by (simp add: glob_match_def Let_def glob_step_def)

section \<open>Listing in pages\<close>

text \<open>
  \<open>_listing\<close> over the rows of a walk. \<open>keep\<close> is the glob filter, true for \<open>list_directory\<close>;
  \<open>bytes\<close> is the size of a row in JSON. The result has the rows of the page and the
  cursor, the last row that was read, unless the listing is complete.
\<close>

fun listing_loop ::
  "(string \<Rightarrow> bool) \<Rightarrow> (walk_row \<Rightarrow> nat) \<Rightarrow> nat \<Rightarrow> nat \<Rightarrow> string option \<Rightarrow> bool \<Rightarrow> walk_row list \<Rightarrow> nat \<Rightarrow> string option \<Rightarrow> walk_row list \<Rightarrow>
     (walk_row list \<times> string option option) result" where
  "listing_loop keep bytes limit maximum after waiting rows used latest [] = Inr (rows, None)"
| "listing_loop keep bytes limit maximum after waiting rows used latest (e # es) =
     (if waiting then listing_loop keep bytes limit maximum after (after \<noteq> Some (wr_rel e)) rows used latest es
      else if \<not> keep (wr_rel e) then listing_loop keep bytes limit maximum after False rows used (Some (wr_rel e)) es
      else if limit \<le> length rows \<or> maximum < used + bytes e
      then if rows = [] then Inl (FilesystemError ''output_budget_too_small'') else Inr (rows, Some latest)
      else listing_loop keep bytes limit maximum after False (rows @ [e]) (used + bytes e) (Some (wr_rel e)) es)"

definition listing ::
  "(string \<Rightarrow> bool) \<Rightarrow> (walk_row \<Rightarrow> nat) \<Rightarrow> nat \<Rightarrow> nat \<Rightarrow> string option \<Rightarrow> walk_row list \<Rightarrow> (walk_row list \<times> string option option) result" where
  "listing keep bytes limit maximum after es =
     listing_loop keep bytes limit maximum after (after \<noteq> None \<and> after \<noteq> Some []) [] 0 after es"

text \<open>A client that follows the cursor, with as many pages as it is willing to read.\<close>

fun list_all_pages ::
  "nat \<Rightarrow> (string \<Rightarrow> bool) \<Rightarrow> (walk_row \<Rightarrow> nat) \<Rightarrow> nat \<Rightarrow> nat \<Rightarrow> string option \<Rightarrow> walk_row list \<Rightarrow> walk_row list list option" where
  "list_all_pages 0 keep bytes limit maximum after es = None"
| "list_all_pages (Suc n) keep bytes limit maximum after es =
     (case listing keep bytes limit maximum after es of
        Inl _ \<Rightarrow> None
      | Inr (rows, None) \<Rightarrow> Some [rows]
      | Inr (rows, Some cursor) \<Rightarrow> map_option ((#) rows) (list_all_pages n keep bytes limit maximum cursor es))"

text \<open>One page from a given point on: it takes rows while they fit.\<close>

lemma listing_skip:
  assumes "wr_rel e \<notin> wr_rel ` set pre"
  shows "listing_loop keep bytes limit maximum (Some (wr_rel e)) True rows used latest (pre @ e # es) =
    listing_loop keep bytes limit maximum (Some (wr_rel e)) False rows used latest es"
  using assms by (induction pre) auto

definition page_end ::
  "(string \<Rightarrow> bool) \<Rightarrow> walk_row list \<Rightarrow> string option \<Rightarrow> walk_row list \<Rightarrow> walk_row list \<times> string option option \<Rightarrow> bool" where
  "page_end keep rows latest es res \<longleftrightarrow> (\<exists>pre post. es = pre @ post \<and> fst res = rows @ filter (\<lambda>e. keep (wr_rel e)) pre \<and>
     (case snd res of None \<Rightarrow> post = [] | Some cursor \<Rightarrow> fst res \<noteq> [] \<and> cursor = (if pre = [] then latest else Some (wr_rel (last pre)))))"

lemma page_end_Cons:
  assumes "page_end keep (rows @ filter (\<lambda>e. keep (wr_rel e)) [e]) (Some (wr_rel e)) es res"
  shows "page_end keep rows latest (e # es) res"
proof -
  from assms obtain pre post where "es = pre @ post" "fst res = rows @ filter (\<lambda>e. keep (wr_rel e)) (e # pre)"
    "case snd res of None \<Rightarrow> post = [] | Some cursor \<Rightarrow> fst res \<noteq> [] \<and> cursor = (if pre = [] then Some (wr_rel e) else Some (wr_rel (last pre)))"
    unfolding page_end_def by auto
  then show ?thesis unfolding page_end_def by (intro exI [of _ "e # pre"] exI [of _ post]) (auto split: option.splits)
qed

lemma page_end_full: "rows \<noteq> [] \<Longrightarrow> page_end keep rows latest es (rows, Some latest)"
  unfolding page_end_def by (rule exI [of _ "[]"]) simp

lemma listing_page:
  assumes "\<forall>e \<in> set es. keep (wr_rel e) \<longrightarrow> bytes e \<le> maximum" "1 \<le> limit" "rows = [] \<Longrightarrow> used = 0"
  shows "\<exists>res. listing_loop keep bytes limit maximum after False rows used latest es = Inr res \<and> page_end keep rows latest es res"
  using assms(1,3)
proof (induction es arbitrary: rows used latest)
  case Nil
  then show ?case by (simp add: page_end_def)
next
  case (Cons e es)
  show ?case
  proof (cases "keep (wr_rel e)")
    case False
    from Cons.IH [of rows used "Some (wr_rel e)"] Cons.prems obtain res
      where "listing_loop keep bytes limit maximum after False rows used (Some (wr_rel e)) es = Inr res" "page_end keep rows (Some (wr_rel e)) es res"
      by auto
    with False page_end_Cons [of keep rows e es res latest] show ?thesis by auto
  next
    case True
    show ?thesis
    proof (cases "limit \<le> length rows \<or> maximum < used + bytes e")
      case full: True
      with Cons.prems True assms(2) have ne: "rows \<noteq> []" by auto
      with full True page_end_full [OF ne, of keep latest "e # es"] show ?thesis by auto
    next
      case False
      from Cons.IH [of "rows @ [e]" "used + bytes e" "Some (wr_rel e)"] Cons.prems obtain res
        where "listing_loop keep bytes limit maximum after False (rows @ [e]) (used + bytes e) (Some (wr_rel e)) es = Inr res"
          "page_end keep (rows @ [e]) (Some (wr_rel e)) es res" by auto
      with False True page_end_Cons [of keep rows e es res latest] show ?thesis by auto
    qed
  qed
qed

lemma listing_bounds:
  assumes "listing_loop keep bytes limit maximum after waiting rows used latest es = Inr (rows1, cursor)"
    and "length rows \<le> limit" "used = sum_list (map bytes rows)" "used \<le> maximum"
  shows "length rows1 \<le> limit \<and> sum_list (map bytes rows1) \<le> maximum"
  using assms
proof (induction es arbitrary: waiting rows used latest)
  case (Cons e es)
  from Cons.prems Cons.IH [of _ rows used] Cons.IH [of False "rows @ [e]" "used + bytes e"] show ?case
    by (auto split: if_splits)
qed simp

text \<open>From a cursor at the end of \<open>seen\<close>, the pages are the kept rows after it.\<close>

definition cursor_at :: "walk_row list \<Rightarrow> string option" where
  "cursor_at seen = (if seen = [] then None else Some (wr_rel (last seen)))"

definition first_seen :: "walk_row list \<Rightarrow> bool" where
  "first_seen seen \<longleftrightarrow> (seen = [] \<or> wr_rel (last seen) \<notin> wr_rel ` set (butlast seen))"

lemma listing_from:
  assumes "first_seen seen" "\<forall>e \<in> set seen. wr_rel e \<noteq> []"
  shows "listing keep bytes limit maximum (cursor_at seen) (seen @ es) =
    listing_loop keep bytes limit maximum (cursor_at seen) False [] 0 (cursor_at seen) es"
proof (cases seen rule: rev_cases)
  case Nil
  then show ?thesis by (simp add: listing_def cursor_at_def)
next
  case (snoc pre e)
  with assms listing_skip [of e pre keep bytes limit maximum "[]" 0 "Some (wr_rel e)" es] show ?thesis
    by (simp add: listing_def cursor_at_def first_seen_def)
qed

lemma distinct_first_seen: "distinct (map wr_rel seen) \<Longrightarrow> first_seen seen"
  by (cases seen rule: rev_cases) (auto simp: first_seen_def)

lemma pages_from:
  assumes d: "distinct (map wr_rel (seen @ es))" and ne: "\<forall>e \<in> set (seen @ es). wr_rel e \<noteq> []"
    and fit: "\<forall>e \<in> set es. keep (wr_rel e) \<longrightarrow> bytes e \<le> maximum" and limit: "1 \<le> limit" and fuel: "length es < n"
  shows "\<exists>ps. list_all_pages n keep bytes limit maximum (cursor_at seen) (seen @ es) = Some ps \<and>
    concat ps = filter (\<lambda>e. keep (wr_rel e)) es \<and> (\<forall>p \<in> set ps. length p \<le> limit \<and> sum_list (map bytes p) \<le> maximum)"
  using d ne fit fuel
proof (induction n arbitrary: seen es)
  case (Suc n)
  from listing_page [OF Suc.prems(3) limit, of "[]" 0] obtain rows cursor
    where r: "listing_loop keep bytes limit maximum (cursor_at seen) False [] 0 (cursor_at seen) es = Inr (rows, cursor)"
      and pe: "page_end keep [] (cursor_at seen) es (rows, cursor)" by fastforce
  have l: "listing keep bytes limit maximum (cursor_at seen) (seen @ es) = Inr (rows, cursor)"
    using listing_from [of seen keep] distinct_first_seen [of seen] Suc.prems(1,2) r by simp
  have b: "length rows \<le> limit \<and> sum_list (map bytes rows) \<le> maximum" by (rule listing_bounds [OF r]) simp_all
  from pe obtain pre post where p: "es = pre @ post" "rows = filter (\<lambda>e. keep (wr_rel e)) pre"
    and c: "case cursor of None \<Rightarrow> post = [] | Some cu \<Rightarrow> rows \<noteq> [] \<and> cu = (if pre = [] then cursor_at seen else Some (wr_rel (last pre)))"
    unfolding page_end_def fst_conv snd_conv append_Nil by blast
  show ?case
  proof (cases cursor)
    case None
    with l p c b show ?thesis by (auto simp: comp_def)
  next
    case (Some cu)
    with c p have pre: "pre \<noteq> []" "cu = cursor_at (seen @ pre)" by (auto simp: cursor_at_def)
    with Suc.prems p have "length post < n" by (cases pre) auto
    with Suc.IH [of "seen @ pre" post] Suc.prems p obtain ps where
      "list_all_pages n keep bytes limit maximum (cursor_at (seen @ pre)) ((seen @ pre) @ post) = Some ps"
      "concat ps = filter (\<lambda>e. keep (wr_rel e)) post" "\<forall>p \<in> set ps. length p \<le> limit \<and> sum_list (map bytes p) \<le> maximum" by auto
    with l Some pre p b show ?thesis by (auto simp: comp_def)
  qed
qed simp

text \<open>
  With paired rows the cursor may name the path of two rows, and then the next page starts with the second. It is a row more, so
  that the listing goes on as long as a page has room for two.
\<close>

lemma paired_split:
  "paired (pre @ x # post) \<Longrightarrow> wr_rel x \<notin> wr_rel ` set (butlast pre) \<and>
    (pre \<noteq> [] \<and> wr_rel (last pre) = wr_rel x \<longrightarrow> wr_kind x = Row_Unavailable)"
proof (induction pre)
  case (Cons y pre)
  then show ?case by (cases pre) auto
qed simp

lemma listing_two:
  assumes "listing_loop keep bytes limit maximum after False rows used latest es = Inr (rows1, Some cursor)"
    and "2 \<le> limit" "\<forall>e \<in> set (rows @ es). \<forall>f \<in> set (rows @ es). bytes e + bytes f \<le> maximum" "used = sum_list (map bytes rows)"
  shows "2 \<le> length rows1"
  using assms(1,3,4)
proof (induction es arbitrary: rows used latest)
  case (Cons e es)
  show ?case
  proof (cases "keep (wr_rel e) \<and> (limit \<le> length rows \<or> maximum < used + bytes e)")
    case True
    with Cons.prems(1) have rows: "rows1 = rows" "rows \<noteq> []" by (auto split: if_splits)
    have "length rows \<noteq> 1" using True Cons.prems(2,3) assms(2) by (auto simp: length_Suc_conv)
    with rows show ?thesis by (cases rows; cases "tl rows") auto
  next
    case False
    then show ?thesis
    proof (cases "keep (wr_rel e)")
      case True
      with False Cons.prems Cons.IH [of "rows @ [e]" "used + bytes e" "Some (wr_rel e)"] show ?thesis by auto
    next
      case no: False
      with Cons.prems Cons.IH [of rows used "Some (wr_rel e)"] show ?thesis by auto
    qed
  qed
qed simp

lemma remdups_adj_join:
  assumes "distinct (A @ B)" and "remdups_adj Y = B \<or> (\<exists>A0 x. A = A0 @ [x] \<and> remdups_adj Y = x # B)"
  shows "remdups_adj (A @ Y) = A @ B"
proof (cases Y)
  case Nil
  with assms show ?thesis by (auto simp: remdups_adj_distinct)
next
  case (Cons y Y1)
  have head: "remdups_adj Y = y # tl (remdups_adj Y)" using Cons hd_remdups_adj [of Y] by (metis list.collapse list.discI list.sel(1) remdups_adj_Nil_iff)
  from assms(2) show ?thesis
  proof (elim disjE exE conjE)
    assume "remdups_adj Y = B"
    with head assms(1) remdups_adj_append [of A y Y1] Cons show ?thesis
      by (metis append.assoc append_Cons append_Nil distinct_append remdups_adj_distinct)
  next
    fix A0 x
    assume x: "A = A0 @ [x]" "remdups_adj Y = x # B"
    with head have "x = y" by simp
    with x Cons remdups_adj_append [of A0 x Y] assms(1) show ?thesis by (simp add: remdups_adj_distinct)
  qed
qed

definition available :: "walk_row \<Rightarrow> bool" where
  "available e \<longleftrightarrow> wr_kind e \<noteq> Row_Unavailable"

lemma page_step:
  assumes p: "paired (seen @ pre @ post)" and seen: "first_seen seen" and pre: "pre \<noteq> []" and d: "distinct (pre @ post)"
  obtains pre1 post1 where "pre @ post = pre1 @ post1" "cursor_at (seen @ pre1) = cursor_at (seen @ pre)" "first_seen (seen @ pre1)"
    "length pre \<le> length pre1 + 1"
    "\<And>Y. remdups_adj Y = filter Q post1 \<Longrightarrow> remdups_adj (filter Q pre @ Y) = filter Q (pre @ post)"
    "\<And>Y. filter available Y = filter available (filter Q post1) \<Longrightarrow> filter available (filter Q pre @ Y) = filter available (filter Q (pre @ post))"
proof -
  obtain pre0 x where x: "pre = pre0 @ [x]" using pre by (cases pre rule: rev_cases) auto
  from p have split: "wr_rel x \<notin> wr_rel ` set (butlast (seen @ pre0))"
    "seen @ pre0 \<noteq> [] \<and> wr_rel (last (seen @ pre0)) = wr_rel x \<longrightarrow> wr_kind x = Row_Unavailable"
    using paired_split [of "seen @ pre0" x post] by (simp_all add: x)
  have d1: "distinct (filter Q pre @ filter Q post)" using d by auto
  show thesis
  proof (cases "wr_rel x \<in> wr_rel ` set (seen @ pre0)")
    case False
    then have f: "first_seen (seen @ pre)" by (simp add: first_seen_def x butlast_append)
    show thesis by (rule that [OF refl refl f]) (use remdups_adj_join [OF d1] in auto)
  next
    case True
    then obtain z zs where z: "seen @ pre0 = zs @ [z]" by (cases "seen @ pre0" rule: rev_cases) auto
    from True split have zx: "wr_rel z = wr_rel x" "wr_rel x \<notin> wr_rel ` set zs" "wr_kind x = Row_Unavailable" unfolding z by auto
    have c: "cursor_at (seen @ pre0) = cursor_at (seen @ pre)" unfolding z cursor_at_def by (simp add: x zx)
    have f: "first_seen (seen @ pre0)" unfolding z first_seen_def by (simp add: zx)
    show thesis
    proof (rule that [OF _ c f])
      show "pre @ post = pre0 @ x # post" "length pre \<le> length pre0 + 1" by (simp_all add: x)
      show "remdups_adj (filter Q pre @ Y) = filter Q (pre @ post)" if "remdups_adj Y = filter Q (x # post)" for Y
        using remdups_adj_join [OF d1, of Y] that by (auto simp: x split: if_splits)
      show "filter available (filter Q pre @ Y) = filter available (filter Q (pre @ post))"
        if "filter available Y = filter available (filter Q (x # post))" for Y
        using that zx(3) by (simp add: x available_def)
    qed
  qed
qed

lemma pages_repeating:
  assumes "paired (seen @ es)" "first_seen seen" "distinct es" "\<forall>e \<in> set (seen @ es). wr_rel e \<noteq> []"
    and "\<forall>e \<in> set es. \<forall>f \<in> set es. bytes e + bytes f \<le> maximum" and limit: "2 \<le> limit" and "length es < n"
  shows "\<exists>ps. list_all_pages n keep bytes limit maximum (cursor_at seen) (seen @ es) = Some ps \<and>
    remdups_adj (concat ps) = filter (\<lambda>e. keep (wr_rel e)) es \<and> filter available (concat ps) = filter available (filter (\<lambda>e. keep (wr_rel e)) es) \<and>
    (\<forall>p \<in> set ps. length p \<le> limit \<and> sum_list (map bytes p) \<le> maximum)"
  using assms(1-5,7)
proof (induction n arbitrary: seen es)
  case (Suc n)
  let ?Q = "\<lambda>e. keep (wr_rel e)"
  have "\<forall>e \<in> set es. ?Q e \<longrightarrow> bytes e \<le> maximum" using Suc.prems(5) by (meson add_leD1)
  from listing_page [OF this, of limit "[]" 0] limit obtain rows cursor
    where r: "listing_loop keep bytes limit maximum (cursor_at seen) False [] 0 (cursor_at seen) es = Inr (rows, cursor)"
      and pe: "page_end keep [] (cursor_at seen) es (rows, cursor)" by fastforce
  have l: "listing keep bytes limit maximum (cursor_at seen) (seen @ es) = Inr (rows, cursor)"
    using listing_from [OF Suc.prems(2), of keep] Suc.prems(4) r by simp
  have b: "length rows \<le> limit \<and> sum_list (map bytes rows) \<le> maximum" by (rule listing_bounds [OF r]) simp_all
  from pe obtain pre post where p: "es = pre @ post" "rows = filter ?Q pre"
    and c: "case cursor of None \<Rightarrow> post = [] | Some cu \<Rightarrow> rows \<noteq> [] \<and> cu = (if pre = [] then cursor_at seen else Some (wr_rel (last pre)))"
    unfolding page_end_def fst_conv snd_conv append_Nil by blast
  show ?case
  proof (cases cursor)
    case None
    with p c have "rows = filter ?Q es" by simp
    with Suc.prems(3) have "remdups_adj rows = filter ?Q es" by (simp add: remdups_adj_distinct)
    with \<open>rows = filter ?Q es\<close> l None b show ?thesis by (auto simp: comp_def)
  next
    case (Some cu)
    with c p have pre: "pre \<noteq> []" "cu = cursor_at (seen @ pre)" by (auto simp: cursor_at_def)
    have "2 \<le> length rows" using listing_two [OF r [unfolded Some] limit] Suc.prems(5) by simp
    with p(2) have two: "2 \<le> length pre" using order.trans [OF _ length_filter_le] by blast
    have "paired (seen @ pre @ post)" "distinct (pre @ post)" using Suc.prems(1,3) p(1) by simp_all
    from page_step [OF this(1) Suc.prems(2) pre(1) this(2), where Q = ?Q] obtain pre1 post1 where
      s: "pre @ post = pre1 @ post1" "cursor_at (seen @ pre1) = cursor_at (seen @ pre)" "first_seen (seen @ pre1)" "length pre \<le> length pre1 + 1"
      and re: "\<And>Y. remdups_adj Y = filter ?Q post1 \<Longrightarrow> remdups_adj (filter ?Q pre @ Y) = filter ?Q (pre @ post)"
      and av: "\<And>Y. filter available Y = filter available (filter ?Q post1) \<Longrightarrow> filter available (filter ?Q pre @ Y) = filter available (filter ?Q (pre @ post))"
      by blast
    have es: "es = pre1 @ post1" using p(1) s(1) by simp
    have "length post1 < n" using two s(4) Suc.prems(6) by (simp add: es)
    with Suc.IH [of "seen @ pre1" post1] Suc.prems s(3) obtain ps where ps:
      "list_all_pages n keep bytes limit maximum (cursor_at (seen @ pre1)) (seen @ es) = Some ps"
      "remdups_adj (concat ps) = filter ?Q post1" "filter available (concat ps) = filter available (filter ?Q post1)"
      "\<forall>p \<in> set ps. length p \<le> limit \<and> sum_list (map bytes p) \<le> maximum" by (auto simp: es)
    have "list_all_pages (Suc n) keep bytes limit maximum (cursor_at seen) (seen @ es) = Some (rows # ps)"
      using l Some pre(2) s(2) ps(1) by simp
    with re [OF ps(2)] av [OF ps(3)] ps(4) b p show ?thesis by (intro exI [of _ "rows # ps"]) simp
  qed
qed simp

text \<open>The rows of a whole listing, when every directory the walk meets can be opened, have different paths.\<close>

definition all_readable :: "tree \<Rightarrow> nat \<Rightarrow> bool" where
  "all_readable dirs d0 \<longleftrightarrow> (\<forall>d es name c. reachable_dir dirs d0 d \<and> map_of dirs d = Some es \<and> (name, Dir_Node c) \<in> set es \<longrightarrow> map_of dirs c \<noteq> None)"

lemma readable_rows:
  assumes "all_readable dirs d0" "\<forall>m \<in> set ms. visit_ok dirs d0 m"
  shows "map wr_rel (concat (map (visit_rows dirs) ms)) = map visit_rel ms"
  using assms(2)
proof (induction ms)
  case (Cons m ms)
  obtain d p n k where m: "m = (d, p, n, k)" by (cases m)
  with Cons.prems assms(1) have "entry_rows dirs (p @ n) k = [row_of (p @ n) k]"
    by (fastforce simp: visit_ok_def all_readable_def reachable_dir_def entry_rows_def split: node_kind.split)
  with Cons m show ?case by simp
qed simp

text \<open>The rows a walk must have, when the entries of each directory \<open>d\<close> have the prefix \<open>home d\<close>.\<close>

definition tree_rows :: "tree \<Rightarrow> nat \<Rightarrow> (nat \<Rightarrow> string) \<Rightarrow> walk_row set" where
  "tree_rows dirs d0 home = {r. \<exists>d entries name k. reachable_dir dirs d0 d \<and> map_of dirs d = Some entries \<and> (name, k) \<in> set entries \<and>
     r \<in> set (entry_rows dirs (home d @ name) k)}"

lemma visited_rows:
  assumes r: "run_ok dirs d0 visited stack ms"
    and all: "\<forall>d. reachable_dir dirs d0 d \<longrightarrow> (\<exists>p es. dir_path dirs d0 d p \<and> map_of dirs d = Some es \<and> visits_all ms d p es)"
  shows "\<exists>home. (\<forall>d. reachable_dir dirs d0 d \<longrightarrow> dir_path dirs d0 d (home d)) \<and> set (concat (map (visit_rows dirs) ms)) = tree_rows dirs d0 home"
proof -
  from all have "\<forall>d. \<exists>p. reachable_dir dirs d0 d \<longrightarrow> dir_path dirs d0 d p \<and> (\<forall>es. map_of dirs d = Some es \<longrightarrow> visits_all ms d p es)" by fastforce
  then obtain home where home: "\<And>d. reachable_dir dirs d0 d \<Longrightarrow> dir_path dirs d0 d (home d)"
    "\<And>d es. reachable_dir dirs d0 d \<Longrightarrow> map_of dirs d = Some es \<Longrightarrow> visits_all ms d (home d) es" by metis
  have here: "p = home d \<and> reachable_dir dirs d0 d \<and> (\<exists>es. map_of dirs d = Some es \<and> (n, k) \<in> set es)" if m: "(d, p, n, k) \<in> set ms" for d p n k
  proof -
    from r m obtain es where es: "map_of dirs d = Some es" "(n, k) \<in> set es" "dir_path dirs d0 d p" by (fastforce simp: run_ok_def visit_ok_def)
    then have "reachable_dir dirs d0 d" by (auto simp: reachable_dir_def)
    with home(2) es have "(d, home d, n, k) \<in> set ms" by (fastforce simp: visits_all_def)
    moreover have "inj_on visit_key (set ms)" using r by (simp add: run_ok_def distinct_map)
    ultimately have "(d, home d, n, k) = (d, p, n, k)" using m inj_onD [of visit_key "set ms" "(d, home d, n, k)" "(d, p, n, k)"] by simp
    with es \<open>reachable_dir dirs d0 d\<close> show ?thesis by blast
  qed
  have "x \<in> tree_rows dirs d0 home" if "x \<in> set (concat (map (visit_rows dirs) ms))" for x
    using that here unfolding tree_rows_def by fastforce
  moreover have "x \<in> set (concat (map (visit_rows dirs) ms))" if "x \<in> tree_rows dirs d0 home" for x
  proof -
    from that obtain d es n k where x: "reachable_dir dirs d0 d" "map_of dirs d = Some es" "(n, k) \<in> set es" "x \<in> set (entry_rows dirs (home d @ n) k)"
      unfolding tree_rows_def by blast
    with home(2) have "(d, home d, n, k) \<in> set ms" by (fastforce simp: visits_all_def)
    with x(4) show ?thesis by force
  qed
  ultimately show ?thesis using home(1) by blast
qed

text \<open>
  C25. The recursive listing or glob of a readable directory is complete, on every directory tree, also one
  with links back to directories on the way. The walk returns; it has, once each, exactly the rows of the entries of the directories
  that can be reached, every directory under one of its paths, and a second row for a directory that cannot be opened. Following
  the cursor reaches the end in at most one page more than there are rows, and no page exceeds its number of rows or its bytes. When every directory can be
  opened, and each row fits into a page, the pages together are the rows the filter keeps, each once and in the order of the walk. Otherwise,
  when any two rows fit into a page of at least two, they are so after consecutive repetitions are taken away, and only second rows are repeated. (A page
  of one row repeats such a row for ever, see \<open>unavailable_row_endless\<close>.) The names in a directory are different, not empty, and without slash.
\<close>

theorem listing_pages_complete:
  assumes root: "map_of dirs d0 \<noteq> None" and ok: "tree_ok dirs"
  shows "\<exists>es. walk dirs True name (Dir_Node d0) = Inr es \<and> distinct es \<and>
    (\<exists>home. (\<forall>d. reachable_dir dirs d0 d \<longrightarrow> dir_path dirs d0 d (home d)) \<and> set es = tree_rows dirs d0 home) \<and>
    (all_readable dirs d0 \<and> 1 \<le> limit \<and> (\<forall>e \<in> set es. bytes e \<le> maximum) \<longrightarrow>
      (\<exists>pages. list_all_pages (Suc (length es)) (\<lambda>rel. glob_match fn rel pattern) bytes limit maximum None es = Some pages \<and>
        concat pages = filter (\<lambda>e. glob_match fn (wr_rel e) pattern) es \<and>
        (\<forall>p \<in> set pages. length p \<le> limit \<and> sum_list (map bytes p) \<le> maximum))) \<and>
    (2 \<le> limit \<and> (\<forall>e \<in> set es. \<forall>f \<in> set es. bytes e + bytes f \<le> maximum) \<longrightarrow>
      (\<exists>pages. list_all_pages (Suc (length es)) (\<lambda>rel. glob_match fn rel pattern) bytes limit maximum None es = Some pages \<and>
        remdups_adj (concat pages) = filter (\<lambda>e. glob_match fn (wr_rel e) pattern) es \<and>
        filter available (concat pages) = filter available (filter (\<lambda>e. glob_match fn (wr_rel e) pattern) es) \<and>
        (\<forall>p \<in> set pages. length p \<le> limit \<and> sum_list (map bytes p) \<le> maximum)))"
proof -
  from walk_complete [OF ok root, of name] obtain ms where w: "walk dirs True name (Dir_Node d0) = Inr (concat (map (visit_rows dirs) ms))"
    and r: "run_ok dirs d0 [] [(d0, [], None)] ms"
    and all: "\<forall>d. reachable_dir dirs d0 d \<longrightarrow> (\<exists>p es. dir_path dirs d0 d p \<and> map_of dirs d = Some es \<and> visits_all ms d p es)" by blast
  define es where "es = concat (map (visit_rows dirs) ms)"
  note rels = run_ok_rels [OF ok r]
  have paired: "paired es" "distinct es" using rows_paired [OF rels(1)] by (simp_all add: es_def)
  have ne: "\<forall>e \<in> set es. wr_rel e \<noteq> []" using rels(2) wr_rel_rows [of dirs ms] unfolding es_def [symmetric] by (metis image_iff)
  have once: "distinct (map wr_rel es)" if "all_readable dirs d0"
    using readable_rows [OF that, of ms] r rels(1) by (simp add: run_ok_def es_def)
  have start: "cursor_at [] = None" "first_seen []" by (simp_all add: cursor_at_def first_seen_def)
  show ?thesis
    unfolding w es_def [symmetric]
  proof (intro exI [of _ es] conjI impI refl paired(2))
    show "\<exists>home. (\<forall>d. reachable_dir dirs d0 d \<longrightarrow> dir_path dirs d0 d (home d)) \<and> set es = tree_rows dirs d0 home"
      using visited_rows [OF r all] unfolding es_def .
  qed (use pages_from [of "[]" es "\<lambda>rel. glob_match fn rel pattern" bytes maximum limit "Suc (length es)"] once
      pages_repeating [of "[]" es bytes maximum limit "Suc (length es)" "\<lambda>rel. glob_match fn rel pattern"] paired ne start in auto)
qed

definition tree_1 :: "(string \<times> node_kind) list \<Rightarrow> tree" where
  "tree_1 others = [(0, (''d'', Dir_Node 1) # (''a'', File_Node 1) # others), (1, [(''b'', File_Node 1), (''up'', Dir_Node 0)])]"

definition rows_1 :: "walk_row list" where
  "rows_1 = [row_of ''a'' (File_Node 1), row_of ''d'' (Dir_Node 1), row_of ''d/b'' (File_Node 1), row_of ''d/up'' (Dir_Node 0)]"

definition rows_2 :: "walk_row list" where
  "rows_2 = rows_1 @ [row_of ''x'' (Dir_Node 2), row_of ''x'' (Lost_Node ''permission_denied'')]"

lemma walk_tree_1: "walk (tree_1 []) True [] (Dir_Node 0) = Inr rows_1" "walk (tree_1 [(''x'', Dir_Node 2)]) True [] (Dir_Node 0) = Inr rows_2"
  by (simp_all add: walk_def tree_1_def rows_1_def rows_2_def walk_loop.simps sort_key_def Let_def)

lemma tree_1_ok: "map_of (tree_1 others) 0 \<noteq> None" "tree_ok (tree_1 [])" "tree_ok (tree_1 [(''x'', Dir_Node 2)])" "all_readable (tree_1 []) 0"
  by (auto simp: tree_1_def tree_ok_def all_readable_def split: if_splits)

theorem listing_pages_complete_witness:
  "(\<exists>pages. list_all_pages 5 (\<lambda>rel. glob_match (\<lambda>_ _. True) rel ''**'') (\<lambda>_. 1) 1 10 None rows_1 = Some pages \<and> concat pages = rows_1) \<and>
   (\<exists>pages. list_all_pages 7 (\<lambda>rel. glob_match (\<lambda>_ _. True) rel ''**'') (\<lambda>_. 1) 2 10 None rows_2 = Some pages \<and> remdups_adj (concat pages) = rows_2)"
proof -
  have n: "Suc (length rows_1) = 5" "Suc (length rows_2) = 7" by (simp_all add: rows_1_def rows_2_def)
  have all: "filter (\<lambda>e. glob_match (\<lambda>_ _. True) (wr_rel e) ''**'') es = es" for es by (simp add: glob_stars)
  show ?thesis
    using listing_pages_complete [OF tree_1_ok(1,2), of "[]" 1 "\<lambda>_. 1" 10 "\<lambda>_ _. True" "''**''"] tree_1_ok(4)
      listing_pages_complete [OF tree_1_ok(1,3), of "[]" 2 "\<lambda>_. 1" 10 "\<lambda>_ _. True" "''**''"]
    unfolding walk_tree_1 all by (auto simp: n simp del: list_all_pages.simps)
qed

text \<open>
  When the entry a cursor names is gone, the listing waits for it to the end: the next page is
  empty and reported as complete, whatever rows are left.
\<close>

lemma listing_lost_cursor:
  assumes "after \<noteq> []" "after \<notin> wr_rel ` set es"
  shows "listing keep bytes limit maximum (Some after) es = Inr ([], None)"
proof -
  have "listing_loop keep bytes limit maximum (Some after) True rows used latest es = Inr (rows, None)" for rows used latest
    using assms(2) by (induction es) auto
  with assms(1) show ?thesis by (simp add: listing_def)
qed

text \<open>A directory that cannot be opened has two rows of the same path; a page that ends with the second is followed by it again.\<close>

lemma unavailable_row_repeated:
  "list_all_pages 5 (\<lambda>_. True) (\<lambda>_. 1) 2 10 None [row_of ''d'' (Dir_Node 1), row_of ''d'' (Lost_Node ''permission_denied''), row_of ''z'' (File_Node 1)] =
    Some [[row_of ''d'' (Dir_Node 1), row_of ''d'' (Lost_Node ''permission_denied'')],
          [row_of ''d'' (Lost_Node ''permission_denied''), row_of ''z'' (File_Node 1)]]"
  by (simp add: eval_nat_numeral listing_def row_of_def)

text \<open>With room for one row only, the client never gets past it.\<close>

lemma unavailable_row_endless:
  "list_all_pages n (\<lambda>_. True) (\<lambda>_. 1) 1 10 None [row_of ''d'' (Dir_Node 1), row_of ''d'' (Lost_Node ''permission_denied''), row_of ''z'' (File_Node 1)] = None"
proof -
  let ?es = "[row_of ''d'' (Dir_Node 1), row_of ''d'' (Lost_Node ''permission_denied''), row_of ''z'' (File_Node 1)]"
  have "list_all_pages n (\<lambda>_. True) (\<lambda>_. 1) 1 10 (Some ''d'') ?es = None" for n
    by (induction n) (simp_all add: listing_def row_of_def)
  then show ?thesis by (cases n) (simp_all add: listing_def row_of_def)
qed

section \<open>Editing a unique occurrence\<close>

text \<open>\<open>str.count\<close>, which counts occurrences that do not overlap, and \<open>str.replace\<close> with count one.\<close>

function count_in :: "string \<Rightarrow> string \<Rightarrow> nat" where
  "count_in old s =
     (if old = [] \<or> s = [] then 0
      else if starts_with old s then Suc (count_in old (drop (length old) s)) else count_in old (tl s))"
  by pat_completeness auto
termination
  by (relation "measure (\<lambda>(old, s). length s)") auto

declare count_in.simps [simp del]

fun replace_first :: "string \<Rightarrow> string \<Rightarrow> string \<Rightarrow> string" where
  "replace_first old new [] = (if old = [] then new else [])"
| "replace_first old new (c # cs) = (if starts_with old (c # cs) then new @ drop (length old) (c # cs) else c # replace_first old new cs)"

definition edit_file :: "(files \<Rightarrow> files) \<Rightarrow> string \<Rightarrow> string \<Rightarrow> string \<Rightarrow> files \<Rightarrow> unit result \<times> files" where
  "edit_file between path old new fs =
     (case read_file fs path of
        Inl e \<Rightarrow> (Inl e, between fs)
      | Inr (Binary _) \<Rightarrow> (Inl (ValueError ''UnicodeDecodeError''), between fs)
      | Inr (Text content) \<Rightarrow>
          if old = [] \<or> count_in old content \<noteq> 1 then (Inl (FilesystemError ''edit_conflict''), between fs)
          else case read_file (between fs) path of
            Inl e \<Rightarrow> (Inl e, between fs)
          | Inr now \<Rightarrow> if now \<noteq> Text content then (Inl (FilesystemError ''edit_conflict''), between fs)
                      else (Inr (), (between fs)(path \<mapsto> Text (replace_first old new content))))"

lemma replace_first_split:
  "old \<noteq> [] \<Longrightarrow> count_in old s \<noteq> 0 \<Longrightarrow> \<exists>pre post. s = pre @ old @ post \<and> replace_first old new s = pre @ new @ post \<and>
    (\<forall>n < length pre. \<not> starts_with old (drop n s)) \<and> count_in old post + 1 = count_in old s"
proof (induction s)
  case (Cons c cs)
  show ?case
  proof (cases "starts_with old (c # cs)")
    case True
    then have "c # cs = old @ drop (length old) (c # cs)" by (metis append_take_drop_id starts_with_def)
    with True Cons.prems show ?thesis
      by (intro exI [of _ "[]"] exI [of _ "drop (length old) (c # cs)"]) (simp add: count_in.simps [of old "c # cs"])
  next
    case False
    then have eq: "count_in old (c # cs) = count_in old cs" using Cons.prems(1) by (subst count_in.simps) simp
    with Cons obtain pre post where "cs = pre @ old @ post" "replace_first old new cs = pre @ new @ post"
      "\<forall>n < length pre. \<not> starts_with old (drop n cs)" "count_in old post + 1 = count_in old cs" by auto
    with False eq show ?thesis
      by (intro exI [of _ "c # pre"] exI [of _ post]) (auto simp: less_Suc_eq_0_disj)
  qed
qed (simp add: count_in.simps)

lemma edit_file_spec:
  assumes "edit_file between path old new fs = (Inr (), fs1)"
  shows "\<exists>pre post. fs path = Some (Text (pre @ old @ post)) \<and> between fs path = fs path \<and> fs1 = (between fs)(path \<mapsto> Text (pre @ new @ post)) \<and>
    count_in old post = 0 \<and> (\<forall>n < length pre. \<not> starts_with old (drop n (pre @ old @ post)))"
proof -
  from assms obtain content where c: "fs path = Some (Text content)" "between fs path = Some (Text content)" "old \<noteq> []" "count_in old content = 1"
    "fs1 = (between fs)(path \<mapsto> Text (replace_first old new content))"
    by (auto simp: edit_file_def read_file_def split: option.splits file_content.splits if_splits)
  from replace_first_split [of old content new] c(3,4) obtain pre post where "content = pre @ old @ post"
    "replace_first old new content = pre @ new @ post" "\<forall>n < length pre. \<not> starts_with old (drop n content)" "count_in old post = 0" by auto
  with c show ?thesis by (intro exI [of _ pre] exI [of _ post]) simp
qed

text \<open>Two places that overlap count as one, and the first is edited.\<close>

lemma overlapping_occurrences_edited:
  "fst (edit_file id ''f'' ''aa'' ''b'' (Map.empty(''f'' \<mapsto> Text ''aaa''))) = Inr ()"
  by (simp add: edit_file_def read_file_def count_in.simps starts_with_def)

end
