(* ===== verification/Connection_Clock.thy ===== *)
theory Connection_Clock
  imports ACS_Prelude Complex_Main
begin

text \<open>
  \<open>src/runtime/connection_clock.py\<close>: the estimate of the authority's time over a connection.

  Instants are integers, microseconds of UTC, as \<open>datetime\<close> has them; durations are rational numbers of
  seconds where the code has floats, so float rounding is left out, while \<open>timedelta(seconds=...)\<close>
  rounds to microseconds as Python does (\<open>micros\<close>). Everything the clock asks its surroundings has
  a number in the order of asking, \<open>ck_tick\<close>: the answers are the functions of a \<open>clock_world\<close>, and a
  call leaves the clock with the number of the next question. A monotonic reading that is not
  finite is \<open>None\<close>, a reference that raises is \<open>None\<close>. \<open>ClockUnavailable\<close> and its subclasses are
  the datatype \<open>clock_error\<close>; a call that raises may have changed the clock.

  What the clock is for is stated about the authority's own time, \<open>A t\<close> at monotonic time \<open>t\<close>: it is
  in the interval of every reading, up to a slack that the configuration determines and that is
  none when the resolution makes up for the roundings and for the drift of a round trip. The defaults of the code
  leave 201.5 microseconds after the interval and half a microsecond before it.
\<close>

section \<open>The clock\<close>

text \<open>\<open>timedelta(seconds=x)\<close>: rounded half to even.\<close>

definition micros :: "rat \<Rightarrow> int" where
  "micros x = (let y = x * 1000000; f = \<lfloor>y\<rfloor>; d = y - of_int f in
     if d < 1 / 2 then f else if 1 / 2 < d then f + 1 else if even f then f else f + 1)"

datatype clock_error = ClockUnavailable string | ClockExpired string | ClockUncertain string

record clock_config =
  cc_reference_id :: string
  cc_max_age :: rat
  cc_max_rtt :: rat
  cc_max_uncertainty :: rat
  cc_drift_ppm :: rat
  cc_resolution :: rat

record clock_world =
  cw_monotonic :: "nat \<Rightarrow> rat option"
  cw_wall :: "nat \<Rightarrow> int"
  cw_reference :: "nat \<Rightarrow> int option"
  cw_process :: "nat \<Rightarrow> int"
  cw_uuid :: "nat \<Rightarrow> string"

record clock_sample =
  cs_at_finish :: int
  cs_finish :: rat
  cs_uncertainty :: rat
  cs_rtt :: rat
  cs_offset :: rat
  cs_sample_id :: string
  cs_sequence :: nat

record clock =
  ck_tick :: nat
  ck_clock_id :: string
  ck_process_id :: int
  ck_sample :: "clock_sample option"
  ck_sequence :: nat
  ck_wall_anchor :: "(int \<times> rat) option"
  ck_last_monotonic :: "rat option"
  ck_progression :: rat

record clock_reading =
  cr_canonical :: int
  cr_earliest :: int
  cr_latest :: int
  cr_uncertainty :: rat
  cr_rtt :: rat
  cr_offset :: rat
  cr_age :: rat
  cr_clock_id :: string
  cr_sample_id :: string
  cr_sequence :: nat

type_synonym 'a clock_call = "clock \<Rightarrow> (clock_error + 'a) \<times> clock"

definition cbind :: "'a clock_call \<Rightarrow> ('a \<Rightarrow> 'b clock_call) \<Rightarrow> 'b clock_call" where
  "cbind m f c = (case m c of (Inl e, c1) \<Rightarrow> (Inl e, c1) | (Inr x, c1) \<Rightarrow> f x c1)"

definition ask :: "(nat \<Rightarrow> 'a) \<Rightarrow> 'a clock_call" where
  "ask answers c = (Inr (answers (ck_tick c)), c\<lparr>ck_tick := ck_tick c + 1\<rparr>)"

definition raise_clock :: "clock_error \<Rightarrow> 'a clock_call" where
  "raise_clock e c = (Inl e, c)"

definition give :: "'a \<Rightarrow> 'a clock_call" where
  "give x c = (Inr x, c)"

definition forget_sample :: "clock \<Rightarrow> clock" where
  "forget_sample c = c\<lparr>ck_sample := None\<rparr>"

text \<open>\<open>__init__\<close>.\<close>

definition new_clock :: "clock_config \<Rightarrow> clock_world \<Rightarrow> nat \<Rightarrow> clock_error + clock" where
  "new_clock cfg w tick =
     (if cc_reference_id cfg = [] then Inl (ClockUnavailable ''an authenticated clock reference is required'')
      else if cc_max_age cfg \<le> 0 \<or> cc_max_rtt cfg \<le> 0 \<or> cc_max_uncertainty cfg \<le> 0 \<or> cc_drift_ppm cfg < 0 \<or> cc_resolution cfg < 0
      then Inl (ClockUnavailable ''connection clock bounds are invalid'')
      else Inr \<lparr>ck_tick = tick + 2, ck_clock_id = cw_uuid w tick, ck_process_id = cw_process w (tick + 1), ck_sample = None, ck_sequence = 0,
                ck_wall_anchor = None, ck_last_monotonic = None, ck_progression = 0\<rparr>)"

definition monotonic_now :: "clock_world \<Rightarrow> rat clock_call" where
  "monotonic_now w =
     cbind (ask (cw_process w)) (\<lambda>pid c.
       if pid \<noteq> ck_process_id c then (Inl (ClockUnavailable ''connection clock process identity changed''), c)
       else cbind (ask (cw_monotonic w)) (\<lambda>answer c.
         case answer of
           None \<Rightarrow> (Inl (ClockUnavailable ''monotonic clock is unavailable''), c)
         | Some observed \<Rightarrow>
             if (case ck_last_monotonic c of None \<Rightarrow> False | Some l \<Rightarrow> observed < l)
             then (Inl (ClockUnavailable ''monotonic clock domain changed''), forget_sample c)
             else (Inr observed, c\<lparr>ck_last_monotonic := Some observed\<rparr>)) c)"

definition invalidate :: "clock_world \<Rightarrow> unit clock_call" where
  "invalidate w c =
     (Inr (), c\<lparr>ck_tick := ck_tick c + 2, ck_sample := None, ck_wall_anchor := None, ck_last_monotonic := None, ck_progression := 0,
        ck_clock_id := cw_uuid w (ck_tick c), ck_process_id := cw_process w (ck_tick c + 1)\<rparr>)"

definition reading_of :: "clock_config \<Rightarrow> rat \<Rightarrow> clock_reading clock_call" where
  "reading_of cfg now c =
     (case ck_sample c of
        None \<Rightarrow> (Inl (ClockUnavailable ''connection clock has no current sample''), c)
      | Some s \<Rightarrow>
          let elapsed = now - cs_finish s;
              uncertainty = cs_uncertainty s + elapsed * cc_drift_ppm cfg / 1000000 + ck_progression c;
              point = cs_at_finish s + micros elapsed; radius = micros uncertainty in
          if elapsed < 0 then (Inl (ClockUnavailable ''monotonic clock domain changed''), forget_sample c)
          else if cc_max_age cfg < elapsed \<or> cc_max_uncertainty cfg < uncertainty
          then (Inl (ClockUncertain ''connection clock sample is stale''), c)
          else (Inr \<lparr>cr_canonical = point, cr_earliest = point - radius, cr_latest = point + radius, cr_uncertainty = uncertainty,
                     cr_rtt = cs_rtt s, cr_offset = cs_offset s, cr_age = elapsed, cr_clock_id = ck_clock_id c,
                     cr_sample_id = cs_sample_id s, cr_sequence = cs_sequence s\<rparr>, c))"

text \<open>The part of \<open>synchronize\<close> after the reference has answered.\<close>

definition take_sample :: "clock_config \<Rightarrow> clock_world \<Rightarrow> rat \<Rightarrow> int \<Rightarrow> int \<Rightarrow> clock_reading clock_call" where
  "take_sample cfg w start here authority =
     cbind (monotonic_now w) (\<lambda>finish c.
       let rtt = finish - start; uncertainty = rtt / 2 + cc_resolution cfg in
       if rtt < 0 \<or> cc_max_rtt cfg < rtt \<or> cc_max_uncertainty cfg < uncertainty
       then (Inl (ClockUncertain ''connection clock sample exceeds timing bounds''), forget_sample c)
       else
         let s = \<lparr>cs_at_finish = authority + micros (rtt / 2), cs_finish = finish, cs_uncertainty = uncertainty, cs_rtt = rtt,
                  cs_offset = of_int (authority - (here + micros (rtt / 2))) / 1000000,
                  cs_sample_id = cw_uuid w (ck_tick c), cs_sequence = ck_sequence c + 1\<rparr> in
         reading_of cfg finish
           (c\<lparr>ck_tick := ck_tick c + 2, ck_sequence := ck_sequence c + 1, ck_sample := Some s,
              ck_wall_anchor := Some (cw_wall w (ck_tick c + 1), finish), ck_progression := 0\<rparr>))"

definition synchronize :: "clock_config \<Rightarrow> clock_world \<Rightarrow> clock_reading clock_call" where
  "synchronize cfg w =
     cbind (monotonic_now w) (\<lambda>start.
     cbind (ask (cw_wall w)) (\<lambda>here.
     cbind (ask (cw_reference w)) (\<lambda>answer c.
       case answer of
         None \<Rightarrow> (Inl (ClockUnavailable ''authority clock reference is unavailable''), forget_sample c)
       | Some authority \<Rightarrow> take_sample cfg w start here authority c)))"

definition reading :: "clock_config \<Rightarrow> clock_world \<Rightarrow> bool \<Rightarrow> clock_reading clock_call" where
  "reading cfg w refresh c =
     (if refresh \<or> ck_sample c = None then synchronize cfg w c
      else cbind (monotonic_now w) (\<lambda>now c.
        case ck_sample c of
          None \<Rightarrow> (Inl (ClockUnavailable ''connection clock has no current sample''), c)
        | Some s \<Rightarrow>
            if now < cs_finish s then (Inl (ClockUnavailable ''monotonic clock domain changed''), forget_sample c)
            else
              let c1 = (case ck_wall_anchor c of
                          None \<Rightarrow> c
                        | Some (wall, anchor) \<Rightarrow>
                            c\<lparr>ck_tick := ck_tick c + 1,
                              ck_progression := \<bar>of_int (cw_wall w (ck_tick c) - wall) / 1000000 - (now - anchor)\<bar>\<rparr>) in
              (case reading_of cfg now c1 of
                 (Inl (ClockUncertain m), c2) \<Rightarrow> synchronize cfg w c2
               | r \<Rightarrow> r)) c)"

definition now_estimate :: "clock_config \<Rightarrow> clock_world \<Rightarrow> int clock_call" where
  "now_estimate cfg w = cbind (reading cfg w False) (\<lambda>r. give (cr_canonical r))"

definition observation_time :: "clock_config \<Rightarrow> clock_world \<Rightarrow> int clock_call" where
  "observation_time cfg w = cbind (synchronize cfg w) (\<lambda>r. give (cr_canonical r - micros (cr_rtt r / 2)))"

definition admission_time :: "clock_config \<Rightarrow> clock_world \<Rightarrow> int clock_call" where
  "admission_time cfg w = cbind (reading cfg w False) (\<lambda>r. give (cr_earliest r))"

definition require_before :: "clock_config \<Rightarrow> clock_world \<Rightarrow> int option \<Rightarrow> clock_reading clock_call" where
  "require_before cfg w deadline =
     (case deadline of
        None \<Rightarrow> reading cfg w False
      | Some expiry \<Rightarrow>
          cbind (reading cfg w False) (\<lambda>r.
          if cr_latest r < expiry then give r
          else cbind (reading cfg w True) (\<lambda>r.
            if cr_latest r < expiry then give r
            else if expiry \<le> cr_earliest r then raise_clock (ClockExpired ''authority deadline has expired'')
            else raise_clock (ClockUncertain ''authority deadline overlaps time uncertainty''))))"

text \<open>\<open>remaining\<close>, without the infinite answer for no deadline, and \<open>fresh\<close>.\<close>

definition remaining :: "clock_config \<Rightarrow> clock_world \<Rightarrow> int option \<Rightarrow> rat option clock_call" where
  "remaining cfg w deadline =
     (case deadline of
        None \<Rightarrow> give None
      | Some expiry \<Rightarrow> cbind (require_before cfg w deadline) (\<lambda>r. give (Some (of_int (expiry - cr_latest r) / 1000000))))"

definition else_false :: "bool clock_call \<Rightarrow> bool clock_call" where
  "else_false m c = (case m c of (Inl e, c1) \<Rightarrow> (Inr False, c1) | r \<Rightarrow> r)"

definition fresh :: "clock_config \<Rightarrow> clock_world \<Rightarrow> int \<Rightarrow> int option \<Rightarrow> rat option \<Rightarrow> bool clock_call" where
  "fresh cfg w issued expires max_lifetime =
     (case expires of
        None \<Rightarrow> else_false (cbind (reading cfg w False) (\<lambda>r. give (issued \<le> cr_latest r)))
      | Some expiry \<Rightarrow>
          if expiry \<le> issued \<or> (case max_lifetime of None \<Rightarrow> False | Some l \<Rightarrow> l < of_int (expiry - issued) / 1000000) then give False
          else else_false (cbind (require_before cfg w (Some expiry)) (\<lambda>r. give (issued \<le> cr_latest r))))"

section \<open>The time of the authority\<close>

text \<open>
  \<open>T n\<close> is the monotonic time of question \<open>n\<close> and \<open>A t\<close> the authority's time, in microseconds, at
  monotonic time \<open>t\<close>. The monotonic clock answers with the time; the reference answers with the
  authority's time, cut to microseconds; and the two rates differ by at most the configured drift.
\<close>

definition world_ok :: "(rat \<Rightarrow> rat) \<Rightarrow> (nat \<Rightarrow> rat) \<Rightarrow> clock_config \<Rightarrow> clock_world \<Rightarrow> bool" where
  "world_ok A T cfg w \<longleftrightarrow> (\<forall>i j. i \<le> j \<longrightarrow> T i \<le> T j) \<and> (\<forall>n t. cw_monotonic w n = Some t \<longrightarrow> t = T n) \<and>
     (\<forall>n a. cw_reference w n = Some a \<longrightarrow> a = \<lfloor>A (T n)\<rfloor>) \<and>
     (\<forall>s t. s \<le> t \<longrightarrow> \<bar>A t - A s - 1000000 * (t - s)\<bar> \<le> cc_drift_ppm cfg * (t - s))"

text \<open>
  The interval is widened by the resolution. It would have to make up for three roundings and the cut of
  the reference, and for the drift during the round trip, which the code does not count. What is missing,
  in microseconds, is the slack after the interval and before it.
\<close>

definition late_slack :: "clock_config \<Rightarrow> rat" where
  "late_slack cfg = max 0 (5 / 2 + cc_drift_ppm cfg * cc_max_rtt cfg - 1000000 * cc_resolution cfg)"

definition early_slack :: "clock_config \<Rightarrow> rat" where
  "early_slack cfg = max 0 (3 / 2 + max 0 (cc_drift_ppm cfg - 1000000) * cc_max_rtt cfg - 1000000 * cc_resolution cfg)"

lemma micros_bounds: "x * 1000000 - 1 / 2 \<le> of_int (micros x)" "of_int (micros x) \<le> x * 1000000 + 1 / 2"
proof -
  define f where "f = \<lfloor>x * 1000000\<rfloor>"
  have "of_int f \<le> x * 1000000" "x * 1000000 < of_int f + 1" using floor_correct [of "x * 1000000"] by (auto simp: f_def)
  then show "x * 1000000 - 1 / 2 \<le> of_int (micros x)" "of_int (micros x) \<le> x * 1000000 + 1 / 2"
    by (auto simp: micros_def Let_def f_def [symmetric])
qed

lemma micros_0 [simp]: "micros 0 = 0"
  by (simp add: micros_def)

definition sample_ok :: "(rat \<Rightarrow> rat) \<Rightarrow> clock_config \<Rightarrow> clock_sample \<Rightarrow> bool" where
  "sample_ok A cfg s \<longleftrightarrow> (\<exists>m. cs_finish s - cs_rtt s \<le> m \<and> m \<le> cs_finish s \<and> cs_at_finish s = \<lfloor>A m\<rfloor> + micros (cs_rtt s / 2)) \<and>
     cs_uncertainty s = cs_rtt s / 2 + cc_resolution cfg \<and> 0 \<le> cs_rtt s \<and> cs_rtt s \<le> cc_max_rtt cfg"

definition clock_ok :: "(rat \<Rightarrow> rat) \<Rightarrow> clock_config \<Rightarrow> clock \<Rightarrow> bool" where
  "clock_ok A cfg c \<longleftrightarrow> 0 \<le> ck_progression c \<and> (\<forall>s. ck_sample c = Some s \<longrightarrow> sample_ok A cfg s)"

lemma sample_interval:
  assumes w: "world_ok A T cfg w" and s: "sample_ok A cfg s" and p: "0 \<le> progression"
    and now: "now - cs_finish s = e" "0 \<le> e"
    and u: "u = cs_uncertainty s + e * cc_drift_ppm cfg / 1000000 + progression"
  shows "of_int (cs_at_finish s + micros e - micros u) - early_slack cfg \<le> A now"
    and "A now \<le> of_int (cs_at_finish s + micros e + micros u) + late_slack cfg"
proof -
  let ?d = "cc_drift_ppm cfg" and ?r = "cs_rtt s" and ?res = "cc_resolution cfg"
  from s obtain m where m: "cs_finish s - ?r \<le> m" "m \<le> cs_finish s" "cs_at_finish s = \<lfloor>A m\<rfloor> + micros (?r / 2)"
    and su: "cs_uncertainty s = ?r / 2 + ?res" and r: "0 \<le> ?r" "?r \<le> cc_max_rtt cfg" by (auto simp: sample_ok_def)
  have "m \<le> now" using m now by simp
  then have drift: "\<bar>A now - A m - 1000000 * (now - m)\<bar> \<le> ?d * (now - m)" using w by (simp add: world_ok_def)
  define x where "x = cs_finish s - m"
  have x: "0 \<le> x" "x \<le> ?r" "x \<le> cc_max_rtt cfg" "now - m = e + x" using m now r by (auto simp: x_def)
  have "\<bar>A 1 - A 0 - 1000000 * (1 - 0)\<bar> \<le> ?d * (1 - 0)" using w zero_le_one unfolding world_ok_def by blast
  then have d: "0 \<le> ?d" by (simp add: order.trans [OF abs_ge_zero])
  have dx: "0 \<le> ?d * x" "?d * x \<le> ?d * cc_max_rtt cfg" using d x by (auto intro: mult_left_mono)
  have "(?d - 1000000) * x \<le> max 0 (?d - 1000000) * x" using x(1) by (intro mult_right_mono) auto
  also have "\<dots> \<le> max 0 (?d - 1000000) * cc_max_rtt cfg" using x(3) by (intro mult_left_mono) auto
  finally have early: "?d * x \<le> 1000000 * x + max 0 (?d - 1000000) * cc_max_rtt cfg" by (simp add: algebra_simps)
  have slack: "5 / 2 + ?d * cc_max_rtt cfg - 1000000 * ?res \<le> late_slack cfg"
    "3 / 2 + max 0 (?d - 1000000) * cc_max_rtt cfg - 1000000 * ?res \<le> early_slack cfg"
    by (simp_all add: late_slack_def early_slack_def)
  have de: "?d * (now - m) = ?d * e + ?d * x" "1000000 * (now - m) = 1000000 * e + 1000000 * x" by (simp_all add: x(4) algebra_simps)
  have fl: "of_int \<lfloor>A m\<rfloor> \<le> A m" "A m < of_int \<lfloor>A m\<rfloor> + 1" using floor_correct [of "A m"] by auto
  have mu: "u * 1000000 = ?r * 500000 + ?res * 1000000 + ?d * e + progression * 1000000" unfolding u su by (simp add: distrib_right)
  have p': "0 \<le> progression * 1000000" using p by simp
  have at: "of_int (cs_at_finish s) = of_int \<lfloor>A m\<rfloor> + (of_int (micros (?r / 2)) :: rat)" using m(3) by simp
  note b = micros_bounds [of "?r / 2"] micros_bounds [of e] micros_bounds [of u]
  have upper: "A now - A m - (1000000 * e + 1000000 * x) \<le> ?d * e + ?d * x" and lower: "- (?d * e + ?d * x) \<le> A now - A m - (1000000 * e + 1000000 * x)"
    using drift unfolding de abs_le_iff by auto
  have half: "?r / 2 * 1000000 = ?r * 500000" by simp
  show "of_int (cs_at_finish s + micros e - micros u) - early_slack cfg \<le> A now"
    using lower fl b dx early mu p' slack at half unfolding of_int_add of_int_diff by linarith
  show "A now \<le> of_int (cs_at_finish s + micros e + micros u) + late_slack cfg"
    using upper fl b dx x mu p' slack at half unfolding of_int_add of_int_diff by linarith
qed

section \<open>Every call keeps the clock right\<close>

text \<open>A call from a right clock: it stays right, time goes on, and the result is as \<open>Q\<close> says of the questions asked.\<close>

definition keeps :: "(rat \<Rightarrow> rat) \<Rightarrow> clock_config \<Rightarrow> 'a clock_call \<Rightarrow> (nat \<Rightarrow> nat \<Rightarrow> clock_error + 'a \<Rightarrow> bool) \<Rightarrow> bool" where
  "keeps A cfg m Q \<longleftrightarrow> (\<forall>c r c'. clock_ok A cfg c \<and> m c = (r, c') \<longrightarrow> clock_ok A cfg c' \<and> ck_tick c \<le> ck_tick c' \<and> Q (ck_tick c) (ck_tick c') r)"

lemma keepsI:
  assumes "\<And>c r c'. clock_ok A cfg c \<Longrightarrow> m c = (r, c') \<Longrightarrow> clock_ok A cfg c' \<and> ck_tick c \<le> ck_tick c' \<and> Q (ck_tick c) (ck_tick c') r"
  shows "keeps A cfg m Q"
  using assms by (auto simp: keeps_def)

lemma keepsD:
  assumes "keeps A cfg m Q" "clock_ok A cfg c" "m c = (r, c')"
  shows "clock_ok A cfg c'" "ck_tick c \<le> ck_tick c'" "Q (ck_tick c) (ck_tick c') r"
  using assms by (auto simp: keeps_def)

lemma keeps_give: "keeps A cfg (give x) (\<lambda>i j r. i = j \<and> r = Inr x)"
  by (auto simp: keeps_def give_def)

lemma keeps_raise: "keeps A cfg (raise_clock e) (\<lambda>i j r. i = j \<and> r = Inl e)"
  by (auto simp: keeps_def raise_clock_def)

lemma keeps_bind:
  assumes m: "keeps A cfg m Q" and f: "\<And>x. keeps A cfg (f x) (\<lambda>j k r. \<forall>i. i \<le> j \<and> Q i j (Inr x) \<longrightarrow> R i k r)"
    and e: "\<And>i j e. Q i j (Inl e) \<Longrightarrow> R i j (Inl e)"
  shows "keeps A cfg (cbind m f) R"
proof (rule keepsI)
  fix c r c'
  assume c: "clock_ok A cfg c" and run: "cbind m f c = (r, c')"
  obtain x c1 where m1: "m c = (x, c1)" by (cases "m c")
  note k = keepsD [OF m c m1]
  show "clock_ok A cfg c' \<and> ck_tick c \<le> ck_tick c' \<and> R (ck_tick c) (ck_tick c') r"
  proof (cases x)
    case (Inl err)
    with run m1 k e show ?thesis by (auto simp: cbind_def)
  next
    case (Inr y)
    with run m1 have "f y c1 = (r, c')" by (simp add: cbind_def)
    from keepsD [OF f k(1) this] k Inr show ?thesis by auto
  qed
qed

lemma keeps_mono: "keeps A cfg m Q \<Longrightarrow> (\<And>i j r. i \<le> j \<Longrightarrow> Q i j r \<Longrightarrow> R i j r) \<Longrightarrow> keeps A cfg m R"
  by (auto simp: keeps_def)

lemma clock_ok_forget: "clock_ok A cfg c \<Longrightarrow> clock_ok A cfg (forget_sample c)"
  by (simp add: clock_ok_def forget_sample_def)

lemma forget_tick [simp]: "ck_tick (forget_sample c) = ck_tick c"
  by (simp add: forget_sample_def)

lemma clock_ok_cong: "ck_sample c' = ck_sample c \<Longrightarrow> ck_progression c' = ck_progression c \<Longrightarrow> clock_ok A cfg c \<Longrightarrow> clock_ok A cfg c'"
  by (simp add: clock_ok_def)

lemma keeps_ask: "keeps A cfg (ask answers) (\<lambda>i j r. j = i + 1 \<and> r = Inr (answers i))"
  by (auto simp: keeps_def ask_def intro: clock_ok_cong [rotated 2])

lemma keeps_monotonic:
  assumes "world_ok A T cfg w"
  shows "keeps A cfg (monotonic_now w) (\<lambda>i j r. case r of Inl e \<Rightarrow> (\<exists>m. e = ClockUnavailable m) | Inr t \<Rightarrow> i < j \<and> t = T (j - 1))"
proof (rule keepsI)
  fix c r c'
  assume c: "clock_ok A cfg c" and run: "monotonic_now w c = (r, c')"
  have "clock_ok A cfg (c\<lparr>ck_tick := n\<rparr>)" "clock_ok A cfg (c\<lparr>ck_tick := n, ck_last_monotonic := l\<rparr>)" for n l
    using c by (simp_all add: clock_ok_def)
  with run assms clock_ok_forget [of A cfg "c\<lparr>ck_tick := ck_tick c + 2\<rparr>"]
  show "clock_ok A cfg c' \<and> ck_tick c \<le> ck_tick c' \<and>
      (case r of Inl e \<Rightarrow> (\<exists>m. e = ClockUnavailable m) | Inr t \<Rightarrow> ck_tick c < ck_tick c' \<and> t = T (ck_tick c' - 1))"
    by (auto simp: monotonic_now_def cbind_def ask_def world_ok_def split: if_splits option.splits)
qed

text \<open>What a reading says: at a question asked during the call, the authority's time was in its interval, up to the slack.\<close>

definition holds_time :: "clock_config \<Rightarrow> rat \<Rightarrow> clock_reading \<Rightarrow> bool" where
  "holds_time cfg a rd \<longleftrightarrow> of_int (cr_earliest rd) - early_slack cfg \<le> a \<and> a \<le> of_int (cr_latest rd) + late_slack cfg"

definition shows_time :: "clock_config \<Rightarrow> (rat \<Rightarrow> rat) \<Rightarrow> (nat \<Rightarrow> rat) \<Rightarrow> nat \<Rightarrow> nat \<Rightarrow> clock_reading \<Rightarrow> bool" where
  "shows_time cfg A T i j rd \<longleftrightarrow> (\<exists>n. i \<le> n \<and> n < j \<and> holds_time cfg (A (T n)) rd)"

definition not_expired :: "clock_error \<Rightarrow> bool" where
  "not_expired e \<longleftrightarrow> (case e of ClockExpired m \<Rightarrow> False | _ \<Rightarrow> True)"

definition reads :: "clock_config \<Rightarrow> (rat \<Rightarrow> rat) \<Rightarrow> (nat \<Rightarrow> rat) \<Rightarrow> nat \<Rightarrow> nat \<Rightarrow> clock_error + clock_reading \<Rightarrow> bool" where
  "reads cfg A T i j r \<longleftrightarrow> (case r of Inl e \<Rightarrow> not_expired e | Inr rd \<Rightarrow> shows_time cfg A T i j rd)"

lemma reads_at:
  assumes "case r of Inl e \<Rightarrow> not_expired e | Inr rd \<Rightarrow> holds_time cfg (A (T n)) rd"
    and "i \<le> n" "n < j"
  shows "reads cfg A T i j r"
  using assms by (cases r) (auto simp: reads_def shows_time_def)

lemma reads_earlier: "reads cfg A T i j r \<Longrightarrow> i' \<le> i \<Longrightarrow> reads cfg A T i' j r"
  by (cases r) (auto simp: reads_def shows_time_def intro: order.trans)

lemma reading_of_ok:
  assumes w: "world_ok A T cfg w" and c: "clock_ok A cfg c" and run: "reading_of cfg (T n) c = (r, c')"
  shows "clock_ok A cfg c' \<and> ck_tick c' = ck_tick c \<and>
    (case r of Inl e \<Rightarrow> not_expired e
     | Inr rd \<Rightarrow> holds_time cfg (A (T n)) rd)"
proof (cases "ck_sample c")
  case None
  with run c show ?thesis by (auto simp: reading_of_def not_expired_def)
next
  case (Some s)
  show ?thesis
  proof (cases "T n - cs_finish s < 0 \<or> cc_max_age cfg < T n - cs_finish s \<or>
      cc_max_uncertainty cfg < cs_uncertainty s + (T n - cs_finish s) * cc_drift_ppm cfg / 1000000 + ck_progression c")
    case True
    with run c Some show ?thesis by (auto simp: reading_of_def Let_def not_expired_def clock_ok_forget split: if_splits)
  next
    case False
    with c Some have "sample_ok A cfg s" "0 \<le> ck_progression c" by (auto simp: clock_ok_def)
    from sample_interval [OF w this refl _ refl] False run c Some show ?thesis
      by (auto simp: reading_of_def Let_def holds_time_def)
  qed
qed

text \<open>The sample that \<open>synchronize\<close> takes is right: the reference answered between its two monotonic readings.\<close>

definition reads_reference :: "clock_config \<Rightarrow> (rat \<Rightarrow> rat) \<Rightarrow> (nat \<Rightarrow> rat) \<Rightarrow> nat \<Rightarrow> nat \<Rightarrow> clock_error + clock_reading \<Rightarrow> bool" where
  "reads_reference cfg A T i j r \<longleftrightarrow> reads cfg A T i j r \<and>
     (\<forall>rd. r = Inr rd \<longrightarrow> (\<exists>n. i \<le> n \<and> n < j \<and> cr_canonical rd = \<lfloor>A (T n)\<rfloor> + micros (cr_rtt rd / 2)))"

lemma take_sample_ok:
  assumes w: "world_ok A T cfg w" and ref: "cw_reference w n = Some authority"
    and s: "start = T s" "s \<le> n" "n < ck_tick c" "i \<le> n" and c: "clock_ok A cfg c"
    and run: "take_sample cfg w start here authority c = (r, c')"
  shows "clock_ok A cfg c' \<and> ck_tick c \<le> ck_tick c' \<and> reads_reference cfg A T i (ck_tick c') r"
proof -
  obtain x c1 where m: "monotonic_now w c = (x, c1)" by (cases "monotonic_now w c")
  note k = keepsD [OF keeps_monotonic [OF w] c m]
  show ?thesis
  proof (cases x)
    case (Inl e)
    with run m k show ?thesis by (auto simp: take_sample_def cbind_def reads_reference_def reads_def not_expired_def)
  next
    case (Inr finish)
    define j where "j = ck_tick c1 - 1"
    from k Inr have j: "ck_tick c1 = Suc j" "ck_tick c \<le> j" "finish = T j" by (auto simp: j_def)
    have a: "authority = \<lfloor>A (T n)\<rfloor>" and t: "T s \<le> T n" "T n \<le> T j" using w ref s j by (auto simp: world_ok_def)
    let ?rtt = "finish - start" and ?u = "(finish - start) / 2 + cc_resolution cfg"
    show ?thesis
    proof (cases "?rtt < 0 \<or> cc_max_rtt cfg < ?rtt \<or> cc_max_uncertainty cfg < ?u")
      case True
      with run m Inr k j show ?thesis
        by (auto simp: take_sample_def cbind_def Let_def reads_reference_def reads_def not_expired_def clock_ok_forget)
    next
      case False
      define sample where "sample = \<lparr>cs_at_finish = authority + micros (?rtt / 2), cs_finish = finish, cs_uncertainty = ?u, cs_rtt = ?rtt,
        cs_offset = of_int (authority - (here + micros (?rtt / 2))) / 1000000, cs_sample_id = cw_uuid w (ck_tick c1), cs_sequence = ck_sequence c1 + 1\<rparr>"
      define c2 where "c2 = c1\<lparr>ck_tick := ck_tick c1 + 2, ck_sequence := ck_sequence c1 + 1, ck_sample := Some sample,
        ck_wall_anchor := Some (cw_wall w (ck_tick c1 + 1), finish), ck_progression := 0\<rparr>"
      have "sample_ok A cfg sample"
        using False a t s(1) j(3) unfolding sample_ok_def sample_def by (auto intro!: exI [of _ "T n"])
      then have c2: "clock_ok A cfg c2" by (simp add: clock_ok_def c2_def)
      have "reading_of cfg (T j) c2 = (r, c')"
        using run m Inr False j(3) by (simp add: take_sample_def cbind_def Let_def c2_def sample_def)
      from reading_of_ok [OF w c2 this] have ok: "clock_ok A cfg c'" "ck_tick c' = ck_tick c2"
        and r: "case r of Inl e \<Rightarrow> not_expired e | Inr rd \<Rightarrow> holds_time cfg (A (T j)) rd" by auto
      have "cr_canonical rd = authority + micros (cr_rtt rd / 2)" if "r = Inr rd" for rd
        using \<open>reading_of cfg (T j) c2 = (r, c')\<close> that j(3) by (auto simp: reading_of_def c2_def sample_def Let_def split: if_splits)
      then have "\<forall>rd. r = Inr rd \<longrightarrow> (\<exists>n. i \<le> n \<and> n < ck_tick c' \<and> cr_canonical rd = \<lfloor>A (T n)\<rfloor> + micros (cr_rtt rd / 2))"
        using a s j ok(2) by (intro allI impI exI [of _ n]) (simp add: c2_def)
      moreover have "reads cfg A T i (ck_tick c') r" by (rule reads_at [where n = j and cfg = cfg and A = A and T = T, OF r]) (use s j ok(2) in \<open>auto simp: c2_def\<close>)
      ultimately show ?thesis using ok j by (simp add: reads_reference_def c2_def)
    qed
  qed
qed

lemma synchronize_ok:
  assumes w: "world_ok A T cfg w"
  shows "keeps A cfg (synchronize cfg w) (reads_reference cfg A T)"
proof (rule keepsI)
  fix c r c'
  assume c: "clock_ok A cfg c" and run: "synchronize cfg w c = (r, c')"
  obtain x c1 where m: "monotonic_now w c = (x, c1)" by (cases "monotonic_now w c")
  note k = keepsD [OF keeps_monotonic [OF w] c m]
  let ?c2 = "c1\<lparr>ck_tick := Suc (Suc (ck_tick c1))\<rparr>"
  have c2: "clock_ok A cfg ?c2" using k(1) by (simp add: clock_ok_def)
  show "clock_ok A cfg c' \<and> ck_tick c \<le> ck_tick c' \<and> reads_reference cfg A T (ck_tick c) (ck_tick c') r"
  proof (cases x)
    case (Inl e)
    with run m k show ?thesis by (auto simp: synchronize_def cbind_def reads_reference_def reads_def not_expired_def)
  next
    case (Inr start)
    with k have st: "start = T (ck_tick c1 - 1)" "ck_tick c < ck_tick c1" by auto
    show ?thesis
    proof (cases "cw_reference w (Suc (ck_tick c1))")
      case None
      with run m Inr st clock_ok_forget [OF c2] show ?thesis
        by (auto simp: synchronize_def cbind_def ask_def reads_reference_def reads_def not_expired_def)
    next
      case (Some authority)
      with run m Inr have "take_sample cfg w start (cw_wall w (ck_tick c1)) authority ?c2 = (r, c')"
        by (simp add: synchronize_def cbind_def ask_def)
      from take_sample_ok [OF w Some st(1) _ _ _ c2 this, of "ck_tick c"] st(2)
      have "clock_ok A cfg c' \<and> ck_tick ?c2 \<le> ck_tick c' \<and> reads_reference cfg A T (ck_tick c) (ck_tick c') r" by simp
      with st(2) show ?thesis by simp
    qed
  qed
qed

lemma reading_ok:
  assumes w: "world_ok A T cfg w"
  shows "keeps A cfg (reading cfg w refresh) (reads cfg A T)"
proof (rule keepsI)
  fix c r c'
  assume c: "clock_ok A cfg c" and run: "reading cfg w refresh c = (r, c')"
  note sync = keepsD [OF synchronize_ok [OF w]]
  show "clock_ok A cfg c' \<and> ck_tick c \<le> ck_tick c' \<and> reads cfg A T (ck_tick c) (ck_tick c') r"
  proof (cases "refresh \<or> ck_sample c = None")
    case True
    with run have "synchronize cfg w c = (r, c')" by (simp add: reading_def)
    from sync [OF c this] show ?thesis by (simp add: reads_reference_def)
  next
    case False
    obtain x c1 where m: "monotonic_now w c = (x, c1)" by (cases "monotonic_now w c")
    note k = keepsD [OF keeps_monotonic [OF w] c m]
    show ?thesis
    proof (cases x)
      case (Inl e)
      with run m k False show ?thesis by (auto simp: reading_def cbind_def reads_def not_expired_def)
    next
      case (Inr now)
      define n where "n = ck_tick c1 - 1"
      from k Inr have n: "ck_tick c \<le> n" "n < ck_tick c1" "now = T n" by (auto simp: n_def)
      show ?thesis
      proof (cases "\<exists>s. ck_sample c1 = Some s \<and> \<not> now < cs_finish s")
        case no: False
        with run m Inr False k clock_ok_forget [OF k(1)] n show ?thesis
          by (auto simp: reading_def cbind_def reads_def not_expired_def split: option.splits if_splits)
      next
        case True
        define c2 where "c2 = (case ck_wall_anchor c1 of None \<Rightarrow> c1 | Some (wall, anchor) \<Rightarrow>
          c1\<lparr>ck_tick := ck_tick c1 + 1, ck_progression := \<bar>of_int (cw_wall w (ck_tick c1) - wall) / 1000000 - (now - anchor)\<bar>\<rparr>)"
        have c2: "clock_ok A cfg c2" "ck_tick c1 \<le> ck_tick c2" using k(1) by (auto simp: c2_def clock_ok_def split: option.splits)
        obtain y c3 where y: "reading_of cfg (T n) c2 = (y, c3)" by (cases "reading_of cfg (T n) c2")
        note z = reading_of_ok [OF w c2(1) y]
        from run m Inr False True n y have eq: "(case (y, c3) of (Inl (ClockUncertain m), c2) \<Rightarrow> synchronize cfg w c2 | r \<Rightarrow> r) = (r, c')"
          by (auto simp: reading_def cbind_def c2_def Let_def)
        show ?thesis
        proof (cases "\<exists>m. y = Inl (ClockUncertain m)")
          case True
          with eq have "synchronize cfg w c3 = (r, c')" by auto
          from z have c3: "clock_ok A cfg c3" "ck_tick c3 = ck_tick c2" by simp_all
          from sync [OF c3(1) \<open>synchronize cfg w c3 = (r, c')\<close>] c3(2) c2(2) n show ?thesis
            using reads_earlier [of cfg A T "ck_tick c3" "ck_tick c'" r "ck_tick c"] by (simp add: reads_reference_def)
        next
          case False
          with eq have "r = y" "c' = c3" by (auto split: sum.splits clock_error.splits)
          with z c2 n reads_at [where r = y and cfg = cfg and A = A and T = T and n = n and i = "ck_tick c" and j = "ck_tick c'"] show ?thesis by simp
        qed
      qed
    qed
  qed
qed

text \<open>
  \<open>require_before\<close>: an accepted deadline is later than the authority's time, a deadline reported as
  expired is not.
\<close>

definition before_deadline :: "clock_config \<Rightarrow> (rat \<Rightarrow> rat) \<Rightarrow> (nat \<Rightarrow> rat) \<Rightarrow> int \<Rightarrow> nat \<Rightarrow> nat \<Rightarrow> clock_error + clock_reading \<Rightarrow> bool" where
  "before_deadline cfg A T expiry i j r \<longleftrightarrow>
     (case r of
        Inl (ClockExpired m) \<Rightarrow> \<exists>n. i \<le> n \<and> n < j \<and> of_int expiry - early_slack cfg \<le> A (T n)
      | Inl _ \<Rightarrow> True
      | Inr rd \<Rightarrow> cr_latest rd < expiry \<and> shows_time cfg A T i j rd)"

lemma shows_time_wider: "shows_time cfg A T i j rd \<Longrightarrow> i' \<le> i \<Longrightarrow> j \<le> j' \<Longrightarrow> shows_time cfg A T i' j' rd"
  unfolding shows_time_def by (meson order.trans less_le_trans)

lemma before_deadline_earlier: "before_deadline cfg A T expiry j k r \<Longrightarrow> i \<le> j \<Longrightarrow> before_deadline cfg A T expiry i k r"
proof (cases r)
  case (Inl e)
  assume "before_deadline cfg A T expiry j k r" "i \<le> j"
  with Inl show ?thesis by (cases e) (auto simp: before_deadline_def intro: order.trans)
next
  case (Inr rd)
  assume "before_deadline cfg A T expiry j k r" "i \<le> j"
  with Inr show ?thesis by (auto simp: before_deadline_def intro: shows_time_wider)
qed

lemma require_before_ok:
  assumes w: "world_ok A T cfg w"
  shows "keeps A cfg (require_before cfg w (Some expiry)) (before_deadline cfg A T expiry)"
proof -
  note rd = reading_ok [OF w]
  have "keeps A cfg (cbind (reading cfg w True) (\<lambda>r.
      if cr_latest r < expiry then give r
      else if expiry \<le> cr_earliest r then raise_clock (ClockExpired ''authority deadline has expired'')
      else raise_clock (ClockUncertain ''authority deadline overlaps time uncertainty''))) (before_deadline cfg A T expiry)"
  proof (rule keeps_bind [OF rd])
    fix r :: clock_reading
    have "of_int expiry - early_slack cfg \<le> A (T n)" if "expiry \<le> cr_earliest r" "holds_time cfg (A (T n)) r" for n
    proof -
      have "(of_int expiry :: rat) \<le> of_int (cr_earliest r)" using that(1) by simp
      with that(2) show ?thesis unfolding holds_time_def by linarith
    qed
    then show "keeps A cfg (if cr_latest r < expiry then give r
        else if expiry \<le> cr_earliest r then raise_clock (ClockExpired ''authority deadline has expired'')
        else raise_clock (ClockUncertain ''authority deadline overlaps time uncertainty''))
      (\<lambda>j k ra. \<forall>i. i \<le> j \<and> reads cfg A T i j (Inr r) \<longrightarrow> before_deadline cfg A T expiry i k ra)"
      by (auto simp: keeps_def give_def raise_clock_def before_deadline_def reads_def shows_time_def)
  qed (auto simp: before_deadline_def reads_def not_expired_def split: clock_error.splits)
  note second = this
  show ?thesis
    unfolding require_before_def option.case
  proof (rule keeps_bind [OF rd])
    fix r :: clock_reading
    show "keeps A cfg (if cr_latest r < expiry then give r else cbind (reading cfg w True) (\<lambda>r.
        if cr_latest r < expiry then give r
        else if expiry \<le> cr_earliest r then raise_clock (ClockExpired ''authority deadline has expired'')
        else raise_clock (ClockUncertain ''authority deadline overlaps time uncertainty'')))
      (\<lambda>j k ra. \<forall>i. i \<le> j \<and> reads cfg A T i j (Inr r) \<longrightarrow> before_deadline cfg A T expiry i k ra)"
    proof (cases "cr_latest r < expiry")
      case True
      then show ?thesis by (auto simp: keeps_def give_def before_deadline_def reads_def)
    next
      case False
      with second show ?thesis by (auto elim: keeps_mono intro: before_deadline_earlier)
    qed
  qed (auto simp: before_deadline_def reads_def not_expired_def split: clock_error.splits)
qed

section \<open>Any history of calls\<close>

datatype clock_request = Monotonic | Invalidate | Synchronize | Reading bool | Observation | Admission | Require "int option" | Remaining "int option"
  | Fresh int "int option" "rat option"

definition after_call :: "clock_config \<Rightarrow> clock_world \<Rightarrow> clock_request \<Rightarrow> clock \<Rightarrow> clock" where
  "after_call cfg w q c =
     (case q of
        Monotonic \<Rightarrow> snd (monotonic_now w c)
      | Invalidate \<Rightarrow> snd (invalidate w c)
      | Synchronize \<Rightarrow> snd (synchronize cfg w c)
      | Reading refresh \<Rightarrow> snd (reading cfg w refresh c)
      | Observation \<Rightarrow> snd (observation_time cfg w c)
      | Admission \<Rightarrow> snd (admission_time cfg w c)
      | Require d \<Rightarrow> snd (require_before cfg w d c)
      | Remaining d \<Rightarrow> snd (remaining cfg w d c)
      | Fresh i e l \<Rightarrow> snd (fresh cfg w i e l c))"

lemma keeps_bind_any:
  assumes "keeps A cfg m Q" "\<And>x. keeps A cfg (f x) (\<lambda>_ _ _. True)"
  shows "keeps A cfg (cbind m f) (\<lambda>_ _ _. True)"
  by (rule keeps_bind [OF assms(1)]) (use assms(2) in auto)

lemma keeps_any: "keeps A cfg m Q \<Longrightarrow> keeps A cfg m (\<lambda>_ _ _. True)"
  by (auto elim: keeps_mono)

lemma keeps_snd: "keeps A cfg m Q \<Longrightarrow> clock_ok A cfg c \<Longrightarrow> clock_ok A cfg (snd (m c))"
  by (cases "m c") (auto dest: keepsD(1))

lemma keeps_else_false: "keeps A cfg m (\<lambda>_ _ _. True) \<Longrightarrow> keeps A cfg (else_false m) (\<lambda>_ _ _. True)"
  by (fastforce simp: keeps_def else_false_def split: prod.splits sum.splits)

lemma after_call_ok:
  assumes w: "world_ok A T cfg w" and c: "clock_ok A cfg c"
  shows "clock_ok A cfg (after_call cfg w q c)"
proof -
  note any = keeps_any [OF keeps_give] keeps_any [OF reading_ok [OF w]] keeps_any [OF synchronize_ok [OF w]]
    keeps_any [OF keeps_monotonic [OF w]] keeps_any [OF require_before_ok [OF w]]
  have req: "keeps A cfg (require_before cfg w d) (\<lambda>_ _ _. True)" for d
    by (cases d) (use any in \<open>auto simp: require_before_def [of _ _ None]\<close>)
  have inv: "keeps A cfg (invalidate w) (\<lambda>_ _ _. True)" by (auto simp: keeps_def invalidate_def clock_ok_def)
  have obs: "keeps A cfg (observation_time cfg w) (\<lambda>_ _ _. True)" and adm: "keeps A cfg (admission_time cfg w) (\<lambda>_ _ _. True)"
    unfolding observation_time_def admission_time_def by (rule keeps_bind_any any)+
  have rem: "keeps A cfg (remaining cfg w d) (\<lambda>_ _ _. True)" for d
    unfolding remaining_def by (cases d) (auto intro: keeps_bind_any req any)
  have fr: "keeps A cfg (fresh cfg w i e l) (\<lambda>_ _ _. True)" for i e l
    unfolding fresh_def by (cases e) (auto intro: keeps_else_false keeps_bind_any req any)
  note kept = any(2-4) req inv obs adm rem fr
  show ?thesis by (cases q) (simp_all add: after_call_def kept [THEN keeps_snd, OF c])
qed

inductive clock_reachable :: "clock_config \<Rightarrow> clock_world \<Rightarrow> clock \<Rightarrow> bool" for cfg w where
  opened: "new_clock cfg w tick = Inr c \<Longrightarrow> clock_reachable cfg w c"
| called: "clock_reachable cfg w c \<Longrightarrow> clock_reachable cfg w (after_call cfg w q c)"

lemma clock_reachable_ok:
  assumes "clock_reachable cfg w c" "world_ok A T cfg w"
  shows "clock_ok A cfg c"
  using assms
proof induction
  case (opened tick c)
  then show ?case by (auto simp: new_clock_def clock_ok_def split: if_splits)
qed (rule after_call_ok)

text \<open>
  C9. The estimate never misleads about the authority's time by more than a slack known from the configuration,
  after any history of calls, also failed ones. At a moment of every call of \<open>reading\<close> that returns, the authority's
  time is in the returned interval, at most \<open>early_slack\<close> before its begin and at most \<open>late_slack\<close> after its end. So,
  when \<open>require_before\<close> accepts a deadline, the authority's time at a moment of the call was before the deadline plus the late slack;
  when it reports the deadline as expired, the time was not before the deadline less the early slack. \<open>observation_time\<close> is
  exactly the authority's time at a moment of the call, cut to microseconds, and \<open>admission_time\<close> is later than it by no more than the early slack.
  The monotonic clock and the authority drift apart at most as configured. The slack is not zero at the defaults of the code
  (\<open>round_trip_drift_uncounted\<close> below): the drift during the round trip is not counted, which makes 201.5 microseconds late and
  half a microsecond early; it is none when the resolution covers the roundings and that drift.
\<close>

theorem deadline_sound:
  assumes w: "world_ok A T cfg w" and c: "clock_reachable cfg w c"
  shows "(reading cfg w refresh c = (Inr rd, c1) \<longrightarrow>
      (\<exists>n. ck_tick c \<le> n \<and> n < ck_tick c1 \<and> of_int (cr_earliest rd) - early_slack cfg \<le> A (T n) \<and> A (T n) \<le> of_int (cr_latest rd) + late_slack cfg)) \<and>
    (require_before cfg w (Some expiry) c = (Inr rd, c1) \<longrightarrow> (\<exists>n. ck_tick c \<le> n \<and> n < ck_tick c1 \<and> A (T n) < of_int expiry + late_slack cfg)) \<and>
    (require_before cfg w (Some expiry) c = (Inl (ClockExpired m), c1) \<longrightarrow> (\<exists>n. ck_tick c \<le> n \<and> n < ck_tick c1 \<and> of_int expiry - early_slack cfg \<le> A (T n))) \<and>
    (observation_time cfg w c = (Inr t, c1) \<longrightarrow> (\<exists>n. ck_tick c \<le> n \<and> n < ck_tick c1 \<and> t = \<lfloor>A (T n)\<rfloor>)) \<and>
    (admission_time cfg w c = (Inr t, c1) \<longrightarrow> (\<exists>n. ck_tick c \<le> n \<and> n < ck_tick c1 \<and> of_int t - early_slack cfg \<le> A (T n)))"
proof -
  have ok: "clock_ok A cfg c" by (rule clock_reachable_ok [OF c w])
  note req = keepsD(3) [OF require_before_ok [OF w] ok]
  have contained: "\<exists>n. ck_tick c \<le> n \<and> n < ck_tick c1 \<and> holds_time cfg (A (T n)) rd" if "reading cfg w refresh c = (Inr rd, c1)" for rd refresh
    using keepsD(3) [OF reading_ok [OF w] ok that] by (simp add: reads_def shows_time_def)
  have 1: "\<exists>n. ck_tick c \<le> n \<and> n < ck_tick c1 \<and> A (T n) < of_int expiry + late_slack cfg" if "require_before cfg w (Some expiry) c = (Inr rd, c1)"
  proof -
    from req [OF that] obtain n where n: "ck_tick c \<le> n" "n < ck_tick c1" "holds_time cfg (A (T n)) rd" and "cr_latest rd < expiry"
      by (auto simp: before_deadline_def shows_time_def)
    then have "(of_int (cr_latest rd) :: rat) < of_int expiry" by simp
    with n(3) have "A (T n) < of_int expiry + late_slack cfg" unfolding holds_time_def by linarith
    with n show ?thesis by blast
  qed
  have 2: "\<exists>n. ck_tick c \<le> n \<and> n < ck_tick c1 \<and> of_int expiry - early_slack cfg \<le> A (T n)" if "require_before cfg w (Some expiry) c = (Inl (ClockExpired m), c1)"
    using req [OF that] by (simp add: before_deadline_def)
  have 3: "\<exists>n. ck_tick c \<le> n \<and> n < ck_tick c1 \<and> t = \<lfloor>A (T n)\<rfloor>" if run: "observation_time cfg w c = (Inr t, c1)"
  proof -
    from run obtain rd where rd: "synchronize cfg w c = (Inr rd, c1)" "t = cr_canonical rd - micros (cr_rtt rd / 2)"
      by (auto simp: observation_time_def cbind_def give_def split: prod.splits sum.splits)
    from keepsD(3) [OF synchronize_ok [OF w] ok rd(1)] rd(2) show ?thesis by (auto simp: reads_reference_def)
  qed
  have 4: "\<exists>n. ck_tick c \<le> n \<and> n < ck_tick c1 \<and> of_int t - early_slack cfg \<le> A (T n)" if run: "admission_time cfg w c = (Inr t, c1)"
  proof -
    from run obtain rd where rd: "reading cfg w False c = (Inr rd, c1)" "t = cr_earliest rd"
      by (auto simp: admission_time_def cbind_def give_def split: prod.splits sum.splits)
    from contained [OF rd(1)] rd(2) show ?thesis by (auto simp: holds_time_def)
  qed
  from contained [of refresh rd] 1 2 3 4 show ?thesis unfolding holds_time_def by blast
qed

text \<open>The configuration the code has by default but for drift and resolution, and worlds with a given time of each question.\<close>

definition config_with :: "rat \<Rightarrow> rat \<Rightarrow> clock_config" where
  "config_with drift resolution = \<lparr>cc_reference_id = ''local-authority'', cc_max_age = 30, cc_max_rtt = 2, cc_max_uncertainty = 1,
     cc_drift_ppm = drift, cc_resolution = resolution\<rparr>"

definition timed_world :: "(nat \<Rightarrow> rat) \<Rightarrow> rat \<Rightarrow> clock_world" where
  "timed_world T drift = \<lparr>cw_monotonic = (\<lambda>n. Some (T n)), cw_wall = (\<lambda>n. 0), cw_reference = (\<lambda>n. Some \<lfloor>(1000000 + drift) * T n\<rfloor>),
     cw_process = (\<lambda>_. 7), cw_uuid = (\<lambda>_. ''u'')\<rparr>"

definition clock_1 :: clock where
  "clock_1 = \<lparr>ck_tick = 2, ck_clock_id = ''u'', ck_process_id = 7, ck_sample = None, ck_sequence = 0, ck_wall_anchor = None,
     ck_last_monotonic = None, ck_progression = 0\<rparr>"

lemmas clock_eval = require_before_def reading_def synchronize_def take_sample_def reading_of_def monotonic_now_def cbind_def ask_def give_def
  config_with_def timed_world_def clock_1_def Let_def

lemma timed_world_ok:
  assumes "0 \<le> drift" "\<And>i j. i \<le> j \<Longrightarrow> T i \<le> T j"
  shows "world_ok (\<lambda>t. (1000000 + drift) * t) T (config_with drift resolution) (timed_world T drift)"
proof -
  have "(1000000 + drift) * t - (1000000 + drift) * s - 1000000 * (t - s) = drift * (t - s)" for s t :: rat
    by (simp add: algebra_simps)
  with assms show ?thesis by (simp add: world_ok_def config_with_def timed_world_def)
qed

lemma clock_1_reachable: "0 \<le> drift \<Longrightarrow> 0 \<le> resolution \<Longrightarrow> clock_reachable (config_with drift resolution) (timed_world T drift) clock_1"
  by (rule clock_reachable.opened [of _ _ 0]) (simp add: new_clock_def config_with_def timed_world_def clock_1_def)

lemma clock_1_accepts:
  "\<exists>rd c1. require_before (config_with 100 (1 / 1000000)) (timed_world (\<lambda>n. of_nat n / 10) 100) (Some 2000000) clock_1 = (Inr rd, c1)"
  by (simp add: clock_eval micros_def)

lemma default_slack: "late_slack (config_with 100 (1 / 1000000)) = 403 / 2" "early_slack (config_with 100 (1 / 1000000)) = 1 / 2"
  by (simp_all add: late_slack_def early_slack_def config_with_def)

theorem deadline_sound_witness:
  "\<exists>rd c1 n. require_before (config_with 100 (1 / 1000000)) (timed_world (\<lambda>n. of_nat n / 10) 100) (Some 2000000) clock_1 = (Inr rd, c1) \<and>
     2 \<le> n \<and> n < ck_tick c1 \<and> 1000100 * (of_nat n / 10) < 2000000 + (403 / 2 :: rat)"
proof -
  let ?cfg = "config_with 100 (1 / 1000000)" and ?T = "\<lambda>n. of_nat n / 10 :: rat"
  have w: "world_ok (\<lambda>t. 1000100 * t) ?T ?cfg (timed_world ?T 100)"
    using timed_world_ok [of 100 ?T] by (simp add: divide_right_mono)
  have c: "clock_reachable ?cfg (timed_world ?T 100) clock_1" by (rule clock_1_reachable) simp_all
  from clock_1_accepts obtain rd c1 where run: "require_before ?cfg (timed_world ?T 100) (Some 2000000) clock_1 = (Inr rd, c1)" by blast
  have "ck_tick clock_1 = 2" by (simp add: clock_1_def)
  with run deadline_sound [OF w c, where expiry = 2000000 and rd = rd and ?c1.0 = c1] show ?thesis unfolding default_slack by force
qed

text \<open>
  With the default resolution of one microsecond the drift during the round trip is not covered: a deadline is accepted
  that the authority has already passed at the last monotonic reading.
\<close>

lemma round_trip_drift_uncounted:
  "\<exists>rd c1 t. require_before (config_with 100 (1 / 1000000)) (timed_world (\<lambda>n. if n < 6 then 0 else 1) 100) (Some 1000050) clock_1 = (Inr rd, c1) \<and>
     ck_last_monotonic c1 = Some t \<and> 1000050 < (1000000 + 100) * t"
  by (simp add: clock_eval micros_def)

end
