(* ===== verification/Recovery_Models.thy ===== *)
theory Recovery_Models
  imports Command_Models
begin

text \<open>
  \<open>src/runtime/recovery_models.py\<close>: the values of the recovery boundaries, and \<open>HumanBridgeCoordinator\<close>, which the
  repository calls the executable reference of the incident state machine.

  \<open>StateConflict\<close> and \<open>BoundaryRejected\<close> are a datatype of their own, with the violated unique key and
  the \<open>BIGINT\<close> overflow of PostgreSQL and the errors of Python itself beside them. Instants are microseconds; the timezone checks are left out. A
  coordinator keeps its incidents under their tenant and identity; where the code passes the incident
  object, the model passes this key. The audit list holds the event names; the
  paths of an incident, which no operation reads again, are left out of it.
\<close>

section \<open>Values\<close>

datatype recovery_error = StateConflict string | BoundaryRejected string | UniqueViolation string | NumericValueOutOfRange | AttributeError string
  | RecoveryTypeError string | RecoveryValueError string

type_synonym 'a recovered = "recovery_error + 'a"

definition MAX_CANONICAL_BYTES :: nat where "MAX_CANONICAL_BYTES = 65536"
definition MAX_PATHS :: nat where "MAX_PATHS = 16"
definition MAX_REFS :: nat where "MAX_REFS = 16"

definition canonical_digest :: "hash_env \<Rightarrow> pyval \<Rightarrow> string recovered" where
  "canonical_digest env v =
     (let encoded = canonical_json True v in
      if MAX_CANONICAL_BYTES < length encoded then Inl (BoundaryRejected ''canonical_input_exceeds_bound'')
      else Inr (sha256_hex env encoded))"

primrec checks :: "unit recovered list \<Rightarrow> unit recovered" where
  "checks [] = Inr ()"
| "checks (c # cs) = rbind c (\<lambda>_. checks cs)"

lemma checks_Inr: "checks cs = Inr () \<longleftrightarrow> (\<forall>c \<in> set cs. c = Inr ())"
  by (induction cs) auto

text \<open>The range of a \<open>BIGINT\<close> column.\<close>

definition bigint :: "int \<Rightarrow> unit recovered" where
  "bigint n = guard (- (2 ^ 63) \<le> n \<and> n < 2 ^ 63) NumericValueOutOfRange"

definition text_within :: "nat \<Rightarrow> string \<Rightarrow> string \<Rightarrow> unit recovered" where
  "text_within maximum field value = guard
     (value \<noteq> [] \<and> length value \<le> maximum \<and> (\<forall>c \<in> set value. 32 \<le> (of_char c :: nat) \<and> (of_char c :: nat) \<noteq> 127))
     (BoundaryRejected (field @ ''_outside_bound''))"

definition digest_field :: "string \<Rightarrow> string \<Rightarrow> unit recovered" where
  "digest_field field value = guard (is_sha256 value) (BoundaryRejected (field @ ''_invalid''))"

definition EXHAUSTED_PATH_STATES :: "string list" where
  "EXHAUSTED_PATH_STATES = [''failed'', ''unavailable'', ''unsupported'', ''budget_exhausted'']"

record recovery_path =
  rp_path_id :: string
  rp_status :: string
  rp_attempt_refs :: "string list"
  rp_evidence_refs :: "string list"

definition refs_ok :: "string \<Rightarrow> string list \<Rightarrow> unit recovered" where
  "refs_ok name values = checks (guard (values \<noteq> [] \<and> length values \<le> MAX_REFS \<and> distinct values) (BoundaryRejected (name @ ''_outside_bound''))
     # map (text_within 256 name) values)"

definition recovery_path_ok :: "recovery_path \<Rightarrow> unit recovered" where
  "recovery_path_ok p = checks
     [text_within 512 ''path_id'' (rp_path_id p),
      guard (rp_status p \<in> set EXHAUSTED_PATH_STATES) (BoundaryRejected ''automatic_path_status_not_exhausted''),
      refs_ok ''attempt_refs'' (rp_attempt_refs p), refs_ok ''evidence_refs'' (rp_evidence_refs p)]"

record manual_packet =
  mn_packet_id :: string
  mn_incident_id :: string
  mn_incident_generation :: int
  mn_tenant_id :: string
  mn_message_id :: string
  mn_operation_id :: string
  mn_attempt_id :: string
  mn_dispatch_id :: string
  mn_source_scope_id :: string
  mn_target_scope_id :: string
  mn_direction :: string
  mn_expected_accepted_revision :: int
  mn_accepted_state_digest :: string
  mn_payload_digest :: string
  mn_expires_at :: int

definition manual_packet_ok :: "manual_packet \<Rightarrow> unit recovered" where
  "manual_packet_ok p = checks
     [text_within 512 ''packet_id'' (mn_packet_id p), text_within 512 ''incident_id'' (mn_incident_id p),
      text_within 512 ''tenant_id'' (mn_tenant_id p), text_within 512 ''message_id'' (mn_message_id p),
      text_within 512 ''operation_id'' (mn_operation_id p), text_within 512 ''attempt_id'' (mn_attempt_id p),
      text_within 512 ''dispatch_id'' (mn_dispatch_id p), text_within 512 ''source_scope_id'' (mn_source_scope_id p),
      text_within 512 ''target_scope_id'' (mn_target_scope_id p), text_within 512 ''direction'' (mn_direction p),
      digest_field ''accepted_state_digest'' (mn_accepted_state_digest p), digest_field ''payload_digest'' (mn_payload_digest p),
      guard (1 \<le> mn_incident_generation p \<and> 0 \<le> mn_expected_accepted_revision p) (BoundaryRejected ''manual_packet_revision_outside_bound''),
      guard (mn_direction p \<in> {''request'', ''response''}) (BoundaryRejected ''manual_packet_direction_invalid'')]"

definition utc_text :: "hash_env \<Rightarrow> int \<Rightarrow> pyval" where
  "utc_text env t = PyStr (isoformat env (DT t (Some 0)))"

definition packet_dict :: "hash_env \<Rightarrow> manual_packet \<Rightarrow> pyval" where
  "packet_dict env p = PyDict
     [(PyStr ''packet_id'', PyStr (mn_packet_id p)), (PyStr ''incident_id'', PyStr (mn_incident_id p)),
      (PyStr ''incident_generation'', PyInt (mn_incident_generation p)), (PyStr ''tenant_id'', PyStr (mn_tenant_id p)),
      (PyStr ''message_id'', PyStr (mn_message_id p)), (PyStr ''operation_id'', PyStr (mn_operation_id p)),
      (PyStr ''attempt_id'', PyStr (mn_attempt_id p)), (PyStr ''dispatch_id'', PyStr (mn_dispatch_id p)),
      (PyStr ''source_scope_id'', PyStr (mn_source_scope_id p)), (PyStr ''target_scope_id'', PyStr (mn_target_scope_id p)),
      (PyStr ''direction'', PyStr (mn_direction p)), (PyStr ''expected_accepted_revision'', PyInt (mn_expected_accepted_revision p)),
      (PyStr ''accepted_state_digest'', PyStr (mn_accepted_state_digest p)), (PyStr ''payload_digest'', PyStr (mn_payload_digest p)),
      (PyStr ''expires_at'', utc_text env (mn_expires_at p))]"

record normal_receipt =
  nc_receipt_id :: string
  nc_layer :: string
  nc_tenant_id :: string
  nc_message_id :: string
  nc_operation_id :: string
  nc_incident_id :: string
  nc_incident_generation :: int
  nc_packet_id :: string
  nc_attempt_id :: string
  nc_dispatch_id :: string
  nc_direction :: string
  nc_payload_digest :: string
  nc_evidence_digest :: string

definition normal_receipt_ok :: "normal_receipt \<Rightarrow> unit recovered" where
  "normal_receipt_ok r = checks
     [text_within 512 ''receipt_id'' (nc_receipt_id r), text_within 512 ''layer'' (nc_layer r), text_within 512 ''tenant_id'' (nc_tenant_id r),
      text_within 512 ''message_id'' (nc_message_id r), text_within 512 ''operation_id'' (nc_operation_id r),
      text_within 512 ''incident_id'' (nc_incident_id r), text_within 512 ''packet_id'' (nc_packet_id r),
      text_within 512 ''attempt_id'' (nc_attempt_id r), text_within 512 ''dispatch_id'' (nc_dispatch_id r),
      text_within 512 ''direction'' (nc_direction r),
      digest_field ''payload_digest'' (nc_payload_digest r), digest_field ''evidence_digest'' (nc_evidence_digest r),
      guard (1 \<le> nc_incident_generation r) (BoundaryRejected ''normal_receipt_generation_outside_bound''),
      guard (nc_direction r \<in> {''request'', ''response''}) (BoundaryRejected ''normal_receipt_direction_invalid'')]"

definition receipt_dict :: "normal_receipt \<Rightarrow> pyval" where
  "receipt_dict r = PyDict
     [(PyStr ''receipt_id'', PyStr (nc_receipt_id r)), (PyStr ''layer'', PyStr (nc_layer r)), (PyStr ''tenant_id'', PyStr (nc_tenant_id r)),
      (PyStr ''message_id'', PyStr (nc_message_id r)), (PyStr ''operation_id'', PyStr (nc_operation_id r)),
      (PyStr ''incident_id'', PyStr (nc_incident_id r)), (PyStr ''incident_generation'', PyInt (nc_incident_generation r)),
      (PyStr ''packet_id'', PyStr (nc_packet_id r)), (PyStr ''attempt_id'', PyStr (nc_attempt_id r)),
      (PyStr ''dispatch_id'', PyStr (nc_dispatch_id r)), (PyStr ''direction'', PyStr (nc_direction r)),
      (PyStr ''payload_digest'', PyStr (nc_payload_digest r)), (PyStr ''evidence_digest'', PyStr (nc_evidence_digest r))]"

section \<open>Incidents\<close>

datatype incident_state = Open_Incident | Human_Requested | Manual_Packet_Committed | Resolved_Automatic | Resolved_Manual | Incident_Expired | Cancelled

definition TERMINAL_INCIDENT_STATES :: "incident_state list" where
  "TERMINAL_INCIDENT_STATES = [Resolved_Automatic, Resolved_Manual, Incident_Expired, Cancelled]"

record recovery_incident =
  ri_incident_id :: string
  ri_generation :: int
  ri_tenant_id :: string
  ri_message_id :: string
  ri_operation_id :: string
  ri_source_scope_id :: string
  ri_target_scope_id :: string
  ri_accepted_revision :: int
  ri_accepted_state_digest :: string
  ri_expires_at :: int
  ri_state :: incident_state
  ri_request_id :: "string option"
  ri_packet_results :: "string \<Rightarrow> (string \<times> string) option"
  ri_packets :: "string \<Rightarrow> manual_packet option"
  ri_applied_packet_id :: "string option"
  ri_audit :: "string list"

text \<open>The arguments of \<open>open_incident\<close>, which \<open>IncidentOpenCommand\<close> of \<open>recovery.py\<close> carries with a command identity.\<close>

record incident_command =
  ic_incident_id :: string
  ic_generation :: int
  ic_tenant_id :: string
  ic_message_id :: string
  ic_operation_id :: string
  ic_source_scope_id :: string
  ic_target_scope_id :: string
  ic_accepted_revision :: int
  ic_accepted_state_digest :: string
  ic_expires_at :: int
  ic_eligible_path_ids :: "string list"
  ic_paths :: "recovery_path list"
  ic_command_id :: string

definition path_dict :: "recovery_path \<Rightarrow> pyval" where
  "path_dict p = PyDict
     [(PyStr ''path_id'', PyStr (rp_path_id p)), (PyStr ''status'', PyStr (rp_status p)),
      (PyStr ''attempt_refs'', PyTuple (map PyStr (rp_attempt_refs p))), (PyStr ''evidence_refs'', PyTuple (map PyStr (rp_evidence_refs p)))]"

definition incident_spec :: "hash_env \<Rightarrow> incident_command \<Rightarrow> (pyval \<times> pyval) list" where
  "incident_spec env c =
     [(PyStr ''incident_id'', PyStr (ic_incident_id c)), (PyStr ''generation'', PyInt (ic_generation c)),
      (PyStr ''tenant_id'', PyStr (ic_tenant_id c)), (PyStr ''message_id'', PyStr (ic_message_id c)),
      (PyStr ''operation_id'', PyStr (ic_operation_id c)), (PyStr ''source_scope_id'', PyStr (ic_source_scope_id c)),
      (PyStr ''target_scope_id'', PyStr (ic_target_scope_id c)), (PyStr ''accepted_revision'', PyInt (ic_accepted_revision c)),
      (PyStr ''accepted_state_digest'', PyStr (ic_accepted_state_digest c)), (PyStr ''expires_at'', utc_text env (ic_expires_at c)),
      (PyStr ''eligible_path_ids'', PyTuple (map PyStr (ic_eligible_path_ids c))), (PyStr ''paths'', PyList (map path_dict (ic_paths c)))]"

text \<open>The checks of \<open>open_incident\<close> that do not look at the coordinator.\<close>

definition incident_admissible :: "incident_command \<Rightarrow> int \<Rightarrow> bool \<Rightarrow> bool \<Rightarrow> unit recovered" where
  "incident_admissible c now task_valid authority_valid = checks
     ([text_within 512 ''incident_id'' (ic_incident_id c), text_within 512 ''tenant_id'' (ic_tenant_id c),
       text_within 512 ''message_id'' (ic_message_id c), text_within 512 ''operation_id'' (ic_operation_id c),
       text_within 512 ''source_scope_id'' (ic_source_scope_id c), text_within 512 ''target_scope_id'' (ic_target_scope_id c),
       guard (1 \<le> ic_generation c \<and> 0 \<le> ic_accepted_revision c) (BoundaryRejected ''incident_revision_outside_bound''),
       digest_field ''accepted_state_digest'' (ic_accepted_state_digest c),
       guard (task_valid \<and> authority_valid \<and> now < ic_expires_at c) (BoundaryRejected ''bridge_incident_requires_current_authority''),
       guard (ic_eligible_path_ids c \<noteq> [] \<and> length (ic_eligible_path_ids c) \<le> MAX_PATHS \<and> distinct (ic_eligible_path_ids c) \<and>
           length (ic_paths c) = length (ic_eligible_path_ids c) \<and> distinct (map rp_path_id (ic_paths c)) \<and>
           set (map rp_path_id (ic_paths c)) = set (ic_eligible_path_ids c))
         (BoundaryRejected ''eligible_automatic_path_census_incomplete'')] @
      map (text_within 512 ''eligible_path_id'') (ic_eligible_path_ids c) @
      [guard (\<forall>p \<in> set (ic_paths c). rp_status p \<in> set EXHAUSTED_PATH_STATES \<and> rp_attempt_refs p \<noteq> [] \<and> rp_evidence_refs p \<noteq> [])
         (BoundaryRejected ''automatic_recovery_not_proven_exhausted'')])"

definition new_incident :: "incident_command \<Rightarrow> recovery_incident" where
  "new_incident c = \<lparr>ri_incident_id = ic_incident_id c, ri_generation = ic_generation c, ri_tenant_id = ic_tenant_id c,
     ri_message_id = ic_message_id c, ri_operation_id = ic_operation_id c, ri_source_scope_id = ic_source_scope_id c,
     ri_target_scope_id = ic_target_scope_id c, ri_accepted_revision = ic_accepted_revision c,
     ri_accepted_state_digest = ic_accepted_state_digest c, ri_expires_at = ic_expires_at c, ri_state = Open_Incident, ri_request_id = None,
     ri_packet_results = Map.empty, ri_packets = Map.empty, ri_applied_packet_id = None, ri_audit = [''incident_opened'']\<rparr>"

section \<open>The coordinator\<close>

type_synonym incident_key = "string \<times> string"

record coordinator =
  co_incidents :: "incident_key \<Rightarrow> (string \<times> recovery_incident) option"
  co_request_ids :: "string \<times> string \<Rightarrow> string option"
  co_packet_ids :: "string \<times> string \<Rightarrow> string option"
  co_receipt_ids :: "string \<times> string \<Rightarrow> string option"

definition incident_at :: "coordinator \<Rightarrow> incident_key \<Rightarrow> recovery_incident option" where
  "incident_at co k = map_option snd (co_incidents co k)"

definition set_incident :: "incident_key \<Rightarrow> recovery_incident \<Rightarrow> coordinator \<Rightarrow> coordinator" where
  "set_incident k i co = co\<lparr>co_incidents := (co_incidents co)(k := map_option (\<lambda>(d, _). (d, i)) (co_incidents co k))\<rparr>"

definition ref_open_incident ::
  "hash_env \<Rightarrow> incident_command \<Rightarrow> int \<Rightarrow> bool \<Rightarrow> bool \<Rightarrow> coordinator \<Rightarrow> (recovery_incident \<times> coordinator) recovered" where
  "ref_open_incident env c now task_valid authority_valid co =
     rbind (incident_admissible c now task_valid authority_valid) (\<lambda>_.
     rbind (canonical_digest env (PyDict (incident_spec env c))) (\<lambda>digest.
     case co_incidents co (ic_tenant_id c, ic_incident_id c) of
       Some (prior, incident) \<Rightarrow>
         if prior \<noteq> digest then Inl (StateConflict ''incident_id_reused_with_different_spec'') else Inr (incident, co)
     | None \<Rightarrow> Inr (new_incident c, co\<lparr>co_incidents := (co_incidents co)((ic_tenant_id c, ic_incident_id c) \<mapsto> (digest, new_incident c))\<rparr>)))"

definition request_dict :: "string \<Rightarrow> recovery_incident \<Rightarrow> pyval" where
  "request_dict request_id i = PyDict
     [(PyStr ''request_id'', PyStr request_id), (PyStr ''incident_id'', PyStr (ri_incident_id i)),
      (PyStr ''generation'', PyInt (ri_generation i)), (PyStr ''tenant_id'', PyStr (ri_tenant_id i))]"

definition ref_request_human ::
  "hash_env \<Rightarrow> incident_key \<Rightarrow> string \<Rightarrow> int \<Rightarrow> bool \<Rightarrow> coordinator \<Rightarrow> (string \<times> coordinator) recovered" where
  "ref_request_human env k request_id now send_authorized co =
     (case incident_at co k of
        None \<Rightarrow> Inl (BoundaryRejected ''incident'')
      | Some i \<Rightarrow>
          rbind (text_within 512 ''request_id'' request_id) (\<lambda>_.
          case ri_request_id i of
            Some r \<Rightarrow> if r \<noteq> request_id then Inl (StateConflict ''human_request_identity_conflict'') else Inr (r, co)
          | None \<Rightarrow>
              if ri_state i \<noteq> Open_Incident \<or> ri_expires_at i \<le> now \<or> \<not> send_authorized
              then Inl (BoundaryRejected ''human_request_boundary_rejected'')
              else rbind (canonical_digest env (request_dict request_id i)) (\<lambda>digest.
                if co_request_ids co (ri_tenant_id i, request_id) \<notin> {None, Some digest} then Inl (StateConflict ''human_request_id_reused'')
                else Inr (request_id, set_incident k
                  (i\<lparr>ri_request_id := Some request_id, ri_state := Human_Requested, ri_audit := ri_audit i @ [''human_request_outbox_committed'']\<rparr>)
                  (co\<lparr>co_request_ids := (co_request_ids co)((ri_tenant_id i, request_id) \<mapsto> digest)\<rparr>)))))"

definition ref_reprobe_succeeded :: "incident_key \<Rightarrow> string \<Rightarrow> coordinator \<Rightarrow> (incident_state \<times> coordinator) recovered" where
  "ref_reprobe_succeeded k observation_ref co =
     (case incident_at co k of
        None \<Rightarrow> Inl (BoundaryRejected ''incident'')
      | Some i \<Rightarrow>
          rbind (text_within 512 ''observation_ref'' observation_ref) (\<lambda>_.
          if ri_state i \<in> set TERMINAL_INCIDENT_STATES then Inr (ri_state i, co)
          else if ri_state i = Manual_Packet_Committed then Inl (StateConflict ''manual_packet_already_committed'')
          else Inr (Resolved_Automatic, set_incident k
            (i\<lparr>ri_state := Resolved_Automatic, ri_audit := ri_audit i @ [''automatic_path_restored'']\<rparr>) co)))"

definition packet_identity_ok :: "manual_packet \<Rightarrow> recovery_incident \<Rightarrow> bool" where
  "packet_identity_ok p i \<longleftrightarrow> mn_message_id p = ri_message_id i \<and> mn_operation_id p = ri_operation_id i \<and>
     mn_source_scope_id p = ri_source_scope_id i \<and> mn_target_scope_id p = ri_target_scope_id i \<and>
     mn_expected_accepted_revision p = ri_accepted_revision i \<and> mn_accepted_state_digest p = ri_accepted_state_digest i"

definition packet_current :: "manual_packet \<Rightarrow> recovery_incident \<Rightarrow> int \<Rightarrow> bool \<Rightarrow> bool \<Rightarrow> int \<Rightarrow> string \<Rightarrow> bool" where
  "packet_current p i now authority_valid task_valid revision digest \<longleftrightarrow> mn_incident_generation p = ri_generation i \<and> authority_valid \<and> task_valid \<and>
     now < ri_expires_at i \<and> now < mn_expires_at p \<and> revision = ri_accepted_revision i \<and> digest = ri_accepted_state_digest i \<and>
     ri_state i = Human_Requested"

definition with_packet :: "manual_packet \<Rightarrow> string \<Rightarrow> bool \<Rightarrow> recovery_incident \<Rightarrow> recovery_incident" where
  "with_packet p digest current i =
     (let result = (if current then ''committed'' else ''fenced_late'');
          j = i\<lparr>ri_packet_results := (ri_packet_results i)(mn_packet_id p \<mapsto> (digest, result)),
                ri_packets := (ri_packets i)(mn_packet_id p \<mapsto> p), ri_audit := ri_audit i @ [''manual_packet_'' @ result]\<rparr>
      in if current then j\<lparr>ri_applied_packet_id := Some (mn_packet_id p), ri_state := Manual_Packet_Committed\<rparr> else j)"

definition ref_submit_manual ::
  "hash_env \<Rightarrow> incident_key \<Rightarrow> manual_packet \<Rightarrow> int \<Rightarrow> bool \<Rightarrow> bool \<Rightarrow> bool \<Rightarrow> int \<Rightarrow> string \<Rightarrow> coordinator \<Rightarrow> (string \<times> coordinator) recovered" where
  "ref_submit_manual env k p now authenticated authority_valid task_valid revision digest co =
     (case incident_at co k of
        None \<Rightarrow> Inl (BoundaryRejected ''incident'')
      | Some i \<Rightarrow>
          if revision < 0 then Inl (BoundaryRejected ''current accepted revision outside bound'')
          else rbind (digest_field ''current_accepted_state_digest'' digest) (\<lambda>_.
          if \<not> authenticated then Inl (BoundaryRejected ''manual_packet_subject_not_authenticated'')
          else rbind (canonical_digest env (packet_dict env p)) (\<lambda>encoded.
          if mn_tenant_id p \<noteq> ri_tenant_id i \<or> mn_incident_id p \<noteq> ri_incident_id i then Inl (BoundaryRejected ''manual_packet_cross_incident'')
          else
            let pk = (ri_tenant_id i, mn_packet_id p); seen = co_packet_ids co pk; prior = ri_packet_results i (mn_packet_id p) in
            if seen \<noteq> None \<or> prior \<noteq> None
            then (case prior of
                    Some (d, result) \<Rightarrow>
                      if seen \<noteq> Some encoded \<or> d \<noteq> encoded then Inl (StateConflict ''manual_packet_id_reused_with_different_payload'')
                      else Inr (result, co)
                  | None \<Rightarrow> Inl (StateConflict ''manual_packet_id_reused_with_different_payload''))
            else if \<not> packet_identity_ok p i then Inl (BoundaryRejected ''manual_packet_identity_mismatch'')
            else
              let current = packet_current p i now authority_valid task_valid revision digest in
              Inr (if current then ''committed'' else ''fenced_late'',
                   set_incident k (with_packet p encoded current i) (co\<lparr>co_packet_ids := (co_packet_ids co)(pk \<mapsto> encoded)\<rparr>)))))"

definition expected_layer :: "string \<Rightarrow> string" where
  "expected_layer direction = (if direction = ''request'' then ''target_inbox_committed'' else ''response_received'')"

definition confirms :: "normal_receipt \<Rightarrow> manual_packet \<Rightarrow> recovery_incident \<Rightarrow> bool" where
  "confirms r p i \<longleftrightarrow> nc_layer r = expected_layer (mn_direction p) \<and> nc_tenant_id r = ri_tenant_id i \<and> nc_message_id r = ri_message_id i \<and>
     nc_operation_id r = ri_operation_id i \<and> nc_incident_id r = ri_incident_id i \<and> nc_incident_generation r = ri_generation i \<and>
     nc_packet_id r = mn_packet_id p \<and> nc_attempt_id r = mn_attempt_id p \<and> nc_dispatch_id r = mn_dispatch_id p \<and>
     nc_direction r = mn_direction p \<and> nc_payload_digest r = mn_payload_digest p"

definition ref_confirm_manual ::
  "hash_env \<Rightarrow> incident_key \<Rightarrow> string \<Rightarrow> normal_receipt \<Rightarrow> coordinator \<Rightarrow> (incident_state \<times> coordinator) recovered" where
  "ref_confirm_manual env k packet_id r co =
     (case incident_at co k of
        None \<Rightarrow> Inl (BoundaryRejected ''incident'')
      | Some i \<Rightarrow>
          (case ri_packets i packet_id of
             None \<Rightarrow> Inl (BoundaryRejected ''manual_delivery_confirmation_mismatch'')
           | Some p \<Rightarrow>
               rbind (canonical_digest env (receipt_dict r)) (\<lambda>digest.
               let prior = co_receipt_ids co (ri_tenant_id i, nc_receipt_id r) in
               if ri_state i = Resolved_Manual
               then (if prior \<noteq> Some digest then Inl (StateConflict ''normal_receipt_replay_conflict'') else Inr (ri_state i, co))
               else if ri_state i \<noteq> Manual_Packet_Committed \<or> ri_applied_packet_id i \<noteq> Some packet_id \<or> \<not> confirms r p i
               then Inl (BoundaryRejected ''manual_delivery_confirmation_mismatch'')
               else if prior \<notin> {None, Some digest} then Inl (StateConflict ''normal_receipt_id_reused_with_different_payload'')
               else Inr (Resolved_Manual, set_incident k (i\<lparr>ri_state := Resolved_Manual, ri_audit := ri_audit i @ [''manual_path_resolved'']\<rparr>)
                 (co\<lparr>co_receipt_ids := (co_receipt_ids co)((ri_tenant_id i, nc_receipt_id r) \<mapsto> digest)\<rparr>)))))"

definition ref_expire :: "incident_key \<Rightarrow> int \<Rightarrow> coordinator \<Rightarrow> (incident_state \<times> coordinator) recovered" where
  "ref_expire k now co =
     (case incident_at co k of
        None \<Rightarrow> Inl (BoundaryRejected ''incident'')
      | Some i \<Rightarrow>
          if ri_state i \<in> set TERMINAL_INCIDENT_STATES then Inr (ri_state i, co)
          else if now < ri_expires_at i then Inl (BoundaryRejected ''incident_not_expired'')
          else Inr (Incident_Expired, set_incident k (i\<lparr>ri_state := Incident_Expired, ri_audit := ri_audit i @ [''incident_expired'']\<rparr>) co))"

section \<open>What a returned result says\<close>

lemma guard_Inr [simp]: "guard b e = Inr u \<longleftrightarrow> b"
  by (simp add: guard_def)

lemma if_Inl_Inr: "(if b then Inl e else x) = Inr y \<longleftrightarrow> \<not> b \<and> x = Inr y"
  by simp

lemma case_None_Inr: "(case v of None \<Rightarrow> Inl e | Some x \<Rightarrow> f x) = Inr y \<longleftrightarrow> (\<exists>x. v = Some x \<and> f x = Inr y)"
  by (cases v) auto

end
