(* ===== verification/Human_Bridge.thy ===== *)
theory Human_Bridge
  imports Recovery_Models Delivery_Store
begin

text \<open>
  \<open>PostgresHumanBridgeAuthority\<close> of \<open>src/runtime/recovery.py\<close>: the incident authority over PostgreSQL.

  Its tables stand beside the delivery tables of \<open>Delivery_Store\<close>. Each method is one transaction: an
  exception leaves the tables as they were, so a method returns either an error or the new tables.
  The unique keys of the schema are checked where a row is inserted; the foreign keys hold by the
  lookups that come before, and the columns \<open>created_at\<close> and \<open>updated_at\<close> are left out.

  \<open>snapshot\<close>, the callback the service passes in, is the argument \<open>snap\<close>: what it answers for an action
  in this call. \<open>clk n\<close> is the n-th reading of \<open>clock_timestamp()\<close> in the call.
\<close>

section \<open>Rows\<close>

record bridge_snapshot =
  bs_authenticated :: bool
  bs_current_authority_valid :: bool
  bs_task_valid :: bool
  bs_send_authorized :: bool
  bs_current_accepted_revision :: int
  bs_current_accepted_state_digest :: string
  bs_deadline :: "int option"
  bs_principal_ref :: string
  bs_grant_ref :: string
  bs_policy_version :: string

definition bridge_snapshot_ok :: "bridge_snapshot \<Rightarrow> unit recovered" where
  "bridge_snapshot_ok a = checks
     [text_within 512 ''principal_ref'' (bs_principal_ref a), text_within 512 ''grant_ref'' (bs_grant_ref a),
      text_within 512 ''policy_version'' (bs_policy_version a),
      digest_field ''current_accepted_state_digest'' (bs_current_accepted_state_digest a),
      guard (0 \<le> bs_current_accepted_revision a) (BoundaryRejected ''current accepted revision outside bound'')]"

definition snapshot :: "(string \<Rightarrow> bridge_snapshot) \<Rightarrow> string \<Rightarrow> bridge_snapshot recovered" where
  "snapshot snap name = rbind (bridge_snapshot_ok (snap name)) (\<lambda>_. Inr (snap name))"

text \<open>The constructors of the paths run before the constructor of the command.\<close>

definition incident_command_ok :: "incident_command \<Rightarrow> unit recovered" where
  "incident_command_ok c = checks (map recovery_path_ok (ic_paths c) @
     [text_within 512 ''incident_id'' (ic_incident_id c), text_within 512 ''tenant_id'' (ic_tenant_id c),
      text_within 512 ''message_id'' (ic_message_id c), text_within 512 ''operation_id'' (ic_operation_id c),
      text_within 512 ''source_scope_id'' (ic_source_scope_id c), text_within 512 ''target_scope_id'' (ic_target_scope_id c),
      text_within 512 ''command_id'' (ic_command_id c),
      guard (1 \<le> ic_generation c \<and> 0 \<le> ic_accepted_revision c) (BoundaryRejected ''incident command revision outside bound''),
      digest_field ''accepted_state_digest'' (ic_accepted_state_digest c)])"

text \<open>\<open>asdict\<close> keeps the tuple of paths where the reference builds a list; both are written as one JSON array.\<close>

definition command_canonical :: "hash_env \<Rightarrow> incident_command \<Rightarrow> pyval" where
  "command_canonical env c = PyDict (incident_spec env c @ [(PyStr ''command_id'', PyStr (ic_command_id c))])"

record incident_row =
  iw_tenant_id :: string
  iw_incident_id :: string
  iw_generation :: int
  iw_message_id :: string
  iw_operation_id :: string
  iw_source_scope_id :: string
  iw_target_scope_id :: string
  iw_accepted_revision :: int
  iw_accepted_state_digest :: string
  iw_expires_at :: int
  iw_state :: incident_state
  iw_canonical_digest :: string
  iw_applied_packet_id :: "string option"

record path_row =
  pw_tenant_id :: string
  pw_incident_id :: string
  pw_path :: recovery_path
  pw_canonical_digest :: string

record request_row =
  hr_tenant_id :: string
  hr_request_id :: string
  hr_incident_id :: string
  hr_generation :: int
  hr_canonical_digest :: string
  hr_outbox_message_id :: string

record reprobe_row =
  rr_tenant_id :: string
  rr_reprobe_id :: string
  rr_incident_id :: string
  rr_observation_ref :: string
  rr_succeeded :: bool
  rr_disposition :: string
  rr_canonical_digest :: string

record packet_row =
  hp_packet :: manual_packet
  hp_canonical_digest :: string
  hp_disposition :: string
  hp_normal_outbox_message_id :: "string option"

record normal_receipt_row =
  nw_receipt :: normal_receipt
  nw_canonical_digest :: string

record audit_row =
  au_tenant_id :: string
  au_incident_id :: string
  au_event_type :: string
  au_command_id :: string
  au_principal_ref :: string
  au_grant_ref :: string
  au_policy_version :: string
  au_evidence :: pyval

record bridge_db =
  bd_delivery :: delivery_db
  recovery_incidents :: "incident_row list"
  recovery_path_attempts :: "path_row list"
  human_bridge_requests :: "request_row list"
  recovery_reprobes :: "reprobe_row list"
  human_bridge_packets :: "packet_row list"
  human_bridge_normal_receipts :: "normal_receipt_row list"
  recovery_audit_events :: "audit_row list"

definition incident_key :: "incident_row \<Rightarrow> incident_key" where
  "incident_key i = (iw_tenant_id i, iw_incident_id i)"

definition request_incident :: "request_row \<Rightarrow> incident_key" where
  "request_incident r = (hr_tenant_id r, hr_incident_id r)"

definition packet_incident :: "packet_row \<Rightarrow> incident_key" where
  "packet_incident p = (mn_tenant_id (hp_packet p), mn_incident_id (hp_packet p))"

definition packet_key :: "packet_row \<Rightarrow> string \<times> string" where
  "packet_key p = (mn_tenant_id (hp_packet p), mn_packet_id (hp_packet p))"

definition audit_incident :: "audit_row \<Rightarrow> incident_key" where
  "audit_incident a = (au_tenant_id a, au_incident_id a)"

definition lookup_incident :: "incident_key \<Rightarrow> bridge_db \<Rightarrow> incident_row option" where
  "lookup_incident k db = find (\<lambda>i. incident_key i = k) (recovery_incidents db)"

definition lookup_packet :: "string \<times> string \<Rightarrow> bridge_db \<Rightarrow> packet_row option" where
  "lookup_packet k db = find (\<lambda>p. packet_key p = k) (human_bridge_packets db)"

definition ACTIVE_INCIDENT_STATES :: "incident_state list" where
  "ACTIVE_INCIDENT_STATES = [Open_Incident, Human_Requested, Manual_Packet_Committed]"

text \<open>An insertion with one unique key.\<close>

definition insert_unique :: "string \<Rightarrow> ('r \<Rightarrow> 'k) \<Rightarrow> 'r \<Rightarrow> 'r list \<Rightarrow> 'r list recovered" where
  "insert_unique name key row rows =
     (if key row \<in> key ` set rows then Inl (UniqueViolation name) else Inr (rows @ [row]))"

definition set_incident_state :: "incident_key \<Rightarrow> incident_state \<Rightarrow> bridge_db \<Rightarrow> bridge_db" where
  "set_incident_state k s db =
     db\<lparr>recovery_incidents := update_where (\<lambda>i. incident_key i = k) (iw_state_update (\<lambda>_. s)) (recovery_incidents db)\<rparr>"

definition audit :: "incident_key \<Rightarrow> string \<Rightarrow> string \<Rightarrow> bridge_snapshot \<Rightarrow> pyval \<Rightarrow> bridge_db \<Rightarrow> bridge_db" where
  "audit k event cmd a evidence db = db\<lparr>recovery_audit_events := recovery_audit_events db @
     [\<lparr>au_tenant_id = fst k, au_incident_id = snd k, au_event_type = event, au_command_id = cmd,
       au_principal_ref = bs_principal_ref a, au_grant_ref = bs_grant_ref a, au_policy_version = bs_policy_version a,
       au_evidence = evidence\<rparr>]\<rparr>"

definition insert_outbox :: "string \<Rightarrow> string \<Rightarrow> string \<Rightarrow> string \<Rightarrow> pyval \<Rightarrow> bridge_db \<Rightarrow> bridge_db recovered" where
  "insert_outbox tenant message oper topic body db =
     rbind (insert_unique ''outbox'' (\<lambda>o'. (ob_tenant_id o', ob_message_id o'))
       \<lparr>ob_tenant_id = tenant, ob_message_id = message, ob_operation_id = oper, ob_topic = topic,
        ob_payload = body, ob_delivered_at = None\<rparr> (outbox (dcore (bd_delivery db)))) (\<lambda>rows.
     Inr (db\<lparr>bd_delivery := (bd_delivery db)\<lparr>dcore := (dcore (bd_delivery db))\<lparr>outbox := rows\<rparr>\<rparr>\<rparr>))"

section \<open>open\_incident\<close>

definition empty_coordinator :: coordinator where
  "empty_coordinator = \<lparr>co_incidents = Map.empty, co_request_ids = Map.empty, co_packet_ids = Map.empty, co_receipt_ids = Map.empty\<rparr>"

definition snapshot_current :: "bridge_snapshot \<Rightarrow> int \<Rightarrow> string \<Rightarrow> bool" where
  "snapshot_current a revision digest \<longleftrightarrow> bs_authenticated a \<and> bs_current_authority_valid a \<and> bs_task_valid a \<and>
     bs_current_accepted_revision a = revision \<and> bs_current_accepted_state_digest a = digest"

definition insert_incident :: "incident_row \<Rightarrow> bridge_db \<Rightarrow> bridge_db recovered" where
  "insert_incident i db =
     rbind (checks [bigint (iw_generation i), bigint (iw_accepted_revision i)]) (\<lambda>_.
     rbind (insert_unique ''recovery_incidents_message_generation'' (\<lambda>j. (iw_tenant_id j, iw_message_id j, iw_generation j)) i (recovery_incidents db)) (\<lambda>_.
     rbind (insert_unique ''recovery_incidents_one_active'' (\<lambda>j. (iw_tenant_id j, iw_message_id j)) i
       (filter (\<lambda>j. iw_state j \<in> set ACTIVE_INCIDENT_STATES) (recovery_incidents db))) (\<lambda>_.
     rbind (insert_unique ''recovery_incidents'' incident_key i (recovery_incidents db)) (\<lambda>rows.
     Inr (db\<lparr>recovery_incidents := rows\<rparr>)))))"

primrec insert_paths :: "hash_env \<Rightarrow> incident_key \<Rightarrow> recovery_path list \<Rightarrow> bridge_db \<Rightarrow> bridge_db recovered" where
  "insert_paths env k [] db = Inr db"
| "insert_paths env k (p # ps) db =
     rbind (canonical_digest env (path_dict p)) (\<lambda>digest.
     rbind (insert_unique ''recovery_path_attempts'' (\<lambda>w. (pw_tenant_id w, pw_incident_id w, rp_path_id (pw_path w)))
       \<lparr>pw_tenant_id = fst k, pw_incident_id = snd k, pw_path = p, pw_canonical_digest = digest\<rparr> (recovery_path_attempts db)) (\<lambda>rows.
     insert_paths env k ps (db\<lparr>recovery_path_attempts := rows\<rparr>)))"

definition open_row :: "incident_command \<Rightarrow> string \<Rightarrow> incident_row" where
  "open_row c digest = \<lparr>iw_tenant_id = ic_tenant_id c, iw_incident_id = ic_incident_id c, iw_generation = ic_generation c,
     iw_message_id = ic_message_id c, iw_operation_id = ic_operation_id c, iw_source_scope_id = ic_source_scope_id c,
     iw_target_scope_id = ic_target_scope_id c, iw_accepted_revision = ic_accepted_revision c,
     iw_accepted_state_digest = ic_accepted_state_digest c, iw_expires_at = ic_expires_at c, iw_state = Open_Incident,
     iw_canonical_digest = digest, iw_applied_packet_id = None\<rparr>"

definition open_incident ::
  "hash_env \<Rightarrow> (string \<Rightarrow> bridge_snapshot) \<Rightarrow> (nat \<Rightarrow> int) \<Rightarrow> incident_command \<Rightarrow> bridge_db \<Rightarrow> (string \<times> bridge_db) recovered" where
  "open_incident env snap clk c db =
     rbind (incident_command_ok c) (\<lambda>_.
     rbind (canonical_digest env (command_canonical env c)) (\<lambda>digest.
     rbind (snapshot snap ''incident.open'') (\<lambda>a.
     if expired (bs_deadline a) (clk 0) then Inl (BoundaryRejected ''incident open authority deadline expired'')
     else rbind (ref_open_incident env c (clk 0) (bs_task_valid a) (bs_authenticated a \<and> bs_current_authority_valid a) empty_coordinator) (\<lambda>_.
     if bs_current_accepted_revision a \<noteq> ic_accepted_revision c \<or> bs_current_accepted_state_digest a \<noteq> ic_accepted_state_digest c
     then Inl (BoundaryRejected ''incident accepted state changed'')
     else
       let k = (ic_tenant_id c, ic_incident_id c); prior = lookup_incident k db in
       rbind (snapshot snap ''incident.open.final'') (\<lambda>a.
       if \<not> (snapshot_current a (ic_accepted_revision c) (ic_accepted_state_digest c) \<and>
             \<not> expired (earliest [Some (ic_expires_at c), bs_deadline a]) (clk 1))
       then Inl (BoundaryRejected ''incident open final authority changed'')
       else case prior of
         Some i \<Rightarrow> if iw_canonical_digest i \<noteq> digest then Inl (StateConflict ''incident identity conflict'') else Inr (''open'', db)
       | None \<Rightarrow>
           rbind (insert_incident (open_row c digest) db) (\<lambda>db.
           rbind (insert_paths env k (ic_paths c) db) (\<lambda>db.
           Inr (''open'', audit k ''incident_opened'' (ic_command_id c) a
             (PyDict [(PyStr ''canonical_digest'', PyStr digest), (PyStr ''path_ids'', PyList (map PyStr (ic_eligible_path_ids c)))]) db))))))))"

section \<open>request\_human\<close>

definition texts_within :: "(string \<times> string) list \<Rightarrow> unit recovered" where
  "texts_within named = checks (map (\<lambda>(name, value). text_within 512 name value) named)"

definition human_request_dict :: "incident_key \<Rightarrow> string \<Rightarrow> string \<Rightarrow> pyval" where
  "human_request_dict k request_id cmd = PyDict
     [(PyStr ''tenant_id'', PyStr (fst k)), (PyStr ''incident_id'', PyStr (snd k)),
      (PyStr ''request_id'', PyStr request_id), (PyStr ''command_id'', PyStr cmd)]"

definition request_human ::
  "hash_env \<Rightarrow> (string \<Rightarrow> bridge_snapshot) \<Rightarrow> (nat \<Rightarrow> int) \<Rightarrow> incident_key \<Rightarrow> string \<Rightarrow> string \<Rightarrow> bridge_db \<Rightarrow> (string \<times> bridge_db) recovered" where
  "request_human env snap clk k request_id cmd db =
     rbind (texts_within [(''tenant_id'', fst k), (''incident_id'', snd k), (''request_id'', request_id), (''command_id'', cmd)]) (\<lambda>_.
     rbind (canonical_digest env (human_request_dict k request_id cmd)) (\<lambda>digest.
     rbind (snapshot snap ''human.request'') (\<lambda>a.
     if \<not> bs_authenticated a then Inl (BoundaryRejected ''human request is not authorized'')
     else case lookup_incident k db of
       None \<Rightarrow> Inl (BoundaryRejected ''incident is not open'')
     | Some i \<Rightarrow>
         rbind (snapshot snap ''human.request.final'') (\<lambda>a.
         if \<not> (snapshot_current a (iw_accepted_revision i) (iw_accepted_state_digest i) \<and> bs_send_authorized a \<and>
               \<not> expired (earliest [Some (iw_expires_at i), bs_deadline a]) (clk 0))
         then Inl (BoundaryRejected ''human request final authority changed'')
         else case find (\<lambda>r. hr_tenant_id r = fst k \<and> hr_request_id r = request_id) (human_bridge_requests db) of
           Some r \<Rightarrow> if hr_canonical_digest r \<noteq> digest then Inl (StateConflict ''human request identity conflict'') else Inr (''human_requested'', db)
         | None \<Rightarrow>
             if iw_state i \<noteq> Open_Incident then Inl (BoundaryRejected ''incident is not open'')
             else
               let row = \<lparr>hr_tenant_id = fst k, hr_request_id = request_id, hr_incident_id = snd k, hr_generation = iw_generation i,
                          hr_canonical_digest = digest, hr_outbox_message_id = request_id\<rparr> in
               rbind (insert_unique ''human_bridge_requests_outbox_message'' (\<lambda>r. (hr_tenant_id r, hr_outbox_message_id r)) row (human_bridge_requests db)) (\<lambda>_.
               rbind (insert_unique ''human_bridge_requests_incident'' request_incident row (human_bridge_requests db)) (\<lambda>rows.
               rbind (insert_outbox (fst k) request_id (iw_operation_id i) ''human_bridge.request''
                 (PyDict [(PyStr ''incident_id'', PyStr (snd k)), (PyStr ''generation'', PyInt (iw_generation i)),
                          (PyStr ''logical_message_id'', PyStr (iw_message_id i)), (PyStr ''request_digest'', PyStr digest)])
                 (db\<lparr>human_bridge_requests := rows\<rparr>)) (\<lambda>db.
               Inr (''human_requested'', audit k ''human_request_outbox_committed'' cmd a
                 (PyDict [(PyStr ''request_id'', PyStr request_id), (PyStr ''canonical_digest'', PyStr digest)])
                 (set_incident_state k Human_Requested db)))))))))"

section \<open>reprobe\<close>

definition reprobe_dict :: "incident_key \<Rightarrow> string \<Rightarrow> string \<Rightarrow> bool \<Rightarrow> string \<Rightarrow> pyval" where
  "reprobe_dict k reprobe_id observation_ref succeeded cmd = PyDict
     [(PyStr ''tenant_id'', PyStr (fst k)), (PyStr ''incident_id'', PyStr (snd k)), (PyStr ''reprobe_id'', PyStr reprobe_id),
      (PyStr ''observation_ref'', PyStr observation_ref), (PyStr ''succeeded'', PyBool succeeded), (PyStr ''command_id'', PyStr cmd)]"

fun incident_state_text :: "incident_state \<Rightarrow> string" where
  "incident_state_text Open_Incident = ''open''"
| "incident_state_text Human_Requested = ''human_requested''"
| "incident_state_text Manual_Packet_Committed = ''manual_packet_committed''"
| "incident_state_text Resolved_Automatic = ''resolved_automatic''"
| "incident_state_text Resolved_Manual = ''resolved_manual''"
| "incident_state_text Incident_Expired = ''expired''"
| "incident_state_text Cancelled = ''cancelled''"

definition reprobe_current :: "bridge_snapshot \<Rightarrow> int \<Rightarrow> incident_row \<Rightarrow> bool" where
  "reprobe_current a now i \<longleftrightarrow> snapshot_current a (iw_accepted_revision i) (iw_accepted_state_digest i) \<and>
     \<not> expired (earliest [Some (iw_expires_at i), bs_deadline a]) now \<and> iw_state i \<in> {Open_Incident, Human_Requested}"

definition record_reprobe ::
  "bridge_snapshot \<Rightarrow> bool \<Rightarrow> incident_row \<Rightarrow> incident_key \<Rightarrow> string \<Rightarrow> string \<Rightarrow> bool \<Rightarrow> string \<Rightarrow> string \<Rightarrow>
   bridge_db \<Rightarrow> (string \<times> bridge_db) recovered" where
  "record_reprobe a current i k reprobe_id observation_ref succeeded cmd digest db =
     rbind (insert_unique ''recovery_reprobes_observation'' (\<lambda>r. (rr_tenant_id r, rr_incident_id r, rr_observation_ref r))
       \<lparr>rr_tenant_id = fst k, rr_reprobe_id = reprobe_id, rr_incident_id = snd k, rr_observation_ref = observation_ref,
        rr_succeeded = succeeded, rr_disposition = (if current then ''observed'' else ''fenced_late''), rr_canonical_digest = digest\<rparr>
       (recovery_reprobes db)) (\<lambda>rows.
     let restored = (current \<and> succeeded \<and> iw_state i \<in> {Open_Incident, Human_Requested});
         state = (if restored then Resolved_Automatic else iw_state i);
         db1 = db\<lparr>recovery_reprobes := rows\<rparr>;
         db2 = (if restored then set_incident_state k state db1 else db1) in
     Inr (if current then incident_state_text state else ''fenced_late'',
       audit k (if \<not> current then ''automatic_reprobe_fenced'' else if succeeded then ''automatic_path_restored'' else ''automatic_reprobe_failed'')
         cmd a (PyDict [(PyStr ''reprobe_id'', PyStr reprobe_id), (PyStr ''observation_ref'', PyStr observation_ref)]) db2))"

definition reprobe ::
  "hash_env \<Rightarrow> (string \<Rightarrow> bridge_snapshot) \<Rightarrow> (nat \<Rightarrow> int) \<Rightarrow> incident_key \<Rightarrow> string \<Rightarrow> string \<Rightarrow> bool \<Rightarrow> string \<Rightarrow>
   bridge_db \<Rightarrow> (string \<times> bridge_db) recovered" where
  "reprobe env snap clk k reprobe_id observation_ref succeeded cmd db =
     rbind (texts_within [(''tenant_id'', fst k), (''incident_id'', snd k), (''reprobe_id'', reprobe_id),
       (''observation_ref'', observation_ref), (''command_id'', cmd)]) (\<lambda>_.
     rbind (canonical_digest env (reprobe_dict k reprobe_id observation_ref succeeded cmd)) (\<lambda>digest.
     rbind (snapshot snap ''automatic.reprobe'') (\<lambda>a.
     if \<not> bs_authenticated a then Inl (BoundaryRejected ''reprobe producer not authenticated'')
     else case lookup_incident k db of
       None \<Rightarrow> Inl (BoundaryRejected ''incident not found'')
     | Some i \<Rightarrow>
         rbind (snapshot snap ''automatic.reprobe.final'') (\<lambda>a.
         case find (\<lambda>r. rr_tenant_id r = fst k \<and> rr_reprobe_id r = reprobe_id) (recovery_reprobes db) of
           Some r \<Rightarrow>
             if rr_canonical_digest r \<noteq> digest then Inl (StateConflict ''reprobe identity conflict'')
             else Inr (if rr_disposition r = ''fenced_late'' then ''fenced_late'' else incident_state_text (iw_state i), db)
         | None \<Rightarrow> record_reprobe a (reprobe_current a (clk 0) i) i k reprobe_id observation_ref succeeded cmd digest db))))"

section \<open>receive\_manual\<close>

definition packet_matches :: "manual_packet \<Rightarrow> incident_row \<Rightarrow> bool" where
  "packet_matches p i \<longleftrightarrow> mn_message_id p = iw_message_id i \<and> mn_operation_id p = iw_operation_id i \<and>
     mn_source_scope_id p = iw_source_scope_id i \<and> mn_target_scope_id p = iw_target_scope_id i \<and>
     mn_expected_accepted_revision p = iw_accepted_revision i \<and> mn_accepted_state_digest p = iw_accepted_state_digest i"

text \<open>The row of \<open>delivery_attempts\<close> exists with this operation and dispatch.\<close>

definition attempt_bound :: "string \<Rightarrow> string \<Rightarrow> string \<Rightarrow> string \<Rightarrow> string \<Rightarrow> bridge_db \<Rightarrow> bool" where
  "attempt_bound tenant message attempt oper dispatch db =
     (case find (\<lambda>a. attempt_message a = (tenant, message) \<and> da_attempt_id a = attempt) (delivery_attempts (bd_delivery db)) of
        None \<Rightarrow> False
      | Some a \<Rightarrow> da_operation_id a = oper \<and> da_dispatch_id a = Some dispatch)"

definition packet_payload :: "manual_packet \<Rightarrow> pyval" where
  "packet_payload p = PyDict
     [(PyStr ''incident_id'', PyStr (mn_incident_id p)), (PyStr ''generation'', PyInt (mn_incident_generation p)),
      (PyStr ''packet_id'', PyStr (mn_packet_id p)), (PyStr ''message_id'', PyStr (mn_message_id p)),
      (PyStr ''operation_id'', PyStr (mn_operation_id p)), (PyStr ''attempt_id'', PyStr (mn_attempt_id p)),
      (PyStr ''dispatch_id'', PyStr (mn_dispatch_id p)), (PyStr ''direction'', PyStr (mn_direction p)),
      (PyStr ''payload_digest'', PyStr (mn_payload_digest p))]"

definition commit_packet :: "manual_packet \<Rightarrow> bridge_db \<Rightarrow> bridge_db recovered" where
  "commit_packet p db =
     rbind (insert_outbox (mn_tenant_id p) (mn_packet_id p) (mn_operation_id p) ''human_bridge.manual_packet_committed'' (packet_payload p) db) (\<lambda>db.
     Inr (db\<lparr>recovery_incidents := update_where (\<lambda>i. incident_key i = (mn_tenant_id p, mn_incident_id p))
       (\<lambda>i. i\<lparr>iw_state := Manual_Packet_Committed, iw_applied_packet_id := Some (mn_packet_id p)\<rparr>) (recovery_incidents db)\<rparr>))"

definition receive_current :: "bridge_snapshot \<Rightarrow> int \<Rightarrow> message_row \<Rightarrow> manual_packet \<Rightarrow> incident_row \<Rightarrow> bool" where
  "receive_current a now m p i \<longleftrightarrow> mn_incident_generation p = iw_generation i \<and>
     snapshot_current a (iw_accepted_revision i) (iw_accepted_state_digest i) \<and>
     \<not> expired (earliest [Some (mn_expires_at p), Some (iw_expires_at i), map_option instant (packet_deadline (dm_packet m)), bs_deadline a]) now \<and>
     iw_state i = Human_Requested"

definition record_packet ::
  "bridge_snapshot \<Rightarrow> bool \<Rightarrow> incident_key \<Rightarrow> manual_packet \<Rightarrow> string \<Rightarrow> string \<Rightarrow> bridge_db \<Rightarrow> (string \<times> bridge_db) recovered" where
  "record_packet a current k p cmd digest db =
     rbind (checks [bigint (mn_incident_generation p), bigint (mn_expected_accepted_revision p)]) (\<lambda>_.
     let disposition = (if current then ''committed'' else ''fenced_late'');
         row = \<lparr>hp_packet = p, hp_canonical_digest = digest, hp_disposition = disposition,
                hp_normal_outbox_message_id = (if current then Some (mn_packet_id p) else None)\<rparr>;
         db1 = db\<lparr>human_bridge_packets := human_bridge_packets db @ [row]\<rparr> in
     rbind (if current then commit_packet p db1 else Inr db1) (\<lambda>db2.
     Inr (disposition, audit k (''manual_packet_'' @ disposition) cmd a
       (PyDict [(PyStr ''packet_id'', PyStr (mn_packet_id p)), (PyStr ''canonical_digest'', PyStr digest)]) db2)))"

definition receive_manual ::
  "hash_env \<Rightarrow> (string \<Rightarrow> bridge_snapshot) \<Rightarrow> (nat \<Rightarrow> int) \<Rightarrow> manual_packet \<Rightarrow> string \<Rightarrow> bridge_db \<Rightarrow> (string \<times> bridge_db) recovered" where
  "receive_manual env snap clk p cmd db =
     rbind (manual_packet_ok p) (\<lambda>_.
     rbind (text_within 512 ''command_id'' cmd) (\<lambda>_.
     rbind (canonical_digest env (packet_dict env p)) (\<lambda>digest.
     rbind (snapshot snap ''manual.receive'') (\<lambda>a.
     let k = (mn_tenant_id p, mn_incident_id p) in
     if \<not> bs_authenticated a then Inl (BoundaryRejected ''manual packet subject not authenticated'')
     else case lookup_incident k db of
       None \<Rightarrow> Inl (BoundaryRejected ''manual packet crosses tenant or incident'')
     | Some i \<Rightarrow>
         (case lookup_packet (mn_tenant_id p, mn_packet_id p) db of
            Some r \<Rightarrow> if hp_canonical_digest r \<noteq> digest then Inl (StateConflict ''manual packet identity conflict'') else Inr (hp_disposition r, db)
          | None \<Rightarrow>
              if \<not> packet_matches p i then Inl (BoundaryRejected ''manual packet lineage mismatch'')
              else case lookup_delivery (mn_tenant_id p, mn_message_id p) (bd_delivery db) of
                None \<Rightarrow> Inl (BoundaryRejected ''manual packet delivery message is not current'')
              | Some m \<Rightarrow>
                  if dm_operation_id m \<noteq> mn_operation_id p \<or> dm_accepted_state_digest m \<noteq> mn_accepted_state_digest p
                  then Inl (BoundaryRejected ''manual packet delivery message is not current'')
                  else if \<not> attempt_bound (mn_tenant_id p) (mn_message_id p) (mn_attempt_id p) (mn_operation_id p) (mn_dispatch_id p) db
                  then Inl (BoundaryRejected ''manual packet delivery attempt does not exist'')
                  else rbind (snapshot snap ''manual.receive.final'') (\<lambda>a.
                    record_packet a (receive_current a (clk 0) m p i) k p cmd digest db))))))"

section \<open>confirm\_manual\<close>

definition receipt_matches :: "normal_receipt \<Rightarrow> incident_row \<Rightarrow> manual_packet \<Rightarrow> bool" where
  "receipt_matches r i p \<longleftrightarrow> iw_state i \<in> {Manual_Packet_Committed, Resolved_Manual} \<and> nc_incident_generation r = iw_generation i \<and>
     nc_message_id r = iw_message_id i \<and> nc_operation_id r = iw_operation_id i \<and> Some (nc_packet_id r) = iw_applied_packet_id i \<and>
     nc_layer r = expected_layer (mn_direction p) \<and> nc_payload_digest r = mn_payload_digest p \<and> nc_attempt_id r = mn_attempt_id p \<and>
     nc_dispatch_id r = mn_dispatch_id p \<and> nc_direction r = mn_direction p"

definition bridge_evidence :: "normal_receipt \<Rightarrow> pyval" where
  "bridge_evidence r = PyDict
     [(PyStr ''incident_id'', PyStr (nc_incident_id r)), (PyStr ''incident_generation'', PyInt (nc_incident_generation r)),
      (PyStr ''packet_id'', PyStr (nc_packet_id r)), (PyStr ''message_id'', PyStr (nc_message_id r)),
      (PyStr ''operation_id'', PyStr (nc_operation_id r)), (PyStr ''attempt_id'', PyStr (nc_attempt_id r)),
      (PyStr ''dispatch_id'', PyStr (nc_dispatch_id r)), (PyStr ''direction'', PyStr (nc_direction r)),
      (PyStr ''layer'', PyStr (nc_layer r)), (PyStr ''payload_digest'', PyStr (nc_payload_digest r))]"

text \<open>\<open>dict.get\<close> answers \<open>None\<close> for an absent key and for a key whose value is \<open>None\<close>.\<close>

definition get_or_none :: "(pyval \<times> pyval) list \<Rightarrow> string \<Rightarrow> pyval" where
  "get_or_none kvs k = (case dict_get kvs k of None \<Rightarrow> PyNone | Some v \<Rightarrow> v)"

definition native_terminal :: "pyval \<Rightarrow> bool" where
  "native_terminal native = (case native of
     PyDict kvs \<Rightarrow> set (map fst kvs) = {PyStr ''response_ref'', PyStr ''outcome''} \<and>
       (case get_or_none kvs ''response_ref'' of PyStr s \<Rightarrow> 0 < length s \<and> length s \<le> 4096 | _ \<Rightarrow> False) \<and>
       get_or_none kvs ''outcome'' = PyStr ''completed''
   | _ \<Rightarrow> False)"

definition receipt_evidence_dict :: "receipt_row \<Rightarrow> normal_receipt \<Rightarrow> pyval" where
  "receipt_evidence_dict n r = PyDict
     [(PyStr ''receipt_id'', PyStr (dr_receipt_id n)), (PyStr ''layer'', PyStr (nc_layer r)), (PyStr ''message_id'', PyStr (nc_message_id r)),
      (PyStr ''evidence'', dr_evidence n), (PyStr ''attempt_id'', opt_str (dr_attempt_id n)), (PyStr ''dispatch_id'', opt_str (dr_dispatch_id n))]"

text \<open>The checks that bind a committed transport receipt to the manual packet.\<close>

definition receipt_binds :: "hash_env \<Rightarrow> normal_receipt \<Rightarrow> receipt_row \<Rightarrow> unit recovered" where
  "receipt_binds env r n =
     (case dr_evidence n of
        PyDict kvs \<Rightarrow>
          let stored = get_or_none kvs ''human_bridge'' in
          if stored = PyNone \<and> \<not> native_terminal (get_or_none kvs ''native'') \<or> stored \<noteq> PyNone \<and> \<not> py_eq stored (bridge_evidence r)
          then Inl (BoundaryRejected ''normal receipt does not bind the current manual packet'')
          else if dr_attempt_id n \<noteq> Some (nc_attempt_id r) \<or> dr_dispatch_id n \<noteq> Some (nc_dispatch_id r)
          then Inl (BoundaryRejected ''normal receipt attempt or dispatch changed'')
          else rbind (canonical_digest env (receipt_evidence_dict n r)) (\<lambda>digest.
            guard (digest = nc_evidence_digest r) (BoundaryRejected ''normal receipt digest mismatch''))
      | _ \<Rightarrow> Inl (AttributeError ''get''))"

text \<open>The checks of a receipt against the delivery tables: the message, the attempt and the committed transport receipt.\<close>

definition transport_confirms :: "hash_env \<Rightarrow> normal_receipt \<Rightarrow> manual_packet \<Rightarrow> bridge_db \<Rightarrow> unit recovered" where
  "transport_confirms env r p db =
     (if (case lookup_delivery (nc_tenant_id r, nc_message_id r) (bd_delivery db) of
            None \<Rightarrow> True
          | Some m \<Rightarrow> dm_operation_id m \<noteq> nc_operation_id r \<or> dm_accepted_state_digest m \<noteq> mn_accepted_state_digest p)
      then Inl (BoundaryRejected ''normal receipt delivery message does not exist'')
      else if \<not> attempt_bound (nc_tenant_id r) (nc_message_id r) (nc_attempt_id r) (nc_operation_id r) (nc_dispatch_id r) db
      then Inl (BoundaryRejected ''normal receipt delivery attempt does not exist'')
      else case find (\<lambda>n. receipt_message n = (nc_tenant_id r, nc_message_id r) \<and> dr_receipt_id n = nc_receipt_id r \<and> dr_layer n = nc_layer r)
          (delivery_receipts (bd_delivery db)) of
        None \<Rightarrow> Inl (BoundaryRejected ''normal receipt is not committed'')
      | Some n \<Rightarrow> receipt_binds env r n)"

definition confirm_manual ::
  "hash_env \<Rightarrow> (string \<Rightarrow> bridge_snapshot) \<Rightarrow> normal_receipt \<Rightarrow> string \<Rightarrow> bridge_db \<Rightarrow> (string \<times> bridge_db) recovered" where
  "confirm_manual env snap r cmd db =
     rbind (normal_receipt_ok r) (\<lambda>_.
     rbind (text_within 512 ''command_id'' cmd) (\<lambda>_.
     rbind (canonical_digest env (receipt_dict r)) (\<lambda>digest.
     rbind (snapshot snap ''manual.confirm'') (\<lambda>a.
     let k = (nc_tenant_id r, nc_incident_id r) in
     if \<not> bs_authenticated a then Inl (BoundaryRejected ''manual confirmation subject not authenticated'')
     else case lookup_incident k db of
       None \<Rightarrow> Inl (BoundaryRejected ''manual incident or packet not found'')
     | Some i \<Rightarrow>
         (case Option.bind (iw_applied_packet_id i) (\<lambda>pid. lookup_packet (iw_tenant_id i, pid) db) of
            None \<Rightarrow> Inl (BoundaryRejected ''manual incident or packet not found'')
          | Some p \<Rightarrow>
              if \<not> receipt_matches r i (hp_packet p) then Inl (BoundaryRejected ''normal receipt lineage or direction mismatch'')
              else rbind (transport_confirms env r (hp_packet p) db) (\<lambda>_.
                case find (\<lambda>w. nc_tenant_id (nw_receipt w) = nc_tenant_id r \<and> nc_receipt_id (nw_receipt w) = nc_receipt_id r)
                    (human_bridge_normal_receipts db) of
                  Some w \<Rightarrow> if nw_canonical_digest w \<noteq> digest then Inl (StateConflict ''normal receipt identity conflict'')
                            else Inr (''resolved_manual'', db)
                | None \<Rightarrow>
                    rbind (insert_unique ''human_bridge_normal_receipts_packet''
                      (\<lambda>w. (nc_tenant_id (nw_receipt w), nc_incident_id (nw_receipt w), nc_packet_id (nw_receipt w)))
                      \<lparr>nw_receipt = r, nw_canonical_digest = digest\<rparr> (human_bridge_normal_receipts db)) (\<lambda>rows.
                    Inr (''resolved_manual'', audit k ''manual_path_resolved'' cmd a
                      (PyDict [(PyStr ''receipt_id'', PyStr (nc_receipt_id r)), (PyStr ''receipt_digest'', PyStr (nc_evidence_digest r))])
                      (set_incident_state k Resolved_Manual (db\<lparr>human_bridge_normal_receipts := rows\<rparr>))))))))))"

section \<open>expire\<close>

definition expire ::
  "hash_env \<Rightarrow> (string \<Rightarrow> bridge_snapshot) \<Rightarrow> (nat \<Rightarrow> int) \<Rightarrow> incident_key \<Rightarrow> string \<Rightarrow> bridge_db \<Rightarrow> (string \<times> bridge_db) recovered" where
  "expire env snap clk k cmd db =
     rbind (texts_within [(''tenant_id'', fst k), (''incident_id'', snd k), (''command_id'', cmd)]) (\<lambda>_.
     rbind (snapshot snap ''incident.expire'') (\<lambda>a.
     if \<not> bs_authenticated a then Inl (BoundaryRejected ''incident expiry subject not authenticated'')
     else case lookup_incident k db of
       None \<Rightarrow> Inl (BoundaryRejected ''incident not found'')
     | Some i \<Rightarrow>
         if iw_state i \<in> set TERMINAL_INCIDENT_STATES then Inr (incident_state_text (iw_state i), db)
         else rbind (snapshot snap ''incident.expire.final'') (\<lambda>a.
           if \<not> expired (earliest [Some (iw_expires_at i), bs_deadline a]) (clk 0)
           then Inl (BoundaryRejected ''incident expiry deadline has not elapsed'')
           else Inr (''expired'', audit k ''incident_expired'' cmd a (PyDict [(PyStr ''expired_at'', utc_text env (clk 0))])
             (set_incident_state k Incident_Expired db)))))"

end
