(* ===== verification/Bridge_Refinement.thy ===== *)
theory Bridge_Refinement
  imports Human_Bridge
begin

text \<open>
  The incident authority over PostgreSQL against the reference coordinator.

  \<open>bridge_incident\<close> reads an incident of the reference back from the rows of the tables, and \<open>simulates\<close>
  relates the tables to a coordinator. Every method that returns either leaves the related coordinator
  alone or is one operation of it at the same instant; the one exception is an expiry that the authority
  deadline brings forward.
\<close>

section \<open>Operations and runs\<close>

datatype bridge_op =
    Bridge_Open incident_command
  | Bridge_Request incident_key string string
  | Bridge_Reprobe incident_key string string bool string
  | Bridge_Receive manual_packet string
  | Bridge_Confirm normal_receipt string
  | Bridge_Expire incident_key string

fun bridge_run :: "hash_env \<Rightarrow> (string \<Rightarrow> bridge_snapshot) \<Rightarrow> (nat \<Rightarrow> int) \<Rightarrow> bridge_op \<Rightarrow> bridge_db \<Rightarrow> (string \<times> bridge_db) recovered" where
  "bridge_run env snap clk (Bridge_Open c) db = open_incident env snap clk c db"
| "bridge_run env snap clk (Bridge_Request k r cmd) db = request_human env snap clk k r cmd db"
| "bridge_run env snap clk (Bridge_Reprobe k r ob s cmd) db = reprobe env snap clk k r ob s cmd db"
| "bridge_run env snap clk (Bridge_Receive p cmd) db = receive_manual env snap clk p cmd db"
| "bridge_run env snap clk (Bridge_Confirm r cmd) db = confirm_manual env snap r cmd db"
| "bridge_run env snap clk (Bridge_Expire k cmd) db = expire env snap clk k cmd db"

text \<open>\<open>clock_timestamp()\<close> is read twice by \<open>open_incident\<close>; the decision is taken at the later reading.\<close>

fun decided_at :: "bridge_op \<Rightarrow> (nat \<Rightarrow> int) \<Rightarrow> int" where
  "decided_at (Bridge_Open c) clk = clk 1"
| "decided_at _ clk = clk 0"

inductive coordinator_step :: "hash_env \<Rightarrow> int \<Rightarrow> coordinator \<Rightarrow> coordinator \<Rightarrow> bool" for env now where
  step_open: "ref_open_incident env c now tv av co = Inr (i, co') \<Longrightarrow> coordinator_step env now co co'"
| step_request: "ref_request_human env k r now s co = Inr (x, co') \<Longrightarrow> coordinator_step env now co co'"
| step_reprobe: "ref_reprobe_succeeded k ob co = Inr (st, co') \<Longrightarrow> coordinator_step env now co co'"
| step_submit: "ref_submit_manual env k p now au av tv n d co = Inr (x, co') \<Longrightarrow> coordinator_step env now co co'"
| step_confirm: "ref_confirm_manual env k pid r co = Inr (st, co') \<Longrightarrow> coordinator_step env now co co'"
| step_expire: "ref_expire k now co = Inr (st, co') \<Longrightarrow> coordinator_step env now co co'"

text \<open>The expiry the reference does not have: before the incident's own deadline, because an authority's deadline has passed.\<close>

definition early_expiry :: "(string \<Rightarrow> bridge_snapshot) \<Rightarrow> int \<Rightarrow> incident_key \<Rightarrow> coordinator \<Rightarrow> coordinator \<Rightarrow> bool" where
  "early_expiry snap now k co co' \<longleftrightarrow>
     (\<exists>i d. incident_at co k = Some i \<and> ri_state i \<notin> set TERMINAL_INCIDENT_STATES \<and> now < ri_expires_at i \<and>
        bs_deadline (snap ''incident.expire.final'') = Some d \<and> d \<le> now \<and>
        co' = set_incident k (i\<lparr>ri_state := Incident_Expired, ri_audit := ri_audit i @ [''incident_expired'']\<rparr>) co)"

section \<open>The abstraction\<close>

definition REPROBE_NOTES :: "string list" where
  "REPROBE_NOTES = [''automatic_reprobe_fenced'', ''automatic_reprobe_failed'']"

definition incident_packet :: "incident_key \<Rightarrow> bridge_db \<Rightarrow> string \<Rightarrow> packet_row option" where
  "incident_packet k db pid = find (\<lambda>p. packet_key p = (fst k, pid) \<and> packet_incident p = k) (human_bridge_packets db)"

definition incident_events :: "incident_key \<Rightarrow> bridge_db \<Rightarrow> string list" where
  "incident_events k db = filter (\<lambda>e. e \<notin> set REPROBE_NOTES) (map au_event_type (filter (\<lambda>a. audit_incident a = k) (recovery_audit_events db)))"

definition incident_request :: "incident_key \<Rightarrow> bridge_db \<Rightarrow> string option" where
  "incident_request k db = map_option hr_request_id (find (\<lambda>r. request_incident r = k) (human_bridge_requests db))"

definition incident_view :: "incident_key \<Rightarrow> bridge_db \<Rightarrow> incident_row \<Rightarrow> recovery_incident" where
  "incident_view k db i = \<lparr>ri_incident_id = snd k, ri_generation = iw_generation i, ri_tenant_id = fst k,
     ri_message_id = iw_message_id i, ri_operation_id = iw_operation_id i, ri_source_scope_id = iw_source_scope_id i,
     ri_target_scope_id = iw_target_scope_id i, ri_accepted_revision = iw_accepted_revision i,
     ri_accepted_state_digest = iw_accepted_state_digest i, ri_expires_at = iw_expires_at i, ri_state = iw_state i,
     ri_request_id = incident_request k db,
     ri_packet_results = (\<lambda>pid. map_option (\<lambda>p. (hp_canonical_digest p, hp_disposition p)) (incident_packet k db pid)),
     ri_packets = (\<lambda>pid. map_option hp_packet (incident_packet k db pid)),
     ri_applied_packet_id = iw_applied_packet_id i, ri_audit = incident_events k db\<rparr>"

definition bridge_incident :: "incident_key \<Rightarrow> bridge_db \<Rightarrow> recovery_incident option" where
  "bridge_incident k db = map_option (incident_view k db) (lookup_incident k db)"

definition has_request :: "string \<times> string \<Rightarrow> bridge_db \<Rightarrow> bool" where
  "has_request k db \<longleftrightarrow> (\<exists>r \<in> set (human_bridge_requests db). (hr_tenant_id r, hr_request_id r) = k)"

definition has_normal_receipt :: "string \<times> string \<Rightarrow> bridge_db \<Rightarrow> bool" where
  "has_normal_receipt k db \<longleftrightarrow> (\<exists>w \<in> set (human_bridge_normal_receipts db). (nc_tenant_id (nw_receipt w), nc_receipt_id (nw_receipt w)) = k)"

definition simulates :: "bridge_db \<Rightarrow> coordinator \<Rightarrow> bool" where
  "simulates db co \<longleftrightarrow> (\<forall>k. incident_at co k = bridge_incident k db) \<and>
     (\<forall>k. co_packet_ids co k = map_option hp_canonical_digest (lookup_packet k db)) \<and>
     (\<forall>k. has_request k db \<longleftrightarrow> co_request_ids co k \<noteq> None) \<and> (\<forall>k. has_normal_receipt k db \<longleftrightarrow> co_receipt_ids co k \<noteq> None)"

section \<open>The invariant of the tables\<close>

definition applied_packet_ok :: "bridge_db \<Rightarrow> incident_row \<Rightarrow> bool" where
  "applied_packet_ok db i \<longleftrightarrow>
     (case iw_applied_packet_id i of
        None \<Rightarrow> iw_state i \<notin> {Manual_Packet_Committed, Resolved_Manual} \<and>
          (\<forall>p \<in> set (human_bridge_packets db). packet_incident p = incident_key i \<longrightarrow> hp_disposition p = ''fenced_late'')
      | Some pid \<Rightarrow> iw_state i \<notin> {Open_Incident, Human_Requested, Resolved_Automatic} \<and>
          (\<exists>p. lookup_packet (iw_tenant_id i, pid) db = Some p \<and> packet_incident p = incident_key i \<and> hp_disposition p = ''committed'') \<and>
          (\<forall>p \<in> set (human_bridge_packets db). packet_incident p = incident_key i \<and> hp_disposition p \<noteq> ''fenced_late'' \<longrightarrow> mn_packet_id (hp_packet p) = pid))"

definition resolved_ok :: "bridge_db \<Rightarrow> incident_row \<Rightarrow> bool" where
  "resolved_ok db i \<longleftrightarrow> (iw_state i = Resolved_Manual \<longrightarrow>
     (\<exists>w \<in> set (human_bridge_normal_receipts db).
        (nc_tenant_id (nw_receipt w), nc_incident_id (nw_receipt w), Some (nc_packet_id (nw_receipt w))) =
        (iw_tenant_id i, iw_incident_id i, iw_applied_packet_id i)))"

definition bridge_ok :: "bridge_db \<Rightarrow> bool" where
  "bridge_ok db \<longleftrightarrow> distinct (map incident_key (recovery_incidents db)) \<and> distinct (map packet_key (human_bridge_packets db)) \<and>
     distinct (map (\<lambda>i. (iw_tenant_id i, iw_message_id i)) (filter (\<lambda>i. iw_state i \<in> set ACTIVE_INCIDENT_STATES) (recovery_incidents db))) \<and>
     request_incident ` set (human_bridge_requests db) \<subseteq> incident_key ` set (recovery_incidents db) \<and>
     packet_incident ` set (human_bridge_packets db) \<subseteq> incident_key ` set (recovery_incidents db) \<and>
     audit_incident ` set (recovery_audit_events db) \<subseteq> incident_key ` set (recovery_incidents db) \<and>
     (\<forall>i \<in> set (recovery_incidents db). applied_packet_ok db i \<and> resolved_ok db i \<and> bigint (iw_generation i) = Inr ())"

text \<open>The authority's tables are its own; the rest of the system may change the delivery tables between two calls.\<close>

inductive bridge_reachable :: "hash_env \<Rightarrow> bridge_db \<Rightarrow> bool" for env where
  bridge_start: "bridge_reachable env \<lparr>bd_delivery = d, recovery_incidents = [], recovery_path_attempts = [], human_bridge_requests = [],
    recovery_reprobes = [], human_bridge_packets = [], human_bridge_normal_receipts = [], recovery_audit_events = []\<rparr>"
| bridge_call: "bridge_reachable env db \<Longrightarrow> bridge_run env snap clk operation db = Inr (r, db') \<Longrightarrow> bridge_reachable env db'"
| bridge_other: "bridge_reachable env db \<Longrightarrow> bridge_reachable env (db\<lparr>bd_delivery := d\<rparr>)"

section \<open>What a call does to the tables\<close>

inductive bridge_effect :: "hash_env \<Rightarrow> (string \<Rightarrow> bridge_snapshot) \<Rightarrow> int \<Rightarrow> bridge_db \<Rightarrow> bridge_db \<Rightarrow> bool" for env snap now db where
  effect_none: "bridge_effect env snap now db db"
| effect_open: "incident_admissible c now True True = Inr () \<Longrightarrow> canonical_digest env (PyDict (incident_spec env c)) = Inr d \<Longrightarrow>
    insert_incident (open_row c dg) db = Inr db1 \<Longrightarrow> k = (ic_tenant_id c, ic_incident_id c) \<Longrightarrow>
    bridge_effect env snap now db (audit k ''incident_opened'' cmd a ev (db1\<lparr>recovery_path_attempts := ws\<rparr>))"
| effect_request: "lookup_incident k db = Some i \<Longrightarrow> iw_state i = Open_Incident \<Longrightarrow> now < iw_expires_at i \<Longrightarrow>
    texts_within [(''tenant_id'', fst k), (''incident_id'', snd k), (''request_id'', hr_request_id row)] = Inr () \<Longrightarrow>
    request_incident row = k \<Longrightarrow> \<not> has_request (fst k, hr_request_id row) db \<Longrightarrow> k \<notin> request_incident ` set (human_bridge_requests db) \<Longrightarrow>
    bridge_effect env snap now db (audit k ''human_request_outbox_committed'' cmd a ev
      (set_incident_state k Human_Requested (db\<lparr>human_bridge_requests := human_bridge_requests db @ [row], bd_delivery := del\<rparr>)))"
| effect_note: "lookup_incident k db = Some i \<Longrightarrow> e \<in> set REPROBE_NOTES \<Longrightarrow>
    bridge_effect env snap now db (audit k e cmd a ev (db\<lparr>recovery_reprobes := rs\<rparr>))"
| effect_restored: "lookup_incident k db = Some i \<Longrightarrow> iw_state i \<in> {Open_Incident, Human_Requested} \<Longrightarrow>
    text_within 512 ''observation_ref'' observation_ref = Inr () \<Longrightarrow>
    bridge_effect env snap now db (audit k ''automatic_path_restored'' cmd a ev (set_incident_state k Resolved_Automatic (db\<lparr>recovery_reprobes := rs\<rparr>)))"
| effect_fenced: "lookup_incident k db = Some i \<Longrightarrow> k = (mn_tenant_id p, mn_incident_id p) \<Longrightarrow> manual_packet_ok p = Inr () \<Longrightarrow>
    canonical_digest env (packet_dict env p) = Inr dg \<Longrightarrow> lookup_packet (mn_tenant_id p, mn_packet_id p) db = None \<Longrightarrow> packet_matches p i \<Longrightarrow>
    row = \<lparr>hp_packet = p, hp_canonical_digest = dg, hp_disposition = ''fenced_late'', hp_normal_outbox_message_id = None\<rparr> \<Longrightarrow>
    bridge_effect env snap now db (audit k ''manual_packet_fenced_late'' cmd a ev (db\<lparr>human_bridge_packets := human_bridge_packets db @ [row]\<rparr>))"
| effect_committed: "lookup_incident k db = Some i \<Longrightarrow> k = (mn_tenant_id p, mn_incident_id p) \<Longrightarrow> manual_packet_ok p = Inr () \<Longrightarrow>
    canonical_digest env (packet_dict env p) = Inr dg \<Longrightarrow> lookup_packet (mn_tenant_id p, mn_packet_id p) db = None \<Longrightarrow> packet_matches p i \<Longrightarrow>
    mn_incident_generation p = iw_generation i \<Longrightarrow> iw_state i = Human_Requested \<Longrightarrow> now < iw_expires_at i \<Longrightarrow> now < mn_expires_at p \<Longrightarrow>
    row = \<lparr>hp_packet = p, hp_canonical_digest = dg, hp_disposition = ''committed'', hp_normal_outbox_message_id = Some (mn_packet_id p)\<rparr> \<Longrightarrow>
    bridge_effect env snap now db (audit k ''manual_packet_committed'' cmd a ev (db\<lparr>human_bridge_packets := human_bridge_packets db @ [row],
      bd_delivery := del, recovery_incidents := update_where (\<lambda>i. incident_key i = k)
        (\<lambda>i. i\<lparr>iw_state := Manual_Packet_Committed, iw_applied_packet_id := Some (mn_packet_id p)\<rparr>) (recovery_incidents db)\<rparr>))"
| effect_confirmed: "lookup_incident k db = Some i \<Longrightarrow> k = (nc_tenant_id r, nc_incident_id r) \<Longrightarrow> canonical_digest env (receipt_dict r) = Inr dg \<Longrightarrow>
    iw_applied_packet_id i = Some pid \<Longrightarrow> lookup_packet (iw_tenant_id i, pid) db = Some p \<Longrightarrow> receipt_matches r i (hp_packet p) \<Longrightarrow>
    \<not> has_normal_receipt (nc_tenant_id r, nc_receipt_id r) db \<Longrightarrow>
    (\<forall>w \<in> set (human_bridge_normal_receipts db). (nc_tenant_id (nw_receipt w), nc_incident_id (nw_receipt w), nc_packet_id (nw_receipt w)) \<noteq>
       (nc_tenant_id r, nc_incident_id r, nc_packet_id r)) \<Longrightarrow>
    bridge_effect env snap now db (audit k ''manual_path_resolved'' cmd a ev (set_incident_state k Resolved_Manual
      (db\<lparr>human_bridge_normal_receipts := human_bridge_normal_receipts db @ [\<lparr>nw_receipt = r, nw_canonical_digest = dg\<rparr>]\<rparr>)))"
| effect_expired: "lookup_incident k db = Some i \<Longrightarrow> iw_state i \<notin> set TERMINAL_INCIDENT_STATES \<Longrightarrow>
    iw_expires_at i \<le> now \<or> (\<exists>d. bs_deadline (snap ''incident.expire.final'') = Some d \<and> d \<le> now) \<Longrightarrow>
    bridge_effect env snap now db (audit k ''incident_expired'' cmd a ev (set_incident_state k Incident_Expired db))"

lemma expired_earliest_iff: "expired (earliest vs) now \<longleftrightarrow> (\<exists>x. Some x \<in> set vs \<and> x \<le> now)"
proof -
  have s: "set (List.map_filter id vs) = {x. Some x \<in> set vs}" for vs :: "int option list"
    by (force simp: List.map_filter_def image_iff)
  show ?thesis
  proof (cases "List.map_filter id vs = []")
    case True
    then have "{x. Some x \<in> set vs} = {}" using s [of vs] by simp
    then show ?thesis using True by (auto simp: expired_def earliest_def)
  next
    case False
    then have "Min (set (List.map_filter id vs)) \<le> now \<longleftrightarrow> (\<exists>x \<in> set (List.map_filter id vs). x \<le> now)"
      by (simp add: Min_le_iff)
    then show ?thesis using False by (simp add: expired_def earliest_def s)
  qed
qed

lemma insert_unique_Inr [simp]:
  "insert_unique name key row rows = Inr rs \<longleftrightarrow> key row \<notin> key ` set rows \<and> rs = rows @ [row]"
  by (auto simp: insert_unique_def)

lemma snapshot_Inr: "snapshot snap name = Inr a \<longleftrightarrow> bridge_snapshot_ok (snap name) = Inr () \<and> a = snap name"
  by (auto simp: snapshot_def)

lemmas run_simps = rbind_eq_Inr if_Inl_Inr case_None_Inr snapshot_Inr Let_def

lemma insert_outbox_Inr: "insert_outbox t m x topic body db = Inr db' \<Longrightarrow> \<exists>del. db' = db\<lparr>bd_delivery := del\<rparr>"
  by (auto simp: insert_outbox_def)

lemma insert_paths_Inr: "insert_paths env k ps db = Inr db' \<Longrightarrow> \<exists>ws. db' = db\<lparr>recovery_path_attempts := ws\<rparr>"
proof (induction ps arbitrary: db)
  case Nil
  then show ?case by (auto intro: exI [of _ "recovery_path_attempts db"])
next
  case (Cons p ps)
  then obtain rows where "insert_paths env k ps (db\<lparr>recovery_path_attempts := rows\<rparr>) = Inr db'" by auto
  from Cons.IH [OF this] show ?case by auto
qed

lemma admissible_valid:
  "incident_admissible c now tv av = Inr () \<longleftrightarrow> incident_admissible c now True True = Inr () \<and> tv \<and> av"
  by (auto simp: incident_admissible_def checks_Inr)

lemma admissible_later:
  "incident_admissible c now True True = Inr () \<Longrightarrow> later < ic_expires_at c \<Longrightarrow> incident_admissible c later True True = Inr ()"
  by (auto simp: incident_admissible_def checks_Inr)

lemma open_effect:
  assumes run: "open_incident env snap clk c db = Inr (r, db')"
  shows "bridge_effect env snap (clk 1) db db'"
proof -
  let ?k = "(ic_tenant_id c, ic_incident_id c)"
  from run obtain digest xc where d: "canonical_digest env (command_canonical env c) = Inr digest"
    and ref: "ref_open_incident env c (clk 0) (bs_task_valid (snap ''incident.open''))
        (bs_authenticated (snap ''incident.open'') \<and> bs_current_authority_valid (snap ''incident.open'')) empty_coordinator = Inr xc"
    and fin: "\<not> expired (earliest [Some (ic_expires_at c), bs_deadline (snap ''incident.open.final'')]) (clk 1)"
    and rest: "(case lookup_incident ?k db of
         Some i \<Rightarrow> if iw_canonical_digest i \<noteq> digest then Inl (StateConflict ''incident identity conflict'') else Inr (''open'', db)
       | None \<Rightarrow>
           rbind (insert_incident (open_row c digest) db) (\<lambda>db.
           rbind (insert_paths env ?k (ic_paths c) db) (\<lambda>db.
           Inr (''open'', audit ?k ''incident_opened'' (ic_command_id c) (snap ''incident.open.final'')
             (PyDict [(PyStr ''canonical_digest'', PyStr digest), (PyStr ''path_ids'', PyList (map PyStr (ic_eligible_path_ids c)))]) db)))) = Inr (r, db')"
    unfolding open_incident_def run_simps not_not by (elim exE conjE, hypsubst) blast
  from fin have later: "clk 1 < ic_expires_at c" by (auto simp: expired_earliest_iff)
  from ref obtain sd where adm': "incident_admissible c (clk 0) (bs_task_valid (snap ''incident.open''))
        (bs_authenticated (snap ''incident.open'') \<and> bs_current_authority_valid (snap ''incident.open'')) = Inr ()"
    and sd: "canonical_digest env (PyDict (incident_spec env c)) = Inr sd"
    unfolding ref_open_incident_def rbind_eq_Inr by auto
  from adm' have adm: "incident_admissible c (clk 0) True True = Inr ()" by (rule admissible_valid [THEN iffD1, THEN conjunct1])
  show ?thesis
  proof (cases "lookup_incident ?k db")
    case None
    with rest obtain db1 db2 where ins: "insert_incident (open_row c digest) db = Inr db1" and
      ps: "insert_paths env ?k (ic_paths c) db1 = Inr db2" and
      db': "db' = audit ?k ''incident_opened'' (ic_command_id c) (snap ''incident.open.final'')
             (PyDict [(PyStr ''canonical_digest'', PyStr digest), (PyStr ''path_ids'', PyList (map PyStr (ic_eligible_path_ids c)))]) db2"
      by auto
    from insert_paths_Inr [OF ps] obtain ws where "db2 = db1\<lparr>recovery_path_attempts := ws\<rparr>" by blast
    then show ?thesis
      unfolding db' using effect_open [OF admissible_later [OF adm later] sd ins refl] by simp
  next
    case (Some i)
    then show ?thesis using rest by (auto split: if_splits intro: effect_none)
  qed
qed

lemma texts_within_Inr: "texts_within named = Inr () \<longleftrightarrow> (\<forall>(name, value) \<in> set named. text_within 512 name value = Inr ())"
  by (auto simp: texts_within_def checks_Inr)

lemma request_effect:
  assumes run: "request_human env snap clk k rid cmd db = Inr (r, db')"
  shows "bridge_effect env snap (clk 0) db db'"
proof -
  let ?a = "snap ''human.request.final''"
  from run obtain digest i where
    tx: "texts_within [(''tenant_id'', fst k), (''incident_id'', snd k), (''request_id'', rid), (''command_id'', cmd)] = Inr ()"
    and i: "lookup_incident k db = Some i" and now: "clk 0 < iw_expires_at i"
    and rest: "(case find (\<lambda>r. hr_tenant_id r = fst k \<and> hr_request_id r = rid) (human_bridge_requests db) of
           Some r \<Rightarrow> if hr_canonical_digest r \<noteq> digest then Inl (StateConflict ''human request identity conflict'') else Inr (''human_requested'', db)
         | None \<Rightarrow>
             if iw_state i \<noteq> Open_Incident then Inl (BoundaryRejected ''incident is not open'')
             else
               let row = \<lparr>hr_tenant_id = fst k, hr_request_id = rid, hr_incident_id = snd k, hr_generation = iw_generation i,
                          hr_canonical_digest = digest, hr_outbox_message_id = rid\<rparr> in
               rbind (insert_unique ''human_bridge_requests_outbox_message'' (\<lambda>r. (hr_tenant_id r, hr_outbox_message_id r)) row (human_bridge_requests db)) (\<lambda>_.
               rbind (insert_unique ''human_bridge_requests_incident'' request_incident row (human_bridge_requests db)) (\<lambda>rows.
               rbind (insert_outbox (fst k) rid (iw_operation_id i) ''human_bridge.request''
                 (PyDict [(PyStr ''incident_id'', PyStr (snd k)), (PyStr ''generation'', PyInt (iw_generation i)),
                          (PyStr ''logical_message_id'', PyStr (iw_message_id i)), (PyStr ''request_digest'', PyStr digest)])
                 (db\<lparr>human_bridge_requests := rows\<rparr>)) (\<lambda>db.
               Inr (''human_requested'', audit k ''human_request_outbox_committed'' cmd ?a
                 (PyDict [(PyStr ''request_id'', PyStr rid), (PyStr ''canonical_digest'', PyStr digest)])
                 (set_incident_state k Human_Requested db)))))) = Inr (r, db')"
    unfolding request_human_def run_simps by (force simp: expired_earliest_iff)
  show ?thesis
  proof (cases "find (\<lambda>r. hr_tenant_id r = fst k \<and> hr_request_id r = rid) (human_bridge_requests db)")
    case None
    let ?row = "\<lparr>hr_tenant_id = fst k, hr_request_id = rid, hr_incident_id = snd k, hr_generation = iw_generation i,
                          hr_canonical_digest = digest, hr_outbox_message_id = rid\<rparr>"
    from rest None obtain db1 where st: "iw_state i = Open_Incident"
      and key: "request_incident ?row \<notin> request_incident ` set (human_bridge_requests db)"
      and ob: "insert_outbox (fst k) rid (iw_operation_id i) ''human_bridge.request''
                 (PyDict [(PyStr ''incident_id'', PyStr (snd k)), (PyStr ''generation'', PyInt (iw_generation i)),
                          (PyStr ''logical_message_id'', PyStr (iw_message_id i)), (PyStr ''request_digest'', PyStr digest)])
                 (db\<lparr>human_bridge_requests := human_bridge_requests db @ [?row]\<rparr>) = Inr db1"
      and db': "db' = audit k ''human_request_outbox_committed'' cmd ?a
                 (PyDict [(PyStr ''request_id'', PyStr rid), (PyStr ''canonical_digest'', PyStr digest)]) (set_incident_state k Human_Requested db1)"
      by (auto simp: Let_def split: if_splits)
    from insert_outbox_Inr [OF ob] obtain del where db1: "db1 = db\<lparr>human_bridge_requests := human_bridge_requests db @ [?row], bd_delivery := del\<rparr>"
      by auto
    have "\<not> has_request (fst k, rid) db" using None by (auto simp: has_request_def find_None_iff_all)
    then show ?thesis
      unfolding db' db1 using i st now tx key
      by (intro effect_request [where row = ?row]) (auto simp: texts_within_Inr request_incident_def)
  next
    case (Some q)
    then show ?thesis using rest by (auto split: if_splits intro: effect_none)
  qed
qed

lemma reprobe_effect:
  assumes run: "reprobe env snap clk k rid ob succeeded cmd db = Inr (r, db')"
  shows "bridge_effect env snap (clk 0) db db'"
proof -
  let ?a = "snap ''automatic.reprobe.final''"
  from run obtain i digest where i: "lookup_incident k db = Some i" and tx': "texts_within [(''tenant_id'', fst k), (''incident_id'', snd k),
      (''reprobe_id'', rid), (''observation_ref'', ob), (''command_id'', cmd)] = Inr ()"
    and rest: "db' = db \<or> record_reprobe ?a (reprobe_current ?a (clk 0) i) i k rid ob succeeded cmd digest db = Inr (r, db')"
    unfolding reprobe_def run_simps by (auto split: if_splits option.splits)
  from tx' have tx: "text_within 512 ''observation_ref'' ob = Inr ()" by (simp add: texts_within_Inr)
  define current where "current = reprobe_current ?a (clk 0) i"
  from rest consider "db' = db" | "record_reprobe ?a current i k rid ob succeeded cmd digest db = Inr (r, db')"
    by (auto simp: current_def)
  then show ?thesis
  proof cases
    case 1
    then show ?thesis by (simp add: effect_none)
  next
    case 2
    have st: "current \<Longrightarrow> iw_state i \<in> {Open_Incident, Human_Requested}" by (simp add: current_def reprobe_current_def)
    show ?thesis
    proof (cases "current \<and> succeeded")
      case True
      from effect_restored [OF i st tx] 2 True st show ?thesis by (auto simp: record_reprobe_def)
    next
      case False
      define e where "e = (if \<not> current then ''automatic_reprobe_fenced'' else ''automatic_reprobe_failed'')"
      have e: "e \<in> set REPROBE_NOTES" by (simp add: e_def REPROBE_NOTES_def)
      from 2 False obtain ev rows where "db' = audit k e cmd ?a ev (db\<lparr>recovery_reprobes := rows\<rparr>)"
        unfolding record_reprobe_def e_def by (auto split: if_splits)
      then show ?thesis using effect_note [OF i e] by simp
    qed
  qed
qed

lemma receive_effect:
  assumes run: "receive_manual env snap clk p cmd db = Inr (r, db')"
  shows "bridge_effect env snap (clk 0) db db'"
proof -
  let ?a = "snap ''manual.receive.final''" and ?k = "(mn_tenant_id p, mn_incident_id p)"
  from run obtain i digest where i: "lookup_incident ?k db = Some i" and ok: "manual_packet_ok p = Inr ()"
    and d: "canonical_digest env (packet_dict env p) = Inr digest"
    and rest: "db' = db \<or> (\<exists>m. lookup_packet (mn_tenant_id p, mn_packet_id p) db = None \<and> packet_matches p i \<and>
        record_packet ?a (receive_current ?a (clk 0) m p i) ?k p cmd digest db = Inr (r, db'))"
    unfolding receive_manual_def run_simps by (auto simp: snapshot_Inr split: if_splits option.splits)
  from rest consider "db' = db" | m where "lookup_packet (mn_tenant_id p, mn_packet_id p) db = None" "packet_matches p i"
      "record_packet ?a (receive_current ?a (clk 0) m p i) ?k p cmd digest db = Inr (r, db')"
    by blast
  then show ?thesis
  proof cases
    case 1
    then show ?thesis by (simp add: effect_none)
  next
    case 2
    show ?thesis
    proof (cases "receive_current ?a (clk 0) m p i")
      case True
      then have c: "mn_incident_generation p = iw_generation i" "iw_state i = Human_Requested" "clk 0 < iw_expires_at i" "clk 0 < mn_expires_at p"
        by (auto simp: receive_current_def expired_earliest_iff)
      let ?row = "\<lparr>hp_packet = p, hp_canonical_digest = digest, hp_disposition = ''committed'', hp_normal_outbox_message_id = Some (mn_packet_id p)\<rparr>"
      from 2(3) True obtain db2 ev where com: "commit_packet p (db\<lparr>human_bridge_packets := human_bridge_packets db @ [?row]\<rparr>) = Inr db2"
        and db': "db' = audit ?k ''manual_packet_committed'' cmd ?a ev db2"
        by (auto simp: record_packet_def Let_def)
      from com obtain db1 where ob: "insert_outbox (mn_tenant_id p) (mn_packet_id p) (mn_operation_id p) ''human_bridge.manual_packet_committed''
          (packet_payload p) (db\<lparr>human_bridge_packets := human_bridge_packets db @ [?row]\<rparr>) = Inr db1"
        and db2: "db2 = db1\<lparr>recovery_incidents := update_where (\<lambda>i. incident_key i = ?k)
          (\<lambda>i. i\<lparr>iw_state := Manual_Packet_Committed, iw_applied_packet_id := Some (mn_packet_id p)\<rparr>) (recovery_incidents db1)\<rparr>"
        by (auto simp: commit_packet_def)
      from insert_outbox_Inr [OF ob] obtain del where
        db1: "db1 = db\<lparr>human_bridge_packets := human_bridge_packets db @ [?row], bd_delivery := del\<rparr>" by auto
      show ?thesis unfolding db' db2 db1 using effect_committed [OF i refl ok d 2(1,2) c refl, of snap cmd ?a ev del] by simp
    next
      case False
      from 2(3) False obtain ev where "db' = audit ?k ''manual_packet_fenced_late'' cmd ?a ev (db\<lparr>human_bridge_packets := human_bridge_packets db @
          [\<lparr>hp_packet = p, hp_canonical_digest = digest, hp_disposition = ''fenced_late'', hp_normal_outbox_message_id = None\<rparr>]\<rparr>)"
        by (auto simp: record_packet_def Let_def)
      then show ?thesis using effect_fenced [OF i refl ok d 2(1,2) refl] by simp
    qed
  qed
qed

lemma confirm_effect:
  assumes run: "confirm_manual env snap r cmd db = Inr (x, db')"
  shows "bridge_effect env snap now db db'"
proof -
  let ?k = "(nc_tenant_id r, nc_incident_id r)" and ?a = "snap ''manual.confirm''"
  from run obtain i digest p where i: "lookup_incident ?k db = Some i" and d: "canonical_digest env (receipt_dict r) = Inr digest"
    and p: "Option.bind (iw_applied_packet_id i) (\<lambda>pid. lookup_packet (iw_tenant_id i, pid) db) = Some p"
    and m: "receipt_matches r i (hp_packet p)"
    and rest: "(case find (\<lambda>w. nc_tenant_id (nw_receipt w) = nc_tenant_id r \<and> nc_receipt_id (nw_receipt w) = nc_receipt_id r) (human_bridge_normal_receipts db) of
         Some w \<Rightarrow> if nw_canonical_digest w \<noteq> digest then Inl (StateConflict ''normal receipt identity conflict'') else Inr (''resolved_manual'', db)
       | None \<Rightarrow> rbind (insert_unique ''human_bridge_normal_receipts_packet''
          (\<lambda>w. (nc_tenant_id (nw_receipt w), nc_incident_id (nw_receipt w), nc_packet_id (nw_receipt w)))
          \<lparr>nw_receipt = r, nw_canonical_digest = digest\<rparr> (human_bridge_normal_receipts db)) (\<lambda>rows.
           Inr (''resolved_manual'', audit ?k ''manual_path_resolved'' cmd ?a
             (PyDict [(PyStr ''receipt_id'', PyStr (nc_receipt_id r)), (PyStr ''receipt_digest'', PyStr (nc_evidence_digest r))])
             (set_incident_state ?k Resolved_Manual (db\<lparr>human_bridge_normal_receipts := rows\<rparr>))))) = Inr (x, db')"
    unfolding confirm_manual_def run_simps not_not by (elim exE conjE, hypsubst) blast
  from p obtain pid where pid: "iw_applied_packet_id i = Some pid" "lookup_packet (iw_tenant_id i, pid) db = Some p"
    by (auto simp: bind_eq_Some_conv)
  show ?thesis
  proof (cases "find (\<lambda>w. nc_tenant_id (nw_receipt w) = nc_tenant_id r \<and> nc_receipt_id (nw_receipt w) = nc_receipt_id r) (human_bridge_normal_receipts db)")
    case (Some w)
    then show ?thesis using rest by (auto split: if_splits intro: effect_none)
  next
    case none: None
    with rest obtain rows ev where ins: "insert_unique ''human_bridge_normal_receipts_packet''
          (\<lambda>w. (nc_tenant_id (nw_receipt w), nc_incident_id (nw_receipt w), nc_packet_id (nw_receipt w)))
          \<lparr>nw_receipt = r, nw_canonical_digest = digest\<rparr> (human_bridge_normal_receipts db) = Inr rows"
      and db': "db' = audit ?k ''manual_path_resolved'' cmd ?a ev (set_incident_state ?k Resolved_Manual (db\<lparr>human_bridge_normal_receipts := rows\<rparr>))"
      unfolding rbind_eq_Inr by auto
    have new: "\<not> has_normal_receipt (nc_tenant_id r, nc_receipt_id r) db" using none by (auto simp: has_normal_receipt_def find_None_iff_all)
    from ins have rows: "rows = human_bridge_normal_receipts db @ [\<lparr>nw_receipt = r, nw_canonical_digest = digest\<rparr>]" by simp
    from ins have key: "\<forall>w \<in> set (human_bridge_normal_receipts db). (nc_tenant_id (nw_receipt w), nc_incident_id (nw_receipt w), nc_packet_id (nw_receipt w)) \<noteq>
       (nc_tenant_id r, nc_incident_id r, nc_packet_id r)" by (auto simp: image_iff)
    show ?thesis unfolding db' rows by (rule effect_confirmed [OF i refl d pid m new key])
  qed
qed

lemma expire_effect:
  assumes run: "expire env snap clk k cmd db = Inr (r, db')"
  shows "bridge_effect env snap (clk 0) db db'"
proof -
  let ?a = "snap ''incident.expire.final''"
  from run obtain i where i: "lookup_incident k db = Some i"
    and rest: "db' = db \<or> iw_state i \<notin> set TERMINAL_INCIDENT_STATES \<and> expired (earliest [Some (iw_expires_at i), bs_deadline ?a]) (clk 0) \<and>
      (\<exists>ev. db' = audit k ''incident_expired'' cmd ?a ev (set_incident_state k Incident_Expired db))"
    unfolding expire_def run_simps by (auto simp: snapshot_Inr split: if_splits)
  from rest show ?thesis
  proof (elim disjE conjE exE)
    fix ev
    assume st: "iw_state i \<notin> set TERMINAL_INCIDENT_STATES" and ex: "expired (earliest [Some (iw_expires_at i), bs_deadline ?a]) (clk 0)"
      and db': "db' = audit k ''incident_expired'' cmd ?a ev (set_incident_state k Incident_Expired db)"
    from ex have "iw_expires_at i \<le> clk 0 \<or> (\<exists>d. bs_deadline ?a = Some d \<and> d \<le> clk 0)" by (auto simp: expired_earliest_iff)
    then show ?thesis unfolding db' by (rule effect_expired [where snap = snap, OF i st])
  qed (simp add: effect_none)
qed

lemma bridge_run_effect: "bridge_run env snap clk operation db = Inr (r, db') \<Longrightarrow> bridge_effect env snap (decided_at operation clk) db db'"
  by (cases operation) (auto dest: open_effect request_effect reprobe_effect receive_effect confirm_effect expire_effect)

end
