(* ===== verification/Bridge_Simulation.thy ===== *)
theory Bridge_Simulation
  imports Bridge_Refinement
begin

text \<open>
  The forward simulation between the tables of the incident authority and the reference coordinator, and
  the invariant of the tables. Each effect a call can have is taken to one operation of the coordinator.
\<close>

section \<open>Reading incidents back after an update\<close>

lemmas view_defs = bridge_incident_def incident_view_def [abs_def] lookup_incident_def incident_packet_def incident_events_def incident_request_def

lemma bridge_incident_frame [simp]:
  "bridge_incident k (db\<lparr>bd_delivery := d\<rparr>) = bridge_incident k db"
  "bridge_incident k (db\<lparr>recovery_path_attempts := ws\<rparr>) = bridge_incident k db"
  "bridge_incident k (db\<lparr>recovery_reprobes := rs\<rparr>) = bridge_incident k db"
  "bridge_incident k (db\<lparr>human_bridge_normal_receipts := ns\<rparr>) = bridge_incident k db"
  by (simp_all add: view_defs)

lemma bridge_incident_audit:
  "bridge_incident k (audit j e cmd a ev db) =
     (if k = j \<and> e \<notin> set REPROBE_NOTES then map_option (\<lambda>i. i\<lparr>ri_audit := ri_audit i @ [e]\<rparr>) (bridge_incident k db) else bridge_incident k db)"
  by (cases "find (\<lambda>i. incident_key i = k) (recovery_incidents db)") (auto simp: view_defs audit_def audit_incident_def)

lemma find_incident_update:
  "(\<And>i. incident_key (f i) = incident_key i) \<Longrightarrow>
   find (\<lambda>i. incident_key i = k) (update_where (\<lambda>i. incident_key i = j) f rows) =
     (if k = j then map_option f (find (\<lambda>i. incident_key i = k) rows) else find (\<lambda>i. incident_key i = k) rows)"
  by (induction rows) auto

lemma bridge_incident_update:
  assumes "rows = recovery_incidents db" and "\<And>i. incident_key (f i) = incident_key i"
    and "\<And>i. incident_view j db (f i) = g (incident_view j db i)"
  shows "bridge_incident k (db\<lparr>recovery_incidents := update_where (\<lambda>i. incident_key i = j) f rows\<rparr>) =
    (if k = j then map_option g (bridge_incident k db) else bridge_incident k db)"
proof -
  have v: "incident_view k (db\<lparr>recovery_incidents := rs\<rparr>) = incident_view k db" for rs
    by (simp add: view_defs fun_eq_iff)
  show ?thesis
    using assms(3)
    by (cases "find (\<lambda>i. incident_key i = k) (recovery_incidents db)")
      (auto simp: bridge_incident_def lookup_incident_def v find_incident_update [of f, OF assms(2)] assms(1))
qed

lemma bridge_incident_state:
  "bridge_incident k (set_incident_state j s db) =
     (if k = j then map_option (ri_state_update (\<lambda>_. s)) (bridge_incident k db) else bridge_incident k db)"
  unfolding set_incident_state_def by (rule bridge_incident_update) (simp_all add: incident_key_def incident_view_def)

lemma find_snoc: "find p (xs @ [x]) = (case find p xs of None \<Rightarrow> if p x then Some x else None | Some y \<Rightarrow> Some y)"
  by (induction xs) auto

lemma bridge_incident_request:
  assumes "request_incident row \<notin> request_incident ` set (human_bridge_requests db)"
  shows "bridge_incident k (db\<lparr>human_bridge_requests := human_bridge_requests db @ [row]\<rparr>) =
    (if k = request_incident row then map_option (ri_request_id_update (\<lambda>_. Some (hr_request_id row))) (bridge_incident k db) else bridge_incident k db)"
proof -
  have "find (\<lambda>r. request_incident r = request_incident row) (human_bridge_requests db) = None"
    using assms unfolding find_None_iff_all image_iff by metis
  then show ?thesis
    by (cases "find (\<lambda>i. incident_key i = k) (recovery_incidents db)") (auto simp: view_defs find_snoc split: option.split)
qed

lemma bridge_incident_packet:
  assumes "lookup_packet (packet_key row) db = None" and pid: "pid = mn_packet_id (hp_packet row)"
  shows "bridge_incident k (db\<lparr>human_bridge_packets := human_bridge_packets db @ [row]\<rparr>) =
    (if k = packet_incident row
     then map_option (\<lambda>i. i\<lparr>ri_packet_results := (ri_packet_results i)(pid \<mapsto> (hp_canonical_digest row, hp_disposition row)),
            ri_packets := (ri_packets i)(pid \<mapsto> hp_packet row)\<rparr>) (bridge_incident k db)
     else bridge_incident k db)"
proof -
  have none: "find (\<lambda>p. packet_key p = packet_key row \<and> packet_incident p = k) (human_bridge_packets db) = None"
    using assms(1) by (auto simp: lookup_packet_def find_None_iff_all)
  have key: "packet_key row = (fst k, q) \<longleftrightarrow> q = pid" if "k = packet_incident row" for q
    using that pid by (auto simp: packet_key_def packet_incident_def)
  have "incident_packet k (db\<lparr>human_bridge_packets := human_bridge_packets db @ [row]\<rparr>) q =
      (if k = packet_incident row \<and> q = pid then Some row else incident_packet k db q)" for q
  proof (cases "k = packet_incident row \<and> q = pid")
    case True
    then have "packet_key row = (fst k, q)" using key by simp
    then show ?thesis using none True by (simp add: incident_packet_def find_snoc)
  next
    case False
    then have "\<not> (packet_key row = (fst k, q) \<and> packet_incident row = k)" using key by auto
    then show ?thesis using False by (auto simp: incident_packet_def find_snoc split: option.split)
  qed
  then show ?thesis
    by (cases "find (\<lambda>i. incident_key i = k) (recovery_incidents db)")
      (auto simp: bridge_incident_def incident_view_def lookup_incident_def incident_request_def incident_events_def fun_eq_iff)
qed

lemma lookup_packet_snoc:
  "lookup_packet (packet_key row) db = None \<Longrightarrow>
   lookup_packet k (db\<lparr>human_bridge_packets := human_bridge_packets db @ [row]\<rparr>) = (if k = packet_key row then Some row else lookup_packet k db)"
  by (auto simp: lookup_packet_def find_snoc split: option.split)

lemma packet_frame [simp]:
  "lookup_packet k (audit j e cmd a ev db) = lookup_packet k db" "lookup_packet k (set_incident_state j s db) = lookup_packet k db"
  "lookup_packet k (db\<lparr>bd_delivery := d\<rparr>) = lookup_packet k db" "lookup_packet k (db\<lparr>recovery_incidents := is\<rparr>) = lookup_packet k db"
  "lookup_packet k (db\<lparr>recovery_path_attempts := ws\<rparr>) = lookup_packet k db" "lookup_packet k (db\<lparr>human_bridge_requests := qs\<rparr>) = lookup_packet k db"
  "lookup_packet k (db\<lparr>recovery_reprobes := rs\<rparr>) = lookup_packet k db" "lookup_packet k (db\<lparr>human_bridge_normal_receipts := ns\<rparr>) = lookup_packet k db"
  by (simp_all add: lookup_packet_def audit_def set_incident_state_def)

lemma request_frame [simp]:
  "has_request k (audit j e cmd a ev db) = has_request k db" "has_request k (set_incident_state j s db) = has_request k db"
  "has_request k (db\<lparr>bd_delivery := d\<rparr>) = has_request k db" "has_request k (db\<lparr>recovery_incidents := is\<rparr>) = has_request k db"
  "has_request k (db\<lparr>recovery_path_attempts := ws\<rparr>) = has_request k db" "has_request k (db\<lparr>human_bridge_packets := ps\<rparr>) = has_request k db"
  "has_request k (db\<lparr>recovery_reprobes := rs\<rparr>) = has_request k db" "has_request k (db\<lparr>human_bridge_normal_receipts := ns\<rparr>) = has_request k db"
  by (simp_all add: has_request_def audit_def set_incident_state_def)

lemma receipt_frame [simp]:
  "has_normal_receipt k (audit j e cmd a ev db) = has_normal_receipt k db" "has_normal_receipt k (set_incident_state j s db) = has_normal_receipt k db"
  "has_normal_receipt k (db\<lparr>bd_delivery := d\<rparr>) = has_normal_receipt k db" "has_normal_receipt k (db\<lparr>recovery_incidents := is\<rparr>) = has_normal_receipt k db"
  "has_normal_receipt k (db\<lparr>recovery_path_attempts := ws\<rparr>) = has_normal_receipt k db" "has_normal_receipt k (db\<lparr>human_bridge_packets := ps\<rparr>) = has_normal_receipt k db"
  "has_normal_receipt k (db\<lparr>recovery_reprobes := rs\<rparr>) = has_normal_receipt k db" "has_normal_receipt k (db\<lparr>human_bridge_requests := qs\<rparr>) = has_normal_receipt k db"
  by (simp_all add: has_normal_receipt_def audit_def set_incident_state_def)

lemma has_request_snoc: "has_request k (db\<lparr>human_bridge_requests := human_bridge_requests db @ [row]\<rparr>) \<longleftrightarrow>
    has_request k db \<or> k = (hr_tenant_id row, hr_request_id row)"
  by (auto simp: has_request_def)

lemma has_normal_receipt_snoc: "has_normal_receipt k (db\<lparr>human_bridge_normal_receipts := human_bridge_normal_receipts db @ [row]\<rparr>) \<longleftrightarrow>
    has_normal_receipt k db \<or> k = (nc_tenant_id (nw_receipt row), nc_receipt_id (nw_receipt row))"
  by (auto simp: has_normal_receipt_def)

lemma incident_at_set [simp]:
  "incident_at (set_incident k i co) j = (if j = k then map_option (\<lambda>_. i) (incident_at co k) else incident_at co j)"
  by (cases "co_incidents co k") (auto simp: incident_at_def set_incident_def)

lemma set_incident_frame [simp]:
  "co_packet_ids (set_incident k i co) = co_packet_ids co" "co_request_ids (set_incident k i co) = co_request_ids co"
  "co_receipt_ids (set_incident k i co) = co_receipt_ids co"
  by (simp_all add: set_incident_def)

lemma incident_at_frame [simp]:
  "incident_at (co\<lparr>co_packet_ids := x\<rparr>) k = incident_at co k" "incident_at (co\<lparr>co_request_ids := y\<rparr>) k = incident_at co k"
  "incident_at (co\<lparr>co_receipt_ids := z\<rparr>) k = incident_at co k"
  by (simp_all add: incident_at_def)

lemma lookup_incidentD: "lookup_incident k db = Some i \<Longrightarrow> i \<in> set (recovery_incidents db) \<and> incident_key i = k"
  unfolding lookup_incident_def by (rule find_SomeD)

lemma lookup_packetD: "lookup_packet k db = Some p \<Longrightarrow> p \<in> set (human_bridge_packets db) \<and> packet_key p = k"
  unfolding lookup_packet_def by (rule find_SomeD)

section \<open>The digest of a request is within its bound\<close>

lemma json_char_length: "length (json_char ascii c) \<le> 6"
  by (simp add: json_char_def Let_def)

lemma json_string_length: "length (json_string ascii s) \<le> 6 * length s + 2"
proof -
  have "length (concat (map (json_char ascii) s)) \<le> 6 * length s"
    using json_char_length by (induction s) (auto simp: add_mono)
  then show ?thesis by (simp add: json_string_def)
qed

lemma nat_dec_length: "n < 10 ^ Suc d \<Longrightarrow> length (nat_dec n) \<le> Suc d"
proof (induction d arbitrary: n)
  case 0
  then show ?case by (simp add: nat_dec.simps)
next
  case (Suc d)
  have "n div 10 < 10 ^ Suc d" using Suc.prems by (simp add: less_mult_imp_div_less)
  from Suc.IH [OF this] show ?case by (subst nat_dec.simps) simp
qed

lemma int_dec_length:
  assumes "bigint n = Inr ()"
  shows "length (int_dec n) \<le> 21"
proof -
  have "nat n < 10 ^ Suc 19" "nat (- n) < 10 ^ Suc 19" using assms by (auto simp: bigint_def nat_less_iff)
  from this [THEN nat_dec_length] show ?thesis by (auto simp: int_dec_def)
qed

lemma text_length: "text_within 512 name s = Inr () \<Longrightarrow> length (json_string True s) \<le> 3074"
  using json_string_length [of True s] by (simp add: text_within_def)

lemma request_digest_defined:
  assumes "text_within 512 a t = Inr ()" "text_within 512 b x = Inr ()" "text_within 512 c q = Inr ()" and "bigint g = Inr ()"
    and i: "ri_tenant_id i = t" "ri_incident_id i = x" "ri_generation i = g"
  shows "\<exists>d. canonical_digest env (request_dict q i) = Inr d"
proof -
  have "length (canonical_json True (request_dict q i)) \<le> 9000 + length (json_string True t) + length (json_string True x) +
      length (json_string True q) + length (int_dec g)"
    by (simp add: canonical_json_def request_dict_def i json_string_def json_char_def Let_def insort_key_def sort_key_def)
  also have "\<dots> \<le> MAX_CANONICAL_BYTES"
    using text_length [OF assms(1)] text_length [OF assms(2)] text_length [OF assms(3)] int_dec_length [OF assms(4)]
    by (simp add: MAX_CANONICAL_BYTES_def)
  finally show ?thesis by (simp add: canonical_digest_def Let_def)
qed

section \<open>The simulation\<close>

lemma simulatesI:
  assumes "\<And>k. incident_at co k = bridge_incident k db" "\<And>k. co_packet_ids co k = map_option hp_canonical_digest (lookup_packet k db)"
    and "\<And>k. has_request k db \<longleftrightarrow> co_request_ids co k \<noteq> None" "\<And>k. has_normal_receipt k db \<longleftrightarrow> co_receipt_ids co k \<noteq> None"
  shows "simulates db co"
  using assms by (simp add: simulates_def)

lemma simulatesD:
  assumes "simulates db co"
  shows "incident_at co k = bridge_incident k db" "co_packet_ids co k = map_option hp_canonical_digest (lookup_packet k db)"
    and "has_request k db \<longleftrightarrow> co_request_ids co k \<noteq> None" "has_normal_receipt k db \<longleftrightarrow> co_receipt_ids co k \<noteq> None"
  using assms unfolding simulates_def by blast+

lemma view_at: "lookup_incident k db = Some i \<Longrightarrow> bridge_incident k db = Some (incident_view k db i)"
  by (simp add: bridge_incident_def)

lemma view_fields [simp]:
  "ri_state (incident_view k db i) = iw_state i" "ri_expires_at (incident_view k db i) = iw_expires_at i"
  "ri_tenant_id (incident_view k db i) = fst k" "ri_incident_id (incident_view k db i) = snd k"
  "ri_generation (incident_view k db i) = iw_generation i" "ri_applied_packet_id (incident_view k db i) = iw_applied_packet_id i"
  "ri_request_id (incident_view k db i) = incident_request k db"
  "ri_packets (incident_view k db i) pid = map_option hp_packet (incident_packet k db pid)"
  "ri_packet_results (incident_view k db i) pid = map_option (\<lambda>p. (hp_canonical_digest p, hp_disposition p)) (incident_packet k db pid)"
  by (simp_all add: incident_view_def)

lemma simulate_restored:
  assumes sim: "simulates db co" and i: "lookup_incident k db = Some i" and st: "iw_state i \<in> {Open_Incident, Human_Requested}"
    and tx: "text_within 512 ''observation_ref'' ob = Inr ()"
  shows "\<exists>co'. coordinator_step env now co co' \<and>
    simulates (audit k ''automatic_path_restored'' cmd a ev (set_incident_state k Resolved_Automatic (db\<lparr>recovery_reprobes := rs\<rparr>))) co'"
proof (intro exI conjI)
  let ?i = "incident_view k db i"
  let ?co = "set_incident k (?i\<lparr>ri_state := Resolved_Automatic, ri_audit := ri_audit ?i @ [''automatic_path_restored'']\<rparr>) co"
  have at: "incident_at co k = Some ?i" using view_at [OF i] simulatesD(1) [OF sim] by simp
  have "ref_reprobe_succeeded k ob co = Inr (Resolved_Automatic, ?co)"
    using st tx at by (auto simp: ref_reprobe_succeeded_def TERMINAL_INCIDENT_STATES_def)
  then show "coordinator_step env now co ?co" by (rule step_reprobe)
  show "simulates (audit k ''automatic_path_restored'' cmd a ev (set_incident_state k Resolved_Automatic (db\<lparr>recovery_reprobes := rs\<rparr>))) ?co"
    by (rule simulatesI)
      (auto simp: simulatesD [OF sim] bridge_incident_audit bridge_incident_state REPROBE_NOTES_def view_at [OF i])
qed

lemma simulate_note:
  "simulates db co \<Longrightarrow> e \<in> set REPROBE_NOTES \<Longrightarrow> simulates (audit k e cmd a ev (db\<lparr>recovery_reprobes := rs\<rparr>)) co"
  by (rule simulatesI) (auto simp: simulatesD bridge_incident_audit)

lemma simulate_request:
  assumes sim: "simulates db co" and i: "lookup_incident k db = Some i" and st: "iw_state i = Open_Incident" and now: "now < iw_expires_at i"
    and tx: "texts_within [(''tenant_id'', fst k), (''incident_id'', snd k), (''request_id'', hr_request_id row)] = Inr ()"
    and row: "request_incident row = k" and new: "\<not> has_request (fst k, hr_request_id row) db"
    and key: "k \<notin> request_incident ` set (human_bridge_requests db)" and big: "bigint (iw_generation i) = Inr ()"
  shows "\<exists>co'. coordinator_step env now co co' \<and> simulates (audit k ''human_request_outbox_committed'' cmd a ev
      (set_incident_state k Human_Requested (db\<lparr>human_bridge_requests := human_bridge_requests db @ [row], bd_delivery := del\<rparr>))) co'"
proof -
  let ?i = "incident_view k db i"
  have at: "incident_at co k = Some ?i" using view_at [OF i] simulatesD(1) [OF sim] by simp
  have t: "text_within 512 ''tenant_id'' (fst k) = Inr ()" "text_within 512 ''incident_id'' (snd k) = Inr ()"
      "text_within 512 ''request_id'' (hr_request_id row) = Inr ()"
    using tx by (simp_all add: texts_within_Inr)
  obtain d where d: "canonical_digest env (request_dict (hr_request_id row) ?i) = Inr d"
    using request_digest_defined [OF t big, of ?i env] by auto
  have none: "incident_request k db = None"
    using key unfolding incident_request_def option.map_disc_iff find_None_iff_all image_iff by metis
  have free: "co_request_ids co (fst k, hr_request_id row) = None" using simulatesD(3) [OF sim] new by blast
  let ?co = "set_incident k (?i\<lparr>ri_request_id := Some (hr_request_id row), ri_state := Human_Requested,
      ri_audit := ri_audit ?i @ [''human_request_outbox_committed'']\<rparr>) (co\<lparr>co_request_ids := (co_request_ids co)((fst k, hr_request_id row) \<mapsto> d)\<rparr>)"
  have "ref_request_human env k (hr_request_id row) now True co = Inr (hr_request_id row, ?co)"
    using st now t none at d free by (simp add: ref_request_human_def)
  then have "coordinator_step env now co ?co" by (rule step_request)
  moreover have "simulates (audit k ''human_request_outbox_committed'' cmd a ev
      (set_incident_state k Human_Requested (db\<lparr>human_bridge_requests := human_bridge_requests db @ [row], bd_delivery := del\<rparr>))) ?co"
    using row key
    by (intro simulatesI) (auto simp: simulatesD [OF sim] bridge_incident_audit bridge_incident_state bridge_incident_request
        has_request_snoc REPROBE_NOTES_def view_at [OF i] request_incident_def)
  ultimately show ?thesis by blast
qed

lemma simulate_expired:
  assumes sim: "simulates db co" and i: "lookup_incident k db = Some i" and st: "iw_state i \<notin> set TERMINAL_INCIDENT_STATES"
    and due: "iw_expires_at i \<le> now \<or> (\<exists>d. bs_deadline (snap ''incident.expire.final'') = Some d \<and> d \<le> now)"
  shows "\<exists>co'. (coordinator_step env now co co' \<or> early_expiry snap now k co co') \<and>
    simulates (audit k ''incident_expired'' cmd a ev (set_incident_state k Incident_Expired db)) co'"
proof (intro exI conjI)
  let ?i = "incident_view k db i"
  let ?co = "set_incident k (?i\<lparr>ri_state := Incident_Expired, ri_audit := ri_audit ?i @ [''incident_expired'']\<rparr>) co"
  have at: "incident_at co k = Some ?i" using view_at [OF i] simulatesD(1) [OF sim] by simp
  show "coordinator_step env now co ?co \<or> early_expiry snap now k co ?co"
  proof (cases "iw_expires_at i \<le> now")
    case True
    then have "ref_expire k now co = Inr (Incident_Expired, ?co)" using at st by (simp add: ref_expire_def)
    then show ?thesis by (auto intro: step_expire)
  next
    case False
    then show ?thesis using due at st by (auto simp: early_expiry_def)
  qed
  show "simulates (audit k ''incident_expired'' cmd a ev (set_incident_state k Incident_Expired db)) ?co"
    by (rule simulatesI)
      (auto simp: simulatesD [OF sim] bridge_incident_audit bridge_incident_state REPROBE_NOTES_def view_at [OF i])
qed

lemma packet_ok_fields:
  "manual_packet_ok p = Inr () \<Longrightarrow> digest_field name (mn_accepted_state_digest p) = Inr () \<and> 0 \<le> mn_expected_accepted_revision p"
  by (simp add: manual_packet_ok_def digest_field_def)

lemma packet_identity: "packet_matches p i \<Longrightarrow> packet_identity_ok p (incident_view k db i)"
  by (simp add: packet_matches_def packet_identity_ok_def incident_view_def)

lemma submit_new:
  assumes sim: "simulates db co" and i: "lookup_incident k db = Some i" and k: "k = (mn_tenant_id p, mn_incident_id p)"
    and ok: "manual_packet_ok p = Inr ()" and d: "canonical_digest env (packet_dict env p) = Inr dg"
    and new: "lookup_packet (mn_tenant_id p, mn_packet_id p) db = None" and m: "packet_matches p i"
    and cur: "packet_current p (incident_view k db i) now av True (mn_expected_accepted_revision p) (mn_accepted_state_digest p) = current"
  shows "coordinator_step env now co (set_incident k (with_packet p dg current (incident_view k db i))
    (co\<lparr>co_packet_ids := (co_packet_ids co)((mn_tenant_id p, mn_packet_id p) \<mapsto> dg)\<rparr>))"
proof -
  let ?i = "incident_view k db i"
  have at: "incident_at co k = Some ?i" using view_at [OF i] simulatesD(1) [OF sim] by simp
  have k': "fst k = mn_tenant_id p" "snd k = mn_incident_id p" using k by simp_all
  have free: "co_packet_ids co (mn_tenant_id p, mn_packet_id p) = None" using simulatesD(2) [OF sim] new by simp
  have prior: "incident_packet k db (mn_packet_id p) = None"
    using new k unfolding incident_packet_def lookup_packet_def find_None_iff_all by auto
  have n: "\<not> mn_expected_accepted_revision p < 0" using packet_ok_fields [OF ok, of "[]"] by simp
  have "ref_submit_manual env k p now True av True (mn_expected_accepted_revision p) (mn_accepted_state_digest p) co =
      Inr (if current then ''committed'' else ''fenced_late'', set_incident k (with_packet p dg current ?i)
        (co\<lparr>co_packet_ids := (co_packet_ids co)((mn_tenant_id p, mn_packet_id p) \<mapsto> dg)\<rparr>))"
    using k' packet_ok_fields [OF ok] packet_identity [OF m] cur
    by (simp add: ref_submit_manual_def at free prior d n Let_def)
  then show ?thesis by (rule step_submit)
qed

lemma simulate_fenced:
  assumes sim: "simulates db co" and i: "lookup_incident k db = Some i" and k: "k = (mn_tenant_id p, mn_incident_id p)"
    and ok: "manual_packet_ok p = Inr ()" and d: "canonical_digest env (packet_dict env p) = Inr dg"
    and new: "lookup_packet (mn_tenant_id p, mn_packet_id p) db = None" and m: "packet_matches p i"
    and row: "row = \<lparr>hp_packet = p, hp_canonical_digest = dg, hp_disposition = ''fenced_late'', hp_normal_outbox_message_id = None\<rparr>"
  shows "\<exists>co'. coordinator_step env now co co' \<and>
    simulates (audit k ''manual_packet_fenced_late'' cmd a ev (db\<lparr>human_bridge_packets := human_bridge_packets db @ [row]\<rparr>)) co'"
proof (intro exI conjI)
  let ?co = "set_incident k (with_packet p dg False (incident_view k db i))
    (co\<lparr>co_packet_ids := (co_packet_ids co)((mn_tenant_id p, mn_packet_id p) \<mapsto> dg)\<rparr>)"
  show "coordinator_step env now co ?co"
    by (rule submit_new [OF sim i k ok d new m, where av = False]) (simp add: packet_current_def)
  have key: "packet_key row = (mn_tenant_id p, mn_packet_id p)" "packet_incident row = k" "lookup_packet (packet_key row) db = None"
    using new k by (simp_all add: row packet_key_def packet_incident_def)
  have row': "hp_packet row = p" "hp_canonical_digest row = dg" "hp_disposition row = ''fenced_late''" by (simp_all add: row)
  show "simulates (audit k ''manual_packet_fenced_late'' cmd a ev (db\<lparr>human_bridge_packets := human_bridge_packets db @ [row]\<rparr>)) ?co"
    using key(1)
    by (intro simulatesI) (auto simp: simulatesD [OF sim] bridge_incident_audit bridge_incident_packet [OF key(3) refl] lookup_packet_snoc [OF key(3)]
        key(2) row' REPROBE_NOTES_def view_at [OF i] with_packet_def Let_def)
qed

lemma simulate_committed:
  assumes sim: "simulates db co" and i: "lookup_incident k db = Some i" and k: "k = (mn_tenant_id p, mn_incident_id p)"
    and ok: "manual_packet_ok p = Inr ()" and d: "canonical_digest env (packet_dict env p) = Inr dg"
    and new: "lookup_packet (mn_tenant_id p, mn_packet_id p) db = None" and m: "packet_matches p i"
    and cur: "mn_incident_generation p = iw_generation i" "iw_state i = Human_Requested" "now < iw_expires_at i" "now < mn_expires_at p"
    and row: "row = \<lparr>hp_packet = p, hp_canonical_digest = dg, hp_disposition = ''committed'', hp_normal_outbox_message_id = Some (mn_packet_id p)\<rparr>"
  shows "\<exists>co'. coordinator_step env now co co' \<and>
    simulates (audit k ''manual_packet_committed'' cmd a ev (db\<lparr>human_bridge_packets := human_bridge_packets db @ [row],
      bd_delivery := del, recovery_incidents := update_where (\<lambda>i. incident_key i = k)
        (\<lambda>i. i\<lparr>iw_state := Manual_Packet_Committed, iw_applied_packet_id := Some (mn_packet_id p)\<rparr>) (recovery_incidents db)\<rparr>)) co'"
proof (intro exI conjI)
  let ?co = "set_incident k (with_packet p dg True (incident_view k db i))
    (co\<lparr>co_packet_ids := (co_packet_ids co)((mn_tenant_id p, mn_packet_id p) \<mapsto> dg)\<rparr>)"
  let ?db = "db\<lparr>human_bridge_packets := human_bridge_packets db @ [row], bd_delivery := del\<rparr>"
  show "coordinator_step env now co ?co"
  proof (rule submit_new [OF sim i k ok d new m, where av = True])
    show "packet_current p (incident_view k db i) now True True (mn_expected_accepted_revision p) (mn_accepted_state_digest p) = True"
      using cur m by (simp add: packet_current_def packet_matches_def incident_view_def)
  qed
  have key: "packet_key row = (mn_tenant_id p, mn_packet_id p)" "packet_incident row = k" "lookup_packet (packet_key row) db = None"
    using new k by (simp_all add: row packet_key_def packet_incident_def)
  have row': "hp_packet row = p" "hp_canonical_digest row = dg" "hp_disposition row = ''committed''" by (simp_all add: row)
  have upd: "bridge_incident j (?db\<lparr>recovery_incidents := update_where (\<lambda>i. incident_key i = k)
        (\<lambda>i. i\<lparr>iw_state := Manual_Packet_Committed, iw_applied_packet_id := Some (mn_packet_id p)\<rparr>) (recovery_incidents db)\<rparr>) =
      (if j = k then map_option (\<lambda>i. i\<lparr>ri_state := Manual_Packet_Committed, ri_applied_packet_id := Some (mn_packet_id p)\<rparr>) (bridge_incident j ?db)
       else bridge_incident j ?db)" for j
    by (rule bridge_incident_update) (simp_all add: incident_key_def incident_view_def)
  show "simulates (audit k ''manual_packet_committed'' cmd a ev (?db\<lparr>recovery_incidents := update_where (\<lambda>i. incident_key i = k)
        (\<lambda>i. i\<lparr>iw_state := Manual_Packet_Committed, iw_applied_packet_id := Some (mn_packet_id p)\<rparr>) (recovery_incidents db)\<rparr>)) ?co"
    using key(1)
    by (intro simulatesI) (auto simp: simulatesD [OF sim] bridge_incident_audit upd bridge_incident_packet [OF key(3) refl] lookup_packet_snoc [OF key(3)]
        key(2) row' REPROBE_NOTES_def view_at [OF i] with_packet_def Let_def)
qed

lemma simulate_open:
  assumes sim: "simulates db co" and adm: "incident_admissible c now True True = Inr ()"
    and d: "canonical_digest env (PyDict (incident_spec env c)) = Inr d" and ins: "insert_incident (open_row c dg) db = Inr db1"
    and k: "k = (ic_tenant_id c, ic_incident_id c)" and ok: "bridge_ok db"
  shows "\<exists>co'. coordinator_step env now co co' \<and>
    simulates (audit k ''incident_opened'' cmd a ev (db1\<lparr>recovery_path_attempts := ws\<rparr>)) co'"
proof (intro exI conjI)
  have db1: "db1 = db\<lparr>recovery_incidents := recovery_incidents db @ [open_row c dg]\<rparr>"
    and new: "k \<notin> incident_key ` set (recovery_incidents db)"
    using ins k by (auto simp: insert_incident_def incident_key_def open_row_def)
  have none: "lookup_incident k db = None" using new unfolding lookup_incident_def find_None_iff_all image_iff by metis
  let ?co = "co\<lparr>co_incidents := (co_incidents co)(k \<mapsto> (d, new_incident c))\<rparr>"
  have "co_incidents co k = None" using simulatesD(1) [OF sim, of k] none by (simp add: bridge_incident_def incident_at_def)
  then have "ref_open_incident env c now True True co = Inr (new_incident c, ?co)"
    using adm d k by (simp add: ref_open_incident_def)
  then show "coordinator_step env now co ?co" by (rule step_open)
  have q: "find (\<lambda>r. request_incident r = k) (human_bridge_requests db) = None"
    and p: "find (\<lambda>p. packet_key p = (fst k, x) \<and> packet_incident p = k) (human_bridge_packets db) = None"
    and u: "filter (\<lambda>a. audit_incident a = k) (recovery_audit_events db) = []" for x
    using ok new unfolding bridge_ok_def find_None_iff_all filter_empty_conv by blast+
  have view: "bridge_incident j db1 = (if j = k then Some ((new_incident c)\<lparr>ri_audit := []\<rparr>) else bridge_incident j db)" for j
    using none
    by (cases "find (\<lambda>i. incident_key i = j) (recovery_incidents db)")
      (auto simp: db1 view_defs find_snoc q [unfolded k] p [unfolded k fst_conv] u [unfolded k] k open_row_def new_incident_def incident_key_def)
  show "simulates (audit k ''incident_opened'' cmd a ev (db1\<lparr>recovery_path_attempts := ws\<rparr>)) ?co"
  proof (rule simulatesI)
    fix j
    show "incident_at ?co j = bridge_incident j (audit k ''incident_opened'' cmd a ev (db1\<lparr>recovery_path_attempts := ws\<rparr>))"
      using simulatesD(1) [OF sim, of j]
      by (auto simp: bridge_incident_audit view REPROBE_NOTES_def new_incident_def incident_at_def)
  qed (simp_all add: db1 simulatesD [OF sim])
qed

lemma incident_packet_lookup:
  assumes "lookup_packet (fst k, pid) db = Some p" "packet_incident p = k"
  shows "incident_packet k db pid = Some p"
proof -
  have "find (\<lambda>p. packet_key p = (fst k, pid)) ps = Some p \<Longrightarrow> find (\<lambda>p. packet_key p = (fst k, pid) \<and> packet_incident p = k) ps = Some p" for ps
    using assms(2) by (induction ps) (auto split: if_splits)
  then show ?thesis using assms(1) by (simp add: incident_packet_def lookup_packet_def)
qed

lemma simulate_confirmed:
  assumes sim: "simulates db co" and i: "lookup_incident k db = Some i" and k: "k = (nc_tenant_id r, nc_incident_id r)"
    and d: "canonical_digest env (receipt_dict r) = Inr dg"
    and pid: "iw_applied_packet_id i = Some pid" and p: "lookup_packet (iw_tenant_id i, pid) db = Some p" and m: "receipt_matches r i (hp_packet p)"
    and new: "\<not> has_normal_receipt (nc_tenant_id r, nc_receipt_id r) db"
    and key: "\<forall>w \<in> set (human_bridge_normal_receipts db). (nc_tenant_id (nw_receipt w), nc_incident_id (nw_receipt w), nc_packet_id (nw_receipt w)) \<noteq>
       (nc_tenant_id r, nc_incident_id r, nc_packet_id r)"
    and ok: "bridge_ok db"
  shows "iw_state i = Manual_Packet_Committed"
    and "\<exists>co'. coordinator_step env now co co' \<and> simulates (audit k ''manual_path_resolved'' cmd a ev (set_incident_state k Resolved_Manual
      (db\<lparr>human_bridge_normal_receipts := human_bridge_normal_receipts db @ [\<lparr>nw_receipt = r, nw_canonical_digest = dg\<rparr>]\<rparr>))) co'"
proof -
  let ?i = "incident_view k db i"
  have at: "incident_at co k = Some ?i" using view_at [OF i] simulatesD(1) [OF sim] by simp
  have ik: "i \<in> set (recovery_incidents db)" "incident_key i = k" using lookup_incidentD [OF i] by simp_all
  then have t: "iw_tenant_id i = nc_tenant_id r" "iw_incident_id i = nc_incident_id r" "fst k = nc_tenant_id r" "snd k = nc_incident_id r"
    using k by (simp_all add: incident_key_def)
  have aok: "applied_packet_ok db i" and rok: "resolved_ok db i" using ok ik by (auto simp: bridge_ok_def)
  have inc: "packet_incident p = k" using aok pid p ik by (auto simp: applied_packet_ok_def)
  have pr: "incident_packet k db pid = Some p" using p inc t by (intro incident_packet_lookup) simp_all
  have pk: "mn_packet_id (hp_packet p) = pid" using lookup_packetD [OF p] by (simp add: packet_key_def)
  have pid_r: "nc_packet_id r = pid" using m pid by (simp add: receipt_matches_def)
  have "iw_state i \<noteq> Resolved_Manual"
  proof
    assume "iw_state i = Resolved_Manual"
    then obtain w where "w \<in> set (human_bridge_normal_receipts db)" "nc_tenant_id (nw_receipt w) = iw_tenant_id i"
        "nc_incident_id (nw_receipt w) = iw_incident_id i" "Some (nc_packet_id (nw_receipt w)) = Some pid"
      using rok pid by (auto simp: resolved_ok_def)
    then show False using key t pid_r by auto
  qed
  then show st: "iw_state i = Manual_Packet_Committed" using m by (auto simp: receipt_matches_def)
  have conf: "confirms r (hp_packet p) ?i"
    using m pid_r pk t by (simp add: confirms_def receipt_matches_def) (simp add: incident_view_def)
  have free: "co_receipt_ids co (fst k, nc_receipt_id r) = None" using simulatesD(4) [OF sim] new t by simp
  let ?co = "set_incident k (?i\<lparr>ri_state := Resolved_Manual, ri_audit := ri_audit ?i @ [''manual_path_resolved'']\<rparr>)
    (co\<lparr>co_receipt_ids := (co_receipt_ids co)((fst k, nc_receipt_id r) \<mapsto> dg)\<rparr>)"
  have "ref_confirm_manual env k pid r co = Inr (Resolved_Manual, ?co)"
    using st pid conf by (simp add: ref_confirm_manual_def at pr d free)
  then have "coordinator_step env now co ?co" by (rule step_confirm)
  moreover have "simulates (audit k ''manual_path_resolved'' cmd a ev (set_incident_state k Resolved_Manual
      (db\<lparr>human_bridge_normal_receipts := human_bridge_normal_receipts db @ [\<lparr>nw_receipt = r, nw_canonical_digest = dg\<rparr>]\<rparr>))) ?co"
    using t by (intro simulatesI) (auto simp: simulatesD [OF sim] bridge_incident_audit bridge_incident_state has_normal_receipt_snoc REPROBE_NOTES_def view_at [OF i])
  ultimately show "\<exists>co'. coordinator_step env now co co' \<and> simulates (audit k ''manual_path_resolved'' cmd a ev (set_incident_state k Resolved_Manual
      (db\<lparr>human_bridge_normal_receipts := human_bridge_normal_receipts db @ [\<lparr>nw_receipt = r, nw_canonical_digest = dg\<rparr>]\<rparr>))) co'" by blast
qed

lemma effect_simulates:
  assumes sim: "simulates db co" and ok: "bridge_ok db" and eff: "bridge_effect env snap now db db'"
  shows "\<exists>co'. (co' = co \<or> coordinator_step env now co co' \<or> (\<exists>k. early_expiry snap now k co co')) \<and> simulates db' co'"
  using eff
proof cases
  case effect_none
  then show ?thesis using sim by blast
next
  case (effect_open c d dg db1 k cmd a ev ws)
  from simulate_open [OF sim effect_open(2,3,4,5) ok] show ?thesis unfolding effect_open(1) by blast
next
  case (effect_request k i row cmd a ev del)
  have "bigint (iw_generation i) = Inr ()" using ok lookup_incidentD [OF effect_request(2)] by (simp add: bridge_ok_def)
  from simulate_request [OF sim effect_request(2-8) this] show ?thesis unfolding effect_request(1) by blast
next
  case (effect_note k i e cmd a ev rs)
  from simulate_note [OF sim effect_note(3)] show ?thesis unfolding effect_note(1) by blast
next
  case (effect_restored k i ob cmd a ev rs)
  from simulate_restored [OF sim effect_restored(2-4)] show ?thesis unfolding effect_restored(1) by blast
next
  case (effect_fenced k i p dg row cmd a ev)
  from simulate_fenced [OF sim effect_fenced(2-8)] show ?thesis unfolding effect_fenced(1) by blast
next
  case (effect_committed k i p dg row cmd a ev del)
  from simulate_committed [OF sim effect_committed(2-12)] show ?thesis unfolding effect_committed(1) by blast
next
  case (effect_confirmed k i r dg pid p cmd a ev)
  from simulate_confirmed(2) [OF sim effect_confirmed(2-9) ok] show ?thesis unfolding effect_confirmed(1) by blast
next
  case (effect_expired k i cmd a ev)
  from simulate_expired [where snap = snap, OF sim effect_expired(2-4)] show ?thesis unfolding effect_expired(1) by blast
qed

section \<open>The invariant\<close>

lemma applied_packet_ok_cong: "human_bridge_packets db = human_bridge_packets db' \<Longrightarrow> applied_packet_ok db i = applied_packet_ok db' i"
  by (simp only: applied_packet_ok_def lookup_packet_def)

lemma applied_frame [simp]:
  "applied_packet_ok (db\<lparr>bd_delivery := d\<rparr>) i = applied_packet_ok db i" "applied_packet_ok (db\<lparr>recovery_incidents := is\<rparr>) i = applied_packet_ok db i"
  "applied_packet_ok (db\<lparr>recovery_path_attempts := ws\<rparr>) i = applied_packet_ok db i" "applied_packet_ok (db\<lparr>recovery_reprobes := rs\<rparr>) i = applied_packet_ok db i"
  "applied_packet_ok (db\<lparr>human_bridge_requests := qs\<rparr>) i = applied_packet_ok db i"
  "applied_packet_ok (db\<lparr>human_bridge_normal_receipts := ns\<rparr>) i = applied_packet_ok db i"
  "applied_packet_ok (db\<lparr>recovery_audit_events := as\<rparr>) i = applied_packet_ok db i"
  by (rule applied_packet_ok_cong; simp)+

lemma resolved_frame [simp]:
  "resolved_ok (db\<lparr>bd_delivery := d\<rparr>) i = resolved_ok db i" "resolved_ok (db\<lparr>recovery_incidents := is\<rparr>) i = resolved_ok db i"
  "resolved_ok (db\<lparr>recovery_path_attempts := ws\<rparr>) i = resolved_ok db i" "resolved_ok (db\<lparr>recovery_reprobes := rs\<rparr>) i = resolved_ok db i"
  "resolved_ok (db\<lparr>human_bridge_requests := qs\<rparr>) i = resolved_ok db i" "resolved_ok (db\<lparr>human_bridge_packets := ps\<rparr>) i = resolved_ok db i"
  "resolved_ok (db\<lparr>recovery_audit_events := as\<rparr>) i = resolved_ok db i"
  by (simp_all add: resolved_ok_def)

lemma bridge_ok_frame [simp]:
  "bridge_ok (db\<lparr>bd_delivery := d\<rparr>) = bridge_ok db" "bridge_ok (db\<lparr>recovery_path_attempts := ws\<rparr>) = bridge_ok db"
  "bridge_ok (db\<lparr>recovery_reprobes := rs\<rparr>) = bridge_ok db"
  by (simp_all add: bridge_ok_def)

lemma bridge_ok_audit: "bridge_ok db \<Longrightarrow> k \<in> incident_key ` set (recovery_incidents db) \<Longrightarrow> bridge_ok (audit k e cmd a ev db)"
  by (simp add: bridge_ok_def audit_def audit_incident_def)

lemma bridge_ok_request:
  "bridge_ok db \<Longrightarrow> request_incident row \<in> incident_key ` set (recovery_incidents db) \<Longrightarrow>
   bridge_ok (db\<lparr>human_bridge_requests := human_bridge_requests db @ [row]\<rparr>)"
  by (simp add: bridge_ok_def)

lemma bridge_ok_receipt: "bridge_ok db \<Longrightarrow> bridge_ok (db\<lparr>human_bridge_normal_receipts := human_bridge_normal_receipts db @ [row]\<rparr>)"
  unfolding bridge_ok_def resolved_ok_def by auto

lemma distinct_filter_map:
  assumes P: "\<And>x. x \<in> set xs \<Longrightarrow> P (h x) \<Longrightarrow> P x" and g: "\<And>x. g (h x) = g x" and d: "distinct (map g (filter P xs))"
  shows "distinct (map g (filter P (map h xs)))"
proof -
  have "map g (filter P (map h xs)) = map g (filter (\<lambda>x. P (h x)) xs)"
    by (simp add: filter_map comp_def g)
  also have "filter (\<lambda>x. P (h x)) xs = filter (\<lambda>x. P (h x)) (filter P xs)"
    using P by (induction xs) auto
  finally show ?thesis using d by (simp only: distinct_map_filter)
qed

lemma applied_packet_ok_other:
  assumes "applied_packet_ok db j" and "\<And>p. p \<in> set extra \<Longrightarrow> packet_incident p \<noteq> incident_key j"
  shows "applied_packet_ok (db\<lparr>human_bridge_packets := human_bridge_packets db @ extra\<rparr>) j"
  using assms by (cases "iw_applied_packet_id j") (auto simp: applied_packet_ok_def lookup_packet_def find_append)

lemma bridge_ok_update:
  assumes ok: "bridge_ok db" and i: "lookup_incident k db = Some i"
    and keeps: "\<And>j. incident_key (f j) = incident_key j \<and> iw_tenant_id (f j) = iw_tenant_id j \<and> iw_message_id (f j) = iw_message_id j \<and> iw_generation (f j) = iw_generation j"
    and act: "iw_state (f i) \<in> set ACTIVE_INCIDENT_STATES \<Longrightarrow> iw_state i \<in> set ACTIVE_INCIDENT_STATES"
    and extra: "\<And>p. p \<in> set extra \<Longrightarrow> packet_incident p = k" "distinct (map packet_key (human_bridge_packets db @ extra))"
    and new: "applied_packet_ok (db\<lparr>human_bridge_packets := human_bridge_packets db @ extra\<rparr>) (f i)" "resolved_ok db (f i)"
  shows "bridge_ok (db\<lparr>human_bridge_packets := human_bridge_packets db @ extra,
    recovery_incidents := update_where (\<lambda>i. incident_key i = k) f (recovery_incidents db)\<rparr>)"
proof -
  let ?rows = "update_where (\<lambda>i. incident_key i = k) f (recovery_incidents db)"
  have ik: "i \<in> set (recovery_incidents db)" "incident_key i = k" using lookup_incidentD [OF i] by simp_all
  have d: "distinct (map incident_key (recovery_incidents db))" using ok by (simp add: bridge_ok_def)
  have only: "j = i" if "j \<in> set (recovery_incidents db)" "incident_key j = k" for j using key_unique [OF d] that ik by metis
  have keys: "map incident_key ?rows = map incident_key (recovery_incidents db)" using keeps by (simp add: map_update_where)
  then have keyset: "incident_key ` set ?rows = incident_key ` set (recovery_incidents db)" by (metis list.set_map)
  have act': "distinct (map (\<lambda>i. (iw_tenant_id i, iw_message_id i)) (filter (\<lambda>i. iw_state i \<in> set ACTIVE_INCIDENT_STATES) ?rows))"
    unfolding update_where_def
  proof (rule distinct_filter_map)
    show "iw_state j \<in> set ACTIVE_INCIDENT_STATES" if "j \<in> set (recovery_incidents db)"
        "iw_state (if incident_key j = k then f j else j) \<in> set ACTIVE_INCIDENT_STATES" for j
      using that act only [of j] by (auto split: if_splits)
  qed (use keeps ok in \<open>auto simp: bridge_ok_def\<close>)
  have rows: "applied_packet_ok (db\<lparr>human_bridge_packets := human_bridge_packets db @ extra\<rparr>) j \<and> resolved_ok db j \<and> bigint (iw_generation j) = Inr ()"
    if j: "j \<in> set ?rows" for j
  proof -
    from j obtain j0 where j0: "j0 \<in> set (recovery_incidents db)" "j = (if incident_key j0 = k then f j0 else j0)"
      by (auto simp: set_update_where)
    have old: "applied_packet_ok db j0" "resolved_ok db j0" "bigint (iw_generation j0) = Inr ()" using ok j0 by (auto simp: bridge_ok_def)
    show ?thesis
    proof (cases "incident_key j0 = k")
      case True
      then show ?thesis using only [OF j0(1)] new j0 old keeps by simp
    next
      case False
      then show ?thesis using applied_packet_ok_other [OF old(1)] extra(1) old j0 by auto
    qed
  qed
  have "packet_incident ` set extra \<subseteq> incident_key ` set (recovery_incidents db)" using extra(1) ik by auto
  then show ?thesis using ok rows act' extra(2) by (simp add: bridge_ok_def keys keyset image_Un)
qed

lemma bridge_ok_state:
  assumes ok: "bridge_ok db" and i: "lookup_incident k db = Some i" and act: "s \<in> set ACTIVE_INCIDENT_STATES \<Longrightarrow> iw_state i \<in> set ACTIVE_INCIDENT_STATES"
    and new: "applied_packet_ok db (i\<lparr>iw_state := s\<rparr>)" "resolved_ok db (i\<lparr>iw_state := s\<rparr>)"
  shows "bridge_ok (set_incident_state k s db)"
proof -
  have d: "distinct (map packet_key (human_bridge_packets db))" using ok by (simp add: bridge_ok_def)
  have same: "db\<lparr>human_bridge_packets := human_bridge_packets db\<rparr> = db" by simp
  have "bridge_ok (db\<lparr>human_bridge_packets := human_bridge_packets db @ [],
      recovery_incidents := update_where (\<lambda>i. incident_key i = k) (iw_state_update (\<lambda>_. s)) (recovery_incidents db)\<rparr>)"
    by (rule bridge_ok_update [OF ok i]) (use act new d in \<open>simp_all add: incident_key_def\<close>)
  then show ?thesis by (simp add: set_incident_state_def)
qed

lemma applied_packet_ok_state:
  "applied_packet_ok db i \<Longrightarrow> (iw_applied_packet_id i = None \<Longrightarrow> s \<notin> {Manual_Packet_Committed, Resolved_Manual}) \<Longrightarrow>
   (iw_applied_packet_id i \<noteq> None \<Longrightarrow> s \<notin> {Open_Incident, Human_Requested, Resolved_Automatic}) \<Longrightarrow> applied_packet_ok db (i\<lparr>iw_state := s\<rparr>)"
  by (cases "iw_applied_packet_id i") (auto simp: applied_packet_ok_def incident_key_def)

lemma not_applied: "applied_packet_ok db i \<Longrightarrow> iw_state i \<in> {Open_Incident, Human_Requested} \<Longrightarrow> iw_applied_packet_id i = None"
  by (cases "iw_applied_packet_id i") (auto simp: applied_packet_ok_def)

lemma ok_at: "bridge_ok db \<Longrightarrow> lookup_incident k db = Some i \<Longrightarrow>
    applied_packet_ok db i \<and> resolved_ok db i \<and> incident_key i = k \<and> k \<in> incident_key ` set (recovery_incidents db)"
  using lookup_incidentD [of k db i] by (auto simp: bridge_ok_def)

lemma lookup_incident_frame [simp]:
  "lookup_incident k (db\<lparr>bd_delivery := d\<rparr>) = lookup_incident k db" "lookup_incident k (db\<lparr>human_bridge_requests := qs\<rparr>) = lookup_incident k db"
  "lookup_incident k (db\<lparr>recovery_reprobes := rs\<rparr>) = lookup_incident k db"
  "lookup_incident k (db\<lparr>human_bridge_normal_receipts := ns\<rparr>) = lookup_incident k db"
  by (simp_all add: lookup_incident_def)

lemma state_keys [simp]: "incident_key ` set (recovery_incidents (set_incident_state k s db)) = incident_key ` set (recovery_incidents db)"
proof -
  have "map incident_key (recovery_incidents (set_incident_state k s db)) = map incident_key (recovery_incidents db)"
    by (simp add: set_incident_state_def map_update_where incident_key_def)
  then show ?thesis by (metis list.set_map)
qed

lemma ok_open:
  assumes ok: "bridge_ok db" and ins: "insert_incident (open_row c dg) db = Inr db1" and k: "k = (ic_tenant_id c, ic_incident_id c)"
  shows "bridge_ok (audit k e cmd a ev (db1\<lparr>recovery_path_attempts := ws\<rparr>))"
proof (rule bridge_ok_audit)
  have db1: "db1 = db\<lparr>recovery_incidents := recovery_incidents db @ [open_row c dg]\<rparr>"
    and new: "incident_key (open_row c dg) \<notin> incident_key ` set (recovery_incidents db)"
    and act: "(ic_tenant_id c, ic_message_id c) \<notin> (\<lambda>j. (iw_tenant_id j, iw_message_id j)) ` set (filter (\<lambda>j. iw_state j \<in> set ACTIVE_INCIDENT_STATES) (recovery_incidents db))"
    and big: "bigint (ic_generation c) = Inr ()"
    using ins by (auto simp: insert_incident_def open_row_def)
  have "packet_incident p \<noteq> incident_key (open_row c dg)" if "p \<in> set (human_bridge_packets db)" for p
    using that ok new unfolding bridge_ok_def by (metis image_subset_iff)
  then have "applied_packet_ok db (open_row c dg)" by (auto simp: applied_packet_ok_def open_row_def)
  moreover have "resolved_ok db (open_row c dg)" by (simp add: resolved_ok_def open_row_def)
  ultimately show "bridge_ok (db1\<lparr>recovery_path_attempts := ws\<rparr>)"
    using ok new act big by (auto simp: bridge_ok_def db1 open_row_def)
  show "k \<in> incident_key ` set (recovery_incidents (db1\<lparr>recovery_path_attempts := ws\<rparr>))" by (simp add: db1 k incident_key_def open_row_def)
qed

lemma ok_packet:
  assumes ok: "bridge_ok db" and i: "lookup_incident k db = Some i" and k: "k = (mn_tenant_id p, mn_incident_id p)"
    and new: "lookup_packet (mn_tenant_id p, mn_packet_id p) db = None" and row: "hp_packet row = p"
  shows "packet_incident row = k" "distinct (map packet_key (human_bridge_packets db @ [row]))" "iw_tenant_id i = mn_tenant_id p"
    and "lookup_packet (mn_tenant_id p, mn_packet_id p) (db\<lparr>human_bridge_packets := human_bridge_packets db @ [row]\<rparr>) = Some row"
proof -
  have key: "packet_key row = (mn_tenant_id p, mn_packet_id p)" by (simp add: row packet_key_def)
  have "packet_key row \<notin> packet_key ` set (human_bridge_packets db)"
    using new unfolding key lookup_packet_def find_None_iff_all image_iff by metis
  then show "distinct (map packet_key (human_bridge_packets db @ [row]))" using ok by (simp add: bridge_ok_def)
  show "packet_incident row = k" by (simp add: row k packet_incident_def)
  show "iw_tenant_id i = mn_tenant_id p" using ok_at [OF ok i] k by (simp add: incident_key_def)
  show "lookup_packet (mn_tenant_id p, mn_packet_id p) (db\<lparr>human_bridge_packets := human_bridge_packets db @ [row]\<rparr>) = Some row"
    using lookup_packet_snoc [of row db "(mn_tenant_id p, mn_packet_id p)"] new key by simp
qed

lemma ok_fenced:
  assumes ok: "bridge_ok db" and i: "lookup_incident k db = Some i" and k: "k = (mn_tenant_id p, mn_incident_id p)"
    and new: "lookup_packet (mn_tenant_id p, mn_packet_id p) db = None" and row: "hp_packet row = p" "hp_disposition row = ''fenced_late''"
  shows "bridge_ok (db\<lparr>human_bridge_packets := human_bridge_packets db @ [row]\<rparr>)"
proof -
  have "applied_packet_ok (db\<lparr>human_bridge_packets := human_bridge_packets db @ [row]\<rparr>) i"
    using ok_at [OF ok i] row by (cases "iw_applied_packet_id i") (auto simp: applied_packet_ok_def lookup_packet_def find_append)
  then have "bridge_ok (db\<lparr>human_bridge_packets := human_bridge_packets db @ [row],
      recovery_incidents := update_where (\<lambda>i. incident_key i = k) (\<lambda>i. i) (recovery_incidents db)\<rparr>)"
    using ok_packet [OF ok i k new row(1)] ok_at [OF ok i] by (intro bridge_ok_update [OF ok i]) auto
  moreover have "update_where (\<lambda>i. incident_key i = k) (\<lambda>i. i) (recovery_incidents db) = recovery_incidents db" by (simp add: update_where_def)
  ultimately show ?thesis by simp
qed

lemma ok_committed:
  assumes ok: "bridge_ok db" and i: "lookup_incident k db = Some i" and k: "k = (mn_tenant_id p, mn_incident_id p)"
    and new: "lookup_packet (mn_tenant_id p, mn_packet_id p) db = None" and row: "hp_packet row = p" "hp_disposition row = ''committed''"
    and st: "iw_state i = Human_Requested"
  shows "bridge_ok (db\<lparr>human_bridge_packets := human_bridge_packets db @ [row], recovery_incidents := update_where (\<lambda>i. incident_key i = k)
        (\<lambda>i. i\<lparr>iw_state := Manual_Packet_Committed, iw_applied_packet_id := Some (mn_packet_id p)\<rparr>) (recovery_incidents db)\<rparr>)"
proof (rule bridge_ok_update [OF ok i])
  let ?f = "\<lambda>i. i\<lparr>iw_state := Manual_Packet_Committed, iw_applied_packet_id := Some (mn_packet_id p)\<rparr>"
  note pk = ok_packet [OF ok i k new row(1)] and at = ok_at [OF ok i]
  have "iw_applied_packet_id i = None" using at st by (auto intro: not_applied)
  then have fenced: "\<forall>q \<in> set (human_bridge_packets db). packet_incident q = incident_key i \<longrightarrow> hp_disposition q = ''fenced_late''"
    using at by (simp add: applied_packet_ok_def)
  have ki: "incident_key (?f i) = incident_key i" "iw_tenant_id (?f i) = mn_tenant_id p" using pk(3) by (simp_all add: incident_key_def)
  show "applied_packet_ok (db\<lparr>human_bridge_packets := human_bridge_packets db @ [row]\<rparr>) (?f i)"
    using fenced pk(1,3,4) at row ki by (auto simp: applied_packet_ok_def)
  show "resolved_ok db (?f i)" by (simp add: resolved_ok_def)
  show "packet_incident q = k" if "q \<in> set [row]" for q using that pk(1) by simp
  show "distinct (map packet_key (human_bridge_packets db @ [row]))" by (rule pk(2))
  show "iw_state i \<in> set ACTIVE_INCIDENT_STATES" using st by (simp add: ACTIVE_INCIDENT_STATES_def)
qed (simp add: incident_key_def)

lemma ok_confirmed:
  assumes ok: "bridge_ok db" and i: "lookup_incident k db = Some i" and k: "k = (nc_tenant_id r, nc_incident_id r)"
    and pid: "iw_applied_packet_id i = Some pid" and m: "receipt_matches r i (hp_packet p)" and st: "iw_state i = Manual_Packet_Committed"
  shows "bridge_ok (set_incident_state k Resolved_Manual
    (db\<lparr>human_bridge_normal_receipts := human_bridge_normal_receipts db @ [\<lparr>nw_receipt = r, nw_canonical_digest = dg\<rparr>]\<rparr>))"
proof (rule bridge_ok_state [OF bridge_ok_receipt [OF ok]])
  let ?db = "db\<lparr>human_bridge_normal_receipts := human_bridge_normal_receipts db @ [\<lparr>nw_receipt = r, nw_canonical_digest = dg\<rparr>]\<rparr>"
  note at = ok_at [OF ok i]
  show "lookup_incident k ?db = Some i" using i by simp
  show "applied_packet_ok ?db (i\<lparr>iw_state := Resolved_Manual\<rparr>)" using at pid by (auto intro: applied_packet_ok_state)
  show "resolved_ok ?db (i\<lparr>iw_state := Resolved_Manual\<rparr>)"
    using at k pid m by (simp add: resolved_ok_def incident_key_def receipt_matches_def)
qed (simp add: ACTIVE_INCIDENT_STATES_def)

lemma ok_moved:
  assumes ok: "bridge_ok db" and i: "lookup_incident k db = Some i" and st: "iw_state i \<notin> set TERMINAL_INCIDENT_STATES"
    and s: "s = Incident_Expired \<or> iw_state i \<in> {Open_Incident, Human_Requested} \<and> s \<in> {Human_Requested, Resolved_Automatic}"
  shows "bridge_ok (set_incident_state k s db)"
proof (rule bridge_ok_state [OF ok i])
  note at = ok_at [OF ok i]
  show "iw_state i \<in> set ACTIVE_INCIDENT_STATES" using st by (cases "iw_state i") (auto simp: TERMINAL_INCIDENT_STATES_def ACTIVE_INCIDENT_STATES_def)
  show "applied_packet_ok db (i\<lparr>iw_state := s\<rparr>)" using at s not_applied [of db i] by (intro applied_packet_ok_state) auto
  show "resolved_ok db (i\<lparr>iw_state := s\<rparr>)" using s by (auto simp: resolved_ok_def)
qed

lemma effect_ok:
  assumes ok: "bridge_ok db" and sim: "simulates db co" and eff: "bridge_effect env snap now db db'"
  shows "bridge_ok db'"
  using eff
proof cases
  case effect_none
  then show ?thesis using ok by simp
next
  case (effect_open c d dg db1 k cmd a ev ws)
  from ok_open [OF ok effect_open(4,5)] show ?thesis unfolding effect_open(1) .
next
  case (effect_request k i row cmd a ev del)
  note at = ok_at [OF ok effect_request(2)]
  have "bridge_ok (db\<lparr>human_bridge_requests := human_bridge_requests db @ [row], bd_delivery := del\<rparr>)"
    using bridge_ok_request [OF ok, of row] at effect_request(6) by simp
  then have "bridge_ok (set_incident_state k Human_Requested (db\<lparr>human_bridge_requests := human_bridge_requests db @ [row], bd_delivery := del\<rparr>))"
    using effect_request(2,3) by (intro ok_moved [where i = i]) (simp_all add: TERMINAL_INCIDENT_STATES_def)
  then show ?thesis unfolding effect_request(1) using at by (intro bridge_ok_audit) auto
next
  case (effect_note k i e cmd a ev rs)
  then show ?thesis using ok ok_at [OF ok effect_note(2)] by (auto intro: bridge_ok_audit)
next
  case (effect_restored k i ob cmd a ev rs)
  note at = ok_at [OF ok effect_restored(2)]
  have "bridge_ok (set_incident_state k Resolved_Automatic (db\<lparr>recovery_reprobes := rs\<rparr>))"
    using ok effect_restored(2,3) by (intro ok_moved [where i = i]) (auto simp: TERMINAL_INCIDENT_STATES_def)
  then show ?thesis unfolding effect_restored(1) using at by (intro bridge_ok_audit) auto
next
  case (effect_fenced k i p dg row cmd a ev)
  have "bridge_ok (db\<lparr>human_bridge_packets := human_bridge_packets db @ [row]\<rparr>)"
    using effect_fenced(8) by (intro ok_fenced [OF ok effect_fenced(2,3,6)]) simp_all
  then show ?thesis unfolding effect_fenced(1) using ok_at [OF ok effect_fenced(2)] by (intro bridge_ok_audit) auto
next
  case (effect_committed k i p dg row cmd a ev del)
  have "bridge_ok (db\<lparr>human_bridge_packets := human_bridge_packets db @ [row], recovery_incidents := update_where (\<lambda>i. incident_key i = k)
        (\<lambda>i. i\<lparr>iw_state := Manual_Packet_Committed, iw_applied_packet_id := Some (mn_packet_id p)\<rparr>) (recovery_incidents db)\<rparr>)" (is "bridge_ok ?db")
    using effect_committed(9,12) by (intro ok_committed [OF ok effect_committed(2,3,6)]) simp_all
  then have "bridge_ok (?db\<lparr>bd_delivery := del\<rparr>)" by simp
  moreover have "?db\<lparr>bd_delivery := del\<rparr> = db\<lparr>human_bridge_packets := human_bridge_packets db @ [row], bd_delivery := del,
      recovery_incidents := recovery_incidents ?db\<rparr>" by (cases db) simp
  moreover have "incident_key ` set (recovery_incidents ?db) = incident_key ` set (recovery_incidents db)"
  proof -
    have "map incident_key (recovery_incidents ?db) = map incident_key (recovery_incidents db)" by (simp add: map_update_where incident_key_def)
    then show ?thesis by (metis list.set_map)
  qed
  ultimately show ?thesis unfolding effect_committed(1) using ok_at [OF ok effect_committed(2)] by (intro bridge_ok_audit) auto
next
  case (effect_confirmed k i r dg pid p cmd a ev)
  have st: "iw_state i = Manual_Packet_Committed" by (rule simulate_confirmed(1) [OF sim effect_confirmed(2-9) ok])
  show ?thesis unfolding effect_confirmed(1)
    using ok_at [OF ok effect_confirmed(2)] ok_confirmed [OF ok effect_confirmed(2,3,5,7) st] by (intro bridge_ok_audit) simp_all
next
  case (effect_expired k i cmd a ev)
  then show ?thesis using ok_at [OF ok effect_expired(2)] ok_moved [OF ok effect_expired(2,3)] by (auto intro: bridge_ok_audit)
qed

lemma reachable_simulates:
  assumes "bridge_reachable env db"
  shows "bridge_ok db \<and> (\<exists>co. simulates db co)"
  using assms
proof induction
  case (bridge_start d)
  have "simulates \<lparr>bd_delivery = d, recovery_incidents = [], recovery_path_attempts = [], human_bridge_requests = [], recovery_reprobes = [],
      human_bridge_packets = [], human_bridge_normal_receipts = [], recovery_audit_events = []\<rparr> empty_coordinator"
    by (rule simulatesI) (simp_all add: empty_coordinator_def incident_at_def bridge_incident_def lookup_incident_def lookup_packet_def has_request_def has_normal_receipt_def)
  then show ?case by (auto simp: bridge_ok_def)
next
  case (bridge_call db snap clk operation r db')
  then obtain co where ok: "bridge_ok db" and sim: "simulates db co" by blast
  from bridge_run_effect [OF bridge_call(2)] show ?case
    using effect_simulates [OF sim ok] effect_ok [OF ok sim] by blast
next
  case (bridge_other db d)
  then obtain co where sim: "simulates db co" by blast
  have "simulates (db\<lparr>bd_delivery := d\<rparr>) co" by (rule simulatesI) (simp_all add: simulatesD [OF sim])
  then show ?case using bridge_other by auto
qed

end
