(* ===== verification/Bridge_Samples.thy ===== *)
theory Bridge_Samples
  imports Bridge_Simulation Communication_Faults
begin

text \<open>
  Runs of the incident authority: one that opens an incident and lets it expire, and one that opens it,
  asks for a human, receives the manual packet and confirms it.
\<close>

section \<open>An incident that expires\<close>

definition path_1 :: recovery_path where
  "path_1 = \<lparr>rp_path_id = ''x'', rp_status = ''failed'', rp_attempt_refs = [''r''], rp_evidence_refs = [''e'']\<rparr>"

definition digest_0 :: string where
  "digest_0 = replicate 64 (CHR ''0'')"

definition bridge_env :: hash_env where
  "bridge_env = \<lparr>sha256_hex = (\<lambda>s. digest_0), isoformat = (\<lambda>_. ''2026-01-01T00:00:00+00:00''),
     model_time = (\<lambda>_. []), json_loads = (\<lambda>_. None)\<rparr>"

definition bridge_authority :: "string \<Rightarrow> bridge_snapshot" where
  "bridge_authority name = \<lparr>bs_authenticated = True, bs_current_authority_valid = True, bs_task_valid = True, bs_send_authorized = True,
     bs_current_accepted_revision = 3, bs_current_accepted_state_digest = sha_a, bs_deadline = None,
     bs_principal_ref = ''p'', bs_grant_ref = ''g'', bs_policy_version = ''v''\<rparr>"

definition incident_1 :: incident_command where
  "incident_1 = \<lparr>ic_incident_id = ''i'', ic_generation = 1, ic_tenant_id = ''t'', ic_message_id = ''m1'', ic_operation_id = ''o1'',
     ic_source_scope_id = ''s'', ic_target_scope_id = ''q'', ic_accepted_revision = 3, ic_accepted_state_digest = sha_a,
     ic_expires_at = 100, ic_eligible_path_ids = [''x''],
     ic_paths = [path_1], ic_command_id = ''c''\<rparr>"

definition bridge_0 :: bridge_db where
  "bridge_0 = \<lparr>bd_delivery = empty_delivery_db empty_db, recovery_incidents = [], recovery_path_attempts = [], human_bridge_requests = [],
     recovery_reprobes = [], human_bridge_packets = [], human_bridge_normal_receipts = [], recovery_audit_events = []\<rparr>"

text \<open>The tables after the incident was opened, and after it expired at instant 200.\<close>

definition bridge_1 :: bridge_db where
  "bridge_1 = audit (''t'', ''i'') ''incident_opened'' ''c'' (bridge_authority ''incident.open.final'')
     (PyDict [(PyStr ''canonical_digest'', PyStr digest_0), (PyStr ''path_ids'', PyList [PyStr ''x''])])
     (bridge_0\<lparr>recovery_incidents := [open_row incident_1 digest_0],
        recovery_path_attempts := [\<lparr>pw_tenant_id = ''t'', pw_incident_id = ''i'', pw_path = path_1, pw_canonical_digest = digest_0\<rparr>]\<rparr>)"

definition bridge_x :: bridge_db where
  "bridge_x = audit (''t'', ''i'') ''incident_expired'' ''c'' (bridge_authority ''incident.expire.final'')
     (PyDict [(PyStr ''expired_at'', PyStr ''2026-01-01T00:00:00+00:00'')]) (set_incident_state (''t'', ''i'') Incident_Expired bridge_1)"

lemma digest_1:
  "canonical_digest bridge_env (command_canonical bridge_env incident_1) = Inr digest_0"
  "canonical_digest bridge_env (PyDict (incident_spec bridge_env incident_1)) = Inr digest_0"
  "canonical_digest bridge_env (path_dict path_1) = Inr digest_0"
  by (simp_all add: canonical_digest_def MAX_CANONICAL_BYTES_def canonical_json_def command_canonical_def incident_spec_def incident_1_def path_1_def path_dict_def
      utc_text_def bridge_env_def sha_a_def json_string_def json_char_def Let_def int_dec_def nat_dec.simps)

lemma fields_1:
  "incident_command_ok incident_1 = Inr ()" "incident_admissible incident_1 5 True True = Inr ()" "bridge_snapshot_ok (bridge_authority name) = Inr ()"
  "snapshot_current (bridge_authority name) 3 sha_a"
  by (simp_all add: incident_command_ok_def recovery_path_ok_def refs_ok_def MAX_REFS_def incident_admissible_def bridge_snapshot_ok_def snapshot_current_def text_within_def digest_field_def is_sha256_def sha_a_def guard_def
      incident_1_def path_1_def bridge_authority_def MAX_PATHS_def EXHAUSTED_PATH_STATES_def)

lemma authority_1:
  "bs_deadline (bridge_authority n) = None" "bs_task_valid (bridge_authority n)" "bs_authenticated (bridge_authority n)"
  "bs_current_authority_valid (bridge_authority n)" "bs_current_accepted_revision (bridge_authority n) = 3"
  "bs_current_accepted_state_digest (bridge_authority n) = sha_a"
  by (simp_all add: bridge_authority_def)

lemma incident_1_fields:
  "ic_accepted_revision incident_1 = 3" "ic_accepted_state_digest incident_1 = sha_a" "ic_expires_at incident_1 = 100"
  "ic_paths incident_1 = [path_1]" "ic_tenant_id incident_1 = ''t''" "ic_incident_id incident_1 = ''i''" "ic_command_id incident_1 = ''c''"
  "ic_eligible_path_ids incident_1 = [''x'']"
  by (simp_all add: incident_1_def)

lemma opened_run: "bridge_run bridge_env bridge_authority (\<lambda>_. 5) (Bridge_Open incident_1) bridge_0 = Inr (''open'', bridge_1)"
proof -
  have i: "insert_incident (open_row incident_1 dg) bridge_0 = Inr (bridge_0\<lparr>recovery_incidents := [open_row incident_1 dg]\<rparr>)" for dg
    by (simp add: insert_incident_def insert_unique_def bridge_0_def open_row_def incident_1_def bigint_def guard_def)
  have l: "lookup_incident k bridge_0 = None" "recovery_path_attempts bridge_0 = []" for k
    by (simp_all add: lookup_incident_def bridge_0_def)
  show ?thesis
    by (simp add: open_incident_def ref_open_incident_def empty_coordinator_def snapshot_def fields_1 digest_1 Let_def l i authority_1 incident_1_fields
        expired_def earliest_def List.map_filter_def insert_unique_def bridge_1_def)
qed

lemma opened_lookup: "lookup_incident (''t'', ''i'') bridge_1 = Some (open_row incident_1 digest_0)"
  by (simp add: lookup_incident_def bridge_1_def audit_def incident_key_def open_row_def incident_1_fields)

lemma expired_run: "bridge_run bridge_env bridge_authority (\<lambda>_. 200) (Bridge_Expire (''t'', ''i'') ''c'') bridge_1 = Inr (''expired'', bridge_x)"
  by (simp add: expire_def texts_within_def text_within_def guard_def snapshot_def fields_1 authority_1 opened_lookup TERMINAL_INCIDENT_STATES_def
      open_row_def incident_1_fields expired_def earliest_def List.map_filter_def utc_text_def bridge_env_def bridge_x_def)

lemma opened_reachable: "bridge_reachable bridge_env bridge_1"
proof -
  have "bridge_reachable bridge_env bridge_0" unfolding bridge_0_def by (rule bridge_start)
  then show ?thesis by (rule bridge_call [OF _ opened_run])
qed

lemma expired_reachable: "bridge_reachable bridge_env bridge_x"
  using opened_reachable by (rule bridge_call [OF _ expired_run])

section \<open>An incident that is resolved by hand\<close>

definition bridge_request :: request_row where
  "bridge_request = \<lparr>hr_tenant_id = ''t'', hr_request_id = ''h'', hr_incident_id = ''i'', hr_generation = 1, hr_canonical_digest = digest_0, hr_outbox_message_id = ''h''\<rparr>"

definition outbox_1 :: "string \<Rightarrow> string \<Rightarrow> pyval \<Rightarrow> outbox_row" where
  "outbox_1 message topic body = \<lparr>ob_tenant_id = ''t'', ob_message_id = message, ob_operation_id = ''o1'', ob_topic = topic, ob_payload = body, ob_delivered_at = None\<rparr>"

definition delivery_of :: "outbox_row list \<Rightarrow> delivery_db" where
  "delivery_of rows = empty_delivery_db (empty_db\<lparr>outbox := rows\<rparr>)"

definition requested_outbox :: "outbox_row list" where
  "requested_outbox = [outbox_1 ''h'' ''human_bridge.request'' (PyDict [(PyStr ''incident_id'', PyStr ''i''), (PyStr ''generation'', PyInt 1),
     (PyStr ''logical_message_id'', PyStr ''m1''), (PyStr ''request_digest'', PyStr digest_0)])]"

definition bridge_3 :: bridge_db where
  "bridge_3 = audit (''t'', ''i'') ''human_request_outbox_committed'' ''c'' (bridge_authority ''human.request.final'')
     (PyDict [(PyStr ''request_id'', PyStr ''h''), (PyStr ''canonical_digest'', PyStr digest_0)])
     (set_incident_state (''t'', ''i'') Human_Requested (bridge_1\<lparr>human_bridge_requests := [bridge_request], bd_delivery := delivery_of requested_outbox\<rparr>))"

lemma requested_run: "bridge_run bridge_env bridge_authority (\<lambda>_. 6) (Bridge_Request (''t'', ''i'') ''h'' ''c'') bridge_1 = Inr (''human_requested'', bridge_3)"
proof -
  have d: "canonical_digest bridge_env (human_request_dict (''t'', ''i'') ''h'' ''c'') = Inr digest_0"
    by (simp add: canonical_digest_def MAX_CANONICAL_BYTES_def canonical_json_def human_request_dict_def bridge_env_def json_string_def json_char_def Let_def)
  have f: "iw_accepted_revision (open_row incident_1 dg) = 3" "iw_accepted_state_digest (open_row incident_1 dg) = sha_a" "iw_expires_at (open_row incident_1 dg) = 100"
      "iw_state (open_row incident_1 dg) = Open_Incident" "iw_generation (open_row incident_1 dg) = 1" "iw_operation_id (open_row incident_1 dg) = ''o1''"
      "iw_message_id (open_row incident_1 dg) = ''m1''" for dg
    by (simp_all add: open_row_def incident_1_def)
  have b: "human_bridge_requests bridge_1 = []" "bd_delivery bridge_1 = empty_delivery_db empty_db" by (simp_all add: bridge_1_def audit_def bridge_0_def)
  have send: "bs_send_authorized (bridge_authority n)" for n by (simp add: bridge_authority_def)
  show ?thesis
    by (simp add: request_human_def texts_within_def text_within_def guard_def snapshot_def fields_1 authority_1 opened_lookup d f b send Let_def
        expired_def earliest_def List.map_filter_def insert_unique_def insert_outbox_def bridge_3_def bridge_request_def requested_outbox_def outbox_1_def delivery_of_def
        empty_delivery_db_def empty_db_def)
qed

definition bridge_attempt :: attempt_row where
  "bridge_attempt = \<lparr>da_tenant_id = ''t'', da_message_id = ''m1'', da_ordinal = 1, da_attempt_id = ''a1'', da_operation_id = ''o1'', da_endpoint_id = ''e'',
     da_selection_revision = 1, da_connection_ref = ''conn'', da_finished_at = None, da_status = ''runtime_dispatched'', da_error_code = None,
     da_selection = \<lparr>se_endpoint_id = ''e'', se_revision = 1, se_scope_id = ''s'', se_agent_slot_id = ''dev'', se_machine_id = ''mc'', se_node_id = ''n'',
       se_boot_incarnation = ''b'', se_supports_invoke = True, se_evidence_class = ''live'', se_expires_at = ''None''\<rparr>,
     da_selection_digest = sha_a, da_selection_history = [], da_invocation = None, da_invocation_digest = None, da_dispatch_id = Some ''d1'',
     da_runtime_dispatched_receipt_id = None\<rparr>"

definition manual_1 :: manual_packet where
  "manual_1 = \<lparr>mn_packet_id = ''p1'', mn_incident_id = ''i'', mn_incident_generation = 1, mn_tenant_id = ''t'', mn_message_id = ''m1'', mn_operation_id = ''o1'',
     mn_attempt_id = ''a1'', mn_dispatch_id = ''d1'', mn_source_scope_id = ''s'', mn_target_scope_id = ''q'', mn_direction = ''request'',
     mn_expected_accepted_revision = 3, mn_accepted_state_digest = sha_a, mn_payload_digest = sha_a, mn_expires_at = 50\<rparr>"

definition normal_1 :: normal_receipt where
  "normal_1 = \<lparr>nc_receipt_id = ''n1'', nc_layer = ''target_inbox_committed'', nc_tenant_id = ''t'', nc_message_id = ''m1'', nc_operation_id = ''o1'',
     nc_incident_id = ''i'', nc_incident_generation = 1, nc_packet_id = ''p1'', nc_attempt_id = ''a1'', nc_dispatch_id = ''d1'', nc_direction = ''request'',
     nc_payload_digest = sha_a, nc_evidence_digest = digest_0\<rparr>"

definition transport_receipt :: receipt_row where
  "transport_receipt = \<lparr>dr_tenant_id = ''t'', dr_message_id = ''m1'', dr_receipt_id = ''n1'', dr_layer = ''target_inbox_committed'', dr_attempt_id = Some ''a1'',
     dr_dispatch_id = Some ''d1'', dr_evidence = PyDict [(PyStr ''human_bridge'', bridge_evidence normal_1)]\<rparr>"

definition transported :: "outbox_row list \<Rightarrow> delivery_db" where
  "transported rows = (delivery_of rows)\<lparr>delivery_messages := [message_1], delivery_attempts := [bridge_attempt], delivery_receipts := [transport_receipt]\<rparr>"

definition bridge_4 :: bridge_db where
  "bridge_4 = bridge_3\<lparr>bd_delivery := transported requested_outbox\<rparr>"

definition manual_row :: packet_row where
  "manual_row = \<lparr>hp_packet = manual_1, hp_canonical_digest = digest_0, hp_disposition = ''committed'', hp_normal_outbox_message_id = Some ''p1''\<rparr>"

definition bridge_5 :: bridge_db where
  "bridge_5 = audit (''t'', ''i'') ''manual_packet_committed'' ''c'' (bridge_authority ''manual.receive.final'')
     (PyDict [(PyStr ''packet_id'', PyStr ''p1''), (PyStr ''canonical_digest'', PyStr digest_0)])
     (bridge_4\<lparr>human_bridge_packets := [manual_row],
        bd_delivery := transported (requested_outbox @ [outbox_1 ''p1'' ''human_bridge.manual_packet_committed'' (packet_payload manual_1)]),
        recovery_incidents := [(open_row incident_1 digest_0)\<lparr>iw_state := Manual_Packet_Committed, iw_applied_packet_id := Some ''p1''\<rparr>]\<rparr>)"

definition bridge_6 :: bridge_db where
  "bridge_6 = audit (''t'', ''i'') ''manual_path_resolved'' ''c'' (bridge_authority ''manual.confirm'')
     (PyDict [(PyStr ''receipt_id'', PyStr ''n1''), (PyStr ''receipt_digest'', PyStr digest_0)])
     (set_incident_state (''t'', ''i'') Resolved_Manual (bridge_5\<lparr>human_bridge_normal_receipts := [\<lparr>nw_receipt = normal_1, nw_canonical_digest = digest_0\<rparr>]\<rparr>))"

lemma digest_3: "canonical_digest bridge_env (packet_dict bridge_env manual_1) = Inr digest_0" "canonical_digest bridge_env (receipt_dict normal_1) = Inr digest_0"
  by (simp_all add: canonical_digest_def MAX_CANONICAL_BYTES_def canonical_json_def packet_dict_def receipt_dict_def manual_1_def normal_1_def digest_0_def
      utc_text_def bridge_env_def sha_a_def json_string_def json_char_def Let_def int_dec_def nat_dec.simps)

lemma digest_4: "canonical_digest bridge_env (receipt_evidence_dict transport_receipt normal_1) = Inr digest_0"
  by (simp add: canonical_digest_def MAX_CANONICAL_BYTES_def canonical_json_def receipt_evidence_dict_def transport_receipt_def normal_1_def bridge_evidence_def opt_str_def
      bridge_env_def sha_a_def json_string_def json_char_def Let_def int_dec_def nat_dec.simps)

lemma manual_ok: "manual_packet_ok manual_1 = Inr ()" "normal_receipt_ok normal_1 = Inr ()"
  by (simp_all add: manual_packet_ok_def normal_receipt_ok_def manual_1_def normal_1_def text_within_def digest_field_def is_sha256_def sha_a_def digest_0_def guard_def)

lemma received_run: "bridge_run bridge_env bridge_authority (\<lambda>_. 7) (Bridge_Receive manual_1 ''c'') bridge_4 = Inr (''committed'', bridge_5)"
proof -
  have rows: "recovery_incidents bridge_4 = [(open_row incident_1 digest_0)\<lparr>iw_state := Human_Requested\<rparr>]" "human_bridge_packets bridge_4 = []"
      "bd_delivery bridge_4 = transported requested_outbox"
    by (simp_all add: bridge_4_def bridge_3_def audit_def set_incident_state_def bridge_1_def bridge_0_def incident_key_def open_row_def incident_1_fields)
  have m: "mn_tenant_id manual_1 = ''t''" "mn_incident_id manual_1 = ''i''" "mn_packet_id manual_1 = ''p1''" "mn_message_id manual_1 = ''m1''"
      "mn_operation_id manual_1 = ''o1''" "mn_accepted_state_digest manual_1 = sha_a" "mn_attempt_id manual_1 = ''a1''" "mn_dispatch_id manual_1 = ''d1''"
      "mn_incident_generation manual_1 = 1" "mn_expected_accepted_revision manual_1 = 3"
    by (simp_all add: manual_1_def)
  let ?i = "(open_row incident_1 digest_0)\<lparr>iw_state := Human_Requested\<rparr>"
  have i: "lookup_incident (''t'', ''i'') bridge_4 = Some ?i" by (simp add: lookup_incident_def rows incident_key_def open_row_def incident_1_fields)
  have p: "lookup_packet k bridge_4 = None" for k by (simp add: lookup_packet_def rows)
  have match: "packet_matches manual_1 ?i" by (simp add: packet_matches_def manual_1_def open_row_def incident_1_def)
  have d: "lookup_delivery (''t'', ''m1'') (bd_delivery bridge_4) = Some message_1"
    by (simp add: rows lookup_delivery_def transported_def message_key_def message_1_def)
  have mr: "dm_operation_id message_1 = ''o1''" "dm_accepted_state_digest message_1 = sha_a" "packet_deadline (dm_packet message_1) = None"
    by (simp_all add: message_1_def packet_1_def)
  have a: "attempt_bound ''t'' ''m1'' ''a1'' ''o1'' ''d1'' bridge_4"
    by (simp add: attempt_bound_def rows transported_def attempt_message_def bridge_attempt_def)
  have cur: "receive_current (bridge_authority n) 7 message_1 manual_1 ?i" for n
    using fields_1(4) [of n]
    by (simp add: receive_current_def mr manual_1_def open_row_def incident_1_def authority_1 expired_def earliest_def List.map_filter_def)
  have rec: "record_packet a True (''t'', ''i'') manual_1 ''c'' digest_0 bridge_4 = Inr (''committed'', audit (''t'', ''i'') ''manual_packet_committed'' ''c'' a
     (PyDict [(PyStr ''packet_id'', PyStr ''p1''), (PyStr ''canonical_digest'', PyStr digest_0)])
     (bridge_4\<lparr>human_bridge_packets := [manual_row],
        bd_delivery := transported (requested_outbox @ [outbox_1 ''p1'' ''human_bridge.manual_packet_committed'' (packet_payload manual_1)]),
        recovery_incidents := [(open_row incident_1 digest_0)\<lparr>iw_state := Manual_Packet_Committed, iw_applied_packet_id := Some ''p1''\<rparr>]\<rparr>))" for a
    by (simp add: record_packet_def bigint_def guard_def m commit_packet_def insert_outbox_def insert_unique_def rows transported_def delivery_of_def
        requested_outbox_def outbox_1_def empty_delivery_db_def manual_row_def Let_def incident_key_def open_row_def incident_1_fields)
  have c: "text_within 512 ''command_id'' ''c'' = Inr ()" by (simp add: text_within_def)
  show ?thesis
    by (simp add: receive_manual_def manual_ok digest_3 snapshot_def fields_1 authority_1 m i p match d mr a cur rec c bridge_5_def)
qed

lemma confirmed_run: "bridge_run bridge_env bridge_authority (\<lambda>_. 8) (Bridge_Confirm normal_1 ''c'') bridge_5 = Inr (''resolved_manual'', bridge_6)"
proof -
  let ?i = "(open_row incident_1 digest_0)\<lparr>iw_state := Manual_Packet_Committed, iw_applied_packet_id := Some ''p1''\<rparr>"
  have i: "lookup_incident (''t'', ''i'') bridge_5 = Some ?i"
    by (simp add: lookup_incident_def bridge_5_def audit_def incident_key_def open_row_def incident_1_fields)
  have p: "lookup_packet (''t'', ''p1'') bridge_5 = Some manual_row"
    by (simp add: lookup_packet_def bridge_5_def audit_def packet_key_def manual_row_def manual_1_def)
  have n: "nc_tenant_id normal_1 = ''t''" "nc_incident_id normal_1 = ''i''" "nc_receipt_id normal_1 = ''n1''" "nc_evidence_digest normal_1 = digest_0"
    by (simp_all add: normal_1_def)
  have match: "receipt_matches normal_1 ?i (hp_packet manual_row)"
    by (simp add: receipt_matches_def normal_1_def manual_row_def manual_1_def expected_layer_def open_row_def incident_1_def)
  have d: "bd_delivery bridge_5 = transported (requested_outbox @ [outbox_1 ''p1'' ''human_bridge.manual_packet_committed'' (packet_payload manual_1)])"
    by (simp add: bridge_5_def audit_def)
  have binds: "receipt_binds bridge_env normal_1 transport_receipt = Inr ()"
    using digest_4 by (simp add: receipt_binds_def transport_receipt_def get_or_none_def dict_get_def n guard_def) (simp add: bridge_evidence_def normal_1_def)
  have t: "transport_confirms bridge_env normal_1 (hp_packet manual_row) bridge_5 = Inr ()"
    by (simp add: transport_confirms_def d lookup_delivery_def transported_def message_key_def message_1_def attempt_bound_def attempt_message_def bridge_attempt_def
        binds receipt_message_def manual_row_def manual_1_def) (simp add: normal_1_def transport_receipt_def)
  have b: "human_bridge_normal_receipts bridge_5 = []"
    by (simp add: bridge_5_def bridge_4_def bridge_3_def audit_def set_incident_state_def bridge_1_def bridge_0_def)
  have c: "text_within 512 ''command_id'' ''c'' = Inr ()" by (simp add: text_within_def)
  have it: "iw_applied_packet_id ?i = Some ''p1''" "iw_tenant_id ?i = ''t''" by (simp_all add: open_row_def incident_1_fields)
  show ?thesis
    by (simp add: confirm_manual_def manual_ok c digest_3 snapshot_def fields_1 authority_1 n i it p match t b insert_unique_def bridge_6_def Let_def)
qed

lemma resolved_rows: "recovery_incidents bridge_6 = [(open_row incident_1 digest_0)\<lparr>iw_state := Resolved_Manual, iw_applied_packet_id := Some ''p1''\<rparr>]"
  by (simp add: bridge_6_def bridge_5_def audit_def set_incident_state_def incident_key_def open_row_def incident_1_fields)

lemma resolved_reachable: "bridge_reachable bridge_env bridge_6"
proof -
  have "bridge_reachable bridge_env bridge_3" using opened_reachable by (rule bridge_call [OF _ requested_run])
  then have "bridge_reachable bridge_env bridge_4" unfolding bridge_4_def by (rule bridge_other)
  then have "bridge_reachable bridge_env bridge_5" by (rule bridge_call [OF _ received_run])
  then show ?thesis by (rule bridge_call [OF _ confirmed_run])
qed

end
