(* ===== verification/Bridge_Properties.thy ===== *)
theory Bridge_Properties
  imports Bridge_Samples
begin

text \<open>
  What the incident authority promises: it is a refinement of the reference coordinator, a manual packet
  and an automatic recovery exclude one another, and a closed incident stays closed.
\<close>

section \<open>The refinement\<close>

text \<open>
  C4. Refinement of the reference coordinator. In every state the authority's tables can reach there is a
  reference coordinator with the same incidents, and whatever such a coordinator is, each method that
  returns leaves it unchanged or is one operation of the coordinator at the instant the method decided at,
  and the tables it leaves are those of the coordinator after that operation. The only other transition is
  an expiry before the incident's deadline because the authority's deadline has passed.
\<close>

theorem bridge_refines_reference:
  assumes "bridge_reachable env db"
  shows "(\<exists>co. simulates db co) \<and>
    (\<forall>co snap clk operation r db'. simulates db co \<and> bridge_run env snap clk operation db = Inr (r, db') \<longrightarrow>
      (\<exists>co'. (co' = co \<or> coordinator_step env (decided_at operation clk) co co' \<or> (\<exists>k. early_expiry snap (decided_at operation clk) k co co')) \<and>
        simulates db' co'))"
proof (intro conjI allI impI)
  show "\<exists>co. simulates db co" using reachable_simulates [OF assms] by (rule conjunct2)
next
  fix co snap clk operation r db'
  assume run: "simulates db co \<and> bridge_run env snap clk operation db = Inr (r, db')"
  have "bridge_ok db" using reachable_simulates [OF assms] by (rule conjunct1)
  from effect_simulates [OF conjunct1 [OF run] this bridge_run_effect [OF conjunct2 [OF run]]]
  show "\<exists>co'. (co' = co \<or> coordinator_step env (decided_at operation clk) co co' \<or> (\<exists>k. early_expiry snap (decided_at operation clk) k co co')) \<and>
        simulates db' co'" .
qed

theorem bridge_refines_reference_witness:
  "bridge_reachable bridge_env bridge_1 \<and>
   (\<exists>co co'. simulates bridge_1 co \<and> simulates bridge_x co' \<and>
     (co' = co \<or> coordinator_step bridge_env 200 co co' \<or> (\<exists>k. early_expiry bridge_authority 200 k co co')))"
proof -
  note refines = bridge_refines_reference [OF opened_reachable]
  from refines obtain co where co: "simulates bridge_1 co" by (elim conjE exE)
  from refines [THEN conjunct2, rule_format, OF conjI [OF co expired_run]] show ?thesis using opened_reachable co by auto
qed

text \<open>
  The reference rejects an expiry before the incident's deadline; the authority performs it once the
  deadline of the caller's authority has passed.
\<close>

lemma authority_deadline_expires_incident:
  "map_sum id fst (expire bridge_env (\<lambda>name. bridge_authority name\<lparr>bs_deadline := Some 50\<rparr>) (\<lambda>_. 60) (''t'', ''i'') ''c'' bridge_1) = Inr ''expired''"
  "map_option iw_expires_at (lookup_incident (''t'', ''i'') bridge_1) = Some 100"
proof -
  have "bridge_snapshot_ok (bridge_authority n\<lparr>bs_deadline := Some 50\<rparr>) = Inr ()" for n
    using fields_1(3) by (simp add: bridge_snapshot_ok_def)
  then show "map_sum id fst (expire bridge_env (\<lambda>name. bridge_authority name\<lparr>bs_deadline := Some 50\<rparr>) (\<lambda>_. 60) (''t'', ''i'') ''c'' bridge_1) = Inr ''expired''"
    by (simp add: expire_def texts_within_def text_within_def guard_def snapshot_def authority_1 opened_lookup TERMINAL_INCIDENT_STATES_def
        open_row_def expired_def earliest_def List.map_filter_def incident_1_fields)
qed (simp add: opened_lookup open_row_def incident_1_fields)

section \<open>Manual and automatic recovery exclude one another\<close>

definition committed_packets :: "incident_row \<Rightarrow> bridge_db \<Rightarrow> packet_row list" where
  "committed_packets i db = filter (\<lambda>p. packet_incident p = incident_key i \<and> hp_disposition p = ''committed'') (human_bridge_packets db)"

lemma committed_applied:
  assumes "applied_packet_ok db i" and "p \<in> set (committed_packets i db)"
  shows "iw_applied_packet_id i = Some (mn_packet_id (hp_packet p)) \<and> packet_key p = (iw_tenant_id i, mn_packet_id (hp_packet p))"
proof -
  have p: "p \<in> set (human_bridge_packets db)" "packet_incident p = incident_key i" "hp_disposition p = ''committed''"
    using assms(2) by (simp_all add: committed_packets_def)
  have "iw_applied_packet_id i \<noteq> None"
    using assms(1) p by (cases "iw_applied_packet_id i") (auto simp: applied_packet_ok_def)
  then obtain pid where pid: "iw_applied_packet_id i = Some pid" by blast
  have "mn_packet_id (hp_packet p) = pid" using assms(1) p pid by (auto simp: applied_packet_ok_def)
  then show ?thesis using pid p(2) by (simp add: packet_incident_def incident_key_def packet_key_def)
qed

lemma committed_at_most_one:
  assumes ok: "bridge_ok db" and i: "i \<in> set (recovery_incidents db)"
  shows "length (committed_packets i db) \<le> 1"
proof -
  have aok: "applied_packet_ok db i" using ok i by (simp add: bridge_ok_def)
  obtain pid where "\<And>p. p \<in> set (committed_packets i db) \<Longrightarrow> packet_key p = (iw_tenant_id i, pid)"
    using committed_applied [OF aok] by (cases "iw_applied_packet_id i") fastforce+
  then have "committed_packets i db = filter (\<lambda>p. packet_key p = (iw_tenant_id i, pid)) (committed_packets i db)"
    by (simp add: filter_id_conv)
  moreover have "distinct (map packet_key (committed_packets i db))"
    using ok by (simp add: bridge_ok_def committed_packets_def distinct_map_filter)
  ultimately show ?thesis using filter_key_at_most_one by metis
qed

text \<open>
  C12. At most one manual packet of an incident is ever committed; an incident that was resolved
  automatically has none; an incident that was resolved manually has one, with the normal receipt that
  confirmed it; and a message has at most one active incident.
\<close>

theorem manual_packet_exclusive:
  assumes reach: "bridge_reachable env db" and i: "i \<in> set (recovery_incidents db)"
  shows "length (committed_packets i db) \<le> 1 \<and> (iw_state i = Resolved_Automatic \<longrightarrow> committed_packets i db = []) \<and>
    (iw_state i = Resolved_Manual \<longrightarrow> (\<exists>p w. committed_packets i db = [p] \<and> w \<in> set (human_bridge_normal_receipts db) \<and>
      (nc_tenant_id (nw_receipt w), nc_incident_id (nw_receipt w)) = incident_key i \<and> nc_packet_id (nw_receipt w) = mn_packet_id (hp_packet p))) \<and>
    (\<forall>j \<in> set (recovery_incidents db). iw_state i \<in> set ACTIVE_INCIDENT_STATES \<and> iw_state j \<in> set ACTIVE_INCIDENT_STATES \<and>
      (iw_tenant_id j, iw_message_id j) = (iw_tenant_id i, iw_message_id i) \<longrightarrow> j = i)"
proof (intro conjI impI ballI)
  have ok: "bridge_ok db" using reachable_simulates [OF reach] by blast
  then have aok: "applied_packet_ok db i" and rok: "resolved_ok db i" using i by (auto simp: bridge_ok_def)
  show one: "length (committed_packets i db) \<le> 1" by (rule committed_at_most_one [OF ok i])
  show "committed_packets i db = []" if "iw_state i = Resolved_Automatic"
  proof -
    have "iw_applied_packet_id i = None" using aok that by (cases "iw_applied_packet_id i") (auto simp: applied_packet_ok_def)
    then show ?thesis using committed_applied [OF aok] by (cases "committed_packets i db") fastforce+
  qed
  show "\<exists>p w. committed_packets i db = [p] \<and> w \<in> set (human_bridge_normal_receipts db) \<and>
      (nc_tenant_id (nw_receipt w), nc_incident_id (nw_receipt w)) = incident_key i \<and> nc_packet_id (nw_receipt w) = mn_packet_id (hp_packet p)"
    if st: "iw_state i = Resolved_Manual"
  proof -
    from rok st obtain w where w: "w \<in> set (human_bridge_normal_receipts db)" "(nc_tenant_id (nw_receipt w), nc_incident_id (nw_receipt w)) = incident_key i"
        "iw_applied_packet_id i = Some (nc_packet_id (nw_receipt w))"
      by (auto simp: resolved_ok_def incident_key_def)
    with aok obtain p where "lookup_packet (iw_tenant_id i, nc_packet_id (nw_receipt w)) db = Some p" "packet_incident p = incident_key i"
        "hp_disposition p = ''committed''"
      by (auto simp: applied_packet_ok_def)
    then have p: "p \<in> set (committed_packets i db)" using lookup_packetD [of _ db p] by (simp add: committed_packets_def)
    then have "committed_packets i db = [p]" using one by (cases "committed_packets i db") auto
    moreover have "nc_packet_id (nw_receipt w) = mn_packet_id (hp_packet p)" using committed_applied [OF aok p] w(3) by simp
    ultimately show ?thesis using w by blast
  qed
  show "j = i" if j: "j \<in> set (recovery_incidents db)" and st: "iw_state i \<in> set ACTIVE_INCIDENT_STATES \<and> iw_state j \<in> set ACTIVE_INCIDENT_STATES \<and>
      (iw_tenant_id j, iw_message_id j) = (iw_tenant_id i, iw_message_id i)" for j
  proof (rule key_unique)
    show "distinct (map (\<lambda>i. (iw_tenant_id i, iw_message_id i)) (filter (\<lambda>i. iw_state i \<in> set ACTIVE_INCIDENT_STATES) (recovery_incidents db)))"
      using ok by (simp add: bridge_ok_def)
  qed (use i j st in simp_all)
qed

theorem manual_packet_exclusive_witness:
  "\<exists>i \<in> set (recovery_incidents bridge_6). iw_state i = Resolved_Manual \<and>
     (\<exists>p w. committed_packets i bridge_6 = [p] \<and> w \<in> set (human_bridge_normal_receipts bridge_6) \<and> nc_packet_id (nw_receipt w) = mn_packet_id (hp_packet p))"
proof -
  let ?i = "(open_row incident_1 digest_0)\<lparr>iw_state := Resolved_Manual, iw_applied_packet_id := Some ''p1''\<rparr>"
  have i: "?i \<in> set (recovery_incidents bridge_6)" by (simp add: resolved_rows)
  have st: "iw_state ?i = Resolved_Manual" by simp
  from manual_packet_exclusive [OF resolved_reachable i] st show ?thesis using i by blast
qed

section \<open>A closed incident stays closed\<close>

lemma incident_key_update [simp]:
  "incident_key (i\<lparr>iw_state := x\<rparr>) = incident_key i" "incident_key (i\<lparr>iw_state := x, iw_applied_packet_id := y\<rparr>) = incident_key i"
  by (simp_all add: incident_key_def)

lemma lookup_audit [simp]: "lookup_incident k (audit j e cmd a ev db) = lookup_incident k db" "human_bridge_packets (audit j e cmd a ev db) = human_bridge_packets db"
  by (simp_all add: lookup_incident_def audit_def)

lemma lookup_state [simp]:
  "k \<noteq> j \<Longrightarrow> lookup_incident k (set_incident_state j s db) = lookup_incident k db"
  "human_bridge_packets (set_incident_state j s db) = human_bridge_packets db"
  by (simp_all add: lookup_incident_def set_incident_state_def find_incident_update)

lemma effect_final:
  assumes ok: "bridge_ok db" and sim: "simulates db co" and eff: "bridge_effect env snap now db db'"
    and i: "lookup_incident k db = Some i" and st: "iw_state i \<in> set TERMINAL_INCIDENT_STATES"
  shows "lookup_incident k db' = Some i \<and>
    (\<forall>p \<in> set (human_bridge_packets db') - set (human_bridge_packets db). packet_incident p = k \<longrightarrow> hp_disposition p = ''fenced_late'')"
  using eff
proof cases
  case effect_none
  then show ?thesis using i by simp
next
  case (effect_open c d dg db1 j cmd a ev ws)
  have "db1 = db\<lparr>recovery_incidents := recovery_incidents db @ [open_row c dg]\<rparr>" using effect_open(4) by (auto simp: insert_incident_def)
  then show ?thesis using i unfolding effect_open(1) by (simp add: lookup_incident_def audit_def find_append)
next
  case (effect_request j i' row cmd a ev del)
  then have "k \<noteq> j" using i st by (auto simp: TERMINAL_INCIDENT_STATES_def)
  then show ?thesis using i unfolding effect_request(1) by simp
next
  case (effect_note j i' e cmd a ev rs)
  then show ?thesis using i by simp
next
  case (effect_restored j i' ob cmd a ev rs)
  then have "k \<noteq> j" using i st by (auto simp: TERMINAL_INCIDENT_STATES_def)
  then show ?thesis using i unfolding effect_restored(1) by simp
next
  case (effect_fenced j i' p dg row cmd a ev)
  then show ?thesis using i by (auto simp: lookup_incident_def audit_def)
next
  case (effect_committed j i' p dg row cmd a ev del)
  then have j: "k \<noteq> j" using i st by (auto simp: TERMINAL_INCIDENT_STATES_def)
  moreover have "packet_incident row = j" using effect_committed(3,12) by (simp add: packet_incident_def)
  ultimately show ?thesis using i unfolding effect_committed(1)
    by (auto simp: lookup_incident_def audit_def find_incident_update)
next
  case (effect_confirmed j i' r dg pid p cmd a ev)
  have "iw_state i' = Manual_Packet_Committed" by (rule simulate_confirmed(1) [OF sim effect_confirmed(2-9) ok])
  then have "k \<noteq> j" using i st effect_confirmed(2) by (auto simp: TERMINAL_INCIDENT_STATES_def)
  then show ?thesis using i unfolding effect_confirmed(1) by simp
next
  case (effect_expired j i' cmd a ev)
  then have "k \<noteq> j" using i st by auto
  then show ?thesis using i unfolding effect_expired(1) by simp
qed

text \<open>
  C22. A closed incident stays closed. Once an incident is resolved, expired or cancelled, no method of the
  authority changes its row any more, and a manual packet that arrives for it later is fenced.
\<close>

theorem terminal_incident_final:
  assumes "bridge_reachable env db" and "bridge_run env snap clk operation db = Inr (r, db')"
    and "lookup_incident k db = Some i" and "iw_state i \<in> set TERMINAL_INCIDENT_STATES"
  shows "lookup_incident k db' = Some i \<and>
    (\<forall>p \<in> set (human_bridge_packets db') - set (human_bridge_packets db). packet_incident p = k \<longrightarrow> hp_disposition p = ''fenced_late'')"
  using reachable_simulates [OF assms(1)] effect_final [OF _ _ bridge_run_effect [OF assms(2)] assms(3,4)] by blast

theorem terminal_incident_final_witness:
  "bridge_run bridge_env bridge_authority (\<lambda>_. 8) (Bridge_Expire (''t'', ''i'') ''c'') bridge_6 = Inr (''resolved_manual'', bridge_6) \<and>
   map_option iw_state (lookup_incident (''t'', ''i'') bridge_6) = Some Resolved_Manual"
proof -
  let ?i = "(open_row incident_1 digest_0)\<lparr>iw_state := Resolved_Manual, iw_applied_packet_id := Some ''p1''\<rparr>"
  have i: "lookup_incident (''t'', ''i'') bridge_6 = Some ?i" by (simp add: lookup_incident_def resolved_rows incident_key_def open_row_def incident_1_fields)
  have st: "iw_state ?i \<in> set TERMINAL_INCIDENT_STATES" by (simp add: TERMINAL_INCIDENT_STATES_def)
  have run: "bridge_run bridge_env bridge_authority (\<lambda>_. 8) (Bridge_Expire (''t'', ''i'') ''c'') bridge_6 = Inr (''resolved_manual'', bridge_6)"
    by (simp add: expire_def texts_within_def text_within_def guard_def snapshot_def fields_1 authority_1 i TERMINAL_INCIDENT_STATES_def)
  from terminal_incident_final [OF resolved_reachable run i st] show ?thesis using run by simp
qed

end
