(* ===== verification/Response_Outbox.thy ===== *)
theory Response_Outbox
  imports Recovery_Models Delivery_Store
begin

text \<open>
  Delayed responses: the observation values of \<open>src/runtime/recovery_models.py\<close>, and of
  \<open>src/runtime/recovery.py\<close> the outbox a Node keeps them in (\<open>NodeResponseOutbox\<close>, a SQLite file) and the
  transaction by which the domain takes one in (\<open>PostgresDelayedResponseAuthority.project\<close>), with the
  retry loop of \<open>src/runtime/response_collector.py\<close> over both.

  The column \<open>payload_json\<close> holds the value it is read back as. \<open>fromiso\<close>, \<open>datetime.fromisoformat\<close>, is
  an argument. The time columns of the outbox are left out. The snapshot callback is an argument: \<open>snap n\<close>
  is its n-th answer in a call, \<open>clk n\<close> the n-th reading of \<open>clock_timestamp()\<close>.
\<close>

section \<open>Observations\<close>

record dispatch_identity =
  ni_tenant_id :: string
  ni_message_id :: string
  ni_operation_id :: string
  ni_invocation_id :: string
  ni_attempt_id :: string
  ni_dispatch_id :: string
  ni_endpoint_id :: string
  ni_binding_revision :: int
  ni_machine_id :: string
  ni_node_id :: string
  ni_boot_incarnation :: string
  ni_accepted_revision :: int
  ni_accepted_state_digest :: string

definition dispatch_identity_ok :: "dispatch_identity \<Rightarrow> unit recovered" where
  "dispatch_identity_ok i = checks
     [text_within 512 ''tenant_id'' (ni_tenant_id i), text_within 512 ''message_id'' (ni_message_id i),
      text_within 512 ''operation_id'' (ni_operation_id i), text_within 512 ''invocation_id'' (ni_invocation_id i),
      text_within 512 ''attempt_id'' (ni_attempt_id i), text_within 512 ''dispatch_id'' (ni_dispatch_id i),
      text_within 512 ''endpoint_id'' (ni_endpoint_id i), text_within 512 ''machine_id'' (ni_machine_id i),
      text_within 512 ''node_id'' (ni_node_id i), text_within 512 ''boot_incarnation'' (ni_boot_incarnation i),
      guard (1 \<le> ni_binding_revision i \<and> 0 \<le> ni_accepted_revision i) (BoundaryRejected ''dispatch_revision_outside_bound''),
      digest_field ''accepted_state_digest'' (ni_accepted_state_digest i)]"

record harness_context =
  hx_work_item_id :: string
  hx_scope_id :: string
  hx_agent_slot_id :: string
  hx_runtime_id :: string
  hx_attempt_id :: string
  hx_message_id :: string
  hx_machine_id :: string
  hx_node_id :: string
  hx_node_boot_incarnation :: string
  hx_node_binding_revision :: int
  hx_endpoint_id :: string
  hx_endpoint_binding_revision :: int

definition harness_context_ok :: "harness_context \<Rightarrow> unit recovered" where
  "harness_context_ok c = checks
     [text_within 512 ''work_item_id'' (hx_work_item_id c), text_within 512 ''scope_id'' (hx_scope_id c),
      text_within 512 ''agent_slot_id'' (hx_agent_slot_id c), text_within 512 ''runtime_id'' (hx_runtime_id c),
      text_within 512 ''attempt_id'' (hx_attempt_id c), text_within 512 ''message_id'' (hx_message_id c),
      text_within 512 ''machine_id'' (hx_machine_id c), text_within 512 ''node_id'' (hx_node_id c),
      text_within 512 ''node_boot_incarnation'' (hx_node_boot_incarnation c),
      guard (1 \<le> hx_node_binding_revision c) (BoundaryRejected ''node_binding_revision_outside_bound''),
      text_within 512 ''endpoint_id'' (hx_endpoint_id c),
      guard (1 \<le> hx_endpoint_binding_revision c) (BoundaryRejected ''endpoint_binding_revision_outside_bound'')]"

record harness_proof =
  hz_binding_id :: string
  hz_revision :: int
  hz_driver_kind :: string
  hz_native_session_ref :: string
  hz_context :: harness_context
  hz_binding_event_id :: "int option"

definition harness_proof_ok :: "harness_proof \<Rightarrow> unit recovered" where
  "harness_proof_ok p = checks
     [text_within 256 ''harness_binding_id'' (hz_binding_id p), text_within 512 ''native_session_ref'' (hz_native_session_ref p),
      guard (1 \<le> hz_revision p) (BoundaryRejected ''harness_binding_revision_outside_bound''),
      guard (hz_driver_kind p \<in> {''codex'', ''opencode''}) (BoundaryRejected ''harness_driver_kind_outside_bound''),
      guard (case hz_binding_event_id p of None \<Rightarrow> True | Some n \<Rightarrow> 1 \<le> n) (BoundaryRejected ''harness_binding_event_id_outside_bound'')]"

record native_observation =
  nv_projection_id :: string
  nv_receipt_id :: string
  nv_identity :: dispatch_identity
  nv_native_response_ref :: string
  nv_native_outcome :: string
  nv_response_artifact_ref :: string
  nv_response_digest :: string
  nv_evidence_digest :: string
  nv_observed_at :: int
  nv_harness_proof :: "harness_proof option"

definition proof_matches :: "dispatch_identity \<Rightarrow> harness_proof \<Rightarrow> bool" where
  "proof_matches i p \<longleftrightarrow> hx_attempt_id (hz_context p) = ni_attempt_id i \<and> hx_message_id (hz_context p) = ni_message_id i \<and>
     hx_machine_id (hz_context p) = ni_machine_id i \<and> hx_node_id (hz_context p) = ni_node_id i \<and>
     hx_node_boot_incarnation (hz_context p) = ni_boot_incarnation i \<and> hx_endpoint_id (hz_context p) = ni_endpoint_id i \<and>
     hx_endpoint_binding_revision (hz_context p) = ni_binding_revision i"

definition native_response_ok :: "native_observation \<Rightarrow> unit recovered" where
  "native_response_ok v = checks
     [text_within 512 ''projection_id'' (nv_projection_id v), text_within 512 ''receipt_id'' (nv_receipt_id v),
      text_within 512 ''native_response_ref'' (nv_native_response_ref v), text_within 512 ''response_artifact_ref'' (nv_response_artifact_ref v),
      guard (nv_native_outcome v \<in> {''completed'', ''failed'', ''interrupted''}) (BoundaryRejected ''native_response_is_not_terminal''),
      digest_field ''response_digest'' (nv_response_digest v), digest_field ''evidence_digest'' (nv_evidence_digest v),
      guard (case nv_harness_proof v of None \<Rightarrow> True | Some p \<Rightarrow> proof_matches (nv_identity v) p) (BoundaryRejected ''harness_proof_differs_from_dispatch'')]"

text \<open>A constructed observation: the constructors of its parts run before its own.\<close>

definition observation_ok :: "native_observation \<Rightarrow> unit recovered" where
  "observation_ok v = checks ([dispatch_identity_ok (nv_identity v)] @
     (case nv_harness_proof v of None \<Rightarrow> [] | Some p \<Rightarrow> [harness_context_ok (hz_context p), harness_proof_ok p]) @ [native_response_ok v])"

definition identity_dict :: "dispatch_identity \<Rightarrow> pyval" where
  "identity_dict i = PyDict
     [(PyStr ''tenant_id'', PyStr (ni_tenant_id i)), (PyStr ''message_id'', PyStr (ni_message_id i)),
      (PyStr ''operation_id'', PyStr (ni_operation_id i)), (PyStr ''invocation_id'', PyStr (ni_invocation_id i)),
      (PyStr ''attempt_id'', PyStr (ni_attempt_id i)), (PyStr ''dispatch_id'', PyStr (ni_dispatch_id i)),
      (PyStr ''endpoint_id'', PyStr (ni_endpoint_id i)), (PyStr ''binding_revision'', PyInt (ni_binding_revision i)),
      (PyStr ''machine_id'', PyStr (ni_machine_id i)), (PyStr ''node_id'', PyStr (ni_node_id i)),
      (PyStr ''boot_incarnation'', PyStr (ni_boot_incarnation i)), (PyStr ''accepted_revision'', PyInt (ni_accepted_revision i)),
      (PyStr ''accepted_state_digest'', PyStr (ni_accepted_state_digest i))]"

definition context_dict :: "harness_context \<Rightarrow> pyval" where
  "context_dict c = PyDict
     [(PyStr ''work_item_id'', PyStr (hx_work_item_id c)), (PyStr ''scope_id'', PyStr (hx_scope_id c)),
      (PyStr ''agent_slot_id'', PyStr (hx_agent_slot_id c)), (PyStr ''runtime_id'', PyStr (hx_runtime_id c)),
      (PyStr ''attempt_id'', PyStr (hx_attempt_id c)), (PyStr ''message_id'', PyStr (hx_message_id c)),
      (PyStr ''machine_id'', PyStr (hx_machine_id c)), (PyStr ''node_id'', PyStr (hx_node_id c)),
      (PyStr ''node_boot_incarnation'', PyStr (hx_node_boot_incarnation c)),
      (PyStr ''node_binding_revision'', PyInt (hx_node_binding_revision c)), (PyStr ''endpoint_id'', PyStr (hx_endpoint_id c)),
      (PyStr ''endpoint_binding_revision'', PyInt (hx_endpoint_binding_revision c))]"

definition proof_dict :: "harness_proof \<Rightarrow> pyval" where
  "proof_dict p = PyDict
     [(PyStr ''binding_id'', PyStr (hz_binding_id p)), (PyStr ''revision'', PyInt (hz_revision p)),
      (PyStr ''driver_kind'', PyStr (hz_driver_kind p)), (PyStr ''native_session_ref'', PyStr (hz_native_session_ref p)),
      (PyStr ''context'', context_dict (hz_context p)),
      (PyStr ''binding_event_id'', case hz_binding_event_id p of None \<Rightarrow> PyNone | Some n \<Rightarrow> PyInt n)]"

definition proof_or_none :: "native_observation \<Rightarrow> pyval" where
  "proof_or_none v = (case nv_harness_proof v of None \<Rightarrow> PyNone | Some p \<Rightarrow> proof_dict p)"

definition observation_dict :: "hash_env \<Rightarrow> native_observation \<Rightarrow> pyval" where
  "observation_dict env v = PyDict
     [(PyStr ''projection_id'', PyStr (nv_projection_id v)), (PyStr ''receipt_id'', PyStr (nv_receipt_id v)),
      (PyStr ''identity'', identity_dict (nv_identity v)), (PyStr ''native_response_ref'', PyStr (nv_native_response_ref v)),
      (PyStr ''native_outcome'', PyStr (nv_native_outcome v)), (PyStr ''response_artifact_ref'', PyStr (nv_response_artifact_ref v)),
      (PyStr ''response_digest'', PyStr (nv_response_digest v)), (PyStr ''evidence_digest'', PyStr (nv_evidence_digest v)),
      (PyStr ''observed_at'', utc_text env (nv_observed_at v)), (PyStr ''harness_proof'', proof_or_none v)]"

definition response_receipt_id :: "hash_env \<Rightarrow> dispatch_identity \<Rightarrow> string \<Rightarrow> string recovered" where
  "response_receipt_id env i projection_id =
     rbind (canonical_digest env (PyDict
       [(PyStr ''tenant_id'', PyStr (ni_tenant_id i)), (PyStr ''message_id'', PyStr (ni_message_id i)),
        (PyStr ''attempt_id'', PyStr (ni_attempt_id i)), (PyStr ''invocation_id'', PyStr (ni_invocation_id i)),
        (PyStr ''projection_id'', PyStr projection_id)])) (\<lambda>d.
     Inr (''delivery:'' @ ni_message_id i @ '':'' @ ni_attempt_id i @ '':response_received:'' @ take 24 d))"

section \<open>Reading an observation back\<close>

text \<open>
  \<open>Class(**value)\<close>: every required name and no other than the fields. A value of another type than its
  field's is one error, whichever check of the constructor finds it; of several faults of one value the
  first one reported may be another.
\<close>

definition fields_of :: "string list \<Rightarrow> string list \<Rightarrow> pyval \<Rightarrow> (pyval \<times> pyval) list recovered" where
  "fields_of required optional v =
     (case v of
        PyDict kvs \<Rightarrow>
          if set (map fst kvs) \<subseteq> PyStr ` set (required @ optional) \<and> PyStr ` set required \<subseteq> set (map fst kvs) then Inr kvs
          else Inl (RecoveryTypeError ''unexpected or missing keyword argument'')
      | _ \<Rightarrow> Inl (RecoveryTypeError ''mapping required''))"

definition get_str :: "(pyval \<times> pyval) list \<Rightarrow> string \<Rightarrow> string recovered" where
  "get_str kvs k = (case dict_get kvs k of Some (PyStr s) \<Rightarrow> Inr s | _ \<Rightarrow> Inl (RecoveryTypeError k))"

definition get_int :: "(pyval \<times> pyval) list \<Rightarrow> string \<Rightarrow> int recovered" where
  "get_int kvs k = (case dict_get kvs k of Some (PyInt n) \<Rightarrow> Inr n | _ \<Rightarrow> Inl (RecoveryTypeError k))"

definition identity_of :: "pyval \<Rightarrow> dispatch_identity recovered" where
  "identity_of v =
     rbind (fields_of [''tenant_id'', ''message_id'', ''operation_id'', ''invocation_id'', ''attempt_id'', ''dispatch_id'', ''endpoint_id'',
       ''binding_revision'', ''machine_id'', ''node_id'', ''boot_incarnation'', ''accepted_revision'', ''accepted_state_digest''] [] v) (\<lambda>kvs.
     rbind (get_str kvs ''tenant_id'') (\<lambda>t. rbind (get_str kvs ''message_id'') (\<lambda>m. rbind (get_str kvs ''operation_id'') (\<lambda>oper.
     rbind (get_str kvs ''invocation_id'') (\<lambda>inv. rbind (get_str kvs ''attempt_id'') (\<lambda>a. rbind (get_str kvs ''dispatch_id'') (\<lambda>d.
     rbind (get_str kvs ''endpoint_id'') (\<lambda>e. rbind (get_int kvs ''binding_revision'') (\<lambda>b. rbind (get_str kvs ''machine_id'') (\<lambda>mc.
     rbind (get_str kvs ''node_id'') (\<lambda>n. rbind (get_str kvs ''boot_incarnation'') (\<lambda>bi. rbind (get_int kvs ''accepted_revision'') (\<lambda>r.
     rbind (get_str kvs ''accepted_state_digest'') (\<lambda>sd.
     let i = \<lparr>ni_tenant_id = t, ni_message_id = m, ni_operation_id = oper, ni_invocation_id = inv, ni_attempt_id = a, ni_dispatch_id = d,
           ni_endpoint_id = e, ni_binding_revision = b, ni_machine_id = mc, ni_node_id = n, ni_boot_incarnation = bi,
           ni_accepted_revision = r, ni_accepted_state_digest = sd\<rparr> in
     rbind (dispatch_identity_ok i) (\<lambda>_. Inr i)))))))))))))))"

definition context_of :: "pyval \<Rightarrow> harness_context recovered" where
  "context_of v =
     rbind (fields_of [''work_item_id'', ''scope_id'', ''agent_slot_id'', ''runtime_id'', ''attempt_id'', ''message_id'', ''machine_id'', ''node_id'',
       ''node_boot_incarnation'', ''node_binding_revision'', ''endpoint_id'', ''endpoint_binding_revision''] [] v) (\<lambda>kvs.
     rbind (get_str kvs ''work_item_id'') (\<lambda>w. rbind (get_str kvs ''scope_id'') (\<lambda>s. rbind (get_str kvs ''agent_slot_id'') (\<lambda>sl.
     rbind (get_str kvs ''runtime_id'') (\<lambda>r. rbind (get_str kvs ''attempt_id'') (\<lambda>a. rbind (get_str kvs ''message_id'') (\<lambda>m.
     rbind (get_str kvs ''machine_id'') (\<lambda>mc. rbind (get_str kvs ''node_id'') (\<lambda>n. rbind (get_str kvs ''node_boot_incarnation'') (\<lambda>bi.
     rbind (get_int kvs ''node_binding_revision'') (\<lambda>b. rbind (get_str kvs ''endpoint_id'') (\<lambda>e.
     rbind (get_int kvs ''endpoint_binding_revision'') (\<lambda>eb.
     let c = \<lparr>hx_work_item_id = w, hx_scope_id = s, hx_agent_slot_id = sl, hx_runtime_id = r, hx_attempt_id = a, hx_message_id = m,
           hx_machine_id = mc, hx_node_id = n, hx_node_boot_incarnation = bi, hx_node_binding_revision = b, hx_endpoint_id = e,
           hx_endpoint_binding_revision = eb\<rparr> in
     rbind (harness_context_ok c) (\<lambda>_. Inr c))))))))))))))"

definition proof_of :: "pyval \<Rightarrow> harness_proof recovered" where
  "proof_of v =
     rbind (fields_of [''binding_id'', ''revision'', ''driver_kind'', ''native_session_ref'', ''context''] [''binding_event_id''] v) (\<lambda>kvs.
     rbind (context_of (the (dict_get kvs ''context''))) (\<lambda>c.
     rbind (get_str kvs ''binding_id'') (\<lambda>b. rbind (get_int kvs ''revision'') (\<lambda>r. rbind (get_str kvs ''driver_kind'') (\<lambda>d.
     rbind (get_str kvs ''native_session_ref'') (\<lambda>s.
     rbind (case dict_get kvs ''binding_event_id'' of None \<Rightarrow> Inr None | Some PyNone \<Rightarrow> Inr None | Some (PyInt n) \<Rightarrow> Inr (Some n)
       | _ \<Rightarrow> Inl (BoundaryRejected ''harness_binding_event_id_outside_bound'')) (\<lambda>e.
     let p = \<lparr>hz_binding_id = b, hz_revision = r, hz_driver_kind = d, hz_native_session_ref = s, hz_context = c, hz_binding_event_id = e\<rparr> in
     rbind (harness_proof_ok p) (\<lambda>_. Inr p))))))))"

definition native_observation_from_dict :: "(string \<Rightarrow> int option) \<Rightarrow> pyval \<Rightarrow> native_observation recovered" where
  "native_observation_from_dict fromiso v =
     rbind (fields_of [''projection_id'', ''receipt_id'', ''identity'', ''native_response_ref'', ''native_outcome'', ''response_artifact_ref'',
       ''response_digest'', ''evidence_digest'', ''observed_at''] [''harness_proof''] v) (\<lambda>kvs.
     rbind (identity_of (the (dict_get kvs ''identity''))) (\<lambda>i.
     rbind (case dict_get kvs ''harness_proof'' of None \<Rightarrow> Inr None | Some PyNone \<Rightarrow> Inr None
       | Some w \<Rightarrow> rbind (proof_of w) (\<lambda>p. Inr (Some p))) (\<lambda>pr.
     rbind (get_str kvs ''observed_at'') (\<lambda>ot.
     rbind (case fromiso ot of None \<Rightarrow> Inl (RecoveryValueError ''observed_at'') | Some at \<Rightarrow> Inr at) (\<lambda>at.
     rbind (get_str kvs ''projection_id'') (\<lambda>p. rbind (get_str kvs ''receipt_id'') (\<lambda>r. rbind (get_str kvs ''native_response_ref'') (\<lambda>nr.
     rbind (get_str kvs ''native_outcome'') (\<lambda>out. rbind (get_str kvs ''response_artifact_ref'') (\<lambda>ar. rbind (get_str kvs ''response_digest'') (\<lambda>rd.
     rbind (get_str kvs ''evidence_digest'') (\<lambda>ed.
     let obs = \<lparr>nv_projection_id = p, nv_receipt_id = r, nv_identity = i, nv_native_response_ref = nr, nv_native_outcome = out,
           nv_response_artifact_ref = ar, nv_response_digest = rd, nv_evidence_digest = ed, nv_observed_at = at, nv_harness_proof = pr\<rparr> in
     rbind (native_response_ok obs) (\<lambda>_. Inr obs)))))))))))))"

lemma identity_roundtrip: "dispatch_identity_ok i = Inr () \<Longrightarrow> identity_of (identity_dict i) = Inr i"
  by (cases i) (simp add: identity_of_def identity_dict_def fields_of_def get_str_def get_int_def dict_get_def Let_def)

lemma context_roundtrip: "harness_context_ok c = Inr () \<Longrightarrow> context_of (context_dict c) = Inr c"
  by (cases c) (simp add: context_of_def context_dict_def fields_of_def get_str_def get_int_def dict_get_def Let_def)

lemma proof_roundtrip:
  assumes "harness_context_ok (hz_context p) = Inr ()" "harness_proof_ok p = Inr ()"
  shows "proof_of (proof_dict p) = Inr p"
proof -
  have eta: "\<lparr>hz_binding_id = hz_binding_id p, hz_revision = hz_revision p, hz_driver_kind = hz_driver_kind p, hz_native_session_ref = hz_native_session_ref p,
      hz_context = hz_context p, hz_binding_event_id = hz_binding_event_id p\<rparr> = p" by simp
  have c: "context_of (context_dict (hz_context p)) = Inr (hz_context p)" by (rule context_roundtrip [OF assms(1)])
  show ?thesis using assms(2) eta
    by (cases "hz_binding_event_id p") (simp_all add: proof_of_def proof_dict_def fields_of_def get_str_def get_int_def dict_get_def c Let_def harness_proof_ok_def)
qed

lemma observation_roundtrip:
  assumes ok: "observation_ok v = Inr ()" and iso: "\<And>t. fromiso (isoformat env (DT t (Some 0))) = Some t"
  shows "native_observation_from_dict fromiso (observation_dict env v) = Inr v"
proof -
  from ok have i: "identity_of (identity_dict (nv_identity v)) = Inr (nv_identity v)"
    by (intro identity_roundtrip) (simp add: observation_ok_def)
  from ok have n: "native_response_ok v = Inr ()" by (auto simp: observation_ok_def checks_Inr)
  have p: "(case proof_or_none v of PyNone \<Rightarrow> Inr None | w \<Rightarrow> rbind (proof_of w) (\<lambda>p. Inr (Some p))) = Inr (nv_harness_proof v)"
  proof (cases "nv_harness_proof v")
    case (Some q)
    with ok have "proof_of (proof_dict q) = Inr q" by (intro proof_roundtrip) (simp_all add: observation_ok_def)
    then show ?thesis by (simp add: proof_or_none_def Some) (simp add: proof_dict_def)
  qed (simp add: proof_or_none_def)
  have eta: "\<lparr>nv_projection_id = nv_projection_id v, nv_receipt_id = nv_receipt_id v, nv_identity = nv_identity v, nv_native_response_ref = nv_native_response_ref v,
      nv_native_outcome = nv_native_outcome v, nv_response_artifact_ref = nv_response_artifact_ref v, nv_response_digest = nv_response_digest v,
      nv_evidence_digest = nv_evidence_digest v, nv_observed_at = nv_observed_at v, nv_harness_proof = nv_harness_proof v\<rparr> = v" by simp
  show ?thesis
    by (simp add: eta native_observation_from_dict_def observation_dict_def fields_of_def get_str_def dict_get_def utc_text_def iso i p n Let_def)
qed

section \<open>The outbox of a Node\<close>

record node_response_row =
  rx_projection_id :: string
  rx_tenant_id :: string
  rx_receipt_id :: string
  rx_invocation_id :: string
  rx_native_response_ref :: string
  rx_canonical_digest :: string
  rx_payload :: pyval
  rx_state :: string

record projection_row =
  px_projection_id :: string
  px_attempts :: nat
  px_last_error :: "string option"

record response_outbox =
  node_responses :: "node_response_row list"
  node_projections :: "projection_row list"

record disposition =
  pd_projection_id :: string
  pd_canonical_digest :: string
  pd_disposition :: string

definition canonical_receipt :: "hash_env \<Rightarrow> string \<Rightarrow> native_observation \<Rightarrow> unit recovered" where
  "canonical_receipt env message v =
     rbind (response_receipt_id env (nv_identity v) (nv_projection_id v)) (\<lambda>rid. guard (nv_receipt_id v = rid) (BoundaryRejected message))"

definition node_row :: "hash_env \<Rightarrow> native_observation \<Rightarrow> string \<Rightarrow> node_response_row" where
  "node_row env v digest = \<lparr>rx_projection_id = nv_projection_id v, rx_tenant_id = ni_tenant_id (nv_identity v), rx_receipt_id = nv_receipt_id v,
     rx_invocation_id = ni_invocation_id (nv_identity v), rx_native_response_ref = nv_native_response_ref v, rx_canonical_digest = digest,
     rx_payload = observation_dict env v, rx_state = ''pending''\<rparr>"

definition record_response :: "hash_env \<Rightarrow> native_observation \<Rightarrow> response_outbox \<Rightarrow> (bool \<times> response_outbox) recovered" where
  "record_response env v ob =
     rbind (observation_ok v) (\<lambda>_.
     rbind (canonical_digest env (observation_dict env v)) (\<lambda>digest.
     rbind (canonical_receipt env ''Node response receipt identity is not canonical'' v) (\<lambda>_.
     case filter (\<lambda>r. rx_projection_id r = nv_projection_id v \<or>
         (rx_tenant_id r, rx_receipt_id r) = (ni_tenant_id (nv_identity v), nv_receipt_id v) \<or>
         (rx_tenant_id r, rx_invocation_id r) = (ni_tenant_id (nv_identity v), ni_invocation_id (nv_identity v))) (node_responses ob) of
       [] \<Rightarrow> Inr (True, ob\<lparr>node_responses := node_responses ob @ [node_row env v digest],
                node_projections := node_projections ob @ [\<lparr>px_projection_id = nv_projection_id v, px_attempts = 0, px_last_error = None\<rparr>]\<rparr>)
     | r # rest \<Rightarrow>
         if rest \<noteq> [] \<or> rx_projection_id r \<noteq> nv_projection_id v then Inl (StateConflict ''Node response identity already belongs to another projection'')
         else if rx_canonical_digest r \<noteq> digest then Inl (StateConflict ''Node projection identity changed'')
         else Inr (False, ob))))"

text \<open>The join of both tables in the order of \<open>rowid\<close>.\<close>

definition joined :: "response_outbox \<Rightarrow> (projection_row \<times> node_response_row) list" where
  "joined ob = concat (map (\<lambda>x. map (Pair x) (filter (\<lambda>r. rx_projection_id r = px_projection_id x) (node_responses ob))) (node_projections ob))"

primrec traverse :: "('a \<Rightarrow> 'e + 'b) \<Rightarrow> 'a list \<Rightarrow> 'e + 'b list" where
  "traverse f [] = Inr []"
| "traverse f (x # xs) = rbind (f x) (\<lambda>y. rbind (traverse f xs) (\<lambda>ys. Inr (y # ys)))"

definition pending :: "(string \<Rightarrow> int option) \<Rightarrow> nat \<Rightarrow> response_outbox \<Rightarrow> native_observation list recovered" where
  "pending fromiso limit ob =
     (if \<not> (1 \<le> limit \<and> limit \<le> 128) then Inl (RecoveryValueError ''pending limit outside bound'')
      else traverse (\<lambda>(x, r). native_observation_from_dict fromiso (rx_payload r)) (take limit (joined ob)))"

definition by_invocation :: "(string \<Rightarrow> int option) \<Rightarrow> dispatch_identity \<Rightarrow> response_outbox \<Rightarrow> native_observation option recovered" where
  "by_invocation fromiso i ob =
     (case filter (\<lambda>r. (rx_tenant_id r, rx_invocation_id r) = (ni_tenant_id i, ni_invocation_id i)) (node_responses ob) of
        [] \<Rightarrow> Inr None
      | [r] \<Rightarrow> rbind (native_observation_from_dict fromiso (rx_payload r)) (\<lambda>v.
          if nv_identity v \<noteq> i then Inl (StateConflict ''cached terminal belongs to a different DispatchIdentity'') else Inr (Some v))
      | _ \<Rightarrow> Inl (StateConflict ''multiple terminal observations for one invocation''))"

definition mark :: "disposition \<Rightarrow> response_outbox \<Rightarrow> response_outbox recovered" where
  "mark d ob =
     (if pd_disposition d \<notin> {''applied'', ''fenced_late''} then Inl (RecoveryValueError ''invalid Domain projection disposition'')
      else case find (\<lambda>r. rx_projection_id r = pd_projection_id d) (node_responses ob) of
        None \<Rightarrow> Inl (StateConflict ''Domain disposition does not match Node observation'')
      | Some r \<Rightarrow>
          if rx_canonical_digest r \<noteq> pd_canonical_digest d then Inl (StateConflict ''Domain disposition does not match Node observation'')
          else if rx_state r \<notin> {''pending'', pd_disposition d} then Inl (StateConflict ''Domain disposition changed'')
          else Inr (ob\<lparr>node_responses := update_where (\<lambda>r. rx_projection_id r = pd_projection_id d) (rx_state_update (\<lambda>_. pd_disposition d)) (node_responses ob),
                 node_projections := filter (\<lambda>x. px_projection_id x \<noteq> pd_projection_id d) (node_projections ob)\<rparr>))"

definition fail :: "string \<Rightarrow> string \<Rightarrow> response_outbox \<Rightarrow> response_outbox recovered" where
  "fail projection_id error_code ob =
     (if error_code = [] \<or> 256 < length error_code then Inl (RecoveryValueError ''bounded error code required'')
      else if length (filter (\<lambda>x. px_projection_id x = projection_id) (node_projections ob)) \<noteq> 1 then Inl (StateConflict ''unknown pending projection'')
      else Inr (ob\<lparr>node_projections := update_where (\<lambda>x. px_projection_id x = projection_id)
        (\<lambda>x. x\<lparr>px_attempts := px_attempts x + 1, px_last_error := Some error_code\<rparr>) (node_projections ob)\<rparr>))"

definition outbox_recover :: "response_outbox \<Rightarrow> (string \<times> string \<times> nat \<times> string option) list" where
  "outbox_recover ob = map (\<lambda>(x, r). (rx_projection_id r, rx_canonical_digest r, px_attempts x, px_last_error x)) (joined ob)"

section \<open>The projection into the domain\<close>

record response_authority =
  vs_committed_identity :: dispatch_identity
  vs_producer_authenticated :: bool
  vs_current_authority_valid :: bool
  vs_task_valid :: bool
  vs_current_attempt_id :: string
  vs_current_accepted_revision :: int
  vs_current_accepted_state_digest :: string
  vs_deadline :: "int option"
  vs_principal_ref :: string
  vs_grant_ref :: string
  vs_policy_version :: string

definition response_authority_ok :: "response_authority \<Rightarrow> unit recovered" where
  "response_authority_ok a = checks
     [text_within 512 ''current_attempt_id'' (vs_current_attempt_id a), text_within 512 ''principal_ref'' (vs_principal_ref a),
      text_within 512 ''grant_ref'' (vs_grant_ref a), text_within 512 ''policy_version'' (vs_policy_version a),
      guard (0 \<le> vs_current_accepted_revision a) (BoundaryRejected ''current accepted revision outside bound''),
      digest_field ''current_accepted_state_digest'' (vs_current_accepted_state_digest a)]"

record domain_response_row =
  dv_observation :: native_observation
  dv_canonical_digest :: string
  dv_disposition :: string

record response_audit_row =
  va_tenant_id :: string
  va_projection_id :: string
  va_event_type :: string
  va_command_id :: string
  va_principal_ref :: string
  va_grant_ref :: string
  va_policy_version :: string
  va_evidence :: pyval

record response_db =
  rd_delivery :: delivery_db
  rd_responses :: "domain_response_row list"
  rd_audit :: "response_audit_row list"

definition response_tenant :: "domain_response_row \<Rightarrow> string" where
  "response_tenant r = ni_tenant_id (nv_identity (dv_observation r))"

definition receipt_evidence :: "native_observation \<Rightarrow> pyval" where
  "receipt_evidence v = PyDict
     [(PyStr ''projection_id'', PyStr (nv_projection_id v)), (PyStr ''invocation_id'', PyStr (ni_invocation_id (nv_identity v))),
      (PyStr ''native_response_ref'', PyStr (nv_native_response_ref v)), (PyStr ''native_outcome'', PyStr (nv_native_outcome v)),
      (PyStr ''response_artifact_ref'', PyStr (nv_response_artifact_ref v)), (PyStr ''response_digest'', PyStr (nv_response_digest v)),
      (PyStr ''evidence_digest'', PyStr (nv_evidence_digest v)), (PyStr ''harness_proof'', proof_or_none v)]"

text \<open>The committed Attempt of the observation, and whether its dispatch receipt is the current one.\<close>

definition committed_attempt :: "dispatch_identity \<Rightarrow> delivery_db \<Rightarrow> string recovered" where
  "committed_attempt i db =
     (case find (\<lambda>a. attempt_message a = (ni_tenant_id i, ni_message_id i) \<and> da_attempt_id a = ni_attempt_id i) (delivery_attempts db) of
        None \<Rightarrow> Inl (BoundaryRejected ''committed delivery attempt identity changed'')
      | Some a \<Rightarrow>
          if da_operation_id a \<noteq> ni_operation_id i \<or> da_dispatch_id a \<noteq> Some (ni_dispatch_id i)
          then Inl (BoundaryRejected ''committed delivery attempt identity changed'')
          else case da_runtime_dispatched_receipt_id a of
            None \<Rightarrow> Inl (BoundaryRejected ''committed delivery attempt identity changed'')
          | Some rid \<Rightarrow> Inr rid)"

definition dispatch_receipt_current :: "dispatch_identity \<Rightarrow> string \<Rightarrow> delivery_db \<Rightarrow> bool" where
  "dispatch_receipt_current i rid db =
     (case find (\<lambda>r. receipt_message r = (ni_tenant_id i, ni_message_id i) \<and> dr_receipt_id r = rid \<and> dr_layer r = ''runtime_dispatched'')
        (delivery_receipts db) of
        None \<Rightarrow> False
      | Some r \<Rightarrow> dr_attempt_id r = Some (ni_attempt_id i) \<and> dr_dispatch_id r = Some (ni_dispatch_id i))"

definition response_current :: "response_authority \<Rightarrow> int \<Rightarrow> message_row \<Rightarrow> dispatch_identity \<Rightarrow> bool" where
  "response_current a now m i \<longleftrightarrow> vs_current_authority_valid a \<and> vs_task_valid a \<and>
     \<not> expired (earliest [vs_deadline a, map_option instant (packet_deadline (dm_packet m))]) now \<and>
     vs_current_attempt_id a = ni_attempt_id i \<and> vs_current_accepted_revision a = ni_accepted_revision i \<and>
     vs_current_accepted_state_digest a = ni_accepted_state_digest i"

text \<open>The receipt of the response, the settled message and the settled Attempt.\<close>

definition settle_response :: "native_observation \<Rightarrow> int \<Rightarrow> delivery_db \<Rightarrow> delivery_db recovered" where
  "settle_response v now db =
     (let i = nv_identity v; k = (ni_tenant_id i, ni_message_id i);
          r = \<lparr>dr_tenant_id = ni_tenant_id i, dr_message_id = ni_message_id i, dr_receipt_id = nv_receipt_id v, dr_layer = ''response_received'',
               dr_attempt_id = Some (ni_attempt_id i), dr_dispatch_id = Some (ni_dispatch_id i), dr_evidence = receipt_evidence v\<rparr>;
          this = (\<lambda>a. attempt_message a = k \<and> da_attempt_id a = ni_attempt_id i \<and> da_operation_id a = ni_operation_id i \<and>
                   da_dispatch_id a = Some (ni_dispatch_id i)) in
      if (dr_tenant_id r, dr_receipt_id r) \<in> (\<lambda>q. (dr_tenant_id q, dr_receipt_id q)) ` set (delivery_receipts db)
      then Inl (UniqueViolation ''delivery_receipts'')
      else if length (filter this (delivery_attempts db)) \<noteq> 1 then Inl (BoundaryRejected ''projected delivery attempt disappeared'')
      else Inr (update_attempts this (\<lambda>a. a\<lparr>da_status := ''delivered'', da_error_code := None,
             da_finished_at := (case da_finished_at a of None \<Rightarrow> Some now | t \<Rightarrow> t)\<rparr>)
           (update_message k (\<lambda>m. m\<lparr>dm_receipt_high_water := ''response_received'', dm_state := ''delivered'', dm_last_error := None\<rparr>)
             (db\<lparr>delivery_receipts := delivery_receipts db @ [r]\<rparr>))))"

definition response_audit :: "response_authority \<Rightarrow> native_observation \<Rightarrow> string \<Rightarrow> string \<Rightarrow> bool \<Rightarrow> response_audit_row" where
  "response_audit a v digest result receipt_current =
     \<lparr>va_tenant_id = ni_tenant_id (nv_identity v), va_projection_id = nv_projection_id v, va_event_type = ''native_response_'' @ result,
      va_command_id = ni_operation_id (nv_identity v), va_principal_ref = vs_principal_ref a, va_grant_ref = vs_grant_ref a,
      va_policy_version = vs_policy_version a,
      va_evidence = PyDict [(PyStr ''canonical_digest'', PyStr digest), (PyStr ''native_response_ref'', PyStr (nv_native_response_ref v)),
        (PyStr ''response_artifact_ref'', PyStr (nv_response_artifact_ref v)), (PyStr ''response_digest'', PyStr (nv_response_digest v)),
        (PyStr ''evidence_digest'', PyStr (nv_evidence_digest v)),
        (PyStr ''harness_binding_id'', case nv_harness_proof v of None \<Rightarrow> PyNone | Some p \<Rightarrow> PyStr (hz_binding_id p)),
        (PyStr ''harness_binding_revision'', case nv_harness_proof v of None \<Rightarrow> PyNone | Some p \<Rightarrow> PyInt (hz_revision p)),
        (PyStr ''runtime_dispatch_receipt_current'', PyBool receipt_current)]\<rparr>"

text \<open>The part of \<open>project\<close> that runs for an observation the domain has not seen, with the final authority.\<close>

definition take_in :: "response_authority \<Rightarrow> int \<Rightarrow> int \<Rightarrow> message_row \<Rightarrow> native_observation \<Rightarrow> string \<Rightarrow> bool \<Rightarrow> receipt_row option \<Rightarrow> response_db \<Rightarrow> (disposition \<times> response_db) recovered" where
  "take_in a now finished m v digest receipt_current existing db =
     (let i = nv_identity v;
          applied = (receipt_current \<and> response_current a now m i);
          result = (if applied then ''applied'' else ''fenced_late'') in
      if applied \<and> (case existing of None \<Rightarrow> False
           | Some r \<Rightarrow> \<not> (dr_receipt_id r = nv_receipt_id v \<and> py_eq (dr_evidence r) (receipt_evidence v) \<and>
                dr_attempt_id r = Some (ni_attempt_id i) \<and> dr_dispatch_id r = Some (ni_dispatch_id i)))
      then Inl (StateConflict ''response receipt conflict'')
      else rbind (checks [bigint (ni_binding_revision i), bigint (ni_accepted_revision i)]) (\<lambda>_.
        rbind (if applied \<and> existing = None then settle_response v finished (rd_delivery db) else Inr (rd_delivery db)) (\<lambda>del.
        Inr (\<lparr>pd_projection_id = nv_projection_id v, pd_canonical_digest = digest, pd_disposition = result\<rparr>,
             db\<lparr>rd_delivery := del,
                rd_responses := rd_responses db @ [\<lparr>dv_observation = v, dv_canonical_digest = digest, dv_disposition = result\<rparr>],
                rd_audit := rd_audit db @ [response_audit a v digest result receipt_current]\<rparr>))))"

definition project_response ::
  "hash_env \<Rightarrow> (nat \<Rightarrow> response_authority) \<Rightarrow> (nat \<Rightarrow> int) \<Rightarrow> native_observation \<Rightarrow> response_db \<Rightarrow> (disposition \<times> response_db) recovered" where
  "project_response env snap clk v db =
     (let i = nv_identity v; key = (ni_tenant_id i, ni_message_id i) in
      rbind (canonical_digest env (observation_dict env v)) (\<lambda>digest.
      rbind (canonical_receipt env ''response receipt identity is not canonical'' v) (\<lambda>_.
      case lookup_delivery key (rd_delivery db) of
        None \<Rightarrow> Inl (BoundaryRejected ''committed delivery message identity changed'')
      | Some m \<Rightarrow>
          if dm_operation_id m \<noteq> ni_operation_id i \<or> dm_accepted_state_digest m \<noteq> ni_accepted_state_digest i
          then Inl (BoundaryRejected ''committed delivery message identity changed'')
          else rbind (response_authority_ok (snap 0)) (\<lambda>_.
          if \<not> vs_producer_authenticated (snap 0) then Inl (BoundaryRejected ''native observation producer not authenticated'')
          else if vs_committed_identity (snap 0) \<noteq> i then Inl (BoundaryRejected ''committed dispatch identity changed'')
          else rbind (committed_attempt i (rd_delivery db)) (\<lambda>rid.
          let receipt_current = dispatch_receipt_current i rid (rd_delivery db) in
          if \<not> receipt_current \<and> nv_harness_proof v = None then Inl (BoundaryRejected ''runtime dispatch receipt is not committed'')
          else case find (\<lambda>r. (response_tenant r, nv_projection_id (dv_observation r)) = (ni_tenant_id i, nv_projection_id v)) (rd_responses db) of
            Some r \<Rightarrow>
              if dv_canonical_digest r \<noteq> digest then Inl (StateConflict ''projection identity conflict'')
              else Inr (\<lparr>pd_projection_id = nv_projection_id v, pd_canonical_digest = digest, pd_disposition = dv_disposition r\<rparr>, db)
          | None \<Rightarrow>
              if \<exists>r \<in> set (rd_responses db). response_tenant r = ni_tenant_id i \<and>
                   (nv_receipt_id (dv_observation r) = nv_receipt_id v \<or> ni_invocation_id (nv_identity (dv_observation r)) = ni_invocation_id i)
              then Inl (StateConflict ''receipt or native response identity conflict'')
              else rbind (response_authority_ok (snap 1)) (\<lambda>_.
                if \<not> vs_producer_authenticated (snap 1) \<or> vs_committed_identity (snap 1) \<noteq> i
                then Inl (BoundaryRejected ''final native observation authority changed'')
                else take_in (snap 1) (clk 0) (clk 1) m v digest receipt_current (lookup_receipt key ''response_received'' (rd_delivery db)) db))))))"

section \<open>The retry loop\<close>

fun error_name :: "recovery_error \<Rightarrow> string" where
  "error_name (StateConflict _) = ''StateConflict''"
| "error_name (BoundaryRejected _) = ''BoundaryRejected''"
| "error_name (UniqueViolation _) = ''UniqueViolation''"
| "error_name NumericValueOutOfRange = ''NumericValueOutOfRange''"
| "error_name (AttributeError _) = ''AttributeError''"
| "error_name (RecoveryTypeError _) = ''TypeError''"
| "error_name (RecoveryValueError _) = ''ValueError''"

text \<open>
  One round of \<open>retry_pending\<close>: the projection of an observation, then its mark or its failure. The world of
  the round is its snapshots and its clock. The disposition is absent when the projection failed.
\<close>

type_synonym response_world = "(nat \<Rightarrow> response_authority) \<times> (nat \<Rightarrow> int)"

definition retry_one ::
  "hash_env \<Rightarrow> response_world \<Rightarrow> native_observation \<Rightarrow> response_outbox \<times> response_db \<Rightarrow> (disposition option \<times> response_outbox \<times> response_db) recovered" where
  "retry_one env w v s =
     (case project_response env (fst w) (snd w) v (snd s) of
        Inl e \<Rightarrow> rbind (fail (nv_projection_id v) (error_name e) (fst s)) (\<lambda>ob. Inr (None, ob, snd s))
      | Inr (d, db) \<Rightarrow> rbind (mark d (fst s)) (\<lambda>ob. Inr (Some d, ob, db)))"

primrec retry_all ::
  "hash_env \<Rightarrow> (native_observation \<Rightarrow> response_world) \<Rightarrow> native_observation list \<Rightarrow> response_outbox \<times> response_db \<Rightarrow>
   (disposition list \<times> response_outbox \<times> response_db) recovered" where
  "retry_all env w [] s = Inr ([], s)"
| "retry_all env w (v # vs) s =
     rbind (retry_one env (w v) v s) (\<lambda>(d, s). rbind (retry_all env w vs s) (\<lambda>(ds, s). Inr (case d of None \<Rightarrow> ds | Some d \<Rightarrow> d # ds, s)))"

definition retry_pending ::
  "hash_env \<Rightarrow> (string \<Rightarrow> int option) \<Rightarrow> (native_observation \<Rightarrow> response_world) \<Rightarrow> nat \<Rightarrow> response_outbox \<times> response_db \<Rightarrow>
   (disposition list \<times> response_outbox \<times> response_db) recovered" where
  "retry_pending env fromiso w limit s = rbind (pending fromiso limit (fst s)) (\<lambda>vs. retry_all env w vs s)"

end
