(* ===== verification/Response_Samples.thy ===== *)
theory Response_Samples
  imports Response_Outbox Delivery_Samples
begin

text \<open>
  A response from end to end: a Node records the observation of a dispatched Attempt, the domain takes it
  in as applied, the Node marks it.
\<close>

section \<open>A clock text that reads back\<close>

definition plain_iso :: "datetime \<Rightarrow> string" where
  "plain_iso d = (if 0 \<le> instant d then replicate (nat (instant d)) (CHR ''+'') else CHR ''-'' # replicate (nat (- instant d)) (CHR ''+''))"

definition plain_fromiso :: "string \<Rightarrow> int option" where
  "plain_fromiso s = (case s of [] \<Rightarrow> Some 0 | c # cs \<Rightarrow> Some (if c = CHR ''-'' then - int (length cs) else int (length s)))"

lemma plain_roundtrip: "plain_fromiso (plain_iso (DT t (Some 0))) = Some t"
proof (cases "0 \<le> t")
  case True
  then show ?thesis by (cases "nat t") (auto simp: plain_iso_def plain_fromiso_def)
next
  case False
  then show ?thesis by (simp add: plain_iso_def plain_fromiso_def)
qed

section \<open>The observation\<close>

definition response_env :: hash_env where
  "response_env = \<lparr>sha256_hex = (\<lambda>s. sha_a), isoformat = plain_iso, model_time = (\<lambda>_. []), json_loads = (\<lambda>_. None)\<rparr>"

definition response_identity :: dispatch_identity where
  "response_identity = \<lparr>ni_tenant_id = ''t'', ni_message_id = ''m1'', ni_operation_id = ''o1'', ni_invocation_id = ''delivery-invocation:a1'',
     ni_attempt_id = ''a1'', ni_dispatch_id = ''delivery-dispatch:a1'', ni_endpoint_id = ''e'', ni_binding_revision = 1, ni_machine_id = ''mc'',
     ni_node_id = ''n'', ni_boot_incarnation = ''b'', ni_accepted_revision = 0, ni_accepted_state_digest = sha_a\<rparr>"

definition response_1 :: native_observation where
  "response_1 = \<lparr>nv_projection_id = ''p1'', nv_receipt_id = ''delivery:m1:a1:response_received:'' @ take 24 sha_a, nv_identity = response_identity,
     nv_native_response_ref = ''r1'', nv_native_outcome = ''completed'', nv_response_artifact_ref = ''f1'', nv_response_digest = sha_a,
     nv_evidence_digest = sha_a, nv_observed_at = 7, nv_harness_proof = None\<rparr>"

definition response_authority_1 :: response_authority where
  "response_authority_1 = \<lparr>vs_committed_identity = response_identity, vs_producer_authenticated = True, vs_current_authority_valid = True, vs_task_valid = True,
     vs_current_attempt_id = ''a1'', vs_current_accepted_revision = 0, vs_current_accepted_state_digest = sha_a, vs_deadline = None,
     vs_principal_ref = ''p'', vs_grant_ref = ''g'', vs_policy_version = ''v''\<rparr>"

definition node_outbox_0 :: response_outbox where
  "node_outbox_0 = \<lparr>node_responses = [], node_projections = []\<rparr>"

definition node_outbox_1 :: response_outbox where
  "node_outbox_1 = \<lparr>node_responses = [node_row response_env response_1 sha_a],
     node_projections = [\<lparr>px_projection_id = ''p1'', px_attempts = 0, px_last_error = None\<rparr>]\<rparr>"

definition node_outbox_2 :: response_outbox where
  "node_outbox_2 = \<lparr>node_responses = [(node_row response_env response_1 sha_a)\<lparr>rx_state := ''applied''\<rparr>], node_projections = []\<rparr>"

definition domain_db_0 :: response_db where
  "domain_db_0 = \<lparr>rd_delivery = dispatched_db, rd_responses = [], rd_audit = []\<rparr>"

definition response_answer :: disposition where
  "response_answer = \<lparr>pd_projection_id = ''p1'', pd_canonical_digest = sha_a, pd_disposition = ''applied''\<rparr>"

lemma digest_observation:
  "canonical_digest response_env (observation_dict response_env response_1) = Inr sha_a"
  "canonical_receipt response_env message response_1 = Inr ()"
  by (simp_all add: canonical_receipt_def response_receipt_id_def canonical_digest_def MAX_CANONICAL_BYTES_def canonical_json_def observation_dict_def
      identity_dict_def proof_or_none_def response_1_def response_identity_def plain_iso_def
      utc_text_def response_env_def sha_a_def json_string_def json_char_def Let_def int_dec_def nat_dec.simps guard_def)

lemma response_1_ok: "observation_ok response_1 = Inr ()"
  by (simp add: observation_ok_def dispatch_identity_ok_def native_response_ok_def response_1_def response_identity_def text_within_def digest_field_def
      is_sha256_def sha_a_def guard_def)

lemma recorded_run: "record_response response_env response_1 node_outbox_0 = Inr (True, node_outbox_1)"
proof -
  have "nv_projection_id response_1 = ''p1''" by (simp add: response_1_def)
  then show ?thesis by (simp add: record_response_def response_1_ok digest_observation node_outbox_0_def node_outbox_1_def)
qed

lemma marked_run: "mark response_answer node_outbox_1 = Inr node_outbox_2"
  by (simp add: mark_def response_answer_def node_outbox_1_def node_outbox_2_def node_row_def response_1_def)

lemma response_authority_1_ok: "response_authority_ok response_authority_1 = Inr ()"
  by (simp add: response_authority_ok_def response_authority_1_def text_within_def digest_field_def is_sha256_def sha_a_def guard_def)

lemma projected_run: "\<exists>db. project_response response_env (\<lambda>_. response_authority_1) (\<lambda>_. 9) response_1 domain_db_0 = Inr (response_answer, db)"
proof -
  have o: "nv_identity response_1 = response_identity" "nv_projection_id response_1 = ''p1''" "nv_harness_proof response_1 = None"
      "ni_tenant_id response_identity = ''t''" "ni_message_id response_identity = ''m1''" "ni_operation_id response_identity = ''o1''" "ni_attempt_id response_identity = ''a1''"
      "ni_dispatch_id response_identity = ''delivery-dispatch:a1''" "ni_accepted_state_digest response_identity = sha_a" "ni_accepted_revision response_identity = 0"
      "ni_binding_revision response_identity = 1"
    by (simp_all add: response_1_def response_identity_def)
  obtain m where m: "lookup_delivery (''t'', ''m1'') dispatched_db = Some m" "dm_operation_id m = ''o1''" "dm_accepted_state_digest m = sha_a"
      "packet_deadline (dm_packet m) = None"
    by (simp add: lookup_delivery_def dispatched_db_def message_key_def message_1_def packet_1_def)
  have a: "committed_attempt response_identity dispatched_db = Inr ''delivery:m1:runtime_dispatched''"
    by (simp add: committed_attempt_def dispatched_db_def attempt_message_def attempt_1_def o)
  have r: "dispatch_receipt_current response_identity ''delivery:m1:runtime_dispatched'' dispatched_db"
    by (simp add: dispatch_receipt_current_def dispatched_db_def receipt_message_def marker_1_def accepted_1_def o)
  have n: "lookup_receipt (''t'', ''m1'') ''response_received'' dispatched_db = None"
    by (simp add: lookup_receipt_def dispatched_db_def receipt_message_def marker_1_def accepted_1_def)
  have cur: "response_current response_authority_1 9 m response_identity"
    by (simp add: response_current_def response_authority_1_def o m expired_def earliest_def List.map_filter_def)
  obtain del where s: "settle_response response_1 9 dispatched_db = Inr del"
    by (simp add: settle_response_def dispatched_db_def attempt_message_def attempt_1_def marker_1_def accepted_1_def o response_1_def response_identity_def)
  have v: "vs_producer_authenticated response_authority_1" "vs_committed_identity response_authority_1 = response_identity" by (simp_all add: response_authority_1_def)
  show ?thesis
    by (simp add: project_response_def take_in_def digest_observation response_authority_1_ok domain_db_0_def o m a r n cur s v bigint_def guard_def response_answer_def Let_def)
qed

end
