(* ===== verification/Response_Properties.thy ===== *)
theory Response_Properties
  imports Response_Samples
begin

text \<open>
  A Node and the domain together: whatever is cut between the projection of a response and its mark, the
  domain takes a response in once, the Node never records another answer than the domain's, and the retry
  loop always runs to its end.
\<close>

section \<open>Runs\<close>

type_synonym response_system = "response_outbox \<times> response_db"

text \<open>
  \<open>projected\<close> is any projection: of another Node, or of this one when it stops before the mark. \<open>elsewhere\<close> is
  any change of the delivery tables by the rest of the system.
\<close>

definition holds :: "hash_env \<Rightarrow> response_outbox \<Rightarrow> native_observation \<Rightarrow> bool" where
  "holds env ob v \<longleftrightarrow> (\<exists>r \<in> set (node_responses ob). rx_payload r = observation_dict env v)"

inductive response_step :: "hash_env \<Rightarrow> response_system \<Rightarrow> response_system \<Rightarrow> bool" for env where
  observed: "record_response env v ob = Inr (b, ob') \<Longrightarrow> response_step env (ob, db) (ob', db)"
| projected: "project_response env snap clk v db = Inr (d, db') \<Longrightarrow> response_step env (ob, db) (ob, db')"
| settled: "holds env ob v \<Longrightarrow> project_response env snap clk v db = Inr (d, db') \<Longrightarrow> mark d ob = Inr ob' \<Longrightarrow> response_step env (ob, db) (ob', db')"
| failed: "fail pid code ob = Inr ob' \<Longrightarrow> response_step env (ob, db) (ob', db)"
| elsewhere: "response_step env (ob, db) (ob, db\<lparr>rd_delivery := del\<rparr>)"

inductive response_reachable :: "hash_env \<Rightarrow> response_system \<Rightarrow> bool" for env where
  response_start: "response_reachable env (\<lparr>node_responses = [], node_projections = []\<rparr>, \<lparr>rd_delivery = del, rd_responses = [], rd_audit = []\<rparr>)"
| response_next: "response_reachable env s \<Longrightarrow> response_step env s s' \<Longrightarrow> response_reachable env s'"

section \<open>The invariant\<close>

definition row_typed :: "hash_env \<Rightarrow> node_response_row \<Rightarrow> native_observation \<Rightarrow> bool" where
  "row_typed env r v \<longleftrightarrow> observation_ok v = Inr () \<and> canonical_digest env (observation_dict env v) = Inr (rx_canonical_digest r) \<and>
     r = (node_row env v (rx_canonical_digest r))\<lparr>rx_state := rx_state r\<rparr> \<and> rx_state r \<in> {''pending'', ''applied'', ''fenced_late''}"

definition outbox_ok :: "hash_env \<Rightarrow> response_outbox \<Rightarrow> bool" where
  "outbox_ok env ob \<longleftrightarrow> (\<forall>r \<in> set (node_responses ob). \<exists>v. row_typed env r v) \<and> distinct (map rx_projection_id (node_responses ob)) \<and>
     map px_projection_id (node_projections ob) = map rx_projection_id (filter (\<lambda>r. rx_state r = ''pending'') (node_responses ob))"

definition domain_ok :: "hash_env \<Rightarrow> response_db \<Rightarrow> bool" where
  "domain_ok env db \<longleftrightarrow>
     (\<forall>q \<in> set (rd_responses db). dv_disposition q \<in> {''applied'', ''fenced_late''} \<and>
        canonical_digest env (observation_dict env (dv_observation q)) = Inr (dv_canonical_digest q)) \<and>
     distinct (map (\<lambda>q. (response_tenant q, ni_invocation_id (nv_identity (dv_observation q)))) (rd_responses db))"

definition answered :: "node_response_row \<Rightarrow> response_db \<Rightarrow> bool" where
  "answered r db \<longleftrightarrow> (\<exists>q \<in> set (rd_responses db). response_tenant q = rx_tenant_id r \<and> nv_projection_id (dv_observation q) = rx_projection_id r \<and>
     dv_canonical_digest q = rx_canonical_digest r \<and> dv_disposition q = rx_state r)"

definition response_ok :: "hash_env \<Rightarrow> response_system \<Rightarrow> bool" where
  "response_ok env s \<longleftrightarrow> outbox_ok env (fst s) \<and> domain_ok env (snd s) \<and>
     (\<forall>r \<in> set (node_responses (fst s)). rx_state r \<noteq> ''pending'' \<longrightarrow> answered r (snd s))"

lemma observation_dict_inject: "observation_dict env v = observation_dict env u \<Longrightarrow>
    nv_projection_id v = nv_projection_id u \<and> ni_tenant_id (nv_identity v) = ni_tenant_id (nv_identity u)"
  by (simp add: observation_dict_def identity_dict_def)

lemma take_in_cases:
  assumes "take_in a now fin m v digest cur ex db = Inr (d, db')"
  shows "\<exists>result del. result \<in> {''applied'', ''fenced_late''} \<and> d = \<lparr>pd_projection_id = nv_projection_id v, pd_canonical_digest = digest, pd_disposition = result\<rparr> \<and>
    rd_responses db' = rd_responses db @ [\<lparr>dv_observation = v, dv_canonical_digest = digest, dv_disposition = result\<rparr>]"
proof -
  define result where "result = (if cur \<and> response_current a now m (nv_identity v) then ''applied'' else ''fenced_late'')"
  from assms obtain del where
    "d = \<lparr>pd_projection_id = nv_projection_id v, pd_canonical_digest = digest, pd_disposition = result\<rparr>"
    "db' = db\<lparr>rd_delivery := del, rd_responses := rd_responses db @ [\<lparr>dv_observation = v, dv_canonical_digest = digest, dv_disposition = result\<rparr>],
       rd_audit := rd_audit db @ [response_audit a v digest result cur]\<rparr>"
    unfolding take_in_def Let_def if_Inl_Inr rbind_eq_Inr result_def [symmetric] sum.inject prod.inject by (elim conjE exE) blast
  then show ?thesis by (auto simp: result_def)
qed

lemma project_cases:
  assumes run: "project_response env snap clk v db = Inr (d, db')"
  obtains digest where "canonical_digest env (observation_dict env v) = Inr digest" "pd_projection_id d = nv_projection_id v" "pd_canonical_digest d = digest"
    and "(db' = db \<and> (\<exists>q \<in> set (rd_responses db). response_tenant q = ni_tenant_id (nv_identity v) \<and> nv_projection_id (dv_observation q) = nv_projection_id v \<and>
            dv_canonical_digest q = digest \<and> dv_disposition q = pd_disposition d)) \<or>
         (\<forall>q \<in> set (rd_responses db). (response_tenant q, ni_invocation_id (nv_identity (dv_observation q))) \<noteq> (ni_tenant_id (nv_identity v), ni_invocation_id (nv_identity v))) \<and>
            rd_responses db' = rd_responses db @ [\<lparr>dv_observation = v, dv_canonical_digest = digest, dv_disposition = pd_disposition d\<rparr>] \<and>
            pd_disposition d \<in> {''applied'', ''fenced_late''}"
proof -
  let ?i = "nv_identity v"
  let ?prior = "find (\<lambda>r. (response_tenant r, nv_projection_id (dv_observation r)) = (ni_tenant_id ?i, nv_projection_id v)) (rd_responses db)"
  from run obtain digest m cur where digest: "canonical_digest env (observation_dict env v) = Inr digest"
    and rest: "(case ?prior of
            Some r \<Rightarrow>
              if dv_canonical_digest r \<noteq> digest then Inl (StateConflict ''projection identity conflict'')
              else Inr (\<lparr>pd_projection_id = nv_projection_id v, pd_canonical_digest = digest, pd_disposition = dv_disposition r\<rparr>, db)
          | None \<Rightarrow>
              if \<exists>r \<in> set (rd_responses db). response_tenant r = ni_tenant_id ?i \<and>
                   (nv_receipt_id (dv_observation r) = nv_receipt_id v \<or> ni_invocation_id (nv_identity (dv_observation r)) = ni_invocation_id ?i)
              then Inl (StateConflict ''receipt or native response identity conflict'')
              else rbind (response_authority_ok (snap 1)) (\<lambda>_.
                if \<not> vs_producer_authenticated (snap 1) \<or> vs_committed_identity (snap 1) \<noteq> ?i
                then Inl (BoundaryRejected ''final native observation authority changed'')
                else take_in (snap 1) (clk 0) (clk 1) m v digest cur (lookup_receipt (ni_tenant_id ?i, ni_message_id ?i) ''response_received'' (rd_delivery db)) db)) = Inr (d, db')"
    unfolding project_response_def Let_def rbind_eq_Inr if_Inl_Inr case_None_Inr by (elim exE conjE) blast
  show thesis
  proof (cases ?prior)
    case (Some q)
    from rest Some have "dv_canonical_digest q = digest" "db' = db" and
      d: "d = \<lparr>pd_projection_id = nv_projection_id v, pd_canonical_digest = digest, pd_disposition = dv_disposition q\<rparr>"
      by (auto split: if_splits)
    moreover have "q \<in> set (rd_responses db) \<and> response_tenant q = ni_tenant_id ?i \<and> nv_projection_id (dv_observation q) = nv_projection_id v"
      using find_SomeD [OF Some] by simp
    ultimately show thesis by (intro that [of digest]) (auto simp: digest)
  next
    case None
    from rest None have fresh: "\<not> (\<exists>r \<in> set (rd_responses db). response_tenant r = ni_tenant_id ?i \<and>
          (nv_receipt_id (dv_observation r) = nv_receipt_id v \<or> ni_invocation_id (nv_identity (dv_observation r)) = ni_invocation_id ?i))"
      and t: "take_in (snap 1) (clk 0) (clk 1) m v digest cur (lookup_receipt (ni_tenant_id ?i, ni_message_id ?i) ''response_received'' (rd_delivery db)) db = Inr (d, db')"
      by (auto simp: if_Inl_Inr split: if_splits)
    from take_in_cases [OF t] fresh show thesis by (intro that [of digest]) (auto simp: digest)
  qed
qed

lemma project_domain_ok:
  assumes ok: "domain_ok env db" and run: "project_response env snap clk v db = Inr (d, db')"
  shows "domain_ok env db' \<and> (\<exists>qs. rd_responses db' = rd_responses db @ qs)"
proof -
  from run obtain digest where digest: "canonical_digest env (observation_dict env v) = Inr digest"
    and c: "db' = db \<or>
      (\<forall>q \<in> set (rd_responses db). (response_tenant q, ni_invocation_id (nv_identity (dv_observation q))) \<noteq> (ni_tenant_id (nv_identity v), ni_invocation_id (nv_identity v))) \<and>
            rd_responses db' = rd_responses db @ [\<lparr>dv_observation = v, dv_canonical_digest = digest, dv_disposition = pd_disposition d\<rparr>] \<and>
            pd_disposition d \<in> {''applied'', ''fenced_late''}"
    by (rule project_cases) blast
  from c show ?thesis
  proof
    assume "db' = db" then show ?thesis using ok by simp
  next
    assume n: "(\<forall>q \<in> set (rd_responses db). (response_tenant q, ni_invocation_id (nv_identity (dv_observation q))) \<noteq> (ni_tenant_id (nv_identity v), ni_invocation_id (nv_identity v))) \<and>
            rd_responses db' = rd_responses db @ [\<lparr>dv_observation = v, dv_canonical_digest = digest, dv_disposition = pd_disposition d\<rparr>] \<and>
            pd_disposition d \<in> {''applied'', ''fenced_late''}"
    then have "(ni_tenant_id (nv_identity v), ni_invocation_id (nv_identity v)) \<notin> (\<lambda>q. (response_tenant q, ni_invocation_id (nv_identity (dv_observation q)))) ` set (rd_responses db)"
      by (metis (no_types, lifting) imageE)
    then show ?thesis using ok n digest by (auto simp: domain_ok_def response_tenant_def)
  qed
qed

lemma project_answers:
  assumes run: "project_response env snap clk v db = Inr (d, db')" and ok: "domain_ok env db"
  shows "pd_projection_id d = nv_projection_id v \<and> canonical_digest env (observation_dict env v) = Inr (pd_canonical_digest d) \<and> pd_disposition d \<in> {''applied'', ''fenced_late''} \<and>
    (\<exists>q \<in> set (rd_responses db'). response_tenant q = ni_tenant_id (nv_identity v) \<and> nv_projection_id (dv_observation q) = nv_projection_id v \<and>
       dv_canonical_digest q = pd_canonical_digest d \<and> dv_disposition q = pd_disposition d)"
  using run
proof (rule project_cases, goal_cases)
  case (1 digest)
  from 1(4) show ?case
  proof (elim disjE conjE)
    assume "\<exists>q \<in> set (rd_responses db). response_tenant q = ni_tenant_id (nv_identity v) \<and> nv_projection_id (dv_observation q) = nv_projection_id v \<and>
            dv_canonical_digest q = digest \<and> dv_disposition q = pd_disposition d" and db: "db' = db"
    then obtain q where q: "q \<in> set (rd_responses db)" "response_tenant q = ni_tenant_id (nv_identity v)" "nv_projection_id (dv_observation q) = nv_projection_id v"
        "dv_canonical_digest q = digest" "dv_disposition q = pd_disposition d" by blast
    have "dv_disposition q \<in> {''applied'', ''fenced_late''}" using ok q(1) by (simp add: domain_ok_def)
    then show ?thesis using q 1(1-3) db by auto
  next
    assume n: "rd_responses db' = rd_responses db @ [\<lparr>dv_observation = v, dv_canonical_digest = digest, dv_disposition = pd_disposition d\<rparr>]"
      and dp: "pd_disposition d \<in> {''applied'', ''fenced_late''}"
    have "\<lparr>dv_observation = v, dv_canonical_digest = digest, dv_disposition = pd_disposition d\<rparr> \<in> set (rd_responses db')" (is "?q \<in> _") using n by simp
    moreover have "response_tenant ?q = ni_tenant_id (nv_identity v) \<and> nv_projection_id (dv_observation ?q) = nv_projection_id v \<and>
       dv_canonical_digest ?q = pd_canonical_digest d \<and> dv_disposition ?q = pd_disposition d" using 1(3) by (simp add: response_tenant_def)
    ultimately show ?thesis using 1(1-3) dp by blast
  qed
qed

lemma answered_mono: "answered r db \<Longrightarrow> rd_responses db' = rd_responses db @ qs \<Longrightarrow> answered r db'"
  by (auto simp: answered_def)

lemma record_outbox_ok:
  assumes ok: "outbox_ok env ob" and run: "record_response env v ob = Inr (b, ob')"
  shows "outbox_ok env ob' \<and> (ob' = ob \<or> (\<exists>digest. node_responses ob' = node_responses ob @ [node_row env v digest]))"
proof -
  let ?hits = "filter (\<lambda>r. rx_projection_id r = nv_projection_id v \<or>
         (rx_tenant_id r, rx_receipt_id r) = (ni_tenant_id (nv_identity v), nv_receipt_id v) \<or>
         (rx_tenant_id r, rx_invocation_id r) = (ni_tenant_id (nv_identity v), ni_invocation_id (nv_identity v))) (node_responses ob)"
  show ?thesis
  proof (cases ?hits)
    case (Cons r rest)
    with run show ?thesis using ok by (auto simp: record_response_def split: if_splits)
  next
    case Nil
    with run obtain digest where d: "canonical_digest env (observation_dict env v) = Inr digest" and v: "observation_ok v = Inr ()"
      and ob': "ob' = ob\<lparr>node_responses := node_responses ob @ [node_row env v digest],
                node_projections := node_projections ob @ [\<lparr>px_projection_id = nv_projection_id v, px_attempts = 0, px_last_error = None\<rparr>]\<rparr>"
      by (auto simp: record_response_def)
    have new: "nv_projection_id v \<notin> rx_projection_id ` set (node_responses ob)" using Nil by (auto simp: filter_empty_conv)
    have "row_typed env (node_row env v digest) v" using d v by (simp add: row_typed_def node_row_def)
    then show ?thesis using ok new by (auto simp: outbox_ok_def ob' node_row_def)
  qed
qed

lemma fail_outbox_ok: "outbox_ok env ob \<Longrightarrow> fail pid code ob = Inr ob' \<Longrightarrow> outbox_ok env ob' \<and> node_responses ob' = node_responses ob"
  by (auto simp: fail_def outbox_ok_def map_update_where split: if_splits)

lemma held_row:
  assumes ok: "outbox_ok env ob" and h: "holds env ob v"
  obtains r where "r \<in> set (node_responses ob)" "rx_projection_id r = nv_projection_id v" "rx_tenant_id r = ni_tenant_id (nv_identity v)"
    "canonical_digest env (observation_dict env v) = Inr (rx_canonical_digest r)"
    "find (\<lambda>r. rx_projection_id r = nv_projection_id v) (node_responses ob) = Some r"
proof -
  from h obtain r where r: "r \<in> set (node_responses ob)" "rx_payload r = observation_dict env v" by (auto simp: holds_def)
  from ok r(1) obtain u where u: "row_typed env r u" by (auto simp: outbox_ok_def)
  then have "rx_payload r = rx_payload ((node_row env u (rx_canonical_digest r))\<lparr>rx_state := rx_state r\<rparr>)"
      "rx_projection_id r = rx_projection_id ((node_row env u (rx_canonical_digest r))\<lparr>rx_state := rx_state r\<rparr>)"
      "rx_tenant_id r = rx_tenant_id ((node_row env u (rx_canonical_digest r))\<lparr>rx_state := rx_state r\<rparr>)"
    by (metis row_typed_def)+
  then have pay: "observation_dict env v = observation_dict env u" "rx_projection_id r = nv_projection_id u" "rx_tenant_id r = ni_tenant_id (nv_identity u)"
    using r(2) by (simp_all add: node_row_def)
  have d: "distinct (map rx_projection_id (node_responses ob))" using ok by (simp add: outbox_ok_def)
  have eq: "rx_projection_id r = nv_projection_id v" "rx_tenant_id r = ni_tenant_id (nv_identity v)"
    using observation_dict_inject [OF pay(1)] pay(2,3) by simp_all
  moreover have "canonical_digest env (observation_dict env v) = Inr (rx_canonical_digest r)" using u pay(1) by (simp add: row_typed_def)
  moreover have "find (\<lambda>r. rx_projection_id r = nv_projection_id v) (node_responses ob) = Some r"
    using find_Some_iff_key [OF d, of "nv_projection_id v" r] r(1) eq(1) by simp
  ultimately show thesis by (intro that [of r]) (use r(1) in simp_all)
qed

lemma row_typed_state: "row_typed env r v \<Longrightarrow> x \<in> {''pending'', ''applied'', ''fenced_late''} \<Longrightarrow> row_typed env (r\<lparr>rx_state := x\<rparr>) v"
proof -
  assume r: "row_typed env r v" and x: "x \<in> {''pending'', ''applied'', ''fenced_late''}"
  then have "r = (node_row env v (rx_canonical_digest r))\<lparr>rx_state := rx_state r\<rparr>" by (simp add: row_typed_def)
  then have "r\<lparr>rx_state := x\<rparr> = ((node_row env v (rx_canonical_digest r))\<lparr>rx_state := rx_state r\<rparr>)\<lparr>rx_state := x\<rparr>" by (rule arg_cong)
  then have "r\<lparr>rx_state := x\<rparr> = (node_row env v (rx_canonical_digest (r\<lparr>rx_state := x\<rparr>)))\<lparr>rx_state := rx_state (r\<lparr>rx_state := x\<rparr>)\<rparr>"
    by (simp add: node_row_def)
  moreover have "observation_ok v = Inr ()" "canonical_digest env (observation_dict env v) = Inr (rx_canonical_digest (r\<lparr>rx_state := x\<rparr>))"
      "rx_state (r\<lparr>rx_state := x\<rparr>) \<in> {''pending'', ''applied'', ''fenced_late''}"
    using r x by (simp_all add: row_typed_def)
  ultimately show ?thesis unfolding row_typed_def by blast
qed

lemma mark_outbox_ok:
  assumes ok: "outbox_ok env ob" and run: "mark d ob = Inr ob'"
  shows "outbox_ok env ob'"
proof -
  let ?pid = "pd_projection_id d" and ?x = "pd_disposition d"
  have dp: "?x \<in> {''applied'', ''fenced_late''}" and rows: "node_responses ob' = update_where (\<lambda>r. rx_projection_id r = ?pid) (rx_state_update (\<lambda>_. ?x)) (node_responses ob)"
    and px: "node_projections ob' = filter (\<lambda>x. px_projection_id x \<noteq> ?pid) (node_projections ob)"
    using run by (auto simp: mark_def split: if_splits option.splits)
  have typed: "\<exists>v. row_typed env r v" if "r \<in> set (node_responses ob')" for r
  proof -
    from that obtain r0 where r0: "r0 \<in> set (node_responses ob)" "r = (if rx_projection_id r0 = ?pid then r0\<lparr>rx_state := ?x\<rparr> else r0)"
      unfolding rows set_update_where by auto
    from ok r0(1) obtain v where "row_typed env r0 v" by (auto simp: outbox_ok_def)
    then show ?thesis using r0(2) row_typed_state [of env r0 v ?x] dp by auto
  qed
  have keys: "map rx_projection_id (node_responses ob') = map rx_projection_id (node_responses ob)" unfolding rows by (simp add: map_update_where)
  have "filter (\<lambda>i. i \<noteq> ?pid) (map rx_projection_id (filter (\<lambda>r. rx_state r = ''pending'') rs)) =
      map rx_projection_id (filter (\<lambda>r. rx_state r = ''pending'') (update_where (\<lambda>r. rx_projection_id r = ?pid) (rx_state_update (\<lambda>_. ?x)) rs))" for rs
    using dp by (induction rs) auto
  then have "map rx_projection_id (filter (\<lambda>r. rx_state r = ''pending'') (node_responses ob')) = filter (\<lambda>i. i \<noteq> ?pid) (map px_projection_id (node_projections ob))"
    using ok unfolding rows outbox_ok_def by metis
  also have "\<dots> = map px_projection_id (node_projections ob')" by (simp add: px filter_map comp_def)
  finally show ?thesis using typed keys ok by (simp add: outbox_ok_def)
qed

lemma mark_rows:
  assumes ok: "outbox_ok env ob" and run: "mark d ob = Inr ob'"
  shows "r \<in> set (node_responses ob) \<Longrightarrow> rx_state r \<noteq> ''pending'' \<Longrightarrow> r \<in> set (node_responses ob')"
    and "r \<in> set (node_responses ob') \<Longrightarrow> r \<in> set (node_responses ob) \<or> rx_projection_id r = pd_projection_id d \<and> rx_state r = pd_disposition d \<and>
      (\<exists>r0 \<in> set (node_responses ob). r = r0\<lparr>rx_state := pd_disposition d\<rparr> \<and> rx_projection_id r0 = pd_projection_id d)"
proof -
  let ?pid = "pd_projection_id d" and ?x = "pd_disposition d"
  have rows: "node_responses ob' = update_where (\<lambda>r. rx_projection_id r = ?pid) (rx_state_update (\<lambda>_. ?x)) (node_responses ob)"
    using run by (auto simp: mark_def split: if_splits option.splits)
  obtain r1 where r1: "find (\<lambda>r. rx_projection_id r = ?pid) (node_responses ob) = Some r1" "rx_state r1 \<in> {''pending'', ?x}"
    using run by (auto simp: mark_def split: if_splits option.splits)
  have d: "distinct (map rx_projection_id (node_responses ob))" using ok by (simp add: outbox_ok_def)
  show "r \<in> set (node_responses ob')" if r: "r \<in> set (node_responses ob)" "rx_state r \<noteq> ''pending''"
  proof (cases "rx_projection_id r = ?pid")
    case True
    then have "r = r1" using find_Some_iff_key [OF d, of ?pid r1] r1(1) key_unique [OF d, of r r1] r(1) by simp
    then have "r\<lparr>rx_state := ?x\<rparr> = r" using r1(2) r(2) by auto
    then show ?thesis using r(1) True unfolding rows set_update_where by force
  next
    case False
    then show ?thesis using r(1) unfolding rows set_update_where by force
  qed
  show "r \<in> set (node_responses ob) \<or> rx_projection_id r = ?pid \<and> rx_state r = ?x \<and> (\<exists>r0 \<in> set (node_responses ob). r = r0\<lparr>rx_state := ?x\<rparr> \<and> rx_projection_id r0 = ?pid)"
    if "r \<in> set (node_responses ob')"
    using that unfolding rows set_update_where by auto
qed

lemma settled_rows:
  assumes ok: "response_ok env (ob, db)" and h: "holds env ob v" and run: "project_response env snap clk v db = Inr (d, db')" and m: "mark d ob = Inr ob'"
  shows "response_ok env (ob', db')"
proof -
  have oo: "outbox_ok env ob" and do: "domain_ok env db" and ans: "\<And>r. r \<in> set (node_responses ob) \<Longrightarrow> rx_state r \<noteq> ''pending'' \<Longrightarrow> answered r db"
    using ok by (auto simp: response_ok_def)
  from project_domain_ok [OF do run] obtain qs where do': "domain_ok env db'" and qs: "rd_responses db' = rd_responses db @ qs" by blast
  note a = project_answers [OF run do]
  have "answered r db'" if r: "r \<in> set (node_responses ob')" "rx_state r \<noteq> ''pending''" for r
    using mark_rows(2) [OF oo m r(1)]
  proof
    assume "r \<in> set (node_responses ob)"
    then show ?thesis using ans r(2) answered_mono [OF _ qs] by blast
  next
    assume "rx_projection_id r = pd_projection_id d \<and> rx_state r = pd_disposition d \<and>
      (\<exists>r0 \<in> set (node_responses ob). r = r0\<lparr>rx_state := pd_disposition d\<rparr> \<and> rx_projection_id r0 = pd_projection_id d)"
    then obtain r0 where r0: "r0 \<in> set (node_responses ob)" "r = r0\<lparr>rx_state := pd_disposition d\<rparr>" "rx_projection_id r0 = pd_projection_id d" by blast
    obtain h0 where h0: "h0 \<in> set (node_responses ob)" "rx_projection_id h0 = nv_projection_id v" "rx_tenant_id h0 = ni_tenant_id (nv_identity v)"
        "canonical_digest env (observation_dict env v) = Inr (rx_canonical_digest h0)"
      by (rule held_row [OF oo h]) blast
    have "distinct (map rx_projection_id (node_responses ob))" using oo by (simp add: outbox_ok_def)
    then have "r0 = h0" using key_unique r0(1,3) h0(1,2) a by metis
    then have "rx_tenant_id r = ni_tenant_id (nv_identity v)" "rx_projection_id r = nv_projection_id v" "rx_canonical_digest r = pd_canonical_digest d"
        "rx_state r = pd_disposition d"
      using r0(2) h0 a by simp_all
    then show ?thesis using a by (simp add: answered_def)
  qed
  then show ?thesis using mark_outbox_ok [OF oo m] do' by (simp add: response_ok_def)
qed

lemma step_response_ok:
  assumes ok: "response_ok env s" and step: "response_step env s s'"
  shows "response_ok env s'"
  using step ok
proof cases
  case (observed v ob b ob' db)
  then have oo: "outbox_ok env ob" using ok by (simp add: response_ok_def)
  from record_outbox_ok [OF oo observed(3)] show ?thesis using ok observed(1,2) by (auto simp: response_ok_def node_row_def)
next
  case (projected snap clk v db d db' ob)
  then have "domain_ok env db" using ok by (simp add: response_ok_def)
  from project_domain_ok [OF this projected(3)] answered_mono show ?thesis using ok projected(1,2) by (fastforce simp: response_ok_def)
next
  case (settled ob v snap clk db d db' ob')
  then show ?thesis using ok settled_rows by blast
next
  case (failed pid code ob ob' db)
  then have "outbox_ok env ob" using ok by (simp add: response_ok_def)
  from fail_outbox_ok [OF this failed(3)] show ?thesis using ok failed(1,2) by (simp add: response_ok_def)
next
  case (elsewhere ob db del)
  then show ?thesis using ok by (simp add: response_ok_def domain_ok_def answered_def)
qed

interpretation resp: step_invariant "response_step env" "response_ok env" for env
  by unfold_locales (rule step_response_ok)

lemma reachable_response_ok: "response_reachable env s \<Longrightarrow> response_ok env s"
proof (induction rule: response_reachable.induct)
  case (response_start del)
  then show ?case by (simp add: response_ok_def outbox_ok_def domain_ok_def)
next
  case (response_next s s')
  then show ?case using resp.inv_step by blast
qed

lemma step_appends:
  assumes ok: "response_ok env s" and step: "response_step env s s'"
  shows "(\<exists>qs. rd_responses (snd s') = rd_responses (snd s) @ qs) \<and>
    (\<forall>r \<in> set (node_responses (fst s)). rx_state r \<noteq> ''pending'' \<longrightarrow> r \<in> set (node_responses (fst s')))"
  using step
proof cases
  case (observed v ob b ob' db)
  then have "outbox_ok env ob" using ok by (simp add: response_ok_def)
  from record_outbox_ok [OF this observed(3)] show ?thesis using observed(1,2) by auto
next
  case (projected snap clk v db d db' ob)
  then have "domain_ok env db" using ok by (simp add: response_ok_def)
  from project_domain_ok [OF this projected(3)] show ?thesis using projected(1,2) by auto
next
  case (settled ob v snap clk db d db' ob')
  then have "domain_ok env db" "outbox_ok env ob" using ok by (simp_all add: response_ok_def)
  with project_domain_ok [OF _ settled(4)] mark_rows(1) [OF _ settled(5)] show ?thesis using settled(1,2) by auto
next
  case (failed pid code ob ob' db)
  then have "outbox_ok env ob" using ok by (simp add: response_ok_def)
  from fail_outbox_ok [OF this failed(3)] show ?thesis using failed(1,2) by simp
next
  case (elsewhere ob db del)
  then show ?thesis by simp
qed

section \<open>The retry loop\<close>

definition same_at :: "string \<Rightarrow> response_outbox \<Rightarrow> response_outbox \<Rightarrow> bool" where
  "same_at pid ob ob' \<longleftrightarrow> filter (\<lambda>r. rx_projection_id r = pid) (node_responses ob') = filter (\<lambda>r. rx_projection_id r = pid) (node_responses ob) \<and>
     filter (\<lambda>x. px_projection_id x = pid) (node_projections ob') = filter (\<lambda>x. px_projection_id x = pid) (node_projections ob)"

definition progressed :: "string \<Rightarrow> response_outbox \<Rightarrow> response_outbox \<Rightarrow> bool" where
  "progressed pid ob ob' \<longleftrightarrow>
     (\<exists>r \<in> set (node_responses ob'). rx_projection_id r = pid \<and> rx_state r \<noteq> ''pending'') \<or>
     (\<exists>x \<in> set (node_projections ob). \<exists>x' \<in> set (node_projections ob'). px_projection_id x = pid \<and> px_projection_id x' = pid \<and> px_attempts x' = px_attempts x + 1)"

lemma same_at_iff:
  assumes "same_at pid ob ob'"
  shows "r \<in> set (node_responses ob') \<and> rx_projection_id r = pid \<longleftrightarrow> r \<in> set (node_responses ob) \<and> rx_projection_id r = pid"
    and "x \<in> set (node_projections ob') \<and> px_projection_id x = pid \<longleftrightarrow> x \<in> set (node_projections ob) \<and> px_projection_id x = pid"
proof -
  have "set (filter (\<lambda>r. rx_projection_id r = pid) (node_responses ob')) = set (filter (\<lambda>r. rx_projection_id r = pid) (node_responses ob))"
      "set (filter (\<lambda>x. px_projection_id x = pid) (node_projections ob')) = set (filter (\<lambda>x. px_projection_id x = pid) (node_projections ob))"
    using assms by (simp_all add: same_at_def)
  then show "r \<in> set (node_responses ob') \<and> rx_projection_id r = pid \<longleftrightarrow> r \<in> set (node_responses ob) \<and> rx_projection_id r = pid"
    and "x \<in> set (node_projections ob') \<and> px_projection_id x = pid \<longleftrightarrow> x \<in> set (node_projections ob) \<and> px_projection_id x = pid"
    by auto
qed

lemma progressed_same:
  "progressed pid ob ob1 \<Longrightarrow> same_at pid ob1 ob' \<Longrightarrow> progressed pid ob ob'" "same_at pid ob ob1 \<Longrightarrow> progressed pid ob1 ob' \<Longrightarrow> progressed pid ob ob'"
  using same_at_iff unfolding progressed_def by blast+

lemma filter_update_other:
  "p \<noteq> q \<Longrightarrow> (\<And>x. key (f x) = key x) \<Longrightarrow> filter (\<lambda>x. key x = p) (update_where (\<lambda>x. key x = q) f xs) = filter (\<lambda>x. key x = p) xs"
  by (induction xs) auto

lemma pending_distinct: "outbox_ok env ob \<Longrightarrow> distinct (map px_projection_id (node_projections ob))"
  by (simp add: outbox_ok_def distinct_map_filter)

lemma pending_row:
  assumes ok: "outbox_ok env ob" and p: "pid \<in> px_projection_id ` set (node_projections ob)" and r: "r \<in> set (node_responses ob)" "rx_projection_id r = pid"
  shows "rx_state r = ''pending''"
proof -
  have "set (map px_projection_id (node_projections ob)) = set (map rx_projection_id (filter (\<lambda>r. rx_state r = ''pending'') (node_responses ob)))"
    using ok by (simp only: outbox_ok_def)
  then obtain q where q: "q \<in> set (node_responses ob)" "rx_state q = ''pending''" "rx_projection_id q = pid" using p by auto
  have "distinct (map rx_projection_id (node_responses ob))" using ok by (simp add: outbox_ok_def)
  then have "q = r" using key_unique q r by metis
  then show ?thesis using q by simp
qed

lemma fail_total:
  assumes ok: "outbox_ok env ob" and p: "pid \<in> px_projection_id ` set (node_projections ob)"
  shows "\<exists>ob'. fail pid (error_name e) ob = Inr ob' \<and> progressed pid ob ob' \<and> (\<forall>q. q \<noteq> pid \<longrightarrow> same_at q ob ob') \<and> node_responses ob' = node_responses ob"
proof -
  let ?f = "\<lambda>x. x\<lparr>px_attempts := px_attempts x + 1, px_last_error := Some (error_name e)\<rparr>"
  let ?ob = "ob\<lparr>node_projections := update_where (\<lambda>x. px_projection_id x = pid) ?f (node_projections ob)\<rparr>"
  have e: "error_name e \<noteq> [] \<and> length (error_name e) \<le> 256" by (cases e) simp_all
  have "fail pid (error_name e) ob = Inr ?ob"
    using e filter_key_one [OF pending_distinct [OF ok] p] by (simp add: fail_def)
  moreover have "progressed pid ob ?ob"
  proof -
    from p obtain x where x: "x \<in> set (node_projections ob)" "px_projection_id x = pid" by auto
    then have "?f x \<in> set (node_projections ?ob)" by (force simp: set_update_where)
    then show ?thesis using x unfolding progressed_def by (intro disjI2 bexI [of _ x] bexI [of _ "?f x"]) simp_all
  qed
  moreover have "same_at q ob ?ob" if "q \<noteq> pid" for q
    using that by (simp add: same_at_def filter_update_other)
  ultimately show ?thesis by auto
qed

lemma mark_total:
  assumes ok: "outbox_ok env ob" and p: "nv_projection_id v \<in> px_projection_id ` set (node_projections ob)" and h: "holds env ob v"
    and d: "pd_projection_id d = nv_projection_id v" "canonical_digest env (observation_dict env v) = Inr (pd_canonical_digest d)"
      "pd_disposition d \<in> {''applied'', ''fenced_late''}"
  shows "\<exists>ob'. mark d ob = Inr ob' \<and> progressed (nv_projection_id v) ob ob' \<and> (\<forall>q. q \<noteq> nv_projection_id v \<longrightarrow> same_at q ob ob') \<and> (\<forall>u. holds env ob u \<longrightarrow> holds env ob' u)"
proof -
  let ?pid = "nv_projection_id v" and ?x = "pd_disposition d"
  let ?ob = "ob\<lparr>node_responses := update_where (\<lambda>r. rx_projection_id r = ?pid) (rx_state_update (\<lambda>_. ?x)) (node_responses ob),
                 node_projections := filter (\<lambda>x. px_projection_id x \<noteq> ?pid) (node_projections ob)\<rparr>"
  obtain r where r: "r \<in> set (node_responses ob)" "rx_projection_id r = ?pid" "canonical_digest env (observation_dict env v) = Inr (rx_canonical_digest r)"
      "find (\<lambda>r. rx_projection_id r = ?pid) (node_responses ob) = Some r"
    by (rule held_row [OF ok h]) blast
  have "rx_state r = ''pending''" by (rule pending_row [OF ok p r(1,2)])
  then have "mark d ob = Inr ?ob" using d r by (auto simp: mark_def)
  moreover have "progressed ?pid ob ?ob"
  proof -
    have "r\<lparr>rx_state := ?x\<rparr> \<in> set (node_responses ?ob)" using r(1,2) by (force simp: set_update_where)
    then show ?thesis using r(2) d(3) unfolding progressed_def by (intro disjI1 bexI [of _ "r\<lparr>rx_state := ?x\<rparr>"]) auto
  qed
  moreover have "same_at q ob ?ob" if "q \<noteq> ?pid" for q
  proof -
    have "filter (\<lambda>x. px_projection_id x = q) (filter (\<lambda>x. px_projection_id x \<noteq> ?pid) xs) = filter (\<lambda>x. px_projection_id x = q) xs" for xs
      using that by (induction xs) auto
    then show ?thesis using that by (simp add: same_at_def filter_update_other)
  qed
  moreover have "holds env ?ob u" if "holds env ob u" for u
  proof -
    have "map rx_payload (node_responses ?ob) = map rx_payload (node_responses ob)" by (simp add: map_update_where)
    then have "rx_payload ` set (node_responses ?ob) = rx_payload ` set (node_responses ob)" by (metis list.set_map)
    moreover have "holds env x u \<longleftrightarrow> observation_dict env u \<in> rx_payload ` set (node_responses x)" for x
      unfolding holds_def image_iff by metis
    ultimately show ?thesis using that by simp
  qed
  ultimately show ?thesis by blast
qed

lemma retry_one_total:
  assumes ok: "response_ok env (ob, db)" and h: "holds env ob v" and p: "nv_projection_id v \<in> px_projection_id ` set (node_projections ob)"
  shows "\<exists>d ob' db'. retry_one env w v (ob, db) = Inr (d, ob', db') \<and> response_step env (ob, db) (ob', db') \<and> progressed (nv_projection_id v) ob ob' \<and>
    (\<forall>q. q \<noteq> nv_projection_id v \<longrightarrow> same_at q ob ob') \<and> (\<forall>u. holds env ob u \<longrightarrow> holds env ob' u)"
proof -
  have oo: "outbox_ok env ob" and do: "domain_ok env db" using ok by (simp_all add: response_ok_def)
  show ?thesis
  proof (cases "project_response env (fst w) (snd w) v db")
    case (Inl e)
    from fail_total [OF oo p, of e] obtain ob' where f: "fail (nv_projection_id v) (error_name e) ob = Inr ob'" "progressed (nv_projection_id v) ob ob'"
        "\<forall>q. q \<noteq> nv_projection_id v \<longrightarrow> same_at q ob ob'" "node_responses ob' = node_responses ob" by blast
    then have "retry_one env w v (ob, db) = Inr (None, ob', db)" using Inl by (simp add: retry_one_def)
    moreover have "response_step env (ob, db) (ob', db)" by (rule failed [OF f(1)])
    ultimately show ?thesis using f by (auto simp: holds_def)
  next
    case (Inr x)
    then obtain d db' where run: "project_response env (fst w) (snd w) v db = Inr (d, db')" by (cases x) auto
    note a = project_answers [OF run do]
    from mark_total [OF oo p h, of d] a obtain ob' where m: "mark d ob = Inr ob'" "progressed (nv_projection_id v) ob ob'"
        "\<forall>q. q \<noteq> nv_projection_id v \<longrightarrow> same_at q ob ob'" "\<forall>u. holds env ob u \<longrightarrow> holds env ob' u" by blast
    then have "retry_one env w v (ob, db) = Inr (Some d, ob', db')" using run by (simp add: retry_one_def)
    moreover have "response_step env (ob, db) (ob', db')" by (rule settled [OF h run m(1)])
    ultimately show ?thesis using m by blast
  qed
qed

lemma retry_all_total:
  assumes "response_ok env (ob, db)" and "\<And>v. v \<in> set vs \<Longrightarrow> holds env ob v \<and> nv_projection_id v \<in> px_projection_id ` set (node_projections ob)"
    and "distinct (map nv_projection_id vs)"
  shows "\<exists>ds ob' db'. retry_all env w vs (ob, db) = Inr (ds, ob', db') \<and> (response_step env)\<^sup>*\<^sup>* (ob, db) (ob', db') \<and>
    (\<forall>v \<in> set vs. progressed (nv_projection_id v) ob ob') \<and> (\<forall>q. q \<notin> nv_projection_id ` set vs \<longrightarrow> same_at q ob ob')"
  using assms
proof (induction vs arbitrary: ob db)
  case Nil
  then show ?case by (simp add: same_at_def)
next
  case (Cons v vs)
  from retry_one_total [OF Cons.prems(1), of v "w v"] Cons.prems(2) [of v] obtain d ob1 db1 where
    one: "retry_one env (w v) v (ob, db) = Inr (d, ob1, db1)" "response_step env (ob, db) (ob1, db1)" "progressed (nv_projection_id v) ob ob1"
      "\<forall>q. q \<noteq> nv_projection_id v \<longrightarrow> same_at q ob ob1" "\<forall>u. holds env ob u \<longrightarrow> holds env ob1 u"
    by auto
  have ok1: "response_ok env (ob1, db1)" by (rule step_response_ok [OF Cons.prems(1) one(2)])
  have other: "nv_projection_id u \<noteq> nv_projection_id v" if "u \<in> set vs" for u
    using Cons.prems(3) that by (simp add: image_iff) metis
  have "holds env ob1 u \<and> nv_projection_id u \<in> px_projection_id ` set (node_projections ob1)" if u: "u \<in> set vs" for u
  proof -
    from Cons.prems(2) [of u] u obtain x where x: "x \<in> set (node_projections ob)" "px_projection_id x = nv_projection_id u" by auto
    then have "x \<in> set (node_projections ob1)" using one(4) other [OF u] same_at_iff(2) by blast
    then have "nv_projection_id u \<in> px_projection_id ` set (node_projections ob1)" using x(2) by (metis imageI)
    moreover have "holds env ob1 u" using Cons.prems(2) [of u] u one(5) by simp
    ultimately show ?thesis by blast
  qed
  from Cons.IH [OF ok1 this] Cons.prems(3) obtain ds ob' db' where
    rest: "retry_all env w vs (ob1, db1) = Inr (ds, ob', db')" "(response_step env)\<^sup>*\<^sup>* (ob1, db1) (ob', db')"
      "\<forall>v \<in> set vs. progressed (nv_projection_id v) ob1 ob'" "\<forall>q. q \<notin> nv_projection_id ` set vs \<longrightarrow> same_at q ob1 ob'"
    by auto
  have "same_at (nv_projection_id v) ob1 ob'" using rest(4) Cons.prems(3) by simp
  then have head: "progressed (nv_projection_id v) ob ob'" using one(3) progressed_same(1) by blast
  have tail: "progressed (nv_projection_id u) ob ob'" if "u \<in> set vs" for u
    using rest(3) one(4) other [OF that] that progressed_same(2) by blast
  have keep: "same_at q ob ob'" if "q \<notin> nv_projection_id ` set (v # vs)" for q
    using that one(4) rest(4) by (auto simp: same_at_def)
  have "\<exists>dss. retry_all env w (v # vs) (ob, db) = Inr (dss, ob', db')" using one(1) rest(1) by simp
  moreover have "(response_step env)\<^sup>*\<^sup>* (ob, db) (ob', db')" using one(2) rest(2) by (rule converse_rtranclp_into_rtranclp)
  ultimately show ?case using head tail keep by auto
qed

lemma joined_fst:
  "(\<And>x. x \<in> set xs \<Longrightarrow> length (filter (P x) ys) = 1) \<Longrightarrow> map fst (concat (map (\<lambda>x. map (Pair x) (filter (P x) ys)) xs)) = xs"
proof (induction xs)
  case (Cons x xs)
  have "length (filter (P x) ys) = 1" using Cons.prems by simp
  then obtain y where "filter (P x) ys = [y]" by (cases "filter (P x) ys") auto
  moreover have "map fst (concat (map (\<lambda>x. map (Pair x) (filter (P x) ys)) xs)) = xs" using Cons by simp
  ultimately show ?case by simp
qed simp

lemma pending_rows:
  assumes ok: "outbox_ok env ob"
  shows "map fst (joined ob) = node_projections ob"
  unfolding joined_def
proof (rule joined_fst)
  fix x
  assume x: "x \<in> set (node_projections ob)"
  have "set (map px_projection_id (node_projections ob)) = set (map rx_projection_id (filter (\<lambda>r. rx_state r = ''pending'') (node_responses ob)))"
    using ok by (simp only: outbox_ok_def)
  then have "px_projection_id x \<in> rx_projection_id ` set (node_responses ob)" using x by auto
  moreover have "distinct (map rx_projection_id (node_responses ob))" using ok by (simp add: outbox_ok_def)
  ultimately show "length (filter (\<lambda>r. rx_projection_id r = px_projection_id x) (node_responses ob)) = 1" by (intro filter_key_one)
qed

lemma typed_payload:
  assumes "row_typed env r v"
  shows "rx_payload r = observation_dict env v" "rx_projection_id r = nv_projection_id v" "rx_tenant_id r = ni_tenant_id (nv_identity v)"
    "rx_receipt_id r = nv_receipt_id v" "rx_invocation_id r = ni_invocation_id (nv_identity v)" "rx_native_response_ref r = nv_native_response_ref v"
proof -
  have "r = (node_row env v (rx_canonical_digest r))\<lparr>rx_state := rx_state r\<rparr>" using assms by (simp add: row_typed_def)
  then obtain g y where "r = (node_row env v g)\<lparr>rx_state := y\<rparr>" by blast
  then show "rx_payload r = observation_dict env v" "rx_projection_id r = nv_projection_id v" "rx_tenant_id r = ni_tenant_id (nv_identity v)"
    "rx_receipt_id r = nv_receipt_id v" "rx_invocation_id r = ni_invocation_id (nv_identity v)" "rx_native_response_ref r = nv_native_response_ref v"
    by (simp_all add: node_row_def)
qed

lemma joined_rows: "p \<in> set (joined ob) \<Longrightarrow> snd p \<in> set (node_responses ob) \<and> rx_projection_id (snd p) = px_projection_id (fst p)"
  by (auto simp: joined_def)

lemma joined_read:
  assumes ok: "outbox_ok env ob" and iso: "\<And>t. fromiso (isoformat env (DT t (Some 0))) = Some t" and p: "p \<in> set (joined ob)"
  shows "\<exists>v. native_observation_from_dict fromiso (rx_payload (snd p)) = Inr v \<and> holds env ob v \<and> nv_projection_id v = px_projection_id (fst p)"
proof -
  have p': "snd p \<in> set (node_responses ob)" "rx_projection_id (snd p) = px_projection_id (fst p)" using joined_rows [OF p] by simp_all
  then obtain v where v: "row_typed env (snd p) v" using ok unfolding outbox_ok_def by blast
  have "observation_ok v = Inr ()" using v by (simp add: row_typed_def)
  then have "native_observation_from_dict fromiso (observation_dict env v) = Inr v" using iso by (rule observation_roundtrip)
  moreover have "holds env ob v" unfolding holds_def using p'(1) typed_payload(1) [OF v] by blast
  ultimately show ?thesis using typed_payload(1,2) [OF v] p'(2) by auto
qed

lemma traverse_total:
  assumes "\<And>x. x \<in> set xs \<Longrightarrow> \<exists>v. f x = Inr v \<and> P v \<and> key v = k x"
  shows "\<exists>vs. traverse f xs = Inr vs \<and> (\<forall>v \<in> set vs. P v) \<and> map key vs = map k xs"
  using assms
proof (induction xs)
  case (Cons x xs)
  then obtain vs where "traverse f xs = Inr vs" "\<forall>v \<in> set vs. P v" "map key vs = map k xs" by auto
  moreover obtain v where "f x = Inr v" "P v" "key v = k x" using Cons.prems [of x] by auto
  ultimately have "traverse f (x # xs) = Inr (v # vs)" "\<forall>v \<in> set (v # vs). P v" "map key (v # vs) = map k (x # xs)" by simp_all
  then show ?case by blast
qed simp

lemma pending_total:
  assumes ok: "outbox_ok env ob" and iso: "\<And>t. fromiso (isoformat env (DT t (Some 0))) = Some t" and limit: "1 \<le> limit" "limit \<le> 128"
  shows "\<exists>vs. pending fromiso limit ob = Inr vs \<and> (\<forall>v \<in> set vs. holds env ob v) \<and>
    map nv_projection_id vs = take limit (map px_projection_id (node_projections ob))"
proof -
  let ?f = "\<lambda>p :: projection_row \<times> node_response_row. native_observation_from_dict fromiso (rx_payload (snd p))"
  have "\<exists>vs. traverse ?f (take limit (joined ob)) = Inr vs \<and> (\<forall>v \<in> set vs. holds env ob v) \<and>
      map nv_projection_id vs = map (\<lambda>p. px_projection_id (fst p)) (take limit (joined ob))"
    by (rule traverse_total) (rule joined_read [OF ok iso in_set_takeD])
  moreover have "map (\<lambda>p. px_projection_id (fst p)) (take limit (joined ob)) = take limit (map px_projection_id (map fst (joined ob)))"
    by (simp add: take_map)
  moreover have "(\<lambda>(x :: projection_row, r :: node_response_row). native_observation_from_dict fromiso (rx_payload r)) = ?f" by (simp add: fun_eq_iff split_def)
  ultimately show ?thesis using limit unfolding pending_def pending_rows [OF ok] by simp
qed

section \<open>Sample runs\<close>

lemma recorded_reachable: "response_reachable response_env (node_outbox_1, domain_db_0)"
proof -
  have "response_reachable response_env (node_outbox_0, domain_db_0)" unfolding node_outbox_0_def domain_db_0_def by (rule response_start)
  moreover have "response_step response_env (node_outbox_0, domain_db_0) (node_outbox_1, domain_db_0)" by (rule observed [OF recorded_run])
  ultimately show ?thesis by (rule response_next)
qed

lemma response_iso: "plain_fromiso (isoformat response_env (DT t (Some 0))) = Some t"
  by (simp add: response_env_def plain_roundtrip)

lemma settled_reachable: "\<exists>db. response_reachable response_env (node_outbox_2, db)"
proof -
  obtain db where p: "project_response response_env (\<lambda>_. response_authority_1) (\<lambda>_. 9) response_1 domain_db_0 = Inr (response_answer, db)"
    using projected_run by blast
  have "holds response_env node_outbox_1 response_1" by (simp add: holds_def node_outbox_1_def node_row_def)
  then have "response_step response_env (node_outbox_1, domain_db_0) (node_outbox_2, db)" using p marked_run by (rule settled)
  with recorded_reachable have "response_reachable response_env (node_outbox_2, db)" by (rule response_next)
  then show ?thesis by blast
qed

section \<open>Properties\<close>

text \<open>
  C5. The rows of a Node's outbox are well typed. In every reachable state each row reads back to a valid
  observation, its columns are the fields of that observation, its digest is the digest of its payload, and
  its state is one of the three the schema allows. \<open>fromisoformat\<close> reads back what \<open>isoformat\<close> writes.
\<close>

theorem outbox_rows_typed:
  assumes reach: "response_reachable env s" and iso: "\<And>t. fromiso (isoformat env (DT t (Some 0))) = Some t"
    and r: "r \<in> set (node_responses (fst s))"
  shows "\<exists>v. native_observation_from_dict fromiso (rx_payload r) = Inr v \<and> observation_ok v = Inr () \<and>
    rx_projection_id r = nv_projection_id v \<and> rx_tenant_id r = ni_tenant_id (nv_identity v) \<and> rx_receipt_id r = nv_receipt_id v \<and>
    rx_invocation_id r = ni_invocation_id (nv_identity v) \<and> rx_native_response_ref r = nv_native_response_ref v \<and>
    canonical_digest env (rx_payload r) = Inr (rx_canonical_digest r) \<and> rx_state r \<in> {''pending'', ''applied'', ''fenced_late''}"
proof -
  from reachable_response_ok [OF reach] r obtain v where v: "row_typed env r v" by (auto simp: response_ok_def outbox_ok_def)
  have "native_observation_from_dict fromiso (rx_payload r) = Inr v"
    using v typed_payload(1) [OF v] observation_roundtrip [of v fromiso env] iso by (simp add: row_typed_def)
  then show ?thesis using v typed_payload [OF v] by (auto simp: row_typed_def)
qed

theorem outbox_rows_typed_witness:
  "\<exists>db. response_reachable response_env (node_outbox_2, db) \<and>
     (\<exists>v. native_observation_from_dict plain_fromiso (rx_payload (hd (node_responses node_outbox_2))) = Inr v \<and> observation_ok v = Inr () \<and>
        nv_projection_id v = ''p1'')"
proof -
  obtain db where r: "response_reachable response_env (node_outbox_2, db)" using settled_reachable by blast
  have h: "hd (node_responses node_outbox_2) \<in> set (node_responses node_outbox_2)" "rx_projection_id (hd (node_responses node_outbox_2)) = ''p1''"
    by (simp_all add: node_outbox_2_def node_row_def response_1_def)
  from outbox_rows_typed [OF r response_iso, of "hd (node_responses node_outbox_2)"] h r show ?thesis by auto
qed

text \<open>
  C26. A response is taken in once. In every reachable state an answer a Node has recorded is the answer of
  the domain for the same tenant, projection and digest, and the domain has at most one answer for an
  invocation; and no step, whatever it cuts, changes or removes an answer of either.
\<close>

theorem response_settled_once:
  assumes reach: "response_reachable env s" and step: "response_step env s s'"
  shows "(\<forall>r \<in> set (node_responses (fst s)). rx_state r \<noteq> ''pending'' \<longrightarrow>
      (\<exists>q \<in> set (rd_responses (snd s)). response_tenant q = rx_tenant_id r \<and> nv_projection_id (dv_observation q) = rx_projection_id r \<and>
         dv_canonical_digest q = rx_canonical_digest r \<and> dv_disposition q = rx_state r) \<and> r \<in> set (node_responses (fst s'))) \<and>
    (\<forall>p \<in> set (rd_responses (snd s')). \<forall>q \<in> set (rd_responses (snd s')).
       (response_tenant p, ni_invocation_id (nv_identity (dv_observation p))) = (response_tenant q, ni_invocation_id (nv_identity (dv_observation q))) \<longrightarrow> p = q) \<and>
    (\<exists>qs. rd_responses (snd s') = rd_responses (snd s) @ qs)"
proof -
  have ok: "response_ok env s" by (rule reachable_response_ok [OF reach])
  have "domain_ok env (snd s')" using step_response_ok [OF ok step] by (simp add: response_ok_def)
  then have d: "distinct (map (\<lambda>q. (response_tenant q, ni_invocation_id (nv_identity (dv_observation q)))) (rd_responses (snd s')))"
    by (simp add: domain_ok_def)
  have "\<forall>r \<in> set (node_responses (fst s)). rx_state r \<noteq> ''pending'' \<longrightarrow> answered r (snd s)" using ok by (simp add: response_ok_def)
  then show ?thesis using step_appends [OF ok step] key_unique [OF d] unfolding answered_def by blast
qed

theorem response_settled_once_witness:
  "\<exists>db del. response_step response_env (node_outbox_2, db) (node_outbox_2, db\<lparr>rd_delivery := del\<rparr>) \<and>
     (\<exists>q \<in> set (rd_responses db). nv_projection_id (dv_observation q) = ''p1'' \<and> dv_disposition q = ''applied'')"
proof -
  obtain db where r: "response_reachable response_env (node_outbox_2, db)" using settled_reachable by blast
  have st: "response_step response_env (node_outbox_2, db) (node_outbox_2, db\<lparr>rd_delivery := dispatched_db\<rparr>)" by (rule elsewhere)
  have h: "\<exists>x \<in> set (node_responses node_outbox_2). rx_state x = ''applied'' \<and> rx_projection_id x = ''p1''"
    by (simp add: node_outbox_2_def node_row_def response_1_def)
  from response_settled_once [OF r st, THEN conjunct1] h
  have "\<exists>q \<in> set (rd_responses db). nv_projection_id (dv_observation q) = ''p1'' \<and> dv_disposition q = ''applied''" by fastforce
  with st show ?thesis by blast
qed

text \<open>
  C33. The retry loop runs to its end. From every reachable state and whatever the domain answers,
  \<open>retry_pending\<close> returns: neither its marks nor its failure records raise. It is a sequence of steps of the
  system, and every observation it took up is afterwards either settled or pending with one more attempt.
\<close>

theorem retry_pending_completes:
  assumes reach: "response_reachable env (ob, db)" and iso: "\<And>t. fromiso (isoformat env (DT t (Some 0))) = Some t" and limit: "1 \<le> limit" "limit \<le> 128"
  shows "\<exists>ds ob' db'. retry_pending env fromiso w limit (ob, db) = Inr (ds, ob', db') \<and> (response_step env)\<^sup>*\<^sup>* (ob, db) (ob', db') \<and>
    (\<forall>x \<in> set (take limit (node_projections ob)).
       (\<exists>r \<in> set (node_responses ob'). rx_projection_id r = px_projection_id x \<and> rx_state r \<noteq> ''pending'') \<or>
       (\<exists>x' \<in> set (node_projections ob'). px_projection_id x' = px_projection_id x \<and> px_attempts x' = px_attempts x + 1))"
proof -
  have ok: "response_ok env (ob, db)" by (rule reachable_response_ok [OF reach])
  then have oo: "outbox_ok env ob" by (simp add: response_ok_def)
  from pending_total [OF oo iso limit] obtain vs where vs: "pending fromiso limit ob = Inr vs" "\<forall>v \<in> set vs. holds env ob v"
      "map nv_projection_id vs = take limit (map px_projection_id (node_projections ob))" by blast
  have "set (map nv_projection_id vs) = set (take limit (map px_projection_id (node_projections ob)))" using vs(3) by simp
  then have ids: "nv_projection_id ` set vs = px_projection_id ` set (take limit (node_projections ob))" by (simp add: take_map)
  have "holds env ob v \<and> nv_projection_id v \<in> px_projection_id ` set (node_projections ob)" if "v \<in> set vs" for v
    using that vs(2) ids by (metis imageI image_mono set_take_subset subsetD)
  moreover have "distinct (map nv_projection_id vs)" using vs(3) pending_distinct [OF oo] by simp
  ultimately obtain ds ob' db' where run: "retry_all env w vs (ob, db) = Inr (ds, ob', db')" "(response_step env)\<^sup>*\<^sup>* (ob, db) (ob', db')"
      "\<forall>v \<in> set vs. progressed (nv_projection_id v) ob ob'"
    using retry_all_total [OF ok, of vs w] by auto
  have "(\<exists>r \<in> set (node_responses ob'). rx_projection_id r = px_projection_id x \<and> rx_state r \<noteq> ''pending'') \<or>
       (\<exists>x' \<in> set (node_projections ob'). px_projection_id x' = px_projection_id x \<and> px_attempts x' = px_attempts x + 1)"
    if x: "x \<in> set (take limit (node_projections ob))" for x
  proof -
    have "px_projection_id x \<in> nv_projection_id ` set vs" using ids x by simp
    then have pr: "progressed (px_projection_id x) ob ob'" using run(3) by auto
    have "y = x" if "y \<in> set (node_projections ob)" "px_projection_id y = px_projection_id x" for y
      using that key_unique [OF pending_distinct [OF oo]] in_set_takeD [OF x] by blast
    then show ?thesis using pr unfolding progressed_def by blast
  qed
  then show ?thesis using run vs(1) by (auto simp: retry_pending_def)
qed

theorem retry_pending_completes_witness:
  "response_reachable response_env (node_outbox_1, domain_db_0) \<and>
   (\<exists>ds ob db. retry_pending response_env plain_fromiso (\<lambda>_. (\<lambda>_. response_authority_1, \<lambda>_. 9)) 8 (node_outbox_1, domain_db_0) = Inr (ds, ob, db))"
proof -
  have "1 \<le> (8 :: nat)" "(8 :: nat) \<le> 128" by simp_all
  from retry_pending_completes [OF recorded_reachable response_iso this] show ?thesis using recorded_reachable by blast
qed

end
