(* ===== verification/Spec2Isabelle.thy ===== *)
theory Spec2Isabelle
  imports Delivery_Sends Effect_Properties Artifact_Store Machine_Filesystem Connection_Clock Bridge_Properties Response_Properties
begin

text \<open>
  A verification development for the runtime of the Agent Collaboration System, the Python
  package under \<open>src/runtime\<close>.

  \<^bold>\<open>The program.\<close> A collaboration runtime lets agents work on shared projects. Its core is a set
  of authorities over one PostgreSQL database and one journal per machine. The domain authority
  decides who may do what and makes every command take effect once; the lease authority hands
  out exclusive, fenced leases; the delivery ledger takes a message from its sender to the
  receiving endpoint with at-most-once dispatch; the node journal on each machine records the
  operations, receipts and process spawns that carry it out; the file effect gateway writes
  protected files under a held lease. When every automatic path of a message has failed, the
  incident authority asks a human and takes the message back by hand. A response that arrives
  late is kept in an outbox on the machine until the domain has taken it in or fenced it. Beside them stand the
  content-addressed artifact stores, the file operations a machine offers (patches, listings and
  edits) and the clock by which a client estimates the time of an authority.

  \<^bold>\<open>Conventions.\<close> A Python exception is a value: operations return \<open>exn + 'a\<close> and are sequenced
  by \<open>rbind\<close> (\<open>Runtime_Errors\<close>, \<open>ACS_Prelude\<close>). A table is a list of row records; unique keys,
  CHECK constraints and foreign keys are the error branches of the inserts. A transaction is a
  function from the database to a result and the new database, so it commits as a whole or
  not at all; a call of several transactions is their composition, and what happens between
  them is an argument. Clock readings are \<open>clk :: nat \<Rightarrow> int\<close>, one per reading of the code, in
  microseconds; fresh identifiers are arguments. Python values that reach JSON are \<open>pyval\<close>.
  SHA-256, \<open>isoformat\<close> and \<open>json.loads\<close> are arguments (\<open>hash_env\<close>, \<open>sha\<close>); where a property
  needs SHA-256 to be free of collisions it says so.

  \<^bold>\<open>The theories.\<close>
  \<^item> \<open>ACS_Prelude\<close>: results, tables, and the interfaces \<open>row_store\<close>, \<open>step_invariant\<close>,
    \<open>ranked_steps\<close>, \<open>idempotent_journal\<close>. \<open>Runtime_Errors\<close>: \<open>errors.py\<close>.
  \<^item> \<open>Json_Payload\<close> (\<open>json_payload.py\<close>): bounded payloads, equivalent to a recursive
    specification (C1), and their round trip (C2).
  \<^item> \<open>Project_Common\<close> (\<open>project_common.py\<close>): handles round trip (C3), pagination visits every
    row once.
  \<^item> \<open>Command_Models\<close> (\<open>models.py\<close>, \<open>lifetimes.py\<close>): command envelopes, evidence, artifact paths.
    \<open>Permissions\<close> (\<open>communication_permissions.py\<close>, \<open>agent_organization.py\<close>): profile
    inheritance and management tools. \<open>Migrations\<close> (\<open>migrations.py\<close>): replays only of the recorded
    command.
  \<^item> \<open>Connection_Clock\<close> (\<open>connection_clock.py\<close>): the time of the authority, estimated from round trips,
    lies in the reported interval up to a slack that the configuration determines, whatever calls were made and
    failed, so deadlines are neither missed nor expired early by more than that (C9).
  \<^item> \<open>Artifact_Store\<close> (\<open>artifacts.py\<close>): the POSIX and the Windows store keep one contract, the locale
    \<open>content_store\<close>: what is put reads back, and changed files are detected (C6).
  \<^item> \<open>Filesystem_Patch\<close> (\<open>filesystem_patch.py\<close>): the scan of a patch over a file computes its
    declarative meaning \<open>placed\<close> (C7), and the report of a patch over several files says what happened
    to them under any fault (C8). \<open>Machine_Filesystem\<close> (\<open>machine_filesystem.py\<close>): glob matching by
    position sets is recursive matching (C13); the walk has every entry of a tree with links
    exactly once at its path, and the pages of a listing are its rows within their bounds (C25); unique edits.
  \<^item> \<open>Node_Journal\<close>, \<open>Node_Spawn\<close> (\<open>node.py\<close>): append-only operations, mailbox and receipts
    (C10, C11), spawn dispatch at most once, final states, fenced boots, and observations behind
    every completion (C14 to C18).
  \<^item> \<open>Authority_Store\<close>, \<open>Domain_Authority\<close> (\<open>domain.py\<close>): authorization by live identities and scopes, with live,
    attenuating delegation chains in the shared mode (C19, C20), commands that take effect once (C21).
  \<^item> \<open>Lease_Authority\<close> (\<open>lease_authority.py\<close>): mutual exclusion and fencing (C23, C24), grants only
    over expired leases (C34), final states.
  \<^item> \<open>Delivery_Models\<close> (\<open>delivery_models.py\<close>, \<open>logical_payload\<close> and \<open>invocation_for\<close> of
    \<open>delivery_node.py\<close>) and \<open>Delivery_Store\<close> (the tables of \<open>communication_core_schema.sql\<close> and its
    siblings).
  \<^item> \<open>Communication_Faults\<close> (\<open>communication_faults.py\<close>): supervisor chains stay acyclic (C27), an
    obstacle is notified once, to the recipient the relation selects (C28). \<open>Communication_Boundary\<close> (\<open>communication_boundary\<close> of
    \<open>communication.py\<close>, \<open>communication_wait_ingress.py\<close>).
  \<^item> \<open>Delivery_Service\<close>, \<open>Delivery_Dispatch\<close>, \<open>Delivery_Attempts\<close>, \<open>Delivery_Recovery\<close>
    (\<open>delivery.py\<close>): binding, sending, loading, the transactions of \<open>dispatch\<close> and their
    composition, recovery and reconciliation of Attempts.
  \<^item> \<open>Delivery_Views\<close> to \<open>Delivery_Steps\<close>: the ledger invariant, one preservation lemma per
    transaction, and the step relation \<open>delivery_step\<close>. \<open>Delivery_Samples\<close>: a concrete message.
    \<open>Delivery_Properties\<close>: consistency, the attempt budget, no retry after the dispatch marker,
    append-only receipts, inert settled messages, refinement of an abstract
    lifecycle machine, and settling of a spent budget (C29 to C32, C35, C36). \<open>Delivery_Sends\<close>: what
    \<open>send_message\<close> commits is what the dispatcher demands (C37).
  \<^item> \<open>Effect_Gateway\<close> (\<open>effects.py\<close>), \<open>Effect_Journal\<close> (every disk a call can leave behind is
    reached by the journal's visible changes), \<open>Effect_Safety\<close> (the journal invariant),
    \<open>Effect_Resume\<close>, \<open>Effect_Properties\<close>: files are replaced at most once per operation whatever
    is cut where (C38), pending operations are completed by a resume (C39), and every
    change is preceded by a check of the lease, so that a superseded one changes no file (C40, with \<open>hold_fence\<close> of the
    lease authority).
  \<^item> \<open>Recovery_Models\<close> (\<open>recovery_models.py\<close>): the values of the recovery boundary and the reference
    coordinator of incidents. \<open>Human_Bridge\<close> (\<open>PostgresHumanBridgeAuthority\<close> of \<open>recovery.py\<close>): the same
    state machine as transactions over tables. \<open>Bridge_Refinement\<close>, \<open>Bridge_Simulation\<close>,
    \<open>Bridge_Samples\<close>, \<open>Bridge_Properties\<close>: the effects of its methods, the forward simulation to the
    coordinator (C4), the exclusion of manual and automatic recovery (C12), and final incidents (C22).
  \<^item> \<open>Response_Outbox\<close> (\<open>NodeResponseOutbox\<close> and \<open>PostgresDelayedResponseAuthority\<close> of \<open>recovery.py\<close>, their
    values in \<open>recovery_models.py\<close>, \<open>retry_pending\<close> of \<open>response_collector.py\<close>), \<open>Response_Samples\<close>,
    \<open>Response_Properties\<close>: the rows of an outbox are well typed (C5), a response is taken in once and both
    sides agree on the answer, whatever is cut between them (C26), and the retry loop runs to its end with
    every response settled or counted (C33).

  \<^bold>\<open>Interfaces.\<close> \<open>row_store\<close> is interpreted by the journal, mailbox, receipt and spawn tables;
  \<open>idempotent_journal\<close> by the command deduplication of the domain authority and of the lease
  authority; \<open>step_invariant\<close> and \<open>ranked_steps\<close> by the node journal, the leases, the notices of obstacles, the delivery
  ledger, the effect journal and the delayed responses; \<open>content_store\<close> by both artifact stores.

  \<^bold>\<open>Bounds.\<close> The supervisor walk of \<open>bind_supervisor\<close> stops after 128 managers and the Grant
  ancestry after nine, as in the code; an attempt budget is at most eight because the packet
  models say so. All other recursions are structural or have a termination proof; nothing runs
  on fuel of the model's own.

  \<^bold>\<open>Parameters.\<close> The endpoint, the resolver and the receiver wake of a dispatch are arguments.
  The steps of \<open>delivery_step\<close>, over which the properties of the ledger are stated, assume two things of them: what an endpoint
  returns is in a terminal status, as documented (\<open>settles\<close>), and the attachments of a message do not change under a
  call (\<open>attachments_steady\<close>). For endpoints that do otherwise these properties say nothing. A call of an endpoint
  acts on the ledger only through the two callbacks the code hands it.

  \<^bold>\<open>Not modelled.\<close> Characters are below 256 and floats are their \<open>repr\<close>. Integers of more than
  4300 digits, which \<open>json.dumps\<close> refuses, are refused where values from outside are encoded (\<open>ints_print\<close>), and taken
  not to occur where the code hashes its own records. Advisory locks,
  \<open>FOR UPDATE\<close> and isolation levels: transactions are serialized, and a busy lock is an argument.
  JSON columns hold the validated value. Writers of the delivery ledger outside \<open>delivery.py\<close>
  (the wait ingress of \<open>communication.py\<close>, \<open>communication_delivery_observer.py\<close>, the pacing of
  \<open>communication_dispatch.py\<close>, \<open>settle_response\<close> of \<open>recovery.py\<close>) are not steps of \<open>delivery_step\<close>.
  Directories, links and modes of patched files are left out, as are \<open>_read_file\<close>, \<open>_grep\<close> and the
  dispatch \<open>execute\<close> of \<open>machine_filesystem.py\<close>; \<open>fnmatch\<close> and JSON sizes are arguments there.
  Directory descriptors, \<open>flock\<close> and \<open>fsync\<close> of the effect gateway are left out; its temporary
  files are invisible. The HTTP and MCP surfaces, the harness drivers, receivers, source
  capture, the command surface of the recovery service, the collector
  of harness output (\<open>DriverCollectorAdapter\<close>, \<open>_collect\<close>), enrollment, Temporal workflows, scripts and the acceptance
  tools are not modelled: they drive external processes or present what the modelled services
  decide.
\<close>

end
